(* ===== verification/Prelude.thy ===== *)
theory Prelude
  imports Main "HOL-Library.Word"
begin

text \<open>
  The shared vocabulary of the development: the C integer types the firmware
  and the host helpers use, the comparison of wrapping 32 bit clocks, and the
  effect of a firmware function.  A firmware function runs on a machine state;
  it returns a value, or leaves through \<open>shutdown()\<close> (a \<open>longjmp\<close> that
  keeps the state reached so far), or its behaviour is undefined in C (a NULL
  pointer was followed, an array was read out of range, or a loop did not end
  within the bound the model gives it).
\<close>

unbundle bit_operations_syntax

subsection \<open>Machine integers\<close>

type_synonym u8 = "8 word"
type_synonym u16 = "16 word"
type_synonym u32 = "32 word"
type_synonym u64 = "64 word"

text \<open>
  C conversions: an unsigned narrowing keeps the low bits (\<open>ucast\<close>), a signed
  widening copies the sign bit (\<open>scast\<close>).
\<close>

abbreviation to_u8 :: "'a::len word \<Rightarrow> u8" where "to_u8 \<equiv> ucast"
abbreviation to_u16 :: "'a::len word \<Rightarrow> u16" where "to_u16 \<equiv> ucast"
abbreviation to_u32 :: "'a::len word \<Rightarrow> u32" where "to_u32 \<equiv> ucast"
abbreviation to_u64 :: "'a::len word \<Rightarrow> u64" where "to_u64 \<equiv> ucast"

lemma not_bit_beyond:
  "8 \<le> n \<Longrightarrow> \<not> bit (a :: u8) n"
  "16 \<le> n \<Longrightarrow> \<not> bit (b :: u16) n"
  "32 \<le> n \<Longrightarrow> \<not> bit (c :: u32) n"
  by (auto dest: bit_imp_le_length)

text \<open>The bits of the masks and flags of the wire format.\<close>

lemma bit_0x80: "bit (0x80 :: int) n \<longleftrightarrow> n = 7"
proof -
  have "bit (0x80 :: int) n = bit (2 ^ 7 :: int) n" by simp
  also have "\<dots> \<longleftrightarrow> n = 7" by (auto simp only: bit_exp_iff bit_mask_iff possible_bit_int)
  finally show ?thesis .
qed

lemma bit_0x10: "bit (0x10 :: int) n \<longleftrightarrow> n = 4"
proof -
  have "bit (0x10 :: int) n = bit (2 ^ 4 :: int) n" by simp
  also have "\<dots> \<longleftrightarrow> n = 4" by (auto simp only: bit_exp_iff bit_mask_iff possible_bit_int)
  finally show ?thesis .
qed

lemma bit_0x7f: "bit (0x7f :: int) n \<longleftrightarrow> n < 7"
proof -
  have "bit (0x7f :: int) n = bit (mask 7 :: int) n" by (simp add: mask_eq_exp_minus_1)
  also have "\<dots> \<longleftrightarrow> n < 7" by (auto simp only: bit_exp_iff bit_mask_iff possible_bit_int)
  finally show ?thesis .
qed

lemma bit_0x0f: "bit (0x0f :: int) n \<longleftrightarrow> n < 4"
proof -
  have "bit (0x0f :: int) n = bit (mask 4 :: int) n" by (simp add: mask_eq_exp_minus_1)
  also have "\<dots> \<longleftrightarrow> n < 4" by (auto simp only: bit_exp_iff bit_mask_iff possible_bit_int)
  finally show ?thesis .
qed

lemma bit_0xff: "bit (0xff :: int) n \<longleftrightarrow> n < 8"
proof -
  have "bit (0xff :: int) n = bit (mask 8 :: int) n" by (simp add: mask_eq_exp_minus_1)
  also have "\<dots> \<longleftrightarrow> n < 8" by (auto simp only: bit_exp_iff bit_mask_iff possible_bit_int)
  finally show ?thesis .
qed

lemma bit_0x1f: "bit (0x1f :: int) n \<longleftrightarrow> n < 5"
proof -
  have "bit (0x1f :: int) n = bit (mask 5 :: int) n" by (simp add: mask_eq_exp_minus_1)
  also have "\<dots> \<longleftrightarrow> n < 5" by (auto simp only: bit_mask_iff possible_bit_int)
  finally show ?thesis .
qed

lemmas bit_consts = bit_0x1f bit_0x80 bit_0x10 bit_0x7f bit_0x0f bit_0xff

text \<open>C's integer division truncates towards zero; \<open>div\<close> on \<open>int\<close> rounds down.\<close>

definition c_div :: "int \<Rightarrow> int \<Rightarrow> int" where
  "c_div a b = sgn a * sgn b * (\<bar>a\<bar> div \<bar>b\<bar>)"

text \<open>Conversion of an exact integer to \<open>int32_t\<close> (two's complement).\<close>

definition to_int32 :: "int \<Rightarrow> int" where
  "to_int32 x = sint (word_of_int x :: u32)"

lemma to_int32_id: "- (2 ^ 31) \<le> x \<Longrightarrow> x < 2 ^ 31 \<Longrightarrow> to_int32 x = x"
  by (simp add: to_int32_def sint_sbintrunc' signed_take_bit_int_eq_self)

lemma to_int32_range: "- (2 ^ 31) \<le> to_int32 x" "to_int32 x < 2 ^ 31"
  using sint_range_size [of "word_of_int x :: u32"]
  by (simp_all add: to_int32_def word_size)

lemma unat_u32_bound: "unat a < 2 ^ 32" for a :: u32
  using unsigned_less [of a] by simp

lemma unat_u8_bound: "unat a < 256" for a :: u8
  using unsigned_less [of a] by simp

lemma unat_u16_bound: "unat a < 65536" for a :: u16
  using unsigned_less [of a] by simp

lemma unat_of_nat_u8: "k < 256 \<Longrightarrow> unat (of_nat k :: u8) = k"
  by (simp add: unat_of_nat take_bit_nat_eq_self)

lemma unat_of_nat_u32: "k < 2 ^ 32 \<Longrightarrow> unat (of_nat k :: u32) = k"
  by (simp add: unat_of_nat take_bit_nat_eq_self)

lemma unat_small_mult: "unat a * unat b < 2 ^ 32 \<Longrightarrow> unat (a * b) = unat a * unat b" for a b :: u32
  by (simp add: unat_word_ariths)

lemma unat_small_add: "unat a + unat b < 2 ^ 32 \<Longrightarrow> unat (a + b) = unat a + unat b" for a b :: u32
  by (simp add: unat_word_ariths)

subsection \<open>Effects of firmware functions\<close>

datatype ('s, 'a) res =
    Ok 'a 's
  | Shutdown string 's
  | Undef

type_synonym ('s, 'a) fw = "'s \<Rightarrow> ('s, 'a) res"

definition ret :: "'a \<Rightarrow> ('s, 'a) fw" where
  "ret a = (\<lambda>s. Ok a s)"

definition bnd :: "('s, 'a) fw \<Rightarrow> ('a \<Rightarrow> ('s, 'b) fw) \<Rightarrow> ('s, 'b) fw" where
  "bnd f g = (\<lambda>s. case f s of
      Ok a s' \<Rightarrow> g a s' | Shutdown r s' \<Rightarrow> Shutdown r s' | Undef \<Rightarrow> Undef)"

definition thn :: "('s, 'a) fw \<Rightarrow> ('s, 'b) fw \<Rightarrow> ('s, 'b) fw" where
  "thn f g = bnd f (\<lambda>_. g)"

definition reads :: "('s \<Rightarrow> 'a) \<Rightarrow> ('s, 'a) fw" where
  "reads f = (\<lambda>s. Ok (f s) s)"

definition modify :: "('s \<Rightarrow> 's) \<Rightarrow> ('s, unit) fw" where
  "modify f = (\<lambda>s. Ok () (f s))"

definition shutdown :: "string \<Rightarrow> ('s, 'a) fw" where
  "shutdown r = (\<lambda>s. Shutdown r s)"

definition undef :: "('s, 'a) fw" where
  "undef = (\<lambda>s. Undef)"

definition whenM :: "bool \<Rightarrow> ('s, unit) fw \<Rightarrow> ('s, unit) fw" where
  "whenM b f = (if b then f else ret ())"

fun seqM :: "('s, unit) fw list \<Rightarrow> ('s, unit) fw" where
  "seqM [] = ret ()"
| "seqM (f # fs) = thn f (seqM fs)"

lemma ret_app [simp]: "ret a s = Ok a s"
  by (simp add: ret_def)

lemma reads_app [simp]: "reads f s = Ok (f s) s"
  by (simp add: reads_def)

lemma modify_app [simp]: "modify f s = Ok () (f s)"
  by (simp add: modify_def)

lemma shutdown_app [simp]: "shutdown r s = Shutdown r s"
  by (simp add: shutdown_def)

lemma undef_app [simp]: "undef s = Undef"
  by (simp add: undef_def)

lemma whenM_app [simp]: "whenM b f s = (if b then f s else Ok () s)"
  by (simp add: whenM_def)

lemma bnd_app:
  "bnd f g s = (case f s of
      Ok a s' \<Rightarrow> g a s' | Shutdown r s' \<Rightarrow> Shutdown r s' | Undef \<Rightarrow> Undef)"
  by (simp add: bnd_def)

lemma thn_app:
  "thn f g s = (case f s of
      Ok a s' \<Rightarrow> g s' | Shutdown r s' \<Rightarrow> Shutdown r s' | Undef \<Rightarrow> Undef)"
  by (simp add: thn_def bnd_def)

lemma bnd_Ok [simp]: "f s = Ok a s' \<Longrightarrow> bnd f g s = g a s'"
  by (simp add: bnd_app)

lemma thn_Ok [simp]: "f s = Ok a s' \<Longrightarrow> thn f g s = g s'"
  by (simp add: thn_app)

lemma bnd_Shutdown [simp]: "f s = Shutdown r s' \<Longrightarrow> bnd f g s = Shutdown r s'"
  by (simp add: bnd_app)

lemma thn_Shutdown [simp]: "f s = Shutdown r s' \<Longrightarrow> thn f g s = Shutdown r s'"
  by (simp add: thn_app)

lemma bnd_assoc: "bnd (bnd f g) h = bnd f (\<lambda>a. bnd (g a) h)"
  by (auto simp: bnd_def split: res.splits)

lemma bnd_ret [simp]: "bnd f ret = f"
  by (auto simp: bnd_def split: res.splits)

lemma ret_bnd [simp]: "bnd (ret a) g = g a"
  by (simp add: bnd_def)

subsection \<open>Triples\<close>

text \<open>
  \<open>triple P f Q R\<close>: from a state with \<open>P\<close>, the function is defined in C; if it
  returns, the result and the state satisfy \<open>Q\<close>; if it shuts down, the state
  left behind satisfies \<open>R\<close>.
\<close>

definition triple ::
  "('s \<Rightarrow> bool) \<Rightarrow> ('s, 'a) fw \<Rightarrow> ('a \<Rightarrow> 's \<Rightarrow> bool) \<Rightarrow> ('s \<Rightarrow> bool) \<Rightarrow> bool" where
  "triple P f Q R \<longleftrightarrow> (\<forall>s. P s \<longrightarrow>
     (case f s of Ok a s' \<Rightarrow> Q a s' | Shutdown _ s' \<Rightarrow> R s' | Undef \<Rightarrow> False))"

named_theorems triples \<open>triples of the firmware's operations\<close>

lemma tripleI:
  assumes "\<And>s. P s \<Longrightarrow>
    (case f s of Ok a s' \<Rightarrow> Q a s' | Shutdown _ s' \<Rightarrow> R s' | Undef \<Rightarrow> False)"
  shows "triple P f Q R"
  using assms by (simp add: triple_def)

lemma tripleD:
  assumes "triple P f Q R" and "P s"
  shows "case f s of Ok a s' \<Rightarrow> Q a s' | Shutdown _ s' \<Rightarrow> R s' | Undef \<Rightarrow> False"
  using assms by (simp add: triple_def)

lemma triple_Ok: "triple P f Q R \<Longrightarrow> P s \<Longrightarrow> f s = Ok a s' \<Longrightarrow> Q a s'"
  by (auto dest: tripleD)

lemma triple_Shutdown: "triple P f Q R \<Longrightarrow> P s \<Longrightarrow> f s = Shutdown r s' \<Longrightarrow> R s'"
  by (auto dest: tripleD)

lemma triple_Undef: "triple P f Q R \<Longrightarrow> P s \<Longrightarrow> f s \<noteq> Undef"
  by (auto dest: tripleD)

lemma triple_pre: "triple P f Q R \<Longrightarrow> (\<And>s. P' s \<Longrightarrow> P s) \<Longrightarrow> triple P' f Q R"
  by (simp add: triple_def)

lemma triple_post:
  "triple P f Q R \<Longrightarrow> (\<And>a s. Q a s \<Longrightarrow> Q' a s) \<Longrightarrow> (\<And>s. R s \<Longrightarrow> R' s) \<Longrightarrow> triple P f Q' R'"
  by (fastforce simp: triple_def split: res.splits)

lemma triple_bnd:
  assumes "triple P f Q R" and "\<And>a. triple (Q a) (g a) S R"
  shows "triple P (bnd f g) S R"
  using assms by (fastforce simp: triple_def bnd_app split: res.splits)

lemma triple_thn:
  assumes "triple P f (\<lambda>_. Q) R" and "triple Q g S R"
  shows "triple P (thn f g) S R"
  using assms by (fastforce simp: triple_def thn_app split: res.splits)

lemma triple_ret: "triple (Q a) (ret a) Q R"
  by (simp add: triple_def)

lemma triple_reads: "triple (\<lambda>s. Q (f s) s) (reads f) Q R"
  by (simp add: triple_def)

lemma triple_modify: "triple (\<lambda>s. Q () (f s)) (modify f) Q R"
  by (simp add: triple_def)

lemma triple_shutdown: "triple R (shutdown r) Q R"
  by (simp add: triple_def)

lemma triple_if:
  assumes "b \<Longrightarrow> triple P f Q R" and "\<not> b \<Longrightarrow> triple P g Q R"
  shows "triple P (if b then f else g) Q R"
  using assms by simp

lemma triple_whenM:
  assumes "b \<Longrightarrow> triple P f (\<lambda>_. P) R"
  shows "triple P (whenM b f) (\<lambda>_. P) R"
  using assms by (auto simp: triple_def split: res.splits)

lemma triple_seqM:
  assumes "\<And>f. f \<in> set fs \<Longrightarrow> triple P f (\<lambda>_. P) R"
  shows "triple P (seqM fs) (\<lambda>_. P) R"
  using assms
proof (induction fs)
  case Nil
  then show ?case by (simp add: triple_def)
next
  case (Cons f fs)
  then have "triple P f (\<lambda>_. P) R" and "triple P (seqM fs) (\<lambda>_. P) R"
    by auto
  then show ?case by (auto intro: triple_thn)
qed

subsection \<open>Clocks\<close>

text \<open>
  \<open>timer_is_before\<close> of \<^verbatim>\<open>generic/timer_irq.c\<close>: the clock is a 32 bit counter that
  rolls over, so times are compared by the sign of their difference.
\<close>

definition timer_is_before :: "u32 \<Rightarrow> u32 \<Rightarrow> bool" where
  "timer_is_before time1 time2 \<longleftrightarrow> sint (time1 - time2) < 0"

text \<open>
  Seen from a base, a time is the number of ticks after it.  Two times less than
  \<open>2 ^ 31\<close> ticks after a common base compare as these numbers do.
\<close>

definition ticks_after :: "u32 \<Rightarrow> u32 \<Rightarrow> nat" where
  "ticks_after base t = unat (t - base)"

definition in_window :: "u32 \<Rightarrow> u32 \<Rightarrow> bool" where
  "in_window base t \<longleftrightarrow> ticks_after base t < 2 ^ 31"

lemma timer_is_before_uint: "timer_is_before a b \<longleftrightarrow> 2 ^ 31 \<le> uint (a - b)"
proof -
  have "sint (a - b) < 0 \<longleftrightarrow> bit (a - b) 31"
    using bit_last_iff [of "a - b"] by simp
  also have "\<dots> \<longleftrightarrow> odd (uint (a - b) div 2 ^ 31)"
  proof -
    have "bit (uint (a - b)) 31 \<longleftrightarrow> bit (a - b) 31"
      by (simp add: bit_unsigned_iff)
    then show ?thesis by (simp only: bit_iff_odd [of "uint (a - b)"])
  qed
  also have "\<dots> \<longleftrightarrow> 2 ^ 31 \<le> uint (a - b)"
  proof -
    have "uint (a - b) < 2 ^ 32"
      using uint_lt2p [of "a - b"] by simp
    then show ?thesis
      by (cases "2 ^ 31 \<le> uint (a - b)")
        (simp_all add: div_pos_geq div_pos_pos_trivial)
  qed
  finally show ?thesis by (simp add: timer_is_before_def)
qed

lemma timer_is_before_refl [simp]: "\<not> timer_is_before a a"
  by (simp add: timer_is_before_def)

lemma mod_window:
  fixes x y :: int
  assumes "0 \<le> x" "x < 2 ^ 31" "0 \<le> y" "y < 2 ^ 31"
  shows "2 ^ 31 \<le> (x - y) mod 2 ^ 32 \<longleftrightarrow> x < y"
proof (cases "x < y")
  case True
  have "(x - y) mod 2 ^ 32 = (x - y + 2 ^ 32) mod 2 ^ 32" by simp
  also have "\<dots> = x - y + 2 ^ 32"
    using assms True by (intro mod_pos_pos_trivial) auto
  finally show ?thesis using assms True by simp
next
  case False
  then have "(x - y) mod 2 ^ 32 = x - y"
    using assms by (intro mod_pos_pos_trivial) auto
  then show ?thesis using assms False by simp
qed

lemma uint_diff_base: "uint (a - b) = (uint (a - base) - uint (b - base)) mod 2 ^ 32"
  for a b base :: u32
proof -
  have "uint (a - b) = uint ((a - base) - (b - base))" by simp
  then show ?thesis by (simp only: uint_word_ariths) simp
qed

lemma ticks_after_uint: "int (ticks_after base t) = uint (t - base)"
  by (simp add: ticks_after_def)

lemma in_window_uint: "in_window base t \<longleftrightarrow> uint (t - base) < 2 ^ 31"
  by (simp add: in_window_def ticks_after_uint [symmetric])

lemma timer_is_before_window:
  assumes "in_window base a" and "in_window base b"
  shows "timer_is_before a b \<longleftrightarrow> ticks_after base a < ticks_after base b"
proof -
  have "timer_is_before a b \<longleftrightarrow> uint (a - base) < uint (b - base)"
    unfolding timer_is_before_uint uint_diff_base [of a b base]
    using assms by (intro mod_window) (simp_all only: in_window_uint uint_ge_0)
  then show ?thesis
    by (simp add: ticks_after_uint [symmetric])
qed

end
