(* ===== verification/Machine.thy ===== *)
theory Machine
  imports Prelude
begin

text \<open>
  The part of the firmware's state every module shares: the build configuration,
  the board (clock, pins, console), the scheduler's timers and status, and the
  flags that wake tasks.  The modules extend this record with their own static
  variables and with the structs they allocate (\<open>basecmd_state\<close>,
  \<open>trsync_state\<close>, \<open>stepper_state\<close>, and so on), so a function of a module works on
  every later extension.

  \<^item> A \<^verbatim>\<open>struct timer\<close> is embedded in a static variable of \<^verbatim>\<open>sched.c\<close> or in an
    object allocated for an object id (oid); a pointer to one is a \<open>tref\<close>.  No
    object has more than two timers.  The timers are a store indexed by \<open>tref\<close>,
    with \<open>next\<close> pointers, as in C.
  \<^item> Function pointers are names (\<open>tfunc\<close>); the dispatcher takes their meaning as an
    argument and the theory Firmware supplies it.
  \<^item> What the board reads (the clock, input pins, converters) is an input: the
    \<open>n\<close>-th read of the run sees the value the environment gives for \<open>n\<close>.  What
    the board is told (pin writes, messages, a timer kick) is recorded in order.
\<close>

subsection \<open>Timers\<close>

datatype tref =
    PeriodicTimer
  | SentinelTimer
  | DeletedTimer
  | ObjTimer u8      \<comment> \<open>the first \<^verbatim>\<open>struct timer\<close> of the object with this oid\<close>
  | ObjTimer2 u8     \<comment> \<open>the second one (\<^verbatim>\<open>trsync.expire_time\<close>)\<close>

datatype tfunc =
    periodic_event_f | sentinel_event_f | deleted_event_f
  | stepper_event_full_f
  | trsync_report_event_f | trsync_expire_event_f
  | endstop_event_f | endstop_oversample_event_f
  | analog_in_event_f
  | buttons_event_f
  | digital_toggle_event_f | digital_load_event_f
  | pwm_event_f | pwm_end_event_f
  | counter_event_f
  | tmcuart_read_event_f | tmcuart_read_sync_event_f | tmcuart_send_finish_event_f
  | tmcuart_send_event_f | tmcuart_send_sync_event_f
  | thermocouple_event_f | adxl345_event_f

record timer =
  tnext :: "tref option"
  func :: "tfunc option"
  waketime :: u32

text \<open>A timer function answers \<open>SF_DONE\<close> (0) or \<open>SF_RESCHEDULE\<close> (1).\<close>

datatype sf = SF_DONE | SF_RESCHEDULE

subsection \<open>The board\<close>

text \<open>
  The type of an object is the address of its configuration command; the names of
  those commands stand for the addresses.
\<close>

datatype otype =
    config_stepper | config_trsync | config_endstop | config_analog_in | config_buttons
  | config_digital_out | config_pwm_out | config_counter | config_tmcuart
  | config_neopixel | config_spi | config_spi_shutdown | config_thermocouple
  | config_i2c | config_adxl345

datatype mtype = stepper_move_t | digital_move_t | pwm_move_t

text \<open>The structs' sizes are those the compiler chooses.\<close>

record config =
  CONFIG_CLOCK_FREQ :: u32
  CONFIG_INLINE_STEPPER_HACK :: bool
  CONFIG_HAVE_STEPPER_BOTH_EDGE :: bool
  CONFIG_MACH_AVR :: bool
  dynmem_start :: nat
  dynmem_end :: nat
  ptr_align :: nat               \<comment> \<open>\<^verbatim>\<open>__alignof__(void*)\<close>\<close>
  move_node_size :: nat          \<comment> \<open>\<^verbatim>\<open>sizeof(struct move_node)\<close>\<close>
  oid_s_size :: nat              \<comment> \<open>\<^verbatim>\<open>sizeof(struct oid_s)\<close>\<close>
  gpio_in_size :: nat            \<comment> \<open>\<^verbatim>\<open>sizeof(struct gpio_in)\<close>\<close>
  struct_size :: "otype \<Rightarrow> nat"  \<comment> \<open>\<^verbatim>\<open>sizeof\<close> of the struct of an object\<close>
  move_size :: "mtype \<Rightarrow> nat"    \<comment> \<open>\<^verbatim>\<open>sizeof\<close> of a struct that extends \<^verbatim>\<open>move_node\<close>\<close>
  identify_data :: "u8 list"     \<comment> \<open>\<^verbatim>\<open>command_identify_data\<close>, generated by the build\<close>
  out_pin_ok :: "u32 \<Rightarrow> bool"    \<comment> \<open>the pins \<^verbatim>\<open>gpio_out_setup\<close> accepts\<close>
  in_pin_ok :: "u32 \<Rightarrow> bool"
  adc_pin_ok :: "u32 \<Rightarrow> bool"
  pwm_pin_ok :: "u32 \<Rightarrow> bool"

record board_in =
  clock_in :: "nat \<Rightarrow> u32"
  gpio_in :: "nat \<Rightarrow> u32 \<Rightarrow> bool"
  adc_sample_in :: "nat \<Rightarrow> u32 \<Rightarrow> u32"
  adc_read_in :: "nat \<Rightarrow> u32 \<Rightarrow> u16"

text \<open>
  Arguments of a message: a number, a counted string of bytes, or the id the build
  gives to a static string.
\<close>

datatype arg = Num u32 | Buf "u8 list" | StrId string

datatype out =
    TimerKick
  | GpioOutSetup u32 bool
  | GpioOutReset u32 bool
  | GpioOutToggle u32
  | GpioOutWrite u32 bool
  | GpioInSetup u32 u32
  | GpioInReset u32 bool
  | GpioAdcSetup u32
  | GpioAdcCancel u32
  | GpioPwmSetup u32 u32 u16
  | GpioPwmWrite u32 u16
  | SpiSetup u32 u8 u32
  | SpiPrepare u32 u8 u32
  | SpiTransfer u32 "u8 list"
  | I2cSetup u32 u32 u8
  | I2cWrite u32 u8 "u8 list"
  | I2cRead u32 u8 "u8 list" nat
  | Send string "arg list"

datatype wake =
    trsync_wake | analog_wake | buttons_wake | counter_wake | tmcuart_wake | thermocouple_wake | adxl345_wake

subsection \<open>The shared state\<close>

record machine =
  cfg :: config
  env :: board_in
  ticks :: nat                   \<comment> \<open>how many inputs have been read\<close>
  out :: "out list"
  irq_on :: bool
  in_sendf :: bool
  timers :: "tref \<Rightarrow> timer"
  timer_list :: tref
  last_insert :: tref
  tasks_status :: int
  shutdown_status :: u8
  shutdown_reason :: string
  timer_repeat_until :: u32
  wakes :: "wake \<Rightarrow> bool"
  receive_buf :: "u8 list"       \<comment> \<open>\<^verbatim>\<open>console_receive_buffer()\<close>\<close>

type_synonym ('e, 'a) mfw = "('e machine_scheme, 'a) fw"

subsection \<open>Board functions\<close>

definition timer_from_us :: "config \<Rightarrow> u32 \<Rightarrow> u32" where
  "timer_from_us c us = us * (CONFIG_CLOCK_FREQ c div 1000000)"

definition timer_read_time :: "('e, u32) mfw" where
  "timer_read_time = (\<lambda>m. Ok (clock_in (env m) (ticks m)) (m\<lparr>ticks := Suc (ticks m)\<rparr>))"

definition gpio_in_read :: "u32 \<Rightarrow> ('e, bool) mfw" where
  "gpio_in_read pin = (\<lambda>m. Ok (gpio_in (env m) (ticks m) pin) (m\<lparr>ticks := Suc (ticks m)\<rparr>))"

definition gpio_adc_sample :: "u32 \<Rightarrow> ('e, u32) mfw" where
  "gpio_adc_sample pin =
     (\<lambda>m. Ok (adc_sample_in (env m) (ticks m) pin) (m\<lparr>ticks := Suc (ticks m)\<rparr>))"

definition gpio_adc_read :: "u32 \<Rightarrow> ('e, u16) mfw" where
  "gpio_adc_read pin =
     (\<lambda>m. Ok (adc_read_in (env m) (ticks m) pin) (m\<lparr>ticks := Suc (ticks m)\<rparr>))"

definition emit :: "out \<Rightarrow> ('e, unit) mfw" where
  "emit x = modify (\<lambda>m. m\<lparr>out := out m @ [x]\<rparr>)"

definition irq_disable :: "('e, unit) mfw" where
  "irq_disable = modify (\<lambda>m. m\<lparr>irq_on := False\<rparr>)"

definition irq_enable :: "('e, unit) mfw" where
  "irq_enable = modify (\<lambda>m. m\<lparr>irq_on := True\<rparr>)"

definition irq_save :: "('e, bool) mfw" where
  "irq_save = (\<lambda>m. Ok (irq_on m) (m\<lparr>irq_on := False\<rparr>))"

definition irq_restore :: "bool \<Rightarrow> ('e, unit) mfw" where
  "irq_restore flag = modify (\<lambda>m. m\<lparr>irq_on := flag\<rparr>)"

definition timer_kick :: "('e, unit) mfw" where
  "timer_kick = emit TimerKick"

text \<open>
  A pin that does not exist is refused by the board with a shutdown; otherwise
  the pin number stands for the \<^verbatim>\<open>struct gpio_out\<close> the board returns.
\<close>

definition gpio_out_setup :: "u32 \<Rightarrow> bool \<Rightarrow> ('e, u32) mfw" where
  "gpio_out_setup pin v = (\<lambda>m. if out_pin_ok (cfg m) pin
     then bnd (emit (GpioOutSetup pin v)) (\<lambda>_. ret pin) m
     else Shutdown ''Not an output pin'' m)"

definition gpio_in_setup :: "u32 \<Rightarrow> u32 \<Rightarrow> ('e, u32) mfw" where
  "gpio_in_setup pin pull_up = (\<lambda>m. if in_pin_ok (cfg m) pin
     then bnd (emit (GpioInSetup pin pull_up)) (\<lambda>_. ret pin) m
     else Shutdown ''Not a valid input pin'' m)"

definition gpio_adc_setup :: "u32 \<Rightarrow> ('e, u32) mfw" where
  "gpio_adc_setup pin = (\<lambda>m. if adc_pin_ok (cfg m) pin
     then bnd (emit (GpioAdcSetup pin)) (\<lambda>_. ret pin) m
     else Shutdown ''Not a valid ADC pin'' m)"

definition gpio_pwm_setup :: "u32 \<Rightarrow> u32 \<Rightarrow> u16 \<Rightarrow> ('e, u32) mfw" where
  "gpio_pwm_setup pin cycle_time v = (\<lambda>m. if pwm_pin_ok (cfg m) pin
     then bnd (emit (GpioPwmSetup pin cycle_time v)) (\<lambda>_. ret pin) m
     else Shutdown ''Not a valid PWM pin'' m)"

text \<open>
  \<^verbatim>\<open>command_sendf\<close>: a message produced by an interrupt while the main code is
  already sending is dropped.  What the console does with the message is the
  subject of the theory Command.
\<close>

definition command_sendf :: "string \<Rightarrow> arg list \<Rightarrow> ('e, unit) mfw" where
  "command_sendf fmt args = (\<lambda>m.
     if in_sendf m then Ok () m
     else bnd (modify (\<lambda>m. m\<lparr>in_sendf := True\<rparr>)) (\<lambda>_.
          bnd (emit (Send fmt args)) (\<lambda>_.
          modify (\<lambda>m. m\<lparr>in_sendf := False\<rparr>))) m)"

definition sendf_shutdown :: "('e, unit) mfw" where
  "sendf_shutdown = modify (\<lambda>m. m\<lparr>in_sendf := False\<rparr>)"

lemmas board_defs =
  timer_read_time_def gpio_in_read_def gpio_adc_sample_def gpio_adc_read_def
  emit_def irq_disable_def irq_enable_def irq_save_def irq_restore_def timer_kick_def
  gpio_out_setup_def gpio_in_setup_def gpio_adc_setup_def gpio_pwm_setup_def
  command_sendf_def sendf_shutdown_def

lemma board_app [simp]:
  "timer_read_time m = Ok (clock_in (env m) (ticks m)) (m\<lparr>ticks := Suc (ticks m)\<rparr>)"
  "gpio_in_read pin m = Ok (gpio_in (env m) (ticks m) pin) (m\<lparr>ticks := Suc (ticks m)\<rparr>)"
  "gpio_adc_sample pin m = Ok (adc_sample_in (env m) (ticks m) pin) (m\<lparr>ticks := Suc (ticks m)\<rparr>)"
  "gpio_adc_read pin m = Ok (adc_read_in (env m) (ticks m) pin) (m\<lparr>ticks := Suc (ticks m)\<rparr>)"
  "emit x m = Ok () (m\<lparr>out := out m @ [x]\<rparr>)"
  "irq_disable m = Ok () (m\<lparr>irq_on := False\<rparr>)"
  "irq_enable m = Ok () (m\<lparr>irq_on := True\<rparr>)"
  "irq_save m = Ok (irq_on m) (m\<lparr>irq_on := False\<rparr>)"
  "irq_restore flag m = Ok () (m\<lparr>irq_on := flag\<rparr>)"
  "timer_kick m = Ok () (m\<lparr>out := out m @ [TimerKick]\<rparr>)"
  "sendf_shutdown m = Ok () (m\<lparr>in_sendf := False\<rparr>)"
  by (simp_all add: board_defs)

lemma command_sendf_app [simp]:
  "command_sendf fmt args m =
     Ok () (if in_sendf m then m else m\<lparr>in_sendf := False, out := out m @ [Send fmt args]\<rparr>)"
  by (simp add: board_defs)

end
