(* ===== verification/Sched.thy ===== *)
theory Sched
  imports Machine
begin

text \<open>
  The scheduler, \<^verbatim>\<open>src/sched.c\<close>, and the interrupt loop around it,
  \<^verbatim>\<open>src/generic/timer_irq.c\<close>.  The pending timers are a singly linked list through
  the store of timers.  The loops that walk it end at a timer that is due later, or
  at a NULL \<open>next\<close>; following NULL, or more links than there are timers, is
  undefined (\<open>Undef\<close>).  There are \<open>TIMER_MAX\<close> timers, so a walk of a list without
  repetition never uses up that bound.

  The theory Timer_List shows that these pointer operations implement a priority
  queue.
\<close>

subsection \<open>Timer list\<close>

definition TIMER_MAX :: nat where "TIMER_MAX = 515"

definition set_timer :: "tref \<Rightarrow> (timer \<Rightarrow> timer) \<Rightarrow> 'e machine_scheme \<Rightarrow> 'e machine_scheme" where
  "set_timer t f m = m\<lparr>timers := (timers m)(t := f (timers m t))\<rparr>"

text \<open>The static initial values: the periodic timer and, after it, the sentinel.\<close>

definition timers_init :: "tref \<Rightarrow> timer" where
  "timers_init t = (case t of
     PeriodicTimer \<Rightarrow> \<lparr>tnext = Some SentinelTimer, func = Some periodic_event_f, waketime = 0\<rparr>
   | SentinelTimer \<Rightarrow> \<lparr>tnext = None, func = Some sentinel_event_f, waketime = 0x80000000\<rparr>
   | DeletedTimer \<Rightarrow> \<lparr>tnext = None, func = Some deleted_event_f, waketime = 0\<rparr>
   | _ \<Rightarrow> \<lparr>tnext = None, func = None, waketime = 0\<rparr>)"

definition sched_init :: "config \<Rightarrow> board_in \<Rightarrow> machine" where
  "sched_init c e = \<lparr>cfg = c, env = e, ticks = 0, out = [], irq_on = True, in_sendf = False,
     timers = timers_init, timer_list = PeriodicTimer, last_insert = PeriodicTimer,
     tasks_status = 0, shutdown_status = 0, shutdown_reason = [], timer_repeat_until = 0,
     wakes = (\<lambda>_. False), receive_buf = []\<rparr>"

definition sched_shutdown :: "string \<Rightarrow> ('e, 'a) mfw" where
  "sched_shutdown reason = thn irq_disable (shutdown reason)"

definition sched_try_shutdown :: "string \<Rightarrow> ('e, unit) mfw" where
  "sched_try_shutdown reason =
     bnd (reads shutdown_status) (\<lambda>st. if st = 0 then sched_shutdown reason else ret ())"

definition sched_wake_tasks :: "('e, unit) mfw" where
  "sched_wake_tasks = modify (\<lambda>m. m\<lparr>tasks_status := 0\<rparr>)"

definition periodic_event :: "('e, sf) mfw" where
  "periodic_event =
     thn sched_wake_tasks
     (thn (modify (\<lambda>m. set_timer PeriodicTimer
             (\<lambda>t. t\<lparr>waketime := waketime t + timer_from_us (cfg m) 100000\<rparr>) m))
     (thn (modify (\<lambda>m. set_timer SentinelTimer
             (\<lambda>t. t\<lparr>waketime := waketime (timers m PeriodicTimer) + 0x80000000\<rparr>) m))
     (ret SF_RESCHEDULE)))"

definition sentinel_event :: "('e, sf) mfw" where
  "sentinel_event = sched_shutdown ''sentinel timer called''"

definition deleted_event :: "('e, sf) mfw" where
  "deleted_event = ret SF_DONE"

fun insert_timer_loop :: "nat \<Rightarrow> (tref \<Rightarrow> timer) \<Rightarrow> tref \<Rightarrow> u32 \<Rightarrow> (tref \<times> tref) option" where
  "insert_timer_loop 0 T pos w = None"
| "insert_timer_loop (Suc n) T pos w =
     (case tnext (T pos) of
        None \<Rightarrow> None
      | Some pos' \<Rightarrow>
          if timer_is_before w (waketime (T pos')) then Some (pos, pos')
          else insert_timer_loop n T pos' w)"

definition insert_timer :: "tref \<Rightarrow> tref \<Rightarrow> u32 \<Rightarrow> ('e, unit) mfw" where
  "insert_timer pos t w = (\<lambda>m. case insert_timer_loop TIMER_MAX (timers m) pos w of
     None \<Rightarrow> Undef
   | Some (prev, pos') \<Rightarrow>
       Ok () (set_timer prev (\<lambda>x. x\<lparr>tnext := Some t\<rparr>)
               (set_timer t (\<lambda>x. x\<lparr>tnext := Some pos'\<rparr>) m)))"

definition sched_add_timer :: "tref \<Rightarrow> ('e, unit) mfw" where
  "sched_add_timer add =
     bnd (reads (\<lambda>m. waketime (timers m add))) (\<lambda>w.
     bnd irq_save (\<lambda>flag.
     bnd (reads timer_list) (\<lambda>tl.
     bnd (reads (\<lambda>m. waketime (timers m tl))) (\<lambda>tlw.
     thn (if timer_is_before w tlw then
            bnd timer_read_time (\<lambda>now.
            thn (whenM (timer_is_before w now) (sched_try_shutdown ''Timer too close''))
            (thn (modify (\<lambda>m. set_timer add (\<lambda>x. x\<lparr>tnext :=
                    (if tl = DeletedTimer then tnext (timers m DeletedTimer) else Some tl)\<rparr>) m))
            (thn (modify (set_timer DeletedTimer (\<lambda>x. x\<lparr>waketime := w, tnext := Some add\<rparr>)))
            (thn (modify (\<lambda>m. m\<lparr>timer_list := DeletedTimer\<rparr>))
            timer_kick))))
          else insert_timer tl add w)
     (irq_restore flag)))))"

fun del_timer_loop :: "nat \<Rightarrow> (tref \<Rightarrow> timer) \<Rightarrow> tref \<Rightarrow> tref \<Rightarrow> tref option option" where
  "del_timer_loop 0 T pos del = None"
| "del_timer_loop (Suc n) T pos del =
     (case tnext (T pos) of
        None \<Rightarrow> Some None
      | Some pos' \<Rightarrow> if pos' = del then Some (Some pos) else del_timer_loop n T pos' del)"

definition sched_del_timer :: "tref \<Rightarrow> ('e, unit) mfw" where
  "sched_del_timer del =
     bnd irq_save (\<lambda>flag.
     bnd (reads timer_list) (\<lambda>tl.
     thn (if tl = del then
            thn (modify (\<lambda>m. set_timer DeletedTimer
                    (\<lambda>x. x\<lparr>waketime := waketime (timers m del)\<rparr>) m))
            (thn (modify (\<lambda>m. set_timer DeletedTimer
                    (\<lambda>x. x\<lparr>tnext := tnext (timers m del)\<rparr>) m))
            (modify (\<lambda>m. m\<lparr>timer_list := DeletedTimer\<rparr>)))
          else
            (\<lambda>m. case del_timer_loop TIMER_MAX (timers m) tl del of
                None \<Rightarrow> Undef
              | Some None \<Rightarrow> Ok () m
              | Some (Some pos) \<Rightarrow>
                  Ok () (set_timer pos (\<lambda>x. x\<lparr>tnext := tnext (timers m del)\<rparr>) m)))
     (thn (modify (\<lambda>m. if last_insert m = del then m\<lparr>last_insert := PeriodicTimer\<rparr> else m))
     (irq_restore flag))))"

text \<open>
  The dispatcher.  \<open>call f t\<close> is the timer function named \<open>f\<close> applied to the timer
  \<open>t\<close>; \<open>step t\<close> is \<^verbatim>\<open>stepper_event(t)\<close>, which the inlined stepper variant calls
  when no function is set.
\<close>

definition next_of :: "tref \<Rightarrow> ('e, tref) mfw" where
  "next_of t = (\<lambda>m. case tnext (timers m t) of None \<Rightarrow> Undef | Some n \<Rightarrow> Ok n m)"

definition sched_timer_dispatch ::
  "(tfunc \<Rightarrow> tref \<Rightarrow> ('e, sf) mfw) \<Rightarrow> (tref \<Rightarrow> ('e, sf) mfw) \<Rightarrow> ('e, u32) mfw" where
  "sched_timer_dispatch call step =
     bnd (reads timer_list) (\<lambda>t.
     bnd (reads (\<lambda>m. func (timers m t))) (\<lambda>f.
     bnd (reads (\<lambda>m. CONFIG_INLINE_STEPPER_HACK (cfg m))) (\<lambda>hack.
     bnd (case f of None \<Rightarrow> if hack then step t else undef | Some f' \<Rightarrow> call f' t) (\<lambda>res.
     bnd (reads (\<lambda>m. waketime (timers m t))) (\<lambda>updated.
     bnd (next_of t) (\<lambda>n.
     bnd (reads (\<lambda>m. waketime (timers m n))) (\<lambda>nw.
     if res = SF_DONE then
       thn (modify (\<lambda>m. m\<lparr>timer_list := n\<rparr>))
       (thn (modify (\<lambda>m. if last_insert m = t then m\<lparr>last_insert := n\<rparr> else m))
       (ret nw))
     else if \<not> timer_is_before updated nw then
       thn (modify (\<lambda>m. m\<lparr>timer_list := n\<rparr>))
       (bnd (reads last_insert) (\<lambda>li.
        bnd (reads (\<lambda>m. waketime (timers m li))) (\<lambda>liw.
        thn (insert_timer (if timer_is_before updated liw then n else li) t updated)
       (thn (modify (\<lambda>m. m\<lparr>last_insert := t\<rparr>))
       (ret nw)))))
     else ret updated)))))))"

definition sched_timer_reset :: "('e, unit) mfw" where
  "sched_timer_reset =
     thn (modify (\<lambda>m. m\<lparr>timer_list := DeletedTimer\<rparr>))
     (thn (modify (\<lambda>m. set_timer DeletedTimer
             (\<lambda>x. x\<lparr>waketime := waketime (timers m PeriodicTimer)\<rparr>) m))
     (thn (modify (\<lambda>m. set_timer DeletedTimer (\<lambda>x. x\<lparr>tnext := Some PeriodicTimer\<rparr>)
             (m\<lparr>last_insert := PeriodicTimer\<rparr>)))
     (thn (modify (set_timer PeriodicTimer (\<lambda>x. x\<lparr>tnext := Some SentinelTimer\<rparr>)))
     timer_kick)))"

subsection \<open>Tasks\<close>

definition TS_IDLE :: int where "TS_IDLE = -1"
definition TS_REQUESTED :: int where "TS_REQUESTED = 0"
definition TS_RUNNING :: int where "TS_RUNNING = 1"

definition sched_tasks_busy :: "'e machine_scheme \<Rightarrow> bool" where
  "sched_tasks_busy m \<longleftrightarrow> tasks_status m \<ge> TS_REQUESTED"

definition sched_wake_task :: "wake \<Rightarrow> ('e, unit) mfw" where
  "sched_wake_task w =
     thn sched_wake_tasks (modify (\<lambda>m. m\<lparr>wakes := (wakes m)(w := True)\<rparr>))"

definition sched_check_wake :: "wake \<Rightarrow> ('e, bool) mfw" where
  "sched_check_wake w =
     bnd (reads (\<lambda>m. wakes m w)) (\<lambda>b.
     if \<not> b then ret False
     else thn (modify (\<lambda>m. m\<lparr>wakes := (wakes m)(w := False)\<rparr>)) (ret True))"

subsection \<open>Shutdown\<close>

definition sched_is_shutdown :: "'e machine_scheme \<Rightarrow> bool" where
  "sched_is_shutdown m \<longleftrightarrow> shutdown_status m \<noteq> 0"

definition sched_clear_shutdown :: "('e, unit) mfw" where
  "sched_clear_shutdown =
     bnd (reads shutdown_status) (\<lambda>st.
     if st = 0 then sched_shutdown ''Shutdown cleared when not shutdown''
     else if st = 2 then ret ()
     else modify (\<lambda>m. m\<lparr>shutdown_status := 0\<rparr>))"

text \<open>\<open>funcs\<close> are the functions declared with \<^verbatim>\<open>DECL_SHUTDOWN\<close>, in link order.\<close>

definition run_shutdown :: "('e, unit) mfw list \<Rightarrow> string \<Rightarrow> ('e, unit) mfw" where
  "run_shutdown funcs reason =
     thn irq_disable
     (bnd timer_read_time (\<lambda>cur.
     thn (modify (\<lambda>m. if shutdown_status m = 0 then m\<lparr>shutdown_reason := reason\<rparr> else m))
     (thn (modify (\<lambda>m. m\<lparr>shutdown_status := 2\<rparr>))
     (thn sched_timer_reset
     (thn (seqM funcs)
     (thn (modify (\<lambda>m. m\<lparr>shutdown_status := 1\<rparr>))
     (thn irq_enable
     (bnd (reads shutdown_reason) (\<lambda>r.
      command_sendf ''shutdown clock=%u static_string_id=%hu'' [Num cur, StrId r])))))))))"

definition sched_report_shutdown :: "('e, unit) mfw" where
  "sched_report_shutdown =
     bnd (reads shutdown_reason) (\<lambda>r.
     command_sendf ''is_shutdown static_string_id=%hu'' [StrId r])"

subsection \<open>Timer interrupts\<close>

fun wait_ready :: "nat \<Rightarrow> u32 \<Rightarrow> int \<Rightarrow> ('e, unit) mfw" where
  "wait_ready 0 next diff = undef"
| "wait_ready (Suc n) next diff =
     (if diff > 0 then bnd timer_read_time (\<lambda>now. wait_ready n next (sint (next - now)))
      else ret ())"

text \<open>
  \<open>fuel\<close> bounds the number of timers run by one interrupt, \<open>wfuel\<close> the number of
  clock reads spent waiting for one of them.
\<close>

fun dispatch_many_loop ::
  "(tfunc \<Rightarrow> tref \<Rightarrow> ('e, sf) mfw) \<Rightarrow> (tref \<Rightarrow> ('e, sf) mfw) \<Rightarrow> nat \<Rightarrow> nat \<Rightarrow> u32 \<Rightarrow> ('e, u32) mfw" where
  "dispatch_many_loop call step wfuel 0 tru = undef"
| "dispatch_many_loop call step wfuel (Suc fuel) tru =
     bnd (reads cfg) (\<lambda>c.
     bnd (sched_timer_dispatch call step) (\<lambda>next.
     bnd timer_read_time (\<lambda>now.
     let diff = sint (next - now) in
     if diff > sint (timer_from_us c 2) then ret next
     else if timer_is_before tru now then
       thn (whenM (diff < sint (- timer_from_us c 1000))
              (sched_try_shutdown ''Rescheduled timer in the past''))
       (bnd (reads sched_tasks_busy) (\<lambda>busy.
        if busy then
          thn (modify (\<lambda>m. m\<lparr>timer_repeat_until := now + timer_from_us c 100\<rparr>))
          (ret (now + timer_from_us c 5))
        else
          thn (modify (\<lambda>m. m\<lparr>timer_repeat_until := now + timer_from_us c 500\<rparr>))
          (thn irq_enable (thn (wait_ready wfuel next diff) (thn irq_disable
          (dispatch_many_loop call step wfuel fuel (now + timer_from_us c 500)))))))
     else
       thn irq_enable (thn (wait_ready wfuel next diff) (thn irq_disable
       (dispatch_many_loop call step wfuel fuel tru))))))"

definition timer_dispatch_many ::
  "(tfunc \<Rightarrow> tref \<Rightarrow> ('e, sf) mfw) \<Rightarrow> (tref \<Rightarrow> ('e, sf) mfw) \<Rightarrow> nat \<Rightarrow> nat \<Rightarrow> ('e, u32) mfw" where
  "timer_dispatch_many call step wfuel fuel =
     bnd (reads timer_repeat_until) (dispatch_many_loop call step wfuel fuel)"

definition timer_task :: "('e, unit) mfw" where
  "timer_task =
     bnd timer_read_time (\<lambda>now.
     thn irq_disable
     (thn (modify (\<lambda>m. if timer_is_before (timer_repeat_until m) now
             then m\<lparr>timer_repeat_until := now\<rparr> else m))
     irq_enable))"

end
