(* ===== verification/Timer_List.thy ===== *)
theory Timer_List
  imports Sched
begin

text \<open>
  The scheduler's linked list is a priority queue.  Under the invariant \<open>sched_ok\<close>
  the list holds distinct timers sorted by wake time and ends in the sentinel; the
  sentinel's wake time is half the clock range after the periodic timer's, which is
  what makes every walk of the list stop.  Adding a timer inserts it after all
  timers due no later, deleting removes it, and the dispatcher runs the first timer
  and either drops it or files it again.  \<open>DeletedTimer\<close> is a placeholder that can
  only be the first timer of the list; \<open>live\<close> leaves it out.
\<close>

subsection \<open>The linked list\<close>

text \<open>\<open>chain T xs\<close>: the timers \<open>xs\<close> are linked in this order and the last link is NULL.\<close>

fun chain :: "(tref \<Rightarrow> timer) \<Rightarrow> tref list \<Rightarrow> bool" where
  "chain T [] = False"
| "chain T [x] = (tnext (T x) = None)"
| "chain T (x # y # ys) = (tnext (T x) = Some y \<and> chain T (y # ys))"

lemma chain_cong: "(\<And>x. x \<in> set xs \<Longrightarrow> tnext (T x) = tnext (T' x)) \<Longrightarrow> chain T xs = chain T' xs"
  by (induction T xs rule: chain.induct) auto

lemma chain_tl: "chain T (x # y # ys) \<Longrightarrow> chain T (y # ys)"
  by simp

lemma chain_drop: "chain T (xs @ y # ys) \<Longrightarrow> chain T (y # ys)"
proof (induction xs)
  case (Cons x xs)
  then show ?case by (cases xs) auto
qed simp

lemma chain_insert:
  assumes "chain T (xs @ y # ys)" and "xs \<noteq> []" and "distinct (xs @ y # ys)" and "t \<notin> set (xs @ y # ys)"
    and "tnext (T' (last xs)) = Some t" and "tnext (T' t) = Some y"
    and "\<And>x. x \<noteq> last xs \<Longrightarrow> x \<noteq> t \<Longrightarrow> tnext (T' x) = tnext (T x)"
  shows "chain T' (xs @ t # y # ys)"
  using assms
proof (induction xs)
  case (Cons x xs)
  show ?case
  proof (cases xs)
    case Nil
    have "chain T (y # ys)" using Cons.prems Nil by simp
    then have "chain T' (y # ys)"
    proof (subst chain_cong [of _ T' T])
      show "tnext (T' z) = tnext (T z)" if "z \<in> set (y # ys)" for z
        by (rule Cons.prems(7)) (use that Cons.prems Nil in auto)
    qed
    then show ?thesis using Cons.prems Nil by simp
  next
    case (Cons x' xs')
    have "chain T' (xs @ t # y # ys)"
      using Cons.IH Cons.prems Cons by simp
    moreover have "last (x # xs) \<in> set xs" using Cons by simp
    then have "tnext (T' x) = tnext (T x)"
      using Cons.prems(3) by (intro Cons.prems(7)) (use Cons.prems in auto)
    ultimately show ?thesis using Cons.prems Cons by simp
  qed
qed simp

lemma chain_remove:
  assumes "chain T (xs @ y # z # zs)" and "xs \<noteq> []" and "distinct (xs @ y # z # zs)"
    and "tnext (T' (last xs)) = Some z"
    and "\<And>x. x \<noteq> last xs \<Longrightarrow> tnext (T' x) = tnext (T x)"
  shows "chain T' (xs @ z # zs)"
  using assms
proof (induction xs)
  case (Cons x xs)
  show ?case
  proof (cases xs)
    case Nil
    have "chain T (z # zs)" using Cons.prems Nil by simp
    then have "chain T' (z # zs)"
    proof (subst chain_cong [of _ T' T])
      show "tnext (T' u) = tnext (T u)" if "u \<in> set (z # zs)" for u
        by (rule Cons.prems(5)) (use that Cons.prems Nil in auto)
    qed
    then show ?thesis using Cons.prems Nil by simp
  next
    case (Cons x' xs')
    have "chain T' (xs @ z # zs)"
      using Cons.IH Cons.prems Cons by simp
    moreover have "last (x # xs) \<in> set xs" using Cons by simp
    then have "tnext (T' x) = tnext (T x)"
      using Cons.prems(3) by (intro Cons.prems(5)) (use Cons.prems in auto)
    ultimately show ?thesis using Cons.prems Cons by simp
  qed
qed simp

subsection \<open>The loops on the list\<close>

lemma insert_timer_loop_spec:
  assumes "chain T (pos # xs @ y # ys)" and "length xs < n"
    and "\<forall>x \<in> set xs. \<not> timer_is_before w (waketime (T x))" and "timer_is_before w (waketime (T y))"
  shows "insert_timer_loop n T pos w = Some (last (pos # xs), y)"
  using assms
proof (induction xs arbitrary: pos n)
  case Nil
  then show ?case by (cases n) auto
next
  case (Cons x xs)
  then show ?case by (cases n) auto
qed

lemma del_timer_loop_found:
  assumes "chain T (pos # xs @ del # ys)" and "length xs < n" and "del \<notin> set xs"
  shows "del_timer_loop n T pos del = Some (Some (last (pos # xs)))"
  using assms
proof (induction xs arbitrary: pos n)
  case Nil
  then show ?case by (cases n) auto
next
  case (Cons x xs)
  then show ?case by (cases n) auto
qed

lemma del_timer_loop_absent:
  assumes "chain T (pos # xs)" and "length xs < n" and "del \<notin> set xs"
  shows "del_timer_loop n T pos del = Some None"
  using assms
proof (induction xs arbitrary: pos n)
  case Nil
  then show ?case by (cases n) auto
next
  case (Cons x xs)
  then show ?case by (cases n) auto
qed

text \<open>There are \<open>TIMER_MAX\<close> timers, so the bound of the loops is never reached.\<close>

lemma tref_UNIV:
  "(UNIV :: tref set) =
     {PeriodicTimer, SentinelTimer, DeletedTimer} \<union> ObjTimer ` UNIV \<union> ObjTimer2 ` UNIV"
proof -
  have "t \<in> {PeriodicTimer, SentinelTimer, DeletedTimer} \<union> ObjTimer ` UNIV \<union> ObjTimer2 ` UNIV" for t
    by (cases t) auto
  then show ?thesis by auto
qed

lemma card_tref: "card (UNIV :: tref set) = TIMER_MAX" and finite_tref: "finite (UNIV :: tref set)"
proof -
  have fin: "finite (UNIV :: u8 set)" by simp
  have c: "card (UNIV :: u8 set) = 256" by (simp add: card_word)
  show "finite (UNIV :: tref set)" by (subst tref_UNIV) (simp add: fin)
  have "card (ObjTimer ` (UNIV :: u8 set)) = 256" "card (ObjTimer2 ` (UNIV :: u8 set)) = 256"
    by (simp_all add: card_image inj_on_def c)
  moreover have "card ({PeriodicTimer, SentinelTimer, DeletedTimer} \<union> ObjTimer ` (UNIV :: u8 set)) =
      3 + card (ObjTimer ` (UNIV :: u8 set))"
    by (subst card_Un_disjoint) (auto simp: fin)
  moreover have "card (({PeriodicTimer, SentinelTimer, DeletedTimer} \<union> ObjTimer ` (UNIV :: u8 set)) \<union>
        ObjTimer2 ` (UNIV :: u8 set)) =
      card ({PeriodicTimer, SentinelTimer, DeletedTimer} \<union> ObjTimer ` (UNIV :: u8 set)) +
        card (ObjTimer2 ` (UNIV :: u8 set))"
    by (subst card_Un_disjoint) (auto simp: fin)
  ultimately show "card (UNIV :: tref set) = TIMER_MAX"
    by (simp add: tref_UNIV TIMER_MAX_def)
qed

lemma distinct_timers_length:
  assumes "distinct (xs :: tref list)"
  shows "length xs \<le> TIMER_MAX"
proof -
  have "card (set xs) \<le> card (UNIV :: tref set)"
    by (rule card_mono [OF finite_tref]) simp
  then show ?thesis using assms by (simp add: distinct_card card_tref)
qed

subsection \<open>The invariant\<close>

text \<open>
  \<open>sched_list m xs\<close>: in the state \<open>m\<close> the scheduler's list consists of the timers
  \<open>xs\<close> followed by the sentinel.
\<close>

definition sched_list :: "'e machine_scheme \<Rightarrow> tref list \<Rightarrow> bool" where
  "sched_list m xs \<longleftrightarrow>
     chain (timers m) (xs @ [SentinelTimer]) \<and> distinct (xs @ [SentinelTimer]) \<and>
     PeriodicTimer \<in> set xs \<and> timer_list m = hd xs \<and>
     last_insert m \<in> set xs \<and> last_insert m \<noteq> DeletedTimer \<and> DeletedTimer \<notin> set (tl xs) \<and>
     waketime (timers m SentinelTimer) = waketime (timers m PeriodicTimer) + 0x80000000"

text \<open>Ticks until a timer, seen from \<open>base\<close>.\<close>

definition tkey :: "u32 \<Rightarrow> 'e machine_scheme \<Rightarrow> tref \<Rightarrow> nat" where
  "tkey base m t = ticks_after base (waketime (timers m t))"

definition sched_ok :: "u32 \<Rightarrow> 'e machine_scheme \<Rightarrow> tref list \<Rightarrow> bool" where
  "sched_ok base m xs \<longleftrightarrow>
     sched_list m xs \<and>
     (\<forall>t \<in> set xs. in_window base (waketime (timers m t))) \<and>
     sorted (map (tkey base m) xs)"

definition live :: "tref list \<Rightarrow> tref list" where
  "live xs = filter (\<lambda>t. t \<noteq> DeletedTimer) xs"

text \<open>The reference operation: insert after all elements whose key is not larger.\<close>

definition insort_after :: "('a \<Rightarrow> nat) \<Rightarrow> nat \<Rightarrow> 'a \<Rightarrow> 'a list \<Rightarrow> 'a list" where
  "insort_after key k x xs = takeWhile (\<lambda>y. key y \<le> k) xs @ x # dropWhile (\<lambda>y. key y \<le> k) xs"

lemma set_insort_after [simp]: "set (insort_after key k x xs) = insert x (set xs)"
  by (metis Un_insert_right insort_after_def list.simps(15) set_append takeWhile_dropWhile_id)

lemma distinct_insort_after:
  "distinct (insort_after key k x xs) \<longleftrightarrow> distinct xs \<and> x \<notin> set xs"
proof -
  have "distinct (as @ x # bs) \<longleftrightarrow> distinct (as @ bs) \<and> x \<notin> set (as @ bs)" for as bs
    by auto
  then show ?thesis by (simp only: insort_after_def takeWhile_dropWhile_id)
qed

lemma sorted_insort_after:
  assumes "sorted (map key xs)" and "key x = k"
  shows "sorted (map key (insort_after key k x xs))"
  using assms
proof (induction xs)
  case Nil
  then show ?case by (simp add: insort_after_def)
next
  case (Cons y ys)
  then show ?case
    by (cases "key y \<le> k") (auto simp: insort_after_def dest: set_takeWhileD set_dropWhileD)
qed

lemma not_in_takeWhile_sorted:
  assumes "sorted (map key xs)" and "x \<in> set xs" and "key x \<le> k"
  shows "x \<in> set (takeWhile (\<lambda>y. key y \<le> (k :: nat)) xs)"
  using assms by (induction xs) auto

lemma timer_fields [simp]:
  "timers (set_timer t f m) = (timers m)(t := f (timers m t))"
  "timer_list (set_timer t f m) = timer_list m" "last_insert (set_timer t f m) = last_insert m"
  "cfg (set_timer t f m) = cfg m" "env (set_timer t f m) = env m"
  "ticks (set_timer t f m) = ticks m" "out (set_timer t f m) = out m"
  "irq_on (set_timer t f m) = irq_on m" "in_sendf (set_timer t f m) = in_sendf m"
  "tasks_status (set_timer t f m) = tasks_status m"
  "shutdown_status (set_timer t f m) = shutdown_status m"
  "shutdown_reason (set_timer t f m) = shutdown_reason m"
  "timer_repeat_until (set_timer t f m) = timer_repeat_until m" "wakes (set_timer t f m) = wakes m"
  by (simp_all add: set_timer_def)

lemma before_sentinel:
  assumes "in_window base w" and "in_window base p"
  shows "timer_is_before w (p + 0x80000000) \<longleftrightarrow> ticks_after base p \<le> ticks_after base w"
proof -
  let ?x = "uint (w - base)" and ?y = "uint (p - base)"
  have two: "(2 :: int) ^ 32 = 2 * 2 ^ 31" by simp
  have "w - (p + 0x80000000) = (w - p) + 0x80000000" by simp
  then have "uint (w - (p + 0x80000000)) = uint ((w - p) + 0x80000000)" by (simp only:)
  also have "\<dots> = (uint (w - p) + 2 ^ 31) mod 2 ^ 32"
    by (simp only: uint_word_ariths(1)) simp
  also have "\<dots> = (?x - ?y + 2 ^ 31) mod 2 ^ 32"
    by (simp only: uint_diff_base [of w p base] mod_add_left_eq)
  also have "\<dots> = ?x - ?y + 2 ^ 31"
    using assms [unfolded in_window_uint] uint_ge_0 [of "w - base"] uint_ge_0 [of "p - base"] two
    by (intro mod_pos_pos_trivial) linarith+
  finally have "uint (w - (p + 0x80000000)) = ?x - ?y + 2 ^ 31" by simp
  then have "timer_is_before w (p + 0x80000000) \<longleftrightarrow> ?y \<le> ?x"
    by (simp add: timer_is_before_uint)
  then show ?thesis by (simp add: ticks_after_uint [symmetric])
qed

text \<open>One insertion, from any timer that is due no later.\<close>

lemma insert_walk:
  fixes m :: "'e machine_scheme"
  assumes ch: "chain (timers m) (body @ [SentinelTimer])" and dist: "distinct (body @ [SentinelTimer])"
    and win: "\<forall>x \<in> set body. in_window base (waketime (timers m x))"
    and srt: "sorted (map (tkey base m) body)"
    and pos: "pos \<in> set body" "tkey base m pos \<le> ticks_after base w" and w: "in_window base w"
    and t: "t \<notin> set (body @ [SentinelTimer])"
    and sent: "\<forall>x \<in> set body. tkey base m x \<le> ticks_after base w \<Longrightarrow>
      timer_is_before w (waketime (timers m SentinelTimer))"
    and n: "length body \<le> n"
  shows "\<exists>prev y. insert_timer_loop n (timers m) pos w = Some (prev, y) \<and> prev \<noteq> t \<and>
    chain ((timers (set_timer t (\<lambda>x. x\<lparr>tnext := Some y\<rparr>) m))
        (prev := timers m prev\<lparr>tnext := Some t\<rparr>))
      (insort_after (tkey base m) (ticks_after base w) t body @ [SentinelTimer])"
proof -
  let ?k = "ticks_after base w"
  define A where "A = takeWhile (\<lambda>x. tkey base m x \<le> ?k) body"
  define B where "B = dropWhile (\<lambda>x. tkey base m x \<le> ?k) body"
  have AB: "A @ B = body" by (simp add: A_def B_def)
  obtain y post where y: "B @ [SentinelTimer] = y # post" by (cases B) auto
  have xs: "body @ [SentinelTimer] = A @ y # post" using AB y by (metis append_assoc)
  have "pos \<in> set A" unfolding A_def using pos srt by (simp add: not_in_takeWhile_sorted)
  then obtain pre mid where A: "A = pre @ pos # mid" by (meson split_list)
  have keyA: "tkey base m x \<le> ?k" if "x \<in> set A" for x
    using that by (auto simp: A_def dest: set_takeWhileD)
  have cmp: "timer_is_before w (waketime (timers m x)) \<longleftrightarrow> ?k < tkey base m x" if "x \<in> set body" for x
    using timer_is_before_window [OF w, of "waketime (timers m x)"] win that by (simp add: tkey_def)
  have mid: "\<forall>x \<in> set mid. \<not> timer_is_before w (waketime (timers m x))"
  proof
    fix x assume "x \<in> set mid"
    then have "x \<in> set A" "x \<in> set body" using A AB by auto
    then show "\<not> timer_is_before w (waketime (timers m x))" using cmp keyA by (simp add: not_less)
  qed
  have yb: "timer_is_before w (waketime (timers m y))"
  proof (cases B)
    case Nil
    with y have "y = SentinelTimer" by simp
    moreover have "\<forall>x \<in> set body. tkey base m x \<le> ?k" using keyA AB Nil by auto
    ultimately show ?thesis using sent by simp
  next
    case (Cons b bs)
    with y have "y = b" by simp
    moreover have "b \<in> set body" using Cons AB by (metis in_set_conv_decomp)
    moreover have "\<not> tkey base m b \<le> ?k"
      using Cons hd_dropWhile [of "\<lambda>x. tkey base m x \<le> ?k" body] by (simp add: B_def)
    ultimately show ?thesis using cmp by simp
  qed
  have chp: "chain (timers m) (pos # mid @ y # post)"
    using ch chain_drop [of "timers m" pre pos "mid @ y # post"] by (simp add: xs A)
  have len: "length mid < n"
    using n by (simp add: AB [symmetric] A)
  have loop: "insert_timer_loop n (timers m) pos w = Some (last (pos # mid), y)"
    by (rule insert_timer_loop_spec [OF chp len mid yb])
  have lastA: "last (pos # mid) = last A" "A \<noteq> []" by (simp_all add: A)
  have tn: "t \<noteq> last A" using t lastA by (metis xs last_in_set Un_iff set_append)
  have res: "insort_after (tkey base m) ?k t body @ [SentinelTimer] = A @ t # y # post"
    using y by (simp add: insort_after_def A_def B_def)
  have "chain ((timers (set_timer t (\<lambda>x. x\<lparr>tnext := Some y\<rparr>) m))
        (last A := timers m (last A)\<lparr>tnext := Some t\<rparr>)) (A @ t # y # post)"
    by (rule chain_insert [of "timers m"]) (use ch dist t lastA tn xs in auto)
  then show ?thesis
    using loop lastA tn res by (intro exI [of _ "last A"] exI [of _ y]) simp
qed

lemma insert_pending:
  fixes m :: "'e machine_scheme"
  assumes ch: "chain (timers m) (body @ [SentinelTimer])" and dist: "distinct (body @ [SentinelTimer])"
    and "\<forall>x \<in> set body. in_window base (waketime (timers m x))" and "sorted (map (tkey base m) body)"
    and "pos \<in> set body" "tkey base m pos \<le> ticks_after base w" and "in_window base w"
    and "t \<notin> set (body @ [SentinelTimer])"
    and "\<forall>x \<in> set body. tkey base m x \<le> ticks_after base w \<Longrightarrow>
      timer_is_before w (waketime (timers m SentinelTimer))"
  shows "\<exists>prev y. insert_timer pos t w m =
      Ok () (set_timer prev (\<lambda>x. x\<lparr>tnext := Some t\<rparr>) (set_timer t (\<lambda>x. x\<lparr>tnext := Some y\<rparr>) m)) \<and>
    prev \<noteq> t \<and>
    chain ((timers (set_timer t (\<lambda>x. x\<lparr>tnext := Some y\<rparr>) m))
        (prev := timers m prev\<lparr>tnext := Some t\<rparr>))
      (insort_after (tkey base m) (ticks_after base w) t body @ [SentinelTimer])"
proof -
  have "length body \<le> TIMER_MAX" using distinct_timers_length [OF dist] by simp
  then have "\<exists>prev y. insert_timer_loop TIMER_MAX (timers m) pos w = Some (prev, y) \<and> prev \<noteq> t \<and>
    chain ((timers (set_timer t (\<lambda>x. x\<lparr>tnext := Some y\<rparr>) m)) (prev := timers m prev\<lparr>tnext := Some t\<rparr>))
      (insort_after (tkey base m) (ticks_after base w) t body @ [SentinelTimer])"
    by (rule insert_walk [OF assms(1-8), rotated]) (rule assms(9))
  then obtain prev y where
    "insert_timer_loop TIMER_MAX (timers m) pos w = Some (prev, y)" "prev \<noteq> t"
    "chain ((timers (set_timer t (\<lambda>x. x\<lparr>tnext := Some y\<rparr>) m)) (prev := timers m prev\<lparr>tnext := Some t\<rparr>))
      (insort_after (tkey base m) (ticks_after base w) t body @ [SentinelTimer])"
    by (elim exE conjE)
  then show ?thesis by (intro exI [of _ prev] exI [of _ y]) (simp add: insert_timer_def)
qed

subsection \<open>Adding a timer\<close>

lemma sched_okD:
  assumes "sched_ok base m xs"
  shows "chain (timers m) (xs @ [SentinelTimer])" "distinct (xs @ [SentinelTimer])" "xs \<noteq> []"
    "timer_list m = hd xs" "PeriodicTimer \<in> set xs" "last_insert m \<in> set xs"
    "DeletedTimer \<notin> set (tl xs)"
    "waketime (timers m SentinelTimer) = waketime (timers m PeriodicTimer) + 0x80000000"
    "\<And>t. t \<in> set xs \<Longrightarrow> in_window base (waketime (timers m t))"
    "sorted (map (tkey base m) xs)" "last_insert m \<noteq> DeletedTimer"
  using assms by (auto simp: sched_ok_def sched_list_def)

lemma sentinel_after_all:
  assumes "sched_ok base m xs" and "in_window base w"
    and "\<forall>x \<in> set xs. tkey base m x \<le> ticks_after base w"
  shows "timer_is_before w (waketime (timers m SentinelTimer))"
proof -
  note ok = sched_okD [OF assms(1)]
  have "in_window base (waketime (timers m PeriodicTimer))" using ok(5,9) by blast
  moreover have "tkey base m PeriodicTimer \<le> ticks_after base w" using ok(5) assms(3) by blast
  ultimately show ?thesis using before_sentinel [OF assms(2)] by (simp add: ok(8) tkey_def)
qed

lemma live_Cons: "DeletedTimer \<notin> set xs \<Longrightarrow> live (x # xs) = (if x = DeletedTimer then xs else x # xs)"
  by (auto simp: live_def filter_id_conv)

lemma insort_after_first: "\<forall>y \<in> set xs. k < key y \<Longrightarrow> insort_after key k x xs = x # xs"
  by (cases xs) (auto simp: insort_after_def)

text \<open>The state after a timer was put in front of all others.\<close>

definition put_first :: "tref \<Rightarrow> u32 \<Rightarrow> 'e machine_scheme \<Rightarrow> 'e machine_scheme" where
  "put_first add w m =
     (set_timer DeletedTimer (\<lambda>x. x\<lparr>waketime := w, tnext := Some add\<rparr>)
       (set_timer add (\<lambda>x. x\<lparr>tnext := (if timer_list m = DeletedTimer
           then tnext (timers m DeletedTimer) else Some (timer_list m))\<rparr>) m))
       \<lparr>timer_list := DeletedTimer\<rparr>"

lemma put_first_ok:
  assumes ok: "sched_ok base m xs" and add: "add \<notin> set xs" "add \<noteq> DeletedTimer" "add \<noteq> SentinelTimer"
    and w: "w = waketime (timers m add)" "in_window base w"
    and lt: "ticks_after base w < tkey base m (hd xs)"
  shows "sched_ok base (put_first add w m) (DeletedTimer # add # live xs)"
    and "live (DeletedTimer # add # live xs) =
      insort_after (tkey base m) (ticks_after base w) add (live xs)"
proof -
  note D = sched_okD [OF ok]
  let ?m = "put_first add w m" and ?ys = "live xs"
  obtain x xs' where xs: "xs = x # xs'" using D(3) by (cases xs) auto
  have nodel: "DeletedTimer \<notin> set ?ys" and sub: "set ?ys \<subseteq> set xs" by (auto simp: live_def)
  have ys: "?ys = (if x = DeletedTimer then xs' else xs)"
    using D(7) xs by (simp add: live_Cons)
  have "add \<notin> set ?ys" using add sub by blast
  have rest: "tkey base ?m t = tkey base m t" if "t \<noteq> DeletedTimer" for t
    using that by (simp add: tkey_def put_first_def)
  have gt: "\<forall>y \<in> set xs. ticks_after base w < tkey base m y"
    using D(10) lt xs by auto
  then have first: "insort_after (tkey base m) (ticks_after base w) add ?ys = add # ?ys"
    using sub by (intro insort_after_first) blast
  have chys: "chain (timers m) (?ys @ [SentinelTimer])"
    using D(1) xs ys by (cases xs') (auto split: if_splits)
  then have "chain (timers ?m) (?ys @ [SentinelTimer])"
    using nodel \<open>add \<notin> set ?ys\<close> add
    by (subst chain_cong [of _ _ "timers m"]) (auto simp: put_first_def)
  moreover have "tnext (timers ?m add) = Some (hd (?ys @ [SentinelTimer]))"
    using add D(1,4) xs ys by (cases xs') (auto simp: put_first_def split: if_splits)
  moreover have "tnext (timers ?m DeletedTimer) = Some add" by (simp add: put_first_def)
  moreover obtain u us where u: "?ys @ [SentinelTimer] = u # us" by (cases ?ys) auto
  ultimately have ch: "chain (timers ?m) ((DeletedTimer # add # ?ys) @ [SentinelTimer])"
    by simp
  have dist: "distinct ((DeletedTimer # add # ?ys) @ [SentinelTimer])"
    using D(2) add nodel \<open>add \<notin> set ?ys\<close> by (auto simp: live_def)
  have per: "PeriodicTimer \<in> set ?ys" and lin: "last_insert m \<in> set ?ys"
    using D(5,6,11) by (auto simp: live_def)
  have srt: "sorted (map (tkey base ?m) (DeletedTimer # add # ?ys))"
  proof -
    have "tkey base ?m DeletedTimer = ticks_after base w" by (simp add: tkey_def put_first_def)
    moreover have "tkey base ?m add = ticks_after base w" 
      using rest [OF add(2)] w by (simp add: tkey_def)
    moreover have eq: "map (tkey base ?m) ?ys = map (tkey base m) ?ys"
    proof (rule map_cong [OF refl])
      fix t assume "t \<in> set ?ys"
      then have "t \<noteq> DeletedTimer" using nodel by blast
      then show "tkey base ?m t = tkey base m t" by (rule rest)
    qed
    moreover have "sorted (map (tkey base m) ?ys)"
      using D(10) by (simp add: live_def sorted_filter)
    then have "sorted (map (tkey base ?m) ?ys)" by (simp only: eq)
    moreover have "\<forall>y \<in> set ?ys. ticks_after base w \<le> tkey base ?m y"
      using gt sub eq by (auto simp: less_imp_le)
    ultimately show ?thesis by simp
  qed
  have win: "\<forall>t \<in> set (DeletedTimer # add # ?ys). in_window base (waketime (timers ?m t))"
    using D(9) sub w nodel add by (auto simp: put_first_def)
  show "sched_ok base ?m (DeletedTimer # add # ?ys)"
    using ch dist per lin srt win nodel add D(8,11)
    by (auto simp: sched_ok_def sched_list_def put_first_def)
  show "live (DeletedTimer # add # ?ys) = insort_after (tkey base m) (ticks_after base w) add ?ys"
    using nodel add first by (simp add: live_def filter_id_conv)
qed


text \<open>The state after a timer was linked in behind another.\<close>

lemma link_ok:
  assumes ok: "sched_ok base m xs" and add: "add \<notin> set xs" "add \<noteq> DeletedTimer" "add \<noteq> SentinelTimer"
    and w: "w = waketime (timers m add)" "in_window base w"
    and ge: "tkey base m (hd xs) \<le> ticks_after base w"
  shows "\<exists>m' xs'. insert_timer (timer_list m) add w m = Ok () m' \<and> sched_ok base m' xs' \<and>
    live xs' = insort_after (tkey base m) (ticks_after base w) add (live xs) \<and>
    (\<exists>T. m' = m\<lparr>timers := T\<rparr> \<and> (\<forall>t. waketime (T t) = waketime (timers m t) \<and> func (T t) = func (timers m t)))"
proof -
  note D = sched_okD [OF ok]
  let ?ins = "insort_after (tkey base m) (ticks_after base w) add"
  have "hd xs \<in> set xs" using D(3) by simp
  have "\<exists>prev y. insert_timer (hd xs) add w m =
      Ok () (set_timer prev (\<lambda>x. x\<lparr>tnext := Some add\<rparr>) (set_timer add (\<lambda>x. x\<lparr>tnext := Some y\<rparr>) m)) \<and>
    prev \<noteq> add \<and>
    chain ((timers (set_timer add (\<lambda>x. x\<lparr>tnext := Some y\<rparr>) m))
        (prev := timers m prev\<lparr>tnext := Some add\<rparr>)) (?ins xs @ [SentinelTimer])"
    by (rule insert_pending [OF D(1,2) _ D(10) \<open>hd xs \<in> set xs\<close> ge w(2)])
      (use add D(9) sentinel_after_all [OF ok w(2)] in auto)
  then obtain prev y where
    ins: "insert_timer (hd xs) add w m = Ok () (set_timer prev (\<lambda>x. x\<lparr>tnext := Some add\<rparr>)
        (set_timer add (\<lambda>x. x\<lparr>tnext := Some y\<rparr>) m))" (is "_ = Ok () ?m") and ne: "prev \<noteq> add"
    and ch: "chain ((timers (set_timer add (\<lambda>x. x\<lparr>tnext := Some y\<rparr>) m))
        (prev := timers m prev\<lparr>tnext := Some add\<rparr>)) (?ins xs @ [SentinelTimer])"
    by (elim exE conjE)
  have T: "timers ?m = (timers (set_timer add (\<lambda>x. x\<lparr>tnext := Some y\<rparr>) m))
        (prev := timers m prev\<lparr>tnext := Some add\<rparr>)"
    using ne by simp
  have same: "waketime (timers ?m t) = waketime (timers m t)" "func (timers ?m t) = func (timers m t)" for t
    by simp_all
  have key: "tkey base ?m = tkey base m" by (rule ext) (simp only: tkey_def same)
  obtain x xs' where xs: "xs = x # xs'" using D(3) by (cases xs) auto
  have hd: "hd (?ins xs) = hd xs" and tl: "?ins xs = x # ?ins xs'"
    using ge by (simp_all add: xs insort_after_def)
  have live: "live (?ins xs) = ?ins (live xs)"
    using D(7) tl add by (auto simp: xs live_Cons)
  have "sched_ok base ?m (?ins xs)"
    unfolding sched_ok_def sched_list_def
  proof (intro conjI)
    show "chain (timers ?m) (?ins xs @ [SentinelTimer])" using ch T by simp
    show "distinct (?ins xs @ [SentinelTimer])" using D(2) add by (auto simp: distinct_insort_after)
    show "timer_list ?m = hd (?ins xs)" using D(4) hd by simp
    show "DeletedTimer \<notin> set (tl (?ins xs))" using D(7) add tl by (simp add: xs)
    show "sorted (map (tkey base ?m) (?ins xs))"
      using D(10) w by (simp only: key) (rule sorted_insort_after, simp_all add: tkey_def)
    show "\<forall>t \<in> set (?ins xs). in_window base (waketime (timers ?m t))"
      using D(9) w by (simp only: same) auto
  qed (use D in \<open>simp_all\<close>)
  moreover have "?m = m\<lparr>timers := timers ?m\<rparr>" by (simp add: set_timer_def)
  ultimately show ?thesis
    using ins live same D(4) by (intro exI [of _ ?m] exI [of _ "?ins xs"]) auto
qed


lemma sched_add_timer_first:
  assumes "timer_is_before (waketime (timers m add)) (waketime (timers m (timer_list m)))"
    and "add \<noteq> DeletedTimer"
  shows "sched_add_timer add m =
    (if timer_is_before (waketime (timers m add)) (clock_in (env m) (ticks m)) \<and> shutdown_status m = 0
     then Shutdown ''Timer too close'' (m\<lparr>irq_on := False, ticks := Suc (ticks m)\<rparr>)
     else Ok () ((put_first add (waketime (timers m add)) m)
       \<lparr>irq_on := irq_on m, ticks := Suc (ticks m), out := out m @ [TimerKick]\<rparr>))"
  using assms
  by (simp add: sched_add_timer_def bnd_app thn_app sched_try_shutdown_def sched_shutdown_def
      put_first_def set_timer_def)

lemma timers_update_eq: "m\<lparr>timers := A\<rparr> = m\<lparr>timers := B\<rparr> \<longleftrightarrow> A = B"
  by (cases m) simp

lemma sched_add_timer_link:
  assumes "\<not> timer_is_before (waketime (timers m add)) (waketime (timers m (timer_list m)))"
    and "insert_timer (timer_list m) add (waketime (timers m add)) m = Ok () (m\<lparr>timers := T\<rparr>)"
  shows "sched_add_timer add m = Ok () (m\<lparr>timers := T\<rparr>)"
proof -
  have "insert_timer (timer_list m) add (waketime (timers m add)) (m\<lparr>irq_on := False\<rparr>) =
      Ok () (m\<lparr>timers := T, irq_on := False\<rparr>)"
    using assms(2)
    by (auto simp: insert_timer_def set_timer_def timers_update_eq split: option.splits prod.splits)
  with assms(1) show ?thesis
    by (simp add: sched_add_timer_def bnd_app thn_app)
qed

text \<open>
  What the list operations may change: links, the head of the list, the insertion
  hint, the wake time of the placeholder, and the record of inputs and outputs.
\<close>

definition sched_frame :: "'e machine_scheme \<Rightarrow> 'e machine_scheme \<Rightarrow> bool" where
  "sched_frame m m' \<longleftrightarrow>
     m' = m\<lparr>ticks := ticks m', out := out m', timers := timers m', timer_list := timer_list m',
            last_insert := last_insert m'\<rparr> \<and>
     (\<forall>t. t \<noteq> DeletedTimer \<longrightarrow>
        waketime (timers m' t) = waketime (timers m t) \<and> func (timers m' t) = func (timers m t))"

lemma sched_list_irrelevant [simp]:
  "sched_list (m\<lparr>irq_on := b\<rparr>) xs = sched_list m xs"
  "sched_list (m\<lparr>ticks := n\<rparr>) xs = sched_list m xs"
  "sched_list (m\<lparr>out := os\<rparr>) xs = sched_list m xs"
  by (simp_all add: sched_list_def)

lemma sched_ok_irrelevant [simp]:
  "sched_ok base (m\<lparr>irq_on := b\<rparr>) xs = sched_ok base m xs"
  "sched_ok base (m\<lparr>ticks := n\<rparr>) xs = sched_ok base m xs"
  "sched_ok base (m\<lparr>out := os\<rparr>) xs = sched_ok base m xs"
  "tkey base (m\<lparr>irq_on := b\<rparr>) = tkey base m"
  "tkey base (m\<lparr>ticks := n\<rparr>) = tkey base m"
  "tkey base (m\<lparr>out := os\<rparr>) = tkey base m"
  by (simp_all add: sched_ok_def sched_list_def tkey_def [abs_def])

lemma sched_add_timer_spec:
  assumes ok: "sched_ok base m xs" and add: "add \<notin> set xs" "add \<noteq> DeletedTimer" "add \<noteq> SentinelTimer"
    and win: "in_window base (waketime (timers m add))"
  shows "case sched_add_timer add m of
      Ok _ m' \<Rightarrow> sched_frame m m' \<and> (\<exists>xs'. sched_ok base m' xs' \<and>
        live xs' = insort_after (tkey base m) (tkey base m add) add (live xs))
    | Shutdown r m' \<Rightarrow> r = ''Timer too close'' \<and> shutdown_status m = 0 \<and>
        timer_is_before (waketime (timers m add)) (clock_in (env m) (ticks m)) \<and>
        (\<forall>t \<in> set xs. tkey base m add < tkey base m t)
    | Undef \<Rightarrow> False"
proof (cases "timer_is_before (waketime (timers m add)) (waketime (timers m (timer_list m)))")
  case True
  note D = sched_okD [OF ok]
  let ?w = "waketime (timers m add)"
  have lt: "ticks_after base ?w < tkey base m (hd xs)"
    using True timer_is_before_window [OF win D(9) [of "hd xs"]] D(3,4) by (simp add: tkey_def)
  have all: "\<forall>t \<in> set xs. tkey base m add < tkey base m t"
    using D(10,3) lt by (cases xs) (auto simp: tkey_def)
  let ?m = "(put_first add ?w m)\<lparr>irq_on := irq_on m, ticks := Suc (ticks m), out := out m @ [TimerKick]\<rparr>"
  have fr: "sched_frame m ?m"
    by (auto simp: sched_frame_def put_first_def set_timer_def)
  have "sched_ok base ?m (DeletedTimer # add # live xs)"
    using put_first_ok(1) [OF ok add refl win lt] by simp
  moreover have "live (DeletedTimer # add # live xs) =
      insort_after (tkey base m) (tkey base m add) add (live xs)"
    using put_first_ok(2) [OF ok add refl win lt] by (simp add: tkey_def)
  ultimately show ?thesis
    using sched_add_timer_first [OF True add(2)] fr all by auto
next
  case False
  note D = sched_okD [OF ok]
  have ge: "tkey base m (hd xs) \<le> ticks_after base (waketime (timers m add))"
    using False timer_is_before_window [OF win D(9) [of "hd xs"]] D(3,4) by (simp add: tkey_def not_less)
  from link_ok [OF ok add refl win ge] obtain T xs' where
    ins: "insert_timer (timer_list m) add (waketime (timers m add)) m = Ok () (m\<lparr>timers := T\<rparr>)"
    and ok': "sched_ok base (m\<lparr>timers := T\<rparr>) xs'"
    and live: "live xs' = insort_after (tkey base m) (ticks_after base (waketime (timers m add))) add (live xs)"
    and same: "\<forall>t. waketime (T t) = waketime (timers m t) \<and> func (T t) = func (timers m t)"
    by (elim exE conjE) simp
  have "sched_frame m (m\<lparr>timers := T\<rparr>)"
    unfolding sched_frame_def using same by simp
  then show ?thesis
    using sched_add_timer_link [OF False ins] ok' live by (auto simp: tkey_def)
qed

subsection \<open>Deleting a timer\<close>

text \<open>The three ways \<^verbatim>\<open>sched_del_timer\<close> ends.\<close>

definition forget_hint :: "tref \<Rightarrow> 'e machine_scheme \<Rightarrow> 'e machine_scheme" where
  "forget_hint del m = (if last_insert m = del then m\<lparr>last_insert := PeriodicTimer\<rparr> else m)"

definition drop_first :: "tref \<Rightarrow> 'e machine_scheme \<Rightarrow> 'e machine_scheme" where
  "drop_first del m = (set_timer DeletedTimer
     (\<lambda>x. x\<lparr>waketime := waketime (timers m del), tnext := tnext (timers m del)\<rparr>) m)
       \<lparr>timer_list := DeletedTimer\<rparr>"

lemma sched_del_timer_first:
  assumes "timer_list m = del" and "del \<noteq> DeletedTimer"
  shows "sched_del_timer del m = Ok () (forget_hint del (drop_first del m))"
  using assms
  by (simp add: sched_del_timer_def bnd_app thn_app drop_first_def forget_hint_def set_timer_def)

lemma sched_del_timer_loop:
  assumes "timer_list m \<noteq> del"
  shows "sched_del_timer del m =
    (case del_timer_loop TIMER_MAX (timers m) (timer_list m) del of
       None \<Rightarrow> Undef
     | Some None \<Rightarrow> Ok () (forget_hint del m)
     | Some (Some pos) \<Rightarrow>
         Ok () (forget_hint del (set_timer pos (\<lambda>x. x\<lparr>tnext := tnext (timers m del)\<rparr>) m)))"
  using assms
  by (simp add: sched_del_timer_def bnd_app thn_app forget_hint_def set_timer_def split: option.splits)

lemma forget_hint_fields [simp]:
  "timers (forget_hint del m) = timers m" "timer_list (forget_hint del m) = timer_list m"
  "ticks (forget_hint del m) = ticks m" "out (forget_hint del m) = out m"
  "last_insert (forget_hint del m) = (if last_insert m = del then PeriodicTimer else last_insert m)"
  by (simp_all add: forget_hint_def)

lemma drop_first_fields [simp]:
  "timers (drop_first del m) = (timers m)(DeletedTimer := timers m DeletedTimer
     \<lparr>waketime := waketime (timers m del), tnext := tnext (timers m del)\<rparr>)"
  "timer_list (drop_first del m) = DeletedTimer" "last_insert (drop_first del m) = last_insert m"
  by (simp_all add: drop_first_def)

lemma sched_ok_drop_first:
  assumes ok: "sched_ok base m xs" and hd: "hd xs = del"
    and del: "del \<notin> {PeriodicTimer, SentinelTimer, DeletedTimer}"
  shows "sched_ok base (forget_hint del (drop_first del m)) (DeletedTimer # tl xs)"
    and "live (DeletedTimer # tl xs) = remove1 del (live xs)"
proof -
  note D = sched_okD [OF ok]
  let ?m = "forget_hint del (drop_first del m)"
  obtain ys where xs: "xs = del # ys" using D(3) hd by (cases xs) auto
  have nd: "DeletedTimer \<notin> set ys" using D(7) xs by simp
  have T: "timers ?m = (timers m)(DeletedTimer := timers m DeletedTimer
      \<lparr>waketime := waketime (timers m del), tnext := tnext (timers m del)\<rparr>)"
    by simp
  have "chain (timers m) (ys @ [SentinelTimer])" using D(1) xs by (cases ys) auto
  then have "chain (timers ?m) (ys @ [SentinelTimer])"
    using nd by (subst chain_cong [of _ _ "timers m"]) (auto simp: T)
  then have ch: "chain (timers ?m) ((DeletedTimer # ys) @ [SentinelTimer])"
    using D(1) xs by (cases ys) (auto simp: T)
  have key: "tkey base ?m t = tkey base m t" if "t \<noteq> DeletedTimer" for t
    using that by (simp add: tkey_def T)
  have eq: "map (tkey base ?m) ys = map (tkey base m) ys"
  proof (rule map_cong [OF refl])
    fix t assume "t \<in> set ys"
    then show "tkey base ?m t = tkey base m t" using nd by (intro key) blast
  qed
  have "map (tkey base ?m) (DeletedTimer # ys) = map (tkey base m) xs"
    using eq by (simp add: xs tkey_def [of _ _ DeletedTimer] tkey_def [of _ _ del] T)
  then have srt: "sorted (map (tkey base ?m) (DeletedTimer # ys))" using D(10) by simp
  show "sched_ok base ?m (DeletedTimer # tl xs)"
    using ch srt D(2,5,6,8,9,11) nd del
    by (auto simp: sched_ok_def sched_list_def xs)
  show "live (DeletedTimer # tl xs) = remove1 del (live xs)"
    using nd del by (simp add: xs live_Cons)
qed

lemma sched_ok_unlink:
  assumes ok: "sched_ok base m xs" and xs: "xs = pre @ del # post" and pre: "pre \<noteq> []"
    and del: "del \<notin> {PeriodicTimer, SentinelTimer, DeletedTimer}"
  shows "sched_ok base (forget_hint del (set_timer (last pre) (\<lambda>x. x\<lparr>tnext := tnext (timers m del)\<rparr>) m))
      (pre @ post)" (is "sched_ok base ?m _")
    and "live (pre @ post) = remove1 del (live xs)"
proof -
  note D = sched_okD [OF ok]
  have nin: "del \<notin> set pre" "del \<notin> set post" using D(2) xs by auto
  obtain z zs where z: "post @ [SentinelTimer] = z # zs" by (cases post) auto
  have nx: "tnext (timers m del) = Some z"
    using chain_drop [of "timers m" pre del "post @ [SentinelTimer]"] D(1) z by (simp add: xs)
  have "chain (timers ?m) (pre @ z # zs)"
    by (rule chain_remove [of "timers m" pre del]) (use D(1,2) z pre nx xs in auto)
  then have ch: "chain (timers ?m) ((pre @ post) @ [SentinelTimer])" using z by simp
  have same: "waketime (timers ?m t) = waketime (timers m t)" for t by simp
  have key: "tkey base ?m = tkey base m" by (rule ext) (simp only: tkey_def same)
  have srt: "sorted (map (tkey base ?m) (pre @ post))"
    using D(10) by (simp only: key) (simp add: xs sorted_append)
  have hd: "hd (pre @ post) = hd xs" using pre by (simp add: xs)
  have tl: "tl (pre @ post) = tl pre @ post" "tl xs = tl pre @ del # post" using pre by (simp_all add: xs)
  show "sched_ok base ?m (pre @ post)"
    unfolding sched_ok_def sched_list_def
  proof (intro conjI)
    show "\<forall>t \<in> set (pre @ post). in_window base (waketime (timers ?m t))"
      using D(9) by (simp only: same) (auto simp: xs)
    show "last_insert ?m \<in> set (pre @ post)" using D(5,6) del by (auto simp: xs)
    show "timer_list ?m = hd (pre @ post)" using D(4) hd by simp
    show "DeletedTimer \<notin> set (tl (pre @ post))" using D(7) tl by simp
    show "PeriodicTimer \<in> set (pre @ post)" using D(5) del by (auto simp: xs)
    show "distinct ((pre @ post) @ [SentinelTimer])" using D(2) by (auto simp: xs)
    show "last_insert ?m \<noteq> DeletedTimer" using D(11) by simp
    show "waketime (timers ?m SentinelTimer) = waketime (timers ?m PeriodicTimer) + 0x80000000"
      using D(8) by (simp only: same)
  qed (rule ch, rule srt)
  show "live (pre @ post) = remove1 del (live xs)"
    using nin del by (auto simp: xs live_def remove1_append)
qed

lemma sched_del_timer_spec:
  assumes ok: "sched_ok base m xs" and del: "del \<notin> {PeriodicTimer, SentinelTimer, DeletedTimer}"
  shows "\<exists>m' xs'. sched_del_timer del m = Ok () m' \<and> sched_frame m m' \<and> sched_ok base m' xs' \<and>
    live xs' = remove1 del (live xs)"
proof -
  note D = sched_okD [OF ok]
  obtain x ys where xs: "xs = x # ys" using D(3) by (cases xs) auto
  have tl: "timer_list m = x" using D(4) xs by simp
  have len: "length (ys @ [SentinelTimer]) < TIMER_MAX"
    using distinct_timers_length [OF D(2)] by (simp add: xs)
  consider "x = del" | "x \<noteq> del" "del \<in> set ys" | "x \<noteq> del" "del \<notin> set ys" by blast
  then show ?thesis
  proof cases
    case 1
    have "sched_frame m (forget_hint del (drop_first del m))"
      by (auto simp: sched_frame_def drop_first_def forget_hint_def set_timer_def)
    then show ?thesis
      using sched_del_timer_first [of m del] sched_ok_drop_first [OF ok _ del] 1 tl del xs by auto
  next
    case 2
    then obtain mid post where ys: "ys = mid @ del # post" "del \<notin> set mid" by (meson split_list_first)
    have "del_timer_loop TIMER_MAX (timers m) x del = Some (Some (last (x # mid)))"
      using del_timer_loop_found [of "timers m" x mid del "post @ [SentinelTimer]" TIMER_MAX] D(1) len ys
      by (simp add: xs)
    moreover have "sched_frame m (forget_hint del (set_timer p (\<lambda>x. x\<lparr>tnext := n\<rparr>) m))" for p n
      by (auto simp: sched_frame_def forget_hint_def set_timer_def)
    ultimately show ?thesis
      using sched_del_timer_loop [of m del] sched_ok_unlink [OF ok, of "x # mid" del post] 2 tl del xs ys
      by auto
  next
    case 3
    have "del_timer_loop TIMER_MAX (timers m) x del = Some None"
      using del_timer_loop_absent [of "timers m" x "ys @ [SentinelTimer]"] D(1) len 3 del
      by (simp add: xs)
    moreover have "forget_hint del m = m" using D(6) 3 xs by (auto simp: forget_hint_def)
    moreover have "sched_frame m m" by (simp add: sched_frame_def)
    moreover have "remove1 del (live xs) = live xs"
      using 3 xs by (intro remove1_idem) (simp add: live_def)
    ultimately show ?thesis using sched_del_timer_loop [of m del] 3 tl ok by auto
  qed
qed

subsection \<open>Dispatching\<close>

text \<open>
  What a timer function leaves behind: the timer \<open>t\<close> it ran for is still the head of
  the list, the rest \<open>ys\<close> is sorted, and the wake time of \<open>t\<close> may have moved.  The
  periodic timer always asks to be scheduled again and the placeholder never does.
\<close>

definition handled :: "u32 \<Rightarrow> 'e machine_scheme \<Rightarrow> tref \<Rightarrow> tref list \<Rightarrow> sf \<Rightarrow> bool" where
  "handled base m t ys res \<longleftrightarrow>
     sched_list m (t # ys) \<and>
     (\<forall>x \<in> set ys. in_window base (waketime (timers m x))) \<and> sorted (map (tkey base m) ys) \<and>
     (res = SF_DONE \<longrightarrow> t \<noteq> PeriodicTimer) \<and>
     (res = SF_RESCHEDULE \<longrightarrow> t \<noteq> DeletedTimer \<and> in_window base (waketime (timers m t)))"

lemma handledD:
  assumes "handled base m t ys res"
  shows "chain (timers m) (t # ys @ [SentinelTimer])" "distinct (t # ys @ [SentinelTimer])"
    "PeriodicTimer \<in> set (t # ys)" "timer_list m = t" "last_insert m \<in> set (t # ys)"
    "last_insert m \<noteq> DeletedTimer" "DeletedTimer \<notin> set ys"
    "waketime (timers m SentinelTimer) = waketime (timers m PeriodicTimer) + 0x80000000"
    "\<And>x. x \<in> set ys \<Longrightarrow> in_window base (waketime (timers m x))"
    "sorted (map (tkey base m) ys)"
  using assms by (auto simp: handled_def sched_list_def)

lemma handled_tl: "handled base m t ys res \<Longrightarrow> chain (timers m) (ys @ [SentinelTimer])"
  by (drule handledD(1)) (cases ys; simp)

lemma handled_next: "handled base m t ys res \<Longrightarrow> next_of t m = Ok (hd (ys @ [SentinelTimer])) m"
  using handledD(1) [of base m t ys res] by (cases ys) (auto simp: next_of_def)

lemma handled_sentinel:
  assumes h: "handled base m t ys SF_RESCHEDULE"
    and "\<forall>x \<in> set ys. tkey base m x \<le> tkey base m t"
  shows "timer_is_before (waketime (timers m t)) (waketime (timers m SentinelTimer))"
proof -
  note D = handledD [OF h]
  have w: "in_window base (waketime (timers m t))" using h by (simp add: handled_def)
  have "in_window base (waketime (timers m PeriodicTimer))"
    using D(3,9) w by (cases "t = PeriodicTimer") auto
  moreover have "tkey base m PeriodicTimer \<le> tkey base m t" using D(3) assms(2) by auto
  ultimately show ?thesis using before_sentinel [OF w] by (simp add: D(8) tkey_def)
qed

text \<open>The walk from the hint or from the next timer finds the same place.\<close>

lemma reschedule_walk:
  assumes h: "handled base m t ys SF_RESCHEDULE"
    and nb: "\<not> timer_is_before (waketime (timers m t)) (waketime (timers m (hd (ys @ [SentinelTimer]))))"
    and pos: "pos = t \<or> (pos \<in> set ys \<and> tkey base m pos \<le> tkey base m t)"
  shows "\<exists>prev y. insert_timer_loop TIMER_MAX (timers m) pos (waketime (timers m t)) = Some (prev, y) \<and>
    prev \<noteq> t \<and> chain ((timers m)(t := timers m t\<lparr>tnext := Some y\<rparr>, prev := timers m prev\<lparr>tnext := Some t\<rparr>))
      (insort_after (tkey base m) (tkey base m t) t ys @ [SentinelTimer])"
proof -
  note D = handledD [OF h]
  let ?w = "waketime (timers m t)" and ?k = "tkey base m t"
  have w: "in_window base ?w" using h by (simp add: handled_def)
  have ne: "ys \<noteq> []"
    using nb handled_sentinel [OF h] by (cases ys) auto
  then obtain n zs where ys: "ys = n # zs" by (cases ys) auto
  have kn: "tkey base m n \<le> ?k"
    using nb timer_is_before_window [OF w D(9) [of n]] by (simp add: ys tkey_def not_less)
  have walk: "\<exists>prev y. insert_timer_loop N (timers m) p ?w = Some (prev, y) \<and> prev \<noteq> t \<and>
    chain ((timers (set_timer t (\<lambda>x. x\<lparr>tnext := Some y\<rparr>) m)) (prev := timers m prev\<lparr>tnext := Some t\<rparr>))
      (insort_after (tkey base m) (ticks_after base ?w) t ys @ [SentinelTimer])"
    if "p \<in> set ys" "tkey base m p \<le> ?k" "length ys \<le> N" for p N
    by (rule insert_walk [OF handled_tl [OF h] _ _ D(10) that(1) _ w _ _ that(3)])
      (use D(2,9) that handled_sentinel [OF h] in \<open>auto simp: tkey_def\<close>)
  have len: "length ys \<le> TIMER_MAX - 1" "TIMER_MAX = Suc (TIMER_MAX - 1)"
    using distinct_timers_length [OF D(2)] by (auto simp: TIMER_MAX_def)
  have "insert_timer_loop TIMER_MAX (timers m) t ?w = insert_timer_loop (TIMER_MAX - 1) (timers m) n ?w"
    using nb D(1) by (subst len(2)) (simp add: ys)
  then show ?thesis
    using pos walk [of pos TIMER_MAX] walk [of n "TIMER_MAX - 1"] kn len ys
    by (auto simp: tkey_def)
qed

subsection \<open>The dispatcher's choices\<close>

lemma after_handler_DONE:
  assumes h: "handled base m t ys SF_DONE"
  shows "sched_ok base (m\<lparr>timer_list := hd ys,
      last_insert := (if last_insert m = t then hd ys else last_insert m)\<rparr>) ys" (is "sched_ok base ?m ys")
proof -
  note D = handledD [OF h]
  have "PeriodicTimer \<in> set ys" using h D(3) by (auto simp: handled_def)
  then obtain n zs where ys: "ys = n # zs" by (cases ys) auto
  have "tkey base ?m = tkey base m" by (simp add: tkey_def [abs_def])
  then show ?thesis
    unfolding sched_ok_def sched_list_def
    using handled_tl [OF h] D \<open>PeriodicTimer \<in> set ys\<close> by (auto simp: ys)
qed

lemma sched_ok_kept:
  assumes h: "handled base m t ys SF_RESCHEDULE"
    and b: "timer_is_before (waketime (timers m t)) (waketime (timers m (hd (ys @ [SentinelTimer]))))"
  shows "sched_ok base m (t # ys)" and "insort_after (tkey base m) (tkey base m t) t ys = t # ys"
proof -
  note D = handledD [OF h]
  have w: "in_window base (waketime (timers m t))" using h by (simp add: handled_def)
  have lt: "\<forall>y \<in> set ys. tkey base m t < tkey base m y"
  proof (cases ys)
    case (Cons n zs)
    then have "tkey base m t < tkey base m n"
      using b timer_is_before_window [OF w D(9) [of n]] by (simp add: tkey_def)
    then show ?thesis using D(10) Cons by auto
  qed simp
  then show "insort_after (tkey base m) (tkey base m t) t ys = t # ys" by (rule insort_after_first)
  have "sorted (map (tkey base m) (t # ys))" using lt D(10) by (auto simp: less_imp_le)
  then show "sched_ok base m (t # ys)"
    using h w by (auto simp: sched_ok_def handled_def)
qed

lemma sched_ok_refiled:
  fixes m :: "'e machine_scheme"
  assumes h: "handled base m t ys SF_RESCHEDULE"
    and ch: "chain T (insort_after (tkey base m) (tkey base m t) t ys @ [SentinelTimer])"
    and same: "\<And>x. waketime (T x) = waketime (timers m x)"
    and hd: "ys \<noteq> []" "tkey base m (hd ys) \<le> tkey base m t"
  shows "sched_ok base (m\<lparr>timers := T, timer_list := hd ys, last_insert := t\<rparr>)
    (insort_after (tkey base m) (tkey base m t) t ys)" (is "sched_ok base ?m ?xs")
proof -
  note D = handledD [OF h]
  have key: "tkey base ?m = tkey base m" by (simp add: tkey_def [abs_def] same)
  have t: "t \<noteq> DeletedTimer" "in_window base (waketime (timers m t))"
    using h by (simp_all add: handled_def)
  obtain n zs where ys: "ys = n # zs" using hd by (cases ys) auto
  have xs: "?xs = n # insort_after (tkey base m) (tkey base m t) t zs"
    using hd by (simp add: ys insort_after_def)
  show ?thesis
    unfolding sched_ok_def sched_list_def
  proof (intro conjI)
    show "sorted (map (tkey base ?m) ?xs)"
      using sorted_insort_after [OF D(10) refl, of t] by (simp only: key)
    show "distinct (?xs @ [SentinelTimer])" using D(2) by (auto simp: distinct_insort_after)
    show "DeletedTimer \<notin> set (tl ?xs)" using D(7) t xs by (simp add: ys)
    show "timer_list ?m = hd ?xs" using xs ys by simp
    show "chain (timers ?m) (?xs @ [SentinelTimer])" using ch by simp
    show "\<forall>x \<in> set ?xs. in_window base (waketime (timers ?m x))" using D(9) t by (auto simp: same)
    show "PeriodicTimer \<in> set ?xs" using D(3) by auto
    show "waketime (timers ?m SentinelTimer) = waketime (timers ?m PeriodicTimer) + 0x80000000"
      using D(8) by (simp add: same)
  qed (use t in simp_all)
qed

text \<open>The code after the timer function has returned.\<close>

definition settle :: "tref \<Rightarrow> sf \<Rightarrow> ('e, u32) mfw" where
  "settle t res =
     bnd (reads (\<lambda>m. waketime (timers m t))) (\<lambda>updated.
     bnd (next_of t) (\<lambda>n.
     bnd (reads (\<lambda>m. waketime (timers m n))) (\<lambda>nw.
     if res = SF_DONE then
       thn (modify (\<lambda>m. m\<lparr>timer_list := n\<rparr>))
       (thn (modify (\<lambda>m. if last_insert m = t then m\<lparr>last_insert := n\<rparr> else m))
       (ret nw))
     else if \<not> timer_is_before updated nw then
       thn (modify (\<lambda>m. m\<lparr>timer_list := n\<rparr>))
       (bnd (reads last_insert) (\<lambda>li.
        bnd (reads (\<lambda>m. waketime (timers m li))) (\<lambda>liw.
        thn (insert_timer (if timer_is_before updated liw then n else li) t updated)
       (thn (modify (\<lambda>m. m\<lparr>last_insert := t\<rparr>))
       (ret nw)))))
     else ret updated)))"

lemma sched_timer_dispatch_settle:
  assumes "func (timers m (timer_list m)) = Some f" and "call f (timer_list m) m = Ok res m1"
  shows "sched_timer_dispatch call step m = settle (timer_list m) res m1"
  using assms by (simp add: sched_timer_dispatch_def settle_def)

lemma settle_DONE:
  assumes h: "handled base m t ys SF_DONE"
  shows "\<exists>m'. settle t SF_DONE m = Ok (waketime (timers m' (timer_list m'))) m' \<and>
    sched_frame m m' \<and> sched_ok base m' ys"
proof -
  have "ys \<noteq> []" using h handledD(3) [OF h] by (auto simp: handled_def)
  then show ?thesis
    using after_handler_DONE [OF h] handled_next [OF h]
    by (intro exI [of _ "m\<lparr>timer_list := hd ys,
          last_insert := (if last_insert m = t then hd ys else last_insert m)\<rparr>"])
      (auto simp: settle_def sched_frame_def)
qed

lemma settle_refile:
  assumes h: "handled base m t ys SF_RESCHEDULE"
    and nb: "\<not> timer_is_before (waketime (timers m t)) (waketime (timers m (hd (ys @ [SentinelTimer]))))"
  shows "\<exists>m'. settle t SF_RESCHEDULE m = Ok (waketime (timers m' (timer_list m'))) m' \<and>
    sched_frame m m' \<and> sched_ok base m' (insort_after (tkey base m) (tkey base m t) t ys)"
proof -
  note D = handledD [OF h]
  let ?w = "waketime (timers m t)" and ?liw = "waketime (timers m (last_insert m))"
  have w: "in_window base ?w" using h by (simp add: handled_def)
  have ne: "ys \<noteq> []" using nb handled_sentinel [OF h] by (cases ys) auto
  have kn: "tkey base m (hd ys) \<le> tkey base m t"
    using nb timer_is_before_window [OF w D(9) [of "hd ys"]] ne by (simp add: tkey_def not_less)
  define pos where "pos = (if timer_is_before ?w ?liw then hd ys else last_insert m)"
  have "pos = t \<or> (pos \<in> set ys \<and> tkey base m pos \<le> tkey base m t)"
    using D(5) ne kn timer_is_before_window [OF w D(9) [of "last_insert m"]]
    by (auto simp: pos_def tkey_def not_less)
  from reschedule_walk [OF h nb this] obtain prev y where
    loop: "insert_timer_loop TIMER_MAX (timers m) pos ?w = Some (prev, y)" and pt: "prev \<noteq> t"
    and ch: "chain ((timers m)(t := timers m t\<lparr>tnext := Some y\<rparr>, prev := timers m prev\<lparr>tnext := Some t\<rparr>))
      (insort_after (tkey base m) (tkey base m t) t ys @ [SentinelTimer])" (is "chain ?T _")
    by (elim exE conjE)
  have same: "waketime (?T x) = waketime (timers m x)" "func (?T x) = func (timers m x)" for x by simp_all
  let ?m = "m\<lparr>timers := ?T, timer_list := hd ys, last_insert := t\<rparr>"
  have "settle t SF_RESCHEDULE m = Ok (waketime (timers m (hd ys))) ?m"
    using handled_next [OF h] nb ne loop pt
    by (simp add: settle_def insert_timer_def pos_def set_timer_def split: if_splits)
  moreover have "sched_frame m ?m" using same by (simp add: sched_frame_def del: fun_upd_apply)
  moreover have "sched_ok base ?m (insort_after (tkey base m) (tkey base m t) t ys)"
    by (rule sched_ok_refiled [OF h ch same(1) ne kn])
  ultimately show ?thesis by (intro exI [of _ ?m]) (simp add: same(1) del: fun_upd_apply)
qed

lemma settle_RESCHEDULE:
  assumes h: "handled base m t ys SF_RESCHEDULE"
  shows "\<exists>m'. settle t SF_RESCHEDULE m = Ok (waketime (timers m' (timer_list m'))) m' \<and>
    sched_frame m m' \<and> sched_ok base m' (insort_after (tkey base m) (tkey base m t) t ys)"
proof (cases "timer_is_before (waketime (timers m t)) (waketime (timers m (hd (ys @ [SentinelTimer]))))")
  case True
  have "settle t SF_RESCHEDULE m = Ok (waketime (timers m t)) m"
    using handled_next [OF h] True by (simp add: settle_def)
  then show ?thesis
    using sched_ok_kept [OF h True] handledD(4) [OF h]
    by (intro exI [of _ m]) (simp add: sched_frame_def)
next
  case False
  then show ?thesis by (rule settle_refile [OF h])
qed

definition settled :: "u32 \<Rightarrow> 'e machine_scheme \<Rightarrow> tref \<Rightarrow> tref list \<Rightarrow> sf \<Rightarrow> tref list" where
  "settled base m t ys res =
     (if res = SF_DONE then ys else insort_after (tkey base m) (tkey base m t) t ys)"

lemma sched_timer_dispatch_spec:
  assumes "func (timers m (timer_list m)) = Some f" and "call f (timer_list m) m = Ok res m1"
    and h: "handled base m1 (timer_list m) ys res"
  shows "\<exists>m'. sched_timer_dispatch call step m = Ok (waketime (timers m' (timer_list m'))) m' \<and>
    sched_frame m1 m' \<and> sched_ok base m' (settled base m1 (timer_list m) ys res)"
  using assms settle_DONE [of base m1 "timer_list m" ys] settle_RESCHEDULE [of base m1 "timer_list m" ys]
  by (cases res) (auto simp: sched_timer_dispatch_settle settled_def)

subsection \<open>Time passes\<close>

text \<open>
  The window of \<open>2 ^ 31\<close> ticks moves with the clock: once the timers before \<open>base'\<close>
  have been dispatched, the same list is in order as seen from \<open>base'\<close>.
\<close>

lemma ticks_after_shift:
  assumes "ticks_after base base' \<le> ticks_after base w"
  shows "ticks_after base' w = ticks_after base w - ticks_after base base'"
proof -
  have "uint (w - base') = (uint (w - base) - uint (base' - base)) mod 2 ^ 32"
    by (rule uint_diff_base)
  also have "\<dots> = uint (w - base) - uint (base' - base)"
  proof (rule mod_pos_pos_trivial)
    show "0 \<le> uint (w - base) - uint (base' - base)"
      using assms by (simp add: ticks_after_uint [symmetric])
    have "uint (w - base) < 2 ^ 32" using uint_lt2p [of "w - base"] by simp
    then show "uint (w - base) - uint (base' - base) < 2 ^ 32"
      using uint_ge_0 [of "base' - base"] by linarith
  qed
  finally have "int (ticks_after base' w) = int (ticks_after base w) - int (ticks_after base base')"
    by (simp only: ticks_after_uint)
  then show ?thesis using assms by linarith
qed

lemma sched_ok_advance:
  assumes ok: "sched_ok base m xs" and le: "\<forall>t \<in> set xs. ticks_after base base' \<le> tkey base m t"
  shows "sched_ok base' m xs"
proof -
  note D = sched_okD [OF ok]
  have key: "tkey base' m t = tkey base m t - ticks_after base base'" if "t \<in> set xs" for t
    using that le unfolding tkey_def by (intro ticks_after_shift) blast
  have "in_window base' (waketime (timers m t))" if "t \<in> set xs" for t
    using key [OF that] D(9) [OF that] by (simp add: in_window_def tkey_def)
  moreover have "sorted (map (tkey base' m) xs)"
    using D(10) unfolding sorted_map
    by (rule sorted_wrt_mono_rel [rotated]) (simp add: key diff_le_mono)
  ultimately show ?thesis using ok by (simp add: sched_ok_def)
qed

text \<open>After a reset the periodic timer is the only one left.\<close>

lemma sched_timer_reset_ok:
  assumes "tnext (timers m SentinelTimer) = None"
    and "waketime (timers m SentinelTimer) = waketime (timers m PeriodicTimer) + 0x80000000"
  shows "\<exists>m'. sched_timer_reset m = Ok () m' \<and> sched_frame m m' \<and>
    sched_ok (waketime (timers m PeriodicTimer)) m' [DeletedTimer, PeriodicTimer]"
proof -
  let ?m = "(set_timer PeriodicTimer (\<lambda>x. x\<lparr>tnext := Some SentinelTimer\<rparr>)
      (set_timer DeletedTimer (\<lambda>x. x\<lparr>waketime := waketime (timers m PeriodicTimer), tnext := Some PeriodicTimer\<rparr>)
        (m\<lparr>timer_list := DeletedTimer, last_insert := PeriodicTimer\<rparr>)))\<lparr>out := out m @ [TimerKick]\<rparr>"
  have "sched_timer_reset m = Ok () ?m"
    by (simp add: sched_timer_reset_def set_timer_def)
  moreover have "sched_frame m ?m" by (auto simp: sched_frame_def set_timer_def)
  moreover have "sched_ok (waketime (timers m PeriodicTimer)) ?m [DeletedTimer, PeriodicTimer]"
    using assms by (simp add: sched_ok_def sched_list_def in_window_def tkey_def ticks_after_def)
  ultimately show ?thesis by blast
qed

subsection \<open>Any wake time\<close>

text \<open>
  The sentinel is half the clock range after the periodic timer, so every clock value
  is before one of the two, and a walk from the head of the list always stops, also
  for a wake time outside the window.
\<close>

lemma before_periodic_or_sentinel:
  "timer_is_before w p \<or> timer_is_before w (p + 0x80000000)"
proof -
  have two: "(2 :: int) ^ 32 = 2 * 2 ^ 31" by simp
  have "w - (p + 0x80000000) = (w - p) + 0x80000000" by simp
  then have eq: "uint (w - (p + 0x80000000)) = (uint (w - p) + 2 ^ 31) mod 2 ^ 32"
    by (simp only: uint_word_ariths(1)) simp
  show ?thesis
  proof (cases "uint (w - p) < 2 ^ 31")
    case True
    then have "(uint (w - p) + 2 ^ 31) mod 2 ^ 32 = uint (w - p) + 2 ^ 31"
      using uint_ge_0 [of "w - p"] two by (intro mod_pos_pos_trivial) linarith+
    then show ?thesis using eq by (simp add: timer_is_before_uint)
  next
    case False
    then show ?thesis by (simp add: timer_is_before_uint)
  qed
qed

lemma insert_timer_structure:
  fixes m :: "'e machine_scheme"
  assumes ch: "chain (timers m) (pos # zs)" and dist: "distinct (pos # zs)" and t: "t \<notin> set (pos # zs)"
    and ex: "\<exists>x \<in> set zs. timer_is_before w (waketime (timers m x))"
  shows "\<exists>prev y as bs. zs = as @ y # bs \<and> insert_timer pos t w m =
      Ok () (set_timer prev (\<lambda>x. x\<lparr>tnext := Some t\<rparr>) (set_timer t (\<lambda>x. x\<lparr>tnext := Some y\<rparr>) m)) \<and>
    chain (timers (set_timer prev (\<lambda>x. x\<lparr>tnext := Some t\<rparr>) (set_timer t (\<lambda>x. x\<lparr>tnext := Some y\<rparr>) m)))
      (pos # as @ t # y # bs)"
proof -
  obtain as y bs where zs: "zs = as @ y # bs" and y: "timer_is_before w (waketime (timers m y))"
    and as: "\<forall>x \<in> set as. \<not> timer_is_before w (waketime (timers m x))"
    using split_list_first_prop [OF ex] by blast
  have "length as < TIMER_MAX" using distinct_timers_length [OF dist] by (simp add: zs)
  then have "insert_timer_loop TIMER_MAX (timers m) pos w = Some (last (pos # as), y)"
    using insert_timer_loop_spec [of "timers m" pos as y bs] ch as y by (simp add: zs)
  moreover have ne: "last (pos # as) \<noteq> t" using t by (auto simp: zs)
  moreover have "chain (timers (set_timer (last (pos # as)) (\<lambda>x. x\<lparr>tnext := Some t\<rparr>)
      (set_timer t (\<lambda>x. x\<lparr>tnext := Some y\<rparr>) m))) ((pos # as) @ t # y # bs)"
    by (rule chain_insert [of "timers m"]) (use ch dist t ne zs in auto)
  ultimately show ?thesis
    using zs by (intro exI [of _ "last (pos # as)"] exI [of _ y] exI [of _ as] exI [of _ bs])
      (simp add: insert_timer_def)
qed

lemma some_timer_after:
  assumes "sched_list m xs" and "\<not> timer_is_before w (waketime (timers m (hd xs)))"
  shows "\<exists>x \<in> set (tl xs @ [SentinelTimer]). timer_is_before w (waketime (timers m x))"
proof -
  have sl: "PeriodicTimer \<in> set xs"
    "waketime (timers m SentinelTimer) = waketime (timers m PeriodicTimer) + 0x80000000"
    using assms(1) by (simp_all add: sched_list_def)
  then show ?thesis
    using assms(2) before_periodic_or_sentinel [of w "waketime (timers m PeriodicTimer)"]
    by (cases xs) auto
qed

lemma put_first_list:
  assumes sl: "sched_list m xs" and add: "add \<notin> set xs" "add \<notin> {DeletedTimer, SentinelTimer, PeriodicTimer}"
  shows "sched_list (put_first add w m) (DeletedTimer # add # live xs)"
proof -
  obtain x xs' where xs: "xs = x # xs'" using sl by (cases xs) (auto simp: sched_list_def)
  have S: "chain (timers m) (xs @ [SentinelTimer])" "distinct (xs @ [SentinelTimer])"
    "PeriodicTimer \<in> set xs" "timer_list m = x" "last_insert m \<in> set xs" "last_insert m \<noteq> DeletedTimer"
    "DeletedTimer \<notin> set xs'"
    "waketime (timers m SentinelTimer) = waketime (timers m PeriodicTimer) + 0x80000000"
    using sl by (simp_all add: sched_list_def xs)
  let ?ys = "live xs" and ?m = "put_first add w m"
  have ys: "?ys = (if x = DeletedTimer then xs' else xs)" using S(7) xs by (simp add: live_Cons)
  have nd: "DeletedTimer \<notin> set ?ys" and na: "add \<notin> set ?ys" using add by (auto simp: live_def)
  have "chain (timers m) (?ys @ [SentinelTimer])"
    using S(1) xs ys by (cases xs') (auto split: if_splits)
  then have "chain (timers ?m) (?ys @ [SentinelTimer])"
    using nd na add by (subst chain_cong [of _ _ "timers m"]) (auto simp: put_first_def)
  moreover have "tnext (timers ?m add) = Some (hd (?ys @ [SentinelTimer]))"
    using add S(1,4) xs ys by (cases xs') (auto simp: put_first_def split: if_splits)
  moreover have "tnext (timers ?m DeletedTimer) = Some add" by (simp add: put_first_def)
  moreover obtain u us where "?ys @ [SentinelTimer] = u # us" by (cases ?ys) auto
  ultimately have "chain (timers ?m) ((DeletedTimer # add # ?ys) @ [SentinelTimer])" by simp
  then show ?thesis
    using S nd na add by (auto simp: sched_list_def put_first_def) (auto simp: live_def)
qed

lemma sched_add_timer_safe:
  assumes sl: "sched_list m xs" and add: "add \<notin> set xs" "add \<notin> {DeletedTimer, SentinelTimer, PeriodicTimer}"
  shows "case sched_add_timer add m of
      Ok _ m' \<Rightarrow> \<exists>xs'. sched_list m' xs' \<and> set (live xs') = insert add (set (live xs))
    | Shutdown _ _ \<Rightarrow> True
    | Undef \<Rightarrow> False"
proof (cases "timer_is_before (waketime (timers m add)) (waketime (timers m (timer_list m)))")
  case True
  let ?w = "waketime (timers m add)"
  have "sched_list ((put_first add ?w m)\<lparr>irq_on := irq_on m, ticks := Suc (ticks m),
      out := out m @ [TimerKick]\<rparr>) (DeletedTimer # add # live xs)"
    using put_first_list [OF sl add, of ?w] by simp
  moreover have "set (live (DeletedTimer # add # live xs)) = insert add (set (live xs))"
    using add by (auto simp: live_def)
  ultimately show ?thesis using sched_add_timer_first [OF True] add(2) by auto
next
  case False
  let ?w = "waketime (timers m add)"
  obtain x zs where xs: "xs = x # zs" using sl by (cases xs) (auto simp: sched_list_def)
  have S: "chain (timers m) (x # zs @ [SentinelTimer])" "distinct (x # zs @ [SentinelTimer])"
    "timer_list m = x"
    using sl by (simp_all add: sched_list_def xs)
  have "\<exists>y \<in> set (zs @ [SentinelTimer]). timer_is_before ?w (waketime (timers m y))"
    using some_timer_after [OF sl, of ?w] False S(3) xs by simp
  moreover have "add \<notin> set (x # zs @ [SentinelTimer])" using add xs by auto
  ultimately obtain prev y as bs where
    zs: "zs @ [SentinelTimer] = as @ y # bs" and
    ins: "insert_timer x add ?w m = Ok () (set_timer prev (\<lambda>x. x\<lparr>tnext := Some add\<rparr>)
      (set_timer add (\<lambda>x. x\<lparr>tnext := Some y\<rparr>) m))" and
    ch: "chain (timers (set_timer prev (\<lambda>x. x\<lparr>tnext := Some add\<rparr>)
      (set_timer add (\<lambda>x. x\<lparr>tnext := Some y\<rparr>) m))) (x # as @ add # y # bs)"
    using insert_timer_structure [OF S(1,2), of add ?w] by blast
  let ?m = "set_timer prev (\<lambda>x. x\<lparr>tnext := Some add\<rparr>) (set_timer add (\<lambda>x. x\<lparr>tnext := Some y\<rparr>) m)"
  have m: "?m = m\<lparr>timers := timers ?m\<rparr>" by (simp add: set_timer_def)
  obtain cs where cs: "y # bs = cs @ [SentinelTimer]" "zs = as @ cs"
    using zs by (cases "y # bs" rule: rev_cases) auto
  have same: "waketime (timers ?m t) = waketime (timers m t)" for t by simp
  have "sched_list ?m (x # as @ add # cs)"
    using sl ch cs add same by (auto simp: sched_list_def xs simp del: timer_fields(1))
  moreover have "set (live (x # as @ add # cs)) = insert add (set (live xs))"
    using add cs xs by (auto simp: live_def)
  moreover have "sched_add_timer add m = Ok () ?m"
    using sched_add_timer_link [OF False] ins m S(3) by metis
  ultimately show ?thesis by auto
qed

end
