(* ===== verification/Timer_Queue.thy ===== *)
theory Timer_Queue
  imports Timer_List
begin

text \<open>
  The contract the modules rely on when they schedule timers, as a locale, and its
  interpretation on the scheduler's linked list.  The locale says what adding and
  deleting do to the list of pending timers, ordered by wake time; what follows for a
  client (the order of two additions, that a deletion undoes an addition, that a
  series of additions leaves the timers in order) is proved from the contract alone.
\<close>

subsection \<open>The contract\<close>

locale timer_queue =
  fixes pend :: "'s \<Rightarrow> 't list \<Rightarrow> bool"
    and key :: "'s \<Rightarrow> 't \<Rightarrow> nat"
    and user :: "'t \<Rightarrow> bool"
    and ontime :: "'s \<Rightarrow> 't \<Rightarrow> bool"
    and add :: "'t \<Rightarrow> 's \<Rightarrow> 's option"
    and del :: "'t \<Rightarrow> 's \<Rightarrow> 's option"
  assumes pend_sorted: "pend s ts \<Longrightarrow> sorted (map (key s) ts)"
    and pend_distinct: "pend s ts \<Longrightarrow> distinct ts"
    and add_law: "pend s ts \<Longrightarrow> user t \<Longrightarrow> t \<notin> set ts \<Longrightarrow> ontime s t \<Longrightarrow> add t s = Some s' \<Longrightarrow>
      pend s' (insort_after (key s) (key s t) t ts)"
    and add_keys: "pend s ts \<Longrightarrow> user t \<Longrightarrow> t \<notin> set ts \<Longrightarrow> ontime s t \<Longrightarrow> add t s = Some s' \<Longrightarrow>
      user u \<or> u \<in> set ts \<Longrightarrow> key s' u = key s u \<and> ontime s' u = ontime s u"
    and del_law: "pend s ts \<Longrightarrow> user t \<Longrightarrow> \<exists>s'. del t s = Some s' \<and> pend s' (remove1 t ts)"
begin

lemma remove1_insort_after: "t \<notin> set ts \<Longrightarrow> remove1 t (insort_after k n t ts) = ts"
proof -
  assume "t \<notin> set ts"
  then have "t \<notin> set (takeWhile (\<lambda>y. k y \<le> n) ts)" by (auto dest: set_takeWhileD)
  then show ?thesis by (simp add: insort_after_def remove1_append)
qed

lemma add_then_del:
  assumes "pend s ts" "user t" "t \<notin> set ts" "ontime s t" "add t s = Some s'"
  shows "\<exists>s''. del t s' = Some s'' \<and> pend s'' ts"
  using del_law [OF add_law [OF assms] assms(2)] remove1_insort_after [OF assms(3)] by simp

lemma first_is_earliest:
  assumes "pend s ts" and "u \<in> set ts"
  shows "key s (hd ts) \<le> key s u"
  using pend_sorted [OF assms(1)] assms(2) by (cases ts) auto

text \<open>Timers due at the same time run in the order they were added.\<close>

lemma equal_keys_fifo:
  assumes p: "pend s ts" "user t" "t \<notin> set ts" "ontime s t" "add t s = Some s1"
    and u: "user u" "u \<notin> set ts" "u \<noteq> t" "ontime s u" "add u s1 = Some s2"
    and same: "key s t = key s u"
  shows "\<exists>as bs cs. pend s2 (as @ t # bs @ u # cs)"
proof -
  let ?k = "key s1 u"
  define L where "L = insort_after (key s) (key s t) t ts"
  have L: "pend s1 L" using add_law [OF p] by (simp add: L_def)
  have ks: "key s1 t = key s t" "key s1 u = key s u" "ontime s1 u"
    using add_keys [OF p, of t] add_keys [OF p, of u] p(2) u by auto
  have "pend s2 (insort_after (key s1) ?k u L)"
    using add_law [OF L u(1) _ ks(3) u(5)] u p by (auto simp: L_def)
  moreover have "t \<in> set (takeWhile (\<lambda>y. key s1 y \<le> ?k) L)"
    by (rule not_in_takeWhile_sorted [OF pend_sorted [OF L]]) (use ks same in \<open>auto simp: L_def\<close>)
  then obtain as bs where "takeWhile (\<lambda>y. key s1 y \<le> ?k) L = as @ t # bs" by (meson split_list)
  ultimately have "pend s2 (as @ t # bs @ u # dropWhile (\<lambda>y. key s1 y \<le> ?k) L)"
    by (simp add: insort_after_def)
  then show ?thesis by blast
qed

end

subsection \<open>The scheduler keeps the contract\<close>

definition pending :: "u32 \<Rightarrow> 'e machine_scheme \<Rightarrow> tref list \<Rightarrow> bool" where
  "pending base m ts \<longleftrightarrow> (\<exists>xs. sched_ok base m xs \<and> live xs = ts)"

definition user_timer :: "tref \<Rightarrow> bool" where
  "user_timer t \<longleftrightarrow> t \<notin> {PeriodicTimer, SentinelTimer, DeletedTimer}"

definition ok_state :: "('s, 'a) res \<Rightarrow> 's option" where
  "ok_state r = (case r of Ok _ s \<Rightarrow> Some s | _ \<Rightarrow> None)"

lemma pending_live: "pending base m ts \<Longrightarrow> DeletedTimer \<notin> set ts"
  by (auto simp: pending_def live_def)

lemma pending_add:
  assumes p: "pending base m ts" and t: "user_timer t" "t \<notin> set ts"
    and w: "in_window base (waketime (timers m t))" and ok: "sched_add_timer t m = Ok () m'"
  shows "pending base m' (insort_after (tkey base m) (tkey base m t) t ts)" and "sched_frame m m'"
proof -
  obtain xs where xs: "sched_ok base m xs" "live xs = ts" using p by (auto simp: pending_def)
  have "t \<notin> set xs" using t xs(2) by (auto simp: live_def user_timer_def)
  from sched_add_timer_spec [OF xs(1) this _ _ w] t(1) ok xs(2)
  show "pending base m' (insort_after (tkey base m) (tkey base m t) t ts)" "sched_frame m m'"
    by (auto simp: user_timer_def pending_def)
qed

lemma sched_frame_tkey: "sched_frame m m' \<Longrightarrow> t \<noteq> DeletedTimer \<Longrightarrow> tkey base m' t = tkey base m t"
  by (simp add: sched_frame_def tkey_def)

interpretation tq: timer_queue "pending base" "tkey base" user_timer
    "\<lambda>m t. in_window base (waketime (timers m t))"
    "\<lambda>t m. ok_state (sched_add_timer t m)" "\<lambda>t m. ok_state (sched_del_timer t m)"
  for base :: u32
proof
  fix m :: "'e machine_scheme" and ts
  assume p: "pending base m ts"
  then obtain xs where xs: "sched_ok base m xs" "live xs = ts" by (auto simp: pending_def)
  show "sorted (map (tkey base m) ts)"
    using sched_okD(10) [OF xs(1)] xs(2) by (auto simp: live_def sorted_filter)
  show "distinct ts" using sched_okD(2) [OF xs(1)] xs(2) by (auto simp: live_def)
  fix t
  assume t: "user_timer t"
  show "\<exists>s'. ok_state (sched_del_timer t m) = Some s' \<and> pending base s' (remove1 t ts)"
    using sched_del_timer_spec [OF xs(1), of t] t xs(2)
    by (auto simp: user_timer_def ok_state_def pending_def)
  fix m'
  assume n: "t \<notin> set ts" and w: "in_window base (waketime (timers m t))"
    and a: "ok_state (sched_add_timer t m) = Some m'"
  then have a': "sched_add_timer t m = Ok () m'" by (auto simp: ok_state_def split: res.splits)
  show "pending base m' (insort_after (tkey base m) (tkey base m t) t ts)"
    by (rule pending_add(1) [OF p t n w a'])
  fix u
  assume "user_timer u \<or> u \<in> set ts"
  then have "u \<noteq> DeletedTimer" using pending_live [OF p] by (auto simp: user_timer_def)
  then show "tkey base m' u = tkey base m u \<and>
      in_window base (waketime (timers m' u)) = in_window base (waketime (timers m u))"
    using pending_add(2) [OF p t n w a'] sched_frame_tkey [of m m' u base] by (auto simp: sched_frame_def)
qed

subsection \<open>Properties of the scheduler\<close>

text \<open>A freshly started board, with the timer of object 1 set to tick 50 and that of object 2 too.\<close>

definition sample_config :: config where
  "sample_config = \<lparr>CONFIG_CLOCK_FREQ = 72000000, CONFIG_INLINE_STEPPER_HACK = True,
     CONFIG_HAVE_STEPPER_BOTH_EDGE = True, CONFIG_MACH_AVR = False,
     dynmem_start = 0x1000, dynmem_end = 0x5000, ptr_align = 4,
     move_node_size = 4, oid_s_size = 8, gpio_in_size = 8, struct_size = (\<lambda>_. 64), move_size = (\<lambda>_. 16),
     identify_data = [1, 2, 3, 4, 5],
     out_pin_ok = (\<lambda>p. p < 64), in_pin_ok = (\<lambda>p. p < 64), adc_pin_ok = (\<lambda>p. p < 16),
     pwm_pin_ok = (\<lambda>p. p < 32)\<rparr>"

definition sample_board :: board_in where
  "sample_board = \<lparr>clock_in = (\<lambda>n. of_nat (10 * n)), gpio_in = (\<lambda>_ _. False),
     adc_sample_in = (\<lambda>_ _. 0), adc_read_in = (\<lambda>_ _. 0)\<rparr>"

definition sample_machine :: machine where
  "sample_machine =
     set_timer (ObjTimer 1) (\<lambda>t. t\<lparr>waketime := 50\<rparr>)
       (set_timer (ObjTimer 2) (\<lambda>t. t\<lparr>waketime := 50\<rparr>) (sched_init sample_config sample_board))"

lemma sample_sched_list: "sched_list sample_machine [PeriodicTimer]"
  by (simp add: sample_machine_def sched_init_def timers_init_def sched_list_def set_timer_def)

lemma sample_sched_ok: "sched_ok 0 sample_machine [PeriodicTimer]"
  using sample_sched_list
  by (simp add: sched_ok_def sample_machine_def sched_init_def timers_init_def in_window_def
      ticks_after_def set_timer_def)

lemma sample_pending: "pending 0 sample_machine [PeriodicTimer]"
  using sample_sched_ok by (auto simp: pending_def live_def)

lemma sample_times:
  "waketime (timers sample_machine (ObjTimer 1)) = 50" "waketime (timers sample_machine (ObjTimer 2)) = 50"
  "in_window 0 50" "user_timer (ObjTimer n)" "waketime (timers sample_machine PeriodicTimer) = 0"
  by (simp_all add: sample_machine_def sched_init_def timers_init_def in_window_def ticks_after_def
      set_timer_def user_timer_def)

text \<open>
  C16: \<^verbatim>\<open>sched_add_timer\<close>.  While all pending timers and the new one lie less than half
  the clock range after some base time, adding a timer files it behind every pending
  timer that is due no later and changes no other module's state, no wake time and no
  timer function.  The only other outcome is the "Timer too close" shutdown, and then
  the timer was due before every pending timer, its time had passed and the machine was
  not already shut down.  A NULL link is never followed.
\<close>

theorem sched_add_timer_orders:
  assumes "pending base m ts" and "user_timer t" and "t \<notin> set ts"
    and "in_window base (waketime (timers m t))"
  shows "case sched_add_timer t m of
      Ok _ m' \<Rightarrow> pending base m' (insort_after (tkey base m) (tkey base m t) t ts) \<and> sched_frame m m'
    | Shutdown r m' \<Rightarrow> r = ''Timer too close'' \<and> shutdown_status m = 0 \<and>
        timer_is_before (waketime (timers m t)) (clock_in (env m) (ticks m)) \<and>
        (\<forall>u \<in> set ts. tkey base m t < tkey base m u)
    | Undef \<Rightarrow> False"
proof -
  obtain xs where xs: "sched_ok base m xs" "live xs = ts" using assms(1) by (auto simp: pending_def)
  have "t \<notin> set xs" using assms xs(2) by (auto simp: live_def user_timer_def)
  from sched_add_timer_spec [OF xs(1) this _ _ assms(4)] assms(2) xs(2)
  show ?thesis by (auto simp: user_timer_def pending_def live_def split: res.splits)
qed

theorem sched_add_timer_orders_witness:
  "\<exists>m'. sched_add_timer (ObjTimer 1) sample_machine = Ok () m' \<and> pending 0 m' [PeriodicTimer, ObjTimer 1]"
  using sched_add_timer_orders [OF sample_pending sample_times(4), of 1] sample_times
  by (auto simp: insort_after_def tkey_def ticks_after_def timer_is_before_def split: res.splits)

text \<open>
  \<^verbatim>\<open>sched_del_timer\<close>.  Deleting a timer always returns, takes exactly that timer out
  of the pending ones (whether it is first, in the middle or not pending at all) and
  changes no other module's state, wake time or timer function.
\<close>

theorem sched_del_timer_removes:
  assumes "pending base m ts" and "user_timer t"
  shows "\<exists>m'. sched_del_timer t m = Ok () m' \<and> pending base m' (remove1 t ts) \<and> sched_frame m m'"
proof -
  obtain xs where xs: "sched_ok base m xs" "live xs = ts" using assms(1) by (auto simp: pending_def)
  show ?thesis
    using sched_del_timer_spec [OF xs(1), of t] assms(2) xs(2) by (auto simp: user_timer_def pending_def)
qed

theorem sched_del_timer_removes_witness:
  "\<exists>m'. sched_del_timer (ObjTimer 1) sample_machine = Ok () m' \<and> pending 0 m' [PeriodicTimer]"
  using sched_del_timer_removes [OF sample_pending sample_times(4), of 1] by auto

text \<open>
  Two timers due at the same tick run in the order in which they were added, and
  deleting a timer that was just added restores the pending list.
\<close>

theorem sched_add_timer_fifo:
  assumes "pending base m ts" and "user_timer t" and "user_timer u" and "t \<noteq> u"
    and "t \<notin> set ts" and "u \<notin> set ts"
    and "in_window base (waketime (timers m t))" and "waketime (timers m u) = waketime (timers m t)"
    and "sched_add_timer t m = Ok () m1" and "sched_add_timer u m1 = Ok () m2"
  shows "\<exists>as bs cs m3. pending base m2 (as @ t # bs @ u # cs) \<and>
    sched_del_timer t m1 = Ok () m3 \<and> pending base m3 ts"
proof -
  have a: "ok_state (sched_add_timer t m) = Some m1" "ok_state (sched_add_timer u m1) = Some m2"
    using assms by (simp_all add: ok_state_def)
  obtain m3 where "ok_state (sched_del_timer t m1) = Some m3" "pending base m3 ts"
    using tq.add_then_del [OF assms(1,2,5,7) a(1)] by blast
  moreover have "\<exists>as bs cs. pending base m2 (as @ t # bs @ u # cs)"
    using tq.equal_keys_fifo [OF assms(1,2,5,7) a(1) assms(3,6) _ _ a(2)] assms(4,7,8)
    by (simp add: tkey_def)
  ultimately show ?thesis by (auto simp: ok_state_def split: res.splits)
qed

definition sample_machine1 :: machine where
  "sample_machine1 = sample_machine\<lparr>timers := (timers sample_machine)
     (PeriodicTimer := \<lparr>tnext = Some (ObjTimer 1), func = Some periodic_event_f, waketime = 0\<rparr>,
      ObjTimer 1 := \<lparr>tnext = Some SentinelTimer, func = None, waketime = 50\<rparr>)\<rparr>"

definition sample_machine2 :: machine where
  "sample_machine2 = sample_machine\<lparr>timers := (timers sample_machine)
     (PeriodicTimer := \<lparr>tnext = Some (ObjTimer 1), func = Some periodic_event_f, waketime = 0\<rparr>,
      ObjTimer 1 := \<lparr>tnext = Some (ObjTimer 2), func = None, waketime = 50\<rparr>,
      ObjTimer 2 := \<lparr>tnext = Some SentinelTimer, func = None, waketime = 50\<rparr>)\<rparr>"

lemmas sample_defs = sample_machine2_def sample_machine1_def sample_machine_def sched_init_def timers_init_def

lemma sample_adds:
  "sched_add_timer (ObjTimer 1) sample_machine = Ok () sample_machine1"
  "sched_add_timer (ObjTimer 2) sample_machine1 = Ok () sample_machine2"
  by (auto simp: sample_defs sched_add_timer_def timer_is_before_def insert_timer_def TIMER_MAX_def
      eval_nat_numeral set_timer_def fun_eq_iff)

theorem sched_add_timer_fifo_witness:
  "\<exists>as bs cs m3. pending 0 sample_machine2 (as @ ObjTimer 1 # bs @ ObjTimer 2 # cs) \<and>
    sched_del_timer (ObjTimer 1) sample_machine1 = Ok () m3 \<and> pending 0 m3 [PeriodicTimer]"
  by (rule sched_add_timer_fifo [OF sample_pending _ _ _ _ _ _ _ sample_adds])
    (simp_all add: sample_times)

text \<open>
  \<^verbatim>\<open>sched_add_timer\<close> is memory safe for any wake time.  Whatever the wake times of
  the timers are, if the list is well formed (linked without repetition up to the
  sentinel, with the periodic timer in it and the sentinel half the clock range after
  it), adding a timer leaves a well-formed list with exactly one more timer, or shuts
  the machine down; the search for its place never runs past the sentinel.
\<close>

theorem sched_add_timer_memory_safe:
  assumes "sched_list m xs" and "t \<notin> set xs" and "user_timer t"
  shows "case sched_add_timer t m of
      Ok _ m' \<Rightarrow> \<exists>xs'. sched_list m' xs' \<and> set (live xs') = insert t (set (live xs))
    | Shutdown _ _ \<Rightarrow> True
    | Undef \<Rightarrow> False"
  by (rule sched_add_timer_safe [OF assms(1,2)]) (use assms(3) in \<open>auto simp: user_timer_def\<close>)

theorem sched_add_timer_memory_safe_witness:
  "\<exists>xs'. sched_list sample_machine1 xs' \<and> set (live xs') = {PeriodicTimer, ObjTimer 1}"
  using sched_add_timer_memory_safe [OF sample_sched_list, of "ObjTimer 1"] sample_adds(1) sample_times(4)
  by (auto simp: live_def)

text \<open>The periodic timer's own function leaves what the dispatcher expects.\<close>

lemma periodic_event_handled:
  assumes ok: "sched_ok base m (PeriodicTimer # ys)"
    and w: "in_window base (waketime (timers m PeriodicTimer) + timer_from_us (cfg m) 100000)"
  shows "\<exists>m'. periodic_event m = Ok SF_RESCHEDULE m' \<and> handled base m' PeriodicTimer ys SF_RESCHEDULE"
proof -
  note D = sched_okD [OF ok]
  let ?p = "waketime (timers m PeriodicTimer) + timer_from_us (cfg m) 100000"
  define M where "M = set_timer SentinelTimer (\<lambda>t. t\<lparr>waketime := ?p + 0x80000000\<rparr>)
    (set_timer PeriodicTimer (\<lambda>t. t\<lparr>waketime := ?p\<rparr>) (m\<lparr>tasks_status := 0\<rparr>))"
  have run: "periodic_event m = Ok SF_RESCHEDULE M"
    by (simp add: M_def periodic_event_def sched_wake_tasks_def set_timer_def)
  have links: "tnext (timers M x) = tnext (timers m x)" for x by (simp add: M_def)
  have times: "waketime (timers M PeriodicTimer) = ?p" "waketime (timers M SentinelTimer) = ?p + 0x80000000"
    "x \<noteq> PeriodicTimer \<Longrightarrow> x \<noteq> SentinelTimer \<Longrightarrow> waketime (timers M x) = waketime (timers m x)" for x
    by (simp_all add: M_def)
  have rest: "timer_list M = timer_list m" "last_insert M = last_insert m" by (simp_all add: M_def)
  have nin: "PeriodicTimer \<notin> set ys" "SentinelTimer \<notin> set ys" using D(2) by auto
  then have same: "waketime (timers M x) = waketime (timers m x)" if "x \<in> set ys" for x
    using that by (intro times(3)) auto
  have keys: "map (tkey base M) ys = map (tkey base m) ys"
    by (rule map_cong [OF refl]) (simp only: tkey_def same)
  have "sorted (map (tkey base m) ys)" using D(10) by simp
  then have "sorted (map (tkey base M) ys)" by (simp only: keys)
  moreover have "chain (timers M) (PeriodicTimer # ys @ [SentinelTimer])"
    using D(1) links by (subst chain_cong [of _ _ "timers m"]) auto
  then have "sched_list M (PeriodicTimer # ys)"
    using D times rest by (simp add: sched_list_def)
  ultimately have "handled base M PeriodicTimer ys SF_RESCHEDULE"
    unfolding handled_def using w D(9) times(1) same by simp
  then show ?thesis using run by blast
qed

text \<open>
  C17: \<^verbatim>\<open>sched_timer_dispatch\<close>.  If the timer function of the first timer leaves that
  timer at the head of the list with the rest in order (its own wake time may have
  moved), the dispatcher removes a timer that is done and files a rescheduled one behind
  every timer due no later, wherever the insertion hint \<^verbatim>\<open>last_insert\<close> points; it reports
  the wake time of the timer that is now first.
\<close>

theorem sched_timer_dispatch_refiles:
  assumes "func (timers m (timer_list m)) = Some f" and "call f (timer_list m) m = Ok res m1"
    and "handled base m1 (timer_list m) ys res"
  shows "\<exists>m'. sched_timer_dispatch call step m = Ok (waketime (timers m' (timer_list m'))) m' \<and>
    sched_frame m1 m' \<and>
    sched_ok base m' (if res = SF_DONE then ys
      else insort_after (tkey base m1) (tkey base m1 (timer_list m)) (timer_list m) ys)"
  using sched_timer_dispatch_spec [of m f call res m1 base ys step] assms by (simp add: settled_def)

lemma sample_machine2_ok: "sched_ok 0 sample_machine2 [PeriodicTimer, ObjTimer 1, ObjTimer 2]"
  by (simp add: sample_defs set_timer_def sched_ok_def sched_list_def in_window_def tkey_def ticks_after_def)

lemma sample_machine2_head:
  "timer_list sample_machine2 = PeriodicTimer"
  "func (timers sample_machine2 PeriodicTimer) = Some periodic_event_f"
  "waketime (timers sample_machine2 PeriodicTimer) = 0" "cfg sample_machine2 = sample_config"
  by (simp_all add: sample_defs set_timer_def)

theorem sched_timer_dispatch_refiles_witness:
  "\<exists>m' xs. sched_timer_dispatch (\<lambda>_ _. periodic_event) (\<lambda>_. undef) sample_machine2 =
      Ok (waketime (timers m' (timer_list m'))) m' \<and> sched_ok 0 m' xs \<and>
      set xs = {PeriodicTimer, ObjTimer 1, ObjTimer 2}"
proof -
  have "in_window 0 (waketime (timers sample_machine2 PeriodicTimer) + timer_from_us (cfg sample_machine2) 100000)"
    by (simp add: sample_machine2_head in_window_def ticks_after_def timer_from_us_def sample_config_def)
  from periodic_event_handled [OF sample_machine2_ok this] obtain m1 where
    "periodic_event sample_machine2 = Ok SF_RESCHEDULE m1"
    "handled 0 m1 PeriodicTimer [ObjTimer 1, ObjTimer 2] SF_RESCHEDULE" by blast
  then show ?thesis
    using sched_timer_dispatch_refiles [of sample_machine2 periodic_event_f "\<lambda>_ _. periodic_event"
        SF_RESCHEDULE m1 0 "[ObjTimer 1, ObjTimer 2]" "\<lambda>_. undef"] sample_machine2_head
    by force
qed

end
