(* ===== verification/Basecmd.thy ===== *)
theory Basecmd
  imports Sched
begin

text \<open>
  The basic infrastructure, \<^verbatim>\<open>src/basecmd.c\<close>: the allocator that never frees, the pool
  of move nodes and the queues made of them, object ids, the configuration commands
  and the load statistics.

  Addresses are natural numbers; \<^verbatim>\<open>NULL\<close> is \<open>None\<close>.  The pool's nodes lie in one chunk
  and a node's \<^verbatim>\<open>next\<close> field is the value of \<open>mnext\<close> at its address; the part of a node
  that belongs to a module (a step sequence, a pin change) is a store of that module
  indexed by the same addresses.
\<close>

subsection \<open>State\<close>

record oid_s =
  otyp :: "otype option"
  odata :: "nat option"

record move_queue_head =
  mq_first :: "nat option"
  mq_last :: "nat option"

record basecmd_state = machine +
  alloc_end :: nat
  move_free_list :: "nat option"
  move_list :: "nat option"
  move_count :: u16
  move_item_size :: u8
  mnext :: "nat \<Rightarrow> nat option"
  oids :: "(u8 \<Rightarrow> oid_s) option"
  oid_count :: u8
  config_crc :: u32
  stats_send_time :: u32
  stats_send_time_high :: u32
  stats_count :: u32
  stats_sum :: u32
  stats_sumsq :: u32

text \<open>Static storage is zero before the first command.\<close>

definition basecmd_init :: "config \<Rightarrow> board_in \<Rightarrow> basecmd_state" where
  "basecmd_init c e = machine.extend (sched_init c e)
     (basecmd_state.fields 0 None None 0 0 (\<lambda>_. None) None 0 0 0 0 0 0 0)"

type_synonym ('e, 'a) bfw = "('e basecmd_state_scheme, 'a) fw"

subsection \<open>Low level allocation\<close>

definition ALIGN :: "nat \<Rightarrow> nat \<Rightarrow> nat" where
  "ALIGN x a = (x + (a - 1)) div a * a"

definition alloc_init :: "('e, unit) bfw" where
  "alloc_init = modify (\<lambda>m. m\<lparr>alloc_end := ALIGN (dynmem_start (cfg m)) (ptr_align (cfg m))\<rparr>)"

definition alloc_chunk :: "nat \<Rightarrow> ('e, nat) bfw" where
  "alloc_chunk sz =
     bnd (reads alloc_end) (\<lambda>data.
     bnd (reads cfg) (\<lambda>c.
     if data + sz > dynmem_end c then sched_shutdown ''alloc_chunk failed''
     else thn (modify (\<lambda>m. m\<lparr>alloc_end := data + ALIGN sz (ptr_align c)\<rparr>)) (ret data)))"

text \<open>The loop of \<^verbatim>\<open>alloc_chunks\<close>: how many of \<open>count\<close> items fit and where they end.\<close>

fun alloc_chunks_loop :: "nat \<Rightarrow> nat \<Rightarrow> nat \<Rightarrow> nat \<Rightarrow> nat \<Rightarrow> nat \<times> nat" where
  "alloc_chunks_loop 0 sz end can_alloc p = (can_alloc, p)"
| "alloc_chunks_loop (Suc left) sz end can_alloc p =
     (if p + sz \<le> end then alloc_chunks_loop left sz end (Suc can_alloc) (p + sz)
      else (can_alloc, p))"

definition alloc_chunks :: "nat \<Rightarrow> nat \<Rightarrow> ('e, nat \<times> u16) bfw" where
  "alloc_chunks sz count =
     bnd (reads alloc_end) (\<lambda>ae.
     bnd (reads (\<lambda>m. dynmem_end (cfg m))) (\<lambda>end.
     case alloc_chunks_loop count sz end 0 ae of (can_alloc, p) \<Rightarrow>
       if can_alloc = 0 then sched_shutdown ''alloc_chunks failed''
       else bnd (alloc_chunk (p - ae)) (\<lambda>data. ret (data, of_nat can_alloc))))"

subsection \<open>Move queue\<close>

definition is_finalized :: "'e basecmd_state_scheme \<Rightarrow> bool" where
  "is_finalized m \<longleftrightarrow> move_count m \<noteq> 0"

definition move_free :: "nat \<Rightarrow> ('e, unit) bfw" where
  "move_free x =
     thn (modify (\<lambda>m. m\<lparr>mnext := (mnext m)(x := move_free_list m)\<rparr>))
     (modify (\<lambda>m. m\<lparr>move_free_list := Some x\<rparr>))"

definition move_alloc :: "('e, nat) bfw" where
  "move_alloc =
     bnd irq_save (\<lambda>flag.
     bnd (reads move_free_list) (\<lambda>mf. case mf of
       None \<Rightarrow> sched_shutdown ''Move queue overflow''
     | Some x \<Rightarrow>
         thn (modify (\<lambda>m. m\<lparr>move_free_list := mnext m x\<rparr>))
         (thn (irq_restore flag) (ret x))))"

definition move_queue_empty :: "move_queue_head \<Rightarrow> bool" where
  "move_queue_empty mh \<longleftrightarrow> mq_first mh = None"

definition move_queue_first :: "move_queue_head \<Rightarrow> nat option" where
  "move_queue_first mh = mq_first mh"

text \<open>The queue's head is part of the caller's struct, so the operations return it.\<close>

definition move_queue_push :: "nat \<Rightarrow> move_queue_head \<Rightarrow> ('e, bool \<times> move_queue_head) bfw" where
  "move_queue_push x mh =
     thn (modify (\<lambda>m. m\<lparr>mnext := (mnext m)(x := None)\<rparr>))
     (case mq_first mh of
        Some _ \<Rightarrow>
          (case mq_last mh of
             None \<Rightarrow> undef
           | Some l \<Rightarrow> thn (modify (\<lambda>m. m\<lparr>mnext := (mnext m)(l := Some x)\<rparr>))
                        (ret (False, mh\<lparr>mq_last := Some x\<rparr>)))
      | None \<Rightarrow> ret (True, mh\<lparr>mq_first := Some x, mq_last := Some x\<rparr>))"

definition move_queue_pop :: "move_queue_head \<Rightarrow> ('e, nat \<times> move_queue_head) bfw" where
  "move_queue_pop mh = (case mq_first mh of
     None \<Rightarrow> undef
   | Some x \<Rightarrow> bnd (reads (\<lambda>m. mnext m x)) (\<lambda>n. ret (x, mh\<lparr>mq_first := n\<rparr>)))"

definition move_queue_clear :: "move_queue_head \<Rightarrow> move_queue_head" where
  "move_queue_clear mh = mh\<lparr>mq_first := None\<rparr>"

definition move_queue_setup :: "nat \<Rightarrow> ('e, move_queue_head) bfw" where
  "move_queue_setup sz =
     bnd (reads is_finalized) (\<lambda>fin.
     if sz > 255 \<or> fin then sched_shutdown ''Invalid move request size''
     else thn (modify (\<lambda>m. if sz > unat (move_item_size m)
                then m\<lparr>move_item_size := of_nat sz\<rparr> else m))
          (ret \<lparr>mq_first = None, mq_last = None\<rparr>))"

fun move_reset_loop :: "nat \<Rightarrow> nat \<Rightarrow> nat \<Rightarrow> nat \<Rightarrow> (nat \<Rightarrow> nat option) \<Rightarrow> nat \<Rightarrow> nat option" where
  "move_reset_loop 0 i list sz n = n"
| "move_reset_loop (Suc left) i list sz n =
     move_reset_loop left (Suc i) list sz (n(list + i * sz := Some (list + (i + 1) * sz)))"

definition move_reset :: "('e, unit) bfw" where
  "move_reset =
     bnd (reads move_count) (\<lambda>mc.
     if mc = 0 then ret ()
     else bnd (reads move_list) (\<lambda>ml. case ml of
       None \<Rightarrow> undef
     | Some list \<Rightarrow>
         bnd (reads (\<lambda>m. unat (move_item_size m))) (\<lambda>sz.
         thn (modify (\<lambda>m. m\<lparr>mnext := move_reset_loop (unat mc - 1) 0 list sz (mnext m)\<rparr>))
         (thn (modify (\<lambda>m. m\<lparr>mnext := (mnext m)(list + (unat mc - 1) * sz := None)\<rparr>))
         (modify (\<lambda>m. m\<lparr>move_free_list := Some list\<rparr>))))))"

definition move_finalize :: "('e, unit) bfw" where
  "move_finalize =
     bnd (reads is_finalized) (\<lambda>fin.
     if fin then sched_shutdown ''Already finalized''
     else bnd (reads (\<lambda>m. move_node_size (cfg m))) (\<lambda>ns.
          thn (move_queue_setup ns)
          (bnd (reads (\<lambda>m. unat (move_item_size m))) (\<lambda>sz.
           bnd (alloc_chunks sz 1024) (\<lambda>r.
           thn (modify (\<lambda>m. m\<lparr>move_list := Some (fst r), move_count := snd r\<rparr>))
           move_reset)))))"

subsection \<open>Object ids\<close>

definition oid_lookup :: "u8 \<Rightarrow> otype \<Rightarrow> ('e, unit) bfw" where
  "oid_lookup oid ty =
     bnd (reads oid_count) (\<lambda>cnt.
     if oid \<ge> cnt then sched_shutdown ''Invalid oid type''
     else bnd (reads oids) (\<lambda>tab. case tab of
       None \<Rightarrow> undef
     | Some t \<Rightarrow>
         if otyp (t oid) \<noteq> Some ty then sched_shutdown ''Invalid oid type'' else ret ()))"

text \<open>
  Objects are stored by oid, so a successful lookup stands for the pointer it returns
  and the caller goes on with the oid.  The zeroed memory of a new object includes its
  timers; the modules zero their own part.
\<close>

definition zero_timer :: timer where
  "zero_timer = \<lparr>tnext = None, func = None, waketime = 0\<rparr>"

definition oid_alloc_sized :: "u8 \<Rightarrow> otype \<Rightarrow> nat \<Rightarrow> ('e, unit) bfw" where
  "oid_alloc_sized oid ty sz =
     bnd (reads oid_count) (\<lambda>cnt.
     if oid \<ge> cnt then sched_shutdown ''Can't assign oid''
     else bnd (reads oids) (\<lambda>tab. case tab of
       None \<Rightarrow> undef
     | Some t \<Rightarrow>
         bnd (reads is_finalized) (\<lambda>fin.
         if otyp (t oid) \<noteq> None \<or> fin then sched_shutdown ''Can't assign oid''
         else
           thn (modify (\<lambda>m. m\<lparr>oids := Some (t(oid := (t oid)\<lparr>otyp := Some ty\<rparr>))\<rparr>))
           (bnd (alloc_chunk sz) (\<lambda>data.
            thn (modify (\<lambda>m. set_timer (ObjTimer oid) (\<lambda>_. zero_timer)
                   (set_timer (ObjTimer2 oid) (\<lambda>_. zero_timer) m)))
            (modify (\<lambda>m. m\<lparr>oids := map_option
               (\<lambda>t. t(oid := (t oid)\<lparr>odata := Some data\<rparr>)) (oids m)\<rparr>)))))))"

text \<open>Most objects ask for the size of their struct.\<close>

definition oid_alloc :: "u8 \<Rightarrow> otype \<Rightarrow> ('e, unit) bfw" where
  "oid_alloc oid ty = bnd (reads (\<lambda>m. struct_size (cfg m) ty)) (oid_alloc_sized oid ty)"

text \<open>
  \<^verbatim>\<open>oid_next\<close> searches from the oid behind \<open>i\<close> (which wraps to 0 from \<open>-1\<close>); the table
  has at most 255 entries, so 256 steps suffice.
\<close>

fun oid_next :: "nat \<Rightarrow> u8 \<Rightarrow> otype \<Rightarrow> ('e, (u8 \<times> nat option) option) bfw" where
  "oid_next 0 oid ty = undef"
| "oid_next (Suc n) oid ty = (\<lambda>m.
     let oid' = oid + 1 in
     if oid' \<ge> oid_count m then Ok None m
     else case oids m of
       None \<Rightarrow> Undef
     | Some t \<Rightarrow>
         if otyp (t oid') = Some ty then Ok (Some (oid', odata (t oid'))) m
         else oid_next n oid' ty m)"

text \<open>\<^verbatim>\<open>foreach_oid\<close>: the loop ends when \<^verbatim>\<open>oid_next\<close> returns NULL.\<close>

fun foreach_oid_loop :: "nat \<Rightarrow> u8 \<Rightarrow> otype \<Rightarrow> (u8 \<Rightarrow> ('e, unit) bfw) \<Rightarrow> ('e, unit) bfw" where
  "foreach_oid_loop 0 pos ty body = undef"
| "foreach_oid_loop (Suc n) pos ty body =
     bnd (oid_next 256 pos ty) (\<lambda>r. case r of
       None \<Rightarrow> ret ()
     | Some (pos', data) \<Rightarrow>
         if data = None then ret ()
         else thn (body pos') (foreach_oid_loop n pos' ty body))"

definition foreach_oid :: "otype \<Rightarrow> (u8 \<Rightarrow> ('e, unit) bfw) \<Rightarrow> ('e, unit) bfw" where
  "foreach_oid ty body = foreach_oid_loop 256 (-1) ty body"

definition command_allocate_oids :: "u32 list \<Rightarrow> ('e, unit) bfw" where
  "command_allocate_oids args =
     bnd (reads oids) (\<lambda>tab.
     if tab \<noteq> None then sched_shutdown ''oids already allocated''
     else
       let count = to_u8 (args ! 0) in
       bnd (reads (\<lambda>m. oid_s_size (cfg m))) (\<lambda>sz.
       thn (alloc_chunk (sz * unat count))
       (thn (modify (\<lambda>m. m\<lparr>oids := Some (\<lambda>_. \<lparr>otyp = None, odata = None\<rparr>)\<rparr>))
       (modify (\<lambda>m. m\<lparr>oid_count := count\<rparr>)))))"

subsection \<open>Configuration commands\<close>

definition command_get_config :: "u32 list \<Rightarrow> ('e, unit) bfw" where
  "command_get_config args =
     bnd (reads (\<lambda>m. [Num (of_bool (is_finalized m)), Num (config_crc m),
            Num (of_bool (sched_is_shutdown m)), Num (to_u32 (move_count m))]))
     (command_sendf ''config is_config=%c crc=%u is_shutdown=%c move_count=%hu'')"

definition command_finalize_config :: "u32 list \<Rightarrow> ('e, unit) bfw" where
  "command_finalize_config args =
     thn move_finalize (modify (\<lambda>m. m\<lparr>config_crc := args ! 0\<rparr>))"

definition config_reset :: "u32 list \<Rightarrow> ('e, unit) bfw" where
  "config_reset args =
     bnd (reads sched_is_shutdown) (\<lambda>sd.
     if \<not> sd then sched_shutdown ''config_reset only available when shutdown''
     else
       thn irq_disable
       (thn (modify (\<lambda>m. m\<lparr>config_crc := 0, oid_count := 0, oids := None, move_free_list := None,
               move_list := None, move_count := 0, move_item_size := 0\<rparr>))
       (thn alloc_init
       (thn sched_timer_reset
       (thn sched_clear_shutdown
       irq_enable)))))"

subsection \<open>Timing and load statistics\<close>

definition command_get_clock :: "u32 list \<Rightarrow> ('e, unit) bfw" where
  "command_get_clock args =
     bnd timer_read_time (\<lambda>t. command_sendf ''clock clock=%u'' [Num t])"

definition command_get_uptime :: "u32 list \<Rightarrow> ('e, unit) bfw" where
  "command_get_uptime args =
     bnd timer_read_time (\<lambda>cur.
     bnd (reads (\<lambda>m. stats_send_time_high m + of_bool (cur < stats_send_time m))) (\<lambda>high.
     command_sendf ''uptime high=%u clock=%u'' [Num high, Num cur]))"

definition SUMSQ_BASE :: u32 where "SUMSQ_BASE = 256"

definition DIV_ROUND_UP :: "u32 \<Rightarrow> u32 \<Rightarrow> u32" where
  "DIV_ROUND_UP n d = (n + d - 1) div d"

definition next_sumsq :: "u32 \<Rightarrow> u32 \<Rightarrow> u32" where
  "next_sumsq sumsq diff =
     (let nextsumsq =
        (if diff \<le> 0xffff then sumsq + DIV_ROUND_UP (diff * diff) SUMSQ_BASE
         else if diff \<le> 0xfffff then sumsq + DIV_ROUND_UP diff SUMSQ_BASE * diff
         else 0xffffffff)
      in if nextsumsq < sumsq then 0xffffffff else nextsumsq)"

definition stats_update :: "u32 \<Rightarrow> u32 \<Rightarrow> ('e, unit) bfw" where
  "stats_update start cur =
     (let diff = cur - start in
     thn (modify (\<lambda>m. m\<lparr>stats_count := stats_count m + 1, stats_sum := stats_sum m + diff,
            stats_sumsq := next_sumsq (stats_sumsq m) diff\<rparr>))
     (bnd (reads (\<lambda>m. timer_is_before cur (stats_send_time m + timer_from_us (cfg m) 5000000))) (\<lambda>early.
     if early then ret ()
     else
       bnd (reads (\<lambda>m. [Num (stats_count m), Num (stats_sum m), Num (stats_sumsq m)])) (\<lambda>args.
       thn (command_sendf ''stats count=%u sum=%u sumsq=%u'' args)
       (thn (modify (\<lambda>m. if cur < stats_send_time m
               then m\<lparr>stats_send_time_high := stats_send_time_high m + 1\<rparr> else m))
       (modify (\<lambda>m. m\<lparr>stats_send_time := cur, stats_count := 0, stats_sum := 0, stats_sumsq := 0\<rparr>)))))))"

subsection \<open>Other commands\<close>

definition command_emergency_stop :: "u32 list \<Rightarrow> ('e, unit) bfw" where
  "command_emergency_stop args = sched_shutdown ''Command request''"

definition command_clear_shutdown :: "u32 list \<Rightarrow> ('e, unit) bfw" where
  "command_clear_shutdown args = sched_clear_shutdown"

definition command_identify :: "u32 list \<Rightarrow> ('e, unit) bfw" where
  "command_identify args =
     (let offset = args ! 0; count = to_u8 (args ! 1) in
     bnd (reads (\<lambda>m. identify_data (cfg m))) (\<lambda>data.
     let isize = (of_nat (length data) :: u32);
         count' = (if offset \<ge> isize then 0
                   else if offset + to_u32 count > isize then to_u8 (isize - offset)
                   else count)
     in if unat offset + unat count' > length data \<and> count' \<noteq> 0 then undef
        else command_sendf ''identify_response offset=%u data=%.*s''
               [Num offset, Buf (take (unat count') (drop (unat offset) data))]))"

end
