(* ===== verification/Alloc.thy ===== *)
theory Alloc
  imports Basecmd Timer_Queue
begin

text \<open>
  Correctness of the allocator, of the load statistics and of \<^verbatim>\<open>command_identify\<close>.
  Chunks handed out by any series of requests lie inside the dynamic memory and do not
  overlap; the sum of squares of the statistics saturates instead of wrapping.
\<close>

subsection \<open>Alignment\<close>

lemma ALIGN_ge: "0 < a \<Longrightarrow> x \<le> ALIGN x a"
proof -
  assume a: "0 < a"
  have "x + (a - 1) = (x + (a - 1)) div a * a + (x + (a - 1)) mod a" by simp
  moreover have "(x + (a - 1)) mod a \<le> a - 1"
    using a mod_less_divisor [of a "x + (a - 1)"] by linarith
  ultimately show ?thesis unfolding ALIGN_def by linarith
qed

lemma ALIGN_dvd: "a dvd ALIGN x a"
  by (simp add: ALIGN_def)

lemma ALIGN_less: "0 < a \<Longrightarrow> ALIGN x a < x + a"
proof -
  assume a: "0 < a"
  have "(x + (a - 1)) div a * a \<le> x + (a - 1)" by simp
  then show ?thesis unfolding ALIGN_def using a by linarith
qed

subsection \<open>Chunks\<close>

lemma alloc_chunk_app:
  "alloc_chunk sz m =
     (if alloc_end m + sz > dynmem_end (cfg m)
      then Shutdown ''alloc_chunk failed'' (m\<lparr>irq_on := False\<rparr>)
      else Ok (alloc_end m) (m\<lparr>alloc_end := alloc_end m + ALIGN sz (ptr_align (cfg m))\<rparr>))"
  by (simp add: alloc_chunk_def sched_shutdown_def)

text \<open>A series of requests, with the chunks it obtained.\<close>

fun alloc_series :: "nat list \<Rightarrow> ('e, (nat \<times> nat) list) bfw" where
  "alloc_series [] = ret []"
| "alloc_series (s # ss) =
     bnd (alloc_chunk s) (\<lambda>a. bnd (alloc_series ss) (\<lambda>rest. ret ((a, s) # rest)))"

definition chunk_bytes :: "nat \<times> nat \<Rightarrow> nat set" where
  "chunk_bytes c = {fst c..<fst c + snd c}"

lemma alloc_series_spec:
  assumes "alloc_series ss m = Ok cs m'" and "0 < ptr_align (cfg m)"
  shows "map snd cs = ss \<and> (\<forall>c \<in> set cs. alloc_end m \<le> fst c \<and> fst c + snd c \<le> dynmem_end (cfg m)) \<and>
    (\<forall>i j. i < j \<longrightarrow> j < length cs \<longrightarrow> fst (cs ! i) + snd (cs ! i) \<le> fst (cs ! j))"
  using assms
proof (induction ss arbitrary: m cs)
  case Nil
  then show ?case by simp
next
  case (Cons s ss)
  let ?m = "m\<lparr>alloc_end := alloc_end m + ALIGN s (ptr_align (cfg m))\<rparr>"
  from Cons.prems obtain rest where fit: "alloc_end m + s \<le> dynmem_end (cfg m)"
    and rest: "alloc_series ss ?m = Ok rest m'" and cs: "cs = (alloc_end m, s) # rest"
    by (auto simp: alloc_chunk_app bnd_app split: if_splits res.splits)
  have IH: "map snd rest = ss"
    "\<forall>c \<in> set rest. alloc_end ?m \<le> fst c \<and> fst c + snd c \<le> dynmem_end (cfg ?m)"
    "\<forall>i j. i < j \<longrightarrow> j < length rest \<longrightarrow> fst (rest ! i) + snd (rest ! i) \<le> fst (rest ! j)"
    using Cons.IH [OF rest] Cons.prems(2) by simp_all
  have le: "alloc_end m + s \<le> alloc_end ?m" using ALIGN_ge [OF Cons.prems(2), of s] by simp
  have first: "alloc_end m + s \<le> fst (rest ! j)" if "j < length rest" for j
    using IH(2) le that nth_mem by fastforce
  have "fst (cs ! i) + snd (cs ! i) \<le> fst (cs ! j)" if "i < j" "j < length cs" for i j
  proof (cases i)
    case 0
    then show ?thesis using first [of "j - 1"] that cs by (cases j) auto
  next
    case (Suc i')
    then show ?thesis using IH(3) that cs by (cases j) auto
  qed
  moreover have "\<forall>c \<in> set cs. alloc_end m \<le> fst c \<and> fst c + snd c \<le> dynmem_end (cfg m)"
    using IH(2) le fit cs by fastforce
  ultimately show ?case using IH(1) cs by simp
qed

text \<open>How many items the loop of \<^verbatim>\<open>alloc_chunks\<close> takes: as many as fit, up to the request.\<close>

lemma alloc_chunks_loop_spec:
  assumes "alloc_chunks_loop left sz e can p = (can', p')"
  shows "can \<le> can' \<and> can' \<le> can + left \<and> p' = p + (can' - can) * sz \<and>
    (can < can' \<longrightarrow> p' \<le> e) \<and> (can' = can + left \<or> e < p' + sz)"
  using assms
proof (induction left arbitrary: can p)
  case (Suc left)
  show ?case
  proof (cases "p + sz \<le> e")
    case True
    with Suc.prems have l: "alloc_chunks_loop left sz e (Suc can) (p + sz) = (can', p')" by simp
    have IH: "Suc can \<le> can'" "can' \<le> Suc can + left" "p' = p + sz + (can' - Suc can) * sz"
      "Suc can < can' \<longrightarrow> p' \<le> e" "can' = Suc can + left \<or> e < p' + sz"
      using Suc.IH [OF l] by blast+
    have "can' - can = Suc (can' - Suc can)" using IH(1) by simp
    then have "p' = p + (can' - can) * sz" using IH(3) by simp
    moreover have "p' \<le> e" using IH(1,3,4) True by (cases "can' = Suc can") auto
    ultimately show ?thesis using IH by simp
  next
    case False
    with Suc.prems show ?thesis by auto
  qed
qed simp

subsection \<open>Statistics\<close>

text \<open>What one measured interval adds to the sum of squares, without a bound.\<close>

definition sumsq_term :: "nat \<Rightarrow> nat" where
  "sumsq_term d = (if d \<le> 0xffff then (d * d + 255) div 256
                   else if d \<le> 0xfffff then ((d + 255) div 256) * d else 2 ^ 32)"

lemma unat_DIV_ROUND_UP:
  assumes "unat n + 255 < 2 ^ 32"
  shows "unat (DIV_ROUND_UP n SUMSQ_BASE) = (unat n + 255) div 256"
proof -
  have "n + 256 - 1 = n + 255" by simp
  moreover have "unat (n + 255) = unat n + 255"
    using unat_small_add [of n 255] assms by simp
  moreover have "unat (256 :: u32) = 256" by simp
  ultimately show ?thesis by (simp only: DIV_ROUND_UP_def SUMSQ_BASE_def unat_div_distrib)
qed

lemma sat_add_u32:
  "unat (if a + b < a then 0xffffffff else a + b :: u32) = min 0xffffffff (unat a + unat b)"
proof (cases "unat a + unat b < 2 ^ 32")
  case True
  then have "unat (a + b) = unat a + unat b" by (rule unat_small_add)
  moreover from this have "\<not> a + b < a" by (simp add: word_less_nat_alt)
  ultimately show ?thesis using True by simp
next
  case False
  have "unat (a + b) = (unat a + unat b) mod 2 ^ 32" by (simp add: unat_word_ariths)
  also have "\<dots> = unat a + unat b - 2 ^ 32"
  proof -
    have "unat a < 2 ^ 32" "unat b < 2 ^ 32" using unat_u32_bound [of a] unat_u32_bound [of b] by simp_all
    then show ?thesis using False by (subst mod_if, subst mod_less) auto
  qed
  also have "\<dots> < unat a" using False unat_u32_bound [of b] by simp
  finally have "a + b < a" by (simp add: word_less_nat_alt)
  then show ?thesis using False by simp
qed

lemma sumsq_term_word:
  assumes "diff \<le> 0xfffff"
  shows "unat (if diff \<le> 0xffff then DIV_ROUND_UP (diff * diff) SUMSQ_BASE
     else DIV_ROUND_UP diff SUMSQ_BASE * diff) = sumsq_term (unat diff)"
proof -
  let ?d = "unat diff"
  have d: "?d \<le> 0xfffff" using assms by (simp add: word_le_nat_alt)
  have big: "diff \<le> 0xffff \<longleftrightarrow> ?d \<le> 0xffff" by (simp add: word_le_nat_alt)
  show ?thesis
  proof (cases "?d \<le> 0xffff")
    case True
    have "?d * ?d \<le> 0xffff * 0xffff" by (rule mult_le_mono [OF True True])
    then have "unat (diff * diff) = ?d * ?d" by (intro unat_small_mult) simp
    then show ?thesis
      using True big unat_DIV_ROUND_UP [of "diff * diff"] \<open>?d * ?d \<le> _\<close> by (simp add: sumsq_term_def)
  next
    case False
    have q: "unat (DIV_ROUND_UP diff SUMSQ_BASE) = (?d + 255) div 256"
      using d by (intro unat_DIV_ROUND_UP) simp
    have "(?d + 255) div 256 \<le> 0x1000" using d by simp
    then have "(?d + 255) div 256 * ?d \<le> 0x1000 * 0xfffff" using d by (rule mult_le_mono)
    then have "unat (DIV_ROUND_UP diff SUMSQ_BASE * diff) = (?d + 255) div 256 * ?d"
      using q unat_small_mult [of "DIV_ROUND_UP diff SUMSQ_BASE" diff] by simp
    then show ?thesis using False d big by (simp add: sumsq_term_def)
  qed
qed

text \<open>
  The statistics' sum of squares saturates.  Whatever the measured interval is, the
  update adds the rounded square of the interval divided by 256 (its approximation for
  long intervals) and sticks at the largest 32 bit value: no product and no sum wraps.
\<close>

theorem next_sumsq_saturates:
  "unat (next_sumsq sumsq diff) = min 0xffffffff (unat sumsq + sumsq_term (unat diff))"
proof (cases "diff \<le> 0xfffff")
  case True
  let ?t = "if diff \<le> 0xffff then DIV_ROUND_UP (diff * diff) SUMSQ_BASE else DIV_ROUND_UP diff SUMSQ_BASE * diff"
  have "next_sumsq sumsq diff = (if sumsq + ?t < sumsq then 0xffffffff else sumsq + ?t)"
    using True by (simp add: next_sumsq_def)
  then show ?thesis by (simp only: sat_add_u32 sumsq_term_word [OF True])
next
  case False
  moreover have "\<not> unat diff \<le> 0xfffff" using False by (simp add: word_le_nat_alt)
  moreover have "\<not> diff \<le> 0xffff" using False by (auto simp: word_le_nat_alt)
  moreover have "\<not> (0xffffffff :: u32) < sumsq" using unat_u32_bound [of sumsq] by (simp add: word_less_nat_alt)
  ultimately show ?thesis by (simp add: next_sumsq_def sumsq_term_def)
qed

subsection \<open>Properties of the allocator\<close>

text \<open>
  C23: chunks never overlap and never leave the pool.  Every series of allocations that
  succeeds returns chunks of the requested sizes, in the part of the dynamic memory that
  was still free, and no two of them share a byte.
\<close>

theorem alloc_chunks_disjoint:
  assumes "alloc_series ss m = Ok cs m'" and "0 < ptr_align (cfg m)"
  shows "map snd cs = ss \<and>
    (\<Union> (set (map chunk_bytes cs)) \<subseteq> {alloc_end m..<dynmem_end (cfg m)}) \<and>
    (\<forall>i j. i < j \<and> j < length cs \<longrightarrow> chunk_bytes (cs ! i) \<inter> chunk_bytes (cs ! j) = {})"
proof -
  note S = alloc_series_spec [OF assms]
  have "\<Union> (set (map chunk_bytes cs)) \<subseteq> {alloc_end m..<dynmem_end (cfg m)}"
    using S by (force simp: chunk_bytes_def)
  moreover have "chunk_bytes (cs ! i) \<inter> chunk_bytes (cs ! j) = {}" if "i < j" "j < length cs" for i j
    using S that by (force simp: chunk_bytes_def)
  ultimately show ?thesis using S by blast
qed

lemma ALIGN_4: "ALIGN 6 4 = 8" "ALIGN 10 4 = 12" "ALIGN 0x1000 4 = 0x1000"
  by (simp_all add: ALIGN_def)

definition sample_base :: basecmd_state where
  "sample_base = (case alloc_init (basecmd_init sample_config sample_board) of Ok _ m \<Rightarrow> m)"

lemmas sample_base_defs = sample_base_def basecmd_init_def basecmd_state.defs machine.defs sched_init_def
  sample_config_def alloc_init_def

theorem alloc_chunks_disjoint_witness:
  "\<exists>m'. alloc_series [6, 10] sample_base = Ok [(0x1000, 6), (0x1008, 10)] m' \<and>
    chunk_bytes (0x1000, 6) \<inter> chunk_bytes (0x1008, 10) = {}"
proof -
  have run: "\<exists>m'. alloc_series [6, 10] sample_base = Ok [(0x1000, 6), (0x1008, 10)] m'"
    by (simp add: sample_base_defs alloc_chunk_app ALIGN_4)
  moreover have "0 < ptr_align (cfg sample_base)" by (simp add: sample_base_defs)
  ultimately show ?thesis using alloc_chunks_disjoint [of "[6, 10]" sample_base] by fastforce
qed

text \<open>
  \<^verbatim>\<open>command_identify\<close> never reads outside the identify data: for every offset and count
  it answers with the requested bytes, cut at the end of the data, as long as the data is
  shorter than the largest 32 bit value minus 255.
\<close>

theorem command_identify_slice:
  assumes "length (identify_data (cfg m)) < 2 ^ 32 - 255" and "\<not> in_sendf m"
  shows "command_identify [offset, count] m = Ok () (m\<lparr>out := out m @
    [Send ''identify_response offset=%u data=%.*s''
      [Num offset, Buf (take (unat (to_u8 count)) (drop (unat offset) (identify_data (cfg m))))]]\<rparr>)"
proof -
  let ?d = "identify_data (cfg m)"
  let ?isz = "of_nat (length ?d) :: u32" and ?c = "to_u8 count :: u8"
  have isz: "unat ?isz = length ?d" using assms by (simp add: unat_of_nat take_bit_nat_eq_self)
  have c: "unat ?c < 256" using unsigned_less [of ?c] by simp
  have c32: "unat (to_u32 ?c) = unat ?c" by (simp add: unsigned_ucast_eq unsigned_take_bit_eq)
  consider "unat offset \<ge> length ?d"
    | "unat offset < length ?d" "unat offset + unat ?c > length ?d"
    | "unat offset < length ?d" "unat offset + unat ?c \<le> length ?d" by linarith
  then show ?thesis
  proof cases
    case 1
    then have "offset \<ge> ?isz" by (simp add: word_le_nat_alt isz)
    then show ?thesis using assms 1 by (simp add: command_identify_def Let_def)
  next
    case 2
    then have n: "\<not> offset \<ge> ?isz" by (simp add: word_le_nat_alt isz)
    have "unat (offset + to_u32 ?c) = unat offset + unat ?c"
      using unat_small_add [of offset "to_u32 ?c"] 2 assms c by (simp add: c32)
    then have g: "offset + to_u32 ?c > ?isz" using 2 by (simp add: word_less_nat_alt isz)
    have "unat (?isz - offset) = length ?d - unat offset"
      using n isz by (simp add: unat_sub)
    then have r: "unat (to_u8 (?isz - offset) :: u8) = length ?d - unat offset"
      using 2 c by (simp add: unsigned_ucast_eq take_bit_nat_eq_self)
    show ?thesis
      using assms 2 n g r by (auto simp: command_identify_def Let_def)
  next
    case 3
    then have n: "\<not> offset \<ge> ?isz" by (simp add: word_le_nat_alt isz)
    have "unat (offset + to_u32 ?c) = unat offset + unat ?c"
      using unat_small_add [of offset "to_u32 ?c"] 3 assms c by (simp add: c32)
    then have g: "\<not> offset + to_u32 ?c > ?isz" using 3 by (simp add: word_less_nat_alt isz)
    show ?thesis
      using assms 3 n g by (auto simp: command_identify_def Let_def)
  qed
qed

theorem command_identify_slice_witness:
  "command_identify [3, 40] sample_base = Ok () (sample_base\<lparr>out :=
     [Send ''identify_response offset=%u data=%.*s'' [Num 3, Buf [4, 5]]]\<rparr>)"
proof -
  have "length (identify_data (cfg sample_base)) < 2 ^ 32 - 255" "\<not> in_sendf sample_base"
    and o: "out sample_base = []" and d: "identify_data (cfg sample_base) = [1, 2, 3, 4, 5]"
    by (simp_all add: sample_base_defs)
  from command_identify_slice [OF this(1,2), of 3 40] show ?thesis
    by (simp add: o d unat_of_nat)
qed

end
