(* ===== verification/Fifo.thy ===== *)
theory Fifo
  imports Main
begin

text \<open>
  First-in-first-out queues whose links live in a shared heap.  The locale states what
  the users of such a queue rely on; the firmware's move queues and the host's message
  lists are interpretations of it.  \<open>nodes h q xs\<close>: in heap \<open>h\<close> the queue with head \<open>q\<close>
  holds the nodes \<open>xs\<close>, oldest first.
\<close>

fun push_all :: "('n \<Rightarrow> 'h \<times> 'q \<Rightarrow> ('h \<times> 'q) option) \<Rightarrow> 'n list \<Rightarrow> 'h \<times> 'q \<Rightarrow> ('h \<times> 'q) option" where
  "push_all push [] s = Some s"
| "push_all push (x # xs) s = Option.bind (push x s) (push_all push xs)"

fun pop_all :: "('h \<times> 'q \<Rightarrow> ('n \<times> 'h \<times> 'q) option) \<Rightarrow> nat \<Rightarrow> 'h \<times> 'q \<Rightarrow> ('n list \<times> 'h \<times> 'q) option" where
  "pop_all pop 0 s = Some ([], s)"
| "pop_all pop (Suc n) s =
     Option.bind (pop s) (\<lambda>(x, s'). map_option (\<lambda>(xs, s''). (x # xs, s'')) (pop_all pop n s'))"

locale heap_fifo =
  fixes nodes :: "'h \<Rightarrow> 'q \<Rightarrow> 'n list \<Rightarrow> bool"
    and new :: 'q
    and push :: "'n \<Rightarrow> 'h \<times> 'q \<Rightarrow> ('h \<times> 'q) option"
    and pop :: "'h \<times> 'q \<Rightarrow> ('n \<times> 'h \<times> 'q) option"
  assumes nodes_new: "nodes h new []"
    and nodes_distinct: "nodes h q xs \<Longrightarrow> distinct xs"
    and push_law: "nodes h q xs \<Longrightarrow> x \<notin> set xs \<Longrightarrow>
      \<exists>h' q'. push x (h, q) = Some (h', q') \<and> nodes h' q' (xs @ [x])"
    and push_frame: "nodes h q xs \<Longrightarrow> x \<notin> set xs \<Longrightarrow> push x (h, q) = Some (h', q') \<Longrightarrow>
      nodes h q2 ys \<Longrightarrow> set ys \<inter> insert x (set xs) = {} \<Longrightarrow> nodes h' q2 ys"
    and pop_law: "nodes h q (x # xs) \<Longrightarrow> \<exists>h' q'. pop (h, q) = Some (x, h', q') \<and> nodes h' q' xs"
    and pop_frame: "nodes h q (x # xs) \<Longrightarrow> pop (h, q) = Some (x, h', q') \<Longrightarrow>
      nodes h q2 ys \<Longrightarrow> set ys \<inter> set (x # xs) = {} \<Longrightarrow> nodes h' q2 ys"
begin

lemma push_all_nodes:
  assumes "nodes h q xs" and "distinct (xs @ ys)"
  shows "\<exists>h' q'. push_all push ys (h, q) = Some (h', q') \<and> nodes h' q' (xs @ ys)"
  using assms
proof (induction ys arbitrary: h q xs)
  case (Cons y ys)
  from Cons.prems obtain h' q' where p: "push y (h, q) = Some (h', q')" "nodes h' q' (xs @ [y])"
    using push_law by fastforce
  from Cons.IH [OF p(2)] Cons.prems(2) p(1) show ?case by auto
qed simp

lemma pop_all_nodes:
  assumes "nodes h q (xs @ ys)"
  shows "\<exists>h' q'. pop_all pop (length xs) (h, q) = Some (xs, h', q') \<and> nodes h' q' ys"
  using assms
proof (induction xs arbitrary: h q)
  case (Cons x xs)
  from Cons.prems obtain h' q' where p: "pop (h, q) = Some (x, h', q')" "nodes h' q' (xs @ ys)"
    using pop_law by fastforce
  from Cons.IH [OF p(2)] p(1) show ?case by auto
qed simp

text \<open>Nodes come out in the order in which they went in, behind those already queued.\<close>

lemma first_in_first_out:
  assumes "nodes h q xs" and "distinct (xs @ ys)"
  shows "\<exists>s h' q'. push_all push ys (h, q) = Some s \<and>
    pop_all pop (length xs + length ys) s = Some (xs @ ys, h', q') \<and> nodes h' q' []"
proof -
  obtain h1 q1 where "push_all push ys (h, q) = Some (h1, q1)" "nodes h1 q1 (xs @ ys)"
    using push_all_nodes [OF assms] by blast
  then show ?thesis using pop_all_nodes [of h1 q1 "xs @ ys" "[]"] by auto
qed

end

end
