(* ===== verification/Move_Pool.thy ===== *)
theory Move_Pool
  imports Alloc Fifo
begin

text \<open>
  The pool of move nodes and the queues built from it.  A free list and the queues are
  paths through the \<^verbatim>\<open>next\<close> fields; they stay disjoint, so a node that is allocated is in no
  queue, and a node is lost only if its owner forgets it.
\<close>

subsection \<open>Paths\<close>

fun mpath :: "(nat \<Rightarrow> nat option) \<Rightarrow> nat option \<Rightarrow> nat list \<Rightarrow> bool" where
  "mpath n p [] = (p = None)"
| "mpath n p (x # xs) = (p = Some x \<and> mpath n (n x) xs)"

lemma mpath_cong: "(\<And>x. x \<in> set xs \<Longrightarrow> n x = n' x) \<Longrightarrow> mpath n p xs = mpath n' p xs"
  by (induction n p xs rule: mpath.induct) auto

lemma mpath_upd [simp]: "x \<notin> set xs \<Longrightarrow> mpath (n(x := v)) p xs = mpath n p xs"
  by (rule mpath_cong) auto

lemma mpath_snoc:
  assumes "mpath n p xs" "xs \<noteq> []" "distinct xs" "x \<notin> set xs"
  shows "mpath (n(x := None, last xs := Some x)) p (xs @ [x])"
  using assms
proof (induction xs arbitrary: p)
  case (Cons y ys)
  show ?case
  proof (cases "ys = []")
    case True
    then show ?thesis using Cons.prems by auto
  next
    case False
    then have "last ys \<in> set ys" by simp
    then have y: "last ys \<noteq> y" "y \<noteq> x" using Cons.prems(3,4) by auto
    define N where "N = n(x := None, last ys := Some x)"
    have "mpath N (n y) (ys @ [x])"
      unfolding N_def by (rule Cons.IH) (use Cons.prems False in auto)
    moreover have "N y = n y" using y by (simp add: N_def)
    ultimately have "mpath N p ((y # ys) @ [x])" using Cons.prems(1) by simp
    then show ?thesis unfolding N_def last_ConsR [OF False] .
  qed
qed simp

lemma mpath_unique: "mpath n p xs \<Longrightarrow> mpath n p ys \<Longrightarrow> xs = ys"
proof (induction xs arbitrary: p ys)
  case Nil
  then show ?case by (cases ys) auto
next
  case (Cons x xs)
  then show ?case by (cases ys) auto
qed

subsection \<open>Queues and the free list\<close>

definition mq_nodes :: "'e basecmd_state_scheme \<Rightarrow> move_queue_head \<Rightarrow> nat list \<Rightarrow> bool" where
  "mq_nodes m q xs \<longleftrightarrow> mpath (mnext m) (mq_first q) xs \<and> distinct xs \<and>
     (xs \<noteq> [] \<longrightarrow> mq_last q = Some (last xs))"

definition free_nodes :: "'e basecmd_state_scheme \<Rightarrow> nat list \<Rightarrow> bool" where
  "free_nodes m F \<longleftrightarrow> mpath (mnext m) (move_free_list m) F \<and> distinct F"

lemma move_queue_push_empty:
  "mq_first q = None \<Longrightarrow> move_queue_push x q m =
     Ok (True, q\<lparr>mq_first := Some x, mq_last := Some x\<rparr>) (m\<lparr>mnext := (mnext m)(x := None)\<rparr>)"
  by (simp add: move_queue_push_def)

lemma move_queue_push_more:
  "mq_first q = Some y \<Longrightarrow> mq_last q = Some l \<Longrightarrow> move_queue_push x q m =
     Ok (False, q\<lparr>mq_last := Some x\<rparr>) (m\<lparr>mnext := (mnext m)(x := None, l := Some x)\<rparr>)"
  by (simp add: move_queue_push_def)

lemma move_queue_push_spec:
  assumes q: "mq_nodes m q xs" and x: "x \<notin> set xs"
  shows "\<exists>q' n. move_queue_push x q m = Ok (xs = [], q') (m\<lparr>mnext := n\<rparr>) \<and>
    mq_nodes (m\<lparr>mnext := n\<rparr>) q' (xs @ [x]) \<and>
    (\<forall>y. y \<notin> insert x (set xs) \<longrightarrow> n y = mnext m y)"
proof (cases "xs = []")
  case True
  let ?q = "q\<lparr>mq_first := Some x, mq_last := Some x\<rparr>" and ?n = "(mnext m)(x := None)"
  have "mq_first q = None" using q True by (simp add: mq_nodes_def)
  then have "move_queue_push x q m = Ok (xs = [], ?q) (m\<lparr>mnext := ?n\<rparr>)"
    using move_queue_push_empty [of q x m] True by simp
  moreover have "mq_nodes (m\<lparr>mnext := ?n\<rparr>) ?q (xs @ [x])" using True by (simp add: mq_nodes_def)
  ultimately show ?thesis by (intro exI [of _ ?q] exI [of _ ?n]) simp
next
  case False
  let ?q = "q\<lparr>mq_last := Some x\<rparr>" and ?n = "(mnext m)(x := None, last xs := Some x)"
  obtain y where "mq_first q = Some y" using q False by (cases xs) (auto simp: mq_nodes_def)
  moreover have "mq_last q = Some (last xs)" using q False by (simp add: mq_nodes_def)
  ultimately have "move_queue_push x q m = Ok (xs = [], ?q) (m\<lparr>mnext := ?n\<rparr>)"
    using move_queue_push_more [of q y "last xs" x m] False by simp
  moreover have "mpath ?n (mq_first q) (xs @ [x])"
    using q x False by (intro mpath_snoc) (simp_all add: mq_nodes_def)
  then have "mq_nodes (m\<lparr>mnext := ?n\<rparr>) ?q (xs @ [x])"
    using q x unfolding mq_nodes_def by simp
  moreover have "last xs \<in> set xs" using False by simp
  ultimately show ?thesis by (intro exI [of _ ?q] exI [of _ ?n]) auto
qed

lemma move_queue_pop_spec:
  assumes "mq_nodes m q (x # xs)"
  shows "\<exists>q'. move_queue_pop q m = Ok (x, q') m \<and> mq_nodes m q' xs"
  using assms
  by (intro exI [of _ "q\<lparr>mq_first := mnext m x\<rparr>"]) (auto simp: move_queue_pop_def mq_nodes_def)

lemma mq_empty: "mq_nodes m q xs \<Longrightarrow> move_queue_empty q \<longleftrightarrow> xs = []"
  by (cases xs) (auto simp: mq_nodes_def move_queue_empty_def)

definition mq_push :: "nat \<Rightarrow> 'e basecmd_state_scheme \<times> move_queue_head \<Rightarrow>
    ('e basecmd_state_scheme \<times> move_queue_head) option" where
  "mq_push x s = (case move_queue_push x (snd s) (fst s) of Ok r m' \<Rightarrow> Some (m', snd r) | _ \<Rightarrow> None)"

definition mq_pop :: "'e basecmd_state_scheme \<times> move_queue_head \<Rightarrow>
    (nat \<times> 'e basecmd_state_scheme \<times> move_queue_head) option" where
  "mq_pop s = (case move_queue_pop (snd s) (fst s) of Ok r m' \<Rightarrow> Some (fst r, m', snd r) | _ \<Rightarrow> None)"

lemma mq_nodes_frame:
  assumes "mq_nodes m q ys" and "\<And>y. y \<in> set ys \<Longrightarrow> mnext m' y = mnext m y"
  shows "mq_nodes m' q ys"
proof -
  have "mpath (mnext m') (mq_first q) ys = mpath (mnext m) (mq_first q) ys"
    by (rule mpath_cong) (use assms(2) in auto)
  then show ?thesis using assms(1) by (simp add: mq_nodes_def)
qed

interpretation mq: heap_fifo mq_nodes "\<lparr>mq_first = None, mq_last = None\<rparr>" mq_push mq_pop
proof
  fix m :: "'e basecmd_state_scheme" and q xs x
  show "mq_nodes m \<lparr>mq_first = None, mq_last = None\<rparr> []" by (simp add: mq_nodes_def)
  show "mq_nodes m q xs \<Longrightarrow> distinct xs" by (simp add: mq_nodes_def)
  show "\<exists>h' q'. mq_push x (m, q) = Some (h', q') \<and> mq_nodes h' q' (xs @ [x])"
    if "mq_nodes m q xs" "x \<notin> set xs"
    using move_queue_push_spec [OF that] by (auto simp: mq_push_def)
  show "mq_nodes h' q2 ys"
    if a: "mq_nodes m q xs" "x \<notin> set xs" "mq_push x (m, q) = Some (h', q')" "mq_nodes m q2 ys"
      "set ys \<inter> insert x (set xs) = {}" for h' q' q2 ys
  proof (rule mq_nodes_frame [OF a(4)])
    fix y assume "y \<in> set ys"
    then have "y \<notin> insert x (set xs)" using a(5) by blast
    then show "mnext h' y = mnext m y"
      using move_queue_push_spec [OF a(1,2)] a(3) by (auto simp: mq_push_def)
  qed
  show "\<exists>h' q'. mq_pop (m, q) = Some (x, h', q') \<and> mq_nodes h' q' xs" if "mq_nodes m q (x # xs)"
    using move_queue_pop_spec [OF that] by (auto simp: mq_pop_def)
  show "mq_nodes h' q2 ys"
    if "mq_nodes m q (x # xs)" "mq_pop (m, q) = Some (x, h', q')" "mq_nodes m q2 ys" for h' q' q2 ys
    using move_queue_pop_spec [OF that(1)] that(2,3) by (auto simp: mq_pop_def)
qed

lemma free_nodes_frame:
  assumes "free_nodes m F" and "\<And>y. y \<in> set F \<Longrightarrow> mnext m' y = mnext m y"
    and "move_free_list m' = move_free_list m"
  shows "free_nodes m' F"
proof -
  have "mpath (mnext m') (move_free_list m) F = mpath (mnext m) (move_free_list m) F"
    by (rule mpath_cong) (use assms(2) in auto)
  then show ?thesis using assms(1,3) by (simp add: free_nodes_def)
qed

lemma move_alloc_some:
  assumes "free_nodes m (x # F)"
  shows "move_alloc m = Ok x (m\<lparr>move_free_list := mnext m x\<rparr>)"
    and "free_nodes (m\<lparr>move_free_list := mnext m x\<rparr>) F"
  using assms by (simp_all add: free_nodes_def move_alloc_def)

lemma move_alloc_none:
  "free_nodes m [] \<Longrightarrow> move_alloc m = Shutdown ''Move queue overflow'' (m\<lparr>irq_on := False\<rparr>)"
  by (simp add: free_nodes_def move_alloc_def sched_shutdown_def)

lemma move_free_spec:
  assumes "free_nodes m F" and "x \<notin> set F"
  shows "move_free x m = Ok () (m\<lparr>mnext := (mnext m)(x := move_free_list m), move_free_list := Some x\<rparr>)"
    and "free_nodes (m\<lparr>mnext := (mnext m)(x := move_free_list m), move_free_list := Some x\<rparr>) (x # F)"
  using assms by (simp_all add: free_nodes_def move_free_def)

subsection \<open>Building the free list\<close>

definition pool_nodes :: "nat \<Rightarrow> nat \<Rightarrow> nat \<Rightarrow> nat list" where
  "pool_nodes list sz k = map (\<lambda>i. list + i * sz) [0..<k]"

lemma distinct_pool_nodes: "0 < sz \<Longrightarrow> distinct (pool_nodes list sz k)"
  by (auto simp: pool_nodes_def distinct_map inj_on_def)

lemma move_reset_loop_frame:
  assumes "0 < sz" and "\<And>j. i \<le> j \<Longrightarrow> j < i + left \<Longrightarrow> x \<noteq> list + j * sz"
  shows "move_reset_loop left i list sz n x = n x"
  using assms
proof (induction left arbitrary: i n)
  case (Suc left)
  have "move_reset_loop left (Suc i) list sz (n(list + i * sz := Some (list + (i + 1) * sz))) x =
      (n(list + i * sz := Some (list + (i + 1) * sz))) x"
    by (rule Suc.IH) (use Suc.prems in auto)
  moreover have "x \<noteq> list + i * sz" using Suc.prems(2) [of i] by simp
  ultimately show ?case by simp
qed simp

lemma move_reset_loop_path:
  assumes sz: "0 < sz" and "n' (list + (i + left) * sz) = None"
    and "\<And>j. i \<le> j \<Longrightarrow> j < i + left \<Longrightarrow> n' (list + j * sz) = Some (list + (j + 1) * sz)"
  shows "mpath n' (Some (list + i * sz)) (map (\<lambda>j. list + j * sz) [i..<i + Suc left])"
  using assms(2-)
proof (induction left arbitrary: i)
  case 0
  then show ?case by simp
next
  case (Suc left)
  have "mpath n' (Some (list + Suc i * sz)) (map (\<lambda>j. list + j * sz) [Suc i..<Suc i + Suc left])"
    by (rule Suc.IH) (use Suc.prems in \<open>auto simp del: mult_Suc\<close>)
  moreover have "n' (list + i * sz) = Some (list + Suc i * sz)" using Suc.prems(2) [of i] by simp
  moreover have "[i..<i + Suc (Suc left)] = i # [Suc i..<Suc i + Suc left]"
    by (simp add: upt_rec [of i])
  ultimately show ?case by (simp del: mult_Suc)
qed

lemma move_reset_loop_links:
  assumes sz: "0 < sz" and "i \<le> j" "j < i + left"
  shows "move_reset_loop left i list sz n (list + j * sz) = Some (list + (j + 1) * sz)"
  using assms(2-)
proof (induction left arbitrary: i n)
  case (Suc left)
  show ?case
  proof (cases "j = i")
    case True
    have "move_reset_loop left (Suc i) list sz (n(list + i * sz := Some (list + (i + 1) * sz))) (list + i * sz) =
        (n(list + i * sz := Some (list + (i + 1) * sz))) (list + i * sz)"
      by (rule move_reset_loop_frame [OF sz]) (use sz in auto)
    then show ?thesis using True by simp
  next
    case False
    then show ?thesis using Suc.IH [of "Suc i"] Suc.prems by simp
  qed
qed simp

lemma move_reset_spec:
  assumes "move_count m \<noteq> 0" and "move_list m = Some list" and "move_item_size m \<noteq> 0"
  shows "\<exists>n. move_reset m = Ok () (m\<lparr>mnext := n, move_free_list := Some list\<rparr>) \<and>
    free_nodes (m\<lparr>mnext := n, move_free_list := Some list\<rparr>)
      (pool_nodes list (unat (move_item_size m)) (unat (move_count m)))"
proof -
  let ?sz = "unat (move_item_size m)" and ?k = "unat (move_count m)"
  have sz: "0 < ?sz" using assms(3) by (simp add: unat_gt_0)
  have k: "0 < ?k" using assms(1) by (simp add: unat_gt_0)
  let ?n = "(move_reset_loop (?k - 1) 0 list ?sz (mnext m))(list + (?k - 1) * ?sz := None)"
  have "?n (list + j * ?sz) = Some (list + (j + 1) * ?sz)" if "j < 0 + (?k - 1)" for j
    using move_reset_loop_links [OF sz, of 0 j "?k - 1" list "mnext m"] that sz by auto
  then have "mpath ?n (Some (list + 0 * ?sz)) (map (\<lambda>j. list + j * ?sz) [0..<0 + Suc (?k - 1)])"
    by (intro move_reset_loop_path [OF sz]) auto
  then have "mpath ?n (Some list) (pool_nodes list ?sz ?k)" using k by (simp add: pool_nodes_def)
  moreover have "move_reset m = Ok () (m\<lparr>mnext := ?n, move_free_list := Some list\<rparr>)"
    using assms by (simp add: move_reset_def)
  ultimately show ?thesis
    using distinct_pool_nodes [OF sz] by (intro exI [of _ ?n]) (simp add: free_nodes_def)
qed

lemma move_queue_setup_app:
  "sz \<le> 255 \<Longrightarrow> \<not> is_finalized m \<Longrightarrow> move_queue_setup sz m =
     Ok \<lparr>mq_first = None, mq_last = None\<rparr>
       (m\<lparr>move_item_size := of_nat (max sz (unat (move_item_size m)))\<rparr>)"
  by (simp add: move_queue_setup_def max_def)

lemma alloc_chunks_app:
  assumes "alloc_chunks_loop cnt sz (dynmem_end (cfg m)) 0 (alloc_end m) = (can, p)"
  shows "alloc_chunks sz cnt m =
    (if can = 0 then Shutdown ''alloc_chunks failed'' (m\<lparr>irq_on := False\<rparr>)
     else Ok (alloc_end m, of_nat can)
       (m\<lparr>alloc_end := alloc_end m + ALIGN (can * sz) (ptr_align (cfg m))\<rparr>))"
proof -
  have "p = alloc_end m + can * sz" "0 < can \<longrightarrow> p \<le> dynmem_end (cfg m)"
    using alloc_chunks_loop_spec [OF assms] by auto
  then show ?thesis
    using assms by (auto simp: alloc_chunks_def alloc_chunk_app sched_shutdown_def bnd_app)
qed

subsection \<open>Properties of the pool\<close>

text \<open>
  C24: \<^verbatim>\<open>finalize_config\<close> builds the pool.  Unless not even one node fits (and then the
  firmware shuts down), the free list afterwards consists of between 1 and 1024 distinct
  nodes of the largest requested size, side by side from the old end of the allocated
  memory; all of them lie inside the dynamic memory, and a smaller number than 1024 means
  that no further node would fit.
\<close>

theorem finalize_config_pool:
  assumes "\<not> is_finalized m" and "0 < move_node_size (cfg m)" and "move_node_size (cfg m) \<le> 255"
  shows "let sz = max (move_node_size (cfg m)) (unat (move_item_size m)); e = dynmem_end (cfg m) in
    case command_finalize_config [crc] m of
      Ok _ m' \<Rightarrow> is_finalized m' \<and> config_crc m' = crc \<and>
        (\<exists>k. 1 \<le> k \<and> k \<le> 1024 \<and> unat (move_count m') = k \<and>
          free_nodes m' (pool_nodes (alloc_end m) sz k) \<and>
          alloc_end m + k * sz \<le> e \<and> (k = 1024 \<or> e < alloc_end m + (k + 1) * sz))
    | Shutdown r _ \<Rightarrow> r = ''alloc_chunks failed'' \<and> e < alloc_end m + sz
    | Undef \<Rightarrow> False"
proof -
  define sz where "sz = max (move_node_size (cfg m)) (unat (move_item_size m))"
  define m1 where "m1 = m\<lparr>move_item_size := of_nat sz\<rparr>"
  have "unat (move_item_size m) < 256" using unsigned_less [of "move_item_size m"] by simp
  then have sz: "0 < sz" "sz < 256" using assms by (auto simp: sz_def)
  have m1: "unat (move_item_size m1) = sz" "move_item_size m1 \<noteq> 0"
    "alloc_end m1 = alloc_end m" "cfg m1 = cfg m"
    using sz by (auto simp: m1_def unat_of_nat take_bit_nat_eq_self of_nat_eq_0_iff take_bit_eq_mod
        dest: arg_cong [where f = unat])
  obtain can p where loop: "alloc_chunks_loop 1024 sz (dynmem_end (cfg m1)) 0 (alloc_end m1) = (can, p)"
    by (cases "alloc_chunks_loop 1024 sz (dynmem_end (cfg m1)) 0 (alloc_end m1)")
  have L: "can \<le> 1024" "p = alloc_end m + can * sz" "0 < can \<longrightarrow> p \<le> dynmem_end (cfg m)"
    "can = 1024 \<or> dynmem_end (cfg m) < p + sz"
    using alloc_chunks_loop_spec [OF loop] by (auto simp: m1)
  have su: "move_queue_setup (move_node_size (cfg m)) m = Ok \<lparr>mq_first = None, mq_last = None\<rparr> m1"
    using move_queue_setup_app [of "move_node_size (cfg m)" m] assms by (simp add: m1_def sz_def)
  show ?thesis
  proof (cases "can = 0")
    case True
    then show ?thesis
      using assms su loop L m1 alloc_chunks_app [OF loop]
      by (simp add: command_finalize_config_def move_finalize_def sz_def)
  next
    case False
    define m2 where "m2 = m1\<lparr>alloc_end := alloc_end m + ALIGN (can * sz) (ptr_align (cfg m)),
      move_list := Some (alloc_end m), move_count := of_nat can\<rparr>"
    have cnt: "unat (of_nat can :: u16) = can" using L(1) by (simp add: unat_of_nat take_bit_nat_eq_self)
    then have "(of_nat can :: u16) \<noteq> 0" using False by (metis unat_0)
    then have "move_count m2 \<noteq> 0" "move_list m2 = Some (alloc_end m)" "move_item_size m2 \<noteq> 0"
      using m1 by (simp_all add: m2_def)
    from move_reset_spec [OF this] obtain n where
      r: "move_reset m2 = Ok () (m2\<lparr>mnext := n, move_free_list := Some (alloc_end m)\<rparr>)" and
      f: "free_nodes (m2\<lparr>mnext := n, move_free_list := Some (alloc_end m)\<rparr>) (pool_nodes (alloc_end m) sz can)"
      using m1 cnt by (auto simp: m2_def)
    have run: "command_finalize_config [crc] m =
        Ok () (m2\<lparr>mnext := n, move_free_list := Some (alloc_end m), config_crc := crc\<rparr>)"
      using assms su loop m1 alloc_chunks_app [OF loop] False r
      by (simp add: command_finalize_config_def move_finalize_def m2_def)
    have "free_nodes (m2\<lparr>mnext := n, move_free_list := Some (alloc_end m), config_crc := crc\<rparr>)
        (pool_nodes (alloc_end m) sz can)" using f by (simp add: free_nodes_def)
    then show ?thesis
      using run L False cnt \<open>(of_nat can :: u16) \<noteq> 0\<close>
      by (auto simp: sz_def [symmetric] is_finalized_def m2_def Let_def intro!: exI [of _ can])
  qed
qed

theorem finalize_config_pool_witness:
  "\<exists>m'. command_finalize_config [7] sample_base = Ok () m' \<and>
     free_nodes m' (pool_nodes 0x1000 4 1024) \<and> config_crc m' = 7"
proof -
  have b: "\<not> is_finalized sample_base" "move_node_size (cfg sample_base) = 4"
    "dynmem_end (cfg sample_base) = 0x5000" "alloc_end sample_base = 0x1000" "move_item_size sample_base = 0"
    by (simp_all add: sample_base_defs is_finalized_def ALIGN_4)
  show ?thesis
    using finalize_config_pool [of sample_base 7] b
    by (auto simp: Let_def split: res.splits)
qed

text \<open>
  C25: move queues are first in, first out.  Nodes pushed on a queue come out behind the
  nodes already queued and in the order of the pushes, and popping all of them leaves the
  queue empty.
\<close>

theorem move_queue_fifo:
  assumes "mq_nodes m q xs" and "distinct (xs @ ys)"
  shows "\<exists>s m' q'. push_all mq_push ys (m, q) = Some s \<and>
    pop_all mq_pop (length xs + length ys) s = Some (xs @ ys, m', q') \<and> move_queue_empty q'"
  using mq.first_in_first_out [OF assms] mq_empty [of _ _ "[]"] by fastforce

theorem move_queue_fifo_witness:
  "\<exists>s m' q'. push_all mq_push [0x1000, 0x1010] (sample_base, \<lparr>mq_first = None, mq_last = None\<rparr>) = Some s \<and>
    pop_all mq_pop (length ([] :: nat list) + length [0x1000, 0x1010 :: nat]) s =
      Some ([] @ [0x1000, 0x1010], m', q') \<and> move_queue_empty q'"
  by (rule move_queue_fifo) (simp_all add: mq_nodes_def)

end
