(* ===== verification/Oids.thy ===== *)
theory Oids
  imports Move_Pool
begin

text \<open>
  Object ids: \<^verbatim>\<open>foreach_oid\<close> visits the objects of a type in increasing order, and the
  table an interrupted \<^verbatim>\<open>oid_alloc\<close> leaves behind.
\<close>

subsection \<open>The objects of a type\<close>

definition objs :: "'e basecmd_state_scheme \<Rightarrow> otype \<Rightarrow> nat \<Rightarrow> u8 list" where
  "objs m ty k = (case oids m of
     None \<Rightarrow> []
   | Some t \<Rightarrow> filter (\<lambda>i. otyp (t i) = Some ty) (map of_nat [k..<unat (oid_count m)]))"

text \<open>Those \<^verbatim>\<open>foreach_oid\<close> gets to: it stops at the first NULL data pointer.\<close>

definition reached_objs :: "'e basecmd_state_scheme \<Rightarrow> otype \<Rightarrow> nat \<Rightarrow> u8 list" where
  "reached_objs m ty k = (case oids m of
     None \<Rightarrow> []
   | Some t \<Rightarrow> takeWhile (\<lambda>i. odata (t i) \<noteq> None) (objs m ty k))"

lemma u8_index:
  assumes "k \<le> unat (cnt :: u8)"
  shows "(of_nat k :: u8) \<ge> cnt \<longleftrightarrow> k = unat cnt" and "unat (of_nat k :: u8) = k"
proof -
  have "k < 2 ^ 8" using assms unat_u8_bound [of cnt] by simp
  then show u: "unat (of_nat k :: u8) = k" by (simp add: unat_of_nat take_bit_nat_eq_self)
  show "(of_nat k :: u8) \<ge> cnt \<longleftrightarrow> k = unat cnt" using assms u by (auto simp: word_le_nat_alt)
qed

definition first_obj :: "(u8 \<Rightarrow> oid_s) \<Rightarrow> otype \<Rightarrow> nat \<Rightarrow> nat \<Rightarrow> nat option" where
  "first_obj t ty k cnt = find (\<lambda>i. otyp (t (of_nat i)) = Some ty) [k..<cnt]"

lemma first_obj_step:
  "k < cnt \<Longrightarrow> first_obj t ty k cnt = (if otyp (t (of_nat k)) = Some ty then Some k else first_obj t ty (Suc k) cnt)"
  "\<not> k < cnt \<Longrightarrow> first_obj t ty k cnt = None"
  by (simp_all add: first_obj_def upt_rec [of k])

lemma oid_next_spec:
  assumes "oids m = Some t" and "k \<le> unat (oid_count m)" and "unat (oid_count m) - k < n"
  shows "oid_next n (of_nat k - 1) ty m =
    Ok (map_option (\<lambda>i. (of_nat i, odata (t (of_nat i)))) (first_obj t ty k (unat (oid_count m)))) m"
  using assms(2-)
proof (induction n arbitrary: k)
  case (Suc n)
  note ix = u8_index [OF Suc.prems(1)]
  show ?case
  proof (cases "k = unat (oid_count m)")
    case True
    then show ?thesis using ix by (simp add: first_obj_step)
  next
    case False
    have "oid_next n (of_nat (Suc k) - 1) ty m =
        Ok (map_option (\<lambda>i. (of_nat i, odata (t (of_nat i)))) (first_obj t ty (Suc k) (unat (oid_count m)))) m"
      by (rule Suc.IH) (use Suc.prems False in auto)
    then show ?thesis
      using False ix Suc.prems assms(1) by (simp add: first_obj_step Let_def)
  qed
qed simp

lemma first_obj_objs:
  assumes "oids m = Some t" and "k \<le> unat (oid_count m)"
  shows "objs m ty k = (case first_obj t ty k (unat (oid_count m)) of
      None \<Rightarrow> [] | Some i \<Rightarrow> of_nat i # objs m ty (Suc i))"
    and "first_obj t ty k (unat (oid_count m)) = Some i \<Longrightarrow> i < unat (oid_count m) \<and> k \<le> i"
proof -
  have "objs m ty k = (case first_obj t ty k (unat (oid_count m)) of
      None \<Rightarrow> [] | Some i \<Rightarrow> of_nat i # objs m ty (Suc i)) \<and>
    (\<forall>i. first_obj t ty k (unat (oid_count m)) = Some i \<longrightarrow> i < unat (oid_count m) \<and> k \<le> i)"
    using assms(2)
  proof (induction "unat (oid_count m) - k" arbitrary: k)
    case 0
    then show ?case using assms(1) by (simp add: first_obj_step objs_def)
  next
    case (Suc d)
    then have k: "k < unat (oid_count m)" by simp
    have ks: "[k..<unat (oid_count m)] = k # [Suc k..<unat (oid_count m)]" by (simp add: upt_rec [of k] k)
    have obj: "objs m ty k = (if otyp (t (of_nat k)) = Some ty then of_nat k # objs m ty (Suc k) else objs m ty (Suc k))"
      using assms(1) by (simp add: objs_def ks)
    show ?case
    proof (cases "otyp (t (of_nat k)) = Some ty")
      case True
      then show ?thesis using obj k by (simp add: first_obj_step)
    next
      case False
      moreover have "objs m ty (Suc k) = (case first_obj t ty (Suc k) (unat (oid_count m)) of
          None \<Rightarrow> [] | Some i \<Rightarrow> of_nat i # objs m ty (Suc i)) \<and>
        (\<forall>i. first_obj t ty (Suc k) (unat (oid_count m)) = Some i \<longrightarrow> i < unat (oid_count m) \<and> Suc k \<le> i)"
        by (rule Suc.hyps(1)) (use Suc.hyps(2) k in auto)
      moreover have "first_obj t ty k (unat (oid_count m)) = first_obj t ty (Suc k) (unat (oid_count m))"
        using False k by (simp add: first_obj_step)
      moreover have "objs m ty k = objs m ty (Suc k)" using obj False by simp
      ultimately show ?thesis by (metis Suc_leD)
    qed
  qed
  then show "objs m ty k = (case first_obj t ty k (unat (oid_count m)) of
      None \<Rightarrow> [] | Some i \<Rightarrow> of_nat i # objs m ty (Suc i))"
    and "first_obj t ty k (unat (oid_count m)) = Some i \<Longrightarrow> i < unat (oid_count m) \<and> k \<le> i"
    by blast+
qed

text \<open>A loop body that leaves the table of objects alone.\<close>

definition keeps_oids :: "(u8 \<Rightarrow> ('e, unit) bfw) \<Rightarrow> bool" where
  "keeps_oids body \<longleftrightarrow> (\<forall>i m m'. body i m = Ok () m' \<longrightarrow> oids m' = oids m \<and> oid_count m' = oid_count m)"

lemma foreach_loop_spec:
  fixes body :: "u8 \<Rightarrow> ('e, unit) bfw"
  assumes "oids m = Some t" and "k \<le> unat (oid_count m)" and "unat (oid_count m) - k < n"
    and body: "keeps_oids body"
  shows "foreach_oid_loop n (of_nat k - 1) ty body m = seqM (map body (reached_objs m ty k)) m"
  using assms(1-3)
proof (induction n arbitrary: k m)
  case (Suc n)
  let ?c = "unat (oid_count m)"
  have "?c < 2 ^ 8" using unat_u8_bound [of "oid_count m"] by simp
  then have nx: "oid_next 256 (of_nat k - 1) ty m =
      Ok (map_option (\<lambda>i. (of_nat i, odata (t (of_nat i)))) (first_obj t ty k ?c)) m"
    using Suc.prems by (intro oid_next_spec) auto
  show ?case
  proof (cases "first_obj t ty k ?c")
    case None
    then show ?thesis
      using nx first_obj_objs(1) [OF Suc.prems(1,2), of ty] Suc.prems(1) by (simp add: reached_objs_def)
  next
    case (Some i)
    have i: "i < ?c" "k \<le> i" using first_obj_objs(2) [OF Suc.prems(1,2) Some] by auto
    have ob: "objs m ty k = of_nat i # objs m ty (Suc i)"
      using first_obj_objs(1) [OF Suc.prems(1,2), of ty] Some by simp
    show ?thesis
    proof (cases "odata (t (of_nat i)) = None")
      case True
      then show ?thesis using nx Some ob Suc.prems(1) by (simp add: reached_objs_def)
    next
      case False
      have re: "reached_objs m ty k = of_nat i # reached_objs m ty (Suc i)"
        using False ob Suc.prems(1) by (simp add: reached_objs_def)
      show ?thesis
      proof (cases "body (of_nat i) m")
        case (Ok a m')
        then have same: "oids m' = oids m" "oid_count m' = oid_count m"
          using body unfolding keeps_oids_def by auto
        have "foreach_oid_loop n (of_nat (Suc i) - 1) ty body m' = seqM (map body (reached_objs m' ty (Suc i))) m'"
          by (rule Suc.IH) (use Suc.prems i same in auto)
        moreover have "reached_objs m' ty (Suc i) = reached_objs m ty (Suc i)"
          using same by (simp add: reached_objs_def objs_def split: option.split)
        ultimately show ?thesis using nx Some False re Ok by auto
      next
        case (Shutdown r m')
        then show ?thesis using nx Some False re by (auto simp: thn_app)
      next
        case Undef
        then show ?thesis using nx Some False re by (auto simp: thn_app)
      qed
    qed
  qed
qed simp

lemma foreach_oid_spec:
  assumes "oids m = Some t" and "keeps_oids body"
  shows "foreach_oid ty body m = seqM (map body (reached_objs m ty 0)) m"
proof -
  have "unat (oid_count m) < 2 ^ 8" using unat_u8_bound [of "oid_count m"] by simp
  then show ?thesis
    using foreach_loop_spec [OF assms(1) _ _ assms(2), of 0 256 ty] by (simp add: foreach_oid_def)
qed

lemma foreach_oid_none: "oid_count m = 0 \<Longrightarrow> foreach_oid ty body m = Ok () m"
proof -
  assume "oid_count m = 0"
  then have "oid_next 256 (-1) ty m = Ok None m" by (simp add: eval_nat_numeral)
  then show ?thesis by (simp add: foreach_oid_def eval_nat_numeral)
qed

subsection \<open>Properties\<close>

text \<open>
  \<^verbatim>\<open>foreach_oid\<close> is complete.  As long as no object of the type has a NULL data pointer
  and the loop body leaves the table of objects alone, the loop runs the body exactly once
  for every object of the type, in the order of the oids, and stops early only if the body
  does.
\<close>

theorem foreach_oid_visits_all:
  assumes "oids m = Some t" and "keeps_oids body"
    and "\<forall>i < unat (oid_count m). otyp (t (of_nat i)) = Some ty \<longrightarrow> odata (t (of_nat i)) \<noteq> None"
  shows "foreach_oid ty body m =
    seqM (map body (filter (\<lambda>i. otyp (t i) = Some ty) (map of_nat [0..<unat (oid_count m)]))) m"
proof -
  have "takeWhile (\<lambda>i. odata (t i) \<noteq> None) (objs m ty 0) = objs m ty 0"
    by (rule takeWhile_eq_all_conv [THEN iffD2]) (use assms(1,3) in \<open>auto simp: objs_def\<close>)
  then have "reached_objs m ty 0 = objs m ty 0" using assms(1) by (simp only: reached_objs_def option.case)
  then show ?thesis
    using foreach_oid_spec [OF assms(1,2), of ty] assms(1) by (simp add: objs_def)
qed

definition sample_oids :: "nat \<Rightarrow> basecmd_state" where
  "sample_oids e = sample_base\<lparr>alloc_end := e, oid_count := 3,
     oids := Some (\<lambda>i. if i = 1 then \<lparr>otyp = None, odata = None\<rparr>
                       else \<lparr>otyp = Some config_trsync, odata = Some 0x1020\<rparr>)\<rparr>"

definition sample_body :: "u8 \<Rightarrow> (unit, unit) bfw" where
  "sample_body i = emit (GpioOutWrite (to_u32 i) False)"

lemma sample_body_keeps: "keeps_oids sample_body"
  by (auto simp: keeps_oids_def sample_body_def)

lemma upto_3: "[0..<3] = [0, 1, 2 :: nat]"
  by (simp add: upt_rec)

theorem foreach_oid_visits_all_witness:
  "foreach_oid config_trsync sample_body (sample_oids 0x1020) =
     seqM [sample_body 0, sample_body 2] (sample_oids 0x1020)"
proof -
  have "\<forall>i < unat (oid_count (sample_oids 0x1020)).
      otyp ((\<lambda>i. if i = 1 then \<lparr>otyp = None, odata = None\<rparr>
             else \<lparr>otyp = Some config_trsync, odata = Some 0x1020\<rparr>) (of_nat i :: u8)) = Some config_trsync \<longrightarrow>
      odata ((\<lambda>i. if i = 1 then \<lparr>otyp = None, odata = None\<rparr>
             else \<lparr>otyp = Some config_trsync, odata = Some 0x1020\<rparr>) (of_nat i :: u8)) \<noteq> None"
    by simp
  from foreach_oid_visits_all [OF _ sample_body_keeps this] show ?thesis
    by (simp add: sample_oids_def upto_3)
qed

lemma filter_upto_split:
  assumes "i < n"
  shows "[0..<n] = [0..<i] @ i # [Suc i..<n]"
proof -
  have "[0..<i + (n - i)] = [0..<i] @ [i..<i + (n - i)]" by (rule upt_add_eq_append) simp
  then show ?thesis using assms by (simp add: upt_conv_Cons)
qed

text \<open>
  C26: a failed \<^verbatim>\<open>oid_alloc\<close> cuts \<^verbatim>\<open>foreach_oid\<close> short.  \<^verbatim>\<open>oid_alloc\<close> stores the type of the
  object before it asks for memory.  If the memory is exhausted, the shutdown handlers run
  with an entry that has a type but no data, and every loop over that type ends there: the
  objects of the type with a higher oid are not visited.
\<close>

theorem foreach_oid_cut_by_failed_alloc:
  assumes "oid_alloc oid ty m = Shutdown ''alloc_chunk failed'' m'" and "keeps_oids body"
    and "oids m = Some t" and "\<forall>i. otyp (t i) = None \<longrightarrow> odata (t i) = None"
  shows "\<exists>js. foreach_oid ty body m' = seqM (map body js) m' \<and> (\<forall>j \<in> set js. j < oid)"
proof -
  let ?t = "t(oid := (t oid)\<lparr>otyp := Some ty\<rparr>)" and ?c = "unat (oid_count m)"
  have o: "oid < oid_count m" "otyp (t oid) = None" "oids m' = Some ?t" "oid_count m' = oid_count m"
    using assms(1,3)
    by (auto simp: oid_alloc_def oid_alloc_sized_def sched_shutdown_def alloc_chunk_app bnd_app thn_app not_le
        split: if_splits res.splits)
  let ?i = "unat oid"
  have i: "?i < ?c" using o(1) by (simp add: word_less_nat_alt)
  let ?P = "\<lambda>i. otyp (?t i) = Some ty"
  have "objs m' ty 0 = filter ?P (map of_nat [0..<?i]) @ oid # filter ?P (map of_nat [Suc ?i..<?c])"
    using o(3,4) by (simp add: objs_def filter_upto_split [OF i])
  moreover have "odata (?t oid) = None" using assms(4) o(2) by simp
  ultimately have "set (reached_objs m' ty 0) \<subseteq> set (filter ?P (map of_nat [0..<?i]))"
    using o(3) by (auto simp: reached_objs_def takeWhile_append dest: set_takeWhileD split: if_splits)
  moreover have "j < oid" if "j \<in> set (map of_nat [0..<?i])" for j :: u8
    using that i unat_u8_bound [of oid]
    by (auto simp: word_less_nat_alt unat_of_nat take_bit_nat_eq_self)
  ultimately show ?thesis
    using foreach_oid_spec [OF o(3) assms(2), of ty]
    by (intro exI [of _ "reached_objs m' ty 0"]) auto
qed

theorem foreach_oid_cut_by_failed_alloc_witness:
  "\<exists>m' js. oid_alloc 1 config_trsync (sample_oids 0x4ff0) = Shutdown ''alloc_chunk failed'' m' \<and>
     foreach_oid config_trsync sample_body m' = seqM (map sample_body js) m' \<and> 2 \<notin> set js"
proof -
  have "\<exists>m'. oid_alloc 1 config_trsync (sample_oids 0x4ff0) = Shutdown ''alloc_chunk failed'' m'"
    by (simp add: oid_alloc_def oid_alloc_sized_def sample_oids_def sample_base_defs alloc_chunk_app is_finalized_def
        word_le_nat_alt bnd_app thn_app)
  then obtain m' where m': "oid_alloc 1 config_trsync (sample_oids 0x4ff0) = Shutdown ''alloc_chunk failed'' m'"
    by blast
  have "\<exists>js. foreach_oid config_trsync sample_body m' = seqM (map sample_body js) m' \<and> (\<forall>j \<in> set js. j < 1)"
    by (rule foreach_oid_cut_by_failed_alloc [OF m' sample_body_keeps]) (auto simp: sample_oids_def split: if_splits)
  then obtain js where "foreach_oid config_trsync sample_body m' = seqM (map sample_body js) m'" "\<forall>j \<in> set js. j < 1"
    by blast
  then show ?thesis using m' by (intro exI [of _ m'] exI [of _ js]) auto
qed

end
