(* ===== verification/Crc16.thy ===== *)
theory Crc16
  imports Prelude
begin

text \<open>
  The checksum of message blocks: \<^verbatim>\<open>crc16_ccitt\<close> of the firmware
  (\<^verbatim>\<open>src/generic/crc16_ccitt.c\<close>) and \<^verbatim>\<open>msgblock_crc16_ccitt\<close> of the host
  (\<^verbatim>\<open>klippy/chelper/msgblock.c\<close>).  Both are byte-wise shortcuts; the reference they
  are compared with is the bit-serial CRC with the reflected CCITT polynomial
  \<open>0x8408\<close>.
\<close>

subsection \<open>The byte-wise routine\<close>

definition crc_step :: "u16 \<Rightarrow> u8 \<Rightarrow> u16" where
  "crc_step crc b =
     (let data = b XOR to_u8 (crc AND 0xff);
          data' = data XOR push_bit 4 data
      in (push_bit 8 (to_u16 data') OR drop_bit 8 crc)
           XOR to_u16 (drop_bit 4 data') XOR push_bit 3 (to_u16 data'))"

fun crc_loop :: "u16 \<Rightarrow> u8 list \<Rightarrow> u16" where
  "crc_loop crc [] = crc"
| "crc_loop crc (b # bs) = crc_loop (crc_step crc b) bs"

definition crc16_ccitt :: "u8 list \<Rightarrow> nat \<Rightarrow> u16" where
  "crc16_ccitt buf len = crc_loop 0xffff (take len buf)"

text \<open>The host's copy of the routine.\<close>

fun msgblock_crc_loop :: "u16 \<Rightarrow> u8 list \<Rightarrow> u16" where
  "msgblock_crc_loop crc [] = crc"
| "msgblock_crc_loop crc (b # bs) =
     (let data = b XOR to_u8 (crc AND 0xff);
          data' = data XOR push_bit 4 data
      in msgblock_crc_loop
           ((push_bit 8 (to_u16 data') OR drop_bit 8 crc)
             XOR to_u16 (drop_bit 4 data') XOR push_bit 3 (to_u16 data')) bs)"

definition msgblock_crc16_ccitt :: "u8 list \<Rightarrow> nat \<Rightarrow> u16" where
  "msgblock_crc16_ccitt buf len = msgblock_crc_loop 0xffff (take len buf)"

lemma msgblock_crc_loop_eq: "msgblock_crc_loop crc bs = crc_loop crc bs"
  by (induction bs arbitrary: crc) (simp_all add: crc_step_def Let_def)

lemma msgblock_crc16_eq: "msgblock_crc16_ccitt buf len = crc16_ccitt buf len"
  by (simp add: msgblock_crc16_ccitt_def crc16_ccitt_def msgblock_crc_loop_eq)

lemma crc_loop_append: "crc_loop crc (xs @ ys) = crc_loop (crc_loop crc xs) ys"
  by (induction xs arbitrary: crc) simp_all

subsection \<open>The bit-serial reference\<close>

definition crc_bit :: "u16 \<Rightarrow> u16" where
  "crc_bit c = (if bit c 0 then drop_bit 1 c XOR 0x8408 else drop_bit 1 c)"

definition crc_byte :: "u16 \<Rightarrow> u16" where
  "crc_byte c = crc_bit (crc_bit (crc_bit (crc_bit (crc_bit (crc_bit (crc_bit (crc_bit c)))))))"

fun crc_ref :: "u16 \<Rightarrow> u8 list \<Rightarrow> u16" where
  "crc_ref c [] = c"
| "crc_ref c (b # bs) = crc_ref (crc_byte (c XOR to_u16 b)) bs"

lemma crc_bit_xor: "crc_bit (a XOR b) = crc_bit a XOR crc_bit b"
  by (auto simp: crc_bit_def bit_xor_iff drop_bit_xor ac_simps)

lemma crc_byte_xor: "crc_byte (a XOR b) = crc_byte a XOR crc_byte b"
  by (simp add: crc_byte_def crc_bit_xor)

lemma crc_bit_eq_0: "crc_bit c = 0 \<longleftrightarrow> c = 0"
proof
  assume eq: "crc_bit c = 0"
  have top: "bit (crc_bit c) 15 = bit c 0"
    by (auto simp: crc_bit_def bit_simps dest: bit_imp_le_length)
  with eq have "\<not> bit c 0" by simp
  moreover from this eq have "drop_bit 1 c = 0"
    by (simp add: crc_bit_def)
  ultimately show "c = 0"
  proof -
    assume low: "\<not> bit c 0" and high: "drop_bit 1 c = 0"
    have "\<not> bit c n" for n
    proof (cases n)
      case 0
      with low show ?thesis by simp
    next
      case (Suc m)
      have "bit (drop_bit 1 c) m = bit c (Suc m)" by (simp add: bit_drop_bit_eq)
      with high Suc show ?thesis by simp
    qed
    then show ?thesis by (simp add: bit_eq_iff)
  qed
qed (simp add: crc_bit_def)

lemma crc_byte_eq_0: "crc_byte c = 0 \<longleftrightarrow> c = 0"
  by (simp add: crc_byte_def crc_bit_eq_0)

lemma xor_eq_0_word: "a XOR b = 0 \<longleftrightarrow> a = b" for a b :: "'a::len word"
  by (metis xor.assoc xor.left_neutral xor.right_neutral xor_self_eq)

lemma crc_byte_inj: "crc_byte a = crc_byte b \<longleftrightarrow> a = b"
  by (metis crc_byte_eq_0 crc_byte_xor xor_eq_0_word)

subsection \<open>The byte-wise routine computes the reference\<close>

text \<open>The byte-wise routine looks only at the eight values its low byte can shift out.\<close>

definition crc_low :: "u8 \<Rightarrow> u16" where
  "crc_low e = (let d = e XOR push_bit 4 e
     in push_bit 8 (to_u16 d) XOR to_u16 (drop_bit 4 d) XOR push_bit 3 (to_u16 d))"

lemma byte_bits:
  "e = (if bit e 0 then 1 else 0) XOR (if bit e 1 then 2 else 0) XOR
       (if bit e 2 then 4 else 0) XOR (if bit e 3 then 8 else 0) XOR
       (if bit e 4 then 16 else 0) XOR (if bit e 5 then 32 else 0) XOR
       (if bit e 6 then 64 else 0) XOR (if bit e 7 then 128 else 0)" (is "e = ?r")
  for e :: u8
proof (rule bit_word_eqI)
  fix n :: nat
  assume "n < LENGTH(8)"
  then have "n = 0 \<or> n = 1 \<or> n = 2 \<or> n = 3 \<or> n = 4 \<or> n = 5 \<or> n = 6 \<or> n = 7"
    by auto
  then show "bit e n = bit ?r n"
    by (elim disjE) (simp_all add: bit_simps)
qed

text \<open>Two maps that respect \<open>XOR\<close> are equal when they agree on the eight single bits.\<close>

lemma xor_linear_bits:
  fixes f :: "u8 \<Rightarrow> u16"
  assumes lin: "\<And>a b. f (a XOR b) = f a XOR f b"
  shows "f e = (if bit e 0 then f 1 else 0) XOR (if bit e 1 then f 2 else 0) XOR
       (if bit e 2 then f 4 else 0) XOR (if bit e 3 then f 8 else 0) XOR
       (if bit e 4 then f 16 else 0) XOR (if bit e 5 then f 32 else 0) XOR
       (if bit e 6 then f 64 else 0) XOR (if bit e 7 then f 128 else 0)"
proof -
  have "f 0 = 0" using lin [of 0 0] by simp
  then have "f (if b then k else 0) = (if b then f k else 0)" for b k by simp
  with arg_cong [OF byte_bits [of e], of f] show ?thesis
    by (simp only: lin)
qed

lemma xor_linear_eqI:
  fixes f g :: "u8 \<Rightarrow> u16"
  assumes "\<And>a b. f (a XOR b) = f a XOR f b" and "\<And>a b. g (a XOR b) = g a XOR g b"
    and "f 1 = g 1" "f 2 = g 2" "f 4 = g 4" "f 8 = g 8"
      "f 16 = g 16" "f 32 = g 32" "f 64 = g 64" "f 128 = g 128"
  shows "f e = g e"
  using xor_linear_bits [of f e] xor_linear_bits [of g e] assms by simp

lemma crc_low_xor: "crc_low (a XOR b) = crc_low a XOR crc_low b"
  by (simp add: crc_low_def Let_def push_bit_xor drop_bit_xor unsigned_xor_eq ac_simps)

lemma crc_byte_low: "crc_byte (to_u16 e) = crc_low e"
proof (rule xor_linear_eqI [where f = "\<lambda>e. crc_byte (to_u16 e)"])
  show "crc_byte (to_u16 (a XOR b)) = crc_byte (to_u16 a) XOR crc_byte (to_u16 b)" for a b :: u8
    by (simp add: unsigned_xor_eq crc_byte_xor)
  show "crc_low (a XOR b) = crc_low a XOR crc_low b" for a b
    by (rule crc_low_xor)
qed (simp_all add: crc_byte_def crc_bit_def crc_low_def)

lemma crc_low_high_byte:
  assumes "drop_bit 8 (crc_low e) = 0"
  shows "e = 0"
proof -
  have z: "\<not> bit (crc_low e) (8 + n)" for n
  proof -
    have "bit (drop_bit 8 (crc_low e)) n = bit (crc_low e) (8 + n)" by (simp add: bit_drop_bit_eq)
    with assms show ?thesis by simp
  qed
  have "\<not> bit e 0 \<and> \<not> bit e 1 \<and> \<not> bit e 2 \<and> \<not> bit e 3 \<and>
        \<not> bit e 4 \<and> \<not> bit e 5 \<and> \<not> bit e 6 \<and> \<not> bit e 7"
    using z [of 0] z [of 1] z [of 2] z [of 3] z [of 4] z [of 5] z [of 6] z [of 7]
    by (simp add: crc_low_def Let_def bit_simps not_bit_beyond)
  then show ?thesis using byte_bits [of e] by simp
qed

lemma crc_byte_high: "crc_byte (push_bit 8 (drop_bit 8 c)) = drop_bit 8 c"
  for c :: u16
proof -
  let ?x = "drop_bit 8 c"
  have shift: "crc_bit (push_bit k ?x) = push_bit (k - 1) ?x" if "0 < k" "k \<le> 8" for k
  proof -
    have "drop_bit 1 (push_bit k ?x) = push_bit (k - 1) ?x"
    proof (rule bit_word_eqI)
      fix n assume "n < LENGTH(16)"
      have idx: "1 + n - k = n - (k - 1)" using that by simp
      have top: "\<not> bit c (8 + (n - (k - 1)))" if "\<not> n < 15"
        by (rule not_bit_beyond(2)) (use that \<open>k \<le> 8\<close> in simp)
      show "bit (drop_bit 1 (push_bit k ?x)) n = bit (push_bit (k - 1) ?x) n"
      proof (cases "k \<le> 1 + n")
        case True
        then have "k - 1 \<le> n" by simp
        with True top \<open>n < LENGTH(16)\<close> show ?thesis
          by (auto simp add: bit_drop_bit_eq bit_push_bit_iff idx simp del: One_nat_def)
      next
        case False
        then have "\<not> k - 1 \<le> n" by simp
        with False show ?thesis
          by (simp add: bit_drop_bit_eq bit_push_bit_iff del: One_nat_def)
      qed
    qed
    then show ?thesis using that by (simp add: crc_bit_def bit_push_bit_iff)
  qed
  show ?thesis
    using shift [of 1] shift [of 2] shift [of 3] shift [of 4]
      shift [of 5] shift [of 6] shift [of 7] shift [of 8]
    by (simp add: crc_byte_def)
qed

lemma low_byte_split: "c = push_bit 8 (drop_bit 8 c) XOR to_u16 (to_u8 (c AND 0xff))"
  for c :: u16
proof -
  have "(0xff :: u16) = mask 8" by (simp add: mask_eq_exp_minus_1)
  then show ?thesis by (auto simp: bit_eq_iff bit_simps not_bit_beyond)
qed

lemma crc_step_ref: "crc_step crc b = crc_byte (crc XOR to_u16 b)"
proof -
  let ?low = "to_u8 (crc AND 0xff)"
  have "crc XOR to_u16 b = push_bit 8 (drop_bit 8 crc) XOR to_u16 (?low XOR b)"
    by (subst (1) low_byte_split [of crc]) (simp add: unsigned_xor_eq ac_simps)
  then have "crc_byte (crc XOR to_u16 b) = drop_bit 8 crc XOR crc_low (b XOR ?low)"
    by (simp add: crc_byte_xor crc_byte_high crc_byte_low xor.commute [of ?low b])
  moreover have "push_bit 8 (to_u16 d) OR drop_bit 8 crc = push_bit 8 (to_u16 d) XOR drop_bit 8 crc"
    for d :: u8
    by (auto simp: bit_eq_iff bit_simps not_bit_beyond)
  ultimately show ?thesis
    by (simp add: crc_step_def crc_low_def Let_def ac_simps)
qed

lemma crc_loop_ref: "crc_loop crc bs = crc_ref crc bs"
  by (induction bs arbitrary: crc) (simp_all add: crc_step_ref)

lemma crc_loop_inj: "crc_loop c bs = crc_loop c' bs \<longleftrightarrow> c = c'"
proof (induction bs arbitrary: c c')
  case Nil
  then show ?case by simp
next
  case (Cons b bs)
  have "c XOR to_u16 b = c' XOR to_u16 b \<longleftrightarrow> c = c'"
    by (metis xor.assoc xor.right_neutral xor_self_eq)
  with Cons.IH show ?case by (simp add: crc_step_ref crc_byte_inj)
qed

lemma to_u16_inj: "to_u16 a = to_u16 b \<longleftrightarrow> a = b" for a b :: u8
proof
  assume "to_u16 a = to_u16 b"
  then have "to_u8 (to_u16 a) = to_u8 (to_u16 b)" by simp
  then show "a = b" by (simp add: ucast_up_ucast_id is_up)
qed simp

lemma xor_swap: "p XOR b = q XOR b' \<Longrightarrow> p XOR q = b XOR b'" for p q b b' :: "'a::len word"
  by (simp add: bit_eq_iff bit_xor_iff) blast

lemma crc_two_bytes_inj:
  assumes "crc_loop c [a, b] = crc_loop c [a', b']"
  shows "a = a' \<and> b = b'"
proof -
  from assms have "crc_byte (c XOR to_u16 a) XOR to_u16 b = crc_byte (c XOR to_u16 a') XOR to_u16 b'"
    by (simp add: crc_step_ref crc_byte_inj)
  then have "crc_byte (c XOR to_u16 a) XOR crc_byte (c XOR to_u16 a') = to_u16 b XOR to_u16 b'"
    by (rule xor_swap)
  moreover have "(c XOR to_u16 a) XOR (c XOR to_u16 a') = to_u16 (a XOR a')"
    by (auto simp: bit_eq_iff bit_simps)
  then have "crc_byte (c XOR to_u16 a) XOR crc_byte (c XOR to_u16 a') = crc_low (a XOR a')"
    by (metis crc_byte_xor crc_byte_low)
  ultimately have eq: "crc_low (a XOR a') = to_u16 (b XOR b')"
    by (simp add: unsigned_xor_eq)
  moreover have "drop_bit 8 (to_u16 (b XOR b')) = 0"
    by (auto simp: bit_eq_iff bit_simps not_bit_beyond)
  ultimately have "a XOR a' = 0" by (metis crc_low_high_byte)
  then have "a = a'" by (simp add: xor_eq_0_word)
  moreover from this eq have "to_u16 b = to_u16 b'"
    by (simp add: crc_low_def xor_eq_0_word unsigned_xor_eq)
  ultimately show ?thesis by (simp add: to_u16_inj)
qed

lemma crc_burst:
  assumes "(a, b) \<noteq> (a', b')"
  shows "crc_loop c (pre @ [a, b] @ post) \<noteq> crc_loop c (pre @ [a', b'] @ post)"
proof
  assume "crc_loop c (pre @ [a, b] @ post) = crc_loop c (pre @ [a', b'] @ post)"
  then have "crc_loop (crc_loop c pre) [a, b] = crc_loop (crc_loop c pre) [a', b']"
    by (simp only: crc_loop_append crc_loop_inj)
  then show False using crc_two_bytes_inj assms by blast
qed

lemma crc16_differs:
  assumes "length a = 2" and "length b = 2" and "a \<noteq> b" and "length pre + 2 \<le> len"
  shows "crc16_ccitt (pre @ a @ post) len \<noteq> crc16_ccitt (pre @ b @ post) len"
proof -
  obtain a1 a2 where a: "a = [a1, a2]" using assms(1) by (auto simp: eval_nat_numeral length_Suc_conv)
  obtain b1 b2 where b: "b = [b1, b2]" using assms(2) by (auto simp: eval_nat_numeral length_Suc_conv)
  obtain k where k: "len = length pre + 2 + k" using assms(4) le_Suc_ex by blast
  have t: "take len (pre @ c @ post) = pre @ c @ take k post" if "length c = 2" for c
    using that by (simp add: k)
  have "crc_loop 0xffff (pre @ a @ take k post) \<noteq> crc_loop 0xffff (pre @ b @ take k post)"
    unfolding a b by (rule crc_burst) (use assms(3) a b in simp)
  then show ?thesis unfolding crc16_ccitt_def t [OF assms(1)] t [OF assms(2)] .
qed

subsection \<open>Properties\<close>

text \<open>
  C22: the byte-wise checksum of the firmware and the host's copy of it both compute the
  bit-serial CRC-16 with the reflected CCITT polynomial, for every buffer and length.
\<close>

theorem crc16_is_ccitt:
  "crc16_ccitt buf len = crc_ref 0xffff (take len buf) \<and>
   msgblock_crc16_ccitt buf len = crc_ref 0xffff (take len buf)"
  by (simp add: msgblock_crc16_eq crc16_ccitt_def crc_loop_ref)

text \<open>
  Error detection.  Two buffers that differ only within two consecutive bytes never
  have the same checksum, so every burst of up to 16 wrong bits aligned on bytes, and
  every single wrong byte, is detected.
\<close>

theorem crc16_detects_burst:
  assumes "length a = 2" and "length b = 2" and "a \<noteq> b" and "length pre + 2 \<le> len"
  shows "crc16_ccitt (pre @ a @ post) len \<noteq> crc16_ccitt (pre @ b @ post) len"
  by (rule crc16_differs [OF assms])

theorem crc16_detects_burst_witness:
  "crc16_ccitt ([5] @ [1, 2] @ [3]) 4 \<noteq> crc16_ccitt ([5] @ [1, 0] @ [3]) 4"
  by (rule crc16_detects_burst) simp_all

end
