(* ===== verification/Vlq.thy ===== *)
theory Vlq
  imports Prelude
begin

text \<open>
  Variable length quantities, the integer encoding of message contents:
  \<^verbatim>\<open>encode_int\<close> and \<^verbatim>\<open>parse_int\<close> of the firmware (\<^verbatim>\<open>src/command.c\<close>) and
  their copies in the host (\<^verbatim>\<open>klippy/chelper/msgblock.c\<close>).  A buffer is a list of
  bytes and a pointer into it an index; reading past the end of the buffer is
  undefined in C and \<open>None\<close> here.
\<close>

subsection \<open>Definitions\<close>

definition encode_int :: "u32 \<Rightarrow> u8 list" where
  "encode_int v =
     (let sv = sint v;
          f4 = [to_u8 (v AND 0x7f)];
          f3 = to_u8 ((drop_bit 7 v AND 0x7f) OR 0x80) # f4;
          f2 = to_u8 ((drop_bit 14 v AND 0x7f) OR 0x80) # f3;
          f1 = to_u8 ((drop_bit 21 v AND 0x7f) OR 0x80) # f2;
          f0 = to_u8 (drop_bit 28 v OR 0x80) # f1
      in if sv < 3 * 2 ^ 5 \<and> sv \<ge> - (2 ^ 5) then f4
         else if sv < 3 * 2 ^ 12 \<and> sv \<ge> - (2 ^ 12) then f3
         else if sv < 3 * 2 ^ 19 \<and> sv \<ge> - (2 ^ 19) then f2
         else if sv < 3 * 2 ^ 26 \<and> sv \<ge> - (2 ^ 26) then f1
         else f0)"

function parse_int_loop :: "u8 list \<Rightarrow> nat \<Rightarrow> u8 \<Rightarrow> u32 \<Rightarrow> (u32 \<times> nat) option" where
  "parse_int_loop buf p c v =
     (if c AND 0x80 \<noteq> 0 then
        if p < length buf then
          parse_int_loop buf (p + 1) (buf ! p) (push_bit 7 v OR to_u32 (buf ! p AND 0x7f))
        else None
      else Some (v, p))"
  by pat_completeness auto
termination
  by (relation "measure (\<lambda>(buf, p, c, v). length buf - p)") auto

declare parse_int_loop.simps [simp del]

definition parse_int :: "u8 list \<Rightarrow> nat \<Rightarrow> (u32 \<times> nat) option" where
  "parse_int buf p =
     (if p < length buf then
        let c = buf ! p;
            v = to_u32 (c AND 0x7f);
            v' = (if c AND 0x60 = 0x60 then v OR (- 0x20) else v)
        in parse_int_loop buf (p + 1) c v'
      else None)"

subsection \<open>How far the parser reads\<close>

lemma parse_int_loop_stop: "c AND 0x80 = 0 \<Longrightarrow> parse_int_loop buf p c v = Some (v, p)"
  by (subst parse_int_loop.simps) simp

lemma parse_int_loop_more:
  "c AND 0x80 \<noteq> 0 \<Longrightarrow> p < length buf \<Longrightarrow> parse_int_loop buf p c v =
     parse_int_loop buf (p + 1) (buf ! p) (push_bit 7 v OR to_u32 (buf ! p AND 0x7f))"
  by (subst parse_int_loop.simps) simp

lemma parse_int_loop_bounded:
  assumes "p \<le> e" and "e < length buf" and "buf ! e AND 0x80 = 0"
  shows "\<exists>r q. parse_int_loop buf p c v = Some (r, q) \<and> p \<le> q \<and> q \<le> e + 1"
  using assms
proof (induction buf p c v rule: parse_int_loop.induct)
  case (1 buf p c v)
  show ?case
  proof (cases "c AND 0x80 \<noteq> 0")
    case False
    with "1.prems" show ?thesis by (simp add: parse_int_loop_stop)
  next
    case True
    let ?v = "push_bit 7 v OR to_u32 (buf ! p AND 0x7f)"
    have step: "parse_int_loop buf p c v = parse_int_loop buf (p + 1) (buf ! p) ?v"
      using True "1.prems" by (simp add: parse_int_loop_more)
    show ?thesis
    proof (cases "p = e")
      case True
      with "1.prems" step show ?thesis by (simp add: parse_int_loop_stop)
    next
      case False
      with "1.prems" have "p + 1 \<le> e" "p < length buf" by simp_all
      with "1.IH" [OF True] "1.prems" step show ?thesis by fastforce
    qed
  qed
qed

lemma parse_int_bounded:
  assumes "p \<le> e" and "e < length buf" and "buf ! e AND 0x80 = 0"
  shows "\<exists>r q. parse_int buf p = Some (r, q) \<and> p < q \<and> q \<le> e + 1"
proof (cases "p = e")
  case True
  with assms show ?thesis by (simp add: parse_int_def Let_def parse_int_loop_stop)
next
  case False
  with assms have "p + 1 \<le> e" by simp
  from parse_int_loop_bounded [OF this assms(2,3)] assms show ?thesis
    by (fastforce simp: parse_int_def Let_def)
qed

lemma parse_int_advances: "parse_int buf p = Some (v, q) \<Longrightarrow> p < q \<and> q \<le> length buf"
proof -
  have loop: "parse_int_loop buf p c v = Some (r, q) \<Longrightarrow> p \<le> length buf \<Longrightarrow> p \<le> q \<and> q \<le> length buf"
    for p c v r q
    by (induction buf p c v rule: parse_int_loop.induct)
      (subst (asm) parse_int_loop.simps, fastforce split: if_splits)
  assume "parse_int buf p = Some (v, q)"
  then show ?thesis by (auto simp: parse_int_def Let_def dest!: loop split: if_splits)
qed

subsection \<open>Round trip\<close>

text \<open>The bytes after the first are shifted in seven bits at a time.\<close>

fun shift_in :: "u32 \<Rightarrow> u8 list \<Rightarrow> u32" where
  "shift_in v [] = v"
| "shift_in v (b # bs) = shift_in (push_bit 7 v OR to_u32 (b AND 0x7f)) bs"

lemma parse_int_loop_run:
  assumes "c AND 0x80 \<noteq> 0" and "\<forall>x \<in> set xs. x AND 0x80 \<noteq> 0" and "y AND 0x80 = 0"
  shows "parse_int_loop (pre @ xs @ y # post) (length pre) c v =
    Some (shift_in v (xs @ [y]), length pre + length xs + 1)"
  using assms
proof (induction xs arbitrary: pre c v)
  case Nil
  then show ?case
    by (simp add: parse_int_loop_more parse_int_loop_stop)
next
  case (Cons x xs)
  have "parse_int_loop (pre @ (x # xs) @ y # post) (length pre) c v =
      parse_int_loop ((pre @ [x]) @ xs @ y # post) (length (pre @ [x])) x
        (push_bit 7 v OR to_u32 (x AND 0x7f))"
    using Cons.prems by (simp add: parse_int_loop_more)
  also have "\<dots> = Some (shift_in (push_bit 7 v OR to_u32 (x AND 0x7f)) (xs @ [y]),
      length (pre @ [x]) + length xs + 1)"
    using Cons.prems by (intro Cons.IH) simp_all
  finally show ?case by simp
qed

definition first_value :: "u8 \<Rightarrow> u32" where
  "first_value c = (if c AND 0x60 = 0x60 then to_u32 (c AND 0x7f) OR (- 0x20) else to_u32 (c AND 0x7f))"

lemma parse_int_one:
  assumes "y AND 0x80 = 0"
  shows "parse_int (pre @ [y] @ post) (length pre) = Some (first_value y, length pre + 1)"
  using assms by (simp add: parse_int_def first_value_def parse_int_loop_stop Let_def)

lemma parse_int_many:
  assumes "x AND 0x80 \<noteq> 0" and "\<forall>x \<in> set xs. x AND 0x80 \<noteq> 0" and "y AND 0x80 = 0"
  shows "parse_int (pre @ (x # xs @ [y]) @ post) (length pre) =
    Some (shift_in (first_value x) (xs @ [y]), length pre + length (x # xs @ [y]))"
  using parse_int_loop_run [OF assms, of "pre @ [x]" post "first_value x"]
  by (simp add: parse_int_def first_value_def Let_def nth_append)

text \<open>
  In the range tested for an encoding of \<open>k\<close> bytes, the bits above the \<open>7 k\<close>
  transmitted ones are all equal to the conjunction of the two top bits sent.
\<close>

lemma vlq_high_bits:
  fixes v :: u32
  assumes "sint v < 3 * 2 ^ m" and "sint v \<ge> - (2 ^ m)" and "m + 2 \<le> n" and "n < 32"
  shows "bit v n \<longleftrightarrow> bit v m \<and> bit v (Suc m)"
proof -
  define h where "h = drop_bit m (sint v)"
  have sbit: "bit v j = bit (sint v) j" if "j < 32" for j
    using that by (cases "j = 31") (auto simp: bit_signed_iff min_def)
  have hbit: "bit v (m + i) = bit h i" if "m + i < 32" for i
    using that by (simp add: h_def bit_drop_bit_eq sbit)
  have h: "h = sint v div 2 ^ m" by (simp add: h_def drop_bit_eq_div)
  have split: "sint v = h * 2 ^ m + sint v mod 2 ^ m" "0 \<le> sint v mod 2 ^ m" "sint v mod 2 ^ m < 2 ^ m"
    unfolding h by (simp_all only: div_mult_mod_eq) simp_all
  have "- 1 \<le> h"
  proof (rule ccontr)
    assume "\<not> - 1 \<le> h"
    then have "h * 2 ^ m \<le> (- 2) * 2 ^ m" by (intro mult_right_mono) simp_all
    then show False using split assms(2) by linarith
  qed
  moreover have "h < 3"
  proof (rule ccontr)
    assume "\<not> h < 3"
    then have "3 * 2 ^ m \<le> h * 2 ^ m" by (intro mult_right_mono) simp_all
    then show False using split assms(1) by linarith
  qed
  ultimately consider "h = - 1" | "h = 0" | "h = 1" | "h = 2" by linarith
  then have "bit h (n - m) \<longleftrightarrow> bit h 0 \<and> bit h 1"
    using assms(3) by cases (auto simp: bit_1_iff bit_2_iff)
  moreover have "bit v m = bit h 0" "bit v (Suc m) = bit h 1" "bit v n = bit h (n - m)"
    using hbit [of 0] hbit [of 1] hbit [of "n - m"] assms(3,4) by simp_all
  ultimately show ?thesis by simp
qed

lemma high_bits_1: "sint v < 3 * 2 ^ 5 \<Longrightarrow> sint v \<ge> - (2 ^ 5) \<Longrightarrow> 7 \<le> n \<Longrightarrow> n < 32 \<Longrightarrow>
    bit v n \<longleftrightarrow> bit v 5 \<and> bit v 6" for v :: u32
  using vlq_high_bits [of v 5 n] by simp

lemma bit_minus_32: "bit (- 0x20 :: u32) n \<longleftrightarrow> 5 \<le> n \<and> n < 32"
proof -
  have "(- 0x20 :: u32) = NOT (mask 5)" by (simp add: mask_eq_exp_minus_1 not_eq_complement)
  then have "bit (- 0x20 :: u32) n = bit (NOT (mask 5) :: u32) n" by (simp only:)
  also have "\<dots> \<longleftrightarrow> 5 \<le> n \<and> n < 32" by (auto simp: bit_not_iff bit_mask_iff)
  finally show ?thesis .
qed


text \<open>The bits of the value each byte of an encoding contributes.\<close>

lemma vlq_byte_cont:
  "(to_u8 ((drop_bit k v AND 0x7f) OR 0x80) :: u8) AND 0x80 \<noteq> 0"
  "(to_u8 (drop_bit k v OR 0x80) :: u8) AND 0x80 \<noteq> 0"
  for v :: u32
proof -
  have "bit ((to_u8 ((drop_bit k v AND 0x7f) OR 0x80) :: u8) AND 0x80) 7"
    "bit ((to_u8 (drop_bit k v OR 0x80) :: u8) AND 0x80) 7"
    by (simp_all add: bit_simps)
  then show "(to_u8 ((drop_bit k v AND 0x7f) OR 0x80) :: u8) AND 0x80 \<noteq> 0"
    "(to_u8 (drop_bit k v OR 0x80) :: u8) AND 0x80 \<noteq> 0"
    by (metis bit_0_eq bot_apply bot_bool_def)+
qed

lemma vlq_byte_last: "(to_u8 (v AND 0x7f) :: u8) AND 0x80 = 0" for v :: u32
  by (rule bit_word_eqI, auto simp: bit_simps bit_consts)+

lemma vlq_low7:
  "to_u32 ((to_u8 ((x AND 0x7f) OR 0x80) :: u8) AND 0x7f) = take_bit 7 x"
  "to_u32 ((to_u8 (x AND 0x7f) :: u8) AND 0x7f) = take_bit 7 x"
  for x :: u32
  by (rule bit_word_eqI, auto simp: bit_simps bit_consts)+

lemma vlq_first_flag: "c AND 0x60 = 0x60 \<longleftrightarrow> bit c 5 \<and> bit c 6" for c :: u8
proof -
  have six: "bit (0x60 :: int) n \<longleftrightarrow> n = 5 \<or> n = 6" for n
  proof -
    have "(0x60 :: int) = 2 ^ 5 OR 2 ^ 6" by simp
    then have "bit (0x60 :: int) n = bit (2 ^ 5 OR 2 ^ 6 :: int) n" by (simp only:)
    also have "\<dots> \<longleftrightarrow> n = 5 \<or> n = 6" by (auto simp only: bit_or_iff bit_exp_iff possible_bit_int)
    finally show ?thesis .
  qed
  show ?thesis
  proof
    assume "c AND 0x60 = 0x60"
    then have "bit (c AND 0x60) n = bit (0x60 :: u8) n" for n by simp
    from this [of 5] this [of 6] show "bit c 5 \<and> bit c 6" by (simp add: bit_simps six)
  next
    assume "bit c 5 \<and> bit c 6"
    then show "c AND 0x60 = 0x60"
      by (intro bit_word_eqI) (auto simp: bit_simps six)
  qed
qed

lemma bit_first_value:
  "bit (first_value c) n \<longleftrightarrow> n < 32 \<and> (if n < 7 then bit c n else bit c 5 \<and> bit c 6)"
proof -
  have "n = 5 \<or> n = 6" if "5 \<le> n" "n < 7" using that by linarith
  then show ?thesis
    by (auto simp: first_value_def vlq_first_flag bit_simps bit_consts not_bit_beyond
        dest: bit_imp_le_length)
qed

text \<open>What the four or fewer following bytes shift in.\<close>

lemma shift_in_1: "shift_in x [to_u8 (v AND 0x7f)] = push_bit 7 x OR take_bit 7 v"
  by (simp add: vlq_low7)

lemma shift_in_cont:
  "shift_in x (to_u8 ((y AND 0x7f) OR 0x80) # bs) = shift_in (push_bit 7 x OR take_bit 7 y) bs"
  by (simp add: vlq_low7)

lemma encode_value_1:
  assumes "sint v < 3 * 2 ^ 5" and "sint v \<ge> - (2 ^ 5)"
  shows "first_value (to_u8 (v AND 0x7f)) = v"
proof (rule bit_word_eqI)
  fix n assume "n < LENGTH(32)"
  then show "bit (first_value (to_u8 (v AND 0x7f))) n = bit v n"
    using vlq_high_bits [OF assms, of n] by (auto simp: bit_first_value bit_simps bit_consts)
qed

lemma encode_value_2:
  assumes "sint v < 3 * 2 ^ 12" and "sint v \<ge> - (2 ^ 12)"
  shows "shift_in (first_value (to_u8 ((drop_bit 7 v AND 0x7f) OR 0x80))) [to_u8 (v AND 0x7f)] = v"
proof (rule bit_word_eqI)
  fix n assume "n < LENGTH(32)"
  then show "bit (shift_in (first_value (to_u8 ((drop_bit 7 v AND 0x7f) OR 0x80)))
      [to_u8 (v AND 0x7f)]) n = bit v n"
    using vlq_high_bits [OF assms, of n]
    by (auto simp: shift_in_1 bit_first_value bit_simps bit_consts simp del: shift_in.simps)
qed

lemma encode_value_3:
  assumes "sint v < 3 * 2 ^ 19" and "sint v \<ge> - (2 ^ 19)"
  shows "shift_in (first_value (to_u8 ((drop_bit 14 v AND 0x7f) OR 0x80)))
      [to_u8 ((drop_bit 7 v AND 0x7f) OR 0x80), to_u8 (v AND 0x7f)] = v"
proof (rule bit_word_eqI)
  fix n assume "n < LENGTH(32)"
  then show "bit (shift_in (first_value (to_u8 ((drop_bit 14 v AND 0x7f) OR 0x80)))
      [to_u8 ((drop_bit 7 v AND 0x7f) OR 0x80), to_u8 (v AND 0x7f)]) n = bit v n"
    using vlq_high_bits [OF assms, of n]
    by (cases "n < 7"; cases "n < 14"; cases "n < 21"; cases "n < 28")
      (auto simp: shift_in_1 shift_in_cont bit_first_value bit_simps bit_consts simp del: shift_in.simps)
qed

lemma encode_value_4:
  assumes "sint v < 3 * 2 ^ 26" and "sint v \<ge> - (2 ^ 26)"
  shows "shift_in (first_value (to_u8 ((drop_bit 21 v AND 0x7f) OR 0x80)))
      [to_u8 ((drop_bit 14 v AND 0x7f) OR 0x80), to_u8 ((drop_bit 7 v AND 0x7f) OR 0x80),
       to_u8 (v AND 0x7f)] = v"
proof (rule bit_word_eqI)
  fix n assume "n < LENGTH(32)"
  then show "bit (shift_in (first_value (to_u8 ((drop_bit 21 v AND 0x7f) OR 0x80)))
      [to_u8 ((drop_bit 14 v AND 0x7f) OR 0x80), to_u8 ((drop_bit 7 v AND 0x7f) OR 0x80),
       to_u8 (v AND 0x7f)]) n = bit v n"
    using vlq_high_bits [OF assms, of n]
    by (cases "n < 7"; cases "n < 14"; cases "n < 21"; cases "n < 28")
      (auto simp: shift_in_1 shift_in_cont bit_first_value bit_simps bit_consts simp del: shift_in.simps)
qed

lemma encode_value_5:
  "shift_in (first_value (to_u8 (drop_bit 28 v OR 0x80)))
      [to_u8 ((drop_bit 21 v AND 0x7f) OR 0x80), to_u8 ((drop_bit 14 v AND 0x7f) OR 0x80),
       to_u8 ((drop_bit 7 v AND 0x7f) OR 0x80), to_u8 (v AND 0x7f)] = v"
proof (rule bit_word_eqI)
  fix n assume "n < LENGTH(32)"
  then show "bit (shift_in (first_value (to_u8 (drop_bit 28 v OR 0x80)))
      [to_u8 ((drop_bit 21 v AND 0x7f) OR 0x80), to_u8 ((drop_bit 14 v AND 0x7f) OR 0x80),
       to_u8 ((drop_bit 7 v AND 0x7f) OR 0x80), to_u8 (v AND 0x7f)]) n = bit v n"
    by (cases "n < 7"; cases "n < 14"; cases "n < 21"; cases "n < 28")
      (auto simp: shift_in_1 shift_in_cont bit_first_value bit_simps bit_consts not_bit_beyond
        simp del: shift_in.simps)
qed

text \<open>The encoding is one to five bytes, of which only the last has its top bit clear.\<close>

lemma encode_int_shape:
  obtains (one) y where "encode_int v = [y]" "y AND 0x80 = 0" "first_value y = v"
  | (more) x xs y where "encode_int v = x # xs @ [y]" "length xs \<le> 3"
      "x AND 0x80 \<noteq> 0" "\<forall>x \<in> set xs. x AND 0x80 \<noteq> 0" "y AND 0x80 = 0"
      "shift_in (first_value x) (xs @ [y]) = v"
proof -
  let ?y = "to_u8 (v AND 0x7f) :: u8"
  let ?c = "\<lambda>k. to_u8 ((drop_bit k v AND 0x7f) OR 0x80) :: u8"
  let ?z = "to_u8 (drop_bit 28 v OR 0x80) :: u8"
  consider (1) "sint v < 3 * 2 ^ 5 \<and> sint v \<ge> - (2 ^ 5)" "encode_int v = [?y]"
    | (2) "sint v < 3 * 2 ^ 12 \<and> sint v \<ge> - (2 ^ 12)" "encode_int v = ?c 7 # [] @ [?y]"
    | (3) "sint v < 3 * 2 ^ 19 \<and> sint v \<ge> - (2 ^ 19)" "encode_int v = ?c 14 # [?c 7] @ [?y]"
    | (4) "sint v < 3 * 2 ^ 26 \<and> sint v \<ge> - (2 ^ 26)"
        "encode_int v = ?c 21 # [?c 14, ?c 7] @ [?y]"
    | (5) "encode_int v = ?z # [?c 21, ?c 14, ?c 7] @ [?y]"
    unfolding encode_int_def Let_def
    by (cases "sint v < 3 * 2 ^ 5 \<and> sint v \<ge> - (2 ^ 5)";
        cases "sint v < 3 * 2 ^ 12 \<and> sint v \<ge> - (2 ^ 12)";
        cases "sint v < 3 * 2 ^ 19 \<and> sint v \<ge> - (2 ^ 19)";
        cases "sint v < 3 * 2 ^ 26 \<and> sint v \<ge> - (2 ^ 26)"; simp)
  then show ?thesis
  proof cases
    case 1
    then show ?thesis by (intro one) (auto simp: vlq_byte_last encode_value_1)
  next
    case 2
    show ?thesis by (rule more [OF 2(2)]) (use 2 encode_value_2 [of v] in \<open>simp_all add: vlq_byte_cont vlq_byte_last\<close>)
  next
    case 3
    show ?thesis by (rule more [OF 3(2)]) (use 3 encode_value_3 [of v] in \<open>simp_all add: vlq_byte_cont vlq_byte_last\<close>)
  next
    case 4
    show ?thesis by (rule more [OF 4(2)]) (use 4 encode_value_4 [of v] in \<open>simp_all add: vlq_byte_cont vlq_byte_last\<close>)
  next
    case 5
    show ?thesis by (rule more [OF 5]) (use encode_value_5 [of v] in \<open>simp_all add: vlq_byte_cont vlq_byte_last\<close>)
  qed
qed

lemma encode_int_length: "1 \<le> length (encode_int v)" "length (encode_int v) \<le> 5"
  by (cases rule: encode_int_shape [of v], simp_all)+

lemma parse_encode_int:
  "parse_int (pre @ encode_int v @ post) (length pre) = Some (v, length pre + length (encode_int v))"
proof (cases rule: encode_int_shape [of v])
  case (one y)
  then show ?thesis using parse_int_one [of y pre post] by simp
next
  case (more x xs y)
  from parse_int_many [OF more(3-5), of pre post] show ?thesis
    using more(1,6) by simp
qed

lemma encode_int_last: "last (encode_int v) AND 0x80 = 0"
  by (cases rule: encode_int_shape [of v]) simp_all

subsection \<open>Properties\<close>

text \<open>
  C21: variable length quantities round trip.  Every 32 bit value is written as one to
  five bytes, and the reader gets the same value back from wherever the bytes stand in
  a buffer and stops right behind them.
\<close>

theorem vlq_roundtrip:
  "parse_int (pre @ encode_int v @ post) (length pre) = Some (v, length pre + length (encode_int v)) \<and>
   1 \<le> length (encode_int v) \<and> length (encode_int v) \<le> 5"
  using parse_encode_int encode_int_length by auto

end
