(* ===== verification/Command.thy ===== *)
theory Command
  imports Oids Crc16 Vlq
begin

text \<open>
  Message blocks on the firmware's side, \<^verbatim>\<open>src/command.c\<close>: encoding of responses, the
  frame around a block, the search for the next complete block in the input with its
  resynchronisation, the parser of command parameters and the dispatch of all commands of
  a block.

  The tables the build generates (\<^verbatim>\<open>command_index\<close>, the encoders and the numbers of static
  strings) are arguments.  A buffer of received bytes is a list; a pointer into it is an
  index, and that index is what \<^verbatim>\<open>command_encode_ptr\<close> hands to the command functions.
  Reading past the buffer is undefined.
\<close>

subsection \<open>State and tables\<close>

record command_state = basecmd_state +
  next_sequence :: u8
  sync_state :: u8

definition command_init :: "config \<Rightarrow> board_in \<Rightarrow> command_state" where
  "command_init c e = basecmd_state.extend (basecmd_init c e) (command_state.fields 0x10 0)"

type_synonym ('e, 'a) cfw = "('e command_state_scheme, 'a) fw"

definition MESSAGE_MIN :: nat where "MESSAGE_MIN = 5"
definition MESSAGE_MAX :: nat where "MESSAGE_MAX = 64"
definition MESSAGE_HEADER_SIZE :: nat where "MESSAGE_HEADER_SIZE = 2"
definition MESSAGE_TRAILER_SIZE :: nat where "MESSAGE_TRAILER_SIZE = 3"
definition MESSAGE_POS_LEN :: nat where "MESSAGE_POS_LEN = 0"
definition MESSAGE_POS_SEQ :: nat where "MESSAGE_POS_SEQ = 1"
definition MESSAGE_TRAILER_CRC :: nat where "MESSAGE_TRAILER_CRC = 3"
definition MESSAGE_TRAILER_SYNC :: nat where "MESSAGE_TRAILER_SYNC = 1"
definition MESSAGE_PAYLOAD_MAX :: nat where "MESSAGE_PAYLOAD_MAX = MESSAGE_MAX - MESSAGE_MIN"
definition MESSAGE_SEQ_MASK :: u8 where "MESSAGE_SEQ_MASK = 0x0f"
definition MESSAGE_DEST :: u8 where "MESSAGE_DEST = 0x10"
definition MESSAGE_SYNC :: u8 where "MESSAGE_SYNC = 0x7E"

lemmas message_consts = MESSAGE_MIN_def MESSAGE_MAX_def MESSAGE_HEADER_SIZE_def MESSAGE_TRAILER_SIZE_def
  MESSAGE_POS_LEN_def MESSAGE_POS_SEQ_def MESSAGE_TRAILER_CRC_def MESSAGE_TRAILER_SYNC_def
  MESSAGE_PAYLOAD_MAX_def

datatype ptype =
    PT_uint32 | PT_int32 | PT_uint16 | PT_int16 | PT_byte
  | PT_string | PT_progmem_buffer | PT_buffer

record command_encoder =
  enc_msg_id :: u8
  enc_max_size :: nat
  enc_params :: "ptype list"

text \<open>The function of a parser is the command it runs; \<open>HF_IN_SHUTDOWN\<close> is its flag.\<close>

record 'f command_parser =
  cp_num_args :: nat
  cp_in_shutdown :: bool
  cp_params :: "ptype list"
  cp_func :: 'f

subsection \<open>Encoding a message\<close>

definition int_param :: "ptype \<Rightarrow> bool" where
  "int_param t \<longleftrightarrow> t \<in> {PT_uint32, PT_int32, PT_uint16, PT_int16, PT_byte}"

text \<open>
  \<open>acc\<close> are the bytes written from \<^verbatim>\<open>buf[MESSAGE_HEADER_SIZE]\<close> on and \<open>room\<close> is the offset of
  \<^verbatim>\<open>maxend\<close> from there.  \<open>sid\<close> numbers the static strings.
\<close>

fun encodef_loop :: "(string \<Rightarrow> u32) \<Rightarrow> nat \<Rightarrow> ptype list \<Rightarrow> arg list \<Rightarrow> u8 list \<Rightarrow> ('e, u8 list) mfw" where
  "encodef_loop sid room [] args acc = ret acc"
| "encodef_loop sid room (t # ts) args acc =
     (if length acc > room then sched_shutdown ''Message encode error''
      else case args of
        [] \<Rightarrow> undef
      | a # as \<Rightarrow>
          (if int_param t then
             (case a of
                Num v \<Rightarrow> encodef_loop sid room ts as (acc @ encode_int v)
              | StrId s \<Rightarrow> encodef_loop sid room ts as (acc @ encode_int (sid s))
              | Buf _ \<Rightarrow> undef)
           else if t = PT_string then
             (case a of
                Buf s \<Rightarrow>
                  let s' = take (room - (length acc + 1)) (takeWhile (\<lambda>c. c \<noteq> 0) s)
                  in encodef_loop sid room ts as (acc @ [of_nat (length s')] @ s')
              | _ \<Rightarrow> undef)
           else
             (case a of
                Buf s \<Rightarrow>
                  let s' = take (room - length acc) s
                  in encodef_loop sid room ts as (acc @ [of_nat (length s')] @ s')
              | _ \<Rightarrow> undef)))"

definition command_encodef :: "(string \<Rightarrow> u32) \<Rightarrow> command_encoder \<Rightarrow> arg list \<Rightarrow> ('e, u8 list) mfw" where
  "command_encodef sid ce args =
     (if enc_max_size ce \<le> MESSAGE_MIN then ret []
      else encodef_loop sid (enc_max_size ce - MESSAGE_MIN) (enc_params ce) args [enc_msg_id ce])"

text \<open>The frame: length, sequence number, contents, checksum and the sync byte.\<close>

definition command_add_frame :: "u8 \<Rightarrow> u8 list \<Rightarrow> u8 list" where
  "command_add_frame seq payload =
     (let msglen = length payload + MESSAGE_MIN;
          hdr = [of_nat msglen, seq] @ payload;
          crc = crc16_ccitt hdr (msglen - MESSAGE_TRAILER_SIZE)
      in hdr @ [to_u8 (drop_bit 8 crc), to_u8 crc, MESSAGE_SYNC])"

definition command_encode_and_frame ::
  "(string \<Rightarrow> u32) \<Rightarrow> command_encoder \<Rightarrow> arg list \<Rightarrow> ('e, u8 list) cfw" where
  "command_encode_and_frame sid ce args =
     bnd (command_encodef sid ce args) (\<lambda>payload.
     bnd (reads next_sequence) (\<lambda>seq. ret (command_add_frame seq payload)))"

subsection \<open>Finding a block\<close>

definition CF_NEED_SYNC :: u8 where "CF_NEED_SYNC = 1"
definition CF_NEED_VALID :: u8 where "CF_NEED_VALID = 2"

text \<open>\<^verbatim>\<open>memchr\<close>: the index of the first sync byte.\<close>

fun find_sync :: "u8 list \<Rightarrow> nat option" where
  "find_sync [] = None"
| "find_sync (b # bs) = (if b = MESSAGE_SYNC then Some 0 else map_option Suc (find_sync bs))"

definition send_acknak :: "('e, unit) cfw" where
  "send_acknak = command_sendf ''acknak'' []"

definition find_block_need_sync :: "u8 list \<Rightarrow> ('e, int \<times> nat) cfw" where
  "find_block_need_sync buf =
     bnd (case find_sync buf of
            Some i \<Rightarrow> thn (modify (\<lambda>m. m\<lparr>sync_state := sync_state m AND NOT CF_NEED_SYNC\<rparr>)) (ret (i + 1))
          | None \<Rightarrow> ret (length buf)) (\<lambda>pop.
     bnd (reads sync_state) (\<lambda>st.
     if st AND CF_NEED_VALID \<noteq> 0 then ret (-1, pop)
     else thn (modify (\<lambda>m. m\<lparr>sync_state := sync_state m OR CF_NEED_VALID\<rparr>))
          (thn send_acknak (ret (-1, pop)))))"

definition find_block_error :: "u8 list \<Rightarrow> ('e, int \<times> nat) cfw" where
  "find_block_error buf =
     (if buf ! 0 = MESSAGE_SYNC then ret (-1, 1)
      else thn (modify (\<lambda>m. m\<lparr>sync_state := sync_state m OR CF_NEED_SYNC\<rparr>))
           (find_block_need_sync buf))"

text \<open>\<open>buf\<close> holds exactly the \<^verbatim>\<open>buf_len\<close> bytes received; the result and the pop count are returned.\<close>

definition command_find_block :: "u8 list \<Rightarrow> ('e, int \<times> nat) cfw" where
  "command_find_block buf =
     bnd (reads sync_state) (\<lambda>st.
     if length buf \<noteq> 0 \<and> st AND CF_NEED_SYNC \<noteq> 0 then find_block_need_sync buf
     else if length buf < MESSAGE_MIN then ret (0, 0)
     else
       let msglen = unat (buf ! MESSAGE_POS_LEN); msgseq = buf ! MESSAGE_POS_SEQ in
       if msglen < MESSAGE_MIN \<or> msglen > MESSAGE_MAX then find_block_error buf
       else if msgseq AND NOT MESSAGE_SEQ_MASK \<noteq> MESSAGE_DEST then find_block_error buf
       else if length buf < msglen then ret (0, 0)
       else if buf ! (msglen - MESSAGE_TRAILER_SYNC) \<noteq> MESSAGE_SYNC then find_block_error buf
       else
         let msgcrc = (push_bit 8 (to_u16 (buf ! (msglen - MESSAGE_TRAILER_CRC)))
                       OR to_u16 (buf ! (msglen - MESSAGE_TRAILER_CRC + 1)));
             crc = crc16_ccitt buf (msglen - MESSAGE_TRAILER_SIZE)
         in if crc \<noteq> msgcrc then find_block_error buf
            else
              thn (modify (\<lambda>m. m\<lparr>sync_state := sync_state m AND NOT CF_NEED_VALID\<rparr>))
              (bnd (reads next_sequence) (\<lambda>ns.
               if msgseq \<noteq> ns then thn send_acknak (ret (-1, msglen))
               else thn (modify (\<lambda>m. m\<lparr>next_sequence :=
                           ((msgseq + 1) AND MESSAGE_SEQ_MASK) OR MESSAGE_DEST\<rparr>))
                    (ret (1, msglen)))))"

subsection \<open>Parsing parameters\<close>

text \<open>
  \<open>p\<close> and \<open>maxend\<close> are indices into \<open>buf\<close>; the arguments already parsed are \<open>args\<close>.
\<close>

fun parsef_loop :: "u8 list \<Rightarrow> nat \<Rightarrow> ptype list \<Rightarrow> nat \<Rightarrow> u32 list \<Rightarrow> ('e, u32 list \<times> nat) mfw" where
  "parsef_loop buf maxend [] p args = ret (args, p)"
| "parsef_loop buf maxend (t # ts) p args =
     (if p > maxend then sched_shutdown ''Command parser error''
      else if int_param t then
        (case parse_int buf p of
           None \<Rightarrow> undef
         | Some (v, p') \<Rightarrow> parsef_loop buf maxend ts p' (args @ [v]))
      else if t = PT_buffer then
        (if p \<ge> length buf then undef
         else
           let len = unat (buf ! p) in
           if p + 1 + len > maxend then sched_shutdown ''Command parser error''
           else parsef_loop buf maxend ts (p + 1 + len) (args @ [of_nat len, of_nat (p + 1)]))
      else sched_shutdown ''Command parser error'')"

definition command_parsef :: "u8 list \<Rightarrow> nat \<Rightarrow> nat \<Rightarrow> 'f command_parser \<Rightarrow> ('e, u32 list \<times> nat) mfw" where
  "command_parsef buf p maxend cp = parsef_loop buf maxend (cp_params cp) p []"

subsection \<open>Dispatch\<close>

definition command_lookup_parser :: "'f command_parser list \<Rightarrow> u8 \<Rightarrow> ('e, 'f command_parser) mfw" where
  "command_lookup_parser index cmdid =
     (if cmdid = 0 \<or> unat cmdid \<ge> length index then sched_shutdown ''Invalid command''
      else ret (index ! unat cmdid))"

text \<open>Interrupts are not polled on the boards with interrupt driven timers.\<close>

definition irq_poll :: "('e, unit) mfw" where
  "irq_poll = ret ()"

text \<open>
  \<open>run\<close> gives the meaning of the command functions.  Every round consumes at least the
  byte of the command's number, so as many rounds as there are bytes suffice.
\<close>

primrec dispatch_loop ::
  "('f \<Rightarrow> u32 list \<Rightarrow> ('e, unit) mfw) \<Rightarrow> 'f command_parser list \<Rightarrow> u8 list \<Rightarrow> nat \<Rightarrow> nat \<Rightarrow> nat \<Rightarrow> ('e, unit) mfw" where
  "dispatch_loop run index buf msgend 0 p = (if p < msgend then undef else ret ())"
| "dispatch_loop run index buf msgend (Suc n) p =
     (if p < msgend then
        (if p \<ge> length buf then undef
         else
           bnd (command_lookup_parser index (buf ! p)) (\<lambda>cp.
           bnd (command_parsef buf (p + 1) msgend cp) (\<lambda>r.
           bnd (reads sched_is_shutdown) (\<lambda>sd.
           if sd \<and> \<not> cp_in_shutdown cp
           then thn sched_report_shutdown (dispatch_loop run index buf msgend n (snd r))
           else thn irq_poll (thn (run (cp_func cp) (fst r))
                (dispatch_loop run index buf msgend n (snd r)))))))
      else ret ())"

definition command_dispatch ::
  "('f \<Rightarrow> u32 list \<Rightarrow> ('e, unit) mfw) \<Rightarrow> 'f command_parser list \<Rightarrow> u8 list \<Rightarrow> nat \<Rightarrow> ('e, unit) mfw" where
  "command_dispatch run index buf msglen =
     dispatch_loop run index buf (msglen - MESSAGE_TRAILER_SIZE) msglen MESSAGE_HEADER_SIZE"

definition command_send_ack :: "('e, unit) cfw" where
  "command_send_ack = send_acknak"

definition command_find_and_dispatch ::
  "('f \<Rightarrow> u32 list \<Rightarrow> ('e command_state_ext basecmd_state_ext, unit) mfw) \<Rightarrow> 'f command_parser list \<Rightarrow>
     u8 list \<Rightarrow> ('e, int \<times> nat) cfw" where
  "command_find_and_dispatch run index buf =
     bnd (command_find_block buf) (\<lambda>r.
     if fst r > 0 then
       thn (command_dispatch run index buf (snd r)) (thn command_send_ack (ret r))
     else ret r)"

end
