(* ===== verification/Trsync.thy ===== *)
theory Trsync
  imports Command
begin

text \<open>
  Synchronised triggers, \<^verbatim>\<open>src/trsync.c\<close>.  A \<^verbatim>\<open>struct trsync\<close> is stored under its oid; its two
  timers are \<open>ObjTimer\<close> (\<^verbatim>\<open>report_time\<close>) and \<open>ObjTimer2\<close> (\<^verbatim>\<open>expire_time\<close>).  The signals are
  embedded in the objects that wait for the trigger and linked through them, so a pointer to a
  signal is the oid of that object.  \<open>call\<close> is the meaning of the callbacks; it is supplied by
  the module that registers them.
\<close>

subsection \<open>State\<close>

record trsync =
  report_ticks :: u32
  ts_signals :: "u8 option"
  ts_flags :: u8
  trigger_reason :: u8
  expire_reason :: u8

datatype sigfunc = stepper_stop_f

record trsync_signal =
  sig_next :: "u8 option"
  sig_func :: "sigfunc option"

record trsync_state = command_state +
  trsyncs :: "u8 \<Rightarrow> trsync"
  signals :: "u8 \<Rightarrow> trsync_signal"

definition zero_trsync :: trsync where
  "zero_trsync = \<lparr>report_ticks = 0, ts_signals = None, ts_flags = 0, trigger_reason = 0, expire_reason = 0\<rparr>"

definition zero_signal :: trsync_signal where
  "zero_signal = \<lparr>sig_next = None, sig_func = None\<rparr>"

definition trsync_init :: "config \<Rightarrow> board_in \<Rightarrow> trsync_state" where
  "trsync_init c e = command_state.extend (command_init c e)
     (trsync_state.fields (\<lambda>_. zero_trsync) (\<lambda>_. zero_signal))"

type_synonym ('e, 'a) tsfw = "('e trsync_state_scheme, 'a) fw"

definition upd_trsync :: "u8 \<Rightarrow> (trsync \<Rightarrow> trsync) \<Rightarrow> ('e, unit) tsfw" where
  "upd_trsync ts f = modify (\<lambda>m. m\<lparr>trsyncs := (trsyncs m)(ts := f (trsyncs m ts))\<rparr>)"

definition upd_signal :: "u8 \<Rightarrow> (trsync_signal \<Rightarrow> trsync_signal) \<Rightarrow> ('e, unit) tsfw" where
  "upd_signal tss f = modify (\<lambda>m. m\<lparr>signals := (signals m)(tss := f (signals m tss))\<rparr>)"

definition upd_timer :: "tref \<Rightarrow> (timer \<Rightarrow> timer) \<Rightarrow> ('e, unit) mfw" where
  "upd_timer t f = modify (set_timer t f)"

definition TSF_CAN_TRIGGER :: u8 where "TSF_CAN_TRIGGER = 1"
definition TSF_REPORT :: u8 where "TSF_REPORT = 4"

definition has_flag :: "u8 \<Rightarrow> u8 \<Rightarrow> bool" where
  "has_flag flags f \<longleftrightarrow> flags AND f \<noteq> 0"

subsection \<open>Triggering\<close>

text \<open>There is at most one signal per oid, so 256 rounds empty every list.\<close>

primrec dispatch_signals ::
  "(sigfunc \<Rightarrow> u8 \<Rightarrow> u8 \<Rightarrow> ('e, unit) tsfw) \<Rightarrow> nat \<Rightarrow> u8 \<Rightarrow> u8 \<Rightarrow> ('e, unit) tsfw" where
  "dispatch_signals call 0 ts reason =
     bnd (reads (\<lambda>m. ts_signals (trsyncs m ts))) (\<lambda>s. if s = None then ret () else undef)"
| "dispatch_signals call (Suc n) ts reason =
     bnd (reads (\<lambda>m. ts_signals (trsyncs m ts))) (\<lambda>s. case s of
       None \<Rightarrow> ret ()
     | Some tss \<Rightarrow>
         bnd (reads (\<lambda>m. signals m tss)) (\<lambda>sg.
         thn (upd_trsync ts (\<lambda>t. t\<lparr>ts_signals := sig_next sg\<rparr>))
         (thn (upd_signal tss (\<lambda>x. x\<lparr>sig_next := None, sig_func := None\<rparr>))
         (thn (case sig_func sg of None \<Rightarrow> undef | Some f \<Rightarrow> call f tss reason)
         (dispatch_signals call n ts reason)))))"

definition trsync_do_trigger ::
  "(sigfunc \<Rightarrow> u8 \<Rightarrow> u8 \<Rightarrow> ('e, unit) tsfw) \<Rightarrow> u8 \<Rightarrow> u8 \<Rightarrow> ('e, unit) tsfw" where
  "trsync_do_trigger call ts reason =
     bnd (reads (\<lambda>m. ts_flags (trsyncs m ts))) (\<lambda>flags.
     if \<not> has_flag flags TSF_CAN_TRIGGER then ret ()
     else
       thn (upd_trsync ts (\<lambda>t. t\<lparr>trigger_reason := reason\<rparr>))
       (thn (upd_trsync ts (\<lambda>t. t\<lparr>ts_flags := (flags AND NOT TSF_CAN_TRIGGER) OR TSF_REPORT\<rparr>))
       (thn (dispatch_signals call 256 ts reason)
       (sched_wake_task trsync_wake))))"

definition trsync_expire_event ::
  "(sigfunc \<Rightarrow> u8 \<Rightarrow> u8 \<Rightarrow> ('e, unit) tsfw) \<Rightarrow> u8 \<Rightarrow> ('e, sf) tsfw" where
  "trsync_expire_event call ts =
     bnd (reads (\<lambda>m. expire_reason (trsyncs m ts))) (\<lambda>r.
     thn (trsync_do_trigger call ts r) (ret SF_DONE))"

definition trsync_report_event :: "u8 \<Rightarrow> ('e, sf) tsfw" where
  "trsync_report_event ts =
     thn (upd_trsync ts (\<lambda>t. t\<lparr>ts_flags := ts_flags t OR TSF_REPORT\<rparr>))
     (thn (sched_wake_task trsync_wake)
     (bnd (reads (\<lambda>m. report_ticks (trsyncs m ts))) (\<lambda>rt.
     thn (upd_timer (ObjTimer ts) (\<lambda>t. t\<lparr>waketime := waketime t + rt\<rparr>))
     (ret SF_RESCHEDULE))))"

subsection \<open>Commands\<close>

definition command_config_trsync :: "u32 list \<Rightarrow> ('e, unit) tsfw" where
  "command_config_trsync args =
     (let oid = to_u8 (args ! 0) in
     thn (oid_alloc oid config_trsync)
     (thn (upd_trsync oid (\<lambda>_. zero_trsync))
     (thn (upd_timer (ObjTimer oid) (\<lambda>t. t\<lparr>func := Some trsync_report_event_f\<rparr>))
     (upd_timer (ObjTimer2 oid) (\<lambda>t. t\<lparr>func := Some trsync_expire_event_f\<rparr>)))))"

definition trsync_oid_lookup :: "u8 \<Rightarrow> ('e, unit) tsfw" where
  "trsync_oid_lookup oid = oid_lookup oid config_trsync"

definition trsync_add_signal :: "u8 \<Rightarrow> u8 \<Rightarrow> sigfunc option \<Rightarrow> ('e, unit) tsfw" where
  "trsync_add_signal ts tss f =
     bnd irq_save (\<lambda>flag.
     bnd (reads (\<lambda>m. sig_func (signals m tss))) (\<lambda>old.
     if old \<noteq> None \<or> f = None then sched_shutdown ''Can't add signal that is already active''
     else
       thn (upd_signal tss (\<lambda>x. x\<lparr>sig_func := f\<rparr>))
       (bnd (reads (\<lambda>m. ts_signals (trsyncs m ts))) (\<lambda>first.
       thn (upd_signal tss (\<lambda>x. x\<lparr>sig_next := first\<rparr>))
       (thn (upd_trsync ts (\<lambda>t. t\<lparr>ts_signals := Some tss\<rparr>))
       (irq_restore flag))))))"

primrec clear_signals :: "nat \<Rightarrow> u8 option \<Rightarrow> ('e, unit) tsfw" where
  "clear_signals 0 s = (if s = None then ret () else undef)"
| "clear_signals (Suc n) s = (case s of
     None \<Rightarrow> ret ()
   | Some tss \<Rightarrow>
       bnd (reads (\<lambda>m. sig_next (signals m tss))) (\<lambda>next.
       thn (upd_signal tss (\<lambda>x. x\<lparr>sig_func := None, sig_next := None\<rparr>))
       (clear_signals n next)))"

definition trsync_clear :: "u8 \<Rightarrow> ('e, unit) tsfw" where
  "trsync_clear ts =
     thn (sched_del_timer (ObjTimer ts))
     (thn (sched_del_timer (ObjTimer2 ts))
     (bnd (reads (\<lambda>m. ts_signals (trsyncs m ts))) (\<lambda>tss.
     thn (clear_signals 256 tss)
     (upd_trsync ts (\<lambda>t. t\<lparr>ts_signals := None, ts_flags := 0, trigger_reason := 0, expire_reason := 0\<rparr>)))))"

definition command_trsync_start :: "u32 list \<Rightarrow> ('e, unit) tsfw" where
  "command_trsync_start args =
     (let ts = to_u8 (args ! 0) in
     thn (trsync_oid_lookup ts)
     (thn irq_disable
     (thn (trsync_clear ts)
     (thn (upd_trsync ts (\<lambda>t. t\<lparr>ts_flags := TSF_CAN_TRIGGER\<rparr>))
     (thn (upd_timer (ObjTimer ts) (\<lambda>t. t\<lparr>waketime := args ! 1\<rparr>))
     (thn (upd_trsync ts (\<lambda>t. t\<lparr>report_ticks := args ! 2\<rparr>))
     (thn (whenM (args ! 2 \<noteq> 0) (sched_add_timer (ObjTimer ts)))
     (thn (upd_trsync ts (\<lambda>t. t\<lparr>expire_reason := to_u8 (args ! 3)\<rparr>))
     irq_enable))))))))"

definition command_trsync_set_timeout :: "u32 list \<Rightarrow> ('e, unit) tsfw" where
  "command_trsync_set_timeout args =
     (let ts = to_u8 (args ! 0) in
     thn (trsync_oid_lookup ts)
     (thn irq_disable
     (bnd (reads (\<lambda>m. ts_flags (trsyncs m ts))) (\<lambda>flags.
     thn (whenM (has_flag flags TSF_CAN_TRIGGER)
            (thn (sched_del_timer (ObjTimer2 ts))
            (thn (upd_timer (ObjTimer2 ts) (\<lambda>t. t\<lparr>waketime := args ! 1\<rparr>))
            (sched_add_timer (ObjTimer2 ts)))))
     irq_enable))))"

definition trsync_report :: "u8 \<Rightarrow> u8 \<Rightarrow> u8 \<Rightarrow> u32 \<Rightarrow> ('e, unit) tsfw" where
  "trsync_report oid flags reason clock =
     command_sendf ''trsync_state oid=%c can_trigger=%c trigger_reason=%c clock=%u''
       [Num (to_u32 oid), Num (of_bool (has_flag flags TSF_CAN_TRIGGER)), Num (to_u32 reason), Num clock]"

definition command_trsync_trigger ::
  "(sigfunc \<Rightarrow> u8 \<Rightarrow> u8 \<Rightarrow> ('e, unit) tsfw) \<Rightarrow> u32 list \<Rightarrow> ('e, unit) tsfw" where
  "command_trsync_trigger call args =
     (let oid = to_u8 (args ! 0) in
     thn (trsync_oid_lookup oid)
     (thn irq_disable
     (thn (trsync_do_trigger call oid (to_u8 (args ! 1)))
     (thn (sched_del_timer (ObjTimer oid))
     (thn (sched_del_timer (ObjTimer2 oid))
     (thn (upd_trsync oid (\<lambda>t. t\<lparr>ts_flags := 0\<rparr>))
     (bnd (reads (\<lambda>m. trigger_reason (trsyncs m oid))) (\<lambda>reason.
     thn irq_enable
     (trsync_report oid 0 reason 0)))))))))"

definition trsync_task :: "('e, unit) tsfw" where
  "trsync_task =
     bnd (sched_check_wake trsync_wake) (\<lambda>w.
     if \<not> w then ret ()
     else foreach_oid config_trsync (\<lambda>oid.
       bnd (reads (\<lambda>m. ts_flags (trsyncs m oid))) (\<lambda>f0.
       if \<not> has_flag f0 TSF_REPORT then ret ()
       else
         bnd timer_read_time (\<lambda>time.
         thn irq_disable
         (bnd (reads (\<lambda>m. trsyncs m oid)) (\<lambda>t.
         thn (upd_trsync oid (\<lambda>t. t\<lparr>ts_flags := ts_flags t AND NOT TSF_REPORT\<rparr>))
         (thn irq_enable
         (trsync_report oid (ts_flags t) (trigger_reason t) time))))))))"

definition trsync_shutdown :: "('e, unit) tsfw" where
  "trsync_shutdown = foreach_oid config_trsync trsync_clear"

end
