(* ===== verification/Stepper.thy ===== *)
theory Stepper
  imports Trsync
begin

text \<open>
  Stepper motors, \<^verbatim>\<open>src/stepper.c\<close>.  A stepper and its queued moves are stored under the oid
  and the address of the move node; the stepper's timer is \<open>ObjTimer\<close>, its \<^verbatim>\<open>stop_signal\<close> is
  the signal of the same oid.  The three variants the build can choose (one timer per edge,
  the AVR variant, and the regular variant with separate step and unstep events) are all
  modelled; the choice is made from the configuration as the preprocessor does.
\<close>

subsection \<open>State\<close>

record stepper_move =
  mv_interval :: u32
  mv_add :: u16
  mv_count :: u16
  mv_flags :: u8

record stepper =
  st_interval :: u32
  st_add :: u16
  st_count :: u32
  next_step_time :: u32
  step_pulse_ticks :: u32
  step_pin :: u32
  dir_pin :: u32
  position :: u32
  st_mq :: move_queue_head
  st_flags :: u8

record stepper_state = trsync_state +
  steppers :: "u8 \<Rightarrow> stepper"
  stepper_moves :: "nat \<Rightarrow> stepper_move"

definition zero_stepper :: stepper where
  "zero_stepper = \<lparr>st_interval = 0, st_add = 0, st_count = 0, next_step_time = 0, step_pulse_ticks = 0,
     step_pin = 0, dir_pin = 0, position = 0, st_mq = \<lparr>mq_first = None, mq_last = None\<rparr>, st_flags = 0\<rparr>"

definition stepper_init :: "config \<Rightarrow> board_in \<Rightarrow> stepper_state" where
  "stepper_init c e = trsync_state.extend (trsync_init c e)
     (stepper_state.fields (\<lambda>_. zero_stepper)
        (\<lambda>_. \<lparr>mv_interval = 0, mv_add = 0, mv_count = 0, mv_flags = 0\<rparr>))"

type_synonym ('e, 'a) stfw = "('e stepper_state_scheme, 'a) fw"

definition upd_stepper :: "u8 \<Rightarrow> (stepper \<Rightarrow> stepper) \<Rightarrow> ('e, unit) stfw" where
  "upd_stepper s f = modify (\<lambda>m. m\<lparr>steppers := (steppers m)(s := f (steppers m s))\<rparr>)"

definition upd_smove :: "nat \<Rightarrow> (stepper_move \<Rightarrow> stepper_move) \<Rightarrow> ('e, unit) stfw" where
  "upd_smove x f = modify (\<lambda>m. m\<lparr>stepper_moves := (stepper_moves m)(x := f (stepper_moves m x))\<rparr>)"

definition HAVE_EDGE_OPTIMIZATION :: "config \<Rightarrow> bool" where
  "HAVE_EDGE_OPTIMIZATION c \<longleftrightarrow> CONFIG_INLINE_STEPPER_HACK c \<and> CONFIG_HAVE_STEPPER_BOTH_EDGE c"

definition HAVE_AVR_OPTIMIZATION :: "config \<Rightarrow> bool" where
  "HAVE_AVR_OPTIMIZATION c \<longleftrightarrow>
     \<not> HAVE_EDGE_OPTIMIZATION c \<and> CONFIG_INLINE_STEPPER_HACK c \<and> CONFIG_MACH_AVR c"

definition HAVE_SINGLE_SCHEDULE :: "config \<Rightarrow> bool" where
  "HAVE_SINGLE_SCHEDULE c \<longleftrightarrow> HAVE_EDGE_OPTIMIZATION c \<or> HAVE_AVR_OPTIMIZATION c"

definition MF_DIR :: u8 where "MF_DIR = 1"
definition POSITION_BIAS :: u32 where "POSITION_BIAS = 0x40000000"
definition SF_LAST_DIR :: u8 where "SF_LAST_DIR = 1"
definition SF_NEXT_DIR :: u8 where "SF_NEXT_DIR = 2"
definition SF_INVERT_STEP :: u8 where "SF_INVERT_STEP = 4"
definition SF_NEED_RESET :: u8 where "SF_NEED_RESET = 8"
definition SF_SINGLE_SCHED :: u8 where "SF_SINGLE_SCHED = 16"
definition SF_HAVE_ADD :: u8 where "SF_HAVE_ADD = 32"
definition AVR_STEP_INSNS :: u32 where "AVR_STEP_INSNS = 40"

abbreviation stimer :: "u8 \<Rightarrow> tref" where "stimer s \<equiv> ObjTimer s"

definition gpio_out_toggle_noirq :: "u32 \<Rightarrow> ('e, unit) mfw" where
  "gpio_out_toggle_noirq pin = emit (GpioOutToggle pin)"

definition gpio_out_write :: "u32 \<Rightarrow> bool \<Rightarrow> ('e, unit) mfw" where
  "gpio_out_write pin v = emit (GpioOutWrite pin v)"

subsection \<open>Step events\<close>

text \<open>The signed 16 bit increment is added to the unsigned interval.\<close>

definition add_interval :: "u32 \<Rightarrow> u16 \<Rightarrow> u32" where
  "add_interval i a = i + scast a"

definition single_sched :: "u8 \<Rightarrow> 'e stepper_state_scheme \<Rightarrow> bool" where
  "single_sched s m \<longleftrightarrow> HAVE_SINGLE_SCHEDULE (cfg m) \<and> has_flag (st_flags (steppers m s)) SF_SINGLE_SCHED"

definition stepper_load_next :: "u8 \<Rightarrow> ('e, sf) stfw" where
  "stepper_load_next s =
     bnd (reads (\<lambda>m. st_mq (steppers m s))) (\<lambda>mq.
     if move_queue_empty mq then
       thn (upd_stepper s (\<lambda>x. x\<lparr>st_count := 0\<rparr>)) (ret SF_DONE)
     else
       bnd (move_queue_pop mq) (\<lambda>r.
       thn (upd_stepper s (\<lambda>x. x\<lparr>st_mq := snd r\<rparr>))
       (bnd (reads (\<lambda>m. stepper_moves m (fst r))) (\<lambda>mv.
       thn (upd_stepper s (\<lambda>x. x\<lparr>st_add := mv_add mv\<rparr>))
       (thn (upd_stepper s (\<lambda>x. x\<lparr>st_interval := add_interval (mv_interval mv) (mv_add mv)\<rparr>))
       (bnd (reads (single_sched s)) (\<lambda>single.
       bnd (reads (\<lambda>m. HAVE_AVR_OPTIMIZATION (cfg m))) (\<lambda>avr.
       thn (if single then
              thn (upd_timer (stimer s) (\<lambda>t. t\<lparr>waketime := waketime t + mv_interval mv\<rparr>))
              (thn (whenM avr (upd_stepper s (\<lambda>x. x\<lparr>st_flags :=
                      (if mv_add mv \<noteq> 0 then st_flags x OR SF_HAVE_ADD else st_flags x AND NOT SF_HAVE_ADD)\<rparr>)))
              (upd_stepper s (\<lambda>x. x\<lparr>st_count := to_u32 (mv_count mv)\<rparr>)))
            else
              thn (upd_stepper s (\<lambda>x. x\<lparr>next_step_time := next_step_time x + mv_interval mv\<rparr>))
              (bnd (reads (\<lambda>m. next_step_time (steppers m s))) (\<lambda>nst.
              thn (upd_timer (stimer s) (\<lambda>t. t\<lparr>waketime := nst\<rparr>))
              (upd_stepper s (\<lambda>x. x\<lparr>st_count := to_u32 (mv_count mv) * 2\<rparr>)))))
       (thn (if has_flag (mv_flags mv) MF_DIR then
               thn (upd_stepper s (\<lambda>x. x\<lparr>position := - position x + to_u32 (mv_count mv)\<rparr>))
               (bnd (reads (\<lambda>m. dir_pin (steppers m s))) gpio_out_toggle_noirq)
             else upd_stepper s (\<lambda>x. x\<lparr>position := position x + to_u32 (mv_count mv)\<rparr>))
       (thn (move_free (fst r))
       (ret SF_RESCHEDULE)))))))))))"

definition stepper_event_edge :: "u8 \<Rightarrow> ('e, sf) stfw" where
  "stepper_event_edge s =
     thn (bnd (reads (\<lambda>m. step_pin (steppers m s))) gpio_out_toggle_noirq)
     (bnd (reads (\<lambda>m. st_count (steppers m s) - 1)) (\<lambda>count.
     if count \<noteq> 0 then
       thn (upd_stepper s (\<lambda>x. x\<lparr>st_count := count\<rparr>))
       (bnd (reads (\<lambda>m. st_interval (steppers m s))) (\<lambda>iv.
       thn (upd_timer (stimer s) (\<lambda>t. t\<lparr>waketime := waketime t + iv\<rparr>))
       (thn (upd_stepper s (\<lambda>x. x\<lparr>st_interval := add_interval (st_interval x) (st_add x)\<rparr>))
       (ret SF_RESCHEDULE))))
     else stepper_load_next s))"

text \<open>The AVR variant counts in the low half of the counter only.\<close>

definition stepper_event_avr :: "u8 \<Rightarrow> ('e, sf) stfw" where
  "stepper_event_avr s =
     thn (bnd (reads (\<lambda>m. step_pin (steppers m s))) gpio_out_toggle_noirq)
     (bnd (reads (\<lambda>m. (to_u16 (st_count (steppers m s)) :: u16) - 1)) (\<lambda>count.
     if count \<noteq> 0 then
       thn (upd_stepper s (\<lambda>x. x\<lparr>st_count := (st_count x AND 0xffff0000) OR to_u32 count\<rparr>))
       (bnd (reads (\<lambda>m. st_interval (steppers m s))) (\<lambda>iv.
       thn (upd_timer (stimer s) (\<lambda>t. t\<lparr>waketime := waketime t + iv\<rparr>))
       (thn (bnd (reads (\<lambda>m. step_pin (steppers m s))) gpio_out_toggle_noirq)
       (thn (upd_stepper s (\<lambda>x. if has_flag (st_flags x) SF_HAVE_ADD
               then x\<lparr>st_interval := add_interval (st_interval x) (st_add x)\<rparr> else x))
       (ret SF_RESCHEDULE)))))
     else
       bnd (stepper_load_next s) (\<lambda>r.
       thn (bnd (reads (\<lambda>m. step_pin (steppers m s))) gpio_out_toggle_noirq)
       (ret r))))"

definition reschedule_min :: "u8 \<Rightarrow> u32 \<Rightarrow> ('e, sf) stfw" where
  "reschedule_min s min_next_time =
     thn (upd_timer (stimer s) (\<lambda>t. t\<lparr>waketime := min_next_time\<rparr>)) (ret SF_RESCHEDULE)"

definition stepper_event_full :: "u8 \<Rightarrow> ('e, sf) stfw" where
  "stepper_event_full s =
     thn (bnd (reads (\<lambda>m. step_pin (steppers m s))) gpio_out_toggle_noirq)
     (bnd timer_read_time (\<lambda>curtime.
     bnd (reads (\<lambda>m. curtime + step_pulse_ticks (steppers m s))) (\<lambda>min_next_time.
     thn (upd_stepper s (\<lambda>x. x\<lparr>st_count := st_count x - 1\<rparr>))
     (bnd (reads (\<lambda>m. st_count (steppers m s))) (\<lambda>count.
     if count AND 1 \<noteq> 0 then reschedule_min s min_next_time
     else if count \<noteq> 0 then
       thn (upd_stepper s (\<lambda>x. x\<lparr>next_step_time := next_step_time x + st_interval x\<rparr>))
       (thn (upd_stepper s (\<lambda>x. x\<lparr>st_interval := add_interval (st_interval x) (st_add x)\<rparr>))
       (bnd (reads (\<lambda>m. next_step_time (steppers m s))) (\<lambda>nst.
       if timer_is_before nst min_next_time then reschedule_min s min_next_time
       else thn (upd_timer (stimer s) (\<lambda>t. t\<lparr>waketime := nst\<rparr>)) (ret SF_RESCHEDULE))))
     else
       bnd (stepper_load_next s) (\<lambda>r.
       bnd (reads (\<lambda>m. waketime (timers m (stimer s)))) (\<lambda>w.
       if r = SF_DONE \<or> \<not> timer_is_before w min_next_time then ret r
       else reschedule_min s min_next_time)))))))"

definition stepper_event :: "u8 \<Rightarrow> ('e, sf) stfw" where
  "stepper_event s =
     bnd (reads cfg) (\<lambda>c.
     if HAVE_EDGE_OPTIMIZATION c then stepper_event_edge s
     else if HAVE_AVR_OPTIMIZATION c then stepper_event_avr s
     else stepper_event_full s)"

subsection \<open>Commands\<close>

definition command_config_stepper :: "u32 list \<Rightarrow> ('e, unit) stfw" where
  "command_config_stepper args =
     (let s = to_u8 (args ! 0); invert_step = sint (args ! 3);
          flags0 = (if invert_step > 0 then SF_INVERT_STEP else 0) in
     thn (oid_alloc s config_stepper)
     (thn (upd_stepper s (\<lambda>_. zero_stepper))
     (thn (upd_signal s (\<lambda>_. zero_signal))
     (thn (upd_stepper s (\<lambda>x. x\<lparr>st_flags := flags0\<rparr>))
     (bnd (gpio_out_setup (args ! 1) (has_flag flags0 SF_INVERT_STEP)) (\<lambda>sp.
     thn (upd_stepper s (\<lambda>x. x\<lparr>step_pin := sp\<rparr>))
     (bnd (gpio_out_setup (args ! 2) False) (\<lambda>dp.
     thn (upd_stepper s (\<lambda>x. x\<lparr>dir_pin := dp\<rparr>))
     (thn (upd_stepper s (\<lambda>x. x\<lparr>position := - POSITION_BIAS\<rparr>))
     (thn (upd_stepper s (\<lambda>x. x\<lparr>step_pulse_ticks := args ! 4\<rparr>))
     (bnd (reads (\<lambda>m. move_size (cfg m) stepper_move_t)) (\<lambda>sz.
     bnd (move_queue_setup sz) (\<lambda>mq.
     thn (upd_stepper s (\<lambda>x. x\<lparr>st_mq := mq\<rparr>))
     (bnd (reads cfg) (\<lambda>c.
     if HAVE_EDGE_OPTIMIZATION c then
       (if args ! 4 = 0 \<and> invert_step < 0
        then upd_stepper s (\<lambda>x. x\<lparr>st_flags := st_flags x OR SF_SINGLE_SCHED\<rparr>)
        else upd_timer (stimer s) (\<lambda>t. t\<lparr>func := Some stepper_event_full_f\<rparr>))
     else if HAVE_AVR_OPTIMIZATION c then
       (if args ! 4 \<le> AVR_STEP_INSNS
        then upd_stepper s (\<lambda>x. x\<lparr>st_flags := st_flags x OR SF_SINGLE_SCHED\<rparr>)
        else upd_timer (stimer s) (\<lambda>t. t\<lparr>func := Some stepper_event_full_f\<rparr>))
     else if \<not> CONFIG_INLINE_STEPPER_HACK c then
       upd_timer (stimer s) (\<lambda>t. t\<lparr>func := Some stepper_event_full_f\<rparr>)
     else ret ())))))))))))))))"

definition stepper_oid_lookup :: "u8 \<Rightarrow> ('e, unit) stfw" where
  "stepper_oid_lookup oid = oid_lookup oid config_stepper"

definition push_move :: "u8 \<Rightarrow> nat \<Rightarrow> ('e, unit) stfw" where
  "push_move s x =
     bnd (reads (\<lambda>m. st_mq (steppers m s))) (\<lambda>mq.
     bnd (move_queue_push x mq) (\<lambda>r. upd_stepper s (\<lambda>y. y\<lparr>st_mq := snd r\<rparr>)))"

definition command_queue_step :: "u32 list \<Rightarrow> ('e, unit) stfw" where
  "command_queue_step args =
     (let s = to_u8 (args ! 0) in
     thn (stepper_oid_lookup s)
     (bnd move_alloc (\<lambda>x.
     thn (upd_smove x (\<lambda>v. v\<lparr>mv_interval := args ! 1\<rparr>))
     (thn (upd_smove x (\<lambda>v. v\<lparr>mv_count := to_u16 (args ! 2)\<rparr>))
     (if to_u16 (args ! 2) = (0 :: u16) then sched_shutdown ''Invalid count parameter''
      else
        thn (upd_smove x (\<lambda>v. v\<lparr>mv_add := to_u16 (args ! 3)\<rparr>))
        (thn (upd_smove x (\<lambda>v. v\<lparr>mv_flags := 0\<rparr>))
        (thn irq_disable
        (bnd (reads (\<lambda>m. st_flags (steppers m s))) (\<lambda>flags0.
        let turn = (has_flag flags0 SF_LAST_DIR \<noteq> has_flag flags0 SF_NEXT_DIR);
            flags = (if turn then flags0 XOR SF_LAST_DIR else flags0) in
        thn (whenM turn (upd_smove x (\<lambda>v. v\<lparr>mv_flags := mv_flags v OR MF_DIR\<rparr>)))
        (bnd (reads (\<lambda>m. st_count (steppers m s))) (\<lambda>cnt.
        thn (if cnt \<noteq> 0 then
               thn (upd_stepper s (\<lambda>y. y\<lparr>st_flags := flags\<rparr>)) (push_move s x)
             else if has_flag flags SF_NEED_RESET then move_free x
             else
               thn (upd_stepper s (\<lambda>y. y\<lparr>st_flags := flags\<rparr>))
               (thn (push_move s x)
               (thn (stepper_load_next s)
               (sched_add_timer (stimer s)))))
        irq_enable)))))))))))"

definition command_set_next_step_dir :: "u32 list \<Rightarrow> ('e, unit) stfw" where
  "command_set_next_step_dir args =
     (let s = to_u8 (args ! 0); nextdir = (if args ! 1 \<noteq> 0 then SF_NEXT_DIR else 0) in
     thn (stepper_oid_lookup s)
     (thn irq_disable
     (thn (upd_stepper s (\<lambda>x. x\<lparr>st_flags := (st_flags x AND NOT SF_NEXT_DIR) OR nextdir\<rparr>))
     irq_enable)))"

definition command_reset_step_clock :: "u32 list \<Rightarrow> ('e, unit) stfw" where
  "command_reset_step_clock args =
     (let s = to_u8 (args ! 0) in
     thn (stepper_oid_lookup s)
     (thn irq_disable
     (bnd (reads (\<lambda>m. st_count (steppers m s))) (\<lambda>cnt.
     if cnt \<noteq> 0 then sched_shutdown ''Can't reset time when stepper active''
     else
       thn (upd_timer (stimer s) (\<lambda>t. t\<lparr>waketime := args ! 1\<rparr>))
       (thn (upd_stepper s (\<lambda>x. x\<lparr>next_step_time := args ! 1\<rparr>))
       (thn (upd_stepper s (\<lambda>x. x\<lparr>st_flags := st_flags x AND NOT SF_NEED_RESET\<rparr>))
       irq_enable))))))"

definition stepper_get_position :: "u8 \<Rightarrow> 'e stepper_state_scheme \<Rightarrow> u32" where
  "stepper_get_position s m =
     (let x = steppers m s;
          p = (if single_sched s m then position x - st_count x else position x - st_count x div 2)
      in if p AND 0x80000000 \<noteq> 0 then - p else p)"

definition command_stepper_get_position :: "u32 list \<Rightarrow> ('e, unit) stfw" where
  "command_stepper_get_position args =
     (let oid = to_u8 (args ! 0) in
     thn (stepper_oid_lookup oid)
     (thn irq_disable
     (bnd (reads (stepper_get_position oid)) (\<lambda>p.
     thn irq_enable
     (command_sendf ''stepper_position oid=%c pos=%i'' [Num (to_u32 oid), Num (p - POSITION_BIAS)])))))"

text \<open>The loop that frees the queue; a queue never holds more nodes than the pool has (1024).\<close>

primrec free_moves :: "nat \<Rightarrow> u8 \<Rightarrow> ('e, unit) stfw" where
  "free_moves 0 s = bnd (reads (\<lambda>m. st_mq (steppers m s))) (\<lambda>mq.
     if move_queue_empty mq then ret () else undef)"
| "free_moves (Suc n) s =
     bnd (reads (\<lambda>m. st_mq (steppers m s))) (\<lambda>mq.
     if move_queue_empty mq then ret ()
     else
       bnd (move_queue_pop mq) (\<lambda>r.
       thn (upd_stepper s (\<lambda>x. x\<lparr>st_mq := snd r\<rparr>))
       (thn (move_free (fst r))
       (free_moves n s))))"

definition stepper_stop :: "u8 \<Rightarrow> u8 \<Rightarrow> ('e, unit) stfw" where
  "stepper_stop s reason =
     thn (sched_del_timer (stimer s))
     (thn (upd_timer (stimer s) (\<lambda>t. t\<lparr>waketime := 0\<rparr>))
     (thn (upd_stepper s (\<lambda>x. x\<lparr>next_step_time := 0\<rparr>))
     (bnd (reads (stepper_get_position s)) (\<lambda>p.
     thn (upd_stepper s (\<lambda>x. x\<lparr>position := - p\<rparr>))
     (thn (upd_stepper s (\<lambda>x. x\<lparr>st_count := 0\<rparr>))
     (thn (upd_stepper s (\<lambda>x. x\<lparr>st_flags :=
             (st_flags x AND (SF_INVERT_STEP OR SF_SINGLE_SCHED)) OR SF_NEED_RESET\<rparr>))
     (bnd (reads (\<lambda>m. steppers m s)) (\<lambda>x.
     thn (gpio_out_write (dir_pin x) False)
     (bnd (reads (\<lambda>m. HAVE_EDGE_OPTIMIZATION (cfg m))) (\<lambda>edge.
     thn (whenM (\<not> (edge \<and> has_flag (st_flags x) SF_SINGLE_SCHED))
            (gpio_out_write (step_pin x) (has_flag (st_flags x) SF_INVERT_STEP)))
     (free_moves 1024 s)))))))))))"

definition stepper_signal :: "sigfunc \<Rightarrow> u8 \<Rightarrow> u8 \<Rightarrow> ('e, unit) stfw" where
  "stepper_signal f s reason = (case f of stepper_stop_f \<Rightarrow> stepper_stop s reason)"

definition command_stepper_stop_on_trigger :: "u32 list \<Rightarrow> ('e, unit) stfw" where
  "command_stepper_stop_on_trigger args =
     (let s = to_u8 (args ! 0); ts = to_u8 (args ! 1) in
     thn (stepper_oid_lookup s)
     (thn (trsync_oid_lookup ts)
     (trsync_add_signal ts s (Some stepper_stop_f))))"

definition stepper_shutdown :: "('e, unit) stfw" where
  "stepper_shutdown = foreach_oid config_stepper (\<lambda>s.
     thn (upd_stepper s (\<lambda>x. x\<lparr>st_mq := move_queue_clear (st_mq x)\<rparr>))
     (stepper_stop s 0))"

end
