(* ===== verification/Endstop.thy ===== *)
theory Endstop
  imports Stepper
begin

text \<open>
  End stops, \<^verbatim>\<open>src/endstop.c\<close>: an input pin is polled by a timer while homing; when it matches,
  it is sampled a number of times in quick succession, and if all samples match the trigger
  fires.
\<close>

subsection \<open>State\<close>

record endstop =
  es_pin :: u32
  es_rest_time :: u32
  es_sample_time :: u32
  es_nextwake :: u32
  es_ts :: "u8 option"
  es_flags :: u8
  es_sample_count :: u8
  es_trigger_count :: u8
  es_trigger_reason :: u8

record endstop_state = stepper_state +
  endstops :: "u8 \<Rightarrow> endstop"

definition zero_endstop :: endstop where
  "zero_endstop = \<lparr>es_pin = 0, es_rest_time = 0, es_sample_time = 0, es_nextwake = 0, es_ts = None,
     es_flags = 0, es_sample_count = 0, es_trigger_count = 0, es_trigger_reason = 0\<rparr>"

definition endstop_init :: "config \<Rightarrow> board_in \<Rightarrow> endstop_state" where
  "endstop_init c e = stepper_state.extend (stepper_init c e) (endstop_state.fields (\<lambda>_. zero_endstop))"

type_synonym ('e, 'a) esfw = "('e endstop_state_scheme, 'a) fw"

definition upd_endstop :: "u8 \<Rightarrow> (endstop \<Rightarrow> endstop) \<Rightarrow> ('e, unit) esfw" where
  "upd_endstop e f = modify (\<lambda>m. m\<lparr>endstops := (endstops m)(e := f (endstops m e))\<rparr>)"

definition ESF_PIN_HIGH :: u8 where "ESF_PIN_HIGH = 1"
definition ESF_HOMING :: u8 where "ESF_HOMING = 2"

text \<open>The test \<^verbatim>\<open>(val ? ~flags : flags) & ESF_PIN_HIGH\<close>: the pin does not match.\<close>

definition es_mismatch :: "bool \<Rightarrow> u8 \<Rightarrow> bool" where
  "es_mismatch val flags \<longleftrightarrow> (if val then NOT flags else flags) AND ESF_PIN_HIGH \<noteq> 0"

subsection \<open>Timer events\<close>

definition endstop_oversample_event :: "u8 \<Rightarrow> ('e, sf) esfw" where
  "endstop_oversample_event e =
     bnd (reads (\<lambda>m. endstops m e)) (\<lambda>x.
     bnd (gpio_in_read (es_pin x)) (\<lambda>val.
     if es_mismatch val (es_flags x) then
       thn (upd_timer (ObjTimer e) (\<lambda>t. t\<lparr>func := Some endstop_event_f\<rparr>))
       (thn (upd_timer (ObjTimer e) (\<lambda>t. t\<lparr>waketime := es_nextwake x\<rparr>))
       (thn (upd_endstop e (\<lambda>x. x\<lparr>es_trigger_count := es_sample_count x\<rparr>))
       (ret SF_RESCHEDULE)))
     else
       let count = es_trigger_count x - 1 in
       if count = 0 then
         (case es_ts x of
            None \<Rightarrow> undef
          | Some ts \<Rightarrow> thn (trsync_do_trigger stepper_signal ts (es_trigger_reason x)) (ret SF_DONE))
       else
         thn (upd_endstop e (\<lambda>x. x\<lparr>es_trigger_count := count\<rparr>))
         (thn (upd_timer (ObjTimer e) (\<lambda>t. t\<lparr>waketime := waketime t + es_sample_time x\<rparr>))
         (ret SF_RESCHEDULE))))"

definition endstop_event :: "u8 \<Rightarrow> ('e, sf) esfw" where
  "endstop_event e =
     bnd (reads (\<lambda>m. endstops m e)) (\<lambda>x.
     bnd (gpio_in_read (es_pin x)) (\<lambda>val.
     bnd (reads (\<lambda>m. waketime (timers m (ObjTimer e)) + es_rest_time x)) (\<lambda>nextwake.
     if es_mismatch val (es_flags x) then
       thn (upd_timer (ObjTimer e) (\<lambda>t. t\<lparr>waketime := nextwake\<rparr>)) (ret SF_RESCHEDULE)
     else
       thn (upd_endstop e (\<lambda>x. x\<lparr>es_nextwake := nextwake\<rparr>))
       (thn (upd_timer (ObjTimer e) (\<lambda>t. t\<lparr>func := Some endstop_oversample_event_f\<rparr>))
       (endstop_oversample_event e)))))"

subsection \<open>Commands\<close>

definition command_config_endstop :: "u32 list \<Rightarrow> ('e, unit) esfw" where
  "command_config_endstop args =
     (let e = to_u8 (args ! 0) in
     thn (oid_alloc e config_endstop)
     (thn (upd_endstop e (\<lambda>_. zero_endstop))
     (bnd (gpio_in_setup (args ! 1) (args ! 2)) (\<lambda>pin.
     upd_endstop e (\<lambda>x. x\<lparr>es_pin := pin\<rparr>)))))"

definition command_endstop_home :: "u32 list \<Rightarrow> ('e, unit) esfw" where
  "command_endstop_home args =
     (let e = to_u8 (args ! 0) in
     thn (oid_lookup e config_endstop)
     (thn (sched_del_timer (ObjTimer e))
     (thn (upd_timer (ObjTimer e) (\<lambda>t. t\<lparr>waketime := args ! 1\<rparr>))
     (thn (upd_endstop e (\<lambda>x. x\<lparr>es_sample_time := args ! 2, es_sample_count := to_u8 (args ! 3)\<rparr>))
     (if to_u8 (args ! 3) = (0 :: u8) then
        upd_endstop e (\<lambda>x. x\<lparr>es_ts := None, es_flags := 0\<rparr>)
      else
        thn (upd_endstop e (\<lambda>x. x\<lparr>es_rest_time := args ! 4\<rparr>))
        (thn (upd_timer (ObjTimer e) (\<lambda>t. t\<lparr>func := Some endstop_event_f\<rparr>))
        (thn (upd_endstop e (\<lambda>x. x\<lparr>es_trigger_count := es_sample_count x\<rparr>))
        (thn (upd_endstop e (\<lambda>x. x\<lparr>es_flags :=
                ESF_HOMING OR (if args ! 5 \<noteq> 0 then ESF_PIN_HIGH else 0)\<rparr>))
        (thn (trsync_oid_lookup (to_u8 (args ! 6)))
        (thn (upd_endstop e (\<lambda>x. x\<lparr>es_ts := Some (to_u8 (args ! 6))\<rparr>))
        (thn (upd_endstop e (\<lambda>x. x\<lparr>es_trigger_reason := to_u8 (args ! 7)\<rparr>))
        (sched_add_timer (ObjTimer e)))))))))))))"

definition command_endstop_query_state :: "u32 list \<Rightarrow> ('e, unit) esfw" where
  "command_endstop_query_state args =
     (let oid = to_u8 (args ! 0) in
     thn (oid_lookup oid config_endstop)
     (thn irq_disable
     (bnd (reads (\<lambda>m. endstops m oid)) (\<lambda>x.
     thn irq_enable
     (bnd (gpio_in_read (es_pin x)) (\<lambda>v.
     command_sendf ''endstop_state oid=%c homing=%c next_clock=%u pin_value=%c''
       [Num (to_u32 oid), Num (of_bool (has_flag (es_flags x) ESF_HOMING)), Num (es_nextwake x),
        Num (of_bool v)]))))))"

end
