(* ===== verification/Adccmds.thy ===== *)
theory Adccmds
  imports Endstop
begin

text \<open>
  Analog inputs, \<^verbatim>\<open>src/adccmds.c\<close>: periodic batches of samples are summed up, checked against
  a range, and reported by a task.
\<close>

subsection \<open>State\<close>

record analog_in =
  ai_rest_time :: u32
  ai_sample_time :: u32
  ai_next_begin_time :: u32
  ai_value :: u16
  ai_min_value :: u16
  ai_max_value :: u16
  ai_pin :: u32
  ai_invalid_count :: u8
  ai_range_check_count :: u8
  ai_state :: u8
  ai_sample_count :: u8

record adc_state = endstop_state +
  analog_ins :: "u8 \<Rightarrow> analog_in"

definition zero_analog_in :: analog_in where
  "zero_analog_in = \<lparr>ai_rest_time = 0, ai_sample_time = 0, ai_next_begin_time = 0, ai_value = 0,
     ai_min_value = 0, ai_max_value = 0, ai_pin = 0, ai_invalid_count = 0, ai_range_check_count = 0,
     ai_state = 0, ai_sample_count = 0\<rparr>"

definition adc_init :: "config \<Rightarrow> board_in \<Rightarrow> adc_state" where
  "adc_init c e = endstop_state.extend (endstop_init c e) (adc_state.fields (\<lambda>_. zero_analog_in))"

type_synonym ('e, 'a) adfw = "('e adc_state_scheme, 'a) fw"

definition upd_ai :: "u8 \<Rightarrow> (analog_in \<Rightarrow> analog_in) \<Rightarrow> ('e, unit) adfw" where
  "upd_ai a f = modify (\<lambda>m. m\<lparr>analog_ins := (analog_ins m)(a := f (analog_ins m a))\<rparr>)"

definition gpio_adc_cancel_sample :: "u32 \<Rightarrow> ('e, unit) mfw" where
  "gpio_adc_cancel_sample pin = emit (GpioAdcCancel pin)"

subsection \<open>Sampling\<close>

definition analog_in_event :: "u8 \<Rightarrow> ('e, sf) adfw" where
  "analog_in_event a =
     bnd (reads (\<lambda>m. analog_ins m a)) (\<lambda>x.
     bnd (gpio_adc_sample (ai_pin x)) (\<lambda>sample_delay.
     if sample_delay \<noteq> 0 then
       thn (upd_timer (ObjTimer a) (\<lambda>t. t\<lparr>waketime := waketime t + sample_delay\<rparr>)) (ret SF_RESCHEDULE)
     else
       bnd (gpio_adc_read (ai_pin x)) (\<lambda>v0.
       let fresh = (ai_state x \<ge> ai_sample_count x);
           state = (if fresh then 0 else ai_state x);
           value = (if fresh then v0 else v0 + ai_value x) in
       thn (upd_ai a (\<lambda>x. x\<lparr>ai_value := value, ai_state := state + 1\<rparr>))
       (if state + 1 < ai_sample_count x then
          thn (upd_timer (ObjTimer a) (\<lambda>t. t\<lparr>waketime := waketime t + ai_sample_time x\<rparr>)) (ret SF_RESCHEDULE)
        else
          thn (if value \<ge> ai_min_value x \<and> value \<le> ai_max_value x then
                 upd_ai a (\<lambda>x. x\<lparr>ai_invalid_count := 0\<rparr>)
               else
                 thn (upd_ai a (\<lambda>x. x\<lparr>ai_invalid_count := ai_invalid_count x + 1\<rparr>))
                 (whenM (ai_invalid_count x + 1 \<ge> ai_range_check_count x)
                    (thn (sched_try_shutdown ''ADC out of range'')
                    (upd_ai a (\<lambda>x. x\<lparr>ai_invalid_count := 0\<rparr>)))))
          (thn (sched_wake_task analog_wake)
          (thn (upd_ai a (\<lambda>x. x\<lparr>ai_next_begin_time := ai_next_begin_time x + ai_rest_time x\<rparr>))
          (bnd (reads (\<lambda>m. ai_next_begin_time (analog_ins m a))) (\<lambda>nbt.
          thn (upd_timer (ObjTimer a) (\<lambda>t. t\<lparr>waketime := nbt\<rparr>))
          (ret SF_RESCHEDULE)))))))))"

definition command_config_analog_in :: "u32 list \<Rightarrow> ('e, unit) adfw" where
  "command_config_analog_in args =
     (let a = to_u8 (args ! 0) in
     bnd (gpio_adc_setup (args ! 1)) (\<lambda>pin.
     thn (oid_alloc a config_analog_in)
     (thn (upd_ai a (\<lambda>_. zero_analog_in))
     (thn (upd_timer (ObjTimer a) (\<lambda>t. t\<lparr>func := Some analog_in_event_f\<rparr>))
     (upd_ai a (\<lambda>x. x\<lparr>ai_pin := pin, ai_state := 1\<rparr>))))))"

definition command_query_analog_in :: "u32 list \<Rightarrow> ('e, unit) adfw" where
  "command_query_analog_in args =
     (let a = to_u8 (args ! 0) in
     thn (oid_lookup a config_analog_in)
     (thn (sched_del_timer (ObjTimer a))
     (thn (bnd (reads (\<lambda>m. ai_pin (analog_ins m a))) gpio_adc_cancel_sample)
     (thn (upd_ai a (\<lambda>x. x\<lparr>ai_next_begin_time := args ! 1\<rparr>))
     (thn (upd_timer (ObjTimer a) (\<lambda>t. t\<lparr>waketime := args ! 1\<rparr>))
     (thn (upd_ai a (\<lambda>x. x\<lparr>ai_sample_time := args ! 2, ai_sample_count := to_u8 (args ! 3),
             ai_state := to_u8 (args ! 3) + 1, ai_rest_time := args ! 4, ai_min_value := to_u16 (args ! 5),
             ai_max_value := to_u16 (args ! 6), ai_range_check_count := to_u8 (args ! 7)\<rparr>))
     (whenM (to_u8 (args ! 3) \<noteq> (0 :: u8)) (sched_add_timer (ObjTimer a)))))))))"

definition analog_in_task :: "('e, unit) adfw" where
  "analog_in_task =
     bnd (sched_check_wake analog_wake) (\<lambda>w.
     if \<not> w then ret ()
     else foreach_oid config_analog_in (\<lambda>oid.
       bnd (reads (\<lambda>m. analog_ins m oid)) (\<lambda>x0.
       if ai_state x0 \<noteq> ai_sample_count x0 then ret ()
       else
         thn irq_disable
         (bnd (reads (\<lambda>m. analog_ins m oid)) (\<lambda>x.
         if ai_state x \<noteq> ai_sample_count x then irq_enable
         else
           thn (upd_ai oid (\<lambda>x. x\<lparr>ai_state := ai_state x + 1\<rparr>))
           (thn irq_enable
           (command_sendf ''analog_in_state oid=%c next_clock=%u value=%hu''
              [Num (to_u32 oid), Num (ai_next_begin_time x), Num (to_u32 (ai_value x))])))))))"

definition analog_in_shutdown :: "('e, unit) adfw" where
  "analog_in_shutdown = foreach_oid config_analog_in (\<lambda>i.
     bnd (reads (\<lambda>m. analog_ins m i)) (\<lambda>x.
     thn (gpio_adc_cancel_sample (ai_pin x))
     (whenM (ai_sample_count x \<noteq> 0)
        (thn (upd_ai i (\<lambda>x. x\<lparr>ai_state := ai_sample_count x + 1,
                ai_next_begin_time := ai_next_begin_time x + ai_rest_time x\<rparr>))
        (bnd (reads (\<lambda>m. ai_next_begin_time (analog_ins m i))) (\<lambda>nbt.
        thn (upd_timer (ObjTimer i) (\<lambda>t. t\<lparr>waketime := nbt\<rparr>))
        (sched_add_timer (ObjTimer i))))))))"

end
