(* ===== verification/Buttons.thy ===== *)
theory Buttons
  imports Adccmds
begin

text \<open>
  Buttons, \<^verbatim>\<open>src/buttons.c\<close>: up to eight pins are polled and debounced; every change is queued in
  a buffer of eight reports, sent by a task, and sent again until the host acknowledges it.
\<close>

subsection \<open>State\<close>

record buttons =
  bt_rest_ticks :: u32
  pressed :: u8
  last_pressed :: u8
  report_count :: u8
  reports :: "u8 list"
  ack_count :: u8
  retransmit_state :: u8
  retransmit_count :: u8
  button_count :: u8
  bt_pins :: "u32 list"

record buttons_state = adc_state +
  buttonss :: "u8 \<Rightarrow> buttons"

definition zero_buttons :: "nat \<Rightarrow> buttons" where
  "zero_buttons n = \<lparr>bt_rest_ticks = 0, pressed = 0, last_pressed = 0, report_count = 0,
     reports = replicate 8 0, ack_count = 0, retransmit_state = 0, retransmit_count = 0,
     button_count = 0, bt_pins = replicate n 0\<rparr>"

definition buttons_init :: "config \<Rightarrow> board_in \<Rightarrow> buttons_state" where
  "buttons_init c e = adc_state.extend (adc_init c e) (buttons_state.fields (\<lambda>_. zero_buttons 0))"

type_synonym ('e, 'a) btfw = "('e buttons_state_scheme, 'a) fw"

definition upd_buttons :: "u8 \<Rightarrow> (buttons \<Rightarrow> buttons) \<Rightarrow> ('e, unit) btfw" where
  "upd_buttons b f = modify (\<lambda>m. m\<lparr>buttonss := (buttonss m)(b := f (buttonss m b))\<rparr>)"

definition BF_NO_RETRANSMIT :: u8 where "BF_NO_RETRANSMIT = 0x80"
definition BF_PENDING :: u8 where "BF_PENDING = 0xff"
definition BF_ACKED :: u8 where "BF_ACKED = 0xfe"

subsection \<open>Polling\<close>

primrec read_pins :: "u32 list \<Rightarrow> u8 \<Rightarrow> u8 \<Rightarrow> ('e, u8) mfw" where
  "read_pins [] b status = ret status"
| "read_pins (p # ps) b status =
     bnd (gpio_in_read p) (\<lambda>val.
     read_pins ps (push_bit 1 b) (if val then status OR b else status))"

definition buttons_event :: "u8 \<Rightarrow> ('e, sf) btfw" where
  "buttons_event b =
     bnd (reads (\<lambda>m. buttonss m b)) (\<lambda>x.
     if length (bt_pins x) < unat (button_count x) then undef
     else
     bnd (read_pins (take (unat (button_count x)) (bt_pins x)) 1 0) (\<lambda>status.
     let diff = status XOR pressed x;
         debounced = NOT (status XOR last_pressed x) in
     thn (whenM (diff \<noteq> 0 \<and> diff AND debounced \<noteq> 0)
            (thn (upd_buttons b (\<lambda>x. x\<lparr>pressed := (pressed x AND NOT debounced) OR (status AND debounced)\<rparr>))
            (whenM (report_count x < 8)
               (thn (upd_buttons b (\<lambda>x. x\<lparr>reports := (reports x)[unat (report_count x) := pressed x],
                                          report_count := report_count x + 1\<rparr>))
               (thn (sched_wake_task buttons_wake)
               (upd_buttons b (\<lambda>x. x\<lparr>retransmit_state := BF_PENDING\<rparr>)))))))
     (thn (upd_buttons b (\<lambda>x. x\<lparr>last_pressed := status\<rparr>))
     (bnd (reads (\<lambda>m. retransmit_state (buttonss m b))) (\<lambda>rs.
     thn (whenM (\<not> has_flag rs BF_NO_RETRANSMIT)
            (thn (whenM (has_flag (rs - 1) BF_NO_RETRANSMIT) (sched_wake_task buttons_wake))
            (upd_buttons b (\<lambda>x. x\<lparr>retransmit_state := rs - 1\<rparr>))))
     (thn (upd_timer (ObjTimer b) (\<lambda>t. t\<lparr>waketime := waketime t + bt_rest_ticks x\<rparr>))
     (ret SF_RESCHEDULE)))))))"

subsection \<open>Commands\<close>

definition command_config_buttons :: "u32 list \<Rightarrow> ('e, unit) btfw" where
  "command_config_buttons args =
     (let oid = to_u8 (args ! 0); n = (to_u8 (args ! 1) :: u8) in
     if n > 8 then sched_shutdown ''Max of 8 buttons''
     else
       bnd (reads cfg) (\<lambda>c.
       thn (oid_alloc_sized oid config_buttons (struct_size c config_buttons + gpio_in_size c * unat n))
       (thn (upd_buttons oid (\<lambda>_. zero_buttons (unat n)))
       (thn (upd_buttons oid (\<lambda>x. x\<lparr>button_count := n\<rparr>))
       (upd_timer (ObjTimer oid) (\<lambda>t. t\<lparr>func := Some buttons_event_f\<rparr>))))))"

definition command_buttons_add :: "u32 list \<Rightarrow> ('e, unit) btfw" where
  "command_buttons_add args =
     (let b = to_u8 (args ! 0); pos = (to_u8 (args ! 1) :: u8) in
     thn (oid_lookup b config_buttons)
     (bnd (reads (\<lambda>m. button_count (buttonss m b))) (\<lambda>n.
     if pos \<ge> n then sched_shutdown ''Set button past maximum button count''
     else
       bnd (gpio_in_setup (args ! 2) (args ! 3)) (\<lambda>pin.
       upd_buttons b (\<lambda>x. x\<lparr>bt_pins := (bt_pins x)[unat pos := pin]\<rparr>)))))"

definition command_buttons_query :: "u32 list \<Rightarrow> ('e, unit) btfw" where
  "command_buttons_query args =
     (let b = to_u8 (args ! 0) in
     thn (oid_lookup b config_buttons)
     (thn (sched_del_timer (ObjTimer b))
     (thn (upd_timer (ObjTimer b) (\<lambda>t. t\<lparr>waketime := args ! 1\<rparr>))
     (thn (upd_buttons b (\<lambda>x. x\<lparr>bt_rest_ticks := args ! 2, pressed := to_u8 (args ! 4),
             last_pressed := to_u8 (args ! 4), ack_count := 0, report_count := 0,
             retransmit_state := BF_ACKED, retransmit_count := to_u8 (args ! 3)\<rparr>))
     (if to_u8 (args ! 3) \<ge> BF_NO_RETRANSMIT then sched_shutdown ''Invalid buttons retransmit count''
      else whenM (args ! 2 \<noteq> 0) (sched_add_timer (ObjTimer b)))))))"

text \<open>The copy loop \<^verbatim>\<open>reports[i] = reports[i+count]\<close>.\<close>

primrec shift_reports :: "nat \<Rightarrow> nat \<Rightarrow> nat \<Rightarrow> u8 list \<Rightarrow> u8 list" where
  "shift_reports count i 0 rs = rs"
| "shift_reports count i (Suc n) rs = shift_reports count (Suc i) n (rs[i := rs ! (i + count)])"

definition command_buttons_ack :: "u32 list \<Rightarrow> ('e, unit) btfw" where
  "command_buttons_ack args =
     (let b = to_u8 (args ! 0); count = (to_u8 (args ! 1) :: u8) in
     thn (oid_lookup b config_buttons)
     (thn (upd_buttons b (\<lambda>x. x\<lparr>ack_count := ack_count x + count\<rparr>))
     (thn irq_disable
     (bnd (reads (\<lambda>m. report_count (buttonss m b))) (\<lambda>rc.
     thn (if count \<ge> rc then upd_buttons b (\<lambda>x. x\<lparr>report_count := 0, retransmit_state := BF_ACKED\<rparr>)
          else upd_buttons b (\<lambda>x. x\<lparr>reports := shift_reports (unat count) 0 (unat (rc - count)) (reports x),
                                     report_count := rc - count\<rparr>))
     irq_enable)))))"

definition buttons_task :: "('e, unit) btfw" where
  "buttons_task =
     bnd (sched_check_wake buttons_wake) (\<lambda>w.
     if \<not> w then ret ()
     else foreach_oid config_buttons (\<lambda>oid.
       bnd (reads (\<lambda>m. buttonss m oid)) (\<lambda>x0.
       if retransmit_state x0 \<noteq> BF_PENDING then ret ()
       else
         thn irq_disable
         (bnd (reads (\<lambda>m. buttonss m oid)) (\<lambda>x.
         if report_count x = 0 then irq_enable
         else
           thn (upd_buttons oid (\<lambda>x. x\<lparr>retransmit_state := retransmit_count x\<rparr>))
           (thn irq_enable
           (command_sendf ''buttons_state oid=%c ack_count=%c state=%*s''
              [Num (to_u32 oid), Num (to_u32 (ack_count x)),
               Buf (take (unat (report_count x)) (reports x))])))))))"

end
