(* ===== verification/Gpiocmds.thy ===== *)
theory Gpiocmds
  imports Buttons
begin

text \<open>
  Digital outputs, \<^verbatim>\<open>src/gpiocmds.c\<close>: scheduled updates of a pin, software pulse width
  modulation, and the safety limit on the time a pin may stay away from its default value.
\<close>

subsection \<open>State\<close>

record digital_out_s =
  do_on_duration :: u32
  off_duration :: u32
  end_time :: u32
  do_pin :: u32
  do_max_duration :: u32
  cycle_time :: u32
  do_mq :: move_queue_head
  do_flags :: u8

record digital_move =
  dm_waketime :: u32
  dm_on_duration :: u32

record gpio_state = buttons_state +
  digital_outs :: "u8 \<Rightarrow> digital_out_s"
  digital_moves :: "nat \<Rightarrow> digital_move"

definition zero_digital_out :: digital_out_s where
  "zero_digital_out = \<lparr>do_on_duration = 0, off_duration = 0, end_time = 0, do_pin = 0,
     do_max_duration = 0, cycle_time = 0, do_mq = \<lparr>mq_first = None, mq_last = None\<rparr>, do_flags = 0\<rparr>"

definition gpio_init :: "config \<Rightarrow> board_in \<Rightarrow> gpio_state" where
  "gpio_init c e = buttons_state.extend (buttons_init c e)
     (gpio_state.fields (\<lambda>_. zero_digital_out) (\<lambda>_. \<lparr>dm_waketime = 0, dm_on_duration = 0\<rparr>))"

type_synonym ('e, 'a) gpfw = "('e gpio_state_scheme, 'a) fw"

definition upd_do :: "u8 \<Rightarrow> (digital_out_s \<Rightarrow> digital_out_s) \<Rightarrow> ('e, unit) gpfw" where
  "upd_do d f = modify (\<lambda>m. m\<lparr>digital_outs := (digital_outs m)(d := f (digital_outs m d))\<rparr>)"

definition upd_dmove :: "nat \<Rightarrow> (digital_move \<Rightarrow> digital_move) \<Rightarrow> ('e, unit) gpfw" where
  "upd_dmove x f = modify (\<lambda>m. m\<lparr>digital_moves := (digital_moves m)(x := f (digital_moves m x))\<rparr>)"

definition DF_ON :: u8 where "DF_ON = 1"
definition DF_TOGGLING :: u8 where "DF_TOGGLING = 2"
definition DF_CHECK_END :: u8 where "DF_CHECK_END = 4"
definition DF_DEFAULT_ON :: u8 where "DF_DEFAULT_ON = 16"

subsection \<open>Timer events\<close>

definition digital_toggle_event :: "u8 \<Rightarrow> ('e, sf) gpfw" where
  "digital_toggle_event d =
     thn (bnd (reads (\<lambda>m. do_pin (digital_outs m d))) gpio_out_toggle_noirq)
     (thn (upd_do d (\<lambda>x. x\<lparr>do_flags := do_flags x XOR DF_ON\<rparr>))
     (bnd (reads (\<lambda>m. digital_outs m d)) (\<lambda>x.
     bnd (reads (\<lambda>m. waketime (timers m (ObjTimer d)))) (\<lambda>w0.
     let w = (if has_flag (do_flags x) DF_ON then w0 + do_on_duration x else w0 + off_duration x) in
     if has_flag (do_flags x) DF_CHECK_END \<and> \<not> timer_is_before w (end_time x) then
       thn (upd_timer (ObjTimer d) (\<lambda>t. t\<lparr>func := Some digital_load_event_f\<rparr>))
       (thn (upd_timer (ObjTimer d) (\<lambda>t. t\<lparr>waketime := end_time x\<rparr>))
       (ret SF_RESCHEDULE))
     else
       thn (upd_timer (ObjTimer d) (\<lambda>t. t\<lparr>waketime := w\<rparr>))
       (ret SF_RESCHEDULE)))))"

text \<open>
  The flags and the end time that follow from a new setting, before the queue is
  looked at: \<open>w\<close> is the wake time of the timer.
\<close>

definition next_end_time :: "digital_out_s \<Rightarrow> u32 \<Rightarrow> u32 \<Rightarrow> u8 \<times> u32" where
  "next_end_time x w on_duration =
     (let flags = (if on_duration \<noteq> 0 then DF_ON else 0);
          maxend = w + do_max_duration x in
      if flags = 0 \<or> on_duration \<ge> cycle_time x then
        (if (flags = 0) \<noteq> (\<not> has_flag (do_flags x) DF_DEFAULT_ON) \<and> do_max_duration x \<noteq> 0
         then (flags OR DF_CHECK_END, maxend) else (flags, 0))
      else
        (if do_max_duration x \<noteq> 0 then (flags OR DF_TOGGLING OR DF_CHECK_END, maxend)
         else (flags OR DF_TOGGLING, 0)))"

definition digital_load_event :: "u8 \<Rightarrow> ('e, sf) gpfw" where
  "digital_load_event d =
     bnd (reads (\<lambda>m. digital_outs m d)) (\<lambda>x.
     if move_queue_empty (do_mq x) then sched_shutdown ''Missed scheduling of next digital out event''
     else
     bnd (move_queue_pop (do_mq x)) (\<lambda>r.
     thn (upd_do d (\<lambda>x. x\<lparr>do_mq := snd r\<rparr>))
     (bnd (reads (\<lambda>m. dm_on_duration (digital_moves m (fst r)))) (\<lambda>on_duration.
     thn (gpio_out_write (do_pin x) (on_duration \<noteq> 0))
     (thn (move_free (fst r))
     (bnd (reads (\<lambda>m. waketime (timers m (ObjTimer d)))) (\<lambda>w.
     bnd (reads (\<lambda>m. (case move_queue_first (snd r) of
            None \<Rightarrow> None | Some nn \<Rightarrow> Some (dm_waketime (digital_moves m nn))))) (\<lambda>nextwake.
     let (flags0, end0) = next_end_time x w on_duration in
     bnd (case nextwake of
            None \<Rightarrow> ret (flags0, end0)
          | Some wake \<Rightarrow>
              if has_flag flags0 DF_CHECK_END \<and> timer_is_before end0 wake
              then sched_shutdown ''Scheduled digital out event will exceed max_duration''
              else ret (flags0 OR DF_CHECK_END, wake)) (\<lambda>(flags, end').
     thn (upd_do d (\<lambda>x. x\<lparr>end_time := end', do_flags := flags OR (do_flags x AND DF_DEFAULT_ON)\<rparr>))
     (if \<not> has_flag flags DF_TOGGLING then
        (if \<not> has_flag flags DF_CHECK_END then ret SF_DONE
         else thn (upd_timer (ObjTimer d) (\<lambda>t. t\<lparr>waketime := end'\<rparr>)) (ret SF_RESCHEDULE))
      else if has_flag flags DF_CHECK_END \<and> \<not> timer_is_before (w + on_duration) end' then
        thn (upd_timer (ObjTimer d) (\<lambda>t. t\<lparr>waketime := end'\<rparr>)) (ret SF_RESCHEDULE)
      else
        thn (upd_timer (ObjTimer d) (\<lambda>t. t\<lparr>func := Some digital_toggle_event_f\<rparr>))
        (thn (upd_timer (ObjTimer d) (\<lambda>t. t\<lparr>waketime := w + on_duration\<rparr>))
        (thn (upd_do d (\<lambda>x. x\<lparr>do_on_duration := on_duration, off_duration := cycle_time x - on_duration\<rparr>))
        (ret SF_RESCHEDULE)))))))))))))"

subsection \<open>Commands\<close>

definition command_config_digital_out :: "u32 list \<Rightarrow> ('e, unit) gpfw" where
  "command_config_digital_out args =
     (let d = to_u8 (args ! 0) in
     bnd (gpio_out_setup (args ! 1) (args ! 2 \<noteq> 0)) (\<lambda>pin.
     thn (oid_alloc d config_digital_out)
     (thn (upd_do d (\<lambda>_. zero_digital_out))
     (thn (upd_do d (\<lambda>x. x\<lparr>do_pin := pin,
             do_flags := (if args ! 2 \<noteq> 0 then DF_ON else 0) OR (if args ! 3 \<noteq> 0 then DF_DEFAULT_ON else 0),
             do_max_duration := args ! 4\<rparr>))
     (bnd (reads (\<lambda>m. move_size (cfg m) digital_move_t)) (\<lambda>sz.
     bnd (move_queue_setup sz) (\<lambda>mq.
     upd_do d (\<lambda>x. x\<lparr>do_mq := mq\<rparr>))))))))"

definition command_set_digital_out_pwm_cycle :: "u32 list \<Rightarrow> ('e, unit) gpfw" where
  "command_set_digital_out_pwm_cycle args =
     (let d = to_u8 (args ! 0) in
     thn (oid_lookup d config_digital_out)
     (thn irq_disable
     (bnd (reads (\<lambda>m. do_mq (digital_outs m d))) (\<lambda>mq.
     if \<not> move_queue_empty mq
     then sched_shutdown ''Can not set soft pwm cycle ticks while updates pending''
     else
       thn (upd_do d (\<lambda>x. x\<lparr>cycle_time := args ! 1\<rparr>))
       irq_enable))))"

definition command_queue_digital_out :: "u32 list \<Rightarrow> ('e, unit) gpfw" where
  "command_queue_digital_out args =
     (let d = to_u8 (args ! 0); time = args ! 1 in
     thn (oid_lookup d config_digital_out)
     (bnd move_alloc (\<lambda>mv.
     thn (upd_dmove mv (\<lambda>v. v\<lparr>dm_waketime := time\<rparr>))
     (thn (upd_dmove mv (\<lambda>v. v\<lparr>dm_on_duration := args ! 2\<rparr>))
     (thn irq_disable
     (bnd (reads (\<lambda>m. do_mq (digital_outs m d))) (\<lambda>mq.
     bnd (move_queue_push mv mq) (\<lambda>r.
     thn (upd_do d (\<lambda>x. x\<lparr>do_mq := snd r\<rparr>))
     (if \<not> fst r then irq_enable
      else
        bnd (reads (\<lambda>m. digital_outs m d)) (\<lambda>x.
        if has_flag (do_flags x) DF_CHECK_END \<and> timer_is_before (end_time x) time
        then sched_shutdown ''Scheduled digital out event will exceed max_duration''
        else
          thn (upd_do d (\<lambda>x. x\<lparr>end_time := time\<rparr>))
          (thn (upd_do d (\<lambda>y. y\<lparr>do_flags := do_flags x OR DF_CHECK_END\<rparr>))
          (bnd (reads (\<lambda>m. waketime (timers m (ObjTimer d)))) (\<lambda>w.
          thn (whenM (\<not> (has_flag (do_flags x) DF_TOGGLING \<and> timer_is_before w time))
                 (thn (sched_del_timer (ObjTimer d))
                 (thn (upd_timer (ObjTimer d) (\<lambda>t. t\<lparr>waketime := time\<rparr>))
                 (thn (upd_timer (ObjTimer d) (\<lambda>t. t\<lparr>func := Some digital_load_event_f\<rparr>))
                 (sched_add_timer (ObjTimer d))))))
          irq_enable)))))))))))))"

definition command_update_digital_out :: "u32 list \<Rightarrow> ('e, unit) gpfw" where
  "command_update_digital_out args =
     (let d = to_u8 (args ! 0) in
     thn (oid_lookup d config_digital_out)
     (thn (sched_del_timer (ObjTimer d))
     (bnd (reads (\<lambda>m. digital_outs m d)) (\<lambda>x.
     if \<not> move_queue_empty (do_mq x) then sched_shutdown ''update_digital_out not valid with active queue''
     else
       let on_flag = (if to_u8 (args ! 1) \<noteq> (0 :: u8) then DF_ON else 0);
           def = has_flag (do_flags x) DF_DEFAULT_ON in
       thn (gpio_out_write (do_pin x) (on_flag \<noteq> 0))
       (if (on_flag = 0) \<noteq> (\<not> def) \<and> do_max_duration x \<noteq> 0 then
          bnd timer_read_time (\<lambda>now.
          thn (upd_do d (\<lambda>x. x\<lparr>end_time := now + do_max_duration x\<rparr>))
          (thn (upd_timer (ObjTimer d) (\<lambda>t. t\<lparr>waketime := now + do_max_duration x\<rparr>))
          (thn (upd_timer (ObjTimer d) (\<lambda>t. t\<lparr>func := Some digital_load_event_f\<rparr>))
          (thn (upd_do d (\<lambda>x. x\<lparr>do_flags := (do_flags x AND DF_DEFAULT_ON) OR on_flag OR DF_CHECK_END\<rparr>))
          (sched_add_timer (ObjTimer d))))))
        else upd_do d (\<lambda>x. x\<lparr>do_flags := (do_flags x AND DF_DEFAULT_ON) OR on_flag\<rparr>))))))"

definition digital_out_shutdown :: "('e, unit) gpfw" where
  "digital_out_shutdown = foreach_oid config_digital_out (\<lambda>i.
     bnd (reads (\<lambda>m. digital_outs m i)) (\<lambda>x.
     thn (gpio_out_write (do_pin x) (has_flag (do_flags x) DF_DEFAULT_ON))
     (thn (upd_do i (\<lambda>x. x\<lparr>do_flags :=
             (if has_flag (do_flags x) DF_DEFAULT_ON then DF_ON OR DF_DEFAULT_ON else 0)\<rparr>))
     (upd_do i (\<lambda>x. x\<lparr>do_mq := move_queue_clear (do_mq x)\<rparr>)))))"

definition command_set_digital_out :: "u32 list \<Rightarrow> ('e, unit) gpfw" where
  "command_set_digital_out args =
     bnd (gpio_out_setup (args ! 0) (args ! 1 \<noteq> 0)) (\<lambda>_. ret ())"

end
