(* ===== verification/Pwmcmds.thy ===== *)
theory Pwmcmds
  imports Gpiocmds
begin

text \<open>
  Hardware pulse width modulation, \<^verbatim>\<open>src/pwmcmds.c\<close>: scheduled updates of a duty cycle, with
  the same safety limit as the digital outputs.
\<close>

subsection \<open>State\<close>

record pwm_out_s =
  po_pin :: u32
  po_max_duration :: u32
  default_value :: u16
  po_mq :: move_queue_head

record pwm_move =
  pm_waketime :: u32
  pm_value :: u16

record pwm_state = gpio_state +
  pwm_outs :: "u8 \<Rightarrow> pwm_out_s"
  pwm_moves :: "nat \<Rightarrow> pwm_move"

definition zero_pwm_out :: pwm_out_s where
  "zero_pwm_out = \<lparr>po_pin = 0, po_max_duration = 0, default_value = 0,
     po_mq = \<lparr>mq_first = None, mq_last = None\<rparr>\<rparr>"

definition pwm_init :: "config \<Rightarrow> board_in \<Rightarrow> pwm_state" where
  "pwm_init c e = gpio_state.extend (gpio_init c e)
     (pwm_state.fields (\<lambda>_. zero_pwm_out) (\<lambda>_. \<lparr>pm_waketime = 0, pm_value = 0\<rparr>))"

type_synonym ('e, 'a) pwfw = "('e pwm_state_scheme, 'a) fw"

definition upd_po :: "u8 \<Rightarrow> (pwm_out_s \<Rightarrow> pwm_out_s) \<Rightarrow> ('e, unit) pwfw" where
  "upd_po p f = modify (\<lambda>m. m\<lparr>pwm_outs := (pwm_outs m)(p := f (pwm_outs m p))\<rparr>)"

definition upd_pmove :: "nat \<Rightarrow> (pwm_move \<Rightarrow> pwm_move) \<Rightarrow> ('e, unit) pwfw" where
  "upd_pmove x f = modify (\<lambda>m. m\<lparr>pwm_moves := (pwm_moves m)(x := f (pwm_moves m x))\<rparr>)"

definition gpio_pwm_write :: "u32 \<Rightarrow> u16 \<Rightarrow> ('e, unit) mfw" where
  "gpio_pwm_write pin v = emit (GpioPwmWrite pin v)"

subsection \<open>Timer events\<close>

definition pwm_end_event :: "u8 \<Rightarrow> ('e, sf) pwfw" where
  "pwm_end_event p = sched_shutdown ''Missed scheduling of next hard pwm event''"

definition pwm_event :: "u8 \<Rightarrow> ('e, sf) pwfw" where
  "pwm_event p =
     bnd (reads (\<lambda>m. pwm_outs m p)) (\<lambda>x.
     bnd (move_queue_pop (po_mq x)) (\<lambda>r.
     thn (upd_po p (\<lambda>x. x\<lparr>po_mq := snd r\<rparr>))
     (bnd (reads (\<lambda>m. pm_value (pwm_moves m (fst r)))) (\<lambda>value.
     thn (gpio_pwm_write (po_pin x) value)
     (thn (move_free (fst r))
     (case move_queue_first (snd r) of
        None \<Rightarrow>
          if value = default_value x \<or> po_max_duration x = 0 then ret SF_DONE
          else
            thn (upd_timer (ObjTimer p) (\<lambda>t. t\<lparr>waketime := waketime t + po_max_duration x\<rparr>))
            (thn (upd_timer (ObjTimer p) (\<lambda>t. t\<lparr>func := Some pwm_end_event_f\<rparr>))
            (ret SF_RESCHEDULE))
      | Some nn \<Rightarrow>
          bnd (reads (\<lambda>m. pm_waketime (pwm_moves m nn))) (\<lambda>wake.
          bnd (reads (\<lambda>m. waketime (timers m (ObjTimer p)))) (\<lambda>w.
          if value \<noteq> default_value x \<and> po_max_duration x \<noteq> 0
             \<and> timer_is_before (w + po_max_duration x) wake
          then sched_shutdown ''Scheduled pwm event will exceed max_duration''
          else
            thn (upd_timer (ObjTimer p) (\<lambda>t. t\<lparr>waketime := wake\<rparr>))
            (ret SF_RESCHEDULE)))))))))"

subsection \<open>Commands\<close>

definition command_config_pwm_out :: "u32 list \<Rightarrow> ('e, unit) pwfw" where
  "command_config_pwm_out args =
     (let p = to_u8 (args ! 0) in
     bnd (gpio_pwm_setup (args ! 1) (args ! 2) (to_u16 (args ! 3))) (\<lambda>pin.
     thn (oid_alloc p config_pwm_out)
     (thn (upd_po p (\<lambda>_. zero_pwm_out))
     (thn (upd_po p (\<lambda>x. x\<lparr>po_pin := pin, default_value := to_u16 (args ! 4), po_max_duration := args ! 5\<rparr>))
     (thn (upd_timer (ObjTimer p) (\<lambda>t. t\<lparr>func := Some pwm_event_f\<rparr>))
     (bnd (reads (\<lambda>m. move_size (cfg m) pwm_move_t)) (\<lambda>sz.
     bnd (move_queue_setup sz) (\<lambda>mq.
     upd_po p (\<lambda>x. x\<lparr>po_mq := mq\<rparr>)))))))))"

definition command_queue_pwm_out :: "u32 list \<Rightarrow> ('e, unit) pwfw" where
  "command_queue_pwm_out args =
     (let p = to_u8 (args ! 0); time = args ! 1 in
     thn (oid_lookup p config_pwm_out)
     (bnd move_alloc (\<lambda>mv.
     thn (upd_pmove mv (\<lambda>v. v\<lparr>pm_waketime := time\<rparr>))
     (thn (upd_pmove mv (\<lambda>v. v\<lparr>pm_value := to_u16 (args ! 2)\<rparr>))
     (thn irq_disable
     (bnd (reads (\<lambda>m. po_mq (pwm_outs m p))) (\<lambda>mq.
     bnd (move_queue_push mv mq) (\<lambda>r.
     thn (upd_po p (\<lambda>x. x\<lparr>po_mq := snd r\<rparr>))
     (thn irq_enable
     (if \<not> fst r then ret ()
      else
        thn (sched_del_timer (ObjTimer p))
        (bnd (reads (\<lambda>m. timers m (ObjTimer p))) (\<lambda>t.
        if func t = Some pwm_end_event_f \<and> timer_is_before (waketime t) time
        then sched_shutdown ''Scheduled pwm event will exceed max_duration''
        else
          thn (upd_timer (ObjTimer p) (\<lambda>t. t\<lparr>func := Some pwm_event_f\<rparr>))
          (thn (upd_timer (ObjTimer p) (\<lambda>t. t\<lparr>waketime := time\<rparr>))
          (sched_add_timer (ObjTimer p)))))))))))))))"

definition pwm_shutdown :: "('e, unit) pwfw" where
  "pwm_shutdown = foreach_oid config_pwm_out (\<lambda>i.
     bnd (reads (\<lambda>m. pwm_outs m i)) (\<lambda>x.
     thn (gpio_pwm_write (po_pin x) (default_value x))
     (thn (upd_timer (ObjTimer i) (\<lambda>t. t\<lparr>func := Some pwm_event_f\<rparr>))
     (upd_po i (\<lambda>x. x\<lparr>po_mq := move_queue_clear (po_mq x)\<rparr>)))))"

definition command_set_pwm_out :: "u32 list \<Rightarrow> ('e, unit) pwfw" where
  "command_set_pwm_out args =
     bnd (gpio_pwm_setup (args ! 0) (args ! 1) (to_u16 (args ! 2))) (\<lambda>_. ret ())"

end
