(* ===== verification/Pulse_Counter.thy ===== *)
theory Pulse_Counter
  imports Pwmcmds
begin

text \<open>
  Edge counters, \<^verbatim>\<open>src/pulse_counter.c\<close>: an input pin is polled and its changes are counted.
\<close>

subsection \<open>State\<close>

record counter =
  poll_ticks :: u32
  sample_ticks :: u32
  next_sample_time :: u32
  ct_count :: u32
  last_count_time :: u32
  ct_flags :: u8
  ct_pin :: u32

record counter_state = pwm_state +
  counters :: "u8 \<Rightarrow> counter"

definition zero_counter :: counter where
  "zero_counter = \<lparr>poll_ticks = 0, sample_ticks = 0, next_sample_time = 0, ct_count = 0,
     last_count_time = 0, ct_flags = 0, ct_pin = 0\<rparr>"

definition counter_init :: "config \<Rightarrow> board_in \<Rightarrow> counter_state" where
  "counter_init c e = pwm_state.extend (pwm_init c e) (counter_state.fields (\<lambda>_. zero_counter))"

type_synonym ('e, 'a) ctfw = "('e counter_state_scheme, 'a) fw"

definition upd_counter :: "u8 \<Rightarrow> (counter \<Rightarrow> counter) \<Rightarrow> ('e, unit) ctfw" where
  "upd_counter c f = modify (\<lambda>m. m\<lparr>counters := (counters m)(c := f (counters m c))\<rparr>)"

definition CF_PENDING :: u8 where "CF_PENDING = 1"

subsection \<open>Operations\<close>

definition counter_event :: "u8 \<Rightarrow> ('e, sf) ctfw" where
  "counter_event c =
     bnd (reads (\<lambda>m. waketime (timers m (ObjTimer c)))) (\<lambda>time.
     bnd (reads (\<lambda>m. counters m c)) (\<lambda>x.
     bnd (gpio_in_read (ct_pin x)) (\<lambda>value.
     thn (whenM ((ct_count x AND 1 = 1) \<noteq> value)
            (upd_counter c (\<lambda>x. x\<lparr>ct_count := ct_count x + 1, last_count_time := time\<rparr>)))
     (thn (whenM (timer_is_before (next_sample_time x) time)
             (thn (upd_counter c (\<lambda>x. x\<lparr>ct_flags := ct_flags x OR CF_PENDING,
                                         next_sample_time := time + sample_ticks x\<rparr>))
             (sched_wake_task counter_wake)))
     (thn (upd_timer (ObjTimer c) (\<lambda>t. t\<lparr>waketime := waketime t + poll_ticks x\<rparr>))
     (ret SF_RESCHEDULE))))))"

definition command_config_counter :: "u32 list \<Rightarrow> ('e, unit) ctfw" where
  "command_config_counter args =
     (let c = to_u8 (args ! 0) in
     thn (oid_alloc c config_counter)
     (thn (upd_counter c (\<lambda>_. zero_counter))
     (bnd (gpio_in_setup (args ! 1) (args ! 2)) (\<lambda>pin.
     thn (upd_counter c (\<lambda>x. x\<lparr>ct_pin := pin\<rparr>))
     (upd_timer (ObjTimer c) (\<lambda>t. t\<lparr>func := Some counter_event_f\<rparr>))))))"

definition command_query_counter :: "u32 list \<Rightarrow> ('e, unit) ctfw" where
  "command_query_counter args =
     (let c = to_u8 (args ! 0) in
     thn (oid_lookup c config_counter)
     (thn (sched_del_timer (ObjTimer c))
     (thn (upd_timer (ObjTimer c) (\<lambda>t. t\<lparr>waketime := args ! 1\<rparr>))
     (thn (upd_counter c (\<lambda>x. x\<lparr>poll_ticks := args ! 2, sample_ticks := args ! 3,
             next_sample_time := args ! 1\<rparr>))
     (sched_add_timer (ObjTimer c))))))"

definition counter_task :: "('e, unit) ctfw" where
  "counter_task =
     bnd (sched_check_wake counter_wake) (\<lambda>w.
     if \<not> w then ret ()
     else foreach_oid config_counter (\<lambda>oid.
       bnd (reads (\<lambda>m. ct_flags (counters m oid))) (\<lambda>f0.
       if \<not> has_flag f0 CF_PENDING then ret ()
       else
         thn irq_disable
         (bnd (reads (\<lambda>m. waketime (timers m (ObjTimer oid)))) (\<lambda>w.
         bnd (reads (\<lambda>m. counters m oid)) (\<lambda>x.
         thn (upd_counter oid (\<lambda>x. x\<lparr>ct_flags := ct_flags x AND NOT CF_PENDING\<rparr>))
         (thn irq_enable
         (command_sendf ''counter_state oid=%c next_clock=%u count=%u count_clock=%u''
            [Num (to_u32 oid), Num w, Num (ct_count x), Num (last_count_time x)]))))))))"

end
