(* ===== verification/Tmcuart.thy ===== *)
theory Tmcuart
  imports Pulse_Counter
begin

text \<open>
  The bit-banged single wire UART of the motor drivers, \<^verbatim>\<open>src/tmcuart.c\<close>.  Bytes are sent and
  received bit by bit from timer events; the send events are only scheduled where the line
  changes.
\<close>

subsection \<open>State\<close>

record tmcuart_s =
  tx_pin :: u32
  rx_pin :: u32
  tu_flags :: u8
  tu_pos :: u8
  read_count :: u8
  write_count :: u8
  cfg_bit_time :: u32
  bit_time :: u32
  tu_data :: "u8 list"

record tmcuart_state = counter_state +
  tmcuarts :: "u8 \<Rightarrow> tmcuart_s"

definition zero_tmcuart :: tmcuart_s where
  "zero_tmcuart = \<lparr>tx_pin = 0, rx_pin = 0, tu_flags = 0, tu_pos = 0, read_count = 0, write_count = 0,
     cfg_bit_time = 0, bit_time = 0, tu_data = replicate 10 0\<rparr>"

definition tmcuart_init :: "config \<Rightarrow> board_in \<Rightarrow> tmcuart_state" where
  "tmcuart_init c e = counter_state.extend (counter_init c e) (tmcuart_state.fields (\<lambda>_. zero_tmcuart))"

type_synonym ('e, 'a) tufw = "('e tmcuart_state_scheme, 'a) fw"

definition upd_tu :: "u8 \<Rightarrow> (tmcuart_s \<Rightarrow> tmcuart_s) \<Rightarrow> ('e, unit) tufw" where
  "upd_tu u f = modify (\<lambda>m. m\<lparr>tmcuarts := (tmcuarts m)(u := f (tmcuarts m u))\<rparr>)"

definition TU_LINE_HIGH :: u8 where "TU_LINE_HIGH = 1"
definition TU_ACTIVE :: u8 where "TU_ACTIVE = 2"
definition TU_READ_SYNC :: u8 where "TU_READ_SYNC = 4"
definition TU_REPORT :: u8 where "TU_REPORT = 8"
definition TU_PULLUP :: u8 where "TU_PULLUP = 16"
definition TU_SINGLE_WIRE :: u8 where "TU_SINGLE_WIRE = 32"

definition gpio_out_reset :: "u32 \<Rightarrow> bool \<Rightarrow> ('e, unit) mfw" where
  "gpio_out_reset pin v = emit (GpioOutReset pin v)"

definition gpio_in_reset :: "u32 \<Rightarrow> bool \<Rightarrow> ('e, unit) mfw" where
  "gpio_in_reset pin pull_up = emit (GpioInReset pin pull_up)"

text \<open>
  A buffer argument of a command is the offset of the bytes in the receive buffer;
  reading beyond the buffer is undefined.
\<close>

definition command_decode_ptr :: "u32 \<Rightarrow> nat \<Rightarrow> ('e, u8 list) mfw" where
  "command_decode_ptr v len = (\<lambda>m.
     if unat v + len > length (receive_buf m) then Undef
     else Ok (take len (drop (unat v) (receive_buf m))) m)"

subsection \<open>Line events\<close>

definition tmcuart_reset_line :: "u8 \<Rightarrow> ('e, unit) tufw" where
  "tmcuart_reset_line u =
     bnd (reads (\<lambda>m. tmcuarts m u)) (\<lambda>x.
     thn (if has_flag (tu_flags x) TU_SINGLE_WIRE then gpio_out_reset (tx_pin x) True
          else gpio_out_write (tx_pin x) True)
     (upd_tu u (\<lambda>x. x\<lparr>tu_flags := (tu_flags x AND (TU_PULLUP OR TU_SINGLE_WIRE)) OR TU_LINE_HIGH\<rparr>)))"

definition tmcuart_finalize :: "u8 \<Rightarrow> ('e, sf) tufw" where
  "tmcuart_finalize u =
     thn (tmcuart_reset_line u)
     (thn (upd_tu u (\<lambda>x. x\<lparr>tu_flags := tu_flags x OR TU_REPORT\<rparr>))
     (thn (sched_wake_task tmcuart_wake)
     (ret SF_DONE)))"

text \<open>\<open>data[pos >> 3]\<close> with one bit changed; an index beyond the array is undefined.\<close>

definition put_bit :: "u8 \<Rightarrow> bool \<Rightarrow> u8 list \<Rightarrow> u8 list" where
  "put_bit pos v data =
     (let i = unat (drop_bit 3 pos); mask = push_bit (unat (pos AND 7)) 1 in
      data[i := (if v then data ! i OR mask else data ! i AND NOT mask)])"

definition tmcuart_read_event :: "u8 \<Rightarrow> ('e, sf) tufw" where
  "tmcuart_read_event u =
     bnd (reads (\<lambda>m. tmcuarts m u)) (\<lambda>x.
     bnd (gpio_in_read (rx_pin x)) (\<lambda>v.
     if unat (drop_bit 3 (tu_pos x)) \<ge> length (tu_data x) then undef
     else
     thn (upd_tu u (\<lambda>x. x\<lparr>tu_data := put_bit (tu_pos x) v (tu_data x)\<rparr>))
     (if tu_pos x + 1 \<ge> read_count x then tmcuart_finalize u
      else
        thn (upd_tu u (\<lambda>x. x\<lparr>tu_pos := tu_pos x + 1\<rparr>))
        (thn (upd_timer (ObjTimer u) (\<lambda>t. t\<lparr>waketime := waketime t + bit_time x\<rparr>))
        (ret SF_RESCHEDULE)))))"

definition tmcuart_read_sync_event :: "u8 \<Rightarrow> ('e, sf) tufw" where
  "tmcuart_read_sync_event u =
     bnd (reads (\<lambda>m. tmcuarts m u)) (\<lambda>x.
     bnd (gpio_in_read (rx_pin x)) (\<lambda>v.
     if \<not> v \<and> has_flag (tu_flags x) TU_READ_SYNC then
       thn (upd_tu u (\<lambda>x. x\<lparr>tu_pos := 0\<rparr>))
       (thn (upd_timer (ObjTimer u) (\<lambda>t. t\<lparr>func := Some tmcuart_read_event_f\<rparr>))
       (tmcuart_read_event u))
     else
       thn (whenM v (upd_tu u (\<lambda>x. x\<lparr>tu_flags := tu_flags x OR TU_READ_SYNC\<rparr>)))
       (thn (upd_tu u (\<lambda>x. x\<lparr>tu_pos := tu_pos x + 1\<rparr>))
       (if tu_pos x \<ge> 64 then
          thn (upd_tu u (\<lambda>x. x\<lparr>read_count := 0\<rparr>))
          (tmcuart_finalize u)
        else
          thn (upd_timer (ObjTimer u) (\<lambda>t. t\<lparr>waketime := waketime t + bit_time x\<rparr>))
          (ret SF_RESCHEDULE)))))"

definition tmcuart_send_finish_event :: "u8 \<Rightarrow> ('e, sf) tufw" where
  "tmcuart_send_finish_event u =
     bnd (reads (\<lambda>m. tmcuarts m u)) (\<lambda>x.
     if read_count x = 0 then tmcuart_finalize u
     else
       thn (whenM (has_flag (tu_flags x) TU_SINGLE_WIRE)
              (gpio_in_reset (rx_pin x) (has_flag (tu_flags x) TU_PULLUP)))
       (thn (upd_tu u (\<lambda>x. x\<lparr>tu_pos := 0\<rparr>))
       (thn (upd_timer (ObjTimer u) (\<lambda>t. t\<lparr>func := Some tmcuart_read_sync_event_f\<rparr>))
       (thn (upd_timer (ObjTimer u) (\<lambda>t. t\<lparr>waketime := waketime t + bit_time x * 4\<rparr>))
       (ret SF_RESCHEDULE)))))"

text \<open>
  The loop that looks for the next change of the line: \<open>None\<close> when the data
  ends first, the position of the change otherwise, with the time until then.  The
  position is an eight bit counter that reaches \<open>write_count\<close> within 256 rounds.
\<close>

datatype next_toggle = NoToggle u32 | Toggle u8 u32

primrec find_toggle :: "nat \<Rightarrow> u8 list \<Rightarrow> u8 \<Rightarrow> bool \<Rightarrow> u32 \<Rightarrow> u8 \<Rightarrow> u32 \<Rightarrow> ('e, next_toggle) mfw" where
  "find_toggle 0 data wcount line bt pos nxt = undef"
| "find_toggle (Suc n) data wcount line bt pos nxt =
     (let pos' = pos + 1; i = unat (drop_bit 3 pos') in
      if pos' \<ge> wcount then ret (NoToggle nxt)
      else if i \<ge> length data then undef
      else if (drop_bit (unat (pos' AND 7)) (data ! i) AND 1 = 1) \<noteq> line then ret (Toggle pos' nxt)
      else find_toggle n data wcount line bt pos' (nxt + bt))"

definition tmcuart_send_event :: "u8 \<Rightarrow> ('e, sf) tufw" where
  "tmcuart_send_event u =
     thn (bnd (reads (\<lambda>m. tx_pin (tmcuarts m u))) gpio_out_toggle_noirq)
     (thn (upd_tu u (\<lambda>x. x\<lparr>tu_flags := tu_flags x XOR TU_LINE_HIGH\<rparr>))
     (bnd (reads (\<lambda>m. tmcuarts m u)) (\<lambda>x.
     bnd (find_toggle 256 (tu_data x) (write_count x) (has_flag (tu_flags x) TU_LINE_HIGH)
            (bit_time x) (tu_pos x) (bit_time x)) (\<lambda>r.
     case r of
       NoToggle nxt \<Rightarrow>
         thn (upd_timer (ObjTimer u) (\<lambda>t. t\<lparr>func := Some tmcuart_send_finish_event_f\<rparr>))
         (thn (upd_timer (ObjTimer u) (\<lambda>t. t\<lparr>waketime := waketime t + nxt\<rparr>))
         (ret SF_RESCHEDULE))
     | Toggle pos nxt \<Rightarrow>
         thn (upd_tu u (\<lambda>x. x\<lparr>tu_pos := pos\<rparr>))
         (thn (upd_timer (ObjTimer u) (\<lambda>t. t\<lparr>waketime := waketime t + nxt\<rparr>))
         (ret SF_RESCHEDULE))))))"

text \<open>The signed rounding division \<^verbatim>\<open>DIV_ROUND_CLOSEST\<close>.\<close>

definition DIV_ROUND_CLOSEST :: "int \<Rightarrow> int \<Rightarrow> int" where
  "DIV_ROUND_CLOSEST x d = c_div (x + c_div d 2) d"

definition tmcuart_send_sync_event :: "u8 \<Rightarrow> ('e, sf) tufw" where
  "tmcuart_send_sync_event u =
     thn (bnd (reads (\<lambda>m. tx_pin (tmcuarts m u))) gpio_out_toggle_noirq)
     (bnd timer_read_time (\<lambda>cur.
     thn (upd_tu u (\<lambda>x. x\<lparr>tu_flags := tu_flags x XOR TU_LINE_HIGH\<rparr>))
     (thn (upd_tu u (\<lambda>x. x\<lparr>tu_pos := tu_pos x + 1\<rparr>))
     (bnd (reads (\<lambda>m. tmcuarts m u)) (\<lambda>x.
     bnd (reads (\<lambda>m. cur - waketime (timers m (ObjTimer u)))) (\<lambda>offset.
     if tu_pos x \<noteq> 1 \<and> tu_pos x \<ge> 5 then
       let diff = sint (offset - bit_time x);
           bt = cfg_bit_time x + word_of_int (DIV_ROUND_CLOSEST diff 4) in
       thn (upd_tu u (\<lambda>x. x\<lparr>bit_time := bt\<rparr>))
       (thn (upd_timer (ObjTimer u) (\<lambda>t. t\<lparr>func := Some tmcuart_send_event_f\<rparr>))
       (thn (upd_timer (ObjTimer u) (\<lambda>t. t\<lparr>waketime := waketime t + (word_of_int diff + bt)\<rparr>))
       (ret SF_RESCHEDULE)))
     else
       thn (whenM (tu_pos x = 1) (upd_tu u (\<lambda>x. x\<lparr>bit_time := offset\<rparr>)))
       (thn (upd_timer (ObjTimer u) (\<lambda>t. t\<lparr>waketime := waketime t + cfg_bit_time x\<rparr>))
       (ret SF_RESCHEDULE))))))))"

subsection \<open>Commands\<close>

definition command_config_tmcuart :: "u32 list \<Rightarrow> ('e, unit) tufw" where
  "command_config_tmcuart args =
     (let u = to_u8 (args ! 0); pull_up = (to_u8 (args ! 2) :: u8); rx = args ! 1; tx = args ! 3 in
     thn (oid_alloc u config_tmcuart)
     (thn (upd_tu u (\<lambda>_. zero_tmcuart))
     (bnd (gpio_in_setup rx (of_bool (pull_up \<noteq> 0))) (\<lambda>rp.
     thn (upd_tu u (\<lambda>x. x\<lparr>rx_pin := rp\<rparr>))
     (bnd (gpio_out_setup tx True) (\<lambda>tp.
     thn (upd_tu u (\<lambda>x. x\<lparr>tx_pin := tp\<rparr>))
     (thn (upd_tu u (\<lambda>x. x\<lparr>cfg_bit_time := args ! 4\<rparr>))
     (upd_tu u (\<lambda>x. x\<lparr>tu_flags := TU_LINE_HIGH OR (if pull_up \<noteq> 0 then TU_PULLUP else 0)
                        OR (if rx = tx then TU_SINGLE_WIRE else 0)\<rparr>)))))))))"

definition command_tmcuart_send :: "u32 list \<Rightarrow> ('e, unit) tufw" where
  "command_tmcuart_send args =
     (let u = to_u8 (args ! 0); write_len = (to_u8 (args ! 1) :: u8); read_len = (to_u8 (args ! 3) :: u8) in
     thn (oid_lookup u config_tmcuart)
     (bnd (reads (\<lambda>m. tu_flags (tmcuarts m u))) (\<lambda>flags.
     if has_flag flags TU_ACTIVE then ret ()
     else if write_len > 10 \<or> read_len > 10 then sched_shutdown ''tmcuart data too large''
     else
       bnd (command_decode_ptr (args ! 2) (unat write_len)) (\<lambda>write.
       thn (upd_tu u (\<lambda>x. x\<lparr>tu_data := write @ drop (unat write_len) (tu_data x)\<rparr>))
       (thn (upd_tu u (\<lambda>x. x\<lparr>tu_pos := 0,
               tu_flags := (tu_flags x AND (TU_LINE_HIGH OR TU_PULLUP OR TU_SINGLE_WIRE)) OR TU_ACTIVE,
               write_count := write_len * 8, read_count := read_len * 8\<rparr>))
       (bnd (reads (\<lambda>m. tu_data (tmcuarts m u) ! 0)) (\<lambda>d0.
       thn (if write_len \<ge> 1 \<and> d0 AND 0x3f = 0x2a then
              upd_timer (ObjTimer u) (\<lambda>t. t\<lparr>func := Some tmcuart_send_sync_event_f\<rparr>)
            else
              thn (upd_tu u (\<lambda>x. x\<lparr>bit_time := cfg_bit_time x\<rparr>))
              (upd_timer (ObjTimer u) (\<lambda>t. t\<lparr>func := Some tmcuart_send_event_f\<rparr>)))
       (thn irq_disable
       (bnd timer_read_time (\<lambda>now.
       bnd (reads (\<lambda>m. timer_from_us (cfg m) 200)) (\<lambda>d.
       thn (upd_timer (ObjTimer u) (\<lambda>t. t\<lparr>waketime := now + d\<rparr>))
       (thn (sched_add_timer (ObjTimer u))
       irq_enable))))))))))))"

definition tmcuart_task :: "('e, unit) tufw" where
  "tmcuart_task =
     bnd (sched_check_wake tmcuart_wake) (\<lambda>w.
     if \<not> w then ret ()
     else foreach_oid config_tmcuart (\<lambda>oid.
       bnd (reads (\<lambda>m. tu_flags (tmcuarts m oid))) (\<lambda>f0.
       if \<not> has_flag f0 TU_REPORT then ret ()
       else
         thn irq_disable
         (thn (upd_tu oid (\<lambda>x. x\<lparr>tu_flags := tu_flags x AND NOT TU_REPORT\<rparr>))
         (thn irq_enable
         (bnd (reads (\<lambda>m. tmcuarts m oid)) (\<lambda>x.
         command_sendf ''tmcuart_response oid=%c read=%*s''
           [Num (to_u32 oid), Buf (take (unat (read_count x) div 8) (tu_data x))])))))))"

definition tmcuart_shutdown :: "('e, unit) tufw" where
  "tmcuart_shutdown = foreach_oid config_tmcuart tmcuart_reset_line"

end
