(* ===== verification/Inputs.thy ===== *)
theory Inputs
  imports Tmcuart
begin

text \<open>
  Correctness of the input modules: end stops, pulse counters and analog inputs over any
  number of timer events.
\<close>

subsection \<open>Repeated events\<close>

primrec repeatM :: "nat \<Rightarrow> ('s, 'a) fw \<Rightarrow> ('s, unit) fw" where
  "repeatM 0 f = ret ()"
| "repeatM (Suc n) f = thn f (repeatM n f)"

lemma repeatM_step: "repeatM n f s = Ok () s' \<Longrightarrow> f s' = Ok a s'' \<Longrightarrow> repeatM (Suc n) f s = Ok () s''"
proof (induction n arbitrary: s)
  case (Suc n)
  then obtain b s1 where "f s = Ok b s1" "repeatM n f s1 = Ok () s'"
    by (auto simp: thn_app split: res.splits)
  then show ?case using Suc.IH [of s1] Suc.prems(2) by simp
qed simp

lemmas state_upds = upd_timer_def upd_endstop_def upd_ai_def upd_counter_def upd_buttons_def upd_do_def upd_po_def
  upd_tu_def set_timer_def

subsection \<open>End stops\<close>

text \<open>The state after \<open>k\<close> matching samples of an end stop.\<close>

definition sampled :: "u8 \<Rightarrow> nat \<Rightarrow> 'e endstop_state_scheme \<Rightarrow> 'e endstop_state_scheme" where
  "sampled e k m = m\<lparr>ticks := ticks m + k,
     endstops := (endstops m)(e := (endstops m e)\<lparr>es_trigger_count := es_trigger_count (endstops m e) - of_nat k\<rparr>),
     timers := (timers m)(ObjTimer e := (timers m (ObjTimer e))
       \<lparr>waketime := waketime (timers m (ObjTimer e)) + of_nat k * es_sample_time (endstops m e)\<rparr>)\<rparr>"

lemma sampled_0 [simp]: "sampled e 0 m = m"
  by (simp add: sampled_def)

lemma oversample_match:
  assumes "\<not> es_mismatch (gpio_in (env m) (ticks m) (es_pin (endstops m e))) (es_flags (endstops m e))"
    and "es_trigger_count (endstops m e) \<noteq> 1"
  shows "endstop_oversample_event e m = Ok SF_RESCHEDULE (sampled e (Suc 0) m)"
  using assms
  by (simp add: endstop_oversample_event_def state_upds sampled_def Let_def)

lemma sampled_sampled: "sampled e (Suc 0) (sampled e k m) = sampled e (Suc k) m"
  by (simp add: sampled_def algebra_simps)

lemma sampled_fields:
  "es_pin (endstops (sampled e k m) e) = es_pin (endstops m e)"
  "es_flags (endstops (sampled e k m) e) = es_flags (endstops m e)"
  "es_trigger_count (endstops (sampled e k m) e) = es_trigger_count (endstops m e) - of_nat k"
  "env (sampled e k m) = env m" "ticks (sampled e k m) = ticks m + k"
  by (simp_all add: sampled_def)

lemma countdown_one: "k < unat c \<Longrightarrow> c - of_nat k = 1 \<longleftrightarrow> Suc k = unat c" for c :: u8
proof -
  assume k: "k < unat c"
  have "unat (of_nat (Suc k) :: u8) = Suc k" using k unat_u8_bound [of c] by (intro unat_of_nat_u8) simp
  then have "c = of_nat (Suc k) \<longleftrightarrow> unat c = Suc k" by (simp add: word_unat_eq_iff)
  moreover have "c - of_nat k = 1 \<longleftrightarrow> c = of_nat (Suc k)" by (simp add: diff_eq_eq)
  ultimately show ?thesis by auto
qed

lemma oversample_run:
  assumes "\<forall>j < k. \<not> es_mismatch (gpio_in (env m) (ticks m + j) (es_pin (endstops m e))) (es_flags (endstops m e))"
    and "k < unat (es_trigger_count (endstops m e))"
  shows "repeatM k (endstop_oversample_event e) m = Ok () (sampled e k m)"
  using assms
proof (induction k)
  case (Suc k)
  have "es_trigger_count (endstops m e) - of_nat k \<noteq> 1"
    using countdown_one [of k "es_trigger_count (endstops m e)"] Suc.prems(2) by simp
  then have "endstop_oversample_event e (sampled e k m) = Ok SF_RESCHEDULE (sampled e (Suc 0) (sampled e k m))"
    using Suc.prems(1) by (intro oversample_match) (simp_all add: sampled_fields)
  then show ?case using repeatM_step [OF Suc.IH] Suc.prems unfolding sampled_sampled by fastforce
qed simp

text \<open>
  C37: an end stop triggers only after as many matching samples in a row as were asked for.
  While fewer samples have matched, each matching sample only counts down and moves the
  timer on by the sample time.  The sample that completes the count triggers with the
  configured reason and ends the timer; a sample that does not match restarts the count
  and returns to the slow polling at the time computed when sampling began.
\<close>

theorem endstop_consecutive_samples:
  assumes "\<forall>j < k. \<not> es_mismatch (gpio_in (env m) (ticks m + j) (es_pin (endstops m e))) (es_flags (endstops m e))"
    and "k < unat (es_trigger_count (endstops m e))" and "es_ts (endstops m e) = Some ts"
  shows "\<exists>m1. repeatM k (endstop_oversample_event e) m = Ok () m1 \<and> out m1 = out m \<and> trsyncs m1 = trsyncs m \<and>
    waketime (timers m1 (ObjTimer e)) = waketime (timers m (ObjTimer e)) + of_nat k * es_sample_time (endstops m e) \<and>
    endstop_oversample_event e m1 =
      (if es_mismatch (gpio_in (env m) (ticks m + k) (es_pin (endstops m e))) (es_flags (endstops m e)) then
         Ok SF_RESCHEDULE (m1\<lparr>ticks := Suc (ticks m1),
           timers := (timers m1)(ObjTimer e := (timers m1 (ObjTimer e))
             \<lparr>func := Some endstop_event_f, waketime := es_nextwake (endstops m e)\<rparr>),
           endstops := (endstops m1)(e := (endstops m1 e)\<lparr>es_trigger_count := es_sample_count (endstops m e)\<rparr>)\<rparr>)
       else if Suc k = unat (es_trigger_count (endstops m e)) then
         thn (trsync_do_trigger stepper_signal ts (es_trigger_reason (endstops m e))) (ret SF_DONE)
           (m1\<lparr>ticks := Suc (ticks m1)\<rparr>)
       else Ok SF_RESCHEDULE (sampled e (Suc k) m))"
proof (intro exI [of _ "sampled e k m"] conjI)
  let ?c = "es_trigger_count (endstops m e)"
  show "repeatM k (endstop_oversample_event e) m = Ok () (sampled e k m)"
    by (rule oversample_run [OF assms(1,2)])
  have last: "?c - of_nat k = 1 \<longleftrightarrow> Suc k = unat ?c" by (rule countdown_one [OF assms(2)])
  have ts: "es_ts (endstops (sampled e k m) e) = Some ts" using assms(3) by (simp add: sampled_def)
  have match: "endstop_oversample_event e (sampled e k m) = Ok SF_RESCHEDULE (sampled e (Suc k) m)"
    if "\<not> es_mismatch (gpio_in (env m) (ticks m + k) (es_pin (endstops m e))) (es_flags (endstops m e))"
      "Suc k \<noteq> unat ?c"
    using oversample_match [of "sampled e k m" e] that last by (simp add: sampled_fields sampled_sampled)
  show "endstop_oversample_event e (sampled e k m) =
      (if es_mismatch (gpio_in (env m) (ticks m + k) (es_pin (endstops m e))) (es_flags (endstops m e)) then
         Ok SF_RESCHEDULE ((sampled e k m)\<lparr>ticks := Suc (ticks (sampled e k m)),
           timers := (timers (sampled e k m))(ObjTimer e := (timers (sampled e k m) (ObjTimer e))
             \<lparr>func := Some endstop_event_f, waketime := es_nextwake (endstops m e)\<rparr>),
           endstops := (endstops (sampled e k m))(e := (endstops (sampled e k m) e)
             \<lparr>es_trigger_count := es_sample_count (endstops m e)\<rparr>)\<rparr>)
       else if Suc k = unat ?c then
         thn (trsync_do_trigger stepper_signal ts (es_trigger_reason (endstops m e))) (ret SF_DONE)
           ((sampled e k m)\<lparr>ticks := Suc (ticks (sampled e k m))\<rparr>)
       else Ok SF_RESCHEDULE (sampled e (Suc k) m))"
  proof -
    consider (mis) "es_mismatch (gpio_in (env m) (ticks m + k) (es_pin (endstops m e))) (es_flags (endstops m e))"
      | (last) "\<not> es_mismatch (gpio_in (env m) (ticks m + k) (es_pin (endstops m e))) (es_flags (endstops m e))"
          "Suc k = unat ?c"
      | (more) "\<not> es_mismatch (gpio_in (env m) (ticks m + k) (es_pin (endstops m e))) (es_flags (endstops m e))"
          "Suc k \<noteq> unat ?c" by blast
    then show ?thesis
    proof cases
      case mis
      then show ?thesis
        by (simp add: endstop_oversample_event_def sampled_fields state_upds) (simp add: sampled_def)
    next
      case last
      have "?c - of_nat k = 1" using last(2) countdown_one [OF assms(2)] by simp
      moreover have "es_trigger_reason (endstops (sampled e k m) e) = es_trigger_reason (endstops m e)"
        by (simp add: sampled_def)
      ultimately show ?thesis using last ts
        by (simp add: endstop_oversample_event_def sampled_fields Let_def)
    next
      case more
      then show ?thesis using match by simp
    qed
  qed
qed (simp_all add: sampled_def)

text \<open>A machine with one object of every kind on which the properties are tried out.\<close>

definition sample_periph :: tmcuart_state where
  "sample_periph = (tmcuart_init sample_config sample_board)
     \<lparr>endstops := (\<lambda>_. zero_endstop\<lparr>es_pin := 5, es_flags := 2, es_sample_count := 3, es_trigger_count := 3,
        es_sample_time := 10, es_nextwake := 2000, es_ts := Some 7, es_trigger_reason := 1\<rparr>)\<rparr>"

lemmas periph_defs = sample_periph_def tmcuart_init_def counter_init_def pwm_init_def gpio_init_def buttons_init_def
  adc_init_def endstop_init_def stepper_init_def trsync_init_def command_init_def basecmd_init_def sched_init_def
  tmcuart_state.defs counter_state.defs pwm_state.defs gpio_state.defs buttons_state.defs adc_state.defs
  endstop_state.defs stepper_state.defs trsync_state.defs command_state.defs basecmd_state.defs machine.defs

lemma sample_periph_endstop:
  "endstops sample_periph e = zero_endstop\<lparr>es_pin := 5, es_flags := 2, es_sample_count := 3, es_trigger_count := 3,
        es_sample_time := 10, es_nextwake := 2000, es_ts := Some 7, es_trigger_reason := 1\<rparr>"
  "env sample_periph = sample_board" "ticks sample_periph = 0" "out sample_periph = []"
  by (simp_all add: periph_defs)

theorem endstop_consecutive_samples_witness:
  "\<exists>m1. repeatM 2 (endstop_oversample_event 3) sample_periph = Ok () m1 \<and>
     endstop_oversample_event 3 m1 = thn (trsync_do_trigger stepper_signal 7 1) (ret SF_DONE) (m1\<lparr>ticks := Suc (ticks m1)\<rparr>)"
proof -
  have "\<forall>j < 2. \<not> es_mismatch (gpio_in (env sample_periph) (ticks sample_periph + j) (es_pin (endstops sample_periph 3)))
      (es_flags (endstops sample_periph 3))"
    "2 < unat (es_trigger_count (endstops sample_periph 3))" "es_ts (endstops sample_periph 3) = Some 7"
    "\<not> es_mismatch (gpio_in (env sample_periph) (ticks sample_periph + 2) (es_pin (endstops sample_periph 3)))
      (es_flags (endstops sample_periph 3))"
    "Suc 2 = unat (es_trigger_count (endstops sample_periph 3))" "es_trigger_reason (endstops sample_periph 3) = 1"
    by (simp_all add: sample_periph_endstop sample_board_def es_mismatch_def ESF_PIN_HIGH_def)
  then show ?thesis using endstop_consecutive_samples [of 2 sample_periph 3 7] by auto
qed

subsection \<open>Pulse counters\<close>

text \<open>The number of changes in a sequence of levels that follows a given level.\<close>

primrec edges :: "bool \<Rightarrow> bool list \<Rightarrow> nat" where
  "edges level [] = 0"
| "edges level (v # vs) = (if v \<noteq> level then 1 else 0) + edges v vs"

lemma edges_snoc: "edges level (vs @ [v]) = edges level vs + (if v \<noteq> last (level # vs) then 1 else 0)"
  by (induction vs arbitrary: level) auto

lemma parity_Suc: "(x + 1 AND 1 = 1) \<longleftrightarrow> \<not> (x AND 1 = 1)" for x :: u32
  by (simp add: and_one_eq flip: odd_iff_mod_2_eq_one)

lemma counter_event_spec:
  defines "p m c \<equiv> gpio_in (env m) (ticks m) (ct_pin (counters m c))"
  shows "\<exists>m'. counter_event c m = Ok SF_RESCHEDULE m' \<and>
    ct_count (counters m' c) = ct_count (counters m c) + (if p m c \<noteq> (ct_count (counters m c) AND 1 = 1) then 1 else 0) \<and>
    ct_pin (counters m' c) = ct_pin (counters m c) \<and> poll_ticks (counters m' c) = poll_ticks (counters m c) \<and>
    env m' = env m \<and> ticks m' = Suc (ticks m) \<and>
    waketime (timers m' (ObjTimer c)) = waketime (timers m (ObjTimer c)) + poll_ticks (counters m c)"
  by (auto simp: p_def counter_event_def state_upds sched_wake_task_def sched_wake_tasks_def bnd_app thn_app)

text \<open>
  A pulse counter counts the changes of its pin.  After \<open>n\<close> polls the count has grown by
  the number of changes in the levels read, modulo \<open>2 ^ 32\<close>, its lowest bit is the last level
  read, and the timer has moved on by \<open>n\<close> poll intervals.
\<close>

theorem counter_counts_edges:
  "\<exists>m'. repeatM n (counter_event c) m = Ok () m' \<and>
     ct_count (counters m' c) = ct_count (counters m c) + of_nat (edges (ct_count (counters m c) AND 1 = 1)
       (map (\<lambda>j. gpio_in (env m) (ticks m + j) (ct_pin (counters m c))) [0..<n])) \<and>
     (ct_count (counters m' c) AND 1 = 1) = last ((ct_count (counters m c) AND 1 = 1) #
       map (\<lambda>j. gpio_in (env m) (ticks m + j) (ct_pin (counters m c))) [0..<n]) \<and>
     waketime (timers m' (ObjTimer c)) = waketime (timers m (ObjTimer c)) + of_nat n * poll_ticks (counters m c)"
proof -
  define L0 where "L0 = (ct_count (counters m c) AND 1 = 1)"
  define lv where "lv k = map (\<lambda>j. gpio_in (env m) (ticks m + j) (ct_pin (counters m c))) [0..<k]" for k
  have lv_Suc: "lv (Suc k) = lv k @ [gpio_in (env m) (ticks m + k) (ct_pin (counters m c))]" for k
    by (simp add: lv_def)
  have "\<exists>m'. repeatM n (counter_event c) m = Ok () m' \<and>
     ct_count (counters m' c) = ct_count (counters m c) + of_nat (edges L0 (lv n)) \<and>
     (ct_count (counters m' c) AND 1 = 1) = last (L0 # lv n) \<and>
     waketime (timers m' (ObjTimer c)) = waketime (timers m (ObjTimer c)) + of_nat n * poll_ticks (counters m c) \<and>
     ct_pin (counters m' c) = ct_pin (counters m c) \<and> poll_ticks (counters m' c) = poll_ticks (counters m c) \<and>
     env m' = env m \<and> ticks m' = ticks m + n"
  proof (induction n)
    case 0
    show ?case by (simp add: L0_def lv_def)
  next
    case (Suc n)
    then obtain m1 where m1: "repeatM n (counter_event c) m = Ok () m1"
      "ct_count (counters m1 c) = ct_count (counters m c) + of_nat (edges L0 (lv n))"
      "(ct_count (counters m1 c) AND 1 = 1) = last (L0 # lv n)"
      "waketime (timers m1 (ObjTimer c)) = waketime (timers m (ObjTimer c)) + of_nat n * poll_ticks (counters m c)"
      "ct_pin (counters m1 c) = ct_pin (counters m c)" "poll_ticks (counters m1 c) = poll_ticks (counters m c)"
      "env m1 = env m" "ticks m1 = ticks m + n" by blast
    let ?v = "gpio_in (env m) (ticks m + n) (ct_pin (counters m c))"
    obtain m2 where m2: "counter_event c m1 = Ok SF_RESCHEDULE m2"
      "ct_count (counters m2 c) = ct_count (counters m1 c) + (if ?v \<noteq> (ct_count (counters m1 c) AND 1 = 1) then 1 else 0)"
      "ct_pin (counters m2 c) = ct_pin (counters m1 c)" "poll_ticks (counters m2 c) = poll_ticks (counters m1 c)"
      "env m2 = env m1" "ticks m2 = Suc (ticks m1)"
      "waketime (timers m2 (ObjTimer c)) = waketime (timers m1 (ObjTimer c)) + poll_ticks (counters m1 c)"
      using counter_event_spec [of c m1] m1(5,7,8) by auto
    have "(ct_count (counters m2 c) AND 1 = 1) = ?v"
      unfolding m2(2) using parity_Suc [of "ct_count (counters m1 c)"] by auto
    moreover have "ct_count (counters m2 c) = ct_count (counters m c) + of_nat (edges L0 (lv (Suc n)))"
      using m2(2) m1(3) unfolding m1(2) lv_Suc edges_snoc by auto
    ultimately show ?case
      using m1 m2 repeatM_step [OF m1(1) m2(1)] by (intro exI [of _ m2]) (simp add: lv_Suc algebra_simps)
  qed
  then show ?thesis unfolding L0_def lv_def by blast
qed

end
