(* ===== verification/Motion.thy ===== *)
theory Motion
  imports Inputs Timer_Queue Move_Pool
begin

text \<open>
  Correctness of the stepper module: the times at which a move's steps happen, the position
  the firmware reports against the pulses it sends to the motor, and what stopping does.
\<close>

subsection \<open>Loading a move\<close>

lemma upd_stepper_app: "upd_stepper s f m = Ok () (m\<lparr>steppers := (steppers m)(s := f (steppers m s))\<rparr>)"
  by (simp add: upd_stepper_def)

lemma upd_timer_app:
  "upd_timer t f m = Ok () (m\<lparr>timers := (timers m)(t := f (timers m t))\<rparr>)"
  by (simp add: upd_timer_def set_timer_def)

lemma gpio_app:
  "gpio_out_toggle_noirq p m = Ok () (m\<lparr>out := out m @ [GpioOutToggle p]\<rparr>)"
  "gpio_out_write p v m = Ok () (m\<lparr>out := out m @ [GpioOutWrite p v]\<rparr>)"
  by (simp_all add: gpio_out_toggle_noirq_def gpio_out_write_def emit_def)

lemma pool_app: "move_free x m = Ok () (m\<lparr>mnext := (mnext m)(x := move_free_list m), move_free_list := Some x\<rparr>)"
  by (simp add: move_free_def)

lemma single_sched_upd:
  "st_flags y = st_flags (steppers m s) \<Longrightarrow>
     single_sched s (m\<lparr>steppers := (steppers m)(s := y)\<rparr>) = single_sched s m"
  by (simp add: single_sched_def)

text \<open>The stepper and the machine after loading a move.\<close>

definition loaded :: "bool \<Rightarrow> stepper_move \<Rightarrow> move_queue_head \<Rightarrow> stepper \<Rightarrow> stepper" where
  "loaded single mv q x =
     (let y = x\<lparr>st_mq := q, st_add := mv_add mv, st_interval := add_interval (mv_interval mv) (mv_add mv)\<rparr>;
          z = (if single then y\<lparr>st_count := to_u32 (mv_count mv)\<rparr>
               else y\<lparr>next_step_time := next_step_time y + mv_interval mv, st_count := to_u32 (mv_count mv) * 2\<rparr>)
      in if has_flag (mv_flags mv) MF_DIR then z\<lparr>position := - position z + to_u32 (mv_count mv)\<rparr>
         else z\<lparr>position := position z + to_u32 (mv_count mv)\<rparr>)"

definition load_state :: "u8 \<Rightarrow> nat \<Rightarrow> 'e stepper_state_scheme \<Rightarrow> 'e stepper_state_scheme" where
  "load_state s v m =
     (let x = steppers m s; mv = stepper_moves m v; single = single_sched s m;
          m1 = m\<lparr>timers := (timers m)(stimer s := (timers m (stimer s))\<lparr>waketime :=
                   (if single then waketime (timers m (stimer s)) else next_step_time x) + mv_interval mv\<rparr>),
                 steppers := (steppers m)(s := loaded single mv ((st_mq x)\<lparr>mq_first := mnext m v\<rparr>) x)\<rparr>;
          m2 = (if has_flag (mv_flags mv) MF_DIR then m1\<lparr>out := out m @ [GpioOutToggle (dir_pin x)]\<rparr> else m1)
      in m2\<lparr>mnext := (mnext m)(v := move_free_list m), move_free_list := Some v\<rparr>)"

lemma load_next_empty:
  "move_queue_empty (st_mq (steppers m s)) \<Longrightarrow> stepper_load_next s m =
     Ok SF_DONE (m\<lparr>steppers := (steppers m)(s := (steppers m s)\<lparr>st_count := 0\<rparr>)\<rparr>)"
  by (simp add: stepper_load_next_def upd_stepper_app)

lemmas load_defs = stepper_load_next_def move_queue_empty_def move_queue_pop_def upd_stepper_app upd_timer_app
  gpio_app pool_app loaded_def load_state_def single_sched_upd Let_def

lemma load_next_some:
  assumes "mq_first (st_mq (steppers m s)) = Some v" and "\<not> HAVE_AVR_OPTIMIZATION (cfg m)"
  shows "stepper_load_next s m = Ok SF_RESCHEDULE (load_state s v m)"
proof (cases "single_sched s m"; cases "has_flag (mv_flags (stepper_moves m v)) MF_DIR")
  assume "single_sched s m" "has_flag (mv_flags (stepper_moves m v)) MF_DIR"
  with assms show ?thesis by (simp add: load_defs)
next
  assume "single_sched s m" "\<not> has_flag (mv_flags (stepper_moves m v)) MF_DIR"
  with assms show ?thesis by (simp add: load_defs)
next
  assume "\<not> single_sched s m" "has_flag (mv_flags (stepper_moves m v)) MF_DIR"
  with assms show ?thesis by (simp add: load_defs)
next
  assume "\<not> single_sched s m" "\<not> has_flag (mv_flags (stepper_moves m v)) MF_DIR"
  with assms show ?thesis by (simp add: load_defs)
qed

lemma loaded_fields [simp]:
  "step_pin (loaded b mv q x) = step_pin x" "dir_pin (loaded b mv q x) = dir_pin x"
  "st_flags (loaded b mv q x) = st_flags x" "step_pulse_ticks (loaded b mv q x) = step_pulse_ticks x"
  "st_count (loaded b mv q x) = (if b then to_u32 (mv_count mv) else to_u32 (mv_count mv) * 2)"
  "st_interval (loaded b mv q x) = mv_interval mv + scast (mv_add mv)" "st_add (loaded b mv q x) = mv_add mv"
  "next_step_time (loaded b mv q x) = (if b then next_step_time x else next_step_time x + mv_interval mv)"
  "position (loaded b mv q x) =
     (if has_flag (mv_flags mv) MF_DIR then - position x else position x) + to_u32 (mv_count mv)"
  by (simp_all add: loaded_def Let_def add_interval_def)

lemma load_state_fields [simp]:
  "cfg (load_state s v m) = cfg m" "ticks (load_state s v m) = ticks m" "env (load_state s v m) = env m"
  "steppers (load_state s v m) = (steppers m)(s := loaded (single_sched s m) (stepper_moves m v)
     ((st_mq (steppers m s))\<lparr>mq_first := mnext m v\<rparr>) (steppers m s))"
  "out (load_state s v m) = out m @
     (if has_flag (mv_flags (stepper_moves m v)) MF_DIR then [GpioOutToggle (dir_pin (steppers m s))] else [])"
  "waketime (timers (load_state s v m) (stimer s)) =
     (if single_sched s m then waketime (timers m (stimer s)) else next_step_time (steppers m s)) +
     mv_interval (stepper_moves m v)"
  "trsyncs (load_state s v m) = trsyncs m" "signals (load_state s v m) = signals m"
  by (simp_all add: load_state_def Let_def)

subsection \<open>The times of the steps\<close>

text \<open>The machine after \<open>k\<close> steps inside a move, for a stepper with one event per step.\<close>

definition stepped :: "u8 \<Rightarrow> nat \<Rightarrow> 'e stepper_state_scheme \<Rightarrow> 'e stepper_state_scheme" where
  "stepped s k m =
     (let x = steppers m s in
      m\<lparr>out := out m @ replicate k (GpioOutToggle (step_pin x)),
        timers := (timers m)(stimer s := (timers m (stimer s))\<lparr>waketime := waketime (timers m (stimer s)) +
          of_nat k * st_interval x + of_nat (k * (k - 1) div 2) * scast (st_add x)\<rparr>),
        steppers := (steppers m)(s := x\<lparr>st_count := st_count x - of_nat k,
          st_interval := st_interval x + of_nat k * scast (st_add x)\<rparr>)\<rparr>)"

lemma edge_step:
  assumes "st_count (steppers m s) \<noteq> 1"
  shows "stepper_event_edge s m = Ok SF_RESCHEDULE (stepped s (Suc 0) m)"
  using assms
  by (simp add: stepper_event_edge_def upd_stepper_app upd_timer_app gpio_app add_interval_def stepped_def Let_def)

lemma triangle_Suc: "Suc k * (Suc k - 1) div 2 = k * (k - 1) div 2 + k"
proof -
  have "Suc k * (Suc k - 1) = k * (k - 1) + k * 2" by (cases k) (simp_all add: algebra_simps)
  then show ?thesis by simp
qed

lemma stepped_stepped: "stepped s (Suc 0) (stepped s k m) = stepped s (Suc k) m"
proof -
  have t: "(of_nat (Suc k * (Suc k - 1) div 2) :: u32) = of_nat (k * (k - 1) div 2) + of_nat k"
    unfolding triangle_Suc by simp
  show ?thesis
    unfolding stepped_def Let_def t
    by (simp add: replicate_append_same [symmetric] algebra_simps)
qed

lemma count_left_one: "k < unat c \<Longrightarrow> c - of_nat k = 1 \<longleftrightarrow> Suc k = unat c" for c :: u32
proof -
  assume k: "k < unat c"
  have "unat (of_nat (Suc k) :: u32) = Suc k"
    using k unat_u32_bound [of c] by (simp add: unat_of_nat take_bit_nat_eq_self del: of_nat_Suc)
  then have "c = of_nat (Suc k) \<longleftrightarrow> unat c = Suc k" by (simp add: word_unat_eq_iff)
  moreover have "c - of_nat k = 1 \<longleftrightarrow> c = of_nat (Suc k)" by (simp add: diff_eq_eq)
  ultimately show ?thesis by auto
qed

lemma stepped_count: "st_count (steppers (stepped s k m) s) = st_count (steppers m s) - of_nat k"
  by (simp add: stepped_def Let_def)

lemma edge_steps:
  assumes "k < unat (st_count (steppers m s))"
  shows "repeatM k (stepper_event_edge s) m = Ok () (stepped s k m)"
  using assms
proof (induction k)
  case 0
  show ?case by (simp add: stepped_def Let_def)
next
  case (Suc k)
  have "st_count (steppers (stepped s k m) s) \<noteq> 1"
    using count_left_one [of k "st_count (steppers m s)"] Suc.prems by (simp add: stepped_count)
  from repeatM_step [OF Suc.IH edge_step [OF this]] Suc.prems show ?case
    by (simp only: stepped_stepped)
qed

lemma and_one_odd: "a AND 1 \<noteq> 0 \<longleftrightarrow> odd a" for a :: u32
  by (simp add: and_one_eq even_iff_mod_2_eq_zero)

lemma full_up:
  assumes "even (st_count (steppers m s))"
  shows "stepper_event_full s m = Ok SF_RESCHEDULE (m\<lparr>out := out m @ [GpioOutToggle (step_pin (steppers m s))],
     ticks := Suc (ticks m), steppers := (steppers m)(s := (steppers m s)\<lparr>st_count := st_count (steppers m s) - 1\<rparr>),
     timers := (timers m)(stimer s := (timers m (stimer s))\<lparr>waketime :=
       clock_in (env m) (ticks m) + step_pulse_ticks (steppers m s)\<rparr>)\<rparr>)"
  using assms
  by (simp add: stepper_event_full_def timer_read_time_def reschedule_min_def upd_stepper_app upd_timer_app gpio_app
      and_one_odd)

lemma full_down:
  assumes "odd (st_count (steppers m s))" and "st_count (steppers m s) \<noteq> 1"
  defines "x \<equiv> steppers m s"
  defines "nst \<equiv> next_step_time x + st_interval x"
    and "least \<equiv> clock_in (env m) (ticks m) + step_pulse_ticks x"
  shows "stepper_event_full s m = Ok SF_RESCHEDULE (m\<lparr>out := out m @ [GpioOutToggle (step_pin x)],
     ticks := Suc (ticks m), steppers := (steppers m)(s := x\<lparr>st_count := st_count x - 1, next_step_time := nst,
       st_interval := st_interval x + scast (st_add x)\<rparr>),
     timers := (timers m)(stimer s := (timers m (stimer s))\<lparr>waketime :=
       (if timer_is_before nst least then least else nst)\<rparr>)\<rparr>)"
  using assms(1,2)
  by (cases "timer_is_before nst least")
    (simp_all add: stepper_event_full_def timer_read_time_def reschedule_min_def upd_stepper_app upd_timer_app gpio_app
      and_one_odd add_interval_def x_def nst_def least_def)

text \<open>A stepper with separate step and unstep events: two events for every step.\<close>

definition stepped_full :: "nat \<Rightarrow> stepper \<Rightarrow> stepper" where
  "stepped_full k x = x\<lparr>st_count := st_count x - 2 * of_nat k,
     next_step_time := next_step_time x + of_nat k * st_interval x + of_nat (k * (k - 1) div 2) * scast (st_add x),
     st_interval := st_interval x + of_nat k * scast (st_add x)\<rparr>"

lemma stepped_full_Suc: "stepped_full (Suc 0) (stepped_full k x) = stepped_full (Suc k) x"
proof -
  have t: "(of_nat (Suc k * (Suc k - 1) div 2) :: u32) = of_nat (k * (k - 1) div 2) + of_nat k"
    unfolding triangle_Suc by simp
  show ?thesis unfolding stepped_full_def t by (simp add: algebra_simps)
qed

definition late :: "u32 \<Rightarrow> u32 \<Rightarrow> u32" where
  "late t least = (if timer_is_before t least then least else t)"

lemma full_step:
  assumes "even (st_count (steppers m s))" and "st_count (steppers m s) \<noteq> 2"
  shows "\<exists>m'. repeatM 2 (stepper_event_full s) m = Ok () m' \<and> env m' = env m \<and> ticks m' = ticks m + 2 \<and>
    steppers m' s = stepped_full (Suc 0) (steppers m s) \<and>
    out m' = out m @ replicate 2 (GpioOutToggle (step_pin (steppers m s))) \<and>
    waketime (timers m' (stimer s)) = late (next_step_time (steppers m s) + st_interval (steppers m s))
      (clock_in (env m) (ticks m + 1) + step_pulse_ticks (steppers m s))"
proof -
  obtain m1 where up: "stepper_event_full s m = Ok SF_RESCHEDULE m1" "env m1 = env m" "ticks m1 = Suc (ticks m)"
    "steppers m1 s = (steppers m s)\<lparr>st_count := st_count (steppers m s) - 1\<rparr>"
    "out m1 = out m @ [GpioOutToggle (step_pin (steppers m s))]"
    using full_up [OF assms(1)] by simp
  have "odd (st_count (steppers m1 s))" "st_count (steppers m1 s) \<noteq> 1"
    using assms up(4) by (simp_all add: diff_eq_eq)
  note down = full_down [OF this]
  show ?thesis
    using up by (simp add: numeral_2_eq_2 down late_def stepped_full_def algebra_simps)
qed

lemma repeatM_add: "repeatM a f m = Ok () m1 \<Longrightarrow> repeatM (a + b) f m = repeatM b f m1"
  by (induction a arbitrary: m) (auto simp: thn_app split: res.splits)

lemma double_left: "n \<le> 65535 \<Longrightarrow> k < n \<Longrightarrow> of_nat (2 * n) - 2 * of_nat k = (2 :: u32) \<longleftrightarrow> Suc k = n"
proof -
  assume n: "n \<le> 65535" and k: "k < n"
  have "of_nat (2 * n) - 2 * of_nat k = (2 :: u32) \<longleftrightarrow> (of_nat (2 * n) :: u32) = of_nat (2 * Suc k)"
    by (auto simp: diff_eq_eq algebra_simps)
  also have "\<dots> \<longleftrightarrow> unat (of_nat (2 * n) :: u32) = unat (of_nat (2 * Suc k) :: u32)"
    by (simp only: word_unat_eq_iff)
  also have "\<dots> \<longleftrightarrow> 2 * n = 2 * Suc k"
    using n k by (simp add: unat_of_nat_u32 del: of_nat_Suc of_nat_mult mult_Suc_right)
  finally show ?thesis by auto
qed

lemma full_steps:
  assumes cnt: "st_count (steppers m s) = of_nat (2 * n)" and n: "n \<le> 65535" and "k < n"
  shows "\<exists>m'. repeatM (2 * k) (stepper_event_full s) m = Ok () m' \<and> env m' = env m \<and> ticks m' = ticks m + 2 * k \<and>
    steppers m' s = stepped_full k (steppers m s) \<and>
    out m' = out m @ replicate (2 * k) (GpioOutToggle (step_pin (steppers m s))) \<and>
    waketime (timers m' (stimer s)) = (if k = 0 then waketime (timers m (stimer s))
      else late (next_step_time (stepped_full k (steppers m s)))
        (clock_in (env m) (ticks m + 2 * k - 1) + step_pulse_ticks (steppers m s)))"
  using \<open>k < n\<close>
proof (induction k)
  case 0
  show ?case by (simp add: stepped_full_def)
next
  case (Suc k)
  let ?x = "steppers m s"
  have two: "2 * Suc k = 2 * k + 2" by simp
  from Suc obtain m1 where IH: "repeatM (2 * k) (stepper_event_full s) m = Ok () m1" "env m1 = env m"
    "ticks m1 = ticks m + 2 * k" "steppers m1 s = stepped_full k ?x"
    "out m1 = out m @ replicate (2 * k) (GpioOutToggle (step_pin ?x))" by auto
  have c: "st_count (steppers m1 s) = of_nat (2 * n) - 2 * of_nat k" using cnt by (simp add: IH(4) stepped_full_def)
  then have "even (st_count (steppers m1 s))" "st_count (steppers m1 s) \<noteq> 2"
    using double_left [OF n, of k] Suc.prems by simp_all
  from full_step [OF this] obtain m2 where F: "repeatM 2 (stepper_event_full s) m1 = Ok () m2" "env m2 = env m1"
    "ticks m2 = ticks m1 + 2" "steppers m2 s = stepped_full (Suc 0) (steppers m1 s)"
    "out m2 = out m1 @ replicate 2 (GpioOutToggle (step_pin (steppers m1 s)))"
    "waketime (timers m2 (stimer s)) = late (next_step_time (steppers m1 s) + st_interval (steppers m1 s))
      (clock_in (env m1) (ticks m1 + 1) + step_pulse_ticks (steppers m1 s))" by blast
  have pin: "step_pin (stepped_full k ?x) = step_pin ?x" "step_pulse_ticks (stepped_full k ?x) = step_pulse_ticks ?x"
    by (simp_all add: stepped_full_def)
  note S = F [unfolded IH(2,3,4,5) stepped_full_Suc pin append_assoc]
  have "next_step_time (stepped_full (Suc k) ?x) = next_step_time (stepped_full k ?x) + st_interval (stepped_full k ?x)"
    unfolding stepped_full_Suc [of k ?x, symmetric] by (simp add: stepped_full_def)
  moreover have "repeatM (2 * Suc k) (stepper_event_full s) m = Ok () m2"
    unfolding two by (rule repeatM_add [OF IH(1), of 2, unfolded S(1)])
  moreover have "replicate (2 * Suc k) (GpioOutToggle (step_pin ?x)) =
      replicate (2 * k) (GpioOutToggle (step_pin ?x)) @ replicate 2 (GpioOutToggle (step_pin ?x))"
    unfolding two by (rule replicate_add)
  moreover have "ticks m + 2 * Suc k - 1 = ticks m + 2 * k + 1" by simp
  ultimately show ?case using S by (intro exI [of _ m2]) (simp only: two nat.distinct if_False simp_thms add.assoc)
qed

text \<open>When step \<open>k + 1\<close> of a move happens, counted from the time of the last step before it.\<close>

definition move_step_time :: "u32 \<Rightarrow> stepper_move \<Rightarrow> nat \<Rightarrow> u32" where
  "move_step_time t mv k = t + of_nat (Suc k) * mv_interval mv + of_nat (Suc k * k div 2) * scast (mv_add mv)"

lemma move_step_time_next:
  "t + mv_interval mv + of_nat k * (mv_interval mv + scast (mv_add mv)) + of_nat (k * (k - 1) div 2) * scast (mv_add mv) =
     move_step_time t mv k"
proof -
  have "(of_nat (Suc k * k div 2) :: u32) = of_nat (k * (k - 1) div 2) + of_nat k"
    using triangle_Suc [of k] by simp
  then show ?thesis unfolding move_step_time_def by (simp add: algebra_simps)
qed

text \<open>
  C13: the times of the steps.  After a move with interval \<open>i\<close>, increment \<open>a\<close> and count \<open>n\<close> has been
  loaded, the step events send one pulse each (one toggle with one event per step, two toggles
  with separate step and unstep events), and for every \<open>k < n\<close> the event of step \<open>k + 1\<close> is
  scheduled for \<open>(k + 1) * i + a * k * (k + 1) / 2\<close> ticks after the last step of the move before,
  with the increment read as a signed number.  With separate events it is scheduled later only
  if that time is before the end of the shortest pulse.
\<close>

theorem stepper_step_times:
  assumes "mq_first (st_mq (steppers m s)) = Some v" and "\<not> HAVE_AVR_OPTIMIZATION (cfg m)"
    and "k < unat (mv_count (stepper_moves m v))"
  shows "\<exists>m1 m2. stepper_load_next s m = Ok SF_RESCHEDULE m1 \<and>
    (if single_sched s m then
       repeatM k (stepper_event_edge s) m1 = Ok () m2 \<and>
       out m2 = out m1 @ replicate k (GpioOutToggle (step_pin (steppers m s))) \<and>
       waketime (timers m2 (stimer s)) = move_step_time (waketime (timers m (stimer s))) (stepper_moves m v) k
     else
       repeatM (2 * k) (stepper_event_full s) m1 = Ok () m2 \<and>
       out m2 = out m1 @ replicate (2 * k) (GpioOutToggle (step_pin (steppers m s))) \<and>
       waketime (timers m2 (stimer s)) =
         (if k = 0 then move_step_time (next_step_time (steppers m s)) (stepper_moves m v) k
          else late (move_step_time (next_step_time (steppers m s)) (stepper_moves m v) k)
            (clock_in (env m) (ticks m + 2 * k - 1) + step_pulse_ticks (steppers m s))))"
proof -
  let ?m = "load_state s v m" and ?mv = "stepper_moves m v"
  have load: "stepper_load_next s m = Ok SF_RESCHEDULE ?m" by (rule load_next_some [OF assms(1,2)])
  have n: "unat (to_u32 (mv_count ?mv) :: u32) = unat (mv_count ?mv)" "unat (mv_count ?mv) < 65536"
    using unat_u16_bound [of "mv_count ?mv"] by (simp_all add: unsigned_ucast_eq take_bit_nat_eq_self)
  show ?thesis
  proof (cases "single_sched s m")
    case True
    have "repeatM k (stepper_event_edge s) ?m = Ok () (stepped s k ?m)"
      by (rule edge_steps) (use True n assms(3) in simp)
    then show ?thesis
      using True load move_step_time_next [of "waketime (timers m (stimer s))" ?mv k]
      by (intro exI [of _ ?m] exI [of _ "stepped s k ?m"]) (simp add: stepped_def Let_def)
  next
    case False
    have "of_nat (unat (mv_count ?mv)) = (to_u32 (mv_count ?mv) :: u32)" using n(1) by (metis of_nat_unat)
    then have "st_count (steppers ?m s) = of_nat (2 * unat (mv_count ?mv))" using False by simp
    from full_steps [OF this _ assms(3)] n(2) obtain m2 where
      "repeatM (2 * k) (stepper_event_full s) ?m = Ok () m2"
      "out m2 = out ?m @ replicate (2 * k) (GpioOutToggle (step_pin (steppers ?m s)))"
      "waketime (timers m2 (stimer s)) = (if k = 0 then waketime (timers ?m (stimer s))
        else late (next_step_time (stepped_full k (steppers ?m s)))
          (clock_in (env m) (ticks m + 2 * k - 1) + step_pulse_ticks (steppers m s)))" by auto
    moreover have "next_step_time (stepped_full k (steppers ?m s)) = move_step_time (next_step_time (steppers m s)) ?mv k"
      using False move_step_time_next [of "next_step_time (steppers m s)" ?mv k] by (simp add: stepped_full_def)
    moreover have "waketime (timers ?m (stimer s)) = move_step_time (next_step_time (steppers m s)) ?mv 0"
      using False by (simp add: move_step_time_def)
    ultimately show ?thesis using False load by (intro exI [of _ ?m] exI [of _ m2]) simp
  qed
qed

text \<open>A machine with a stepper in the middle of a move and another move waiting.\<close>

definition sample_motion :: stepper_state where
  "sample_motion = (stepper_init sample_config sample_board)
     \<lparr>steppers := (\<lambda>_. zero_stepper)(3 := zero_stepper\<lparr>step_pin := 1, dir_pin := 2, step_pulse_ticks := 20,
        st_count := 2, position := 1 - POSITION_BIAS, st_mq := \<lparr>mq_first = Some 7, mq_last = Some 7\<rparr>\<rparr>),
      stepper_moves := (\<lambda>_. \<lparr>mv_interval = 100, mv_add = - 10, mv_count = 5, mv_flags = 0\<rparr>)\<rparr>"

lemma sample_motion_fields:
  "steppers sample_motion = (\<lambda>_. zero_stepper)(3 := zero_stepper\<lparr>step_pin := 1, dir_pin := 2, step_pulse_ticks := 20,
     st_count := 2, position := 1 - POSITION_BIAS, st_mq := \<lparr>mq_first = Some 7, mq_last = Some 7\<rparr>\<rparr>)"
  "stepper_moves sample_motion v = \<lparr>mv_interval = 100, mv_add = - 10, mv_count = 5, mv_flags = 0\<rparr>"
  "cfg sample_motion = sample_config" "env sample_motion = sample_board" "ticks sample_motion = 0" "out sample_motion = []"
  by (simp_all add: sample_motion_def stepper_init_def trsync_init_def command_init_def basecmd_init_def sched_init_def
      stepper_state.defs trsync_state.defs command_state.defs basecmd_state.defs machine.defs)

theorem stepper_step_times_witness:
  "\<exists>m1 m2. stepper_load_next 3 sample_motion = Ok SF_RESCHEDULE m1 \<and>
     repeatM 4 (stepper_event_full 3) m1 = Ok () m2 \<and> waketime (timers m2 (stimer 3)) = 270"
proof -
  have "mq_first (st_mq (steppers sample_motion 3)) = Some 7" "\<not> HAVE_AVR_OPTIMIZATION (cfg sample_motion)"
    "2 < unat (mv_count (stepper_moves sample_motion 7))" "\<not> single_sched 3 sample_motion"
    by (simp_all add: sample_motion_fields HAVE_AVR_OPTIMIZATION_def sample_config_def single_sched_def has_flag_def zero_stepper_def)
  from stepper_step_times [OF this(1-3)] this(4) obtain m1 m2 where
    "stepper_load_next 3 sample_motion = Ok SF_RESCHEDULE m1" "repeatM (2 * 2) (stepper_event_full 3) m1 = Ok () m2"
    "waketime (timers m2 (stimer 3)) =
      late (move_step_time (next_step_time (steppers sample_motion 3)) (stepper_moves sample_motion 7) 2)
        (clock_in (env sample_motion) (ticks sample_motion + 2 * 2 - 1) + step_pulse_ticks (steppers sample_motion 3))" by auto
  moreover have "late (move_step_time (next_step_time (steppers sample_motion 3)) (stepper_moves sample_motion 7) 2)
        (clock_in (env sample_motion) (ticks sample_motion + 2 * 2 - 1) + step_pulse_ticks (steppers sample_motion 3)) = 270"
    by (simp add: sample_motion_fields sample_board_def move_step_time_def zero_stepper_def late_def timer_is_before_def)
  ultimately show ?thesis by auto
qed

end
