(* ===== verification/Motor.thy ===== *)
theory Motor
  imports Motion
begin

text \<open>
  The position a stepper reports against the motor at its pins.  A motor is modelled by the
  direction level, the step level and the steps it has made; it follows the writes to its two
  pins.  Whatever the steppers of a board do, the reported position stays the position of the
  motor.
\<close>

subsection \<open>Relations that every function keeps\<close>

definition always :: "('s \<Rightarrow> 's \<Rightarrow> bool) \<Rightarrow> ('s, 'a) fw \<Rightarrow> bool" where
  "always R f \<longleftrightarrow> (\<forall>m a m'. f m = Ok a m' \<longrightarrow> R m m')"

lemma alwaysD: "always R f \<Longrightarrow> f m = Ok a m' \<Longrightarrow> R m m'"
  by (simp add: always_def)

locale state_preorder =
  fixes R :: "'s \<Rightarrow> 's \<Rightarrow> bool"
  assumes R_refl: "R m m"
    and R_trans: "R m m' \<Longrightarrow> R m' m'' \<Longrightarrow> R m m''"
begin

lemma always_ret: "always R (ret a)"
  by (simp add: always_def R_refl)

lemma always_reads: "always R (reads f)"
  by (simp add: always_def R_refl)

lemma always_undef: "always R undef"
  by (simp add: always_def)

lemma always_bnd:
  assumes "always R f" and "\<And>a. always R (g a)"
  shows "always R (bnd f g)"
proof -
  have "R m m''" if "bnd f g m = Ok b m''" for m b m''
  proof -
    from that obtain a m' where "f m = Ok a m'" "g a m' = Ok b m''"
      by (cases "f m") (simp_all add: bnd_app)
    then show ?thesis using assms R_trans [of m m' m''] by (auto simp: always_def)
  qed
  then show ?thesis by (simp add: always_def)
qed

lemma always_thn: "always R f \<Longrightarrow> always R g \<Longrightarrow> always R (thn f g)"
  unfolding thn_def by (rule always_bnd)

lemma always_if: "(b \<Longrightarrow> always R f) \<Longrightarrow> (\<not> b \<Longrightarrow> always R g) \<Longrightarrow> always R (if b then f else g)"
  by simp

lemma always_whenM: "(b \<Longrightarrow> always R f) \<Longrightarrow> always R (whenM b f)"
  by (cases b) (simp_all add: whenM_def always_ret)

lemma always_case: "always R f \<Longrightarrow> (\<And>x. always R (g x)) \<Longrightarrow> always R (case z of None \<Rightarrow> f | Some x \<Rightarrow> g x)"
  by (cases z) simp_all

lemmas always_rules = always_ret always_reads always_undef always_thn always_bnd always_if always_whenM always_case

end

subsection \<open>Functions that touch no stepper and no pin\<close>

definition quiet :: "out \<Rightarrow> bool" where
  "quiet x = (case x of GpioOutToggle _ \<Rightarrow> False | GpioOutWrite _ _ \<Rightarrow> False | _ \<Rightarrow> True)"

definition quiet_step :: "'e stepper_state_scheme \<Rightarrow> 'e stepper_state_scheme \<Rightarrow> bool" where
  "quiet_step m m' \<longleftrightarrow> steppers m' = steppers m \<and> cfg m' = cfg m \<and>
     (\<exists>outs. out m' = out m @ outs \<and> list_all quiet outs)"

interpretation qs: state_preorder quiet_step
proof
  show "quiet_step m m" for m :: "'e stepper_state_scheme" by (simp add: quiet_step_def)
  show "quiet_step m m''" if "quiet_step m m'" "quiet_step m' m''" for m m' m'' :: "'e stepper_state_scheme"
    using that by (auto simp: quiet_step_def)
qed

lemma quiet_modify:
  assumes "\<And>m. steppers (f m) = steppers m" "\<And>m. cfg (f m) = cfg m" "\<And>m. out (f m) = out m"
  shows "always quiet_step (modify f)"
  using assms by (simp add: always_def quiet_step_def)

lemma quiet_emit: "quiet x \<Longrightarrow> always quiet_step (emit x)"
  by (simp add: always_def quiet_step_def emit_def)

lemma quiet_shutdown: "always quiet_step (sched_shutdown r)"
  by (simp add: always_def sched_shutdown_def)

lemma quiet_upd_timer: "always quiet_step (upd_timer t f)"
  by (simp add: always_def quiet_step_def upd_timer_app)

lemma quiet_upd_smove: "always quiet_step (upd_smove x f)"
  by (simp add: always_def quiet_step_def upd_smove_def)

lemma quiet_irq: "always quiet_step irq_disable" "always quiet_step irq_enable" "always quiet_step irq_save"
  "always quiet_step (irq_restore b)" "always quiet_step timer_kick" "always quiet_step timer_read_time"
  by (simp_all add: always_def quiet_step_def board_defs quiet_def)

lemma quiet_insert_timer: "always quiet_step (insert_timer pos t w)"
  by (auto simp: always_def quiet_step_def insert_timer_def set_timer_def split: option.splits prod.splits)

lemmas quiet_rules = qs.always_rules quiet_shutdown quiet_upd_timer quiet_upd_smove quiet_irq quiet_insert_timer

lemma quiet_sched_add_timer: "always quiet_step (sched_add_timer t)"
  unfolding sched_add_timer_def sched_try_shutdown_def
  by (intro quiet_rules quiet_modify) (simp_all add: set_timer_def)

lemma quiet_sched_del_timer: "always quiet_step (sched_del_timer t)"
  unfolding sched_del_timer_def
  by (intro quiet_rules quiet_modify)
    (auto simp: set_timer_def always_def quiet_step_def split: option.splits)

lemma quiet_pool:
  "always quiet_step move_alloc" "always quiet_step (move_free x)" "always quiet_step (move_queue_push x q)"
  "always quiet_step (move_queue_pop q)" "always quiet_step (oid_lookup o1 ty)"
  "always quiet_step (command_sendf fmt args)"
  by (auto simp: always_def quiet_step_def move_alloc_def move_free_def move_queue_push_def move_queue_pop_def
      oid_lookup_def command_sendf_def emit_def irq_save_def irq_restore_def sched_shutdown_def bnd_app thn_app quiet_def
      split: option.splits if_splits)

subsection \<open>The motor\<close>

record motor =
  mo_dir :: bool
  mo_level :: bool
  mo_pos :: int

text \<open>
  A motor driver steps on every edge of the step pin, or only on the edge that leaves the
  idle level \<open>idle\<close>.
\<close>

definition set_level :: "bool \<Rightarrow> bool \<Rightarrow> bool \<Rightarrow> motor \<Rightarrow> motor" where
  "set_level both idle v mo = mo\<lparr>mo_level := v, mo_pos := mo_pos mo +
     (if (if both then v \<noteq> mo_level mo else v \<noteq> idle \<and> mo_level mo = idle)
      then (if mo_dir mo then 1 else - 1) else 0)\<rparr>"

definition motor_out :: "bool \<Rightarrow> bool \<Rightarrow> u32 \<Rightarrow> u32 \<Rightarrow> out \<Rightarrow> motor \<Rightarrow> motor" where
  "motor_out both idle sp dp x mo = (case x of
     GpioOutToggle p \<Rightarrow> if p = dp then mo\<lparr>mo_dir := \<not> mo_dir mo\<rparr>
       else if p = sp then set_level both idle (\<not> mo_level mo) mo else mo
   | GpioOutWrite p v \<Rightarrow> if p = dp then mo\<lparr>mo_dir := v\<rparr>
       else if p = sp then set_level both idle v mo else mo
   | _ \<Rightarrow> mo)"

text \<open>What the motor of stepper \<open>s\<close> makes of a sequence of outputs.\<close>

definition inverted :: "u8 \<Rightarrow> 'e stepper_state_scheme \<Rightarrow> bool" where
  "inverted s m = has_flag (st_flags (steppers m s)) SF_INVERT_STEP"

definition motor_run :: "u8 \<Rightarrow> 'e stepper_state_scheme \<Rightarrow> out list \<Rightarrow> motor \<Rightarrow> motor" where
  "motor_run s m outs mo = fold (motor_out (single_sched s m) (inverted s m) (step_pin (steppers m s)) (dir_pin (steppers m s))) outs mo"

text \<open>The stepper's counters agree with its motor.\<close>

definition steps_left :: "u8 \<Rightarrow> 'e stepper_state_scheme \<Rightarrow> u32" where
  "steps_left s m = (if single_sched s m then st_count (steppers m s) else st_count (steppers m s) div 2)"

text \<open>The firmware's code of a position: negated while the direction pin is low.\<close>

definition motor_code :: "motor \<Rightarrow> u32" where
  "motor_code mo = (if mo_dir mo then POSITION_BIAS + of_int (mo_pos mo) else - (POSITION_BIAS + of_int (mo_pos mo)))"

definition tracks :: "u8 \<Rightarrow> 'e stepper_state_scheme \<Rightarrow> motor \<Rightarrow> bool" where
  "tracks s m mo \<longleftrightarrow>
     position (steppers m s) - steps_left s m = motor_code mo \<and>
     (single_sched s m \<or> (odd (st_count (steppers m s)) \<longleftrightarrow> mo_level mo \<noteq> inverted s m))"

text \<open>Every motor has its own pins.\<close>

definition wired :: "u8 \<Rightarrow> 'e stepper_state_scheme \<Rightarrow> bool" where
  "wired s m \<longleftrightarrow> \<not> HAVE_AVR_OPTIMIZATION (cfg m) \<and> step_pin (steppers m s) \<noteq> dir_pin (steppers m s) \<and>
     (\<forall>t. t \<noteq> s \<longrightarrow> {step_pin (steppers m t), dir_pin (steppers m t)} \<inter>
        {step_pin (steppers m s), dir_pin (steppers m s)} = {})"

definition same_wires :: "u8 \<Rightarrow> 'e stepper_state_scheme \<Rightarrow> 'e stepper_state_scheme \<Rightarrow> bool" where
  "same_wires s m m' \<longleftrightarrow> cfg m' = cfg m \<and> single_sched s m' = single_sched s m \<and> inverted s m' = inverted s m \<and>
     (\<forall>t. step_pin (steppers m' t) = step_pin (steppers m t) \<and> dir_pin (steppers m' t) = dir_pin (steppers m t))"

definition tracked :: "u8 \<Rightarrow> 'e stepper_state_scheme \<Rightarrow> 'e stepper_state_scheme \<Rightarrow> bool" where
  "tracked s m m' \<longleftrightarrow> (wired s m \<longrightarrow> same_wires s m m' \<and>
     (\<exists>outs. out m' = out m @ outs \<and> (\<forall>mo. tracks s m mo \<longrightarrow> tracks s m' (motor_run s m outs mo))))"

lemma same_wires_wired: "same_wires s m m' \<Longrightarrow> wired s m' = wired s m"
  by (simp add: same_wires_def wired_def)

lemma same_wires_run: "same_wires s m m' \<Longrightarrow> motor_run s m' = motor_run s m"
  by (simp add: same_wires_def motor_run_def fun_eq_iff)

lemma motor_run_append: "motor_run s m (a @ b) mo = motor_run s m b (motor_run s m a mo)"
  by (simp add: motor_run_def)

lemma motor_run_Nil [simp]: "motor_run s m [] mo = mo"
  by (simp add: motor_run_def)

interpretation tk: state_preorder "tracked s"
  for s :: u8
proof
  show "tracked s m m" for m :: "'e stepper_state_scheme"
    unfolding tracked_def by (auto simp: same_wires_def intro: exI [of _ "[]"])
  show "tracked s m m''" if a: "tracked s m m'" and b: "tracked s m' m''" for m m' m'' :: "'e stepper_state_scheme"
    unfolding tracked_def
  proof
    assume w: "wired s m"
    from a w obtain o1 where 1: "same_wires s m m'" "out m' = out m @ o1"
      "\<And>mo. tracks s m mo \<Longrightarrow> tracks s m' (motor_run s m o1 mo)" by (auto simp: tracked_def)
    then have "wired s m'" using w same_wires_wired by blast
    with b obtain o2 where 2: "same_wires s m' m''" "out m'' = out m' @ o2"
      "\<And>mo. tracks s m' mo \<Longrightarrow> tracks s m'' (motor_run s m' o2 mo)" by (auto simp: tracked_def)
    have "same_wires s m m''" using 1(1) 2(1) by (simp add: same_wires_def)
    moreover have "tracks s m'' (motor_run s m (o1 @ o2) mo)" if "tracks s m mo" for mo
      using 2(3) [OF 1(3) [OF that]] by (simp add: motor_run_append same_wires_run [OF 1(1)])
    ultimately show "same_wires s m m'' \<and> (\<exists>outs. out m'' = out m @ outs \<and>
        (\<forall>mo. tracks s m mo \<longrightarrow> tracks s m'' (motor_run s m outs mo)))"
      using 1(2) 2(2) by (intro conjI exI [of _ "o1 @ o2"]) auto
  qed
qed

subsection \<open>What keeps a stepper and its motor together\<close>

lemma motor_run_quiet: "list_all quiet outs \<Longrightarrow> motor_run s m outs mo = mo"
proof (induction outs arbitrary: mo)
  case (Cons x outs)
  then have "motor_out b i sp dp x mo = mo" for b i sp dp by (cases x) (simp_all add: motor_out_def quiet_def)
  then show ?case using Cons by (simp add: motor_run_def)
qed simp

lemma tracks_cong:
  assumes "steppers m' s = steppers m s" and "cfg m' = cfg m"
  shows "tracks s m' mo = tracks s m mo"
  using assms by (simp add: tracks_def steps_left_def single_sched_def inverted_def)

lemma tracked_frame:
  assumes "steppers m' s = steppers m s" and "cfg m' = cfg m"
    and "\<And>t. step_pin (steppers m' t) = step_pin (steppers m t)" "\<And>t. dir_pin (steppers m' t) = dir_pin (steppers m t)"
    and "out m' = out m @ outs" and "\<And>mo. wired s m \<Longrightarrow> motor_run s m outs mo = mo"
  shows "tracked s m m'"
proof -
  have "same_wires s m m'" using assms(1-4) by (simp add: same_wires_def single_sched_def inverted_def)
  then show ?thesis using assms(5,6) tracks_cong [OF assms(1,2)] unfolding tracked_def by auto
qed

lemma quiet_tracked: "quiet_step m m' \<Longrightarrow> tracked s m m'"
  by (auto simp: quiet_step_def motor_run_quiet intro!: tracked_frame)

lemma always_quiet: "always quiet_step f \<Longrightarrow> always (tracked s) f"
  by (auto simp: always_def quiet_tracked)

lemma other_upd:
  assumes "t \<noteq> s" and "\<And>x. step_pin (f x) = step_pin x" "\<And>x. dir_pin (f x) = dir_pin x"
  shows "always (tracked s) (upd_stepper t f :: ('e, unit) stfw)"
proof -
  have "tracked s m (m\<lparr>steppers := (steppers m)(t := f (steppers m t))\<rparr>)" for m :: "'e stepper_state_scheme"
    by (rule tracked_frame [where outs = "[]"]) (use assms in simp_all)
  then show ?thesis by (simp add: always_def upd_stepper_app)
qed

lemma other_pin:
  assumes "t \<noteq> s"
  shows "always (tracked s) (bnd (reads (\<lambda>m. step_pin (steppers m t))) gpio_out_toggle_noirq :: ('e, unit) stfw)"
    and "always (tracked s) (bnd (reads (\<lambda>m. dir_pin (steppers m t))) gpio_out_toggle_noirq :: ('e, unit) stfw)"
proof -
  have "tracked s m (m\<lparr>out := out m @ [GpioOutToggle p]\<rparr>)" if "p \<in> {step_pin (steppers m t), dir_pin (steppers m t)}"
    for m :: "'e stepper_state_scheme" and p
    by (rule tracked_frame [where outs = "[GpioOutToggle p]"])
      (use assms that in \<open>auto simp: motor_run_def motor_out_def wired_def\<close>)
  then show "always (tracked s) (bnd (reads (\<lambda>m. step_pin (steppers m t))) gpio_out_toggle_noirq :: ('e, unit) stfw)"
    "always (tracked s) (bnd (reads (\<lambda>m. dir_pin (steppers m t))) gpio_out_toggle_noirq :: ('e, unit) stfw)"
    by (auto simp: always_def gpio_app)
qed

lemma inverted_upd:
  "st_flags y = st_flags (steppers m s) \<Longrightarrow>
     inverted s (m\<lparr>steppers := (steppers m)(s := y)\<rparr>) = inverted s m"
  by (simp add: inverted_def)

lemma tracked_own:
  assumes "steppers m' = (steppers m)(s := x)" and "cfg m' = cfg m" and "out m' = out m @ outs"
    and "step_pin x = step_pin (steppers m s)" "dir_pin x = dir_pin (steppers m s)" "st_flags x = st_flags (steppers m s)"
    and "\<And>mo. wired s m \<Longrightarrow> tracks s m mo \<Longrightarrow> tracks s m' (motor_run s m outs mo)"
  shows "tracked s m m'"
proof -
  have "same_wires s m m'" using assms(1-6) by (simp add: same_wires_def single_sched_def inverted_def)
  then show ?thesis using assms(3,7) unfolding tracked_def by auto
qed

lemma own_upd:
  assumes "\<And>x. step_pin (f x) = step_pin x" "\<And>x. dir_pin (f x) = dir_pin x" "\<And>x. st_flags (f x) = st_flags x"
    "\<And>x. position (f x) = position x" "\<And>x. st_count (f x) = st_count x"
  shows "always (tracked s) (upd_stepper s f :: ('e, unit) stfw)"
proof -
  have "tracked s m (m\<lparr>steppers := (steppers m)(s := f (steppers m s))\<rparr>)" for m :: "'e stepper_state_scheme"
    by (rule tracked_own [where outs = "[]" and x = "f (steppers m s)"])
      (use assms in \<open>auto simp: tracks_def steps_left_def single_sched_upd inverted_upd\<close>)
  then show ?thesis by (simp add: always_def upd_stepper_app)
qed

subsection \<open>The stepper's own events\<close>

lemma half_double: "(to_u32 n * 2) div 2 = to_u32 n" for n :: u16
proof -
  have n: "unat (to_u32 n :: u32) = unat n" "unat n < 65536"
    using unat_u16_bound [of n] by (simp_all add: unsigned_ucast_eq take_bit_nat_eq_self)
  then have "unat (to_u32 n * 2 :: u32) = unat n * 2" by (simp add: unat_word_ariths)
  then show ?thesis using n by (simp add: word_unat_eq_iff unat_div)
qed

lemma even_unat: "even (unat c) = even c" for c :: u32
  by (simp add: even_iff_mod_2_eq_zero word_unat_eq_iff unat_mod)

lemma half_even: "even c \<Longrightarrow> c \<noteq> 0 \<Longrightarrow> (c - 1) div 2 = c div 2 - 1" for c :: u32
proof -
  assume c: "even c" "c \<noteq> 0"
  then have u: "even (unat c)" "unat c \<noteq> 0" by (simp_all add: even_unat unat_eq_0)
  have h: "unat (c div 2) = unat c div 2" by (simp add: unat_div)
  then have "c div 2 \<noteq> 0" using u by (auto simp: unat_eq_0 [symmetric])
  then have "unat (c div 2 - 1) = unat c div 2 - 1" using h by (simp add: unat_minus_one)
  moreover have "unat ((c - 1) div 2) = (unat c - 1) div 2" using c(2) by (simp add: unat_div unat_minus_one)
  moreover have "(unat c - 1) div 2 = unat c div 2 - 1" using u by presburger
  ultimately show ?thesis by (simp add: word_unat_eq_iff)
qed

lemma half_odd: "odd c \<Longrightarrow> (c - 1) div 2 = c div 2" for c :: u32
proof -
  assume c: "odd c"
  then have "odd (unat c)" "c \<noteq> 0" by (auto simp: even_unat)
  then have "(unat c - 1) div 2 = unat c div 2" by presburger
  then show ?thesis using \<open>c \<noteq> 0\<close> by (simp add: word_unat_eq_iff unat_div unat_minus_one)
qed

lemma load_tracked:
  assumes "st_count (steppers m s) = 0" and "stepper_load_next s m = Ok r m'"
  shows "tracked s m m'"
proof (cases "wired s m")
  case False
  then show ?thesis by (simp add: tracked_def)
next
  case True
  then have avr: "\<not> HAVE_AVR_OPTIMIZATION (cfg m)" by (simp add: wired_def)
  show ?thesis
  proof (cases "mq_first (st_mq (steppers m s))")
    case None
    then have "m' = m\<lparr>steppers := (steppers m)(s := (steppers m s)\<lparr>st_count := 0\<rparr>)\<rparr>"
      using assms(2) load_next_empty [of m s] by (simp add: move_queue_empty_def)
    moreover have "(steppers m s)\<lparr>st_count := 0\<rparr> = steppers m s" using assms(1) by simp
    ultimately show ?thesis by (simp add: tk.R_refl)
  next
    case (Some v)
    have m': "m' = load_state s v m" using assms(2) load_next_some [OF Some avr] by simp
    define mv where "mv = stepper_moves m v"
    define outs where "outs = (if has_flag (mv_flags mv) MF_DIR then [GpioOutToggle (dir_pin (steppers m s))] else [])"
    have l0: "steps_left s m = 0" using assms(1) by (simp add: steps_left_def)
    have sg: "single_sched s m' = single_sched s m" "inverted s m' = inverted s m"
      by (simp_all add: m' single_sched_def inverted_def)
    have left: "position (steppers m' s) - steps_left s m' =
        (if has_flag (mv_flags mv) MF_DIR then - position (steppers m s) else position (steppers m s))"
      "even (st_count (steppers m' s)) \<or> single_sched s m"
      unfolding steps_left_def sg by (simp_all add: m' half_double mv_def)
    show ?thesis
    proof (rule tracked_own [where outs = outs])
      show "steppers m' = (steppers m)(s := loaded (single_sched s m) mv ((st_mq (steppers m s))\<lparr>mq_first := mnext m v\<rparr>) (steppers m s))"
        by (simp add: m' mv_def)
      show "tracks s m' (motor_run s m outs mo)" if "tracks s m mo" for mo
        using that left assms(1) l0 unfolding tracks_def sg
        by (auto simp: outs_def motor_run_def motor_out_def motor_code_def)
    qed (simp_all add: m' outs_def mv_def)
  qed
qed

lemma load_ignores_count:
  "stepper_load_next s m = stepper_load_next s (m\<lparr>steppers := (steppers m)(s := (steppers m s)\<lparr>st_count := 0\<rparr>)\<rparr>)"
  if "\<not> HAVE_AVR_OPTIMIZATION (cfg m)"
proof (cases "mq_first (st_mq (steppers m s))")
  case None
  then show ?thesis by (simp add: load_next_empty move_queue_empty_def)
next
  case (Some v)
  let ?m = "m\<lparr>steppers := (steppers m)(s := (steppers m s)\<lparr>st_count := 0\<rparr>)\<rparr>"
  have "loaded b mv q (x\<lparr>st_count := 0\<rparr>) = loaded b mv q x" for b mv q x by (simp add: loaded_def Let_def)
  then have "load_state s v ?m = load_state s v m" by (simp add: load_state_def single_sched_upd Let_def)
  then show ?thesis using load_next_some [of m s v] load_next_some [of ?m s v] Some that by simp
qed

lemma own_pulse:
  assumes "steppers m' = (steppers m)(s := x)" and "cfg m' = cfg m"
    and "out m' = out m @ [GpioOutToggle (step_pin (steppers m s))]"
    and "step_pin x = step_pin (steppers m s)" "dir_pin x = dir_pin (steppers m s)" "st_flags x = st_flags (steppers m s)"
    and "position x = position (steppers m s)" and "st_count x = st_count (steppers m s) - 1"
    and "st_count (steppers m s) \<noteq> 0"
  shows "tracked s m m'"
proof (rule tracked_own [OF assms(1-6)])
  fix mo
  assume w: "wired s m" and t: "tracks s m mo"
  have sg: "single_sched s m' = single_sched s m" "inverted s m' = inverted s m"
    using assms(1,2,6) by (simp_all add: single_sched_def inverted_def)
  let ?c = "st_count (steppers m s)" and ?mo = "motor_run s m [GpioOutToggle (step_pin (steppers m s))] mo"
  have run: "?mo = set_level (single_sched s m) (inverted s m) (\<not> mo_level mo) mo"
    using w by (simp add: motor_run_def motor_out_def wired_def)
  consider "single_sched s m" | "\<not> single_sched s m" "even ?c" | "\<not> single_sched s m" "odd ?c" by blast
  then show "tracks s m' ?mo"
  proof cases
    case 1
    then show ?thesis
      using t unfolding tracks_def sg run
      by (auto simp: steps_left_def sg assms set_level_def motor_code_def algebra_simps split: if_splits)
  next
    case 2
    then have "(?c - 1) div 2 = ?c div 2 - 1" using half_even assms(9) by blast
    then show ?thesis
      using t 2 unfolding tracks_def sg run
      by (auto simp: steps_left_def sg assms set_level_def motor_code_def algebra_simps split: if_splits)
  next
    case 3
    then have "(?c - 1) div 2 = ?c div 2" using half_odd by blast
    then show ?thesis
      using t 3 unfolding tracks_def sg run
      by (auto simp: steps_left_def sg assms set_level_def motor_code_def split: if_splits)
  qed
qed

lemma edge_tracked:
  assumes "st_count (steppers m s) \<noteq> 0" and "stepper_event_edge s m = Ok r m'"
  shows "tracked s m m'"
proof (cases "wired s m \<and> st_count (steppers m s) = 1")
  case True
  define m1 where "m1 = m\<lparr>out := out m @ [GpioOutToggle (step_pin (steppers m s))]\<rparr>"
  define m2 where "m2 = m1\<lparr>steppers := (steppers m1)(s := (steppers m1 s)\<lparr>st_count := 0\<rparr>)\<rparr>"
  have "stepper_load_next s m1 = Ok r m'"
    using assms(2) True by (simp add: stepper_event_edge_def gpio_app m1_def)
  then have "stepper_load_next s m2 = Ok r m'"
    using load_ignores_count [of m1 s] True by (simp add: m2_def m1_def wired_def)
  then have "tracked s m2 m'" by (rule load_tracked [rotated]) (simp add: m2_def)
  moreover have "tracked s m m2"
    by (rule own_pulse [where x = "(steppers m s)\<lparr>st_count := 0\<rparr>"]) (use True in \<open>simp_all add: m2_def m1_def\<close>)
  ultimately show ?thesis using tk.R_trans by blast
next
  case False
  then consider "\<not> wired s m" | "st_count (steppers m s) \<noteq> 1" by blast
  then show ?thesis
  proof cases
    case 1
    then show ?thesis by (simp add: tracked_def)
  next
    case 2
    then have m': "m' = stepped s (Suc 0) m" using edge_step [of m s] assms(2) by simp
    show ?thesis
      by (rule own_pulse [where x = "steppers (stepped s (Suc 0) m) s"])
        (use assms(1) in \<open>simp_all add: m' stepped_def Let_def\<close>)
  qed
qed

lemma full_tracked:
  assumes "st_count (steppers m s) \<noteq> 0" and "stepper_event_full s m = Ok r m'"
  shows "tracked s m m'"
proof -
  consider "even (st_count (steppers m s))" | "odd (st_count (steppers m s))" "st_count (steppers m s) \<noteq> 1"
    | "st_count (steppers m s) = 1" by blast
  then show ?thesis
  proof cases
    case 1
    show ?thesis
      by (rule own_pulse [where x = "(steppers m s)\<lparr>st_count := st_count (steppers m s) - 1\<rparr>"])
        (use full_up [OF 1] assms in auto)
  next
    case 2
    show ?thesis
      by (rule own_pulse [where x = "steppers m' s"]) (use full_down [OF 2] assms in auto)
  next
    case 3
    define m1 where "m1 = m\<lparr>out := out m @ [GpioOutToggle (step_pin (steppers m s))], ticks := Suc (ticks m),
      steppers := (steppers m)(s := (steppers m s)\<lparr>st_count := 0\<rparr>)\<rparr>"
    have "tracked s m m1"
      by (rule own_pulse [where x = "(steppers m s)\<lparr>st_count := 0\<rparr>"]) (use 3 in \<open>simp_all add: m1_def\<close>)
    moreover obtain r2 m2 where l: "stepper_load_next s m1 = Ok r2 m2" and q: "quiet_step m2 m'"
      using assms(2) 3
      by (auto simp: stepper_event_full_def gpio_app timer_read_time_def upd_stepper_app m1_def bnd_app
          reschedule_min_def upd_timer_app quiet_step_def split: res.splits if_splits)
    have "tracked s m1 m2" by (rule load_tracked [OF _ l]) (simp add: m1_def)
    ultimately show ?thesis using quiet_tracked [OF q, of s] tk.R_trans by blast
  qed
qed

subsection \<open>Other steppers\<close>

lemmas tracked_quiet = quiet_shutdown [THEN always_quiet] quiet_upd_timer [THEN always_quiet]
  quiet_upd_smove [THEN always_quiet] quiet_irq [THEN always_quiet] quiet_sched_add_timer [THEN always_quiet]
  quiet_sched_del_timer [THEN always_quiet] quiet_pool [THEN always_quiet]

lemmas tracked_rules = tk.always_ret tk.always_reads tk.always_undef tracked_quiet

lemma other_load: "t \<noteq> s \<Longrightarrow> always (tracked s) (stepper_load_next t)"
  unfolding stepper_load_next_def
  by (intro tracked_rules other_pin tk.always_thn tk.always_bnd tk.always_if tk.always_whenM other_upd) simp_all

lemma other_events:
  assumes "t \<noteq> s"
  shows "always (tracked s) (stepper_event_edge t)" and "always (tracked s) (stepper_event_full t)"
  unfolding stepper_event_edge_def stepper_event_full_def reschedule_min_def
  using assms
  by (intro tracked_rules other_load other_pin tk.always_thn tk.always_bnd tk.always_if other_upd; simp)+

subsection \<open>Commands\<close>

text \<open>The flags that describe the driver; they are fixed by the configuration.\<close>

definition same_mode :: "u8 \<Rightarrow> u8 \<Rightarrow> bool" where
  "same_mode a b \<longleftrightarrow> has_flag a SF_INVERT_STEP = has_flag b SF_INVERT_STEP \<and>
     has_flag a SF_SINGLE_SCHED = has_flag b SF_SINGLE_SCHED"

lemma own_flags:
  assumes "same_mode fl (st_flags (steppers m s))"
  shows "tracked s m (m\<lparr>steppers := (steppers m)(s := (steppers m s)\<lparr>st_flags := fl\<rparr>)\<rparr>)" (is "tracked s m ?m")
proof -
  have sg: "single_sched s ?m = single_sched s m" "inverted s ?m = inverted s m"
    using assms by (simp_all add: single_sched_def inverted_def same_mode_def)
  then have "same_wires s m ?m" by (simp add: same_wires_def)
  moreover have "tracks s ?m mo = tracks s m mo" for mo unfolding tracks_def steps_left_def sg by simp
  ultimately show ?thesis unfolding tracked_def by (auto intro: exI [of _ "[]"])
qed

lemma always_own_flags:
  assumes "\<And>fl. same_mode (g fl) fl"
  shows "always (tracked s) (upd_stepper s (\<lambda>x. x\<lparr>st_flags := g (st_flags x)\<rparr>))"
  by (simp add: always_def upd_stepper_app own_flags assms)

lemma mode_bits: "has_flag x SF_INVERT_STEP = bit x 2" "has_flag x SF_SINGLE_SCHED = bit x 4"
  using and_exp_eq_0_iff_not_bit [of x 2] and_exp_eq_0_iff_not_bit [of x 4]
  by (simp_all add: has_flag_def SF_INVERT_STEP_def SF_SINGLE_SCHED_def)

lemma same_mode_bits:
  "same_mode ((fl AND NOT SF_NEXT_DIR) OR (if b then SF_NEXT_DIR else 0)) fl"
  "same_mode (fl AND NOT SF_NEED_RESET) fl" "same_mode (fl XOR SF_LAST_DIR) fl" "same_mode fl fl"
  by (simp_all add: same_mode_def mode_bits bit_simps SF_NEXT_DIR_def SF_NEED_RESET_def SF_LAST_DIR_def)

lemma dir_tracked: "always (tracked s) (command_set_next_step_dir args)"
proof (cases "to_u8 (args ! 0) = s")
  case True
  show ?thesis
    unfolding command_set_next_step_dir_def Let_def stepper_oid_lookup_def True
    by (intro tracked_rules tk.always_thn always_own_flags same_mode_bits(1))
next
  case False
  then show ?thesis
    unfolding command_set_next_step_dir_def Let_def stepper_oid_lookup_def
    by (intro tracked_rules tk.always_thn other_upd) simp_all
qed

lemma reset_tracked: "always (tracked s) (command_reset_step_clock args)"
proof (cases "to_u8 (args ! 0) = s")
  case True
  show ?thesis
    unfolding command_reset_step_clock_def Let_def stepper_oid_lookup_def True
    by (intro tracked_rules tk.always_thn tk.always_bnd tk.always_if always_own_flags same_mode_bits(2) own_upd) simp_all
next
  case False
  then show ?thesis
    unfolding command_reset_step_clock_def Let_def stepper_oid_lookup_def
    by (intro tracked_rules tk.always_thn tk.always_bnd tk.always_if other_upd) simp_all
qed

lemma report_tracked: "always (tracked s) (command_stepper_get_position args)"
  unfolding command_stepper_get_position_def Let_def stepper_oid_lookup_def
  by (intro tracked_rules tk.always_thn tk.always_bnd)

lemma push_tracked: "always (tracked s) (push_move t x)"
proof (cases "t = s")
  case True
  show ?thesis unfolding push_move_def True by (intro tracked_rules tk.always_bnd own_upd) simp_all
next
  case False
  then show ?thesis unfolding push_move_def by (intro tracked_rules tk.always_bnd other_upd) simp_all
qed

lemma push_count: "push_move s x m = Ok u m' \<Longrightarrow> st_count (steppers m' s) = st_count (steppers m s)"
  by (auto simp: push_move_def move_queue_push_def upd_stepper_app thn_app bnd_app split: option.splits)

text \<open>The end of \<^verbatim>\<open>command_queue_step\<close>, where the move is queued or started.\<close>

definition enqueue :: "u8 \<Rightarrow> nat \<Rightarrow> u8 \<Rightarrow> u32 \<Rightarrow> ('e, unit) stfw" where
  "enqueue s x fl cnt =
     (if cnt \<noteq> 0 then thn (upd_stepper s (\<lambda>y. y\<lparr>st_flags := fl\<rparr>)) (push_move s x)
      else if has_flag fl SF_NEED_RESET then move_free x
      else thn (upd_stepper s (\<lambda>y. y\<lparr>st_flags := fl\<rparr>))
        (thn (push_move s x) (thn (stepper_load_next s) (sched_add_timer (stimer s)))))"

definition turn_flags :: "u8 \<Rightarrow> u8" where
  "turn_flags fl = (if has_flag fl SF_LAST_DIR \<noteq> has_flag fl SF_NEXT_DIR then fl XOR SF_LAST_DIR else fl)"

lemma queue_step_enqueue:
  "command_queue_step args =
     (let s = to_u8 (args ! 0) in
     thn (stepper_oid_lookup s)
     (bnd move_alloc (\<lambda>x.
     thn (upd_smove x (\<lambda>v. v\<lparr>mv_interval := args ! 1\<rparr>))
     (thn (upd_smove x (\<lambda>v. v\<lparr>mv_count := to_u16 (args ! 2)\<rparr>))
     (if to_u16 (args ! 2) = (0 :: u16) then sched_shutdown ''Invalid count parameter''
      else
        thn (upd_smove x (\<lambda>v. v\<lparr>mv_add := to_u16 (args ! 3)\<rparr>))
        (thn (upd_smove x (\<lambda>v. v\<lparr>mv_flags := 0\<rparr>))
        (thn irq_disable
        (bnd (reads (\<lambda>m. st_flags (steppers m s))) (\<lambda>fl.
        thn (whenM (has_flag fl SF_LAST_DIR \<noteq> has_flag fl SF_NEXT_DIR) (upd_smove x (\<lambda>v. v\<lparr>mv_flags := mv_flags v OR MF_DIR\<rparr>)))
        (bnd (reads (\<lambda>m. st_count (steppers m s))) (\<lambda>cnt.
        thn (enqueue s x (turn_flags fl) cnt)
        irq_enable)))))))))))"
  by (simp only: command_queue_step_def enqueue_def turn_flags_def Let_def)

lemma enqueue_tracked:
  assumes "same_mode fl (st_flags (steppers m s))"
    and run: "enqueue s x fl (st_count (steppers m s)) m = Ok u m'"
  shows "tracked s m m'"
proof -
  define m1 where "m1 = m\<lparr>steppers := (steppers m)(s := (steppers m s)\<lparr>st_flags := fl\<rparr>)\<rparr>"
  have t1: "tracked s m m1" using own_flags [OF assms(1)] by (simp add: m1_def)
  have push: "tracked s m1 m2" if "push_move s x m1 = Ok u2 m2" for u2 m2
    using push_tracked that by (rule alwaysD)
  consider "st_count (steppers m s) \<noteq> 0" | "st_count (steppers m s) = 0" "has_flag fl SF_NEED_RESET"
    | "st_count (steppers m s) = 0" "\<not> has_flag fl SF_NEED_RESET" by blast
  then show ?thesis
  proof cases
    case 1
    then have "push_move s x m1 = Ok u m'" using run by (simp add: upd_stepper_app m1_def enqueue_def)
    then show ?thesis using push t1 tk.R_trans by blast
  next
    case 2
    then have "move_free x m = Ok u m'" using run by (simp add: enqueue_def)
    then show ?thesis by (rule alwaysD [OF quiet_pool(2) [THEN always_quiet]])
  next
    case 3
    then obtain u2 m2 r m3 where r: "push_move s x m1 = Ok u2 m2" "stepper_load_next s m2 = Ok r m3"
      "sched_add_timer (stimer s) m3 = Ok u m'"
      using run by (auto simp: upd_stepper_app m1_def enqueue_def thn_app split: res.splits)
    have "st_count (steppers m2 s) = 0" using push_count [OF r(1)] 3 by (simp add: m1_def)
    then have "tracked s m2 m3" using r(2) by (rule load_tracked)
    moreover have "tracked s m3 m'" by (rule alwaysD [OF quiet_sched_add_timer [THEN always_quiet] r(3)])
    ultimately show ?thesis using push [OF r(1)] t1 tk.R_trans by blast
  qed
qed

lemma enqueue_tail:
  "always (tracked s) (bnd (reads (\<lambda>m. st_flags (steppers m s))) (\<lambda>fl.
     thn (whenM (has_flag fl SF_LAST_DIR \<noteq> has_flag fl SF_NEXT_DIR) (upd_smove x g))
     (bnd (reads (\<lambda>m. st_count (steppers m s))) (\<lambda>cnt.
     thn (enqueue s x (turn_flags fl) cnt) irq_enable))))" (is "always _ ?f")
proof -
  have "tracked s m m'" if run: "?f m = Ok u m'" for m u m'
  proof -
    let ?fl = "st_flags (steppers m s)"
    have "\<exists>m1. whenM b (upd_smove x g) m = Ok () m1" for b by (cases b) (simp_all add: upd_smove_def)
    then obtain m1 where m1: "whenM (has_flag ?fl SF_LAST_DIR \<noteq> has_flag ?fl SF_NEXT_DIR) (upd_smove x g) m = Ok () m1"
      by blast
    have "always quiet_step (whenM b (upd_smove x g))" for b by (intro quiet_rules)
    from alwaysD [OF this m1] have q: "quiet_step m m1" .
    then have st: "steppers m1 = steppers m" by (simp add: quiet_step_def)
    from run m1 obtain u2 m2 where "enqueue s x (turn_flags ?fl) (st_count (steppers m1 s)) m1 = Ok u2 m2"
      and e: "irq_enable m2 = Ok u m'"
      by (auto simp: thn_app [of "enqueue _ _ _ _"] simp del: whenM_app split: res.splits)
    then have "tracked s m1 m2"
      by (intro enqueue_tracked) (simp_all add: st turn_flags_def same_mode_bits)
    moreover have "tracked s m2 m'" by (rule alwaysD [OF quiet_irq(2) [THEN always_quiet] e])
    ultimately show ?thesis using quiet_tracked [OF q] tk.R_trans by blast
  qed
  then show ?thesis by (auto simp: always_def)
qed

lemma other_enqueue: "t \<noteq> s \<Longrightarrow> always (tracked s) (enqueue t x fl cnt)"
  unfolding enqueue_def
  by (intro tracked_rules push_tracked other_load tk.always_thn tk.always_if other_upd) simp_all

lemma queue_tracked: "always (tracked s) (command_queue_step args)"
proof (cases "to_u8 (args ! 0) = s")
  case True
  show ?thesis
    unfolding queue_step_enqueue Let_def stepper_oid_lookup_def True
    by (intro tracked_rules enqueue_tail tk.always_thn tk.always_bnd tk.always_if)
next
  case False
  then show ?thesis
    unfolding queue_step_enqueue Let_def stepper_oid_lookup_def
    by (intro tracked_rules other_enqueue tk.always_thn tk.always_bnd tk.always_if tk.always_whenM)
qed

subsection \<open>Stopping\<close>

lemma range_bit31:
  assumes "\<bar>p\<bar> < 2 ^ 30"
  shows "\<not> bit (POSITION_BIAS + of_int p) 31" and "bit (- (POSITION_BIAS + of_int p)) 31"
proof -
  define N where "N = nat (2 ^ 30 + p)"
  have N: "0 < N" "N < 2 ^ 31" "int N = 2 ^ 30 + p" using assms by (auto simp: N_def)
  have "(of_int (int N) :: u32) = of_int (2 ^ 30 + p)" by (simp only: N(3))
  then have "POSITION_BIAS + of_int p = (of_nat N :: u32)" by (simp add: POSITION_BIAS_def)
  moreover have u: "unat (of_nat N :: u32) = N" using N by (intro unat_of_nat_u32) simp
  moreover have "unat (- (of_nat N :: u32)) = 2 ^ 32 - N"
  proof -
    have "(of_nat (2 ^ 32 - N) :: u32) + of_nat N = of_nat (2 ^ 32)" using N(2) by (simp flip: of_nat_add)
    also have "(of_nat (2 ^ 32) :: u32) = 0" by (simp add: word_unat_eq_iff unat_of_nat)
    finally have "- (of_nat N :: u32) = of_nat (2 ^ 32 - N)" by (simp add: neg_eq_iff_add_eq_0 add.commute)
    moreover have "2 ^ 32 - N < 4294967296" using N(1) by simp
    ultimately show ?thesis by (simp add: unat_of_nat_u32)
  qed
  moreover have "N div 2 ^ 31 = 0" using N by simp
  moreover have "(2 ^ 32 - N) div 2 ^ 31 = 1" using N by (simp add: div_nat_eqI)
  moreover have "bit w 31 = odd (unat w div 2 ^ 31)" for w :: u32
  proof -
    have "bit (unat w) 31 = bit w 31" by (simp add: bit_unsigned_iff)
    then show ?thesis by (simp only: bit_iff_odd)
  qed
  ultimately show "\<not> bit (POSITION_BIAS + of_int p) 31" "bit (- (POSITION_BIAS + of_int p)) 31" by simp_all
qed

lemma get_position_motor:
  assumes "tracks s m mo" and "\<bar>mo_pos mo\<bar> < 2 ^ 30"
  shows "stepper_get_position s m = POSITION_BIAS + of_int (mo_pos mo)"
proof -
  have b: "p AND 0x80000000 \<noteq> 0 \<longleftrightarrow> bit p 31" for p :: u32
    using and_exp_eq_0_iff_not_bit [of p 31] by simp
  have "stepper_get_position s m = (if bit (motor_code mo) 31 then - motor_code mo else motor_code mo)"
    using assms(1) unfolding tracks_def steps_left_def stepper_get_position_def Let_def b by (auto split: if_splits)
  then show ?thesis using range_bit31 [OF assms(2)] by (simp add: motor_code_def)
qed

definition stopped :: "u8 \<Rightarrow> 'e stepper_state_scheme \<Rightarrow> 'e stepper_state_scheme" where
  "stopped s m = m\<lparr>timers := (timers m)(stimer s := (timers m (stimer s))\<lparr>waketime := 0\<rparr>),
     steppers := (steppers m)(s := (steppers m s)\<lparr>next_step_time := 0, position := - stepper_get_position s m, st_count := 0,
       st_flags := (st_flags (steppers m s) AND (SF_INVERT_STEP OR SF_SINGLE_SCHED)) OR SF_NEED_RESET\<rparr>),
     out := out m @ GpioOutWrite (dir_pin (steppers m s)) False #
       (if HAVE_EDGE_OPTIMIZATION (cfg m) \<and> has_flag (st_flags (steppers m s)) SF_SINGLE_SCHED then []
        else [GpioOutWrite (step_pin (steppers m s)) (inverted s m)])\<rparr>"

lemma stop_flags:
  "same_mode ((fl AND (SF_INVERT_STEP OR SF_SINGLE_SCHED)) OR SF_NEED_RESET) fl"
  unfolding same_mode_def mode_bits
  by (simp add: bit_simps SF_INVERT_STEP_def SF_SINGLE_SCHED_def SF_NEED_RESET_def)

lemma stepper_stop_run:
  assumes "sched_del_timer (stimer s) m = Ok () m1"
  shows "stepper_stop s reason m = free_moves 1024 s (stopped s m1)"
proof -
  have fl: "has_flag ((fl AND (SF_INVERT_STEP OR SF_SINGLE_SCHED)) OR SF_NEED_RESET) SF_INVERT_STEP = has_flag fl SF_INVERT_STEP"
    "has_flag ((fl AND (SF_INVERT_STEP OR SF_SINGLE_SCHED)) OR SF_NEED_RESET) SF_SINGLE_SCHED = has_flag fl SF_SINGLE_SCHED" for fl
    using stop_flags [of fl] by (simp_all add: same_mode_def)
  have gp: "stepper_get_position s (m1\<lparr>timers := T, steppers := (steppers m1)(s := (steppers m1 s)\<lparr>next_step_time := 0\<rparr>)\<rparr>) =
      stepper_get_position s m1" for T
    by (simp add: stepper_get_position_def single_sched_def Let_def)
  show ?thesis
  proof (cases "HAVE_EDGE_OPTIMIZATION (cfg m1) \<and> has_flag (st_flags (steppers m1 s)) SF_SINGLE_SCHED")
    case True
    then show ?thesis
      using assms by (simp add: stepper_stop_def upd_timer_app upd_stepper_app gp gpio_app fl stopped_def)
  next
    case False
    then show ?thesis
      using assms by (auto simp: stepper_stop_def upd_timer_app upd_stepper_app gp gpio_app fl stopped_def inverted_def)
  qed
qed

lemma stop_own:
  assumes w: "wired s m"
  shows "same_wires s m (stopped s m) \<and> (\<exists>outs. out (stopped s m) = out m @ outs \<and>
    (\<forall>mo. tracks s m mo \<longrightarrow> \<bar>mo_pos mo\<bar> < 2 ^ 30 \<longrightarrow> tracks s (stopped s m) (motor_run s m outs mo)))"
proof -
  let ?m = "stopped s m"
  have sg: "single_sched s ?m = single_sched s m" "inverted s ?m = inverted s m"
    using stop_flags [of "st_flags (steppers m s)"]
    by (simp_all add: stopped_def single_sched_def inverted_def same_mode_def)
  have edge: "single_sched s m \<longleftrightarrow> HAVE_EDGE_OPTIMIZATION (cfg m) \<and> has_flag (st_flags (steppers m s)) SF_SINGLE_SCHED"
    using w by (auto simp: single_sched_def HAVE_SINGLE_SCHEDULE_def wired_def)
  define outs where "outs = GpioOutWrite (dir_pin (steppers m s)) False #
    (if single_sched s m then [] else [GpioOutWrite (step_pin (steppers m s)) (inverted s m)])"
  have "tracks s ?m (motor_run s m outs mo)" if t: "tracks s m mo" "\<bar>mo_pos mo\<bar> < 2 ^ 30" for mo
  proof -
    define mo' where "mo' = motor_run s m outs mo"
    have mo': "mo_pos mo' = mo_pos mo" "\<not> mo_dir mo'" "single_sched s m \<or> mo_level mo' = inverted s m"
      using w by (auto simp: mo'_def outs_def motor_run_def motor_out_def set_level_def wired_def)
    have "motor_code mo' = - (POSITION_BIAS + of_int (mo_pos mo))" using mo' by (simp add: motor_code_def)
    moreover have "position (steppers ?m s) = - (POSITION_BIAS + of_int (mo_pos mo))" "st_count (steppers ?m s) = 0"
      using get_position_motor [OF t] by (simp_all add: stopped_def)
    ultimately show ?thesis
      using mo'(3) unfolding tracks_def sg mo'_def [symmetric] by (auto simp: steps_left_def)
  qed
  moreover have "out ?m = out m @ outs" unfolding outs_def edge by (simp add: stopped_def)
  moreover have "same_wires s m ?m" unfolding same_wires_def sg by (simp add: stopped_def)
  ultimately show ?thesis by blast
qed

lemma stop_other: "t \<noteq> s \<Longrightarrow> tracked s m (stopped t m)"
  by (rule tracked_frame [where outs = "GpioOutWrite (dir_pin (steppers m t)) False #
      (if HAVE_EDGE_OPTIMIZATION (cfg m) \<and> has_flag (st_flags (steppers m t)) SF_SINGLE_SCHED then []
       else [GpioOutWrite (step_pin (steppers m t)) (inverted t m)])"])
    (auto simp: stopped_def motor_run_def motor_out_def wired_def)

lemma free_tracked: "always (tracked s) (free_moves n t)"
proof (induction n)
  case 0
  show ?case by (simp only: free_moves.simps) (intro tracked_rules tk.always_bnd tk.always_if)
next
  case (Suc n)
  have "always (tracked s) (upd_stepper t (\<lambda>x. x\<lparr>st_mq := q\<rparr>))" for q
    by (cases "t = s") (auto intro: own_upd other_upd)
  then show ?case
    unfolding free_moves.simps by (intro tracked_rules Suc.IH tk.always_bnd tk.always_thn tk.always_if)
qed

subsection \<open>The position of the motor\<close>

text \<open>
  What happens on a board with steppers: step events of steppers that have steps left, the
  commands for steppers, and stops (by a trigger or a shutdown), of any stepper in any order.
\<close>

inductive stepper_act :: "'e stepper_state_scheme \<Rightarrow> 'e stepper_state_scheme \<Rightarrow> bool" where
  act_edge: "single_sched t m \<Longrightarrow> st_count (steppers m t) \<noteq> 0 \<Longrightarrow> stepper_event_edge t m = Ok r m' \<Longrightarrow> stepper_act m m'"
| act_full: "\<not> single_sched t m \<Longrightarrow> st_count (steppers m t) \<noteq> 0 \<Longrightarrow> stepper_event_full t m = Ok r m' \<Longrightarrow> stepper_act m m'"
| act_queue: "command_queue_step args m = Ok u m' \<Longrightarrow> stepper_act m m'"
| act_dir: "command_set_next_step_dir args m = Ok u m' \<Longrightarrow> stepper_act m m'"
| act_reset: "command_reset_step_clock args m = Ok u m' \<Longrightarrow> stepper_act m m'"
| act_report: "command_stepper_get_position args m = Ok u m' \<Longrightarrow> stepper_act m m'"
| act_stop: "stepper_stop t reason m = Ok u m' \<Longrightarrow> stepper_act m m'"

definition in_range :: "u8 \<Rightarrow> 'e stepper_state_scheme \<Rightarrow> motor \<Rightarrow> out list \<Rightarrow> bool" where
  "in_range s m mo outs \<longleftrightarrow> (\<forall>k \<le> length outs. \<bar>mo_pos (motor_run s m (take k outs) mo)\<bar> < 2 ^ 30)"

definition follows :: "u8 \<Rightarrow> 'e stepper_state_scheme \<Rightarrow> 'e stepper_state_scheme \<Rightarrow> bool" where
  "follows s m m' \<longleftrightarrow> (wired s m \<longrightarrow> same_wires s m m' \<and> (\<exists>outs. out m' = out m @ outs \<and>
     (\<forall>mo. tracks s m mo \<longrightarrow> in_range s m mo outs \<longrightarrow> tracks s m' (motor_run s m outs mo))))"

lemma tracked_follows: "tracked s m m' \<Longrightarrow> follows s m m'"
  by (auto simp: tracked_def follows_def)

lemma in_range_append:
  "in_range s m mo (a @ b) \<longleftrightarrow> in_range s m mo a \<and> in_range s m (motor_run s m a mo) b"
proof -
  have *: "(\<forall>k \<le> length (a @ b). P (take k (a @ b))) \<longleftrightarrow>
      (\<forall>k \<le> length a. P (take k a)) \<and> (\<forall>k \<le> length b. P (a @ take k b))" for P
  proof (intro iffI conjI allI impI)
    fix k assume P: "\<forall>k \<le> length (a @ b). P (take k (a @ b))"
    show "P (take k a)" if "k \<le> length a" using P [rule_format, of k] that by simp
    show "P (a @ take k b)" if "k \<le> length b" using P [rule_format, of "length a + k"] that by simp
  next
    fix k assume P: "(\<forall>k \<le> length a. P (take k a)) \<and> (\<forall>k \<le> length b. P (a @ take k b))" and k: "k \<le> length (a @ b)"
    show "P (take k (a @ b))"
      using P k by (cases "k \<le> length a") (auto dest: spec [of _ "k - length a"])
  qed
  show ?thesis
    unfolding in_range_def * [of "\<lambda>o1. \<bar>mo_pos (motor_run s m o1 mo)\<bar> < 2 ^ 30"] by (simp only: motor_run_append)
qed

interpretation fl: state_preorder "follows s"
  for s :: u8
proof
  show "follows s m m" for m :: "'e stepper_state_scheme" using tk.R_refl tracked_follows by blast
  show "follows s m m''" if a: "follows s m m'" and b: "follows s m' m''" for m m' m'' :: "'e stepper_state_scheme"
    unfolding follows_def
  proof
    assume w: "wired s m"
    from a w obtain o1 where 1: "same_wires s m m'" "out m' = out m @ o1"
      "\<And>mo. tracks s m mo \<Longrightarrow> in_range s m mo o1 \<Longrightarrow> tracks s m' (motor_run s m o1 mo)" by (auto simp: follows_def)
    then have "wired s m'" using w same_wires_wired by blast
    with b obtain o2 where 2: "same_wires s m' m''" "out m'' = out m' @ o2"
      "\<And>mo. tracks s m' mo \<Longrightarrow> in_range s m' mo o2 \<Longrightarrow> tracks s m'' (motor_run s m' o2 mo)" by (auto simp: follows_def)
    have "same_wires s m m''" using 1(1) 2(1) by (simp add: same_wires_def)
    moreover have "tracks s m'' (motor_run s m (o1 @ o2) mo)" if "tracks s m mo" "in_range s m mo (o1 @ o2)" for mo
    proof -
      have r: "in_range s m mo o1" "in_range s m' (motor_run s m o1 mo) o2"
        using that(2) unfolding in_range_append by (simp_all add: in_range_def same_wires_run [OF 1(1)])
      from 2(3) [OF 1(3) [OF that(1) r(1)] r(2)] show ?thesis
        by (simp only: motor_run_append same_wires_run [OF 1(1)])
    qed
    ultimately show "same_wires s m m'' \<and> (\<exists>outs. out m'' = out m @ outs \<and>
        (\<forall>mo. tracks s m mo \<longrightarrow> in_range s m mo outs \<longrightarrow> tracks s m'' (motor_run s m outs mo)))"
      using 1(2) 2(2) by (intro conjI exI [of _ "o1 @ o2"]) auto
  qed
qed

lemma stop_follows: "stepper_stop t reason m = Ok u m' \<Longrightarrow> follows s m m'"
proof -
  assume run: "stepper_stop t reason m = Ok u m'"
  then obtain m1 where d: "sched_del_timer (stimer t) m = Ok () m1"
    by (auto simp: stepper_stop_def thn_app split: res.splits)
  then have f: "free_moves 1024 t (stopped t m1) = Ok u m'" using run stepper_stop_run by metis
  have "follows s m1 (stopped t m1)"
  proof (cases "t = s")
    case True
    have "\<bar>mo_pos mo\<bar> < 2 ^ 30" if "in_range s m1 mo outs" for mo outs
      using that unfolding in_range_def by (auto dest: spec [of _ 0])
    then show ?thesis
      unfolding follows_def True using stop_own [of s m1] by blast
  next
    case False
    then show ?thesis using stop_other tracked_follows by blast
  qed
  moreover have "follows s m m1" using alwaysD [OF quiet_sched_del_timer d] quiet_tracked tracked_follows by blast
  moreover have "follows s (stopped t m1) m'" using alwaysD [OF free_tracked f] tracked_follows by blast
  ultimately show ?thesis using fl.R_trans by blast
qed

lemma act_follows: "stepper_act m m' \<Longrightarrow> follows s m m'"
proof (induction rule: stepper_act.induct)
  case (act_edge t m r m')
  then show ?case using edge_tracked [of m s r m'] alwaysD [OF other_events(1) [of t s]] tracked_follows by (cases "t = s") blast+
next
  case (act_full t m r m')
  then show ?case using full_tracked [of m s r m'] alwaysD [OF other_events(2) [of t s]] tracked_follows by (cases "t = s") blast+
qed (blast intro: tracked_follows alwaysD [OF queue_tracked] alwaysD [OF dir_tracked] alwaysD [OF reset_tracked]
    alwaysD [OF report_tracked] stop_follows)+

text \<open>
  C14: a stepper always knows where its motor is.  Start with a stepper whose counters agree with
  its motor, on a board where every motor has its own pins, and let step events, commands and
  stops of all steppers happen in any order.  As long as the motor stays within \<open>2 ^ 30\<close> steps of
  the origin, the position that the stepper reports is the one the motor has reached by
  following the outputs to its two pins, also when a move is stopped in the middle or when the
  direction changes.
\<close>

theorem stepper_position_tracks_motor:
  assumes "wired s m" and "tracks s m mo" and "stepper_act\<^sup>*\<^sup>* m m'"
    and "outs = drop (length (out m)) (out m')" and "in_range s m mo outs"
  shows "stepper_get_position s m' - POSITION_BIAS = of_int (mo_pos (motor_run s m outs mo))"
proof -
  have "follows s m m'" using assms(3)
    by (induction rule: rtranclp_induct) (blast intro: fl.R_refl fl.R_trans act_follows)+
  then have "tracks s m' (motor_run s m outs mo)"
    using assms(1,2,4,5) by (auto simp: follows_def)
  moreover have "\<bar>mo_pos (motor_run s m outs mo)\<bar> < 2 ^ 30"
    using assms(5) unfolding in_range_def by (auto dest: spec [of _ "length outs"])
  ultimately show ?thesis by (simp add: get_position_motor)
qed

lemma sample_motion_motor:
  "wired 3 sample_motion" "\<not> single_sched 3 sample_motion" "\<not> inverted 3 sample_motion"
  "tracks 3 sample_motion \<lparr>mo_dir = False, mo_level = False, mo_pos = 0\<rparr>"
  by (simp_all add: wired_def tracks_def steps_left_def single_sched_def inverted_def has_flag_def motor_code_def
      HAVE_AVR_OPTIMIZATION_def HAVE_EDGE_OPTIMIZATION_def sample_motion_fields zero_stepper_def sample_config_def)

theorem stepper_position_tracks_motor_witness:
  "\<exists>m'. stepper_act\<^sup>*\<^sup>* sample_motion m' \<and> stepper_get_position 3 m' - POSITION_BIAS = - 1"
proof -
  let ?mo = "\<lparr>mo_dir = False, mo_level = False, mo_pos = 0\<rparr>"
  obtain m' where r: "stepper_event_full 3 sample_motion = Ok SF_RESCHEDULE m'" "out m' = [GpioOutToggle 1]"
    using full_up [of sample_motion 3] by (simp add: sample_motion_fields)
  have "stepper_act sample_motion m'"
    by (rule act_full [OF sample_motion_motor(2) _ r(1)]) (simp add: sample_motion_fields)
  then have a: "stepper_act\<^sup>*\<^sup>* sample_motion m'" by blast
  have run: "motor_run 3 sample_motion [GpioOutToggle 1] ?mo = \<lparr>mo_dir = False, mo_level = True, mo_pos = - 1\<rparr>"
    using sample_motion_motor(2,3) by (simp add: motor_run_def motor_out_def set_level_def sample_motion_fields)
  have "in_range 3 sample_motion ?mo [GpioOutToggle 1]"
    using run by (auto simp: in_range_def le_Suc_eq)
  then have "stepper_get_position 3 m' - POSITION_BIAS = of_int (- 1)"
    using stepper_position_tracks_motor [OF sample_motion_motor(1,4) a, of "[GpioOutToggle 1]"] run r(2)
    by (simp add: sample_motion_fields)
  then show ?thesis using a by auto
qed

end
