(* ===== verification/Homing.thy ===== *)
theory Homing
  imports Motor
begin

text \<open>
  Triggers and the steppers that wait for them.  The locale states what the trigger dispatcher
  relies on when it calls the signals' functions; the stepper module keeps it, so a trigger
  halts every stepper that asked for it, once.
\<close>

subsection \<open>Stopping a stepper\<close>

lemma chain_unique: "chain T (xs @ [SentinelTimer]) \<Longrightarrow> chain T (ys @ [SentinelTimer]) \<Longrightarrow>
    SentinelTimer \<notin> set xs \<Longrightarrow> SentinelTimer \<notin> set ys \<Longrightarrow> hd (xs @ [SentinelTimer]) = hd (ys @ [SentinelTimer]) \<Longrightarrow> xs = ys"
proof (induction xs arbitrary: ys)
  case Nil
  then show ?case by (cases ys) auto
next
  case (Cons x xs)
  then obtain y ys' where ys: "ys = y # ys'" "y = x" by (cases ys) auto
  have "chain T (xs @ [SentinelTimer])" "chain T (ys' @ [SentinelTimer])"
    "Some (hd (xs @ [SentinelTimer])) = tnext (T x)" "Some (hd (ys' @ [SentinelTimer])) = tnext (T x)"
    using Cons.prems(1,2) ys by (cases xs; cases ys'; simp)+
  then show ?case using Cons.IH [of ys'] Cons.prems ys by (metis list.set_intros(2) option.inject)
qed

lemma pending_unique: "pending base m ts \<Longrightarrow> pending base m ts' \<Longrightarrow> ts = ts'"
proof -
  assume "pending base m ts" "pending base m ts'"
  then obtain xs ys where x: "sched_ok base m xs" "live xs = ts" and y: "sched_ok base m ys" "live ys = ts'"
    by (auto simp: pending_def)
  have "xs = ys"
    using sched_okD [OF x(1)] sched_okD [OF y(1)] by (intro chain_unique [of "timers m"]) auto
  then show ?thesis using x y by simp
qed

lemma pending_del:
  assumes "pending base m ts" and "user_timer t"
  shows "\<exists>m'. sched_del_timer t m = Ok () m' \<and> pending base m' (remove1 t ts) \<and> sched_frame m m'"
proof -
  obtain xs where xs: "sched_ok base m xs" "live xs = ts" using assms(1) by (auto simp: pending_def)
  show ?thesis
    using sched_del_timer_spec [OF xs(1), of t] assms(2) xs(2) by (auto simp: user_timer_def pending_def)
qed

lemma pending_frame:
  assumes p: "pending base m ts" and u: "user_timer u" "u \<notin> set ts"
    and same: "\<And>t. t \<noteq> u \<Longrightarrow> timers m' t = timers m t" "timer_list m' = timer_list m" "last_insert m' = last_insert m"
  shows "pending base m' ts"
proof -
  obtain xs where xs: "sched_ok base m xs" "live xs = ts" using p by (auto simp: pending_def)
  have n: "u \<notin> set xs" "u \<noteq> SentinelTimer" using u xs(2) by (auto simp: live_def user_timer_def)
  then have T: "timers m' x = timers m x" if "x \<in> set (xs @ [SentinelTimer])" for x
    using n same(1) [of x] that by auto
  have "chain (timers m') (xs @ [SentinelTimer]) = chain (timers m) (xs @ [SentinelTimer])"
    by (rule chain_cong) (use T in simp)
  moreover have "map (tkey base m') xs = map (tkey base m) xs" using T by (simp add: tkey_def)
  then have "sorted (map (tkey base m') xs)" using xs(1) by (simp only: sched_ok_def)
  moreover have "PeriodicTimer \<in> set xs" using sched_okD [OF xs(1)] by blast
  ultimately have "sched_ok base m' xs"
    using xs(1) T same(2,3) unfolding sched_ok_def sched_list_def by simp
  then show ?thesis using xs(2) by (auto simp: pending_def)
qed

lemma free_moves_spec:
  assumes "mq_nodes m (st_mq (steppers m s)) xs" and "free_nodes m F" and "set xs \<inter> set F = {}" and "length xs \<le> n"
  shows "\<exists>q N f. free_moves n s m = Ok () (m\<lparr>steppers := (steppers m)(s := (steppers m s)\<lparr>st_mq := q\<rparr>), mnext := N, move_free_list := f\<rparr>) \<and>
    mq_first q = None \<and> mpath N f (rev xs @ F) \<and> (\<forall>y. y \<notin> set xs \<longrightarrow> N y = mnext m y)"
  using assms
proof (induction xs arbitrary: m F n)
  case Nil
  then have "free_moves n s m = Ok () m" by (cases n) (simp_all add: mq_empty)
  then show ?case
    using Nil by (intro exI [of _ "st_mq (steppers m s)"] exI [of _ "mnext m"] exI [of _ "move_free_list m"])
      (simp add: mq_nodes_def free_nodes_def)
next
  case (Cons x xs)
  then obtain n' where n: "n = Suc n'" by (cases n) auto
  obtain q where q: "move_queue_pop (st_mq (steppers m s)) m = Ok (x, q) m" "mq_nodes m q xs"
    using move_queue_pop_spec Cons.prems(1) by blast
  define m1 where "m1 = m\<lparr>steppers := (steppers m)(s := (steppers m s)\<lparr>st_mq := q\<rparr>),
    mnext := (mnext m)(x := move_free_list m), move_free_list := Some x\<rparr>"
  have x: "x \<notin> set xs" "x \<notin> set F" using Cons.prems(1,3) by (auto simp: mq_nodes_def)
  have run: "free_moves n s m = free_moves n' s m1"
    using q(1) Cons.prems(1) mq_empty [OF Cons.prems(1)]
    by (simp add: n upd_stepper_app pool_app m1_def)
  have "mq_nodes m1 (st_mq (steppers m1 s)) xs" using q(2) x(1) by (simp add: m1_def mq_nodes_def)
  moreover have "free_nodes m1 (x # F)" using Cons.prems(2) x(2) by (simp add: m1_def free_nodes_def)
  moreover have "set xs \<inter> set (x # F) = {}" "length xs \<le> n'" using Cons.prems x n by auto
  ultimately obtain q' N f where
    r: "free_moves n' s m1 = Ok () (m1\<lparr>steppers := (steppers m1)(s := (steppers m1 s)\<lparr>st_mq := q'\<rparr>), mnext := N, move_free_list := f\<rparr>)"
    and q': "mq_first q' = None" "mpath N f (rev xs @ x # F)" and N: "\<forall>y. y \<notin> set xs \<longrightarrow> N y = mnext m1 y"
    using Cons.IH [of m1 "x # F" n'] by blast
  have "m1\<lparr>steppers := (steppers m1)(s := (steppers m1 s)\<lparr>st_mq := q'\<rparr>), mnext := N, move_free_list := f\<rparr> =
      m\<lparr>steppers := (steppers m)(s := (steppers m s)\<lparr>st_mq := q'\<rparr>), mnext := N, move_free_list := f\<rparr>"
    by (simp add: m1_def)
  moreover have "\<forall>y. y \<notin> set (x # xs) \<longrightarrow> N y = mnext m y" using N by (simp add: m1_def)
  moreover have "mpath N f (rev (x # xs) @ F)" using q'(2) by simp
  ultimately show ?case using run r q'(1) by metis
qed

text \<open>
  The timers are filed in order, and the free list and the queues of the steppers are disjoint
  paths.
\<close>

definition motion_ok :: "u32 \<Rightarrow> 'e stepper_state_scheme \<Rightarrow> bool" where
  "motion_ok base m \<longleftrightarrow> (\<exists>ts F Q. pending base m ts \<and> free_nodes m F \<and>
     (\<forall>s. mq_nodes m (st_mq (steppers m s)) (Q s) \<and> length (Q s) \<le> 1024 \<and> set (Q s) \<inter> set F = {}) \<and>
     (\<forall>s t. s \<noteq> t \<longrightarrow> set (Q s) \<inter> set (Q t) = {}))"

text \<open>A stepper that has no step, no timer and no move left, and takes none until its clock is set again.\<close>

definition halted :: "u32 \<Rightarrow> u8 \<Rightarrow> 'e stepper_state_scheme \<Rightarrow> bool" where
  "halted base s m \<longleftrightarrow> st_count (steppers m s) = 0 \<and> has_flag (st_flags (steppers m s)) SF_NEED_RESET \<and>
     move_queue_empty (st_mq (steppers m s)) \<and> (\<exists>ts. pending base m ts \<and> stimer s \<notin> set ts)"

lemma sched_frame_stepper:
  assumes "sched_frame m m'"
  shows "steppers m' = steppers m" "mnext m' = mnext m" "move_free_list m' = move_free_list m"
    "trsyncs m' = trsyncs m" "signals m' = signals m" "cfg m' = cfg m"
proof -
  obtain a b c d e where "m' = m\<lparr>ticks := a, out := b, timers := c, timer_list := d, last_insert := e\<rparr>"
    using assms unfolding sched_frame_def by blast
  then show "steppers m' = steppers m" "mnext m' = mnext m" "move_free_list m' = move_free_list m"
    "trsyncs m' = trsyncs m" "signals m' = signals m" "cfg m' = cfg m" by simp_all
qed

lemma need_reset: "has_flag (fl OR SF_NEED_RESET) SF_NEED_RESET"
  using and_exp_eq_0_iff_not_bit [of "fl OR SF_NEED_RESET" 3]
  by (simp add: has_flag_def SF_NEED_RESET_def bit_simps)

text \<open>The positions that the steppers report.\<close>

definition positions :: "'e stepper_state_scheme \<Rightarrow> u8 \<Rightarrow> u32" where
  "positions m = (\<lambda>s. stepper_get_position s m)"

lemma sign_fixed: "(if - x AND 0x80000000 \<noteq> 0 then - (- x) else - x) = x"
  if "x = (if p AND 0x80000000 \<noteq> 0 then - p else p)" for x p :: u32
proof -
  have b: "y AND 0x80000000 \<noteq> 0 \<longleftrightarrow> 2 ^ 31 \<le> unat y" for y :: u32
  proof -
    have "y AND 0x80000000 \<noteq> 0 \<longleftrightarrow> bit y 31" using and_exp_eq_0_iff_not_bit [of y 31] by simp
    also have "\<dots> \<longleftrightarrow> bit (unat y) 31" by (simp add: bit_unsigned_iff)
    also have "\<dots> \<longleftrightarrow> odd (unat y div 2 ^ 31)" by (simp only: bit_iff_odd)
    also have "\<dots> \<longleftrightarrow> 2 ^ 31 \<le> unat y"
    proof -
      have "unat y div 2 ^ 31 = (if 2 ^ 31 \<le> unat y then 1 else 0)" using unat_u32_bound [of y] by auto
      then show ?thesis by simp
    qed
    finally show ?thesis .
  qed
  have n: "unat (- y) = (if y = 0 then 0 else 2 ^ 32 - unat y)" for y :: u32
    using unat_sub_if_size [of 0 y] by (auto simp: word_size unat_eq_0)
  show ?thesis
  proof (cases "x = 0")
    case False
    have "unat x \<le> 2 ^ 31" using that unat_u32_bound [of p] n [of p] by (auto simp: b)
    then have "2 ^ 31 \<le> unat (- x)" using False n [of x] by simp
    then show ?thesis by (simp add: b)
  qed simp
qed

lemma stopped_position: "stepper_get_position t (stopped s m) = stepper_get_position t m"
proof (cases "t = s")
  case True
  have sg: "single_sched s (stopped s m) = single_sched s m"
    using stop_flags [of "st_flags (steppers m s)"] by (simp add: stopped_def single_sched_def same_mode_def)
  have "steppers (stopped s m) s = (steppers m s)\<lparr>next_step_time := 0, position := - stepper_get_position s m, st_count := 0,
      st_flags := (st_flags (steppers m s) AND (SF_INVERT_STEP OR SF_SINGLE_SCHED)) OR SF_NEED_RESET\<rparr>"
    by (simp add: stopped_def)
  then have "stepper_get_position s (stopped s m) = (if - stepper_get_position s m AND 0x80000000 \<noteq> 0
      then - (- stepper_get_position s m) else - stepper_get_position s m)"
    unfolding stepper_get_position_def [of s "stopped s m"] Let_def by (simp only: sg) simp
  also have "\<dots> = stepper_get_position s m"
    by (rule sign_fixed) (simp only: stepper_get_position_def Let_def)
  finally show ?thesis using True by simp
next
  case False
  then show ?thesis by (simp add: stepper_get_position_def single_sched_def stopped_def Let_def)
qed

lemma stop_halts:
  assumes "motion_ok base m"
  shows "\<exists>m'. stepper_stop s reason m = Ok () m' \<and> motion_ok base m' \<and> positions m' = positions m \<and> halted base s m' \<and>
    trsyncs m' = trsyncs m \<and> signals m' = signals m \<and> (\<forall>t. halted base t m \<longrightarrow> halted base t m')"
proof -
  from assms obtain ts F Q where p: "pending base m ts" and F: "free_nodes m F"
    and Q: "\<And>s. mq_nodes m (st_mq (steppers m s)) (Q s)" "\<And>s. length (Q s) \<le> 1024" "\<And>s. set (Q s) \<inter> set F = {}"
    and D: "\<And>s t. s \<noteq> t \<Longrightarrow> set (Q s) \<inter> set (Q t) = {}" unfolding motion_ok_def by blast
  have u: "user_timer (stimer s)" by (simp add: user_timer_def)
  obtain m1 where m1: "sched_del_timer (stimer s) m = Ok () m1" "pending base m1 (remove1 (stimer s) ts)" "sched_frame m m1"
    using pending_del [OF p u] by blast
  have fr: "steppers m1 = steppers m" "mnext m1 = mnext m" "move_free_list m1 = move_free_list m" "trsyncs m1 = trsyncs m" "signals m1 = signals m"
    "cfg m1 = cfg m"
    using sched_frame_stepper [OF m1(3)] by simp_all
  define m2 where "m2 = stopped s m1"
  have m2: "mnext m2 = mnext m" "move_free_list m2 = move_free_list m" "trsyncs m2 = trsyncs m" "signals m2 = signals m"
    "\<And>t. st_mq (steppers m2 t) = st_mq (steppers m t)" "\<And>t. t \<noteq> s \<Longrightarrow> steppers m2 t = steppers m t"
    "st_count (steppers m2 s) = 0" "has_flag (st_flags (steppers m2 s)) SF_NEED_RESET"
    by (simp_all add: m2_def stopped_def fr need_reset)
  have ns: "stimer s \<notin> set (remove1 (stimer s) ts)" using tq.pend_distinct [OF p] by simp
  have p2: "pending base m2 (remove1 (stimer s) ts)"
    by (rule pending_frame [OF m1(2) u ns]) (simp_all add: m2_def stopped_def)
  have nodes2: "mq_nodes m2 (st_mq (steppers m2 t)) (Q t)" for t
    unfolding m2(5) by (rule mq_nodes_frame [OF Q(1)]) (simp add: m2)
  have F2: "free_nodes m2 F" using F by (simp add: free_nodes_def m2)
  obtain q N f where fm: "free_moves 1024 s m2 = Ok () (m2\<lparr>steppers := (steppers m2)(s := (steppers m2 s)\<lparr>st_mq := q\<rparr>), mnext := N, move_free_list := f\<rparr>)"
    and q: "mq_first q = None" "mpath N f (rev (Q s) @ F)" "\<forall>y. y \<notin> set (Q s) \<longrightarrow> N y = mnext m2 y"
    using free_moves_spec [OF nodes2 F2 Q(3,2), of s] by blast
  define m3 where "m3 = m2\<lparr>steppers := (steppers m2)(s := (steppers m2 s)\<lparr>st_mq := q\<rparr>), mnext := N, move_free_list := f\<rparr>"
  have run: "stepper_stop s reason m = Ok () m3" using stepper_stop_run [OF m1(1)] fm by (simp add: m2_def m3_def)
  have p3: "pending base m3 (remove1 (stimer s) ts)"
    by (rule pending_frame [OF p2 u ns]) (simp_all add: m3_def)
  have h: "halted base s m3" using m2 q(1) p3 ns by (auto simp: halted_def m3_def move_queue_empty_def)
  have "halted base t m3" if "halted base t m" for t
  proof (cases "t = s")
    case False
    from that obtain ts' where "pending base m ts'" "stimer t \<notin> set ts'" by (auto simp: halted_def)
    then have "stimer t \<notin> set ts" using pending_unique [OF p] by blast
    then have "stimer t \<notin> set (remove1 (stimer s) ts)" by (meson notin_set_remove1)
    then show ?thesis using that p3 False m2(6) by (auto simp: halted_def m3_def)
  qed (use h in simp)
  moreover have "motion_ok base m3"
  proof -
    have "free_nodes m3 (rev (Q s) @ F)"
      using q(2) F Q(1) [of s] Q(3) [of s] by (auto simp: free_nodes_def mq_nodes_def m3_def)
    moreover have "mq_nodes m3 (st_mq (steppers m3 t)) ((Q(s := [])) t)" for t
    proof (cases "t = s")
      case True
      then show ?thesis using q(1) by (simp add: m3_def mq_nodes_def)
    next
      case False
      have "mq_nodes m3 (st_mq (steppers m2 t)) (Q t)"
        by (rule mq_nodes_frame [OF nodes2]) (use q(3) D [OF False] in \<open>auto simp: m3_def\<close>)
      then show ?thesis using False by (simp add: m3_def)
    qed
    moreover have "length ((Q(s := [])) t) \<le> 1024" "set ((Q(s := [])) t) \<inter> set (rev (Q s) @ F) = {}" for t
      using Q(2,3) [of t] D [of t s] by (cases "t = s"; auto)+
    moreover have "set ((Q(s := [])) t) \<inter> set ((Q(s := [])) u) = {}" if "t \<noteq> u" for t u
      using D [OF that] by simp
    ultimately show ?thesis using p3 unfolding motion_ok_def by blast
  qed
  moreover have "positions m3 = positions m"
  proof -
    have "positions m3 = positions m2"
      by (auto simp: positions_def m3_def stepper_get_position_def single_sched_def Let_def fun_eq_iff)
    also have "\<dots> = positions m1" by (simp add: positions_def m2_def stopped_position)
    also have "\<dots> = positions m" by (simp add: positions_def stepper_get_position_def single_sched_def fr Let_def)
    finally show ?thesis .
  qed
  ultimately show ?thesis using run h m2 by (intro exI [of _ m3]) (auto simp: m3_def)
qed

subsection \<open>Dispatching a trigger\<close>

text \<open>The signals waiting for a trigger, in the order of their links.\<close>

fun sig_path :: "(u8 \<Rightarrow> trsync_signal) \<Rightarrow> u8 option \<Rightarrow> u8 list \<Rightarrow> bool" where
  "sig_path S p [] \<longleftrightarrow> p = None"
| "sig_path S p (x # xs) \<longleftrightarrow> p = Some x \<and> sig_func (S x) \<noteq> None \<and> sig_path S (sig_next (S x)) xs"

lemma sig_path_cong: "(\<And>x. x \<in> set xs \<Longrightarrow> S' x = S x) \<Longrightarrow> sig_path S' p xs = sig_path S p xs"
  by (induction xs arbitrary: p) auto

lemma cleared_signal: "x\<lparr>sig_next := None, sig_func := None\<rparr> = zero_signal" for x :: trsync_signal
  by (cases x) (simp add: zero_signal_def)

lemma trigger_flags:
  "\<not> has_flag ((fl AND NOT TSF_CAN_TRIGGER) OR TSF_REPORT) TSF_CAN_TRIGGER"
  "has_flag ((fl AND NOT TSF_CAN_TRIGGER) OR TSF_REPORT) TSF_REPORT"
  using and_exp_eq_0_iff_not_bit [of "(fl AND NOT 1) OR 4" 0] and_exp_eq_0_iff_not_bit [of "(fl AND NOT 1) OR 4" 2]
  by (simp_all add: has_flag_def TSF_CAN_TRIGGER_def TSF_REPORT_def bit_simps)

text \<open>
  What the dispatcher relies on: in a good state a signal's function returns, brings about
  what the signal is for, undoes it for no other signal, and leaves the triggers alone.
\<close>

locale trigger_client =
  fixes call :: "sigfunc \<Rightarrow> u8 \<Rightarrow> u8 \<Rightarrow> ('e, unit) tsfw"
    and good :: "'e trsync_state_scheme \<Rightarrow> bool"
    and effect :: "u8 \<Rightarrow> 'e trsync_state_scheme \<Rightarrow> bool"
  assumes call_law: "good m \<Longrightarrow> \<exists>m'. call f s r m = Ok () m' \<and> good m' \<and> effect s m' \<and>
      trsyncs m' = trsyncs m \<and> signals m' = signals m \<and> (\<forall>t. effect t m \<longrightarrow> effect t m')"
    and good_frame: "good (m\<lparr>trsyncs := a, signals := b\<rparr>) = good m"
    and effect_frame: "effect s (m\<lparr>trsyncs := a, signals := b\<rparr>) = effect s m"
    and good_wake: "good (m\<lparr>tasks_status := c, wakes := d\<rparr>) = good m"
    and effect_wake: "effect s (m\<lparr>tasks_status := c, wakes := d\<rparr>) = effect s m"
begin

lemma dispatch_all:
  assumes "sig_path (signals m) (ts_signals (trsyncs m ts)) xs" and "distinct xs" and "length xs \<le> n" and "good m"
  shows "\<exists>m'. dispatch_signals call n ts reason m = Ok () m' \<and> good m' \<and> (\<forall>s \<in> set xs. effect s m') \<and>
    (\<forall>t. effect t m \<longrightarrow> effect t m') \<and> trsyncs m' = (trsyncs m)(ts := (trsyncs m ts)\<lparr>ts_signals := None\<rparr>) \<and>
    signals m' = (\<lambda>s. if s \<in> set xs then zero_signal else signals m s)"
  using assms
proof (induction xs arbitrary: m n)
  case Nil
  then have "dispatch_signals call n ts reason m = Ok () m" by (cases n) simp_all
  moreover have "(trsyncs m)(ts := (trsyncs m ts)\<lparr>ts_signals := None\<rparr>) = trsyncs m" using Nil.prems(1) by (auto simp: fun_upd_idem_iff)
  ultimately show ?case using Nil.prems by (intro exI [of _ m]) simp
next
  case (Cons x xs)
  then obtain n' where n: "n = Suc n'" by (cases n) auto
  from Cons.prems(1) obtain f where f: "ts_signals (trsyncs m ts) = Some x" "sig_func (signals m x) = Some f"
    "sig_path (signals m) (sig_next (signals m x)) xs" by auto
  define m1 where "m1 = m\<lparr>trsyncs := (trsyncs m)(ts := (trsyncs m ts)\<lparr>ts_signals := sig_next (signals m x)\<rparr>),
    signals := (signals m)(x := zero_signal)\<rparr>"
  have "good m1" using Cons.prems(4) good_frame by (simp add: m1_def)
  from call_law [OF this, of f x reason] obtain m2 where m2: "call f x reason m1 = Ok () m2" "good m2" "effect x m2"
    "trsyncs m2 = trsyncs m1" "signals m2 = signals m1" "\<forall>t. effect t m1 \<longrightarrow> effect t m2" by blast
  have run: "dispatch_signals call n ts reason m = dispatch_signals call n' ts reason m2"
    using f m2(1) by (simp add: n upd_trsync_def upd_signal_def m1_def cleared_signal)
  have path: "sig_path (signals m2) (ts_signals (trsyncs m2 ts)) xs"
  proof -
    have "sig_path (signals m2) p xs = sig_path (signals m) p xs" for p
      by (rule sig_path_cong) (use Cons.prems(2) in \<open>auto simp: m2 m1_def\<close>)
    then show ?thesis using f(3) by (simp add: m2(4)) (simp add: m1_def)
  qed
  have "distinct xs" "length xs \<le> n'" using Cons.prems n by simp_all
  from Cons.IH [OF path this m2(2)] obtain m' where "dispatch_signals call n' ts reason m2 = Ok () m'" "good m'" "\<forall>s \<in> set xs. effect s m'"
    "\<forall>t. effect t m2 \<longrightarrow> effect t m'" "trsyncs m' = (trsyncs m2)(ts := (trsyncs m2 ts)\<lparr>ts_signals := None\<rparr>)"
    "signals m' = (\<lambda>s. if s \<in> set xs then zero_signal else signals m2 s)"
    by blast
  moreover have "\<forall>t. effect t m \<longrightarrow> effect t m1" using effect_frame by (simp add: m1_def)
  ultimately show ?case using run m2 by (intro exI [of _ m']) (auto simp: m1_def fun_eq_iff)
qed

lemma trigger_once:
  assumes "sig_path (signals m) (ts_signals (trsyncs m ts)) xs" and "distinct xs" and "good m"
    and "has_flag (ts_flags (trsyncs m ts)) TSF_CAN_TRIGGER"
  shows "\<exists>m'. trsync_do_trigger call ts reason m = Ok () m' \<and> good m' \<and> (\<forall>s \<in> set xs. effect s m') \<and>
    trigger_reason (trsyncs m' ts) = reason \<and> \<not> has_flag (ts_flags (trsyncs m' ts)) TSF_CAN_TRIGGER \<and>
    has_flag (ts_flags (trsyncs m' ts)) TSF_REPORT \<and> wakes m' trsync_wake \<and>
    trsync_do_trigger call ts again m' = Ok () m'"
proof -
  let ?fl = "(ts_flags (trsyncs m ts) AND NOT TSF_CAN_TRIGGER) OR TSF_REPORT"
  define m1 where "m1 = m\<lparr>trsyncs := (trsyncs m)(ts := (trsyncs m ts)\<lparr>trigger_reason := reason, ts_flags := ?fl\<rparr>)\<rparr>"
  have "m1 = m\<lparr>trsyncs := (trsyncs m)(ts := (trsyncs m ts)\<lparr>trigger_reason := reason, ts_flags := ?fl\<rparr>), signals := signals m\<rparr>"
    by (simp add: m1_def)
  then have g: "good m1" using good_frame assms(3) by metis
  have len: "length xs \<le> 256"
    using card_mono [of UNIV "set xs"] distinct_card [OF assms(2)] by (simp add: card_word)
  have "sig_path (signals m1) (ts_signals (trsyncs m1 ts)) xs" using assms(1) by (simp add: m1_def)
  from dispatch_all [OF this assms(2) len g, of reason] obtain m2 where m2:
    "dispatch_signals call 256 ts reason m1 = Ok () m2" "good m2" "\<forall>s \<in> set xs. effect s m2"
    "trsyncs m2 = (trsyncs m1)(ts := (trsyncs m1 ts)\<lparr>ts_signals := None\<rparr>)" by blast
  define m3 where "m3 = m2\<lparr>tasks_status := 0, wakes := (wakes m2)(trsync_wake := True)\<rparr>"
  have t3: "trsyncs m3 ts = (trsyncs m ts)\<lparr>trigger_reason := reason, ts_flags := ?fl, ts_signals := None\<rparr>"
    by (simp add: m3_def m2(4) m1_def)
  have "trsync_do_trigger call ts reason m = Ok () m3"
    using assms(4) m2(1)
    by (simp add: trsync_do_trigger_def upd_trsync_def m1_def m3_def sched_wake_task_def sched_wake_tasks_def)
  moreover have "trsync_do_trigger call ts again m3 = Ok () m3"
    by (simp add: trsync_do_trigger_def t3 trigger_flags)
  moreover have "good m3" "\<forall>s \<in> set xs. effect s m3" using m2(2,3) good_wake effect_wake by (simp_all add: m3_def)
  ultimately show ?thesis using t3 by (intro exI [of _ m3]) (simp add: trigger_flags, simp add: m3_def)
qed

end

lemma motion_ok_frame:
  "motion_ok base (m\<lparr>trsyncs := a, signals := b\<rparr>) = motion_ok base m"
  "motion_ok base (m\<lparr>tasks_status := c, wakes := d\<rparr>) = motion_ok base m"
  "halted base s (m\<lparr>trsyncs := a, signals := b\<rparr>) = halted base s m"
  "halted base s (m\<lparr>tasks_status := c, wakes := d\<rparr>) = halted base s m"
  "positions (m\<lparr>trsyncs := a, signals := b\<rparr>) = positions m"
  "positions (m\<lparr>tasks_status := c, wakes := d\<rparr>) = positions m"
  unfolding motion_ok_def halted_def pending_def sched_ok_def sched_list_def free_nodes_def mq_nodes_def tkey_def
    positions_def stepper_get_position_def single_sched_def
  by simp_all

interpretation stop: trigger_client stepper_signal "\<lambda>m. motion_ok base m \<and> positions m = P" "halted base"
  for base :: u32 and P :: "u8 \<Rightarrow> u32"
proof
  fix f s r and m :: "'e stepper_state_scheme"
  assume "motion_ok base m \<and> positions m = P"
  then show "\<exists>m'. stepper_signal f s r m = Ok () m' \<and> (motion_ok base m' \<and> positions m' = P) \<and> halted base s m' \<and>
      trsyncs m' = trsyncs m \<and> signals m' = signals m \<and> (\<forall>t. halted base t m \<longrightarrow> halted base t m')"
    using stop_halts [of base m s r] by (cases f) (auto simp: stepper_signal_def)
qed (simp_all add: motion_ok_frame)

text \<open>
  C15: a trigger stops every stepper that waits for it, and only once.  On a board whose timer
  list and move queues are well formed, triggering always returns.  Afterwards every stepper
  with a signal on the trigger has no steps, no queued moves and no pending timer and refuses
  moves until its clock is reset; the position that each stepper reports is the one it
  reported when the trigger came; the reason is stored, the report task is woken, the board
  is still well formed, and any further trigger changes nothing.
\<close>

theorem trsync_trigger_stops_all:
  assumes "motion_ok base m" and "sig_path (signals m) (ts_signals (trsyncs m ts)) xs" and "distinct xs"
    and "has_flag (ts_flags (trsyncs m ts)) TSF_CAN_TRIGGER"
  shows "\<exists>m'. trsync_do_trigger stepper_signal ts reason m = Ok () m' \<and> motion_ok base m' \<and>
    (\<forall>s \<in> set xs. halted base s m') \<and> (\<forall>s. stepper_get_position s m' = stepper_get_position s m) \<and>
    trigger_reason (trsyncs m' ts) = reason \<and>
    \<not> has_flag (ts_flags (trsyncs m' ts)) TSF_CAN_TRIGGER \<and> has_flag (ts_flags (trsyncs m' ts)) TSF_REPORT \<and>
    wakes m' trsync_wake \<and> trsync_do_trigger stepper_signal ts again m' = Ok () m'"
  using stop.trigger_once [OF assms(2,3) _ assms(4), of base "positions m" reason again] assms(1)
  by (auto simp: positions_def fun_eq_iff)

definition sample_homing :: stepper_state where
  "sample_homing = sample_motion\<lparr>trsyncs := (\<lambda>_. zero_trsync\<lparr>ts_signals := Some 3, ts_flags := TSF_CAN_TRIGGER\<rparr>),
     signals := (\<lambda>_. \<lparr>sig_next = None, sig_func = Some stepper_stop_f\<rparr>)\<rparr>"

lemma sample_motion_ok: "motion_ok 0 sample_motion"
proof -
  have "sched_ok 0 sample_motion [PeriodicTimer]"
    by (simp add: sched_ok_def sched_list_def sample_motion_def stepper_init_def trsync_init_def command_init_def
        basecmd_init_def sched_init_def stepper_state.defs trsync_state.defs command_state.defs basecmd_state.defs
        machine.defs timers_init_def in_window_def ticks_after_def)
  then have "pending 0 sample_motion [PeriodicTimer]" unfolding pending_def live_def by fastforce
  moreover have "mnext sample_motion = (\<lambda>_. None)" "move_free_list sample_motion = None"
    by (simp_all add: sample_motion_def stepper_init_def trsync_init_def command_init_def
        basecmd_init_def sched_init_def stepper_state.defs trsync_state.defs command_state.defs basecmd_state.defs
        machine.defs)
  ultimately show ?thesis
    unfolding motion_ok_def
    by (intro exI [of _ "[PeriodicTimer]"] exI [of _ "[]"] exI [of _ "(\<lambda>_. [])(3 := [7])"])
      (auto simp: free_nodes_def mq_nodes_def sample_motion_fields zero_stepper_def)
qed

theorem trsync_trigger_stops_all_witness:
  "\<exists>m'. trsync_do_trigger stepper_signal 5 2 sample_homing = Ok () m' \<and> halted 0 3 m' \<and>
     stepper_get_position 3 m' = stepper_get_position 3 sample_homing \<and> trigger_reason (trsyncs m' 5) = 2"
proof -
  have "motion_ok 0 sample_homing" using sample_motion_ok by (simp add: sample_homing_def motion_ok_frame)
  moreover have "sig_path (signals sample_homing) (ts_signals (trsyncs sample_homing 5)) [3]"
    "has_flag (ts_flags (trsyncs sample_homing 5)) TSF_CAN_TRIGGER" "distinct [3 :: u8]"
    by (simp_all add: sample_homing_def has_flag_def TSF_CAN_TRIGGER_def)
  ultimately show ?thesis using trsync_trigger_stops_all [of 0 sample_homing 5 "[3]" 2] by auto
qed

end
