(* ===== verification/Go_Back_N.thy ===== *)
theory Go_Back_N
  imports Main
begin

text \<open>
  The transmission protocol between host and firmware on plain numbers: a sender that keeps up
  to \<open>w\<close> unacknowledged blocks and repeats all of them, a receiver that takes blocks in order
  only, and numbers that travel modulo \<open>m\<close>.  Blocks and answers keep their order on the way but
  may get lost.  When \<open>w < m\<close> both sides always reconstruct the numbers meant.
\<close>

subsection \<open>State and steps\<close>

record gbn =
  acked :: nat
  expected :: nat
  next_no :: nat
  flight :: "nat list"
  answers :: "nat list"

text \<open>The least number from \<open>k\<close> on that is congruent to \<open>a\<close>.\<close>

definition reconstruct :: "nat \<Rightarrow> nat \<Rightarrow> nat \<Rightarrow> nat" where
  "reconstruct m k a = k + (a mod m + (m - k mod m)) mod m"

inductive gbn_step :: "nat \<Rightarrow> nat \<Rightarrow> gbn \<Rightarrow> gbn \<Rightarrow> bool" for w m where
  gbn_send: "next_no g + k \<le> acked g + w \<Longrightarrow>
    gbn_step w m g (g\<lparr>next_no := next_no g + k, flight := flight g @ [next_no g ..< next_no g + k]\<rparr>)"
| gbn_resend: "gbn_step w m g (g\<lparr>flight := flight g @ [acked g ..< next_no g]\<rparr>)"
| gbn_take: "flight g = x # xs \<Longrightarrow> x mod m = expected g mod m \<Longrightarrow>
    gbn_step w m g (g\<lparr>expected := expected g + 1\<rparr>)"
| gbn_answer: "gbn_step w m g (g\<lparr>answers := answers g @ [expected g]\<rparr>)"
| gbn_ack: "answers g = a # as \<Longrightarrow>
    gbn_step w m g (g\<lparr>acked := reconstruct m (acked g) a, answers := as\<rparr>)"
| gbn_lose: "flight g = xs @ x # ys \<Longrightarrow> gbn_step w m g (g\<lparr>flight := xs @ ys\<rparr>)"
| gbn_lose_answer: "answers g = as @ a # bs \<Longrightarrow> gbn_step w m g (g\<lparr>answers := as @ bs\<rparr>)"

definition gbn_ok :: "nat \<Rightarrow> gbn \<Rightarrow> bool" where
  "gbn_ok w g \<longleftrightarrow> acked g \<le> expected g \<and> expected g \<le> next_no g \<and> next_no g \<le> acked g + w \<and>
     sorted_wrt (\<lambda>a b. a < b + w) (flight g) \<and>
     (\<forall>x\<in>set (flight g). expected g \<le> x + w \<and> x < next_no g) \<and>
     sorted (answers g) \<and> (\<forall>a\<in>set (answers g). acked g \<le> a \<and> a \<le> expected g)"

lemma gbn_okD:
  assumes "gbn_ok w g"
  shows "acked g \<le> expected g" "expected g \<le> next_no g" "next_no g \<le> acked g + w"
    "x \<in> set (flight g) \<Longrightarrow> expected g \<le> x + w" "x \<in> set (flight g) \<Longrightarrow> x < next_no g"
    "a \<in> set (answers g) \<Longrightarrow> acked g \<le> a" "a \<in> set (answers g) \<Longrightarrow> a \<le> expected g"
  using assms by (auto simp: gbn_ok_def)

lemma sorted_wrt_all: "(\<And>a b. a \<in> set xs \<Longrightarrow> b \<in> set xs \<Longrightarrow> P a b) \<Longrightarrow> sorted_wrt P xs"
  by (induction xs) simp_all

lemma gbn_ok_append:
  assumes ok: "gbn_ok w g" and n: "next_no g \<le> n" "n \<le> acked g + w"
    and ys: "\<And>y. y \<in> set ys \<Longrightarrow> acked g \<le> y \<and> y < n"
  shows "gbn_ok w (g\<lparr>next_no := n, flight := flight g @ ys\<rparr>)"
proof -
  note D = gbn_okD [OF ok]
  have lt: "a < b + w" if "a < n" "b \<in> set ys" for a b using ys [OF that(2)] that(1) n(2) by linarith
  have "sorted_wrt (\<lambda>a b. a < b + w) ys" by (rule sorted_wrt_all) (use lt ys in blast)
  moreover have "a < b + w" if "a \<in> set (flight g)" "b \<in> set ys" for a b
    using lt [OF _ that(2)] D(5) [OF that(1)] n(1) by simp
  moreover have "expected g \<le> x + w" if "x \<in> set ys" for x using ys [OF that] D(2) n by linarith
  moreover have "x < n" if "x \<in> set (flight g)" for x using D(5) [OF that] n(1) by simp
  ultimately show ?thesis
    using ok n ys by (simp add: gbn_ok_def sorted_wrt_append) auto
qed

subsection \<open>The protocol\<close>

locale go_back_n =
  fixes window modulus :: nat
  assumes window_less: "window < modulus"
begin

lemma congruent_eq:
  assumes "x mod modulus = y mod modulus" and "x \<le> y + window" and "y \<le> x + window"
  shows "x = (y :: nat)"
proof (cases "x \<le> y")
  case True
  then obtain q where "y = x + modulus * q" using assms(1) by (metis mod_eq_nat1E)
  then show ?thesis using assms(3) window_less by (cases q) auto
next
  case False
  then obtain q where "x = y + modulus * q" using assms(1) by (metis mod_eq_nat1E nat_le_linear)
  then show ?thesis using assms(2) window_less by (cases q) auto
qed

lemma reconstruct_exact:
  assumes "k \<le> a" and "a \<le> k + window"
  shows "reconstruct modulus k a = a"
proof -
  have pos: "0 < modulus" using window_less by simp
  obtain d where d: "a = k + d" "d < modulus" using assms window_less by (metis le_Suc_ex add_le_cancel_left le_less_trans)
  have "(a mod modulus + (modulus - k mod modulus)) mod modulus = (a + (modulus - k mod modulus)) mod modulus"
    by (simp add: mod_add_left_eq)
  also have "a + (modulus - k mod modulus) = d + (k div modulus) * modulus + modulus"
    using d(1) mod_less_divisor [OF pos, of k] div_mult_mod_eq [of k modulus] by linarith
  also have "(d + (k div modulus) * modulus + modulus) mod modulus = d" using d(2) by simp
  finally show ?thesis using d(1) by (simp add: reconstruct_def)
qed

lemma take_exact:
  assumes "gbn_ok window g" and "flight g = x # xs" and "x mod modulus = expected g mod modulus"
  shows "x = expected g"
  using gbn_okD [OF assms(1)] assms(2, 3) congruent_eq [of x "expected g"] by fastforce

lemma ack_exact:
  assumes "gbn_ok window g" and "answers g = a # as"
  shows "reconstruct modulus (acked g) a = a"
proof (rule reconstruct_exact)
  have "a \<in> set (answers g)" using assms(2) by simp
  note D = gbn_okD(1-3) [OF assms(1)] gbn_okD(6, 7) [OF assms(1) this]
  show "acked g \<le> a" "a \<le> acked g + window" using D by simp_all
qed

lemma ok_step:
  assumes "gbn_step window modulus g g'" and "gbn_ok window g"
  shows "gbn_ok window g'"
  using assms
proof cases
  case (gbn_send k)
  moreover have "gbn_ok window (g\<lparr>next_no := next_no g + k, flight := flight g @ [next_no g ..< next_no g + k]\<rparr>)"
    by (rule gbn_ok_append [OF assms(2)]) (use gbn_send gbn_okD(1, 2) [OF assms(2)] in auto)
  ultimately show ?thesis by simp
next
  case gbn_resend
  moreover have "gbn_ok window (g\<lparr>next_no := next_no g, flight := flight g @ [acked g ..< next_no g]\<rparr>)"
    by (rule gbn_ok_append [OF assms(2)]) (use gbn_okD(3) [OF assms(2)] in auto)
  ultimately show ?thesis by simp
next
  case (gbn_take x xs)
  then have x: "x = expected g" using take_exact [OF assms(2)] by blast
  have "x \<in> set (flight g)" using gbn_take by simp
  note D = gbn_okD(1-3) [OF assms(2)] gbn_okD(5) [OF assms(2) this]
  have "expected g + 1 \<le> y + window" if "y \<in> set (flight g)" for y
    using that assms(2) gbn_take(2) x D by (auto simp: gbn_ok_def)
  then show ?thesis using assms(2) gbn_take(1) x D unfolding gbn_ok_def by auto
next
  case gbn_answer
  then show ?thesis using assms(2) unfolding gbn_ok_def by (auto simp: sorted_append)
next
  case (gbn_ack a as)
  then show ?thesis using assms(2) ack_exact [OF assms(2)] unfolding gbn_ok_def by auto
next
  case (gbn_lose xs x ys)
  then show ?thesis using assms(2) unfolding gbn_ok_def by (auto simp: sorted_wrt_append)
next
  case (gbn_lose_answer as a bs)
  then show ?thesis using assms(2) unfolding gbn_ok_def by (auto simp: sorted_append)
qed

lemma ok_steps:
  assumes "(gbn_step window modulus)\<^sup>*\<^sup>* g g'" and "gbn_ok window g"
  shows "gbn_ok window g'"
  using assms by (induction rule: rtranclp_induct) (auto intro: ok_step)

end

end
