(* ===== verification/Msgblock.thy ===== *)
theory Msgblock
  imports Complex_Main Framing
begin

text \<open>
  The host's side of message blocks, \<^verbatim>\<open>klippy/chelper/msgblock.c\<close>: checking a received block,
  encoding and decoding integers, queue messages, and the conversions between the clock of a
  micro-controller and the host's time.  A C \<^verbatim>\<open>double\<close> is a real number: rounding errors are
  not modelled.
\<close>

subsection \<open>Checking a received block\<close>

text \<open>
  \<open>buf\<close> holds the \<^verbatim>\<open>buf_len\<close> bytes received.  The answer is the length of a valid block, zero
  when more data is needed, or minus the number of bytes to discard, together with the new
  value of \<open>need_sync\<close>.
\<close>

definition msgblock_error :: "u8 list \<Rightarrow> int \<times> bool" where
  "msgblock_error buf = (case find_sync buf of
     Some i \<Rightarrow> (- (int i + 1), False)
   | None \<Rightarrow> (- int (length buf), True))"

definition msgblock_check :: "bool \<Rightarrow> u8 list \<Rightarrow> int \<times> bool" where
  "msgblock_check need_sync buf =
     (if length buf < MESSAGE_MIN then (0, need_sync)
      else if need_sync then msgblock_error buf
      else
        let msglen = unat (buf ! MESSAGE_POS_LEN) in
        if msglen < MESSAGE_MIN \<or> msglen > MESSAGE_MAX then msgblock_error buf
        else if buf ! MESSAGE_POS_SEQ AND NOT MESSAGE_SEQ_MASK \<noteq> MESSAGE_DEST then msgblock_error buf
        else if length buf < msglen then (0, need_sync)
        else if buf ! (msglen - MESSAGE_TRAILER_SYNC) \<noteq> MESSAGE_SYNC then msgblock_error buf
        else
          let msgcrc = (push_bit 8 (to_u16 (buf ! (msglen - MESSAGE_TRAILER_CRC)))
                        OR to_u16 (buf ! (msglen - MESSAGE_TRAILER_CRC + 1)));
              crc = msgblock_crc16_ccitt buf (msglen - MESSAGE_TRAILER_SIZE)
          in if crc \<noteq> msgcrc then msgblock_error buf
             else (int msglen, need_sync))"

subsection \<open>Integers\<close>

text \<open>The host's copies of the two routines.\<close>

definition host_encode_int :: "u32 \<Rightarrow> u8 list" where
  "host_encode_int v =
     (let sv = sint v;
          f4 = [to_u8 (v AND 0x7f)];
          f3 = to_u8 ((drop_bit 7 v AND 0x7f) OR 0x80) # f4;
          f2 = to_u8 ((drop_bit 14 v AND 0x7f) OR 0x80) # f3;
          f1 = to_u8 ((drop_bit 21 v AND 0x7f) OR 0x80) # f2
      in if sv < 3 * 2 ^ 5 \<and> sv \<ge> - (2 ^ 5) then f4
         else if sv < 3 * 2 ^ 12 \<and> sv \<ge> - (2 ^ 12) then f3
         else if sv < 3 * 2 ^ 19 \<and> sv \<ge> - (2 ^ 19) then f2
         else if sv < 3 * 2 ^ 26 \<and> sv \<ge> - (2 ^ 26) then f1
         else to_u8 (drop_bit 28 v OR 0x80) # f1)"

function host_parse_loop :: "u8 list \<Rightarrow> nat \<Rightarrow> u8 \<Rightarrow> u32 \<Rightarrow> (u32 \<times> nat) option" where
  "host_parse_loop buf p c v =
     (if c AND 0x80 \<noteq> 0 then
        if p < length buf then
          host_parse_loop buf (p + 1) (buf ! p) (push_bit 7 v OR to_u32 (buf ! p AND 0x7f))
        else None
      else Some (v, p))"
  by pat_completeness auto
termination by (relation "measure (\<lambda>(buf, p, c, v). length buf - p)") auto

declare host_parse_loop.simps [simp del]

definition host_parse_int :: "u8 list \<Rightarrow> nat \<Rightarrow> (u32 \<times> nat) option" where
  "host_parse_int buf p =
     (if p < length buf then
        let c = buf ! p;
            v = to_u32 (c AND 0x7f);
            v' = (if c AND 0x60 = 0x60 then v OR (- 0x20) else v)
        in host_parse_loop buf (p + 1) c v'
      else None)"

text \<open>
  The decoder of a message: \<open>None\<close> when a read left the memory of the message,
  \<open>Some None\<close> when the message is refused.
\<close>

primrec decode_loop :: "nat \<Rightarrow> u8 list \<Rightarrow> nat \<Rightarrow> nat \<Rightarrow> u32 list \<Rightarrow> u32 list option option" where
  "decode_loop 0 msg e p acc = (if p \<noteq> e then Some None else Some (Some acc))"
| "decode_loop (Suc n) msg e p acc =
     (if p \<ge> e then Some None
      else case host_parse_int msg p of
        None \<Rightarrow> None
      | Some (v, p') \<Rightarrow> decode_loop n msg e p' (acc @ [v]))"

definition msgblock_decode :: "nat \<Rightarrow> u8 list \<Rightarrow> nat \<Rightarrow> u32 list option option" where
  "msgblock_decode data_len msg msg_len =
     decode_loop data_len msg (msg_len - MESSAGE_TRAILER_SIZE) MESSAGE_HEADER_SIZE []"

subsection \<open>Queue messages\<close>

text \<open>
  The bytes of a message and its length are one list.  A message on a command queue uses the
  two clocks, one on a sent or receive queue the two times (a union in C).
\<close>

record queue_message =
  qm_msg :: "u8 list"
  min_clock :: u64
  req_clock :: u64
  sent_time :: real
  receive_time :: real
  notify_id :: u64

definition message_alloc :: queue_message where
  "message_alloc = \<lparr>qm_msg = [], min_clock = 0, req_clock = 0, sent_time = 0, receive_time = 0, notify_id = 0\<rparr>"

text \<open>More than 64 bytes would overrun the array of the message.\<close>

definition message_fill :: "u8 list \<Rightarrow> queue_message option" where
  "message_fill data =
     (if length data > MESSAGE_MAX then None else Some (message_alloc\<lparr>qm_msg := data\<rparr>))"

primrec encode_loop :: "u32 list \<Rightarrow> u8 list \<Rightarrow> u8 list option" where
  "encode_loop [] acc = Some acc"
| "encode_loop (v # vs) acc =
     (let acc' = acc @ host_encode_int v in
      if length acc' > MESSAGE_PAYLOAD_MAX then None else encode_loop vs acc')"

definition message_alloc_and_encode :: "u32 list \<Rightarrow> queue_message" where
  "message_alloc_and_encode data = (case encode_loop data [] of
     Some p \<Rightarrow> message_alloc\<lparr>qm_msg := p\<rparr>
   | None \<Rightarrow> message_alloc)"

subsection \<open>Clocks\<close>

record clock_estimate =
  last_clock :: u64
  conv_clock :: u64
  conv_time :: real
  est_freq :: real

definition clock_from_clock32 :: "clock_estimate \<Rightarrow> u32 \<Rightarrow> u64" where
  "clock_from_clock32 ce clock32 =
     last_clock ce + scast (to_u32 (to_u64 clock32 - last_clock ce) :: u32)"

definition clock_to_time :: "clock_estimate \<Rightarrow> u64 \<Rightarrow> real" where
  "clock_to_time ce clock = conv_time ce + of_int (sint (clock - conv_clock ce)) / est_freq ce"

text \<open>C's conversion of a real number to an integer drops the fraction.\<close>

definition c_trunc :: "real \<Rightarrow> int" where
  "c_trunc r = (if 0 \<le> r then \<lfloor>r\<rfloor> else - \<lfloor>- r\<rfloor>)"

definition clock_from_time :: "clock_estimate \<Rightarrow> real \<Rightarrow> u64" where
  "clock_from_time ce time =
     word_of_int (c_trunc ((time - conv_time ce) * est_freq ce + 1 / 2)) + conv_clock ce"

end
