(* ===== verification/Pollreactor.thy ===== *)
theory Pollreactor
  imports Complex_Main Prelude
begin

text \<open>
  The event loop of the host's background thread, \<^verbatim>\<open>klippy/chelper/pollreactor.c\<close>.  The state of
  a client extends the reactor's record (\<^verbatim>\<open>callback_data\<close> points to a struct that points back to
  the reactor); the callbacks are arguments.  A callback that does not return is \<open>None\<close>.
\<close>

subsection \<open>State\<close>

definition PR_NOW :: real where "PR_NOW = 0"
definition PR_NEVER :: real where "PR_NEVER = 9999999999999999"

record pollreactor =
  must_exit :: bool
  next_timer :: real
  pr_timers :: "real list"

definition pollreactor_alloc :: "nat \<Rightarrow> pollreactor" where
  "pollreactor_alloc num_timers =
     \<lparr>must_exit = False, next_timer = PR_NEVER, pr_timers = replicate num_timers PR_NEVER\<rparr>"

subsection \<open>Timers\<close>

definition pollreactor_add_timer :: "nat \<Rightarrow> 'e pollreactor_scheme \<Rightarrow> 'e pollreactor_scheme" where
  "pollreactor_add_timer pos pr = pr\<lparr>pr_timers := (pr_timers pr)[pos := PR_NEVER]\<rparr>"

definition pollreactor_get_timer :: "'e pollreactor_scheme \<Rightarrow> nat \<Rightarrow> real" where
  "pollreactor_get_timer pr pos = pr_timers pr ! pos"

definition pollreactor_update_timer :: "nat \<Rightarrow> real \<Rightarrow> 'e pollreactor_scheme \<Rightarrow> 'e pollreactor_scheme" where
  "pollreactor_update_timer pos t pr =
     (let pr' = pr\<lparr>pr_timers := (pr_timers pr)[pos := t]\<rparr> in
      if t < next_timer pr' then pr'\<lparr>next_timer := t\<rparr> else pr')"

definition pollreactor_do_exit :: "'e pollreactor_scheme \<Rightarrow> 'e pollreactor_scheme" where
  "pollreactor_do_exit pr = pr\<lparr>must_exit := True\<rparr>"

definition pollreactor_is_exit :: "'e pollreactor_scheme \<Rightarrow> bool" where
  "pollreactor_is_exit pr = must_exit pr"

text \<open>The loop over the timers, from index \<open>i\<close> on, \<open>n\<close> of them left.\<close>

primrec run_timers ::
  "(nat \<Rightarrow> real \<Rightarrow> 'e pollreactor_scheme \<Rightarrow> (real \<times> 'e pollreactor_scheme) option) \<Rightarrow>
     real \<Rightarrow> nat \<Rightarrow> nat \<Rightarrow> bool \<Rightarrow> 'e pollreactor_scheme \<Rightarrow> (bool \<times> 'e pollreactor_scheme) option" where
  "run_timers callback eventtime 0 i busy pr = Some (busy, pr)"
| "run_timers callback eventtime (Suc n) i busy pr =
     (let t = pr_timers pr ! i in
      case (if eventtime \<ge> t then
              (case callback i eventtime pr of
                 None \<Rightarrow> None
               | Some (t', pr') \<Rightarrow> Some (True, t', pr'\<lparr>pr_timers := (pr_timers pr')[i := t']\<rparr>))
            else Some (busy, t, pr)) of
        None \<Rightarrow> None
      | Some (busy', t', pr') \<Rightarrow>
          run_timers callback eventtime n (Suc i) busy'
            (if t' < next_timer pr' then pr'\<lparr>next_timer := t'\<rparr> else pr'))"

definition pollreactor_check_timers ::
  "(nat \<Rightarrow> real \<Rightarrow> 'e pollreactor_scheme \<Rightarrow> (real \<times> 'e pollreactor_scheme) option) \<Rightarrow>
     real \<Rightarrow> bool \<Rightarrow> 'e pollreactor_scheme \<Rightarrow> (int \<times> 'e pollreactor_scheme) option" where
  "pollreactor_check_timers callback eventtime busy pr =
     (case (if eventtime \<ge> next_timer pr
            then run_timers callback eventtime (length (pr_timers pr)) 0 busy (pr\<lparr>next_timer := PR_NEVER\<rparr>)
            else Some (busy, pr)) of
        None \<Rightarrow> None
      | Some (busy', pr') \<Rightarrow>
          if busy' then Some (0, pr')
          else
            let timeout = \<lceil>(next_timer pr' - eventtime) * 1000\<rceil>
            in Some (if timeout < 1 then 1 else if timeout > 1000 then 1000 else timeout, pr'))"

subsection \<open>The loop\<close>

text \<open>
  What one round of the loop meets: the time after \<^verbatim>\<open>poll\<close> and its outcome, an error or the
  descriptors (in order of their index) that have an event.
\<close>

datatype poll_result = PollError | PollReady "nat list"

primrec run_fds ::
  "(nat \<Rightarrow> real \<Rightarrow> 'e pollreactor_scheme \<Rightarrow> 'e pollreactor_scheme option) \<Rightarrow>
     real \<Rightarrow> nat list \<Rightarrow> 'e pollreactor_scheme \<Rightarrow> 'e pollreactor_scheme option" where
  "run_fds fd_callback eventtime [] pr = Some pr"
| "run_fds fd_callback eventtime (i # is) pr = (case fd_callback i eventtime pr of
     None \<Rightarrow> None
   | Some pr' \<Rightarrow> run_fds fd_callback eventtime is pr')"

text \<open>
  \<^verbatim>\<open>pollreactor_run\<close> over the rounds given; it ends early when an exit is requested.
\<close>

primrec pollreactor_run ::
  "(nat \<Rightarrow> real \<Rightarrow> 'e pollreactor_scheme \<Rightarrow> (real \<times> 'e pollreactor_scheme) option) \<Rightarrow>
   (nat \<Rightarrow> real \<Rightarrow> 'e pollreactor_scheme \<Rightarrow> 'e pollreactor_scheme option) \<Rightarrow>
     (real \<times> poll_result) list \<Rightarrow> real \<Rightarrow> bool \<Rightarrow> 'e pollreactor_scheme \<Rightarrow> 'e pollreactor_scheme option" where
  "pollreactor_run callback fd_callback [] eventtime busy pr = Some pr"
| "pollreactor_run callback fd_callback (r # rs) eventtime busy pr =
     (if must_exit pr then Some pr
      else case pollreactor_check_timers callback eventtime busy pr of
        None \<Rightarrow> None
      | Some (timeout, pr1) \<Rightarrow>
          (case snd r of
             PollError \<Rightarrow> pollreactor_run callback fd_callback rs (fst r) False (pr1\<lparr>must_exit := True\<rparr>)
           | PollReady fds \<Rightarrow>
               (case run_fds fd_callback (fst r) fds pr1 of
                  None \<Rightarrow> None
                | Some pr2 \<Rightarrow> pollreactor_run callback fd_callback rs (fst r) (fds \<noteq> []) pr2)))"

end
