(* ===== verification/Serialqueue.thy ===== *)
theory Serialqueue
  imports Msgblock Pollreactor
begin

text \<open>
  The host's serial port queue, \<^verbatim>\<open>klippy/chelper/serialqueue.c\<close>: command queues with minimum
  and requested clocks, packing of commands into numbered blocks, acknowledgements and
  retransmission, round trip time estimation, and the queue of received messages.

  \<^item> A \<^verbatim>\<open>list_head\<close> of messages is a list; a command queue is referred to by a number.
  \<^item> \<^verbatim>\<open>input_buf[0..input_pos)\<close> is the list \<open>input_buf\<close>.
  \<^item> The functions run with \<^verbatim>\<open>sq->lock\<close> held, one after the other; signals, writes and callbacks
    made on the way are recorded in \<open>sq_out\<close>.
  \<^item> What the operating system returns (the time, the bytes read) is an argument.
  \<^item> \<open>None\<close> stands for undefined behaviour (a NULL message, an array overrun) and for a loop
    that does not end.
\<close>

subsection \<open>State\<close>

datatype fd_type = SQT_UART | SQT_CAN | SQT_DEBUGFILE

record command_queue =
  upcoming_queue :: "queue_message list"
  ready_queue :: "queue_message list"

record fastreader =
  fr_id :: nat
  prefix :: "u8 list"

datatype sq_event =
    CondSignal
  | KickPipe
  | Written "u8 list"
  | WrittenCan int "u8 list"
  | FlushOutput
  | FastRead nat "u8 list"

record serialqueue = pollreactor +
  serial_fd_type :: fd_type
  client_id :: int
  input_buf :: "u8 list"
  need_sync :: bool
  receive_waiting :: bool
  receive_window :: int
  bittime_adjust :: real
  idle_time :: real
  ce :: clock_estimate
  last_receive_sent_time :: real
  send_seq :: u64
  receive_seq :: u64
  ignore_nak_seq :: u64
  last_ack_seq :: u64
  retransmit_seq :: u64
  rtt_sample_seq :: u64
  sent_queue :: "queue_message list"
  srtt :: real
  rttvar :: real
  rto :: real
  pending_queues :: "nat list"
  cqs :: "nat \<Rightarrow> command_queue"
  ready_bytes :: int
  upcoming_bytes :: int
  need_ack_bytes :: int
  last_ack_bytes :: int
  need_kick_clock :: u64
  notify_queue :: "queue_message list"
  receive_queue :: "queue_message list"
  fast_readers :: "fastreader list"
  old_sent :: "queue_message list"
  old_receive :: "queue_message list"
  bytes_write :: u32
  bytes_read :: u32
  bytes_retransmit :: u32
  bytes_invalid :: u32
  sq_out :: "sq_event list"

definition SQPT_RETRANSMIT :: nat where "SQPT_RETRANSMIT = 0"
definition SQPT_COMMAND :: nat where "SQPT_COMMAND = 1"
definition SQPT_NUM :: nat where "SQPT_NUM = 2"
definition SQPF_SERIAL :: nat where "SQPF_SERIAL = 0"
definition SQPF_PIPE :: nat where "SQPF_PIPE = 1"
definition MIN_RTO :: real where "MIN_RTO = 0.025"
definition MAX_RTO :: real where "MAX_RTO = 5"
definition MAX_PENDING_BLOCKS :: nat where "MAX_PENDING_BLOCKS = 12"
definition MIN_REQTIME_DELTA :: real where "MIN_REQTIME_DELTA = 0.25"
definition MIN_BACKGROUND_DELTA :: real where "MIN_BACKGROUND_DELTA = 0.005"
definition DEBUG_QUEUE_SENT :: nat where "DEBUG_QUEUE_SENT = 100"
definition DEBUG_QUEUE_RECEIVE :: nat where "DEBUG_QUEUE_RECEIVE = 100"
definition MAX_CLOCK :: u64 where "MAX_CLOCK = 0x7fffffffffffffff"
definition BACKGROUND_PRIORITY_CLOCK :: u64 where "BACKGROUND_PRIORITY_CLOCK = 0x7fffffff00000000"

abbreviation qm_len :: "queue_message \<Rightarrow> nat" where "qm_len qm \<equiv> length (qm_msg qm)"

definition sq_emit :: "sq_event \<Rightarrow> serialqueue \<Rightarrow> serialqueue" where
  "sq_emit x sq = sq\<lparr>sq_out := sq_out sq @ [x]\<rparr>"

subsection \<open>Helpers\<close>

definition debug_queue_alloc :: "queue_message list \<Rightarrow> nat \<Rightarrow> queue_message list" where
  "debug_queue_alloc queue count = replicate count message_alloc @ queue"

definition debug_queue_add :: "queue_message list \<Rightarrow> queue_message \<Rightarrow> queue_message list" where
  "debug_queue_add queue qm = tl (queue @ [qm])"

definition check_wake_receive :: "serialqueue \<Rightarrow> serialqueue" where
  "check_wake_receive sq =
     (if receive_waiting sq then sq_emit CondSignal (sq\<lparr>receive_waiting := False\<rparr>) else sq)"

definition kick_bg_thread :: "serialqueue \<Rightarrow> serialqueue" where
  "kick_bg_thread sq = sq_emit KickPipe sq"

definition CANBUS_PACKET_BITS :: u32 where "CANBUS_PACKET_BITS = (1 + 11 + 3 + 4) + (16 + 2 + 7 + 3)"
definition CANBUS_IFS_BITS :: u32 where "CANBUS_IFS_BITS = 4"

definition calculate_bittime :: "serialqueue \<Rightarrow> u32 \<Rightarrow> real" where
  "calculate_bittime sq bytes =
     (if serial_fd_type sq = SQT_CAN then
        let pkts = (bytes + 8 - 1) div 8;
            bits = bytes * 8 + pkts * CANBUS_PACKET_BITS - CANBUS_IFS_BITS
        in bittime_adjust sq * real (unat bits)
      else bittime_adjust sq * real (unat bytes))"

abbreviation bittime :: "serialqueue \<Rightarrow> nat \<Rightarrow> real" where
  "bittime sq n \<equiv> calculate_bittime sq (of_nat n)"

subsection \<open>Acknowledgements\<close>

text \<open>
  The loop that takes acknowledged blocks off the sent queue; it ends with the queue at the
  latest.
\<close>

function ack_sent :: "u64 \<Rightarrow> u64 \<Rightarrow> serialqueue \<Rightarrow> serialqueue" where
  "ack_sent rseq sent_seq sq = (case sent_queue sq of
     [] \<Rightarrow> sq\<lparr>send_seq := rseq, last_receive_sent_time := 0\<rparr>
   | sent # rest \<Rightarrow>
       let sq' = sq\<lparr>need_ack_bytes := need_ack_bytes sq - int (qm_len sent), sent_queue := rest,
                    old_sent := debug_queue_add (old_sent sq) sent\<rparr> in
       if rseq = sent_seq + 1 then
         sq'\<lparr>last_receive_sent_time := receive_time sent, last_ack_bytes := int (qm_len sent)\<rparr>
       else ack_sent rseq (sent_seq + 1) sq')"
  by pat_completeness auto
termination by (relation "measure (\<lambda>(rseq, s, sq). length (sent_queue sq))") auto

declare ack_sent.simps [simp del]

definition update_rtt :: "real \<Rightarrow> u64 \<Rightarrow> serialqueue \<Rightarrow> serialqueue" where
  "update_rtt eventtime rseq sq =
     (if rtt_sample_seq sq \<noteq> 0 \<and> rseq > rtt_sample_seq sq \<and> last_receive_sent_time sq \<noteq> 0 then
        let delta = eventtime - last_receive_sent_time sq;
            sq1 = (if srtt sq = 0 then sq\<lparr>rttvar := delta / 2, srtt := delta * 10\<rparr>
                   else sq\<lparr>rttvar := (3 * rttvar sq + \<bar>srtt sq - delta\<bar>) / 4,
                           srtt := (7 * srtt sq + delta) / 8\<rparr>);
            rttvar4 = (if rttvar sq1 * 4 < 0.001 then 0.001 else rttvar sq1 * 4);
            r = srtt sq1 + rttvar4
        in sq1\<lparr>rto := (if r < MIN_RTO then MIN_RTO else if r > MAX_RTO then MAX_RTO else r),
               rtt_sample_seq := 0\<rparr>
      else sq)"

definition update_receive_seq :: "real \<Rightarrow> u64 \<Rightarrow> serialqueue \<Rightarrow> serialqueue" where
  "update_receive_seq eventtime rseq sq =
     (let sq1 = (ack_sent rseq (receive_seq sq) sq)\<lparr>receive_seq := rseq\<rparr>;
          sq2 = pollreactor_update_timer SQPT_COMMAND PR_NOW sq1;
          sq3 = update_rtt eventtime rseq sq2
      in case sent_queue sq3 of
           [] \<Rightarrow> pollreactor_update_timer SQPT_RETRANSMIT PR_NEVER sq3
         | sent # _ \<Rightarrow> pollreactor_update_timer SQPT_RETRANSMIT
             (eventtime + rto sq3 + bittime sq3 (qm_len sent)) sq3)"

text \<open>The sequence number a received block stands for: the low four bits are on the wire.\<close>

definition wire_seq :: "u64 \<Rightarrow> u8 \<Rightarrow> u64" where
  "wire_seq rs b =
     (let rseq = (rs AND NOT 0x0f) OR to_u64 (b AND MESSAGE_SEQ_MASK)
      in if rseq < rs then rseq + 16 else rseq)"

text \<open>The loop over the messages that wait for the notification that they were received.\<close>

primrec notify_loop :: "queue_message list \<Rightarrow> real \<Rightarrow> u64 \<Rightarrow> serialqueue \<Rightarrow> bool \<Rightarrow> serialqueue \<times> bool" where
  "notify_loop [] eventtime wake_seq sq must_wake = (sq\<lparr>notify_queue := []\<rparr>, must_wake)"
| "notify_loop (qm # qs) eventtime wake_seq sq must_wake =
     (if req_clock qm > wake_seq then (sq\<lparr>notify_queue := qm # qs\<rparr>, must_wake)
      else notify_loop qs eventtime wake_seq
             (sq\<lparr>receive_queue := receive_queue sq @
                 [qm\<lparr>qm_msg := [], sent_time := last_receive_sent_time sq, receive_time := eventtime\<rparr>]\<rparr>) True)"

definition fr_matches :: "u8 list \<Rightarrow> nat \<Rightarrow> fastreader \<Rightarrow> bool" where
  "fr_matches buf len fr \<longleftrightarrow>
     \<not> len < length (prefix fr) + MESSAGE_MIN \<and>
     take (length (prefix fr)) (drop MESSAGE_HEADER_SIZE buf) = prefix fr"

text \<open>A valid block of \<open>len\<close> bytes is at the start of the input; \<open>now\<close> is what \<^verbatim>\<open>get_monotonic\<close> returns.\<close>

definition handle_message :: "real \<Rightarrow> real \<Rightarrow> nat \<Rightarrow> serialqueue \<Rightarrow> serialqueue option" where
  "handle_message now eventtime len sq =
     (let rseq = wire_seq (receive_seq sq) (input_buf sq ! MESSAGE_POS_SEQ) in
      if rseq \<noteq> receive_seq sq \<and> rseq > send_seq sq \<and> receive_seq sq \<noteq> 1 then
        Some (sq\<lparr>bytes_invalid := bytes_invalid sq + of_nat len\<rparr>)
      else
        let sq1 = (if rseq \<noteq> receive_seq sq then update_receive_seq eventtime rseq sq else sq);
            sq2 = sq1\<lparr>bytes_read := bytes_read sq1 + of_nat len\<rparr>;
            (sq3, wake3) = notify_loop (notify_queue sq2) eventtime
               (rseq - 1 - (if len > MESSAGE_MIN then 1 else 0)) sq2 False
        in case (if len = MESSAGE_MIN then
                   Some (if last_ack_seq sq3 < rseq then sq3\<lparr>last_ack_seq := rseq\<rparr>
                         else if rseq > ignore_nak_seq sq3 \<and> sent_queue sq3 \<noteq> []
                         then pollreactor_update_timer SQPT_RETRANSMIT PR_NOW sq3
                         else sq3, wake3)
                 else
                   (case message_fill (take len (input_buf sq3)) of
                      None \<Rightarrow> None
                    | Some qm \<Rightarrow>
                        Some (sq3\<lparr>receive_queue := receive_queue sq3 @
                                [qm\<lparr>sent_time := (if rseq > retransmit_seq sq3 then last_receive_sent_time sq3 else 0),
                                    receive_time := now - bittime sq3 len\<rparr>]\<rparr>, True))) of
             None \<Rightarrow> None
           | Some (sq4, must_wake) \<Rightarrow>
               let sq5 = (if must_wake then check_wake_receive sq4 else sq4)
               in case find (fr_matches (input_buf sq4) len) (fast_readers sq4) of
                    Some fr \<Rightarrow> Some (sq_emit (FastRead (fr_id fr) (take len (input_buf sq4))) sq5)
                  | None \<Rightarrow> Some sq5)"

subsection \<open>Input\<close>

text \<open>
  The bytes read are appended to the input; a valid block at its start is handled, other
  bytes are skipped.  \<open>clk k\<close> is the time \<^verbatim>\<open>get_monotonic\<close> returns in round \<open>k\<close>; every round
  consumes a byte, so as many rounds as there are bytes suffice.
\<close>

primrec input_loop :: "(nat \<Rightarrow> real) \<Rightarrow> real \<Rightarrow> nat \<Rightarrow> serialqueue \<Rightarrow> serialqueue option" where
  "input_loop clk eventtime 0 sq = None"
| "input_loop clk eventtime (Suc n) sq =
     (let (len, ns) = msgblock_check (need_sync sq) (input_buf sq);
          sq1 = sq\<lparr>need_sync := ns\<rparr>
      in if len = 0 then Some sq1
         else
           let len' = nat \<bar>len\<bar> in
           case (if len > 0 then handle_message (clk n) eventtime len' sq1
                 else Some (sq1\<lparr>bytes_invalid := bytes_invalid sq1 + of_nat len'\<rparr>)) of
             None \<Rightarrow> None
           | Some sq2 \<Rightarrow> input_loop clk eventtime n (sq2\<lparr>input_buf := drop len' (input_buf sq2)\<rparr>))"

datatype read_result = ReadFailed | ReadBytes "u8 list" | ReadCan int "u8 list"

definition INPUT_BUF_SIZE :: nat where "INPUT_BUF_SIZE = 4096"

definition input_event :: "(nat \<Rightarrow> real) \<Rightarrow> read_result \<Rightarrow> real \<Rightarrow> serialqueue \<Rightarrow> serialqueue option" where
  "input_event clk r eventtime sq =
     (let go = (\<lambda>data.
        let sq1 = sq\<lparr>input_buf := input_buf sq @ data\<rparr> in
        if length (input_buf sq1) > INPUT_BUF_SIZE then None
        else input_loop clk eventtime (Suc (length (input_buf sq1))) sq1)
      in case r of
           ReadFailed \<Rightarrow> Some (pollreactor_do_exit sq)
         | ReadBytes data \<Rightarrow> go data
         | ReadCan can_id data \<Rightarrow> if can_id \<noteq> client_id sq + 1 then Some sq else go data)"

definition kick_event :: "real \<Rightarrow> serialqueue \<Rightarrow> serialqueue" where
  "kick_event eventtime sq = pollreactor_update_timer SQPT_COMMAND PR_NOW sq"

subsection \<open>Output\<close>

text \<open>A CAN frame carries at most eight bytes.\<close>

fun can_frames :: "int \<Rightarrow> u8 list \<Rightarrow> sq_event list" where
  "can_frames cid [] = []"
| "can_frames cid (b # bs) = WrittenCan cid (take 8 (b # bs)) # can_frames cid (drop 8 (b # bs))"

definition do_write :: "u8 list \<Rightarrow> serialqueue \<Rightarrow> serialqueue" where
  "do_write buf sq =
     (if serial_fd_type sq \<noteq> SQT_CAN then sq_emit (Written buf) sq
      else sq\<lparr>sq_out := sq_out sq @ can_frames (client_id sq) buf\<rparr>)"

definition retransmit_event :: "real \<Rightarrow> serialqueue \<Rightarrow> (real \<times> serialqueue) option" where
  "retransmit_event eventtime sq =
     (let sq0 = (if serial_fd_type sq = SQT_UART then sq_emit FlushOutput sq else sq);
          buf = MESSAGE_SYNC # concat (map qm_msg (sent_queue sq0));
          first_buflen = (case sent_queue sq0 of [] \<Rightarrow> 0 | qm # _ \<Rightarrow> qm_len qm + 1)
      in if length buf > MESSAGE_MAX * MAX_PENDING_BLOCKS + 1 then None
         else
           let sq1 = do_write buf sq0;
               sq2 = sq1\<lparr>bytes_retransmit := bytes_retransmit sq1 + of_nat (length buf)\<rparr>;
               sq3 = (if pollreactor_get_timer sq2 SQPT_RETRANSMIT = PR_NOW then
                        sq2\<lparr>ignore_nak_seq := (if receive_seq sq2 < retransmit_seq sq2
                                               then retransmit_seq sq2 else receive_seq sq2)\<rparr>
                      else
                        sq2\<lparr>rto := (if rto sq2 * 2 > MAX_RTO then MAX_RTO else rto sq2 * 2),
                            ignore_nak_seq := send_seq sq2\<rparr>);
               sq4 = sq3\<lparr>retransmit_seq := send_seq sq3, rtt_sample_seq := 0,
                         idle_time := eventtime + bittime sq3 (length buf)\<rparr>
           in Some (eventtime + rto sq4 + bittime sq4 first_buflen, sq4))"

subsection \<open>Sending commands\<close>

text \<open>The ready message with the lowest requested clock.\<close>

primrec find_min :: "(nat \<Rightarrow> command_queue) \<Rightarrow> nat list \<Rightarrow> u64 \<Rightarrow> (nat \<times> queue_message) option
    \<Rightarrow> (nat \<times> queue_message) option" where
  "find_min c [] mc best = best"
| "find_min c (q # qs) mc best = (case ready_queue (c q) of
     [] \<Rightarrow> find_min c qs mc best
   | m # _ \<Rightarrow> if req_clock m < mc then find_min c qs (req_clock m) (Some (q, m))
              else find_min c qs mc best)"

text \<open>
  The loop that fills a block: \<open>acc\<close> holds the contents so far.  A round removes a message,
  so the number of ready messages bounds the rounds.
\<close>

primrec fill_block :: "nat \<Rightarrow> u8 list \<Rightarrow> serialqueue \<Rightarrow> (u8 list \<times> serialqueue) option" where
  "fill_block 0 acc sq = (if ready_bytes sq = 0 then Some (acc, sq) else None)"
| "fill_block (Suc n) acc sq =
     (if ready_bytes sq = 0 then Some (acc, sq)
      else case find_min (cqs sq) (pending_queues sq) MAX_CLOCK None of
        None \<Rightarrow> None
      | Some (cq, qm) \<Rightarrow>
          if MESSAGE_HEADER_SIZE + length acc + qm_len qm > MESSAGE_MAX - MESSAGE_TRAILER_SIZE
          then Some (acc, sq)
          else
            let q' = (cqs sq cq)\<lparr>ready_queue := tl (ready_queue (cqs sq cq))\<rparr>;
                sq1 = sq\<lparr>cqs := (cqs sq)(cq := q')\<rparr>;
                sq2 = (if ready_queue q' = [] \<and> upcoming_queue q' = []
                       then sq1\<lparr>pending_queues := remove1 cq (pending_queues sq1)\<rparr> else sq1);
                sq3 = sq2\<lparr>ready_bytes := ready_bytes sq2 - int (qm_len qm)\<rparr>;
                sq4 = (if notify_id qm \<noteq> 0
                       then sq3\<lparr>notify_queue := notify_queue sq3 @ [qm\<lparr>req_clock := send_seq sq3\<rparr>]\<rparr> else sq3)
            in fill_block n (acc @ qm_msg qm) sq4)"

definition ready_count :: "serialqueue \<Rightarrow> nat" where
  "ready_count sq = sum_list (map (\<lambda>q. length (ready_queue (cqs sq q))) (pending_queues sq))"

text \<open>The finished block: header, contents, checksum, sync byte.\<close>

definition host_frame :: "u64 \<Rightarrow> u8 list \<Rightarrow> u8 list" where
  "host_frame seq acc =
     (let len = MESSAGE_HEADER_SIZE + length acc + MESSAGE_TRAILER_SIZE;
          hdr = [of_nat len, MESSAGE_DEST OR to_u8 (seq AND 0x0f)] @ acc;
          crc = msgblock_crc16_ccitt hdr (len - MESSAGE_TRAILER_SIZE)
      in hdr @ [to_u8 (drop_bit 8 crc), to_u8 (crc AND 0xff), MESSAGE_SYNC])"

definition build_and_send_command :: "nat \<Rightarrow> real \<Rightarrow> serialqueue \<Rightarrow> (u8 list \<times> serialqueue) option" where
  "build_and_send_command pend eventtime sq =
     (case fill_block (ready_count sq) [] sq of
        None \<Rightarrow> None
      | Some (acc, sq1) \<Rightarrow>
          let buf = host_frame (send_seq sq1) acc;
              idletime = (if eventtime > idle_time sq1 then eventtime else idle_time sq1)
                         + bittime sq1 (pend + length buf);
              out_msg = message_alloc\<lparr>qm_msg := buf, sent_time := eventtime, receive_time := idletime\<rparr>;
              sq2 = (if sent_queue sq1 = []
                     then pollreactor_update_timer SQPT_RETRANSMIT (idletime + rto sq1) sq1 else sq1);
              sq3 = (if rtt_sample_seq sq2 = 0 then sq2\<lparr>rtt_sample_seq := send_seq sq2\<rparr> else sq2)
          in Some (buf, sq3\<lparr>send_seq := send_seq sq3 + 1,
                            need_ack_bytes := need_ack_bytes sq3 + int (length buf),
                            sent_queue := sent_queue sq3 @ [out_msg]\<rparr>))"

text \<open>
  The inner loop of \<^verbatim>\<open>check_send_command\<close>: messages whose minimum clock has come move from the
  upcoming to the ready queue.  The result is what stays, what moves, and the first clock
  that is still to come.
\<close>

primrec move_upcoming :: "u64 \<Rightarrow> queue_message list \<Rightarrow> queue_message list \<Rightarrow> u64
    \<Rightarrow> queue_message list \<times> queue_message list \<times> u64" where
  "move_upcoming ack_clock [] moved stalled = ([], moved, stalled)"
| "move_upcoming ack_clock (qm # qs) moved stalled =
     (if ack_clock < min_clock qm then (qm # qs, moved, if min_clock qm < stalled then min_clock qm else stalled)
      else move_upcoming ack_clock qs (moved @ [qm]) stalled)"

definition bytes_of :: "queue_message list \<Rightarrow> int" where
  "bytes_of qms = sum_list (map (\<lambda>qm. int (qm_len qm)) qms)"

primrec check_queues :: "nat list \<Rightarrow> nat \<Rightarrow> real \<Rightarrow> u64 \<Rightarrow> u64 \<Rightarrow> u64 \<Rightarrow> serialqueue
    \<Rightarrow> u64 \<times> u64 \<times> serialqueue" where
  "check_queues [] pend idletime ack_clock stalled mready sq = (stalled, mready, sq)"
| "check_queues (q # qs) pend idletime ack_clock stalled mready sq =
     (let (up, moved, stalled') = move_upcoming ack_clock (upcoming_queue (cqs sq q)) [] stalled;
          ready = ready_queue (cqs sq q) @ moved;
          sq1 = sq\<lparr>cqs := (cqs sq)(q := (cqs sq q)\<lparr>upcoming_queue := up, ready_queue := ready\<rparr>),
                   upcoming_bytes := upcoming_bytes sq - bytes_of moved,
                   ready_bytes := ready_bytes sq + bytes_of moved\<rparr>;
          mready' = (case ready of
             [] \<Rightarrow> mready
           | qm # _ \<Rightarrow>
               let bgtime = (if pend \<noteq> 0 then idletime else idle_time sq1);
                   rc = (if req_clock qm = BACKGROUND_PRIORITY_CLOCK
                         then clock_from_time (ce sq1) (bgtime + (MIN_REQTIME_DELTA + MIN_BACKGROUND_DELTA))
                         else req_clock qm)
               in if rc < mready then rc else mready)
      in check_queues qs pend idletime ack_clock stalled' mready' sq1)"

definition check_send_command :: "nat \<Rightarrow> real \<Rightarrow> serialqueue \<Rightarrow> real \<times> serialqueue" where
  "check_send_command pend eventtime sq =
     (if send_seq sq - receive_seq sq \<ge> of_nat MAX_PENDING_BLOCKS \<and> receive_seq sq \<noteq> - 1 then (PR_NEVER, sq)
      else if send_seq sq > receive_seq sq \<and> receive_window sq \<noteq> 0 \<and>
        need_ack_bytes sq + int MESSAGE_MAX +
          (if last_ack_seq sq < receive_seq sq then last_ack_bytes sq else 0) > receive_window sq
      then (PR_NEVER, sq)
      else
        let idletime = (if eventtime > idle_time sq then eventtime else idle_time sq)
                       + bittime sq (pend + MESSAGE_MIN);
            ack_clock = clock_from_time (ce sq) idletime;
            (stalled, mready, sq1) =
              check_queues (pending_queues sq) pend idletime ack_clock MAX_CLOCK MAX_CLOCK sq
        in if ready_bytes sq1 \<ge> int MESSAGE_PAYLOAD_MAX then (PR_NOW, sq1)
           else if est_freq (ce sq1) = 0 then
             (if ready_bytes sq1 \<noteq> 0 then (PR_NOW, sq1)
              else (PR_NEVER, sq1\<lparr>need_kick_clock := MAX_CLOCK\<rparr>))
           else
             let reqclock_delta = word_of_int (c_trunc (MIN_REQTIME_DELTA * est_freq (ce sq1)))
             in if mready \<le> ack_clock + reqclock_delta then (PR_NOW, sq1)
                else
                  let want = mready - reqclock_delta;
                      want' = (if stalled < want then stalled else want)
                  in (idletime + real (unat (want' - ack_clock)) / est_freq (ce sq1),
                      sq1\<lparr>need_kick_clock := want'\<rparr>))"

text \<open>
  The loop of \<^verbatim>\<open>command_event\<close>.  \<open>buf\<close> holds the blocks not yet written.
\<close>

primrec command_loop :: "nat \<Rightarrow> real \<Rightarrow> u8 list \<Rightarrow> serialqueue \<Rightarrow> (real \<times> serialqueue) option" where
  "command_loop 0 eventtime buf sq = None"
| "command_loop (Suc n) eventtime buf sq =
     (let (waketime, sq1) = check_send_command (length buf) eventtime sq;
          flush = (waketime \<noteq> PR_NOW \<or> length buf + MESSAGE_MAX > MESSAGE_MAX * MAX_PENDING_BLOCKS);
          sq2 = (if flush \<and> buf \<noteq> [] then
                   let sqw = do_write buf sq1;
                       sqb = sqw\<lparr>bytes_write := bytes_write sqw + of_nat (length buf)\<rparr>;
                       idletime = (if eventtime > idle_time sqb then eventtime else idle_time sqb)
                   in sqb\<lparr>idle_time := idletime + bittime sqb (length buf)\<rparr>
                 else sq1);
          buf' = (if flush then [] else buf)
      in if waketime \<noteq> PR_NOW then Some (waketime, sq2)
         else case build_and_send_command (length buf') eventtime sq2 of
           None \<Rightarrow> None
         | Some (blk, sq3) \<Rightarrow> command_loop n eventtime (buf' @ blk) sq3)"

text \<open>
  Every round but the last sends a block.  A serial port never has more than twelve blocks
  outstanding; the output to a debug file is limited by the messages queued.
\<close>

definition queued_count :: "serialqueue \<Rightarrow> nat" where
  "queued_count sq = sum_list (map (\<lambda>q. length (ready_queue (cqs sq q)) + length (upcoming_queue (cqs sq q)))
     (pending_queues sq))"

definition command_event :: "real \<Rightarrow> serialqueue \<Rightarrow> (real \<times> serialqueue) option" where
  "command_event eventtime sq = command_loop (queued_count sq + MAX_PENDING_BLOCKS + 1) eventtime [] sq"

definition sq_timer :: "nat \<Rightarrow> real \<Rightarrow> serialqueue \<Rightarrow> (real \<times> serialqueue) option" where
  "sq_timer i eventtime sq =
     (if i = SQPT_RETRANSMIT then retransmit_event eventtime sq
      else if i = SQPT_COMMAND then command_event eventtime sq else None)"

subsection \<open>Interface\<close>

definition serialqueue_alloc :: "fd_type \<Rightarrow> int \<Rightarrow> serialqueue" where
  "serialqueue_alloc ty cid = pollreactor.extend
     (pollreactor_add_timer SQPT_COMMAND (pollreactor_add_timer SQPT_RETRANSMIT (pollreactor_alloc SQPT_NUM)))
     (serialqueue.fields ty cid [] False False 0 0 0
        \<lparr>last_clock = 0, conv_clock = 0, conv_time = 0, est_freq = 0\<rparr> 0
        1 (if ty = SQT_DEBUGFILE then - 1 else 1) 0 0 0 0 [] 0 0 (if ty = SQT_DEBUGFILE then PR_NEVER else MIN_RTO)
        [] (\<lambda>_. \<lparr>upcoming_queue = [], ready_queue = []\<rparr>) 0 0 0 0 MAX_CLOCK [] [] []
        (debug_queue_alloc [] DEBUG_QUEUE_SENT) (debug_queue_alloc [] DEBUG_QUEUE_RECEIVE) 0 0 0 0 [])"

definition serialqueue_exit :: "serialqueue \<Rightarrow> serialqueue" where
  "serialqueue_exit sq = kick_bg_thread (pollreactor_do_exit sq)"

definition serialqueue_alloc_commandqueue :: "nat \<Rightarrow> serialqueue \<Rightarrow> serialqueue" where
  "serialqueue_alloc_commandqueue cq sq =
     sq\<lparr>cqs := (cqs sq)(cq := \<lparr>upcoming_queue = [], ready_queue = []\<rparr>)\<rparr>"

definition serialqueue_add_fastreader :: "fastreader \<Rightarrow> serialqueue \<Rightarrow> serialqueue" where
  "serialqueue_add_fastreader fr sq = sq\<lparr>fast_readers := fast_readers sq @ [fr]\<rparr>"

definition serialqueue_rm_fastreader :: "fastreader \<Rightarrow> serialqueue \<Rightarrow> serialqueue" where
  "serialqueue_rm_fastreader fr sq = sq\<lparr>fast_readers := remove1 fr (fast_readers sq)\<rparr>"

definition set_min_clock :: "queue_message \<Rightarrow> queue_message" where
  "set_min_clock qm =
     (if min_clock qm + 2 ^ 31 < req_clock qm \<and> req_clock qm \<noteq> BACKGROUND_PRIORITY_CLOCK
      then qm\<lparr>min_clock := req_clock qm - 2 ^ 31\<rparr> else qm)"

definition serialqueue_send_batch :: "nat \<Rightarrow> queue_message list \<Rightarrow> serialqueue \<Rightarrow> serialqueue" where
  "serialqueue_send_batch cq msgs sq =
     (let msgs' = map set_min_clock msgs; len = bytes_of msgs' in
      if len = 0 then sq
      else
        let q = cqs sq cq;
            sq1 = (if ready_queue q = [] \<and> upcoming_queue q = []
                   then sq\<lparr>pending_queues := pending_queues sq @ [cq]\<rparr> else sq);
            sq2 = sq1\<lparr>cqs := (cqs sq1)(cq := q\<lparr>upcoming_queue := upcoming_queue q @ msgs'\<rparr>),
                      upcoming_bytes := upcoming_bytes sq1 + len\<rparr>
        in if min_clock (hd msgs') < need_kick_clock sq2
           then kick_bg_thread (sq2\<lparr>need_kick_clock := 0\<rparr>) else sq2)"

definition serialqueue_send_one :: "nat \<Rightarrow> queue_message \<Rightarrow> serialqueue \<Rightarrow> serialqueue" where
  "serialqueue_send_one cq qm sq = serialqueue_send_batch cq [qm] sq"

definition serialqueue_send :: "nat \<Rightarrow> u8 list \<Rightarrow> u64 \<Rightarrow> u64 \<Rightarrow> u64 \<Rightarrow> serialqueue \<Rightarrow> serialqueue option" where
  "serialqueue_send cq msg minc reqc nid sq = (case message_fill msg of
     None \<Rightarrow> None
   | Some qm \<Rightarrow> Some (serialqueue_send_one cq (qm\<lparr>min_clock := minc, req_clock := reqc, notify_id := nid\<rparr>) sq))"

datatype pull_result = PullWait | PullExit | Pulled "u8 list" real real u64

definition serialqueue_pull :: "serialqueue \<Rightarrow> pull_result \<times> serialqueue" where
  "serialqueue_pull sq = (case receive_queue sq of
     [] \<Rightarrow> if pollreactor_is_exit sq then (PullExit, sq) else (PullWait, sq\<lparr>receive_waiting := True\<rparr>)
   | qm # rest \<Rightarrow>
       (Pulled (qm_msg qm) (sent_time qm) (receive_time qm) (notify_id qm),
        let sq1 = sq\<lparr>receive_queue := rest\<rparr>
        in if qm_msg qm \<noteq> [] then sq1\<lparr>old_receive := debug_queue_add (old_receive sq1) qm\<rparr> else sq1))"

definition serialqueue_set_wire_frequency :: "real \<Rightarrow> serialqueue \<Rightarrow> serialqueue" where
  "serialqueue_set_wire_frequency frequency sq =
     (if serial_fd_type sq = SQT_CAN then sq\<lparr>bittime_adjust := 1 / frequency\<rparr>
      else sq\<lparr>bittime_adjust := 10 / frequency\<rparr>)"

definition serialqueue_set_receive_window :: "int \<Rightarrow> serialqueue \<Rightarrow> serialqueue" where
  "serialqueue_set_receive_window w sq = sq\<lparr>receive_window := w\<rparr>"

definition serialqueue_set_clock_est :: "real \<Rightarrow> real \<Rightarrow> u64 \<Rightarrow> u64 \<Rightarrow> serialqueue \<Rightarrow> serialqueue" where
  "serialqueue_set_clock_est freq ctime cclock lclock sq =
     sq\<lparr>ce := \<lparr>last_clock = lclock, conv_clock = cclock, conv_time = ctime, est_freq = freq\<rparr>\<rparr>"

definition serialqueue_get_clock_est :: "serialqueue \<Rightarrow> clock_estimate" where
  "serialqueue_get_clock_est sq = ce sq"

definition serialqueue_extract_old :: "bool \<Rightarrow> nat \<Rightarrow> serialqueue \<Rightarrow> (u8 list \<times> real \<times> real) list \<times> serialqueue" where
  "serialqueue_extract_old sentq mx sq =
     (let current = (if sentq then old_sent sq else old_receive sq);
          found = take mx (filter (\<lambda>qm. qm_msg qm \<noteq> []) current)
      in (map (\<lambda>qm. (qm_msg qm, sent_time qm, receive_time qm)) found,
          if sentq then sq\<lparr>old_sent := debug_queue_alloc [] DEBUG_QUEUE_SENT\<rparr>
          else sq\<lparr>old_receive := debug_queue_alloc [] DEBUG_QUEUE_RECEIVE\<rparr>))"

end
