(* ===== verification/Dispatch.thy ===== *)
theory Dispatch
  imports Framing
begin

text \<open>
  Reading an accepted block is safe, the search for a block always makes progress, and the
  dispatch of a block visits its commands to the end.
\<close>

subsection \<open>Parsing stays inside the block\<close>

lemma sync_stops: "MESSAGE_SYNC AND 0x80 = 0"
  by (simp add: MESSAGE_SYNC_def)

text \<open>
  The parser never reads behind the block's sync byte: a quantity that runs into the
  trailer ends there at the latest.
\<close>

lemma parsef_loop_safe:
  assumes e: "e < length buf" "buf ! e AND 0x80 = 0" and "maxend \<le> e" "p \<le> e + 1"
  shows "case parsef_loop buf maxend ts p args m of
      Ok r m' \<Rightarrow> m' = m \<and> p \<le> snd r \<and> snd r \<le> e + 1
    | Shutdown s m' \<Rightarrow> s = ''Command parser error'' \<and> m' = m\<lparr>irq_on := False\<rparr>
    | Undef \<Rightarrow> False"
  using assms(4)
proof (induction ts arbitrary: p args)
  case Nil
  then show ?case by simp
next
  case (Cons t ts)
  show ?case
  proof (cases "p > maxend")
    case True
    then show ?thesis by (simp add: sched_shutdown_def)
  next
    case False
    then have p: "p \<le> e" using assms(3) by simp
    consider (int) "int_param t" | (buf) "\<not> int_param t" "t = PT_buffer" | (other) "\<not> int_param t" "t \<noteq> PT_buffer"
      by blast
    then show ?thesis
    proof cases
      case int
      obtain v q where q: "parse_int buf p = Some (v, q)" "p < q" "q \<le> e + 1"
        using parse_int_bounded [OF p e] by blast
      then show ?thesis using Cons.IH [of q "args @ [v]"] False int
        by (auto split: res.splits)
    next
      case buf
      show ?thesis
      proof (cases "p + 1 + unat (buf ! p) > maxend")
        case True
        then show ?thesis using False buf p e by (simp add: sched_shutdown_def Let_def)
      next
        case fits: False
        have "p < length buf" using p e by simp
        moreover have "\<not> int_param PT_buffer" using buf by simp
        ultimately show ?thesis
          using Cons.IH [of "p + 1 + unat (buf ! p)" "args @ [of_nat (unat (buf ! p)), of_nat (p + 1)]"]
            False buf(2) fits assms(3)
          by (auto simp: Let_def split: res.splits)
      qed
    next
      case other
      then show ?thesis using False by (simp add: sched_shutdown_def)
    qed
  qed
qed

lemma dispatch_loop_defined:
  fixes run :: "'f \<Rightarrow> u32 list \<Rightarrow> ('e, unit) mfw"
  assumes e: "e < length buf" "buf ! e AND 0x80 = 0" and "msgend \<le> e"
    and run: "\<And>f args m. run f args m \<noteq> Undef" and "msgend \<le> p + n" "p \<le> e + 1"
  shows "dispatch_loop run index buf msgend n p m \<noteq> Undef"
  using assms(5,6)
proof (induction n arbitrary: p m)
  case 0
  then show ?case by simp
next
  case (Suc n)
  show ?case
  proof (cases "p < msgend")
    case True
    have len: "p < length buf" using True assms(3) e by simp
    show ?thesis
    proof (cases "command_lookup_parser index (buf ! p) m")
      case lookup: (Ok cp m1)
      have "case command_parsef buf (p + 1) msgend cp m1 of
          Ok r m' \<Rightarrow> m' = m1 \<and> p + 1 \<le> snd r \<and> snd r \<le> e + 1
        | Shutdown s m' \<Rightarrow> s = ''Command parser error'' \<and> m' = m1\<lparr>irq_on := False\<rparr>
        | Undef \<Rightarrow> False"
        unfolding command_parsef_def by (rule parsef_loop_safe [OF e assms(3)]) (use True assms(3) in simp)
      moreover have "dispatch_loop run index buf msgend n q m2 \<noteq> Undef" if "p + 1 \<le> q" "q \<le> e + 1" for q m2
        by (rule Suc.IH) (use that Suc.prems in auto)
      ultimately show ?thesis
        using True len lookup run
        by (auto simp: bnd_app thn_app irq_poll_def sched_report_shutdown_def split: res.splits)
    next
      case (Shutdown r m1)
      then show ?thesis using True len by simp
    next
      case Undef
      then show ?thesis by (auto simp: command_lookup_parser_def sched_shutdown_def split: if_splits)
    qed
  qed simp
qed

subsection \<open>Progress of the block search\<close>

lemma find_sync_bound: "find_sync buf = Some i \<Longrightarrow> i < length buf \<and> buf ! i = MESSAGE_SYNC"
  by (induction buf arbitrary: i) (auto split: if_splits)

lemma find_sync_None: "find_sync buf = None \<longleftrightarrow> MESSAGE_SYNC \<notin> set buf"
  by (induction buf) auto

lemma need_sync_progress:
  assumes "buf \<noteq> []"
  shows "\<exists>n m'. find_block_need_sync buf m = Ok (-1, n) m' \<and> 1 \<le> n \<and> n \<le> length buf"
  using assms find_sync_bound [of buf]
  by (cases "find_sync buf") (auto simp: find_block_need_sync_def send_acknak_def bnd_app thn_app Suc_le_eq)

lemma error_progress:
  assumes "buf \<noteq> []"
  shows "\<exists>n m'. find_block_error buf m = Ok (-1, n) m' \<and> 1 \<le> n \<and> n \<le> length buf"
proof (cases "buf ! 0 = MESSAGE_SYNC")
  case True
  then show ?thesis using assms by (auto simp: find_block_error_def Suc_le_eq)
next
  case False
  then show ?thesis
    using need_sync_progress [OF assms, of "m\<lparr>sync_state := sync_state m OR CF_NEED_SYNC\<rparr>"]
    by (simp add: find_block_error_def)
qed

lemma find_block_cases:
  obtains (more) "length buf < 64" "command_find_block buf m = Ok (0, 0) m"
  | (valid) "valid_block buf" "sync_state m AND CF_NEED_SYNC = 0"
  | (error) "buf \<noteq> []" "command_find_block buf m = find_block_error buf m"
  | (sync) "buf \<noteq> []" "command_find_block buf m = find_block_need_sync buf m"
proof -
  have "(length buf < 64 \<and> command_find_block buf m = Ok (0, 0) m) \<or>
     (valid_block buf \<and> sync_state m AND CF_NEED_SYNC = 0) \<or>
     (buf \<noteq> [] \<and> command_find_block buf m = find_block_error buf m) \<or>
     (buf \<noteq> [] \<and> command_find_block buf m = find_block_need_sync buf m)"
  proof (cases "buf \<noteq> [] \<and> sync_state m AND CF_NEED_SYNC \<noteq> 0")
    case True
    then show ?thesis by (simp add: command_find_block_def)
  next
    case False
    show ?thesis
    proof (cases "length buf < MESSAGE_MIN")
      case True
      then show ?thesis using False by (auto simp: command_find_block_def message_consts)
    next
      case len: False
      then have ne: "buf \<noteq> []" by (auto simp: message_consts)
      then have s: "sync_state m AND CF_NEED_SYNC = 0" using False by simp
      let ?n = "unat (buf ! MESSAGE_POS_LEN)"
      consider "?n < MESSAGE_MIN \<or> MESSAGE_MAX < ?n"
        | "\<not> (?n < MESSAGE_MIN \<or> MESSAGE_MAX < ?n)" "buf ! MESSAGE_POS_SEQ AND NOT MESSAGE_SEQ_MASK \<noteq> MESSAGE_DEST"
        | "\<not> (?n < MESSAGE_MIN \<or> MESSAGE_MAX < ?n)" "buf ! MESSAGE_POS_SEQ AND NOT MESSAGE_SEQ_MASK = MESSAGE_DEST"
          "length buf < ?n"
        | "\<not> (?n < MESSAGE_MIN \<or> MESSAGE_MAX < ?n)" "buf ! MESSAGE_POS_SEQ AND NOT MESSAGE_SEQ_MASK = MESSAGE_DEST"
          "\<not> length buf < ?n" by blast
      then show ?thesis
      proof cases
        case 4
        then show ?thesis
          using len ne s by (auto simp: command_find_block_def valid_block_def Let_def)
      qed (use len ne s in \<open>auto simp: command_find_block_def Let_def MESSAGE_MAX_def\<close>)
    qed
  qed
  then show thesis using that by blast
qed

lemma accepted_block:
  assumes "valid_block buf" and "sync_state m AND CF_NEED_SYNC = 0" and "buf ! 1 = next_sequence m"
  shows "\<exists>m'. command_find_block buf m = Ok (1, unat (buf ! 0)) m'"
  using command_find_block_valid [OF assms(1,2)] assms(3) by (simp add: Let_def)

lemma skipped_block:
  assumes "valid_block buf" and "sync_state m AND CF_NEED_SYNC = 0" and "buf ! 1 \<noteq> next_sequence m"
  shows "\<exists>m'. command_find_block buf m = Ok (-1, unat (buf ! 0)) m'"
  using command_find_block_valid [OF assms(1,2)] assms(3) by (simp add: Let_def send_acknak_def thn_app)

lemma valid_block_found:
  assumes v: "valid_block buf" and s: "sync_state m AND CF_NEED_SYNC = 0"
  shows "\<exists>r n m'. command_find_block buf m = Ok (r, n) m' \<and>
     (if r = 0 then n = 0 \<and> length buf < 64 \<and> m' = m else 1 \<le> n \<and> n \<le> length buf) \<and>
     (r = 1 \<longleftrightarrow> valid_block buf \<and> sync_state m AND CF_NEED_SYNC = 0 \<and> buf ! 1 = next_sequence m)"
proof -
  have n: "1 \<le> unat (buf ! 0)" "unat (buf ! 0) \<le> length buf" using valid_blockD(1,3) [OF v] by simp_all
  show ?thesis
  proof (cases "buf ! 1 = next_sequence m")
    case True
    then obtain m' where "command_find_block buf m = Ok (1, unat (buf ! 0)) m'"
      using accepted_block [OF v s] by blast
    then show ?thesis
      using n v s True by (intro exI [of _ 1] exI [of _ "unat (buf ! 0)"] exI [of _ m']) simp
  next
    case False
    then obtain m' where "command_find_block buf m = Ok (-1, unat (buf ! 0)) m'"
      using skipped_block [OF v s] by blast
    then show ?thesis
      using n False by (intro exI [of _ "-1"] exI [of _ "unat (buf ! 0)"] exI [of _ m']) simp
  qed
qed

subsection \<open>Parameters round trip\<close>

lemma parsef_loop_ints:
  assumes "\<forall>t \<in> set ts. int_param t" and "length ts = length vs" and "ts \<noteq> [] \<Longrightarrow> vs \<noteq> []"
    and "length pre + length (concat (map encode_int vs)) \<le> maxend"
  shows "parsef_loop (pre @ concat (map encode_int vs) @ post) maxend ts (length pre) args m =
    Ok (args @ vs, length pre + length (concat (map encode_int vs))) m"
  using assms
proof (induction ts arbitrary: vs pre args)
  case Nil
  then show ?case by simp
next
  case (Cons t ts)
  then obtain v vs' where vs: "vs = v # vs'" by (cases vs) auto
  have "parse_int (pre @ encode_int v @ concat (map encode_int vs') @ post) (length pre) =
      Some (v, length pre + length (encode_int v))"
    by (rule parse_encode_int)
  moreover have "parsef_loop ((pre @ encode_int v) @ concat (map encode_int vs') @ post) maxend ts
      (length (pre @ encode_int v)) (args @ [v]) m =
      Ok ((args @ [v]) @ vs', length (pre @ encode_int v) + length (concat (map encode_int vs'))) m"
    by (rule Cons.IH) (use Cons.prems vs in auto)
  ultimately show ?case using Cons.prems vs by (simp add: add.assoc)
qed

subsection \<open>Properties\<close>

text \<open>
  A frame written by \<^verbatim>\<open>command_add_frame\<close> is a block that \<^verbatim>\<open>command_find_block\<close> recognises,
  whatever follows it in the buffer.  With the expected sequence number it is accepted with
  its exact length and the expected number moves on by one modulo 16; with any other it is
  skipped and answered with a negative acknowledgement.
\<close>

theorem framed_block_recognised:
  assumes "length pl \<le> 59" and "seq AND NOT 0x0f = 0x10" and "sync_state m AND CF_NEED_SYNC = 0"
    and "\<not> in_sendf m"
  shows "command_find_block (command_add_frame seq pl @ rest) m =
    (if seq = next_sequence m
     then Ok (1, length pl + 5) (m\<lparr>sync_state := sync_state m AND NOT CF_NEED_VALID,
            next_sequence := ((seq + 1) AND 0x0f) OR 0x10\<rparr>)
     else Ok (-1, length pl + 5) (m\<lparr>sync_state := sync_state m AND NOT CF_NEED_VALID,
            out := out m @ [Send ''acknak'' []]\<rparr>))"
  using command_find_block_valid [OF frame_valid(1) [OF assms(1,2), of rest] assms(3)] frame_nth
    frame_valid(2) [OF assms(1,2), of rest] assms(4)
  by (simp add: Let_def send_acknak_def thn_app)

definition sample_command :: command_state where
  "sample_command = command_init sample_config sample_board"

lemma sample_command_fields:
  "next_sequence sample_command = 0x10" "sync_state sample_command = 0" "\<not> in_sendf sample_command"
  "out sample_command = []"
  by (simp_all add: sample_command_def command_init_def basecmd_state.defs command_state.defs machine.defs
      basecmd_init_def sched_init_def)

theorem framed_block_recognised_witness:
  "\<exists>m'. command_find_block (command_add_frame 0x10 [1, 2, 3] @ [9]) sample_command = Ok (1, 8) m' \<and>
     next_sequence m' = 0x11"
  using framed_block_recognised [of "[1, 2, 3]" "0x10" sample_command "[9]"] sample_command_fields by simp

text \<open>
  C27: the search for a block always answers and never gets stuck.  For every buffer and
  every state it either asks for more data without consuming anything, which it does only
  while fewer than 64 bytes are there, or it consumes at least one byte and at most what is
  there; and it accepts a block only if length, destination, sync byte and checksum are
  right and its sequence number is the expected one.
\<close>

theorem command_find_block_progress:
  "\<exists>r n m'. command_find_block buf m = Ok (r, n) m' \<and>
     (if r = 0 then n = 0 \<and> length buf < 64 \<and> m' = m else 1 \<le> n \<and> n \<le> length buf) \<and>
     (r = 1 \<longleftrightarrow> valid_block buf \<and> sync_state m AND CF_NEED_SYNC = 0 \<and> buf ! 1 = next_sequence m)"
proof -
  let ?acc = "valid_block buf \<and> sync_state m AND CF_NEED_SYNC = 0 \<and> buf ! 1 = next_sequence m"
  have no: "\<not> ?acc" if "command_find_block buf m = Ok (r, n) m'" "r \<noteq> 1" for r n m'
    using accepted_block [of buf m] that by auto
  show ?thesis
  proof (cases rule: find_block_cases [of buf m])
    case more
    then show ?thesis using no [OF more(2)] by (intro exI [of _ 0] exI [of _ m]) simp
  next
    case valid
    then show ?thesis by (rule valid_block_found)
  next
    case error
    obtain n m' where e: "find_block_error buf m = Ok (-1, n) m'" "1 \<le> n" "n \<le> length buf"
      using error_progress [OF error(1), of m] by blast
    then show ?thesis
      using error no [of "-1" n m'] by (intro exI [of _ "-1"] exI [of _ n] exI [of _ m']) simp
  next
    case sync
    obtain n m' where e: "find_block_need_sync buf m = Ok (-1, n) m'" "1 \<le> n" "n \<le> length buf"
      using need_sync_progress [OF sync(1), of m] by blast
    then show ?thesis
      using sync no [of "-1" n m'] by (intro exI [of _ "-1"] exI [of _ n] exI [of _ m']) simp
  qed
qed

lemma damaged_not_valid:
  assumes "valid_block (pre @ a @ post)" and "pre \<noteq> []" and "length a = 2" and "length b = 2" and "a \<noteq> b"
    and "length pre + 2 \<le> unat (pre ! 0) - 3"
  shows "\<not> valid_block (pre @ b @ post)"
proof
  assume v: "valid_block (pre @ b @ post)"
  let ?n = "unat (pre ! 0)"
  have n: "unat ((pre @ c) ! 0) = ?n" for c using assms(2) by (simp add: nth_append)
  have idx: "(pre @ a @ post) ! i = (pre @ b @ post) ! i" if "length pre + 2 \<le> i" for i
  proof -
    have "\<not> i < length pre" "\<not> i - length pre < 2" using that by auto
    then show ?thesis using assms(3,4) by (simp add: nth_append)
  qed
  have "?n - 3 + 1 \<ge> length pre + 2" using assms(6) by simp
  then have "crc16_ccitt (pre @ a @ post) (?n - 3) = crc16_ccitt (pre @ b @ post) (?n - 3)"
    using valid_blockD(6) [OF assms(1)] valid_blockD(6) [OF v] n idx assms(6) by simp
  then show False using crc16_differs [OF assms(3-6)] by simp
qed

text \<open>
  C28: damage is noticed.  If the firmware accepts a block, the same bytes with up to two
  neighbouring bytes between the length byte and the checksum replaced by others are never
  accepted as a block, in no state.
\<close>

theorem damaged_block_rejected:
  assumes "command_find_block (pre @ a @ post) m0 = Ok (1, n0) m1" and "pre \<noteq> []"
    and "length a = 2" and "length b = 2" and "a \<noteq> b" and "length pre + 2 \<le> unat (pre ! 0) - 3"
  shows "command_find_block (pre @ b @ post) m \<noteq> Ok (1, n) m'"
  using damaged_not_valid [OF _ assms(2-6)] command_find_block_accepts [OF assms(1)]
    command_find_block_accepts [of "pre @ b @ post" m n m'] by blast

lemma sample_block: "command_add_frame 0x10 [1, 2, 3] = [8, 0x10, 1] @ [2, 3] @ drop 5 (command_add_frame 0x10 [1, 2, 3])"
  by (simp add: command_add_frame_def Let_def MESSAGE_MIN_def)

theorem damaged_block_rejected_witness:
  "\<forall>m n m'. command_find_block ([8, 0x10, 1] @ [7, 3] @ drop 5 (command_add_frame 0x10 [1, 2, 3])) (m :: command_state)
     \<noteq> Ok (1, n) m'"
proof -
  have v: "valid_block ([8, 0x10, 1] @ [2, 3] @ drop 5 (command_add_frame 0x10 [1, 2, 3]))"
    using frame_valid(1) [of "[1, 2, 3]" "0x10" "[]"] sample_block by simp
  obtain m' where "command_find_block ([8, 0x10, 1] @ [2, 3] @ drop 5 (command_add_frame 0x10 [1, 2, 3])) sample_command
      = Ok (1, unat (([8, 0x10, 1] @ [2, 3] @ drop 5 (command_add_frame 0x10 [1, 2, 3])) ! 0)) m'"
    using accepted_block [OF v, of sample_command] by (auto simp: sample_command_fields)
  then show ?thesis
    by (intro allI) (rule damaged_block_rejected [where a = "[2, 3]" and b = "[7, 3]"], assumption, simp_all)
qed

text \<open>
  C29: dispatching a block is memory safe and ends.  For every valid block, every table of
  commands and every command function that is itself defined, \<^verbatim>\<open>command_dispatch\<close> reads only
  bytes of the block, whatever the parameters in it are, and comes to an end (by returning or
  by a shutdown).
\<close>

theorem command_dispatch_safe:
  assumes "valid_block buf" and "\<And>f args m. run f args m \<noteq> Undef"
  shows "command_dispatch run index buf (unat (buf ! 0)) m \<noteq> Undef"
  unfolding command_dispatch_def
  by (rule dispatch_loop_defined [where e = "unat (buf ! 0) - 1"])
    (use valid_blockD [OF assms(1)] sync_stops assms(2) in \<open>auto simp: message_consts\<close>)

text \<open>The second command of the table takes a number and a string; its number goes on beyond the end of the block.\<close>

theorem command_dispatch_safe_witness:
  "command_dispatch (\<lambda>f args. ret ())
     [\<lparr>cp_num_args = 1, cp_in_shutdown = True, cp_params = [PT_uint32], cp_func = ()\<rparr>,
      \<lparr>cp_num_args = 3, cp_in_shutdown = True, cp_params = [PT_uint32, PT_buffer], cp_func = ()\<rparr>]
     (command_add_frame 0x10 [1, 0x81]) (unat (command_add_frame 0x10 [1, 0x81] ! 0)) sample_command \<noteq> Undef"
  by (rule command_dispatch_safe) (use frame_valid(1) [of "[1, 0x81]" "0x10" "[]"] in simp_all)

end
