(* ===== verification/Wire.thy ===== *)
theory Wire
  imports Serialqueue Dispatch
begin

text \<open>
  Host and firmware understand each other: they accept the same blocks, the blocks of one are
  accepted by the other, integers survive the way through a message, and clocks are
  converted without ambiguity.
\<close>

subsection \<open>Blocks\<close>

lemma msgblock_error_neg: "buf \<noteq> [] \<Longrightarrow> fst (msgblock_error buf) < 0"
  by (simp add: msgblock_error_def split: option.splits)

lemma msgblock_error_bound: "- int (length buf) \<le> fst (msgblock_error buf)"
  using find_sync_bound by (fastforce simp: msgblock_error_def split: option.splits)

lemma msgblock_check_valid:
  assumes "valid_block buf"
  shows "msgblock_check False buf = (int (unat (buf ! 0)), False)"
  using assms unfolding valid_block_def Let_def msgblock_check_def msgblock_crc16_eq
  by (simp add: MESSAGE_POS_LEN_def)

lemma msgblock_check_pos:
  assumes "0 < fst (msgblock_check ns buf)"
  shows "\<not> ns \<and> valid_block buf"
proof -
  have e: "\<not> 0 < fst (msgblock_error buf)" if "\<not> length buf < MESSAGE_MIN"
  proof -
    from that have "buf \<noteq> []" by (auto simp: MESSAGE_MIN_def)
    then show ?thesis using msgblock_error_neg [of buf] by simp
  qed
  show ?thesis
    using assms e unfolding valid_block_def Let_def msgblock_check_def msgblock_crc16_eq
    by (simp split: if_splits)
qed

lemma seq_byte_dest: "(MESSAGE_DEST OR to_u8 (s AND 0x0f)) AND NOT 0x0f = 0x10" for s :: u64
proof (rule bit_word_eqI)
  fix n assume "n < LENGTH(8)"
  then show "bit ((MESSAGE_DEST OR to_u8 (s AND 0x0f)) AND NOT 0x0f) n = bit (0x10 :: u8) n"
    by (auto simp: MESSAGE_DEST_def bit_simps bit_consts)
qed

lemma host_frame_add_frame: "host_frame seq acc = command_add_frame (MESSAGE_DEST OR to_u8 (seq AND 0x0f)) acc"
proof -
  have m: "to_u8 (c AND 0xff) = (to_u8 c :: u8)" for c :: u16
    by (rule bit_word_eqI) (simp add: bit_simps bit_consts)
  have a: "length acc + 2 + 3 = length acc + 5" "length acc + 5 - 3 = length acc + 2"
    "2 + length acc + 3 = length acc + 5" by simp_all
  show ?thesis
    unfolding host_frame_def command_add_frame_def Let_def message_consts msgblock_crc16_eq m a by simp
qed

text \<open>The byte on the wire that stands for a sequence number.\<close>

lemma and_0f: "x AND 0x0f = take_bit 4 x" for x :: "'a::len word"
  by (simp add: take_bit_eq_mask mask_eq_exp_minus_1)

lemma to_u8_of_nat: "to_u8 x = of_nat (unat x)"
  by (simp add: word_eq_iff_unsigned unsigned_ucast_eq unat_of_nat)

lemma unat_seq_nibble: "unat (s AND 0x0f) = unat s mod 16" for s :: u64
  unfolding and_0f by (subst unsigned_take_bit_eq) (simp_all add: take_bit_eq_mod)

lemma seq_byte: "MESSAGE_DEST OR to_u8 (s AND 0x0f) = of_nat (16 + unat s mod 16)" for s :: u64
proof -
  have "MESSAGE_DEST OR to_u8 (s AND 0x0f) = MESSAGE_DEST + to_u8 (s AND 0x0f)"
    by (rule disjunctive_add [symmetric]) (auto simp: MESSAGE_DEST_def bit_simps bit_consts)
  moreover have "to_u8 (s AND 0x0f) = (of_nat (unat s mod 16) :: u8)"
    using unat_seq_nibble [of s] by (metis to_u8_of_nat)
  ultimately show ?thesis by (simp add: MESSAGE_DEST_def)
qed

lemma next_nibble:
  assumes "k < 16"
  shows "((of_nat (16 + k) + 1 AND 0x0f) OR 0x10 :: u8) = of_nat (16 + (k + 1) mod 16)"
proof -
  have "k = 0 \<or> k = 1 \<or> k = 2 \<or> k = 3 \<or> k = 4 \<or> k = 5 \<or> k = 6 \<or> k = 7 \<or> k = 8 \<or> k = 9 \<or> k = 10
      \<or> k = 11 \<or> k = 12 \<or> k = 13 \<or> k = 14 \<or> k = 15" using assms by presburger
  then show ?thesis by auto
qed

lemma unat_u8_nibble: "unat (b AND 0x0f) = unat b mod 16" for b :: u8
  unfolding and_0f by (subst unsigned_take_bit_eq) (simp_all add: take_bit_eq_mod)

subsection \<open>Integers\<close>

lemma host_encode_int_eq: "host_encode_int v = encode_int v"
  by (simp add: host_encode_int_def encode_int_def Let_def)

lemma host_parse_loop_eq: "host_parse_loop buf p c v = parse_int_loop buf p c v"
  by (induction buf p c v rule: parse_int_loop.induct)
    (subst host_parse_loop.simps, subst parse_int_loop.simps, simp)

lemma host_parse_int_eq: "host_parse_int buf p = parse_int buf p"
  by (simp add: host_parse_int_def parse_int_def host_parse_loop_eq)

lemma decode_loop_ints:
  "decode_loop (length vs) (pre @ concat (map encode_int vs) @ post)
     (length pre + length (concat (map encode_int vs))) (length pre) acc = Some (Some (acc @ vs))"
proof (induction vs arbitrary: pre acc)
  case (Cons v vs)
  have "host_parse_int (pre @ encode_int v @ concat (map encode_int vs) @ post) (length pre) =
      Some (v, length pre + length (encode_int v))"
    unfolding host_parse_int_eq by (rule parse_encode_int)
  moreover have "encode_int v \<noteq> []" using encode_int_length(1) [of v] by auto
  ultimately show ?case using Cons.IH [of "pre @ encode_int v" "acc @ [v]"] by (simp add: add.assoc)
qed simp

lemma encode_loop_spec:
  "encode_loop vs acc = (if length (acc @ concat (map encode_int vs)) \<le> 59 \<or> vs = []
     then Some (acc @ concat (map encode_int vs)) else None)"
proof (induction vs arbitrary: acc)
  case (Cons v vs)
  show ?case
    unfolding encode_loop.simps Let_def host_encode_int_eq Cons.IH
    by (auto simp: message_consts MESSAGE_PAYLOAD_MAX_def)
qed simp

subsection \<open>Clocks\<close>

lemma take_bit_32_64:
  "take_bit 32 (take_bit 64 a + take_bit 64 b) = take_bit 32 (a + b)"
  "take_bit 32 (take_bit 64 a - take_bit 64 b) = take_bit 32 (a - b)"
  for a b :: int
  using take_bit_add [of 32 "take_bit 64 a" "take_bit 64 b"] take_bit_add [of 32 a b]
    take_bit_diff [of 32 "take_bit 64 a" "take_bit 64 b"] take_bit_diff [of 32 a b]
  by simp_all

lemma to_u32_add: "to_u32 (a + b) = to_u32 a + to_u32 b" for a b :: u64
  by transfer (simp add: take_bit_32_64 take_bit_add)

lemma to_u32_diff: "to_u32 (a - b) = to_u32 a - to_u32 b" for a b :: u64
  by transfer (simp add: take_bit_32_64 take_bit_diff)

lemma to_u32_scast: "to_u32 (scast d :: u64) = d" for d :: u32
  by transfer (simp add: take_bit_signed_take_bit)

lemma to_u32_to_u64: "to_u32 (to_u64 d) = d" for d :: u32
  by transfer simp

lemma sint_scast_u64: "sint (scast d :: u64) = sint d" for d :: u32
  by (simp add: sint_up_scast is_up)

lemma scast_to_u32:
  fixes x :: u64
  assumes "- (2 ^ 31) \<le> sint x" and "sint x < 2 ^ 31"
  shows "scast (to_u32 x :: u32) = x"
proof -
  have "sint (to_u32 x :: u32) = signed_take_bit 31 (sint x)"
    by transfer (simp add: signed_take_bit_take_bit)
  also have "\<dots> = sint x" using assms by (simp add: signed_take_bit_int_eq_self)
  finally have "sint (scast (to_u32 x :: u32) :: u64) = sint x" by (simp only: sint_scast_u64)
  then show ?thesis by (rule signed_word_eqI)
qed

lemma sint_u32_range: "- (2 ^ 31) \<le> sint d" "sint d < 2 ^ 31" for d :: u32
  using sint_range_size [of d] by (simp_all add: word_size)

lemma c_trunc_half: "c_trunc (real_of_int d + 1 / 2) = (if 0 \<le> d then d else d + 1)"
proof (cases "0 \<le> d")
  case True
  then show ?thesis by (simp add: c_trunc_def floor_eq_iff)
next
  case False
  then have "\<not> 0 \<le> real_of_int d + 1 / 2" by linarith
  moreover have "\<lfloor>- (real_of_int d + 1 / 2)\<rfloor> = - d - 1" by (simp add: floor_eq_iff)
  ultimately show ?thesis using False by (simp add: c_trunc_def)
qed

subsection \<open>Properties\<close>

text \<open>
  C34: host and firmware agree on what a block is.  For every buffer, the host's check reports
  a block of \<open>n\<close> bytes exactly if a firmware that is in sync and expects the block's sequence
  number takes the same \<open>n\<close> bytes as a block.
\<close>

theorem msgblock_check_agrees:
  assumes "sync_state m AND CF_NEED_SYNC = 0" and "next_sequence m = buf ! 1" and "0 < n"
  shows "msgblock_check False buf = (int n, False) \<longleftrightarrow> (\<exists>m'. command_find_block buf m = Ok (1, n) m')"
proof
  assume "msgblock_check False buf = (int n, False)"
  moreover from this have v: "valid_block buf" using assms(3) msgblock_check_pos [of False buf] by simp
  ultimately have n: "n = unat (buf ! 0)" using msgblock_check_valid [of buf] by (metis of_nat_eq_iff prod.inject)
  show "\<exists>m'. command_find_block buf m = Ok (1, n) m'"
    using command_find_block_valid [OF v assms(1)] assms(2) n by (simp add: Let_def)
next
  assume "\<exists>m'. command_find_block buf m = Ok (1, n) m'"
  then have "valid_block buf" "n = unat (buf ! 0)"
    using command_find_block_accepts by blast+
  then show "msgblock_check False buf = (int n, False)" by (simp add: msgblock_check_valid)
qed

theorem msgblock_check_agrees_witness:
  "msgblock_check False (command_add_frame 0x10 [1, 2, 3]) = (8, False) \<longleftrightarrow>
     (\<exists>m'. command_find_block (command_add_frame 0x10 [1, 2, 3]) sample_command = Ok (1, 8) m')"
  using msgblock_check_agrees [of sample_command "command_add_frame 0x10 [1, 2, 3]" 8]
    frame_nth(2) [of "0x10" "[1, 2, 3]" "[]"] by (simp add: sample_command_fields)

text \<open>
  A block built by the host is taken by the firmware.  The block with sequence number
  \<open>seq\<close> and contents \<open>acc\<close>, followed by anything, is accepted by a firmware that expects that
  number; the firmware then expects the number of the next block, and the contents stand
  behind the header.
\<close>

theorem host_block_accepted:
  assumes "length acc \<le> 59" and "sync_state m AND CF_NEED_SYNC = 0"
    and "next_sequence m = of_nat (16 + unat seq mod 16)"
  shows "command_find_block (host_frame seq acc @ rest) m =
      Ok (1, length acc + 5) (m\<lparr>sync_state := sync_state m AND NOT CF_NEED_VALID,
        next_sequence := of_nat (16 + (unat seq + 1) mod 16)\<rparr>) \<and>
    take (length acc) (drop 2 (host_frame seq acc @ rest)) = acc"
proof -
  let ?b = "of_nat (16 + unat seq mod 16) :: u8"
  have f: "host_frame seq acc = command_add_frame ?b acc"
    unfolding host_frame_add_frame seq_byte ..
  have d: "?b AND NOT 0x0f = 0x10" using seq_byte_dest [of seq] unfolding seq_byte .
  have nx: "(?b + 1 AND 0x0f) OR 0x10 = of_nat (16 + (unat seq + 1) mod 16)"
    using next_nibble [of "unat seq mod 16"] by (simp add: mod_Suc_eq)
  have c: "take (length acc) (drop 2 (host_frame seq acc @ rest)) = acc"
    unfolding f frame_split Let_def by simp
  show ?thesis
    using command_find_block_valid [OF frame_valid(1) [OF assms(1) d, of rest] assms(2)]
      frame_valid(2) [OF assms(1) d, of rest] assms(3) c
    unfolding f frame_nth Let_def nx by simp
qed

theorem host_block_accepted_witness:
  "command_find_block (host_frame 16 [1, 2, 3] @ [0x7e]) sample_command =
      Ok (1, 8) (sample_command\<lparr>sync_state := 0, next_sequence := 0x11\<rparr>) \<and>
    take 3 (drop 2 (host_frame 16 [1, 2, 3] @ [0x7e])) = [1, 2, 3]"
  using host_block_accepted [of "[1, 2, 3]" sample_command 16 "[0x7e]"]
  by (simp add: sample_command_fields numeral_3_eq_3)

lemma encode_int_small: "cmd < 96 \<Longrightarrow> encode_int cmd = [to_u8 cmd]"
proof -
  assume c: "cmd < 96"
  then have u: "unat cmd < 96" by (simp add: word_less_nat_alt)
  have "unat cmd < 128" using u by simp
  then have "take_bit 7 cmd = cmd" by (simp add: word_unat_eq_iff unsigned_take_bit_eq take_bit_nat_eq_self)
  then have a: "cmd AND 0x7f = cmd" using take_bit_eq_mask [of 7 cmd] by (simp add: mask_numeral)
  have b: "0 \<le> uint cmd" "uint cmd < 96" using c by (simp_all add: word_less_def)
  have "- 2147483648 \<le> uint cmd" using b(1) by linarith
  then have "sint cmd = uint cmd" unfolding sint_uint using b(2) by (simp add: signed_take_bit_int_eq_self)
  moreover have "- 32 \<le> uint cmd" using b(1) by linarith
  ultimately show ?thesis using b(2) by (simp add: encode_int_def a Let_def)
qed

text \<open>
  C35: integers survive the way through a message.  What \<^verbatim>\<open>message_alloc_and_encode\<close> makes of
  numbers that fit into a block is decoded by the host's \<^verbatim>\<open>msgblock_decode\<close>, from the block that is sent, to
  the same numbers.  If the first of them is the number of a command, below 96, then the firmware finds it in the byte
  after the header, wherever the block is followed by others in its buffer, and its \<^verbatim>\<open>command_parsef\<close> reads the other
  numbers as the arguments of a command that takes that many integers, up to the trailer of the block.
\<close>

theorem encode_decode_roundtrip:
  assumes "length (concat (map encode_int vs)) \<le> 59"
    and buf: "buf = host_frame seq (qm_msg (message_alloc_and_encode vs))"
  shows "msgblock_decode (length vs) buf (length buf) = Some (Some vs) \<and>
    (vs = cmd # args \<and> cmd < 96 \<and> length (cp_params cp) = length args \<and> list_all int_param (cp_params cp) \<longrightarrow>
       (buf @ rest) ! MESSAGE_HEADER_SIZE = to_u8 cmd \<and>
       command_parsef (buf @ rest) (MESSAGE_HEADER_SIZE + 1) (length buf - MESSAGE_TRAILER_SIZE) cp m =
         Ok (args, length buf - MESSAGE_TRAILER_SIZE) m)"
proof -
  have m: "qm_msg (message_alloc_and_encode vs) = concat (map encode_int vs)"
    using assms(1) by (simp add: message_alloc_and_encode_def encode_loop_spec)
  let ?b = "MESSAGE_DEST OR to_u8 (seq AND 0x0f)" and ?p = "concat (map encode_int vs)"
  define h where "h = [of_nat (length ?p + 5), ?b]"
  have h: "length h = 2" by (simp add: h_def)
  obtain t where t: "host_frame seq ?p = h @ ?p @ t"
    unfolding host_frame_add_frame frame_split Let_def h_def by simp
  have l: "length buf = length ?p + 5" unfolding buf m host_frame_add_frame by simp
  have bt: "buf = h @ ?p @ t" unfolding buf m t ..
  have e: "length ?p + 5 - 3 = length h + length ?p" by (simp add: h)
  have "msgblock_decode (length vs) buf (length buf) = Some (Some vs)"
    using decode_loop_ints [of vs h t "[]"]
    unfolding msgblock_decode_def l message_consts e unfolding bt h by simp
  moreover have "(buf @ rest) ! MESSAGE_HEADER_SIZE = to_u8 cmd \<and>
      command_parsef (buf @ rest) (MESSAGE_HEADER_SIZE + 1) (length buf - MESSAGE_TRAILER_SIZE) cp m =
        Ok (args, length buf - MESSAGE_TRAILER_SIZE) m"
    if v: "vs = cmd # args" "cmd < 96" "length (cp_params cp) = length args" "list_all int_param (cp_params cp)"
  proof -
    have p: "?p = to_u8 cmd # concat (map encode_int args)" using encode_int_small [OF v(2)] v(1) by simp
    have f: "buf @ rest = (h @ [to_u8 cmd]) @ concat (map encode_int args) @ (t @ rest)" by (simp add: bt p)
    have "(buf @ rest) ! 2 = to_u8 cmd" unfolding f using h by (simp add: nth_append)
    moreover have "parsef_loop (buf @ rest) (length ?p + 2) (cp_params cp) (length (h @ [to_u8 cmd])) [] m =
        Ok ([] @ args, length (h @ [to_u8 cmd]) + length (concat (map encode_int args))) m"
      unfolding f by (rule parsef_loop_ints) (use v(3,4) in \<open>auto simp: h p list_all_iff\<close>)
    ultimately show ?thesis unfolding command_parsef_def l message_consts by (simp add: h p eval_nat_numeral)
  qed
  ultimately show ?thesis by blast
qed

text \<open>The command \<^verbatim>\<open>queue_step\<close> with three of its arguments.\<close>

theorem encode_decode_roundtrip_witness:
  "\<exists>buf. buf = host_frame 1 (qm_msg (message_alloc_and_encode [5, 100000, 3000000000])) \<and>
    msgblock_decode 3 buf (length buf) = Some (Some [5, 100000, 3000000000]) \<and>
    command_parsef (buf @ [0x7e]) 3 (length buf - 3)
      \<lparr>cp_num_args = 2, cp_in_shutdown = False, cp_params = [PT_uint32, PT_uint32], cp_func = ()\<rparr> sample_command =
      Ok ([100000, 3000000000], length buf - 3) sample_command"
proof -
  have "length (concat (map encode_int [5, 100000, 3000000000])) \<le> 59"
    using encode_int_length(2) [of 5] encode_int_length(2) [of 100000] encode_int_length(2) [of 3000000000]
    by simp
  from encode_decode_roundtrip [OF this refl, of 1 5 "[100000, 3000000000]"
      "\<lparr>cp_num_args = 2, cp_in_shutdown = False, cp_params = [PT_uint32, PT_uint32], cp_func = ()\<rparr>" "[0x7e]" sample_command]
  show ?thesis by (simp add: numeral_3_eq_3 message_consts int_param_def)
qed

text \<open>
  The extension of a 32 bit clock is the 64 bit clock with these low bits that lies
  within \<open>2 ^ 31\<close> ticks of the last known clock, and there is only one.
\<close>

theorem clock_from_clock32_nearest:
  "c = clock_from_clock32 est t \<longleftrightarrow>
     to_u32 c = t \<and> - (2 ^ 31) \<le> sint (c - last_clock est) \<and> sint (c - last_clock est) < 2 ^ 31"
proof
  assume c: "c = clock_from_clock32 est t"
  then have "c - last_clock est = scast (to_u32 (to_u64 t - last_clock est) :: u32)"
    by (simp add: clock_from_clock32_def)
  moreover have "to_u32 c = t"
    unfolding c clock_from_clock32_def to_u32_add to_u32_scast to_u32_diff to_u32_to_u64 by simp
  ultimately show "to_u32 c = t \<and> - (2 ^ 31) \<le> sint (c - last_clock est) \<and> sint (c - last_clock est) < 2 ^ 31"
    by (simp only: sint_scast_u64 sint_u32_range simp_thms)
next
  assume r: "to_u32 c = t \<and> - (2 ^ 31) \<le> sint (c - last_clock est) \<and> sint (c - last_clock est) < 2 ^ 31"
  then have "scast (to_u32 (c - last_clock est) :: u32) = c - last_clock est" by (intro scast_to_u32) auto
  moreover have "(to_u32 (c - last_clock est) :: u32) = to_u32 (to_u64 t - last_clock est)"
    using r unfolding to_u32_diff to_u32_to_u64 by simp
  ultimately show "c = clock_from_clock32 est t" by (simp add: clock_from_clock32_def)
qed

text \<open>
  C36: converting a clock to a time and back gives the clock again from the reference clock on,
  but the following clock for every clock before it: adding one half and dropping the
  fraction rounds to the nearest clock only for times that are not before the reference.
\<close>

theorem clock_time_roundtrip:
  assumes "0 < est_freq est"
  shows "clock_from_time est (clock_to_time est c) = (if 0 \<le> sint (c - conv_clock est) then c else c + 1)"
proof -
  let ?d = "sint (c - conv_clock est)"
  have "(clock_to_time est c - conv_time est) * est_freq est = real_of_int ?d"
    using assms by (simp add: clock_to_time_def)
  then have "clock_from_time est (clock_to_time est c) =
      word_of_int (if 0 \<le> ?d then ?d else ?d + 1) + conv_clock est"
    unfolding clock_from_time_def by (simp only: c_trunc_half)
  also have "\<dots> = (if 0 \<le> ?d then c else c + 1)"
    by simp
  finally show ?thesis .
qed

theorem clock_time_roundtrip_witness:
  "clock_from_time \<lparr>last_clock = 1000, conv_clock = 1000, conv_time = 2, est_freq = 16000000\<rparr>
     (clock_to_time \<lparr>last_clock = 1000, conv_clock = 1000, conv_time = 2, est_freq = 16000000\<rparr> 990) = 991"
  using clock_time_roundtrip [of "\<lparr>last_clock = 1000, conv_clock = 1000, conv_time = 2, est_freq = 16000000\<rparr>" 990]
  by simp

end
