(* ===== verification/Link.thy ===== *)
theory Link
  imports Go_Back_N Wire
begin

text \<open>
  The serial link from end to end: the host's \<^verbatim>\<open>command_event\<close>, \<^verbatim>\<open>retransmit_event\<close> and
  \<^verbatim>\<open>handle_message\<close> (\<^verbatim>\<open>serialqueue.c\<close>) on one side, the firmware's \<^verbatim>\<open>command_find_block\<close>
  (\<^verbatim>\<open>command.c\<close>) on the other, and two lines in between that keep the order of blocks but may lose
  any of them.  The link refines the protocol of \<^verbatim>\<open>Go_Back_N\<close> with a window of twelve blocks and
  numbers modulo sixteen.
\<close>

subsection \<open>What the sender does\<close>

text \<open>The state of the sender the protocol depends on.\<close>

definition core :: "serialqueue \<Rightarrow> u64 \<times> u64 \<times> queue_message list" where
  "core sq = (send_seq sq, receive_seq sq, sent_queue sq)"

text \<open>The bytes written to the serial port so far.\<close>

primrec event_bytes :: "sq_event \<Rightarrow> u8 list" where
  "event_bytes CondSignal = []"
| "event_bytes KickPipe = []"
| "event_bytes (Written b) = b"
| "event_bytes (WrittenCan i b) = b"
| "event_bytes FlushOutput = []"
| "event_bytes (FastRead i b) = []"

definition wire_bytes :: "serialqueue \<Rightarrow> u8 list" where
  "wire_bytes sq = concat (map event_bytes (sq_out sq))"

lemma update_timer_keeps [simp]:
  "send_seq (pollreactor_update_timer i t sq) = send_seq sq"
  "receive_seq (pollreactor_update_timer i t sq) = receive_seq sq"
  "sent_queue (pollreactor_update_timer i t sq) = sent_queue sq"
  "sq_out (pollreactor_update_timer i t sq) = sq_out sq"
  "rtt_sample_seq (pollreactor_update_timer i t sq) = rtt_sample_seq sq"
  "notify_queue (pollreactor_update_timer i t sq) = notify_queue sq"
  "input_buf (pollreactor_update_timer i t sq) = input_buf sq"
  by (simp_all add: pollreactor_update_timer_def Let_def)

lemma core_upd [simp]:
  "core (sq\<lparr>bytes_read := x_0\<rparr>) = core sq"
  "core (sq\<lparr>receive_queue := x_1\<rparr>) = core sq"
  "core (sq\<lparr>last_ack_seq := x_2\<rparr>) = core sq"
  "core (sq\<lparr>bytes_retransmit := x_3\<rparr>) = core sq"
  "core (sq\<lparr>ignore_nak_seq := x_4\<rparr>) = core sq"
  "core (sq\<lparr>rto := x_5\<rparr>) = core sq"
  "core (sq\<lparr>retransmit_seq := x_6\<rparr>) = core sq"
  "core (sq\<lparr>rtt_sample_seq := x_7\<rparr>) = core sq"
  "core (sq\<lparr>idle_time := x_8\<rparr>) = core sq"
  "core (sq\<lparr>sq_out := x_9\<rparr>) = core sq"
  "core (sq\<lparr>receive_waiting := x_10\<rparr>) = core sq"
  "core (sq\<lparr>bytes_write := x_11\<rparr>) = core sq"
  "core (sq\<lparr>need_kick_clock := x_12\<rparr>) = core sq"
  "core (sq\<lparr>notify_queue := x_13\<rparr>) = core sq"
  "core (sq_emit e sq) = core sq"
  "core (pollreactor_update_timer i t sq) = core sq"
  by (simp_all add: core_def sq_emit_def)

lemma wire_upd [simp]:
  "wire_bytes (sq\<lparr>bytes_read := x_0\<rparr>) = wire_bytes sq"
  "wire_bytes (sq\<lparr>receive_queue := x_1\<rparr>) = wire_bytes sq"
  "wire_bytes (sq\<lparr>last_ack_seq := x_2\<rparr>) = wire_bytes sq"
  "wire_bytes (sq\<lparr>bytes_retransmit := x_3\<rparr>) = wire_bytes sq"
  "wire_bytes (sq\<lparr>ignore_nak_seq := x_4\<rparr>) = wire_bytes sq"
  "wire_bytes (sq\<lparr>rto := x_5\<rparr>) = wire_bytes sq"
  "wire_bytes (sq\<lparr>retransmit_seq := x_6\<rparr>) = wire_bytes sq"
  "wire_bytes (sq\<lparr>rtt_sample_seq := x_7\<rparr>) = wire_bytes sq"
  "wire_bytes (sq\<lparr>idle_time := x_8\<rparr>) = wire_bytes sq"
  "wire_bytes (sq\<lparr>receive_waiting := x_10\<rparr>) = wire_bytes sq"
  "wire_bytes (sq\<lparr>bytes_write := x_11\<rparr>) = wire_bytes sq"
  "wire_bytes (sq\<lparr>need_kick_clock := x_12\<rparr>) = wire_bytes sq"
  "wire_bytes (sq\<lparr>notify_queue := x_13\<rparr>) = wire_bytes sq"
  "wire_bytes (sq_emit FlushOutput sq) = wire_bytes sq"
  by (simp_all add: wire_bytes_def sq_emit_def)

lemma sent_queue_emit [simp]: "sent_queue (sq_emit e sq) = sent_queue sq"
  by (simp add: sq_emit_def)

lemma can_frames_bytes: "concat (map event_bytes (can_frames cid b)) = b"
  by (induction cid b rule: can_frames.induct) simp_all

lemma do_write_keeps [simp]:
  "core (do_write b sq) = core sq" "wire_bytes (do_write b sq) = wire_bytes sq @ b"
  by (simp_all add: do_write_def core_def wire_bytes_def sq_emit_def can_frames_bytes)

lemma fill_block_keeps:
  assumes "fill_block n acc sq = Some (acc', sq')" and "length acc \<le> 59"
  shows "core sq' = core sq \<and> sq_out sq' = sq_out sq \<and> length acc' \<le> 59"
  using assms
proof (induction n arbitrary: acc sq)
  case 0
  then show ?case by (auto split: if_splits)
next
  case (Suc n)
  show ?case
  proof (cases "ready_bytes sq = 0")
    case True
    then show ?thesis using Suc.prems by simp
  next
    case False
    then obtain cq qm where f: "find_min (cqs sq) (pending_queues sq) MAX_CLOCK None = Some (cq, qm)"
      using Suc.prems(1) by (auto split: option.splits)
    show ?thesis
    proof (cases "MESSAGE_HEADER_SIZE + length acc + qm_len qm > MESSAGE_MAX - MESSAGE_TRAILER_SIZE")
      case True
      then show ?thesis using Suc.prems False f by simp
    next
      case fits: False
      obtain sq1 where r: "fill_block n (acc @ qm_msg qm) sq1 = Some (acc', sq')"
        and k: "core sq1 = core sq" "sq_out sq1 = sq_out sq"
        using Suc.prems(1) False f fits by (fastforce simp: Let_def core_def)
      have "length (acc @ qm_msg qm) \<le> 59" using fits by (simp add: message_consts)
      from Suc.IH [OF r this] k show ?thesis by simp
    qed
  qed
qed

lemma build_and_send_command_block:
  assumes "build_and_send_command pend t sq = Some (blk, sq')"
  obtains acc qm where "length acc \<le> 59" "blk = host_frame (send_seq sq) acc" "qm_msg qm = blk"
    "core sq' = (send_seq sq + 1, receive_seq sq, sent_queue sq @ [qm])" "wire_bytes sq' = wire_bytes sq"
proof -
  obtain acc sq1 where f: "fill_block (ready_count sq) [] sq = Some (acc, sq1)"
    using assms by (auto simp: build_and_send_command_def split: option.splits)
  have k: "core sq1 = core sq" "sq_out sq1 = sq_out sq" "length acc \<le> 59"
    using fill_block_keeps [OF f] by auto
  then have c: "send_seq sq1 = send_seq sq" "receive_seq sq1 = receive_seq sq" "sent_queue sq1 = sent_queue sq"
    by (simp_all add: core_def)
  show thesis
    by (rule that [OF k(3), of "last (sent_queue sq')"])
      (use assms f c k(2) in \<open>auto simp: build_and_send_command_def Let_def core_def wire_bytes_def\<close>)
qed

lemma check_queues_keeps:
  assumes "check_queues qs pend idle ack st mr sq = (st', mr', sq')"
  shows "core sq' = core sq \<and> sq_out sq' = sq_out sq"
  using assms
proof (induction qs arbitrary: st mr sq)
  case Nil
  then show ?case by simp
next
  case (Cons q qs)
  obtain up moved st1 where m: "move_upcoming ack (upcoming_queue (cqs sq q)) [] st = (up, moved, st1)"
    by (metis prod_cases3)
  show ?case using Cons.prems Cons.IH by (fastforce simp: Let_def m core_def)
qed

lemma check_send_command_keeps:
  assumes "check_send_command pend t sq = (w, sq')"
  shows "core sq' = core sq" "sq_out sq' = sq_out sq"
    and "w = PR_NOW \<Longrightarrow> send_seq sq - receive_seq sq < 12 \<or> receive_seq sq = - 1"
proof -
  let ?busy = "send_seq sq - receive_seq sq \<ge> of_nat MAX_PENDING_BLOCKS \<and> receive_seq sq \<noteq> - 1"
  obtain st mr sq1 where q: "check_queues (pending_queues sq) pend
      ((if t > idle_time sq then t else idle_time sq) + bittime sq (pend + MESSAGE_MIN))
      (clock_from_time (ce sq) ((if t > idle_time sq then t else idle_time sq) + bittime sq (pend + MESSAGE_MIN)))
      MAX_CLOCK MAX_CLOCK sq = (st, mr, sq1)"
    by (metis prod_cases3)
  have k: "core sq1 = core sq" "sq_out sq1 = sq_out sq" using check_queues_keeps [OF q] by simp_all
  have "sq' = sq \<or> sq' = sq1 \<or> (\<exists>c. sq' = sq1\<lparr>need_kick_clock := c\<rparr>)"
    using assms unfolding check_send_command_def Let_def q by (auto split: if_splits)
  then show "core sq' = core sq" "sq_out sq' = sq_out sq" using k by (auto simp: core_def)
  have "\<not> ?busy" if "w = PR_NOW"
  proof
    assume ?busy
    then have "w = PR_NEVER" using assms by (simp add: check_send_command_def)
    then show False using that by (simp add: PR_NOW_def PR_NEVER_def)
  qed
  then show "w = PR_NOW \<Longrightarrow> send_seq sq - receive_seq sq < 12 \<or> receive_seq sq = - 1"
    by (auto simp: MAX_PENDING_BLOCKS_def)
qed

text \<open>
  \<^verbatim>\<open>command_event\<close> appends the blocks it makes to the sent queue, numbered in sequence and never
  more than twelve beyond the last acknowledged one, and writes exactly these blocks.
\<close>

primrec blocks_from :: "nat \<Rightarrow> u8 list list \<Rightarrow> u8 list list" where
  "blocks_from i [] = []"
| "blocks_from i (a # accs) = host_frame (of_nat i) a # blocks_from (Suc i) accs"

lemma length_blocks_from [simp]: "length (blocks_from i accs) = length accs"
  by (induction accs arbitrary: i) simp_all

lemma nth_blocks_from: "k < length accs \<Longrightarrow> blocks_from i accs ! k = host_frame (of_nat (i + k)) (accs ! k)"
  by (induction accs arbitrary: i k) (simp_all add: nth_Cons ac_simps split: nat.splits)

lemma command_loop_sends:
  assumes "command_loop n t buf sq = Some (w, sq')"
    and "unat (receive_seq sq) \<le> unat (send_seq sq)" "unat (send_seq sq) \<le> unat (receive_seq sq) + 12"
    and "unat (receive_seq sq) < 2 ^ 63"
  shows "\<exists>accs. (\<forall>a\<in>set accs. length a \<le> 59) \<and> receive_seq sq' = receive_seq sq \<and>
    unat (send_seq sq') = unat (send_seq sq) + length accs \<and>
    unat (send_seq sq') \<le> unat (receive_seq sq) + 12 \<and>
    map qm_msg (sent_queue sq') = map qm_msg (sent_queue sq) @ blocks_from (unat (send_seq sq)) accs \<and>
    wire_bytes sq' = wire_bytes sq @ buf @ concat (blocks_from (unat (send_seq sq)) accs)"
  using assms
proof (induction n arbitrary: buf sq)
  case 0
  then show ?case by simp
next
  case (Suc n)
  obtain wk sq1 where c: "check_send_command (length buf) t sq = (wk, sq1)" by fastforce
  define flush where "flush = (wk \<noteq> PR_NOW \<or> length buf + MESSAGE_MAX > MESSAGE_MAX * MAX_PENDING_BLOCKS)"
  define sq2 where "sq2 = (if flush \<and> buf \<noteq> [] then
                   let sqw = do_write buf sq1;
                       sqb = sqw\<lparr>bytes_write := bytes_write sqw + of_nat (length buf)\<rparr>;
                       idletime = (if t > idle_time sqb then t else idle_time sqb)
                   in sqb\<lparr>idle_time := idletime + bittime sqb (length buf)\<rparr>
                 else sq1)"
  define buf' where "buf' = (if flush then [] else buf)"
  have step: "command_loop (Suc n) t buf sq = (if wk \<noteq> PR_NOW then Some (wk, sq2)
     else case build_and_send_command (length buf') t sq2 of None \<Rightarrow> None
       | Some (blk, sq3) \<Rightarrow> command_loop n t (buf' @ blk) sq3)"
    unfolding command_loop.simps Let_def c flush_def sq2_def buf'_def prod.case ..
  have k1: "core sq1 = core sq" "wire_bytes sq1 = wire_bytes sq"
    using check_send_command_keeps(1, 2) [OF c] by (simp_all add: wire_bytes_def)
  have k2: "core sq2 = core sq" "wire_bytes sq2 @ buf' = wire_bytes sq @ buf"
    using k1 do_write_keeps [of buf sq1] by (auto simp: sq2_def buf'_def Let_def core_def wire_bytes_def)
  show ?case
  proof (cases "wk = PR_NOW")
    case False
    then have "sq' = sq2" "buf' = []" using Suc.prems(1) step by (simp_all add: buf'_def flush_def)
    then show ?thesis using k2 Suc.prems(3) by (intro exI [of _ "[]"]) (simp add: core_def)
  next
    case True
    then obtain blk sq3 where b: "build_and_send_command (length buf') t sq2 = Some (blk, sq3)"
      and r: "command_loop n t (buf' @ blk) sq3 = Some (w, sq')"
      using Suc.prems(1) step by (auto split: option.splits)
    obtain acc qm where bb: "length acc \<le> 59" "blk = host_frame (send_seq sq2) acc" "qm_msg qm = blk"
      "core sq3 = (send_seq sq2 + 1, receive_seq sq2, sent_queue sq2 @ [qm])" "wire_bytes sq3 = wire_bytes sq2"
      using build_and_send_command_block [OF b] by metis
    have c3: "send_seq sq3 = send_seq sq + 1" "receive_seq sq3 = receive_seq sq"
      "sent_queue sq3 = sent_queue sq @ [qm]" "send_seq sq2 = send_seq sq"
      using bb(4) k2(1) by (simp_all add: core_def)
    have "receive_seq sq \<noteq> - 1"
      using Suc.prems(4) by (auto simp: unsigned_minus_1_eq_mask mask_eq_exp_minus_1)
    then have "send_seq sq - receive_seq sq < 12" using check_send_command_keeps(3) [OF c True] by simp
    then have lt: "unat (send_seq sq) < unat (receive_seq sq) + 12"
      using Suc.prems(2) by (simp add: word_less_nat_alt unat_sub_if_size split: if_splits)
    have s3: "unat (send_seq sq3) = Suc (unat (send_seq sq))"
      unfolding c3 using lt Suc.prems(4) by (subst unat_add_lem [THEN iffD1]) simp_all
    obtain accs where A: "\<forall>a\<in>set accs. length a \<le> 59" "receive_seq sq' = receive_seq sq3"
      "unat (send_seq sq') = unat (send_seq sq3) + length accs"
      "unat (send_seq sq') \<le> unat (receive_seq sq3) + 12"
      "map qm_msg (sent_queue sq') = map qm_msg (sent_queue sq3) @ blocks_from (unat (send_seq sq3)) accs"
      "wire_bytes sq' = wire_bytes sq3 @ (buf' @ blk) @ concat (blocks_from (unat (send_seq sq3)) accs)"
      using Suc.IH [OF r] Suc.prems(2-4) lt by (auto simp: s3 c3(2))
    have bl: "blocks_from (unat (send_seq sq)) (acc # accs) = blk # blocks_from (unat (send_seq sq3)) accs"
      by (simp add: s3 bb(2) c3(4))
    show ?thesis
    proof (intro exI [of _ "acc # accs"] conjI)
      show "wire_bytes sq' = wire_bytes sq @ buf @ concat (blocks_from (unat (send_seq sq)) (acc # accs))"
        unfolding bl using A(6) bb(5) k2(2) by (metis append_assoc concat.simps(2))
    qed (use A bb c3 s3 bl in simp_all)
  qed
qed

lemma retransmit_event_repeats:
  assumes "retransmit_event t sq = Some (w, sq')"
  shows "core sq' = core sq"
    and "wire_bytes sq' = wire_bytes sq @ MESSAGE_SYNC # concat (map qm_msg (sent_queue sq))"
  using assms by (auto simp: retransmit_event_def Let_def split: if_splits)

text \<open>An answer takes the blocks it acknowledges off the sent queue.\<close>

lemma ack_sent_pops:
  assumes "rseq = s + of_nat (Suc k)" and "Suc k \<le> length (sent_queue sq)" and "k < 16"
  shows "core (ack_sent rseq s sq) = (send_seq sq, receive_seq sq, drop (Suc k) (sent_queue sq))"
  using assms
proof (induction k arbitrary: s sq)
  case 0
  then obtain m rest where "sent_queue sq = m # rest" by (cases "sent_queue sq") auto
  then show ?case using 0 by (subst ack_sent.simps) (simp add: core_def Let_def)
next
  case (Suc k)
  then obtain m rest where q: "sent_queue sq = m # rest" by (cases "sent_queue sq") auto
  have "(of_nat (Suc (Suc k)) :: u64) \<noteq> 1"
  proof
    assume "(of_nat (Suc (Suc k)) :: u64) = 1"
    then have "unat (of_nat (Suc (Suc k)) :: u64) = 1" by (simp del: of_nat_Suc)
    then show False using Suc.prems(3) by (simp add: unat_of_nat take_bit_nat_eq_self del: of_nat_Suc)
  qed
  then have ne: "rseq \<noteq> s + 1" using Suc.prems(1) by (simp del: of_nat_Suc)
  let ?sq = "sq\<lparr>need_ack_bytes := need_ack_bytes sq - int (qm_len m), sent_queue := rest,
                    old_sent := debug_queue_add (old_sent sq) m\<rparr>"
  have "ack_sent rseq s sq = ack_sent rseq (s + 1) ?sq"
    using ne q by (subst ack_sent.simps) (simp add: Let_def)
  moreover have "rseq = s + 1 + of_nat (Suc k)" using Suc.prems(1) by simp
  ultimately show ?case using Suc.IH [of "s + 1" ?sq] Suc.prems(2, 3) q by simp
qed

lemma update_receive_seq_core:
  "core (update_receive_seq t rseq sq) =
     (let (s, r, q) = core (ack_sent rseq (receive_seq sq) sq) in (s, rseq, q))"
  by (simp add: update_receive_seq_def Let_def core_def update_rtt_def split: list.splits)

lemma notify_loop_core:
  "notify_loop ns t wseq sq mw = (sq', mw') \<Longrightarrow> core sq' = core sq"
  by (induction ns arbitrary: sq mw) (fastforce simp: core_def split: if_splits)+

lemma handle_message_core:
  assumes "handle_message now t len sq = Some sq'"
    and "rseq = wire_seq (receive_seq sq) (input_buf sq ! 1)" and "rseq \<le> send_seq sq"
  shows "core sq' = core (if rseq \<noteq> receive_seq sq then update_receive_seq t rseq sq else sq)"
proof -
  define sq1 where "sq1 = (if rseq \<noteq> receive_seq sq then update_receive_seq t rseq sq else sq)"
  define sq2 where "sq2 = sq1\<lparr>bytes_read := bytes_read sq1 + of_nat len\<rparr>"
  obtain sq3 mw where n: "notify_loop (notify_queue sq2) t
      (rseq - 1 - (if len > MESSAGE_MIN then 1 else 0)) sq2 False = (sq3, mw)" by fastforce
  have k3: "core sq3 = core sq1" using notify_loop_core [OF n] by (simp add: sq2_def core_def)
  have r: "wire_seq (receive_seq sq) (input_buf sq ! MESSAGE_POS_SEQ) = rseq"
    using assms(2) by (simp add: MESSAGE_POS_SEQ_def)
  have g: "(rseq \<noteq> receive_seq sq \<and> rseq > send_seq sq \<and> receive_seq sq \<noteq> 1) = False" using assms(3) by auto
  have fin: "core sq' = core sq4"
    if "(let sq5 = (if m then check_wake_receive sq4 else sq4)
         in case find p (fast_readers sq4) of
              Some fr \<Rightarrow> Some (sq_emit (FastRead (fr_id fr) x) sq5) | None \<Rightarrow> Some sq5) = Some sq'" for sq4 m p x
    using that by (cases m) (auto simp: Let_def check_wake_receive_def split: if_splits option.splits)
  have "core sq' = core sq3"
  proof (cases "len = MESSAGE_MIN")
    case True
    have "handle_message now t len sq = (case
        Some (if last_ack_seq sq3 < rseq then sq3\<lparr>last_ack_seq := rseq\<rparr>
              else if rseq > ignore_nak_seq sq3 \<and> sent_queue sq3 \<noteq> []
              then pollreactor_update_timer SQPT_RETRANSMIT PR_NOW sq3 else sq3, mw) of
             None \<Rightarrow> None
           | Some (sq4, must_wake) \<Rightarrow>
               let sq5 = (if must_wake then check_wake_receive sq4 else sq4)
               in case find (fr_matches (input_buf sq4) len) (fast_readers sq4) of
                    Some fr \<Rightarrow> Some (sq_emit (FastRead (fr_id fr) (take len (input_buf sq4))) sq5)
                  | None \<Rightarrow> Some sq5)"
      using n True unfolding handle_message_def r g if_False Let_def
      unfolding sq1_def [symmetric] unfolding sq2_def [symmetric] by (simp only: prod.case if_True simp_thms)
    from fin [OF this [unfolded option.case prod.case assms(1), symmetric]]
    show ?thesis by (simp split: if_splits)
  next
    case False
    then obtain qm where qm: "message_fill (take len (input_buf sq3)) = Some qm"
      and "handle_message now t len sq = (case
        Some (sq3\<lparr>receive_queue := receive_queue sq3 @
               [qm\<lparr>sent_time := (if rseq > retransmit_seq sq3 then last_receive_sent_time sq3 else 0),
                   receive_time := now - bittime sq3 len\<rparr>]\<rparr>, True) of
             None \<Rightarrow> None
           | Some (sq4, must_wake) \<Rightarrow>
               let sq5 = (if must_wake then check_wake_receive sq4 else sq4)
               in case find (fr_matches (input_buf sq4) len) (fast_readers sq4) of
                    Some fr \<Rightarrow> Some (sq_emit (FastRead (fr_id fr) (take len (input_buf sq4))) sq5)
                  | None \<Rightarrow> Some sq5)"
    proof (cases "message_fill (take len (input_buf sq3))")
      case None
      then have "handle_message now t len sq = None"
        using n False unfolding handle_message_def r g if_False Let_def
        unfolding sq1_def [symmetric] unfolding sq2_def [symmetric]
        by (simp only: prod.case if_False option.case)
      then show ?thesis using assms(1) by simp
    next
      case (Some qm)
      show ?thesis
        by (rule that [OF Some])
          (use n False Some in \<open>unfold handle_message_def r g if_False Let_def,
            unfold sq1_def [symmetric], unfold sq2_def [symmetric],
            simp only: prod.case if_False option.case\<close>)
    qed
    from fin [OF this(2) [unfolded option.case prod.case assms(1), symmetric]]
    show ?thesis by simp
  qed
  then show ?thesis using k3 by (simp add: sq1_def)
qed

text \<open>The number a received block stands for.\<close>

lemma wire_seq_reconstruct:
  assumes "unat rs < 2 ^ 63"
  shows "unat (wire_seq rs (of_nat (16 + a mod 16))) = reconstruct 16 (unat rs) a"
proof -
  let ?b = "of_nat (16 + a mod 16) :: u8"
  let ?k = "unat rs"
  have b: "unat (?b AND 0x0f) = a mod 16"
    unfolding unat_u8_nibble by (simp add: unat_of_nat take_bit_nat_eq_self del: of_nat_add)
  have hi: "unat (rs AND NOT 0x0f) = 16 * (?k div 16)"
  proof -
    have "rs - (rs AND 0x0f) = rs AND NOT (rs AND 0x0f)"
      by (rule disjunctive_diff) (simp add: bit_simps)
    also have "\<dots> = rs AND NOT 0x0f" by (rule bit_word_eqI) (auto simp: bit_simps)
    finally have "rs AND NOT 0x0f = rs - (rs AND 0x0f)" ..
    moreover have "rs AND 0x0f \<le> rs" by (rule word_and_le2)
    ultimately have "unat (rs AND NOT 0x0f) = ?k - ?k mod 16" by (simp add: unat_sub unat_seq_nibble)
    then show ?thesis by (simp add: minus_mod_eq_mult_div)
  qed
  have lo: "unat (to_u64 (?b AND 0x0f)) = a mod 16"
    using b by (simp add: unsigned_ucast_eq take_bit_nat_eq_self del: of_nat_add)
  have "(rs AND NOT 0x0f) OR to_u64 (?b AND 0x0f) = (rs AND NOT 0x0f) + to_u64 (?b AND 0x0f)"
    by (rule disjunctive_add [symmetric]) (auto simp: bit_simps bit_consts)
  then have or: "unat ((rs AND NOT 0x0f) OR to_u64 (?b AND 0x0f)) = 16 * (?k div 16) + a mod 16"
  proof -
    assume e: "(rs AND NOT 0x0f) OR to_u64 (?b AND 0x0f) = (rs AND NOT 0x0f) + to_u64 (?b AND 0x0f)"
    have "unat ((rs AND NOT 0x0f) + to_u64 (?b AND 0x0f)) = unat (rs AND NOT 0x0f) + unat (to_u64 (?b AND 0x0f))"
      by (rule unat_add_lem [THEN iffD1]) (use hi lo assms mod_less_divisor [of 16 a] in \<open>simp del: of_nat_add\<close>)
    then show ?thesis unfolding e hi lo .
  qed
  have w: "unat (wire_seq rs ?b) = (if 16 * (?k div 16) + a mod 16 < ?k then 16 * (?k div 16) + a mod 16 + 16
      else 16 * (?k div 16) + a mod 16)"
    using or assms unfolding wire_seq_def Let_def MESSAGE_SEQ_MASK_def
    by (auto simp: word_less_nat_alt unat_word_ariths)
  obtain q r where k: "?k = 16 * q + r" "?k div 16 = q" "?k mod 16 = r" "r < 16"
    using mult_div_mod_eq [of 16 ?k] mod_less_divisor [of 16 ?k] by force
  obtain c where c: "a mod 16 = c" "c < 16" by simp
  have "(c + (16 - r)) mod 16 = (if c < r then c + 16 - r else c - r)"
  proof (cases "c < r")
    case False
    then have "c + (16 - r) = (c - r) + 16" using k(4) by simp
    then have "(c + (16 - r)) mod 16 = (c - r) mod 16" by (simp only: mod_add_self2)
    then show ?thesis using False c(2) by simp
  qed (use k(4) in simp)
  then have m: "(c + (16 - r)) mod 16 = (if c < r then c + 16 - r else c - r)" .
  show ?thesis using w k(1, 4) unfolding reconstruct_def c(1) k(2, 3) m by (cases "c < r") simp_all
qed

subsection \<open>What the receiver does\<close>

lemma find_block_sync_keeps:
  "find_block_need_sync buf m = Ok r m' \<Longrightarrow> fst r = -1 \<and> next_sequence m' = next_sequence m"
  by (auto simp: find_block_need_sync_def bnd_app thn_app send_acknak_def split: option.splits if_splits)

lemma find_block_error_keeps:
  "find_block_error buf m = Ok r m' \<Longrightarrow> fst r = -1 \<and> next_sequence m' = next_sequence m"
  by (auto simp: find_block_error_def bnd_app thn_app dest: find_block_sync_keeps split: if_splits)

lemma command_find_block_next:
  assumes "command_find_block buf m = Ok (r, n) m'"
  shows "r > 0 \<Longrightarrow> r = 1 \<and> next_sequence m' = (next_sequence m + 1 AND 0x0f) OR 0x10"
    and "r \<le> 0 \<Longrightarrow> next_sequence m' = next_sequence m"
  using assms unfolding command_find_block_def Let_def
  by (auto simp: MESSAGE_SEQ_MASK_def MESSAGE_DEST_def send_acknak_def thn_app bnd_app
      dest!: find_block_sync_keeps find_block_error_keeps split: if_splits)

subsection \<open>The link\<close>

text \<open>
  \<open>lk_sent\<close> and \<open>lk_got\<close> record the contents of the blocks the host has made and of the blocks the
  firmware has dispatched.
\<close>

record link =
  lk_host :: serialqueue
  lk_dev :: command_state
  lk_down :: "u8 list list"
  lk_up :: "u8 list list"
  lk_sent :: "u8 list list"
  lk_got :: "u8 list list"

text \<open>The part of a block of \<open>n\<close> bytes at the start of \<open>buf\<close> that \<^verbatim>\<open>command_dispatch\<close> reads.\<close>

definition block_contents :: "u8 list \<Rightarrow> nat \<Rightarrow> u8 list" where
  "block_contents buf n = drop MESSAGE_HEADER_SIZE (take (n - MESSAGE_TRAILER_SIZE) buf)"

text \<open>
  The firmware searches for a block in the bytes received, the first block that arrived and
  whatever follows it; a block found stays in the buffer when its commands shut the machine
  down.  The firmware may answer at any time; every answer carries the number it expects.
  Anything else both sides do, running commands and queueing messages, leaves the protocol's
  variables alone.
\<close>

inductive link_step :: "link \<Rightarrow> link \<Rightarrow> bool" where
  link_command: "command_event t (lk_host l) = Some (w, h) \<Longrightarrow>
    blks = map qm_msg (drop (length (sent_queue (lk_host l))) (sent_queue h)) \<Longrightarrow>
    link_step l (l\<lparr>lk_host := h, lk_down := lk_down l @ blks,
      lk_sent := lk_sent l @ map (\<lambda>b. block_contents b (length b)) blks\<rparr>)"
| link_retransmit: "retransmit_event t (lk_host l) = Some (w, h) \<Longrightarrow>
    link_step l (l\<lparr>lk_host := h,
      lk_down := lk_down l @ [MESSAGE_SYNC] # map qm_msg (sent_queue (lk_host l))\<rparr>)"
| link_find: "lk_down l = b # bs \<Longrightarrow> command_find_block (b @ rest) (lk_dev l) = Ok (r, n) d \<Longrightarrow>
    down = bs \<or> down = b # bs \<Longrightarrow>
    link_step l (l\<lparr>lk_dev := d, lk_down := down,
      lk_got := lk_got l @ (if r > 0 then [block_contents (b @ rest) n] else [])\<rparr>)"
| link_answer: "length pl \<le> 59 \<Longrightarrow>
    link_step l (l\<lparr>lk_up := lk_up l @ [command_add_frame (next_sequence (lk_dev l)) pl]\<rparr>)"
| link_input: "lk_up l = f # fs \<Longrightarrow> input_buf (lk_host l) = f @ rest \<Longrightarrow>
    handle_message now t (length f) (lk_host l) = Some h \<Longrightarrow>
    link_step l (l\<lparr>lk_host := h, lk_up := fs\<rparr>)"
| link_lose: "lk_down l = as @ b # bs \<Longrightarrow> link_step l (l\<lparr>lk_down := as @ bs\<rparr>)"
| link_lose_answer: "lk_up l = as @ b # bs \<Longrightarrow> link_step l (l\<lparr>lk_up := as @ bs\<rparr>)"
| link_host: "core h = core (lk_host l) \<Longrightarrow> link_step l (l\<lparr>lk_host := h\<rparr>)"
| link_dev: "next_sequence d = next_sequence (lk_dev l) \<Longrightarrow> link_step l (l\<lparr>lk_dev := d\<rparr>)"

text \<open>Both sides agree on the number \<open>s\<close> of the next block and nothing is on its way.\<close>

definition link_synced :: "nat \<Rightarrow> link \<Rightarrow> bool" where
  "link_synced s l \<longleftrightarrow>
     core (lk_host l) = (of_nat s, of_nat s, []) \<and> s < 2 ^ 63 \<and>
     next_sequence (lk_dev l) = of_nat (16 + s mod 16) \<and>
     lk_down l = [] \<and> lk_up l = [] \<and> lk_sent l = [] \<and> lk_got l = []"

subsection \<open>Refinement\<close>

text \<open>A slot of the line to the firmware: the block with number \<open>i\<close>, or a lone sync byte.\<close>

definition slot :: "nat \<Rightarrow> u8 list list \<Rightarrow> nat option \<Rightarrow> u8 list" where
  "slot s pls x = (case x of None \<Rightarrow> [MESSAGE_SYNC] | Some i \<Rightarrow> host_frame (of_nat i) (pls ! (i - s)))"

abbreviation numbers :: "nat option list \<Rightarrow> nat list" where
  "numbers xs \<equiv> List.map_filter (\<lambda>x. x) xs"

definition answer_of :: "u8 list \<Rightarrow> nat \<Rightarrow> bool" where
  "answer_of f a \<longleftrightarrow> (\<exists>pl. length pl \<le> 59 \<and> f = command_add_frame (of_nat (16 + a mod 16)) pl)"

definition link_rel :: "nat \<Rightarrow> link \<Rightarrow> gbn \<Rightarrow> bool" where
  "link_rel s l g \<longleftrightarrow>
     gbn_ok 12 g \<and> s \<le> acked g \<and> next_no g = s + length (lk_sent l) \<and> expected g = s + length (lk_got l) \<and>
     unat (send_seq (lk_host l)) = next_no g \<and> unat (receive_seq (lk_host l)) = acked g \<and>
     map qm_msg (sent_queue (lk_host l)) = map (\<lambda>i. slot s (lk_sent l) (Some i)) [acked g ..< next_no g] \<and>
     next_sequence (lk_dev l) = of_nat (16 + expected g mod 16) \<and>
     (\<forall>pl\<in>set (lk_sent l). length pl \<le> 59) \<and> lk_got l = take (length (lk_got l)) (lk_sent l) \<and>
     (\<exists>xs. lk_down l = map (slot s (lk_sent l)) xs \<and> flight g = numbers xs \<and>
        (\<forall>i\<in>set (flight g). s \<le> i)) \<and>
     list_all2 answer_of (lk_up l) (answers g)"

interpretation lk: go_back_n 12 16
  by unfold_locales simp

lemma link_relD:
  assumes "link_rel s l g"
  shows "gbn_ok 12 g" "s \<le> acked g" "next_no g = s + length (lk_sent l)" "expected g = s + length (lk_got l)"
    "unat (send_seq (lk_host l)) = next_no g" "unat (receive_seq (lk_host l)) = acked g"
    "map qm_msg (sent_queue (lk_host l)) = map (\<lambda>i. slot s (lk_sent l) (Some i)) [acked g ..< next_no g]"
    "next_sequence (lk_dev l) = of_nat (16 + expected g mod 16)"
    "\<forall>pl\<in>set (lk_sent l). length pl \<le> 59" "lk_got l = take (length (lk_got l)) (lk_sent l)"
    "\<exists>xs. lk_down l = map (slot s (lk_sent l)) xs \<and> flight g = numbers xs \<and> (\<forall>i\<in>set (flight g). s \<le> i)"
    "list_all2 answer_of (lk_up l) (answers g)"
  using assms by (simp_all add: link_rel_def)

lemma link_relI:
  assumes "gbn_ok 12 g" "s \<le> acked g" "next_no g = s + length (lk_sent l)" "expected g = s + length (lk_got l)"
    "unat (send_seq (lk_host l)) = next_no g" "unat (receive_seq (lk_host l)) = acked g"
    "map qm_msg (sent_queue (lk_host l)) = map (\<lambda>i. slot s (lk_sent l) (Some i)) [acked g ..< next_no g]"
    "next_sequence (lk_dev l) = of_nat (16 + expected g mod 16)"
    "\<forall>pl\<in>set (lk_sent l). length pl \<le> 59" "lk_got l = take (length (lk_got l)) (lk_sent l)"
    "lk_down l = map (slot s (lk_sent l)) xs" "flight g = numbers xs" "\<forall>i\<in>set (flight g). s \<le> i"
    "list_all2 answer_of (lk_up l) (answers g)"
  shows "link_rel s l g"
  using assms unfolding link_rel_def by blast

lemma slot_append: "i - s < length pls \<Longrightarrow> slot s (pls @ qs) (Some i) = slot s pls (Some i)"
  by (simp add: slot_def nth_append)

lemma numbers_append: "numbers (xs @ ys) = numbers xs @ numbers ys"
  by (simp add: List.map_filter_def)

lemma numbers_simps [simp]: "numbers [] = []" "numbers (None # xs) = numbers xs" "numbers (Some i # xs) = i # numbers xs"
  "numbers (map Some is) = is"
  by (simp_all add: List.map_filter_def comp_def)

lemma map_append_split:
  assumes "map f xs = as @ b # bs"
  obtains us x vs where "xs = us @ x # vs" "as = map f us" "b = f x" "bs = map f vs"
  using assms by (fastforce simp: map_eq_append_conv map_eq_Cons_conv)

lemma frame_contents: "block_contents (host_frame n pl @ rest) (length pl + 5) = pl"
  unfolding host_frame_add_frame frame_split Let_def block_contents_def by (simp add: message_consts)

lemma length_host_frame [simp]: "length (host_frame n pl) = length pl + 5"
  unfolding host_frame_add_frame by simp

lemma rel_lose:
  assumes rel: "link_rel s l g" and l: "lk_down l = as @ b # bs"
  shows "\<exists>g'. (gbn_step 12 16)\<^sup>*\<^sup>* g g' \<and> link_rel s (l\<lparr>lk_down := as @ bs\<rparr>) g'"
proof -
  obtain xs where xs: "lk_down l = map (slot s (lk_sent l)) xs" "flight g = numbers xs" "\<forall>i\<in>set (flight g). s \<le> i"
    using link_relD(11) [OF rel] by blast
  obtain us x vs where u: "xs = us @ x # vs" "as = map (slot s (lk_sent l)) us" "bs = map (slot s (lk_sent l)) vs"
    using map_append_split [of "slot s (lk_sent l)" xs as b bs] xs(1) l by metis
  define g' where "g' = g\<lparr>flight := numbers (us @ vs)\<rparr>"
  have st: "(gbn_step 12 16)\<^sup>*\<^sup>* g g'"
  proof (cases x)
    case None
    then have "g' = g" using xs(2) u(1) by (simp add: g'_def numbers_append)
    then show ?thesis by simp
  next
    case (Some i)
    then have "gbn_step 12 16 g (g\<lparr>flight := numbers us @ numbers vs\<rparr>)"
      using xs(2) u(1) by (intro gbn_lose) (simp add: numbers_append)
    then show ?thesis by (simp add: g'_def numbers_append)
  qed
  have "set (numbers (us @ vs)) \<subseteq> set (flight g)"
    using xs(2) u(1) by (cases x) (auto simp: numbers_append)
  then have "link_rel s (l\<lparr>lk_down := as @ bs\<rparr>) g'"
    using link_relD [OF rel] lk.ok_steps [OF st] xs(3) u
    unfolding link_rel_def by (auto simp: g'_def intro!: exI [of _ "us @ vs"])
  then show ?thesis using st by blast
qed

lemma rel_lose_answer:
  assumes rel: "link_rel s l g" and l: "lk_up l = as @ b # bs"
  shows "\<exists>g'. (gbn_step 12 16)\<^sup>*\<^sup>* g g' \<and> link_rel s (l\<lparr>lk_up := as @ bs\<rparr>) g'"
proof -
  obtain us a vs where u: "answers g = us @ a # vs" "list_all2 answer_of as us" "list_all2 answer_of bs vs"
    using link_relD(12) [OF rel] unfolding l by (auto simp: list_all2_append1 list_all2_Cons1)
  have st: "gbn_step 12 16 g (g\<lparr>answers := us @ vs\<rparr>)" by (rule gbn_lose_answer [OF u(1)])
  have "link_rel s (l\<lparr>lk_up := as @ bs\<rparr>) (g\<lparr>answers := us @ vs\<rparr>)"
    using link_relD [OF rel] lk.ok_step [OF st] u
    unfolding link_rel_def by (simp add: list_all2_appendI)
  then show ?thesis using st by blast
qed

text \<open>A block the firmware takes is the one it expects.\<close>

lemma rel_find:
  assumes rel: "link_rel s l g" and l: "lk_down l = b # bs"
    and f: "command_find_block (b @ rest) (lk_dev l) = Ok (r, n) d"
  shows "\<exists>g'. (gbn_step 12 16)\<^sup>*\<^sup>* g g' \<and>
    link_rel s (l\<lparr>lk_dev := d, lk_got := lk_got l @ (if r > 0 then [block_contents (b @ rest) n] else [])\<rparr>) g'"
proof (cases "r > 0")
  case False
  then have "next_sequence d = next_sequence (lk_dev l)" using command_find_block_next(2) [OF f] by simp
  then show ?thesis using rel False by (intro exI [of _ g]) (simp add: link_rel_def)
next
  case True
  note R = link_relD [OF rel]
  have r1: "r = 1" and nd: "next_sequence d = (next_sequence (lk_dev l) + 1 AND 0x0f) OR 0x10"
    using command_find_block_next(1) [OF f True] by simp_all
  have v: "valid_block (b @ rest)" "n = unat ((b @ rest) ! 0)" "(b @ rest) ! 1 = next_sequence (lk_dev l)"
    using command_find_block_accepts f unfolding r1 by blast+
  obtain xs where xs: "lk_down l = map (slot s (lk_sent l)) xs" "flight g = numbers xs" "\<forall>i\<in>set (flight g). s \<le> i"
    using R(11) by blast
  then obtain x xs' where x: "xs = x # xs'" "b = slot s (lk_sent l) x" using l by (cases xs) auto
  have "x \<noteq> None"
  proof
    assume "x = None"
    then have "(b @ rest) ! 0 = MESSAGE_SYNC" using x(2) by (simp add: slot_def)
    then show False using valid_blockD(2) [OF v(1)] by (simp add: MESSAGE_SYNC_def)
  qed
  then obtain i where i: "x = Some i" by blast
  define pl where "pl = lk_sent l ! (i - s)"
  have fl: "flight g = i # numbers xs'" using xs(2) x(1) i by simp
  have i1: "s \<le> i" "i < next_no g" using xs(3) fl gbn_okD(5) [OF R(1), of i] by auto
  then have pl: "length pl \<le> 59" using R(3, 9) by (auto simp: pl_def)
  have b: "b = host_frame (of_nat i) pl" using x(2) i by (simp add: slot_def pl_def)
  have "unat (send_seq (lk_host l)) < 2 ^ LENGTH(64)" by (rule unsigned_less)
  then have "i < 2 ^ 64" using i1(2) R(5) by simp
  then have "unat (of_nat i :: u64) = i" by (simp add: unat_of_nat take_bit_nat_eq_self)
  then have b': "b = command_add_frame (of_nat (16 + i mod 16)) pl" unfolding b host_frame_add_frame seq_byte by simp
  have n: "n = length pl + 5"
    unfolding v(2) b' frame_nth by (rule unat_of_nat_u8) (use pl in simp)
  have "(of_nat (16 + i mod 16) :: u8) = of_nat (16 + expected g mod 16)"
    using v(3) R(8) unfolding b' frame_nth by simp
  then have "unat (of_nat (16 + i mod 16) :: u8) = unat (of_nat (16 + expected g mod 16) :: u8)" by (rule arg_cong)
  then have cg: "i mod 16 = expected g mod 16" by (simp add: unat_of_nat_u8 del: of_nat_add)
  then have ie: "i = expected g" using lk.take_exact [OF R(1) fl] by blast
  have st: "gbn_step 12 16 g (g\<lparr>expected := expected g + 1\<rparr>)" by (rule gbn_take [OF fl cg])
  have "next_sequence d = of_nat (16 + (expected g + 1) mod 16)"
    using next_nibble [of "expected g mod 16"] unfolding nd R(8) by (simp add: mod_Suc_eq)
  moreover have "block_contents (b @ rest) n = lk_sent l ! length (lk_got l)"
    unfolding n b frame_contents using R(4) ie by (simp add: pl_def)
  moreover have "length (lk_got l) < length (lk_sent l)" using R(3, 4) ie i1 by simp
  ultimately have "link_rel s (l\<lparr>lk_dev := d, lk_got := lk_got l @ [block_contents (b @ rest) n]\<rparr>)
      (g\<lparr>expected := expected g + 1\<rparr>)"
    using R lk.ok_step [OF st R(1)] unfolding link_rel_def
    by (simp add: take_Suc_conv_app_nth)
  then show ?thesis using st True by auto
qed

text \<open>What the host sends and repeats.\<close>

lemma rel_retransmit:
  assumes rel: "link_rel s l g" and c: "core h = core (lk_host l)"
  shows "\<exists>g'. (gbn_step 12 16)\<^sup>*\<^sup>* g g' \<and> link_rel s (l\<lparr>lk_host := h,
      lk_down := lk_down l @ [MESSAGE_SYNC] # map qm_msg (sent_queue (lk_host l))\<rparr>) g'"
proof -
  note R = link_relD [OF rel]
  obtain xs where xs: "lk_down l = map (slot s (lk_sent l)) xs" "flight g = numbers xs" "\<forall>i\<in>set (flight g). s \<le> i"
    using R(11) by blast
  let ?ys = "None # map Some [acked g ..< next_no g]"
  let ?g = "g\<lparr>flight := flight g @ [acked g ..< next_no g]\<rparr>"
  have st: "gbn_step 12 16 g ?g" by (rule gbn_resend)
  have cs: "send_seq h = send_seq (lk_host l)" "receive_seq h = receive_seq (lk_host l)"
    "sent_queue h = sent_queue (lk_host l)" using c by (simp_all add: core_def)
  have "link_rel s (l\<lparr>lk_host := h,
      lk_down := lk_down l @ [MESSAGE_SYNC] # map qm_msg (sent_queue (lk_host l))\<rparr>) ?g"
  proof (rule link_relI [where xs = "xs @ ?ys"])
    show "gbn_ok 12 ?g" by (rule lk.ok_step [OF st R(1)])
    show "lk_down (l\<lparr>lk_host := h, lk_down := lk_down l @ [MESSAGE_SYNC] # map qm_msg (sent_queue (lk_host l))\<rparr>) =
        map (slot s (lk_sent (l\<lparr>lk_host := h, lk_down := lk_down l @ [MESSAGE_SYNC] # map qm_msg (sent_queue (lk_host l))\<rparr>))) (xs @ ?ys)"
      unfolding R(7) xs(1) by (simp add: slot_def comp_def)
    show "\<forall>i\<in>set (flight ?g). s \<le> i" using xs(3) R(2) by auto
    show "flight ?g = numbers (xs @ ?ys)" using xs(2) by (simp add: numbers_append)
  qed (use R(2-10, 12) cs in simp_all)
  then show ?thesis using st by blast
qed

lemma rel_command:
  assumes rel: "link_rel s l g" and c: "command_event t (lk_host l) = Some (w, h)"
    and blks: "blks = map qm_msg (drop (length (sent_queue (lk_host l))) (sent_queue h))"
    and lt: "next_no g < 2 ^ 63"
  shows "\<exists>g'. (gbn_step 12 16)\<^sup>*\<^sup>* g g' \<and> link_rel s (l\<lparr>lk_host := h, lk_down := lk_down l @ blks,
      lk_sent := lk_sent l @ map (\<lambda>b. block_contents b (length b)) blks\<rparr>) g'"
proof -
  note R = link_relD [OF rel] and G = gbn_okD [OF link_relD(1) [OF rel]]
  let ?h = "lk_host l"
  obtain accs where A: "\<forall>a\<in>set accs. length a \<le> 59" "receive_seq h = receive_seq ?h"
    "unat (send_seq h) = next_no g + length accs" "unat (send_seq h) \<le> acked g + 12"
    "map qm_msg (sent_queue h) = map qm_msg (sent_queue ?h) @ blocks_from (next_no g) accs"
    using command_loop_sends [OF c [unfolded command_event_def]] R(5, 6) G(1-3) lt by auto
  have b: "blks = blocks_from (next_no g) accs"
    using arg_cong [OF A(5), of "drop (length (sent_queue ?h))"] unfolding blks by (simp add: drop_map)
  have contents: "map (\<lambda>b. block_contents b (length b)) blks = accs"
    unfolding b by (rule nth_equalityI) (simp_all add: nth_blocks_from frame_contents [where rest = "[]", simplified])
  have new: "blks = map (slot s (lk_sent l @ accs)) (map Some [next_no g ..< next_no g + length accs])"
    unfolding b by (rule nth_equalityI) (simp_all add: nth_blocks_from slot_def R(3) nth_append)
  have old: "slot s (lk_sent l @ accs) x = slot s (lk_sent l) x"
    if "\<forall>i. x = Some i \<longrightarrow> i < next_no g \<and> s \<le> i" for x
    using that R(3) by (cases x) (auto simp: slot_append, simp add: slot_def)
  obtain xs where xs: "lk_down l = map (slot s (lk_sent l)) xs" "flight g = numbers xs" "\<forall>i\<in>set (flight g). s \<le> i"
    using R(11) by blast
  let ?ys = "map Some [next_no g ..< next_no g + length accs]"
  let ?g = "g\<lparr>next_no := next_no g + length accs, flight := flight g @ [next_no g ..< next_no g + length accs]\<rparr>"
  let ?l = "l\<lparr>lk_host := h, lk_down := lk_down l @ blks, lk_sent := lk_sent l @ accs\<rparr>"
  have st: "gbn_step 12 16 g ?g" by (rule gbn_send) (use A(3, 4) in simp)
  have "link_rel s ?l ?g"
  proof (rule link_relI [where xs = "xs @ ?ys"])
    show "gbn_ok 12 ?g" by (rule lk.ok_step [OF st R(1)])
    have "map (slot s (lk_sent l @ accs)) xs = map (slot s (lk_sent l)) xs"
      by (rule map_cong [OF refl], rule old) (use xs G(5) in \<open>force simp: List.map_filter_def\<close>)
    then show "lk_down ?l = map (slot s (lk_sent ?l)) (xs @ ?ys)" using xs(1) new by simp
    show "flight ?g = numbers (xs @ ?ys)" using xs(2) by (simp add: numbers_append)
    show "\<forall>i\<in>set (flight ?g). s \<le> i" using xs(3) R(2) G(1, 2) by auto
    have "map (\<lambda>i. slot s (lk_sent l @ accs) (Some i)) [acked g ..< next_no g] =
        map (\<lambda>i. slot s (lk_sent l) (Some i)) [acked g ..< next_no g]"
      by (rule map_cong [OF refl], rule old) (use R(2) in auto)
    then show "map qm_msg (sent_queue (lk_host ?l)) =
        map (\<lambda>i. slot s (lk_sent ?l) (Some i)) [acked ?g ..< next_no ?g]"
      using A(5) R(7) new b upt_add_eq_append [of "acked g" "next_no g" "length accs"] G(1, 2)
      by (simp add: comp_def)
    show "lk_got ?l = take (length (lk_got ?l)) (lk_sent ?l)"
      using R(3, 4, 10) G(2) by simp
  qed (use R(2-12) A in auto)
  then show ?thesis using st unfolding contents by blast
qed

text \<open>An answer names the number the firmware expected when it was sent.\<close>

lemma rel_input:
  assumes rel: "link_rel s l g" and up: "lk_up l = f # fs" and inp: "input_buf (lk_host l) = f @ rest"
    and hm: "handle_message now t (length f) (lk_host l) = Some h" and lt: "next_no g < 2 ^ 63"
  shows "\<exists>g'. (gbn_step 12 16)\<^sup>*\<^sup>* g g' \<and> link_rel s (l\<lparr>lk_host := h, lk_up := fs\<rparr>) g'"
proof -
  note R = link_relD [OF rel] and G = gbn_okD [OF link_relD(1) [OF rel]]
  let ?h = "lk_host l"
  obtain a as where a: "answers g = a # as" "answer_of f a" "list_all2 answer_of fs as"
    using R(12) unfolding up by (auto simp: list_all2_Cons1)
  have b1: "input_buf ?h ! 1 = of_nat (16 + a mod 16)"
    using a(2) unfolding inp answer_of_def by (metis frame_nth(2))
  define rseq where "rseq = wire_seq (receive_seq ?h) (input_buf ?h ! 1)"
  have ra: "reconstruct 16 (acked g) a = a" by (rule lk.ack_exact [OF R(1) a(1)])
  have u: "unat rseq = a"
    unfolding rseq_def b1 using wire_seq_reconstruct [of "receive_seq ?h" a] R(6) ra G(1, 2) lt by simp
  have aa: "acked g \<le> a" "a \<le> expected g" using G(6, 7) [of a] a(1) by simp_all
  have le: "rseq \<le> send_seq ?h" using u aa G(2) R(5) by (simp add: word_le_nat_alt)
  have c: "core h = (send_seq ?h, rseq, drop (a - acked g) (sent_queue ?h))"
  proof (cases "rseq = receive_seq ?h")
    case True
    then have "a = acked g" using u R(6) by simp
    then show ?thesis using handle_message_core [OF hm rseq_def le] True by (simp add: core_def)
  next
    case False
    then have "acked g < a" using u R(6) aa(1) by (metis le_neq_implies_less unsigned_word_eqI)
    then obtain k where k: "a = acked g + Suc k" using less_iff_Suc_add by auto
    have "rseq = of_nat a" "receive_seq ?h = of_nat (acked g)" unfolding u [symmetric] R(6) [symmetric] by simp_all
    then have "rseq = receive_seq ?h + of_nat (Suc k)" using k by simp
    moreover have "Suc k \<le> length (sent_queue ?h)"
      using arg_cong [OF R(7), of length] k aa(2) G(2) by simp
    moreover have "k < 16" using k aa G by linarith
    ultimately show ?thesis
      using handle_message_core [OF hm rseq_def le] False ack_sent_pops [of rseq "receive_seq ?h" k ?h] k
      by (simp add: update_receive_seq_core del: of_nat_Suc)
  qed
  let ?g = "g\<lparr>acked := reconstruct 16 (acked g) a, answers := as\<rparr>"
  have st: "gbn_step 12 16 g ?g" by (rule gbn_ack [OF a(1)])
  obtain xs where xs: "lk_down l = map (slot s (lk_sent l)) xs" "flight g = numbers xs" "\<forall>i\<in>set (flight g). s \<le> i"
    using R(11) by blast
  have "link_rel s (l\<lparr>lk_host := h, lk_up := fs\<rparr>) ?g"
  proof (rule link_relI [where xs = xs])
    show "gbn_ok 12 ?g" by (rule lk.ok_step [OF st R(1)])
    show "map qm_msg (sent_queue (lk_host (l\<lparr>lk_host := h, lk_up := fs\<rparr>))) =
        map (\<lambda>i. slot s (lk_sent (l\<lparr>lk_host := h, lk_up := fs\<rparr>)) (Some i)) [acked ?g ..< next_no ?g]"
      using c R(7) aa drop_map [of "a - acked g" qm_msg "sent_queue ?h"] by (simp add: core_def ra drop_map)
  qed (use R(2-12) xs a(3) c aa u ra in \<open>simp_all add: core_def\<close>)
  then show ?thesis using st by blast
qed

lemma link_simulates:
  assumes "link_step l l'" and "link_rel s l g" and "s + length (lk_sent l) < 2 ^ 63"
  shows "\<exists>g'. (gbn_step 12 16)\<^sup>*\<^sup>* g g' \<and> link_rel s l' g'"
  using assms(1)
proof cases
  case (link_command t w h blks)
  then show ?thesis using rel_command [OF assms(2)] assms(3) link_relD(3) [OF assms(2)] by simp
next
  case (link_retransmit t w h)
  then show ?thesis using rel_retransmit [OF assms(2) retransmit_event_repeats(1)] by blast
next
  case (link_find b bs rest r n d down)
  let ?l = "l\<lparr>lk_dev := d, lk_got := lk_got l @ (if r > 0 then [block_contents (b @ rest) n] else [])\<rparr>"
  obtain g1 where g1: "(gbn_step 12 16)\<^sup>*\<^sup>* g g1" "link_rel s ?l g1"
    using rel_find [OF assms(2) link_find(2, 3)] by blast
  have "\<exists>g'. (gbn_step 12 16)\<^sup>*\<^sup>* g1 g' \<and> link_rel s (?l\<lparr>lk_down := down\<rparr>) g'"
  proof (cases "down = bs")
    case True
    then show ?thesis using rel_lose [OF g1(2), of "[]" b bs] link_find(2) by simp
  next
    case False
    then have "down = b # bs" using link_find(4) by blast
    then have "?l\<lparr>lk_down := down\<rparr> = ?l" using link_find(2) by simp
    then show ?thesis using g1(2) by (metis rtranclp.rtrancl_refl)
  qed
  moreover have "l' = ?l\<lparr>lk_down := down\<rparr>" using link_find(1) by simp
  ultimately show ?thesis using g1(1) by (metis rtranclp_trans)
next
  case (link_answer pl)
  note R = link_relD [OF assms(2)]
  have st: "gbn_step 12 16 g (g\<lparr>answers := answers g @ [expected g]\<rparr>)" by (rule gbn_answer)
  have "answer_of (command_add_frame (next_sequence (lk_dev l)) pl) (expected g)"
    using link_answer(2) R(8) unfolding answer_of_def by metis
  then have "link_rel s l' (g\<lparr>answers := answers g @ [expected g]\<rparr>)"
    using R lk.ok_step [OF st R(1)] unfolding link_answer(1) link_rel_def by (simp add: list_all2_appendI)
  then show ?thesis using st by blast
next
  case (link_input f fs rest now t h)
  then show ?thesis using rel_input [OF assms(2)] assms(3) link_relD(3) [OF assms(2)] by simp
next
  case (link_lose as b bs)
  then show ?thesis using rel_lose [OF assms(2)] by blast
next
  case (link_lose_answer as b bs)
  then show ?thesis using rel_lose_answer [OF assms(2)] by blast
next
  case (link_host h)
  then have "link_rel s l' g" using assms(2) unfolding link_rel_def core_def by simp
  then show ?thesis by blast
next
  case (link_dev d)
  then have "link_rel s l' g" using assms(2) unfolding link_rel_def by simp
  then show ?thesis by blast
qed

lemma link_step_sent: "link_step l l' \<Longrightarrow> length (lk_sent l) \<le> length (lk_sent l')"
  by (erule link_step.cases) simp_all

lemma link_refines:
  assumes "link_step\<^sup>*\<^sup>* l l'" and "link_rel s l g" and "s + length (lk_sent l') < 2 ^ 63"
  shows "\<exists>g'. (gbn_step 12 16)\<^sup>*\<^sup>* g g' \<and> link_rel s l' g'"
  using assms
proof (induction rule: rtranclp_induct)
  case base
  then show ?case by blast
next
  case (step y z)
  have y: "s + length (lk_sent y) < 2 ^ 63" using link_step_sent [OF step.hyps(2)] step.prems(2) by simp
  obtain g1 where "(gbn_step 12 16)\<^sup>*\<^sup>* g g1" "link_rel s y g1" using step.IH [OF step.prems(1) y] by blast
  then show ?case using link_simulates [OF step.hyps(2) _ y] by (meson rtranclp_trans)
qed

lemma synced_rel:
  assumes "link_synced s l"
  shows "link_rel s l \<lparr>acked = s, expected = s, next_no = s, flight = [], answers = []\<rparr>"
  using assms by (intro link_relI [where xs = "[]"])
    (auto simp: link_synced_def gbn_ok_def core_def unat_of_nat take_bit_nat_eq_self)

lemma sent_queue_contents:
  assumes "link_rel s l g"
  shows "map (\<lambda>qm. block_contents (qm_msg qm) (qm_len qm)) (sent_queue (lk_host l)) = drop (acked g - s) (lk_sent l)"
proof -
  note R = link_relD [OF assms]
  have "map (\<lambda>b. block_contents b (length b)) (map qm_msg (sent_queue (lk_host l))) =
      map (\<lambda>i. lk_sent l ! (i - s)) [acked g ..< next_no g]"
    unfolding R(7) by (simp add: slot_def frame_contents [where rest = "[]", simplified])
  also have "\<dots> = drop (acked g - s) (lk_sent l)"
    using R(2, 3) gbn_okD(1, 2) [OF R(1)] by (intro nth_equalityI) auto
  finally show ?thesis by (simp add: comp_def)
qed

lemma sent_queue_fits:
  assumes "link_rel s l g"
  shows "length (concat (map qm_msg (sent_queue (lk_host l)))) \<le> 64 * 12"
proof -
  note R = link_relD [OF assms] and G = gbn_okD [OF link_relD(1) [OF assms]]
  have "length b \<le> 64" if "b \<in> set (map qm_msg (sent_queue (lk_host l)))" for b
    using that R(2, 3, 9) unfolding R(7) by (auto simp: slot_def)
  then have "length (concat bs) \<le> 64 * length bs" if "set bs \<subseteq> set (map qm_msg (sent_queue (lk_host l)))" for bs
    using that by (induction bs) force+
  moreover have "length (map qm_msg (sent_queue (lk_host l))) \<le> 12" unfolding R(7) using G(3) by simp
  ultimately show ?thesis by fastforce
qed

text \<open>
  C1: blocks arrive in order and exactly once.  From a state in which both sides agree on the
  next number, and whatever is lost on the way, the blocks dispatched by the firmware are a
  prefix of the blocks made by the host; at most twelve blocks are missing at any time; the
  host still holds every block that is missing, and repeating them never overruns the
  buffer of \<^verbatim>\<open>retransmit_event\<close>.
\<close>

theorem link_delivers_in_order:
  assumes "link_synced s l" and "link_step\<^sup>*\<^sup>* l l'" and "s + length (lk_sent l') < 2 ^ 63"
  shows "lk_got l' = take (length (lk_got l')) (lk_sent l') \<and>
    length (lk_sent l') \<le> length (lk_got l') + 12 \<and>
    (\<exists>k \<le> length (lk_got l'). map (\<lambda>qm. block_contents (qm_msg qm) (qm_len qm)) (sent_queue (lk_host l')) =
      drop k (lk_sent l')) \<and>
    retransmit_event t (lk_host l') \<noteq> None"
proof -
  obtain g where rel: "link_rel s l' g" using link_refines [OF assms(2) synced_rel [OF assms(1)] assms(3)] by blast
  note R = link_relD [OF rel] and G = gbn_okD [OF link_relD(1) [OF rel]]
  have "length (lk_sent l') \<le> length (lk_got l') + 12" using R(3, 4) G by linarith
  moreover have "\<exists>k \<le> length (lk_got l'). map (\<lambda>qm. block_contents (qm_msg qm) (qm_len qm)) (sent_queue (lk_host l')) =
      drop k (lk_sent l')"
    using sent_queue_contents [OF rel] R(2, 4) G(1) by (intro exI [of _ "acked g - s"]) simp
  moreover have "retransmit_event t (lk_host l') \<noteq> None"
    using sent_queue_fits [OF rel]
    by (auto simp: retransmit_event_def Let_def message_consts MAX_PENDING_BLOCKS_def length_concat)
  ultimately show ?thesis using R(10) by blast
qed

text \<open>
  A link on which the host, with two queued messages, sends a block and the firmware takes
  it, while the answer is lost.
\<close>

definition sample_host :: serialqueue where
  "sample_host = (serialqueue_send_batch 0 [message_alloc\<lparr>qm_msg := [1, 2]\<rparr>, message_alloc\<lparr>qm_msg := [3]\<rparr>]
     (serialqueue_alloc SQT_UART 0))\<lparr>send_seq := 16, receive_seq := 16\<rparr>"

definition sample_link :: link where
  "sample_link = \<lparr>lk_host = sample_host, lk_dev = sample_command, lk_down = [], lk_up = [], lk_sent = [], lk_got = []\<rparr>"

lemma sample_synced: "link_synced 16 sample_link"
  by (simp add: sample_link_def link_synced_def sample_host_def core_def sample_command_fields serialqueue_send_batch_def
      serialqueue_alloc_def serialqueue.defs pollreactor.defs kick_bg_thread_def sq_emit_def Let_def)

lemmas sample_host_eval = sample_host_def serialqueue_send_batch_def serialqueue_alloc_def serialqueue.defs
  pollreactor.defs kick_bg_thread_def sq_emit_def Let_def set_min_clock_def message_alloc_def bytes_of_def
  BACKGROUND_PRIORITY_CLOCK_def pollreactor_add_timer_def pollreactor_alloc_def MAX_CLOCK_def

lemmas send_eval = check_send_command_def MAX_PENDING_BLOCKS_def clock_from_time_def calculate_bittime_def
  message_consts MESSAGE_PAYLOAD_MAX_def PR_NOW_def PR_NEVER_def build_and_send_command_def ready_count_def
  pollreactor_update_timer_def do_write_def

lemma sample_event: "\<exists>w h. command_event 1 sample_host = Some (w, h) \<and>
    map qm_msg (sent_queue h) = [host_frame 16 [1, 2, 3]]"
proof -
  have q: "queued_count sample_host + MAX_PENDING_BLOCKS + 1 = Suc (Suc 13)"
    by (simp add: queued_count_def sample_host_eval MAX_PENDING_BLOCKS_def)
  show ?thesis unfolding command_event_def q command_loop.simps
    by (simp add: send_eval sample_host_eval)
qed

lemma sample_run: "\<exists>l. link_step\<^sup>*\<^sup>* sample_link l \<and> lk_sent l = [[1, 2, 3]] \<and> lk_got l = [[1, 2, 3]]"
proof -
  let ?B = "command_add_frame 0x10 [1, 2, 3]"
  obtain w h where h: "command_event 1 sample_host = Some (w, h)" "map qm_msg (sent_queue h) = [host_frame 16 [1, 2, 3]]"
    using sample_event by (elim exE conjE)
  have B: "host_frame 16 [1, 2, 3] = ?B" unfolding host_frame_add_frame seq_byte by simp
  have e: "sent_queue (lk_host sample_link) = []"
    using sample_synced by (simp add: link_synced_def core_def)
  let ?l1 = "sample_link\<lparr>lk_host := h, lk_down := [?B], lk_sent := [[1, 2, 3]]\<rparr>"
  have c: "block_contents (?B @ rest) 8 = [1, 2, 3]" for rest
    using frame_contents [of 16 "[1, 2, 3]" rest] unfolding B by simp
  obtain m where m: "sent_queue h = [m]" "qm_msg m = ?B" using h(2) unfolding B by (auto simp: map_eq_Cons_conv)
  have s1: "link_step sample_link ?l1"
    using link_command [of 1 sample_link w h "[?B]"] h(1) e m c [of "[]"] by (simp add: sample_link_def)
  obtain d where d: "command_find_block ?B sample_command = Ok (1, 8) d"
    using command_find_block_valid [OF frame_valid(1) [of "[1, 2, 3]" "0x10" "[]"], of sample_command]
      frame_valid(2) [of "[1, 2, 3]" "0x10" "[]"] frame_nth(2) [of "0x10" "[1, 2, 3]" "[]"]
    by (simp add: sample_command_fields)
  have s2: "link_step ?l1 (?l1\<lparr>lk_dev := d, lk_down := [], lk_got := [[1, 2, 3]]\<rparr>)"
    using link_find [of ?l1 ?B "[]" "[]" 1 8 d "[]"] d c [of "[]"] by (simp add: sample_link_def)
  show ?thesis
    by (rule exI [of _ "?l1\<lparr>lk_dev := d, lk_down := [], lk_got := [[1, 2, 3]]\<rparr>"])
      (use converse_rtranclp_into_rtranclp [of link_step, OF s1 r_into_rtranclp [of link_step, OF s2]] in simp)
qed

theorem link_delivers_in_order_witness:
  "\<exists>l. lk_sent l = [[1, 2, 3]] \<and> lk_got l = [[1, 2, 3]] \<and> link_step\<^sup>*\<^sup>* sample_link l \<and>
    lk_got l = take (length (lk_got l)) (lk_sent l) \<and> retransmit_event 2 (lk_host l) \<noteq> None"
proof -
  obtain l where l: "link_step\<^sup>*\<^sup>* sample_link l" "lk_sent l = [[1, 2, 3]]" "lk_got l = [[1, 2, 3]]"
    using sample_run by blast
  have "16 + length (lk_sent l) < 2 ^ 63" using l(2) by simp
  from link_delivers_in_order [OF sample_synced l(1) this, of 2] show ?thesis using l by blast
qed

end
