(* ===== verification/Analog_Buttons.thy ===== *)
theory Analog_Buttons
  imports Inputs
begin

text \<open>
  Correctness of the analog inputs (a batch of samples is summed up and checked) and of the
  buttons (debouncing, the queue of reports and its acknowledgement).
\<close>

subsection \<open>Analog inputs\<close>

definition adc_sum :: "u8 \<Rightarrow> 'e adc_state_scheme \<Rightarrow> nat \<Rightarrow> u16" where
  "adc_sum a m k = (\<Sum>i<k. adc_read_in (env m) (Suc (ticks m + 2 * i)) (ai_pin (analog_ins m a)))"

text \<open>The state after \<open>k\<close> samples of a batch.\<close>

definition adc_after :: "u8 \<Rightarrow> nat \<Rightarrow> 'e adc_state_scheme \<Rightarrow> 'e adc_state_scheme" where
  "adc_after a k m = (if k = 0 then m
     else m\<lparr>ticks := ticks m + 2 * k,
       analog_ins := (analog_ins m)(a := (analog_ins m a)\<lparr>ai_value := adc_sum a m k, ai_state := of_nat k\<rparr>),
       timers := (timers m)(ObjTimer a := (timers m (ObjTimer a))
         \<lparr>waketime := waketime (timers m (ObjTimer a)) + of_nat k * ai_sample_time (analog_ins m a)\<rparr>)\<rparr>)"

lemma adc_after_fields:
  "ai_pin (analog_ins (adc_after a k m) a) = ai_pin (analog_ins m a)"
  "ai_sample_count (analog_ins (adc_after a k m) a) = ai_sample_count (analog_ins m a)"
  "ai_min_value (analog_ins (adc_after a k m) a) = ai_min_value (analog_ins m a)"
  "ai_max_value (analog_ins (adc_after a k m) a) = ai_max_value (analog_ins m a)"
  "ai_invalid_count (analog_ins (adc_after a k m) a) = ai_invalid_count (analog_ins m a)"
  "ai_range_check_count (analog_ins (adc_after a k m) a) = ai_range_check_count (analog_ins m a)"
  "ai_next_begin_time (analog_ins (adc_after a k m) a) = ai_next_begin_time (analog_ins m a)"
  "ai_rest_time (analog_ins (adc_after a k m) a) = ai_rest_time (analog_ins m a)"
  "ai_sample_time (analog_ins (adc_after a k m) a) = ai_sample_time (analog_ins m a)"
  "env (adc_after a k m) = env m" "ticks (adc_after a k m) = ticks m + 2 * k"
  "shutdown_status (adc_after a k m) = shutdown_status m"
  by (simp_all add: adc_after_def)

text \<open>The running value and state of the batch before sample \<open>k\<close> is added.\<close>

lemma adc_after_run:
  assumes "ai_sample_count (analog_ins m a) \<le> ai_state (analog_ins m a)"
    and "k < unat (ai_sample_count (analog_ins m a))"
  shows "ai_state (analog_ins (adc_after a k m) a) \<ge> ai_sample_count (analog_ins m a) \<longleftrightarrow> k = 0"
    and "k \<noteq> 0 \<Longrightarrow> ai_state (analog_ins (adc_after a k m) a) = of_nat k"
    and "k \<noteq> 0 \<Longrightarrow> ai_value (analog_ins (adc_after a k m) a) = adc_sum a m k"
proof -
  have "unat (of_nat k :: u8) = k"
    using assms(2) unat_u8_bound [of "ai_sample_count (analog_ins m a)"] by (intro unat_of_nat_u8) simp
  then show "ai_state (analog_ins (adc_after a k m) a) \<ge> ai_sample_count (analog_ins m a) \<longleftrightarrow> k = 0"
    using assms by (auto simp: adc_after_def word_le_nat_alt)
qed (simp_all add: adc_after_def)

lemma adc_sample_step:
  assumes "ai_sample_count (analog_ins m a) \<le> ai_state (analog_ins m a)"
    and "Suc k < unat (ai_sample_count (analog_ins m a))"
    and "adc_sample_in (env m) (ticks m + 2 * k) (ai_pin (analog_ins m a)) = 0"
  shows "analog_in_event a (adc_after a k m) = Ok SF_RESCHEDULE (adc_after a (Suc k) m)"
proof -
  have k: "k < unat (ai_sample_count (analog_ins m a))" using assms(2) by simp
  have "unat (of_nat (Suc k) :: u8) = Suc k"
    using assms(2) unat_u8_bound [of "ai_sample_count (analog_ins m a)"] by (intro unat_of_nat_u8) simp
  then have lt: "(of_nat (Suc k) :: u8) < ai_sample_count (analog_ins m a)"
    using assms(2) by (simp add: word_less_nat_alt)
  show ?thesis
  proof (cases "k = 0")
    case True
    then show ?thesis using assms lt
      by (simp add: analog_in_event_def adc_after_def adc_sum_def state_upds Let_def)
  next
    case False
    then show ?thesis
      using assms(3) lt adc_after_run [OF assms(1) k]
      by (simp add: analog_in_event_def adc_after_fields state_upds Let_def)
        (simp add: adc_after_def adc_sum_def algebra_simps)
  qed
qed

lemma adc_samples:
  assumes "ai_sample_count (analog_ins m a) \<le> ai_state (analog_ins m a)"
    and "\<forall>i < k. adc_sample_in (env m) (ticks m + 2 * i) (ai_pin (analog_ins m a)) = 0"
    and "k < unat (ai_sample_count (analog_ins m a))"
  shows "repeatM k (analog_in_event a) m = Ok () (adc_after a k m)"
  using assms(2,3)
proof (induction k)
  case (Suc k)
  have "analog_in_event a (adc_after a k m) = Ok SF_RESCHEDULE (adc_after a (Suc k) m)"
    using Suc.prems by (intro adc_sample_step [OF assms(1)]) auto
  then show ?case using repeatM_step [OF Suc.IH] Suc.prems by fastforce
qed (simp add: adc_after_def)

text \<open>
  C38: a batch of an analog input reports the sum of its samples.  From a fresh start, with the
  converter ready for each of the \<open>n\<close> samples, the first \<open>n - 1\<close> events only add up and
  the last one leaves the sum of all \<open>n\<close> readings (modulo \<open>2 ^ 16\<close>) as the value to report,
  marks the batch complete, wakes the task and schedules the next batch one rest time after
  the last; it shuts the machine down exactly if the sum is out of range for the configured
  number of batches in a row.
\<close>

theorem adc_batch_reports_sum:
  assumes "Suc k = unat (ai_sample_count (analog_ins m a))"
    and "ai_sample_count (analog_ins m a) \<le> ai_state (analog_ins m a)"
    and "\<forall>i \<le> k. adc_sample_in (env m) (ticks m + 2 * i) (ai_pin (analog_ins m a)) = 0"
  shows "\<exists>m1. repeatM k (analog_in_event a) m = Ok () m1 \<and>
    (let total = adc_sum a m (Suc k);
         bad = \<not> (ai_min_value (analog_ins m a) \<le> total \<and> total \<le> ai_max_value (analog_ins m a));
         fail = (bad \<and> ai_range_check_count (analog_ins m a) \<le> ai_invalid_count (analog_ins m a) + 1 \<and> shutdown_status m = 0)
     in case analog_in_event a m1 of
       Ok r m2 \<Rightarrow> r = SF_RESCHEDULE \<and> \<not> fail \<and> ai_value (analog_ins m2 a) = total \<and>
         ai_state (analog_ins m2 a) = ai_sample_count (analog_ins m a) \<and> wakes m2 analog_wake \<and>
         waketime (timers m2 (ObjTimer a)) = ai_next_begin_time (analog_ins m a) + ai_rest_time (analog_ins m a)
     | Shutdown s m2 \<Rightarrow> s = ''ADC out of range'' \<and> fail
     | Undef \<Rightarrow> False)"
proof (intro exI conjI)
  let ?x = "analog_ins m a"
  show "repeatM k (analog_in_event a) m = Ok () (adc_after a k m)"
    using assms by (intro adc_samples) auto
  have k: "k < unat (ai_sample_count ?x)" using assms(1) by simp
  have n: "of_nat (Suc k) = ai_sample_count ?x" unfolding assms(1) by simp
  have v: "adc_read_in (env m) (Suc (ticks m + 2 * k)) (ai_pin ?x) +
      (if k = 0 then 0 else ai_value (analog_ins (adc_after a k m) a)) = adc_sum a m (Suc k)"
    using adc_after_run(3) [OF assms(2) k] by (simp add: adc_sum_def)
  have st: "(if k = 0 then 0 else ai_state (analog_ins (adc_after a k m) a)) + 1 = ai_sample_count ?x"
    using adc_after_run(2) [OF assms(2) k] n by (auto simp: add.commute)
  have val: "(if ai_state (analog_ins (adc_after a k m) a) \<ge> ai_sample_count ?x
        then adc_read_in (env m) (Suc (ticks m + 2 * k)) (ai_pin ?x)
        else adc_read_in (env m) (Suc (ticks m + 2 * k)) (ai_pin ?x) + ai_value (analog_ins (adc_after a k m) a))
      = adc_sum a m (Suc k)"
    and sta: "(if ai_state (analog_ins (adc_after a k m) a) \<ge> ai_sample_count ?x then 0
        else ai_state (analog_ins (adc_after a k m) a)) + 1 = ai_sample_count ?x"
    using v st adc_after_run(1) [OF assms(2) k] by auto
  have ready: "adc_sample_in (env m) (ticks m + 2 * k) (ai_pin ?x) = 0" using assms(3) by simp
  show "let total = adc_sum a m (Suc k);
         bad = \<not> (ai_min_value ?x \<le> total \<and> total \<le> ai_max_value ?x);
         fail = (bad \<and> ai_range_check_count ?x \<le> ai_invalid_count ?x + 1 \<and> shutdown_status m = 0)
     in case analog_in_event a (adc_after a k m) of
       Ok r m2 \<Rightarrow> r = SF_RESCHEDULE \<and> \<not> fail \<and> ai_value (analog_ins m2 a) = total \<and>
         ai_state (analog_ins m2 a) = ai_sample_count ?x \<and> wakes m2 analog_wake \<and>
         waketime (timers m2 (ObjTimer a)) = ai_next_begin_time ?x + ai_rest_time ?x
     | Shutdown s m2 \<Rightarrow> s = ''ADC out of range'' \<and> fail
     | Undef \<Rightarrow> False"
    unfolding analog_in_event_def Let_def
    by (simp add: adc_after_fields ready val sta state_upds sched_wake_task_def sched_wake_tasks_def
        sched_try_shutdown_def sched_shutdown_def bnd_app thn_app)
qed

definition sample_adc :: tmcuart_state where
  "sample_adc = sample_periph\<lparr>analog_ins := (\<lambda>_. zero_analog_in\<lparr>ai_pin := 3, ai_sample_count := 2, ai_state := 3,
     ai_max_value := 100, ai_rest_time := 500, ai_next_begin_time := 1000\<rparr>)\<rparr>"

theorem adc_batch_reports_sum_witness:
  "\<exists>m1. repeatM 1 (analog_in_event 4) sample_adc = Ok () m1 \<and>
    (case analog_in_event 4 m1 of
       Ok r m2 \<Rightarrow> r = SF_RESCHEDULE \<and> ai_value (analog_ins m2 4) = adc_sum 4 sample_adc 2 \<and>
         waketime (timers m2 (ObjTimer 4)) = 1500
     | _ \<Rightarrow> False)"
proof -
  have x: "analog_ins sample_adc 4 = zero_analog_in\<lparr>ai_pin := 3, ai_sample_count := 2, ai_state := 3,
     ai_max_value := 100, ai_rest_time := 500, ai_next_begin_time := 1000\<rparr>" "env sample_adc = sample_board"
    by (simp_all add: sample_adc_def sample_periph_endstop)
  have t: "adc_sum 4 sample_adc (Suc 1) = 0" "adc_sum 4 sample_adc 2 = 0"
    by (simp_all add: adc_sum_def x sample_board_def eval_nat_numeral)
  show ?thesis
    using adc_batch_reports_sum [of 1 sample_adc 4] t
    by (auto simp: x zero_analog_in_def sample_board_def Let_def split: res.splits)
qed

subsection \<open>Buttons\<close>

text \<open>The arrays of a buttons object are used within their bounds.\<close>

definition buttons_ok :: "buttons \<Rightarrow> bool" where
  "buttons_ok x \<longleftrightarrow> length (reports x) = 8 \<and> report_count x \<le> 8 \<and> button_count x \<le> 8 \<and>
     length (bt_pins x) = unat (button_count x)"

text \<open>The reports not yet acknowledged.\<close>

definition queued_reports :: "buttons \<Rightarrow> u8 list" where
  "queued_reports x = take (unat (report_count x)) (reports x)"

lemma read_pins_spec:
  assumes "length ps + k \<le> 8" and "\<forall>i \<ge> k. \<not> bit status i"
  shows "\<exists>st. read_pins ps (push_bit k 1) status m = Ok st (m\<lparr>ticks := ticks m + length ps\<rparr>) \<and>
    (\<forall>i. bit st i \<longleftrightarrow> (if i < k then bit status i else i < k + length ps \<and> gpio_in (env m) (ticks m + (i - k)) (ps ! (i - k))))"
  using assms
proof (induction ps arbitrary: k status m)
  case Nil
  then show ?case by (auto simp: leI)
next
  case (Cons p ps)
  let ?v = "gpio_in (env m) (ticks m) p"
  let ?st = "if ?v then status OR push_bit k 1 else status"
  let ?m = "m\<lparr>ticks := Suc (ticks m)\<rparr>"
  have k: "k < 8" using Cons.prems(1) by simp
  have b: "bit ?st i \<longleftrightarrow> (if i = k then ?v else bit status i)" for i
    using k Cons.prems(2) by (auto simp: bit_simps not_bit_beyond)
  have "\<forall>i \<ge> Suc k. \<not> bit ?st i" using b Cons.prems(2) by auto
  then obtain st where st: "read_pins ps (push_bit (Suc k) 1) ?st ?m = Ok st (?m\<lparr>ticks := ticks ?m + length ps\<rparr>)"
    "\<And>i. bit st i \<longleftrightarrow> (if i < Suc k then bit ?st i
       else i < Suc k + length ps \<and> gpio_in (env ?m) (ticks ?m + (i - Suc k)) (ps ! (i - Suc k)))"
    using Cons.IH [of "Suc k" ?st ?m] Cons.prems(1) by auto
  have "bit st i \<longleftrightarrow> (if i < k then bit status i
      else i < k + length (p # ps) \<and> gpio_in (env m) (ticks m + (i - k)) ((p # ps) ! (i - k)))" for i
  proof -
    consider "i < k" | "i = k" | "Suc k \<le> i" by linarith
    then show ?thesis
    proof cases
      case 3
      then have "i - k = Suc (i - Suc k)" by simp
      then show ?thesis using st(2) [of i] 3 by auto
    qed (use st(2) [of i] b in auto)
  qed
  moreover have "read_pins (p # ps) (push_bit k 1) status m = Ok st (m\<lparr>ticks := ticks m + length (p # ps)\<rparr>)"
  proof -
    have "push_bit 1 (push_bit k 1) = (push_bit (Suc k) 1 :: u8)" by (simp only: push_bit_push_bit plus_1_eq_Suc)
    then have "read_pins (p # ps) (push_bit k 1) status m = read_pins ps (push_bit (Suc k) 1) ?st ?m"
      by (simp only: read_pins.simps bnd_app board_app res.case)
    then show ?thesis unfolding st(1) by simp
  qed
  ultimately show ?case by blast
qed

lemma debounce_bits:
  fixes status old last :: u8
  defines "deb \<equiv> NOT (status XOR last)" and "new \<equiv> (old AND NOT (NOT (status XOR last))) OR (status AND NOT (status XOR last))"
  shows "bit new i \<longleftrightarrow> (if bit status i = bit last i then bit status i else bit old i)"
    and "new = old \<longleftrightarrow> (status XOR old) AND deb = 0"
proof -
  show b: "bit new i \<longleftrightarrow> (if bit status i = bit last i then bit status i else bit old i)" for i
    by (cases "i < 8") (auto simp: new_def bit_simps not_bit_beyond)
  have "new = old \<longleftrightarrow> (\<forall>i < 8. bit new i = bit old i)"
    by (auto intro: bit_word_eqI)
  also have "\<dots> \<longleftrightarrow> (\<forall>i < 8. \<not> bit ((status XOR old) AND deb) i)"
    unfolding b by (auto simp: deb_def bit_simps)
  also have "\<dots> \<longleftrightarrow> (status XOR old) AND deb = 0" by (auto intro: bit_word_eqI)
  finally show "new = old \<longleftrightarrow> (status XOR old) AND deb = 0" .
qed

lemma report_append:
  assumes "buttons_ok x" and "report_count x < 8"
  shows "take (unat (report_count x + 1)) ((reports x)[unat (report_count x) := v]) = queued_reports x @ [v]"
    and "report_count x + 1 \<le> 8"
proof -
  have r: "unat (report_count x) < 8" using assms(2) by (simp add: word_less_nat_alt)
  then have u: "unat (report_count x + 1) = Suc (unat (report_count x))"
    by (simp add: unat_word_ariths)
  show "take (unat (report_count x + 1)) ((reports x)[unat (report_count x) := v]) = queued_reports x @ [v]"
    unfolding u queued_reports_def using assms(1) r
    by (simp add: buttons_ok_def take_Suc_conv_app_nth)
  show "report_count x + 1 \<le> 8" using r u by (simp add: word_le_nat_alt)
qed

text \<open>What a poll that read \<open>st\<close> makes of a buttons object.\<close>

definition debounced :: "u8 \<Rightarrow> buttons \<Rightarrow> u8" where
  "debounced st x = (let deb = NOT (st XOR last_pressed x) in (pressed x AND NOT deb) OR (st AND deb))"

definition polled :: "u8 \<Rightarrow> buttons \<Rightarrow> buttons" where
  "polled st x =
     (let new = debounced st x;
          x1 = (if new \<noteq> pressed x then
                  (if report_count x < 8
                   then x\<lparr>pressed := new, reports := (reports x)[unat (report_count x) := new],
                          report_count := report_count x + 1, retransmit_state := BF_PENDING\<rparr>
                   else x\<lparr>pressed := new\<rparr>)
                else x);
          rs = retransmit_state x1
      in x1\<lparr>last_pressed := st, retransmit_state := (if has_flag rs BF_NO_RETRANSMIT then rs else rs - 1)\<rparr>)"

lemma debounced_bits:
  "bit (debounced st x) i \<longleftrightarrow> (if bit st i = bit (last_pressed x) i then bit st i else bit (pressed x) i)"
  "debounced st x \<noteq> pressed x \<longleftrightarrow>
     st XOR pressed x \<noteq> 0 \<and> (st XOR pressed x) AND NOT (st XOR last_pressed x) \<noteq> 0"
  unfolding debounced_def Let_def using debounce_bits [where status = st and old = "pressed x" and last = "last_pressed x"]
  by auto

lemma buttons_event_polled:
  assumes "length (bt_pins (buttonss m b)) = unat (button_count (buttonss m b))"
    and "read_pins (bt_pins (buttonss m b)) 1 0 m = Ok st (m\<lparr>ticks := t\<rparr>)"
  shows "\<exists>m'. buttons_event b m = Ok SF_RESCHEDULE m' \<and> buttonss m' b = polled st (buttonss m b)"
proof -
  let ?x = "buttonss m b"
  have c: "(st XOR pressed ?x \<noteq> 0 \<and> (st XOR pressed ?x) AND NOT (st XOR last_pressed ?x) \<noteq> 0) =
      (debounced st ?x \<noteq> pressed ?x)"
    unfolding debounced_bits(2) ..
  have d: "(pressed ?x AND (st XOR last_pressed ?x)) OR (st AND NOT (st XOR last_pressed ?x)) = debounced st ?x"
    by (simp add: debounced_def)
  show ?thesis
    unfolding buttons_event_def Let_def
    by (simp only: bnd_app reads_app res.case assms le_refl order_less_irrefl if_False take_all c)
      (auto simp: polled_def Let_def d state_upds sched_wake_task_def sched_wake_tasks_def thn_app bnd_app)
qed

lemma polled_ok:
  assumes "buttons_ok x"
  shows "buttons_ok (polled st x)"
    and "queued_reports (polled st x) = queued_reports x @
       (if debounced st x \<noteq> pressed x \<and> report_count x < 8 then [debounced st x] else [])"
    and "pressed (polled st x) = debounced st x" and "last_pressed (polled st x) = st"
  using assms report_append(1) [OF assms, of "debounced st x"] report_append(2) [OF assms]
  by (auto simp: polled_def Let_def buttons_ok_def queued_reports_def)

text \<open>
  Buttons are debounced and every change is reported.  One poll reads the pins into a
  status byte; a button's state follows the status exactly if the last two polls agree on it,
  and is kept otherwise; the new states are queued as a report exactly if they differ from the
  old ones and fewer than eight reports wait.  The poll always returns and keeps the arrays
  within their bounds.
\<close>

theorem buttons_event_debounces:
  assumes "buttons_ok (buttonss m b)"
  shows "\<exists>m' status. buttons_event b m = Ok SF_RESCHEDULE m' \<and>
    (\<forall>i. bit status i \<longleftrightarrow> i < unat (button_count (buttonss m b)) \<and>
       gpio_in (env m) (ticks m + i) (bt_pins (buttonss m b) ! i)) \<and>
    last_pressed (buttonss m' b) = status \<and>
    (\<forall>i. bit (pressed (buttonss m' b)) i \<longleftrightarrow>
       (if bit status i = bit (last_pressed (buttonss m b)) i then bit status i else bit (pressed (buttonss m b)) i)) \<and>
    queued_reports (buttonss m' b) = queued_reports (buttonss m b) @
       (if pressed (buttonss m' b) \<noteq> pressed (buttonss m b) \<and> report_count (buttonss m b) < 8
        then [pressed (buttonss m' b)] else []) \<and>
    buttons_ok (buttonss m' b)"
proof -
  let ?x = "buttonss m b" and ?n = "unat (button_count (buttonss m b))"
  have n: "?n \<le> 8" "length (bt_pins ?x) = ?n" using assms by (simp_all add: buttons_ok_def word_le_nat_alt)
  obtain st where st: "read_pins (bt_pins ?x) 1 0 m = Ok st (m\<lparr>ticks := ticks m + ?n\<rparr>)"
    "\<And>i. bit st i \<longleftrightarrow> i < ?n \<and> gpio_in (env m) (ticks m + i) (bt_pins ?x ! i)"
    using read_pins_spec [of "bt_pins ?x" 0 0 m] n by auto
  obtain m' where m': "buttons_event b m = Ok SF_RESCHEDULE m'" "buttonss m' b = polled st ?x"
    using buttons_event_polled [OF n(2) st(1)] by blast
  show ?thesis
    using m' st(2) polled_ok [OF assms, of st] debounced_bits(1) [of st ?x]
    by (intro exI [of _ m'] exI [of _ st]) auto
qed

definition sample_buttons :: tmcuart_state where
  "sample_buttons = sample_periph\<lparr>buttonss := (\<lambda>_. (zero_buttons 2)\<lparr>button_count := 2, pressed := 1, last_pressed := 0\<rparr>)\<rparr>"

theorem buttons_event_debounces_witness:
  "\<exists>m' status. buttons_event 6 sample_buttons = Ok SF_RESCHEDULE m' \<and> last_pressed (buttonss m' 6) = status \<and>
     buttons_ok (buttonss m' 6)"
proof -
  have "buttons_ok (buttonss sample_buttons 6)"
    by (simp add: sample_buttons_def buttons_ok_def zero_buttons_def)
  from buttons_event_debounces [OF this] show ?thesis by blast
qed

lemma to_u8_to_u32: "to_u8 (to_u32 b) = b" for b :: u8
  by transfer simp

lemma shift_reports_nth:
  assumes "i + n + c \<le> length rs"
  shows "length (shift_reports c i n rs) = length rs \<and>
    (\<forall>j < length rs. shift_reports c i n rs ! j = (if i \<le> j \<and> j < i + n then rs ! (j + c) else rs ! j))"
  using assms
proof (induction n arbitrary: i rs)
  case (Suc n)
  let ?rs = "rs[i := rs ! (i + c)]"
  have IH: "length (shift_reports c (Suc i) n ?rs) = length ?rs"
    "\<And>j. j < length ?rs \<Longrightarrow> shift_reports c (Suc i) n ?rs ! j =
       (if Suc i \<le> j \<and> j < Suc i + n then ?rs ! (j + c) else ?rs ! j)"
    using Suc.IH [of "Suc i" ?rs] Suc.prems by auto
  have "shift_reports c i (Suc n) rs ! j = (if i \<le> j \<and> j < i + Suc n then rs ! (j + c) else rs ! j)"
    if "j < length rs" for j
    using IH(2) [of j] that Suc.prems by (cases "j = i") (auto simp: nth_list_update)
  then show ?case using IH(1) by simp
qed auto

lemma shift_reports_drop:
  assumes "n + c \<le> length rs"
  shows "take n (shift_reports c 0 n rs) = take n (drop c rs)" and "length (shift_reports c 0 n rs) = length rs"
  using shift_reports_nth [of 0 n c rs] assms
  by (auto intro!: nth_equalityI simp: add.commute)

text \<open>
  Acknowledging reports removes exactly the oldest ones.  An acknowledgement of \<open>count\<close>
  reports leaves the others in order (none if there were not more), adds to the
  acknowledgement counter, and keeps the arrays within their bounds.
\<close>

theorem buttons_ack_drops:
  assumes "buttons_ok (buttonss m b)" and "oid_lookup b config_buttons m = Ok () m"
    and "args = [to_u32 b, to_u32 count]"
  shows "\<exists>m'. command_buttons_ack args m = Ok () m' \<and>
    queued_reports (buttonss m' b) = drop (unat count) (queued_reports (buttonss m b)) \<and>
    ack_count (buttonss m' b) = ack_count (buttonss m b) + count \<and> buttons_ok (buttonss m' b)"
proof -
  let ?x = "buttonss m b"
  have a: "to_u8 (args ! 0) = b" "to_u8 (args ! 1) = count" using assms(3) by (simp_all add: to_u8_to_u32)
  have rc: "unat (report_count ?x) \<le> 8" "length (reports ?x) = 8"
    using assms(1) by (simp_all add: buttons_ok_def word_le_nat_alt)
  show ?thesis
  proof (cases "count \<ge> report_count ?x")
    case True
    then have "drop (unat count) (queued_reports ?x) = []" by (simp add: queued_reports_def word_le_nat_alt)
    then show ?thesis using True assms(1,2) a
      by (simp add: command_buttons_ack_def Let_def state_upds) (simp add: queued_reports_def buttons_ok_def)
  next
    case False
    then have u: "unat (report_count ?x - count) = unat (report_count ?x) - unat count"
      by (simp add: unat_sub word_le_nat_alt)
    have le: "unat (report_count ?x) - unat count + unat count \<le> length (reports ?x)"
      using False rc by (simp add: word_le_nat_alt)
    show ?thesis using False assms(1,2) a u shift_reports_drop [OF le] rc
      by (simp add: command_buttons_ack_def Let_def state_upds)
        (simp add: queued_reports_def buttons_ok_def drop_take word_le_nat_alt)
  qed
qed

theorem buttons_ack_drops_witness:
  "\<exists>m'. command_buttons_ack [6, 1] (sample_buttons\<lparr>oid_count := 10, oids := Some (\<lambda>_. \<lparr>otyp = Some config_buttons, odata = Some 0\<rparr>),
       buttonss := (\<lambda>_. (zero_buttons 2)\<lparr>button_count := 2, report_count := 2, reports := [7, 8, 0, 0, 0, 0, 0, 0]\<rparr>)\<rparr>) = Ok () m' \<and>
     queued_reports (buttonss m' 6) = [8]"
proof -
  define m where "m = sample_buttons\<lparr>oid_count := 10, oids := Some (\<lambda>_. \<lparr>otyp = Some config_buttons, odata = Some 0\<rparr>),
       buttonss := (\<lambda>_. (zero_buttons 2)\<lparr>button_count := 2, report_count := 2, reports := [7, 8, 0, 0, 0, 0, 0, 0]\<rparr>)\<rparr>"
  have "buttons_ok (buttonss m 6)" "oid_lookup 6 config_buttons m = Ok () m"
    "[6, 1] = [to_u32 (6 :: u8), to_u32 (1 :: u8)]" "queued_reports (buttonss m 6) = [7, 8]"
    by (simp_all add: m_def buttons_ok_def zero_buttons_def oid_lookup_def queued_reports_def)
  then show ?thesis using buttons_ack_drops [of m 6 "[6, 1]" 1] unfolding m_def [symmetric] by auto
qed

end
