(* ===== verification/Outputs.thy ===== *)
theory Outputs
  imports Inputs
begin

text \<open>
  Correctness of the output modules: a digital or pulse width modulated output is never left
  away from its default for longer than allowed, and the single wire uart puts the bits of
  its buffer on the line.
\<close>

subsection \<open>Flags\<close>

lemmas df_defs = DF_ON_def DF_TOGGLING_def DF_CHECK_END_def DF_DEFAULT_ON_def

lemma has_flag_or: "has_flag (a OR b) f \<longleftrightarrow> has_flag a f \<or> has_flag b f"
  by (simp add: has_flag_def bit.conj_disj_distrib2 or_eq_0_iff)

lemma next_end_time_flags:
  "has_flag (fst (next_end_time x w d)) DF_CHECK_END \<longleftrightarrow> do_max_duration x \<noteq> 0 \<and>
     \<not> ((d = 0 \<or> d \<ge> cycle_time x) \<and> (d \<noteq> 0) = has_flag (do_flags x) DF_DEFAULT_ON)"
  "has_flag (fst (next_end_time x w d)) DF_TOGGLING \<longleftrightarrow> d \<noteq> 0 \<and> d < cycle_time x"
  "has_flag (fst (next_end_time x w d)) DF_CHECK_END \<Longrightarrow> snd (next_end_time x w d) = w + do_max_duration x"
  by (auto simp: next_end_time_def Let_def has_flag_def df_defs split: if_splits)

subsection \<open>Digital outputs\<close>

lemma move_free_app: "move_free x m = Ok () (m\<lparr>mnext := (mnext m)(x := move_free_list m), move_free_list := Some x\<rparr>)"
  by (simp add: move_free_def)

text \<open>The last part of \<^verbatim>\<open>digital_load_event\<close>, after the queue has been looked at.\<close>

lemma move_queue_pop_Ok: "move_queue_pop mq m = Ok r m1 \<Longrightarrow> mq_first mq = Some (fst r) \<and> m1 = m"
  by (auto simp: move_queue_pop_def split: option.splits)

lemma digital_load_parts:
  assumes "digital_load_event d m = Ok r m'" and "mq_first (do_mq (digital_outs m d)) = Some mv"
  defines "x \<equiv> digital_outs m d" and "w \<equiv> waketime (timers m (ObjTimer d))"
    and "v \<equiv> dm_on_duration (digital_moves m mv)"
  shows "\<exists>flags e. has_flag flags DF_TOGGLING = has_flag (fst (next_end_time x w v)) DF_TOGGLING \<and>
    (has_flag (fst (next_end_time x w v)) DF_CHECK_END \<longrightarrow> has_flag flags DF_CHECK_END \<and>
       \<not> timer_is_before (snd (next_end_time x w v)) e) \<and>
    do_flags (digital_outs m' d) = flags OR (do_flags x AND DF_DEFAULT_ON) \<and> end_time (digital_outs m' d) = e \<and>
    (has_flag flags DF_CHECK_END \<longrightarrow> r = SF_RESCHEDULE \<and>
       (waketime (timers m' (ObjTimer d)) = e \<or>
        func (timers m' (ObjTimer d)) = Some digital_toggle_event_f \<and> timer_is_before (waketime (timers m' (ObjTimer d))) e)) \<and>
    out m' = out m @ [GpioOutWrite (do_pin x) (v \<noteq> 0)]"
proof -
  obtain f0 e0 where fe: "next_end_time x w v = (f0, e0)" by fastforce
  have tog: "has_flag (f0 OR DF_CHECK_END) DF_TOGGLING = has_flag f0 DF_TOGGLING"
    "has_flag (f0 OR DF_CHECK_END) DF_CHECK_END"
    by (simp_all add: has_flag_or) (simp_all add: has_flag_def df_defs)
  show ?thesis
  proof (cases "mnext m mv")
    case None
    show ?thesis
      using assms(1,2) None unfolding digital_load_event_def fe
      by (intro exI [of _ f0] exI [of _ e0])
        (auto simp: bnd_app thn_app move_queue_empty_def move_queue_pop_def move_queue_first_def upd_do_def
          gpio_out_write_def move_free_app upd_timer_def set_timer_def fe [unfolded x_def w_def v_def]
          sched_shutdown_def tog x_def w_def v_def split: if_splits)
  next
    case (Some nn)
    show ?thesis
      using assms(1,2) Some unfolding digital_load_event_def fe
      by (intro exI [of _ "f0 OR DF_CHECK_END"] exI [of _ "dm_waketime (digital_moves m nn)"])
        (auto simp: bnd_app thn_app move_queue_empty_def move_queue_pop_def move_queue_first_def upd_do_def
          gpio_out_write_def move_free_app upd_timer_def set_timer_def fe [unfolded x_def w_def v_def]
          sched_shutdown_def tog x_def w_def v_def split: if_splits)
  qed
qed

text \<open>
  C39: a digital output leaves its default only for a limited time.  When a new setting is
  loaded that is not the constant default (the other level, or pulses) and a maximum duration
  is configured, the event is rescheduled with a time limit that is not after the wake time
  plus the maximum, and the next event is due at the limit or before it.
\<close>

theorem digital_load_bounded:
  assumes "digital_load_event d m = Ok r m'" and "mq_first (do_mq (digital_outs m d)) = Some mv"
    and "do_max_duration (digital_outs m d) \<noteq> 0"
    and "\<not> ((dm_on_duration (digital_moves m mv) = 0 \<or> cycle_time (digital_outs m d) \<le> dm_on_duration (digital_moves m mv)) \<and>
      (dm_on_duration (digital_moves m mv) \<noteq> 0) = has_flag (do_flags (digital_outs m d)) DF_DEFAULT_ON)"
  shows "r = SF_RESCHEDULE \<and> has_flag (do_flags (digital_outs m' d)) DF_CHECK_END \<and>
    \<not> timer_is_before (waketime (timers m (ObjTimer d)) + do_max_duration (digital_outs m d)) (end_time (digital_outs m' d)) \<and>
    (waketime (timers m' (ObjTimer d)) = end_time (digital_outs m' d) \<or>
     func (timers m' (ObjTimer d)) = Some digital_toggle_event_f \<and>
       timer_is_before (waketime (timers m' (ObjTimer d))) (end_time (digital_outs m' d))) \<and>
    out m' = out m @ [GpioOutWrite (do_pin (digital_outs m d)) (dm_on_duration (digital_moves m mv) \<noteq> 0)]"
proof -
  let ?x = "digital_outs m d" and ?w = "waketime (timers m (ObjTimer d))"
    and ?v = "dm_on_duration (digital_moves m mv)"
  have c: "has_flag (fst (next_end_time ?x ?w ?v)) DF_CHECK_END"
    using assms(3,4) by (simp add: next_end_time_flags(1))
  show ?thesis
    using digital_load_parts [OF assms(1,2)] c next_end_time_flags(3) [OF c] has_flag_or by auto
qed

definition sample_outputs :: tmcuart_state where
  "sample_outputs = sample_periph
     \<lparr>digital_outs := (\<lambda>_. zero_digital_out\<lparr>do_pin := 9, do_max_duration := 1000, cycle_time := 500,
        do_mq := \<lparr>mq_first = Some 0x2000, mq_last = Some 0x2000\<rparr>\<rparr>),
      digital_moves := (\<lambda>_. \<lparr>dm_waketime = 100, dm_on_duration = 200\<rparr>), mnext := (\<lambda>_. None),
      pwm_outs := (\<lambda>_. zero_pwm_out\<lparr>po_pin := 7, po_max_duration := 1000,
        po_mq := \<lparr>mq_first = Some 0x2000, mq_last = Some 0x2000\<rparr>\<rparr>),
      pwm_moves := (\<lambda>_. \<lparr>pm_waketime = 100, pm_value = 30\<rparr>)\<rparr>"

lemma sample_outputs_fields:
  "digital_outs sample_outputs d = zero_digital_out\<lparr>do_pin := 9, do_max_duration := 1000, cycle_time := 500,
     do_mq := \<lparr>mq_first = Some 0x2000, mq_last = Some 0x2000\<rparr>\<rparr>"
  "digital_moves sample_outputs x = \<lparr>dm_waketime = 100, dm_on_duration = 200\<rparr>" "mnext sample_outputs x = None"
  "pwm_outs sample_outputs d = zero_pwm_out\<lparr>po_pin := 7, po_max_duration := 1000,
     po_mq := \<lparr>mq_first = Some 0x2000, mq_last = Some 0x2000\<rparr>\<rparr>"
  "pwm_moves sample_outputs x = \<lparr>pm_waketime = 100, pm_value = 30\<rparr>" "out sample_outputs = []"
  "waketime (timers sample_outputs (ObjTimer d)) = 0"
  by (simp_all add: sample_outputs_def sample_periph_endstop) (simp add: periph_defs timers_init_def)

theorem digital_load_bounded_witness:
  "\<exists>m'. digital_load_event 8 sample_outputs = Ok SF_RESCHEDULE m' \<and> out m' = [GpioOutWrite 9 True] \<and>
     has_flag (do_flags (digital_outs m' 8)) DF_CHECK_END"
proof -
  let ?m = sample_outputs
  obtain m' where m': "digital_load_event 8 ?m = Ok SF_RESCHEDULE m'"
    by (simp add: digital_load_event_def sample_outputs_fields zero_digital_out_def move_queue_empty_def
        move_queue_pop_def move_queue_first_def next_end_time_def has_flag_def df_defs upd_do_def upd_timer_def
        gpio_out_write_def move_free_app timer_is_before_def bnd_app thn_app)
  moreover have "mq_first (do_mq (digital_outs ?m 8)) = Some 0x2000" "do_max_duration (digital_outs ?m 8) \<noteq> 0"
    "\<not> ((dm_on_duration (digital_moves ?m 0x2000) = 0 \<or> cycle_time (digital_outs ?m 8) \<le> dm_on_duration (digital_moves ?m 0x2000)) \<and>
      (dm_on_duration (digital_moves ?m 0x2000) \<noteq> 0) = has_flag (do_flags (digital_outs ?m 8)) DF_DEFAULT_ON)"
    "do_pin (digital_outs ?m 8) = 9" "dm_on_duration (digital_moves ?m 0x2000) \<noteq> 0" "out ?m = []"
    by (simp_all add: sample_outputs_fields zero_digital_out_def)
  ultimately show ?thesis using digital_load_bounded [of 8 ?m SF_RESCHEDULE m' "0x2000"] by auto
qed

text \<open>
  The limit of a digital output is enforced.  While pulses are produced, a toggle event
  keeps the limit and never schedules anything behind it: the next event is before the limit,
  or it is the load event at the limit.  A load event that finds no new setting shuts the
  machine down.
\<close>

theorem digital_limit_enforced:
  assumes "has_flag (do_flags (digital_outs m d)) DF_CHECK_END"
  shows "\<exists>m'. digital_toggle_event d m = Ok SF_RESCHEDULE m' \<and>
    end_time (digital_outs m' d) = end_time (digital_outs m d) \<and>
    has_flag (do_flags (digital_outs m' d)) DF_CHECK_END \<and>
    (timer_is_before (waketime (timers m' (ObjTimer d))) (end_time (digital_outs m d)) \<or>
     waketime (timers m' (ObjTimer d)) = end_time (digital_outs m d) \<and>
       func (timers m' (ObjTimer d)) = Some digital_load_event_f) \<and>
    (mq_first (do_mq (digital_outs m d)) = None \<longrightarrow>
       digital_load_event d m = Shutdown ''Missed scheduling of next digital out event'' (m\<lparr>irq_on := False\<rparr>))"
proof -
  have x: "has_flag (f XOR DF_ON) DF_CHECK_END = has_flag f DF_CHECK_END" for f
  proof -
    have "(f XOR 1) AND 4 = f AND (4 :: u8)" by (simp add: bit.conj_xor_distrib2)
    then show ?thesis by (simp add: has_flag_def df_defs)
  qed
  show ?thesis
    using assms
    by (auto simp: digital_toggle_event_def gpio_out_toggle_noirq_def upd_do_def upd_timer_def set_timer_def x Let_def
        digital_load_event_def move_queue_empty_def sched_shutdown_def bnd_app thn_app)
qed

theorem digital_limit_enforced_witness:
  "\<exists>m'. digital_toggle_event 8 (sample_outputs\<lparr>digital_outs := (\<lambda>_. zero_digital_out\<lparr>do_flags := 7, end_time := 900\<rparr>)\<rparr>)
     = Ok SF_RESCHEDULE m' \<and> end_time (digital_outs m' 8) = 900"
proof -
  define m where "m = sample_outputs\<lparr>digital_outs := (\<lambda>_. zero_digital_out\<lparr>do_flags := 7, end_time := 900\<rparr>)\<rparr>"
  have "has_flag (do_flags (digital_outs m 8)) DF_CHECK_END" "end_time (digital_outs m 8) = 900"
    by (simp_all add: m_def has_flag_def df_defs)
  then show ?thesis using digital_limit_enforced [of m 8] unfolding m_def by auto
qed

subsection \<open>Pulse width modulated outputs\<close>

text \<open>
  A modulated output leaves its default value only for a limited time.  When a value other
  than the default is set and a maximum duration is configured, the next event is either the
  next queued update, no later than the maximum after this one, or the event that shuts the
  machine down, at exactly that time.
\<close>

theorem pwm_event_bounded:
  assumes "pwm_event p m = Ok r m'" and "mq_first (po_mq (pwm_outs m p)) = Some mv"
    and "po_max_duration (pwm_outs m p) \<noteq> 0" and "pm_value (pwm_moves m mv) \<noteq> default_value (pwm_outs m p)"
  shows "r = SF_RESCHEDULE \<and> out m' = out m @ [GpioPwmWrite (po_pin (pwm_outs m p)) (pm_value (pwm_moves m mv))] \<and>
    (case mnext m mv of
       None \<Rightarrow> func (timers m' (ObjTimer p)) = Some pwm_end_event_f \<and>
         waketime (timers m' (ObjTimer p)) = waketime (timers m (ObjTimer p)) + po_max_duration (pwm_outs m p) \<and>
         pwm_end_event p m' = Shutdown ''Missed scheduling of next hard pwm event'' (m'\<lparr>irq_on := False\<rparr>)
     | Some nn \<Rightarrow> func (timers m' (ObjTimer p)) = func (timers m (ObjTimer p)) \<and>
         waketime (timers m' (ObjTimer p)) = pm_waketime (pwm_moves m nn) \<and>
         \<not> timer_is_before (waketime (timers m (ObjTimer p)) + po_max_duration (pwm_outs m p))
             (waketime (timers m' (ObjTimer p))))"
proof (cases "mnext m mv")
  case None
  then show ?thesis using assms
    by (auto simp: pwm_event_def pwm_end_event_def move_queue_pop_def move_queue_first_def upd_po_def gpio_pwm_write_def
        move_free_app upd_timer_def set_timer_def sched_shutdown_def bnd_app thn_app)
next
  case (Some nn)
  then show ?thesis using assms
    by (auto simp: pwm_event_def move_queue_pop_def move_queue_first_def upd_po_def gpio_pwm_write_def
        move_free_app upd_timer_def set_timer_def sched_shutdown_def bnd_app thn_app split: if_splits)
qed

theorem pwm_event_bounded_witness:
  "\<exists>m'. pwm_event 8 sample_outputs = Ok SF_RESCHEDULE m' \<and> waketime (timers m' (ObjTimer 8)) = 1000"
proof -
  obtain m' where "pwm_event 8 sample_outputs = Ok SF_RESCHEDULE m'"
    by (simp add: pwm_event_def sample_outputs_fields zero_pwm_out_def move_queue_pop_def move_queue_first_def
        upd_po_def upd_timer_def gpio_pwm_write_def move_free_app bnd_app thn_app)
  then show ?thesis using pwm_event_bounded [of 8 sample_outputs SF_RESCHEDULE m' "0x2000"]
    by (simp add: sample_outputs_fields zero_pwm_out_def)
qed

subsection \<open>The single wire uart\<close>

text \<open>Bit \<open>i\<close> of the buffer, in the order of transmission.\<close>

definition data_bit :: "u8 list \<Rightarrow> nat \<Rightarrow> bool" where
  "data_bit data i \<longleftrightarrow> bit (data ! (i div 8)) (i mod 8)"

lemma unat_drop3: "unat (drop_bit 3 p) = unat p div 8" for p :: u8
  by (subst unsigned_drop_bit_eq) (simp add: drop_bit_eq_div take_bit_eq_mod unat_u8_bound)

lemma unat_and7: "unat (p AND 7) = unat p mod 8" for p :: u8
proof -
  have "p AND 7 = take_bit 3 p" by (simp add: take_bit_eq_mask mask_eq_exp_minus_1)
  then show ?thesis by (simp only: unsigned_take_bit_eq) (simp add: take_bit_eq_mod)
qed

lemma drop_bit_one: "drop_bit k x AND 1 = 1 \<longleftrightarrow> bit x k" for x :: u8
  by (simp add: bit_iff_odd_drop_bit and_one_eq odd_iff_mod_2_eq_one)

lemma upd_tu_app: "upd_tu u f m = Ok () (m\<lparr>tmcuarts := (tmcuarts m)(u := f (tmcuarts m u))\<rparr>)"
  by (simp add: upd_tu_def)

lemma has_flag_one: "has_flag f 1 = bit f 0"
  by (simp add: has_flag_def and_one_eq bit_0 odd_iff_mod_2_eq_one)

lemma find_toggle_spec:
  assumes "unat wc \<le> 8 * length data" and "unat pos < unat wc" and "unat wc - unat pos \<le> n"
  shows "\<exists>p. unat pos < p \<and> p \<le> unat wc \<and> (\<forall>i. unat pos < i \<and> i < p \<longrightarrow> data_bit data i = line) \<and>
    (p < unat wc \<longrightarrow> data_bit data p \<noteq> line) \<and>
    find_toggle n data wc line bt pos nxt m =
      Ok (if p = unat wc then NoToggle (nxt + of_nat (p - unat pos - 1) * bt)
          else Toggle (of_nat p) (nxt + of_nat (p - unat pos - 1) * bt)) m"
  using assms
proof (induction n arbitrary: pos nxt)
  case (Suc n)
  have u: "unat (pos + 1) = Suc (unat pos)"
    using Suc.prems(2) unat_u8_bound [of wc] by (simp add: unat_word_ariths)
  show ?case
  proof (cases "Suc (unat pos) = unat wc")
    case True
    then have "pos + 1 \<ge> wc" using u by (simp add: word_le_nat_alt)
    then show ?thesis using True by (intro exI [of _ "unat wc"]) (auto simp: Let_def)
  next
    case False
    then have lt: "Suc (unat pos) < unat wc" using Suc.prems(2) by simp
    then have nle: "\<not> pos + 1 \<ge> wc" using u by (simp add: word_le_nat_alt)
    have idx: "unat (drop_bit 3 (pos + 1)) = Suc (unat pos) div 8" "\<not> Suc (unat pos) div 8 \<ge> length data"
      using lt Suc.prems(1) by (simp_all add: unat_drop3 u)
    have b: "(drop_bit (unat (pos + 1 AND 7)) (data ! (Suc (unat pos) div 8)) AND 1 = 1) = data_bit data (Suc (unat pos))"
      unfolding drop_bit_one by (simp add: unat_and7 u data_bit_def)
    show ?thesis
    proof (cases "data_bit data (Suc (unat pos)) = line")
      case same: True
      have fuel: "unat wc - Suc (unat pos) \<le> n" using Suc.prems(3) by simp
      obtain p where p: "Suc (unat pos) < p" "p \<le> unat wc" "\<And>i. Suc (unat pos) < i \<Longrightarrow> i < p \<Longrightarrow> data_bit data i = line"
        "p < unat wc \<longrightarrow> data_bit data p \<noteq> line"
        "find_toggle n data wc line bt (pos + 1) (nxt + bt) m =
          Ok (if p = unat wc then NoToggle (nxt + bt + of_nat (p - Suc (unat pos) - 1) * bt)
              else Toggle (of_nat p) (nxt + bt + of_nat (p - Suc (unat pos) - 1) * bt)) m"
        using Suc.IH [of "pos + 1" "nxt + bt", unfolded u, OF Suc.prems(1) lt fuel] by blast
      have "p - unat pos - 1 = Suc (p - Suc (unat pos) - 1)" using p(1) by simp
      then have t: "nxt + bt + of_nat (p - Suc (unat pos) - 1) * bt = nxt + of_nat (p - unat pos - 1) * bt"
        by (simp add: algebra_simps)
      have all: "data_bit data i = line" if "unat pos < i" "i < p" for i
        using p(3) [of i] same that by (cases "i = Suc (unat pos)") auto
      have "find_toggle (Suc n) data wc line bt pos nxt m = find_toggle n data wc line bt (pos + 1) (nxt + bt) m"
        using nle idx b same by (simp add: Let_def)
      then show ?thesis using p(1,2,4,5) all unfolding t by (intro exI [of _ p]) auto
    next
      case False
      have "(of_nat (Suc (unat pos)) :: u8) = pos + 1" by simp
      moreover have "find_toggle (Suc n) data wc line bt pos nxt m = Ok (Toggle (pos + 1) nxt) m"
        using nle idx b False by (simp add: Let_def)
      ultimately show ?thesis using lt False by (intro exI [of _ "Suc (unat pos)"]) auto
    qed
  qed
qed simp

text \<open>
  C40: the uart puts its buffer on the line bit by bit.  A send event at position \<open>pos\<close>, with the
  line not yet at the level of bit \<open>pos\<close>, toggles the line to that level and finds the next
  position \<open>p\<close> where the data differs from it (or the end of the data): the line stays right for
  all bits in between, the next event comes exactly \<open>p - pos\<close> bit times later, and it is again a
  send event at a bit that differs, or the event that finishes the transmission.
\<close>

theorem tmcuart_send_waveform:
  assumes "unat (write_count (tmcuarts m u)) \<le> 8 * length (tu_data (tmcuarts m u))"
    and "unat (tu_pos (tmcuarts m u)) < unat (write_count (tmcuarts m u))"
    and "data_bit (tu_data (tmcuarts m u)) (unat (tu_pos (tmcuarts m u))) \<noteq> has_flag (tu_flags (tmcuarts m u)) TU_LINE_HIGH"
  shows "\<exists>m' p. tmcuart_send_event u m = Ok SF_RESCHEDULE m' \<and> out m' = out m @ [GpioOutToggle (tx_pin (tmcuarts m u))] \<and>
    unat (tu_pos (tmcuarts m u)) < p \<and> p \<le> unat (write_count (tmcuarts m u)) \<and>
    (\<forall>i. unat (tu_pos (tmcuarts m u)) \<le> i \<and> i < p \<longrightarrow>
       data_bit (tu_data (tmcuarts m u)) i = has_flag (tu_flags (tmcuarts m' u)) TU_LINE_HIGH) \<and>
    waketime (timers m' (ObjTimer u)) = waketime (timers m (ObjTimer u)) +
       of_nat (p - unat (tu_pos (tmcuarts m u))) * bit_time (tmcuarts m u) \<and>
    tu_data (tmcuarts m' u) = tu_data (tmcuarts m u) \<and>
    (if p = unat (write_count (tmcuarts m u)) then func (timers m' (ObjTimer u)) = Some tmcuart_send_finish_event_f
     else func (timers m' (ObjTimer u)) = func (timers m (ObjTimer u)) \<and> tu_pos (tmcuarts m' u) = of_nat p \<and>
       data_bit (tu_data (tmcuarts m u)) p \<noteq> has_flag (tu_flags (tmcuarts m' u)) TU_LINE_HIGH)"
proof -
  let ?x = "tmcuarts m u"
  let ?line = "has_flag (tu_flags ?x XOR TU_LINE_HIGH) TU_LINE_HIGH"
  have flip: "?line = (\<not> has_flag (tu_flags ?x) TU_LINE_HIGH)"
    unfolding TU_LINE_HIGH_def has_flag_one by (simp only: bit_xor_iff bit_1_iff) simp
  define m1 where "m1 = m\<lparr>out := out m @ [GpioOutToggle (tx_pin ?x)],
    tmcuarts := (tmcuarts m)(u := ?x\<lparr>tu_flags := tu_flags ?x XOR TU_LINE_HIGH\<rparr>)\<rparr>"
  have fuel: "unat (write_count ?x) - unat (tu_pos ?x) \<le> 256" using unat_u8_bound [of "write_count ?x"] by simp
  obtain p where p: "unat (tu_pos ?x) < p" "p \<le> unat (write_count ?x)"
    "\<And>i. unat (tu_pos ?x) < i \<Longrightarrow> i < p \<Longrightarrow> data_bit (tu_data ?x) i = ?line"
    "p < unat (write_count ?x) \<longrightarrow> data_bit (tu_data ?x) p \<noteq> ?line"
    "find_toggle 256 (tu_data ?x) (write_count ?x) ?line (bit_time ?x) (tu_pos ?x) (bit_time ?x) m1 =
      Ok (if p = unat (write_count ?x) then NoToggle (bit_time ?x + of_nat (p - unat (tu_pos ?x) - 1) * bit_time ?x)
          else Toggle (of_nat p) (bit_time ?x + of_nat (p - unat (tu_pos ?x) - 1) * bit_time ?x)) m1"
    using find_toggle_spec [OF assms(1,2) fuel, of ?line "bit_time ?x" "bit_time ?x" m1] by blast
  have d: "p - unat (tu_pos ?x) = Suc (p - unat (tu_pos ?x) - 1)" using p(1) by simp
  have t: "bit_time ?x + of_nat (p - unat (tu_pos ?x) - 1) * bit_time ?x = of_nat (p - unat (tu_pos ?x)) * bit_time ?x"
    by (subst (2) d) (simp add: algebra_simps)
  have start: "data_bit (tu_data ?x) (unat (tu_pos ?x)) = ?line" using assms(3) flip by auto
  have all: "data_bit (tu_data ?x) i = ?line" if "unat (tu_pos ?x) \<le> i" "i < p" for i
    using p(3) [of i] start that by (cases "i = unat (tu_pos ?x)") auto
  have ev: "tmcuart_send_event u m =
    bnd (find_toggle 256 (tu_data ?x) (write_count ?x) ?line (bit_time ?x) (tu_pos ?x) (bit_time ?x)) (\<lambda>r.
      case r of
       NoToggle nxt \<Rightarrow>
         thn (upd_timer (ObjTimer u) (\<lambda>t. t\<lparr>func := Some tmcuart_send_finish_event_f\<rparr>))
         (thn (upd_timer (ObjTimer u) (\<lambda>t. t\<lparr>waketime := waketime t + nxt\<rparr>))
         (ret SF_RESCHEDULE))
     | Toggle pos nxt \<Rightarrow>
         thn (upd_tu u (\<lambda>x. x\<lparr>tu_pos := pos\<rparr>))
         (thn (upd_timer (ObjTimer u) (\<lambda>t. t\<lparr>waketime := waketime t + nxt\<rparr>))
         (ret SF_RESCHEDULE))) m1"
    by (simp add: tmcuart_send_event_def gpio_out_toggle_noirq_def upd_tu_app m1_def)
  show ?thesis
  proof (cases "p = unat (write_count ?x)")
    case True
    then show ?thesis using p(1,2) all unfolding ev p(5) bnd_app t
      by (intro exI [of _ "set_timer (ObjTimer u) (\<lambda>t. t\<lparr>func := Some tmcuart_send_finish_event_f,
            waketime := waketime t + of_nat (p - unat (tu_pos ?x)) * bit_time ?x\<rparr>) m1"] exI [of _ p])
        (simp add: upd_timer_def set_timer_def m1_def)
  next
    case False
    then show ?thesis using p(1,2,4) all unfolding ev p(5) bnd_app t
      by (intro exI [of _ "set_timer (ObjTimer u) (\<lambda>t. t\<lparr>waketime := waketime t + of_nat (p - unat (tu_pos ?x)) * bit_time ?x\<rparr>)
            (m1\<lparr>tmcuarts := (tmcuarts m1)(u := (tmcuarts m1 u)\<lparr>tu_pos := of_nat p\<rparr>)\<rparr>)"] exI [of _ p])
        (simp add: upd_timer_def upd_tu_def set_timer_def m1_def)
  qed
qed

definition sample_uart :: tmcuart_state where
  "sample_uart = sample_periph\<lparr>tmcuarts := (\<lambda>_. zero_tmcuart\<lparr>tx_pin := 11, tu_flags := 3, write_count := 16,
     bit_time := 100, tu_data := [0xf0, 0x0f, 0, 0, 0, 0, 0, 0, 0, 0]\<rparr>)\<rparr>"

theorem tmcuart_send_waveform_witness:
  "\<exists>m' p. tmcuart_send_event 9 sample_uart = Ok SF_RESCHEDULE m' \<and> 0 < p \<and> p \<le> 16 \<and>
     (\<forall>i < p. data_bit [0xf0, 0x0f, 0, 0, 0, 0, 0, 0, 0, 0] i = has_flag (tu_flags (tmcuarts m' 9)) TU_LINE_HIGH)"
proof -
  have x: "tmcuarts sample_uart 9 = zero_tmcuart\<lparr>tx_pin := 11, tu_flags := 3, write_count := 16,
     bit_time := 100, tu_data := [0xf0, 0x0f, 0, 0, 0, 0, 0, 0, 0, 0]\<rparr>"
    by (simp add: sample_uart_def)
  have b: "data_bit [0xf0, 0x0f, 0, 0, 0, 0, 0, 0, 0, 0] 0 \<noteq> has_flag 3 TU_LINE_HIGH"
    by (simp add: data_bit_def has_flag_def TU_LINE_HIGH_def)
  show ?thesis
    using tmcuart_send_waveform [of sample_uart 9] b by (auto simp: x zero_tmcuart_def)
qed

end
