(* ===== verification/Trdispatch.thy ===== *)
theory Trdispatch
  imports Serialqueue
begin

text \<open>
  The host's dispatch of triggers between several micro-controllers,
  \<^verbatim>\<open>klippy/chelper/trdispatch.c\<close>.  Every micro-controller of the group has a serial queue; the
  status messages of its \<^verbatim>\<open>trsync\<close> object are read by a fast reader, which passes a trigger on to all
  others and otherwise pushes the time limits of the others forward.
\<close>

subsection \<open>State\<close>

record trdispatch_mcu =
  tdm_fr :: fastreader
  tdm_sq :: nat
  tdm_cq :: nat
  trsync_oid :: u32
  set_timeout_msgtag :: u32
  trigger_msgtag :: u32
  last_status_clock :: u64
  expire_clock :: u64
  expire_ticks :: u64
  min_extend_ticks :: u64
  tdm_ce :: clock_estimate

record trdispatch =
  is_active :: bool
  td_can_trigger :: bool
  dispatch_reason :: u32
  tdm_list :: "nat list"
  tdms :: "nat \<Rightarrow> trdispatch_mcu"
  sqs :: "nat \<Rightarrow> serialqueue"

definition upd_tdm :: "nat \<Rightarrow> (trdispatch_mcu \<Rightarrow> trdispatch_mcu) \<Rightarrow> trdispatch \<Rightarrow> trdispatch" where
  "upd_tdm i f td = td\<lparr>tdms := (tdms td)(i := f (tdms td i))\<rparr>"

definition upd_sq :: "nat \<Rightarrow> (serialqueue \<Rightarrow> serialqueue) \<Rightarrow> trdispatch \<Rightarrow> trdispatch" where
  "upd_sq i f td = td\<lparr>sqs := (sqs td)(i := f (sqs td i))\<rparr>"

definition tdm_send :: "nat \<Rightarrow> queue_message \<Rightarrow> trdispatch \<Rightarrow> trdispatch" where
  "tdm_send i qm td = upd_sq (tdm_sq (tdms td i)) (serialqueue_send_one (tdm_cq (tdms td i)) qm) td"

subsection \<open>Messages to the micro-controllers\<close>

definition send_trsync_trigger :: "nat \<Rightarrow> trdispatch \<Rightarrow> trdispatch" where
  "send_trsync_trigger i td = (let tdm = tdms td i in
     tdm_send i (message_alloc_and_encode [trigger_msgtag tdm, trsync_oid tdm, dispatch_reason td]) td)"

definition send_trsync_set_timeout :: "nat \<Rightarrow> trdispatch \<Rightarrow> trdispatch" where
  "send_trsync_set_timeout i td = (let tdm = tdms td i in
     tdm_send i ((message_alloc_and_encode [set_timeout_msgtag tdm, trsync_oid tdm, to_u32 (expire_clock tdm)])
                   \<lparr>req_clock := expire_clock tdm\<rparr>) td)"

subsection \<open>Status messages\<close>

text \<open>The smallest and the second smallest status time, and whose the smallest is.\<close>

primrec min_status :: "trdispatch \<Rightarrow> nat list \<Rightarrow> real \<Rightarrow> real \<Rightarrow> nat option \<Rightarrow> real \<times> real \<times> nat option" where
  "min_status td [] min_time next_min_time min_tdm = (min_time, next_min_time, min_tdm)"
| "min_status td (i # is) min_time next_min_time min_tdm =
     (let status_time = clock_to_time (tdm_ce (tdms td i)) (last_status_clock (tdms td i)) in
      if status_time < next_min_time then
        (if status_time < min_time then min_status td is status_time min_time (Some i)
         else min_status td is min_time status_time min_tdm)
      else min_status td is min_time next_min_time min_tdm)"

text \<open>
  The last comparison is unsigned: \<^verbatim>\<open>min_extend_ticks\<close> is a \<^verbatim>\<open>uint64_t\<close>, so the signed difference is
  converted.
\<close>

primrec extend_timeouts :: "real \<Rightarrow> real \<Rightarrow> nat option \<Rightarrow> nat list \<Rightarrow> trdispatch \<Rightarrow> trdispatch" where
  "extend_timeouts min_time next_min_time min_tdm [] td = td"
| "extend_timeouts min_time next_min_time min_tdm (i # is) td =
     (let status_time = (if Some i = min_tdm then next_min_time else min_time);
          tdm = tdms td i;
          expire = clock_from_time (tdm_ce tdm) status_time + expire_ticks tdm
      in extend_timeouts min_time next_min_time min_tdm is
           (if expire - expire_clock tdm \<ge> min_extend_ticks tdm
            then send_trsync_set_timeout i (upd_tdm i (\<lambda>t. t\<lparr>expire_clock := expire\<rparr>) td)
            else td))"

definition handle_trsync_state :: "nat \<Rightarrow> u8 list \<Rightarrow> nat \<Rightarrow> trdispatch \<Rightarrow> trdispatch option" where
  "handle_trsync_state i data len td = (case msgblock_decode 5 data len of
     None \<Rightarrow> None
   | Some None \<Rightarrow> Some td
   | Some (Some vs) \<Rightarrow>
       if vs ! 1 \<noteq> trsync_oid (tdms td i) then Some td
       else if \<not> td_can_trigger td then Some td
       else if vs ! 2 = 0 then
         Some (fold send_trsync_trigger (tdm_list td) (td\<lparr>td_can_trigger := False\<rparr>))
       else
         let td1 = upd_tdm i (\<lambda>t. t\<lparr>tdm_ce := serialqueue_get_clock_est (sqs td (tdm_sq t))\<rparr>) td;
             td2 = upd_tdm i (\<lambda>t. t\<lparr>last_status_clock := clock_from_clock32 (tdm_ce t) (vs ! 4)\<rparr>) td1;
             (min_time, next_min_time, min_tdm) = min_status td2 (tdm_list td2) PR_NEVER PR_NEVER None;
             next_min_time' = (if next_min_time = PR_NEVER then min_time else next_min_time)
         in Some (extend_timeouts min_time next_min_time' min_tdm (tdm_list td2) td2))"

subsection \<open>Interface\<close>

definition trdispatch_start :: "u32 \<Rightarrow> trdispatch \<Rightarrow> trdispatch" where
  "trdispatch_start reason td =
     (if is_active td \<or> tdm_list td = [] then td
      else fold (\<lambda>i td. upd_sq (tdm_sq (tdms td i)) (serialqueue_add_fastreader (tdm_fr (tdms td i))) td)
             (tdm_list td) (td\<lparr>dispatch_reason := reason, is_active := True, td_can_trigger := True\<rparr>))"

definition trdispatch_stop :: "trdispatch \<Rightarrow> trdispatch" where
  "trdispatch_stop td =
     (if \<not> is_active td then td
      else fold (\<lambda>i td. upd_sq (tdm_sq (tdms td i)) (serialqueue_rm_fastreader (tdm_fr (tdms td i))) td)
             (tdm_list td) (td\<lparr>is_active := False\<rparr>))"

definition trdispatch_alloc :: "(nat \<Rightarrow> serialqueue) \<Rightarrow> trdispatch" where
  "trdispatch_alloc queues =
     \<lparr>is_active = False, td_can_trigger = False, dispatch_reason = 0, tdm_list = [],
      tdms = (\<lambda>_. \<lparr>tdm_fr = \<lparr>fr_id = 0, prefix = []\<rparr>, tdm_sq = 0, tdm_cq = 0, trsync_oid = 0,
        set_timeout_msgtag = 0, trigger_msgtag = 0, last_status_clock = 0, expire_clock = 0,
        expire_ticks = 0, min_extend_ticks = 0,
        tdm_ce = \<lparr>last_clock = 0, conv_clock = 0, conv_time = 0, est_freq = 0\<rparr>\<rparr>),
      sqs = queues\<rparr>"

text \<open>The new object is given the number \<open>i\<close>, which also names its fast reader.\<close>

definition trdispatch_mcu_alloc :: "nat \<Rightarrow> nat \<Rightarrow> nat \<Rightarrow> u32 \<Rightarrow> u32 \<Rightarrow> u32 \<Rightarrow> u32 \<Rightarrow> trdispatch \<Rightarrow> trdispatch" where
  "trdispatch_mcu_alloc i sq cq oid timeout_tag trigger_tag state_tag td =
     (let td' = upd_tdm i (\<lambda>_.
        \<lparr>tdm_fr = \<lparr>fr_id = i, prefix = qm_msg (message_alloc_and_encode [state_tag, oid])\<rparr>,
         tdm_sq = sq, tdm_cq = cq, trsync_oid = oid, set_timeout_msgtag = timeout_tag,
         trigger_msgtag = trigger_tag, last_status_clock = 0, expire_clock = 0, expire_ticks = 0,
         min_extend_ticks = 0, tdm_ce = \<lparr>last_clock = 0, conv_clock = 0, conv_time = 0, est_freq = 0\<rparr>\<rparr>) td
      in td'\<lparr>tdm_list := tdm_list td' @ [i]\<rparr>)"

definition trdispatch_mcu_setup :: "nat \<Rightarrow> u64 \<Rightarrow> u64 \<Rightarrow> u64 \<Rightarrow> u64 \<Rightarrow> trdispatch \<Rightarrow> trdispatch" where
  "trdispatch_mcu_setup i lastclk expire eticks ext td = upd_tdm i (\<lambda>t.
     t\<lparr>last_status_clock := lastclk, expire_clock := expire, expire_ticks := eticks,
       min_extend_ticks := ext, tdm_ce := serialqueue_get_clock_est (sqs td (tdm_sq t))\<rparr>) td"

end
