(* ===== verification/Dead_Man.thy ===== *)
theory Dead_Man
  imports Trdispatch
begin

text \<open>
  The time limits of a homing move that involves several micro-controllers: each of them is
  told to stop at a time derived from the last sign of life of the others
  (\<^verbatim>\<open>handle_trsync_state\<close> of \<^verbatim>\<open>trdispatch.c\<close>).
\<close>

subsection \<open>The least status times\<close>

abbreviation status_of :: "trdispatch \<Rightarrow> nat \<Rightarrow> real" where
  "status_of td i \<equiv> clock_to_time (tdm_ce (tdms td i)) (last_status_clock (tdms td i))"

text \<open>What the loop knows after the members \<open>P\<close>: whose time is least, and the least of the rest.\<close>

definition mins :: "(nat \<Rightarrow> real) \<Rightarrow> nat set \<Rightarrow> real \<Rightarrow> real \<Rightarrow> nat option \<Rightarrow> bool" where
  "mins st P mn nx mt \<longleftrightarrow> (\<exists>j\<in>P. mt = Some j \<and> mn = st j \<and> (\<forall>i\<in>P. st j \<le> st i) \<and>
     (if P = {j} then nx = PR_NEVER else nx \<in> st ` (P - {j}) \<and> (\<forall>i\<in>P - {j}. nx \<le> st i)))"

lemma mins_first: "st i < PR_NEVER \<Longrightarrow> mins st {i} (st i) PR_NEVER (Some i)"
  by (simp add: mins_def)

lemma mins_insert:
  assumes m: "mins st P mn nx mt" and i: "i \<notin> P" and lt: "\<forall>k\<in>insert i P. st k < PR_NEVER"
  shows "mins st (insert i P) (if st i < mn then st i else mn)
      (if st i < mn then mn else if st i < nx then st i else nx) (if st i < mn then Some i else mt)"
proof -
  obtain j where j: "j \<in> P" "mt = Some j" "mn = st j" "\<forall>k\<in>P. st j \<le> st k"
    "if P = {j} then nx = PR_NEVER else nx \<in> st ` (P - {j}) \<and> (\<forall>i\<in>P - {j}. nx \<le> st i)"
    using m by (auto simp: mins_def)
  have ne: "insert i P \<noteq> {i}" "insert i P \<noteq> {j}" "i \<noteq> j" using i j(1) by auto
  show ?thesis
  proof (cases "st i < mn")
    case True
    have "insert i P - {i} = P" using i by auto
    then show ?thesis unfolding mins_def using True j ne by (intro bexI [of _ i]) (auto intro: less_imp_le less_le_trans)
  next
    case False
    have e: "insert i P - {j} = insert i (P - {j})" using ne(3) by auto
    have nx: "(if st i < nx then st i else nx) \<in> st ` (insert i P - {j}) \<and>
        (\<forall>k\<in>insert i P - {j}. (if st i < nx then st i else nx) \<le> st k)"
    proof (cases "P = {j}")
      case True
      then show ?thesis using j(5) lt unfolding e by auto
    next
      case False
      then show ?thesis using j(5) unfolding e by (auto intro: less_imp_le less_le_trans)
    qed
    show ?thesis unfolding mins_def using False j nx ne by (intro bexI [of _ j]) auto
  qed
qed

lemma min_status_mins:
  assumes "mins (status_of td) P mn nx mt" and "distinct is" and "P \<inter> set is = {}"
    and "\<forall>k\<in>P \<union> set is. status_of td k < PR_NEVER"
  shows "\<exists>mn' nx' mt'. min_status td is mn nx mt = (mn', nx', mt') \<and> mins (status_of td) (P \<union> set is) mn' nx' mt'"
  using assms
proof (induction "is" arbitrary: P mn nx mt)
  case Nil
  then show ?case by simp
next
  case (Cons i "is")
  let ?s = "status_of td i"
  have le: "mn \<le> nx" using Cons.prems(1, 4) by (auto simp: mins_def split: if_splits)
  have st: "min_status td (i # is) mn nx mt = min_status td is (if ?s < mn then ?s else mn)
      (if ?s < mn then mn else if ?s < nx then ?s else nx) (if ?s < mn then Some i else mt)"
    using le by (simp add: Let_def)
  have mi: "mins (status_of td) (insert i P) (if ?s < mn then ?s else mn)
      (if ?s < mn then mn else if ?s < nx then ?s else nx) (if ?s < mn then Some i else mt)"
    by (rule mins_insert [OF Cons.prems(1)]) (use Cons.prems in auto)
  have "distinct is" "insert i P \<inter> set is = {}" "\<forall>k\<in>insert i P \<union> set is. status_of td k < PR_NEVER"
    using Cons.prems by auto
  from Cons.IH [OF mi this] show ?case unfolding st by simp
qed

lemma min_status_others:
  assumes "distinct is" and "2 \<le> length is" and "\<forall>k\<in>set is. status_of td k < PR_NEVER"
  shows "\<exists>mn nx mt. min_status td is PR_NEVER PR_NEVER None = (mn, nx, mt) \<and> nx \<noteq> PR_NEVER \<and>
    (\<forall>k\<in>set is. (if Some k = mt then nx else mn) = Min (status_of td ` (set is - {k})))"
proof -
  obtain i r where ir: "is = i # r" "r \<noteq> []" using assms(2) by (cases "is"; cases "tl is") auto
  have st: "min_status td is PR_NEVER PR_NEVER None = min_status td r (status_of td i) PR_NEVER (Some i)"
    using ir(1) assms(3) by (simp add: Let_def)
  obtain mn nx mt where r: "min_status td r (status_of td i) PR_NEVER (Some i) = (mn, nx, mt)"
    "mins (status_of td) ({i} \<union> set r) mn nx mt"
    using min_status_mins [OF mins_first, of td i r] assms ir(1) by auto
  have s: "{i} \<union> set r = set is" using ir(1) by simp
  obtain j where j: "j \<in> set is" "mt = Some j" "mn = status_of td j" "\<forall>k\<in>set is. status_of td j \<le> status_of td k"
    and nx: "if set is = {j} then nx = PR_NEVER else nx \<in> status_of td ` (set is - {j}) \<and> (\<forall>i\<in>set is - {j}. nx \<le> status_of td i)"
    using r(2) unfolding s mins_def by blast
  have "card (set is) \<ge> 2" using assms(1, 2) by (simp add: distinct_card)
  then have ne: "set is \<noteq> {j}" by auto
  then have nx': "nx \<in> status_of td ` (set is - {j})" "\<forall>i\<in>set is - {j}. nx \<le> status_of td i" using nx by simp_all
  have mm: "Min (status_of td ` (set is - {k})) = (if Some k = mt then nx else mn)" if "k \<in> set is" for k
  proof (cases "k = j")
    case True
    then show ?thesis using nx' j(2) by (intro Min_eqI) auto
  next
    case False
    then show ?thesis using j by (intro Min_eqI) auto
  qed
  have "nx \<noteq> PR_NEVER" using nx'(1) assms(3) by auto
  then show ?thesis using mm unfolding st r(1) by simp
qed

subsection \<open>Extending the limits\<close>

lemma upd_tdm_tdms [simp]: "tdms (upd_tdm i f td) = (tdms td)(i := f (tdms td i))"
  "tdm_list (upd_tdm i f td) = tdm_list td"
  by (simp_all add: upd_tdm_def)

lemma set_timeout_keeps [simp]: "tdms (send_trsync_set_timeout i td) = tdms td"
  "tdm_list (send_trsync_set_timeout i td) = tdm_list td"
  by (simp_all add: send_trsync_set_timeout_def tdm_send_def upd_sq_def Let_def)

definition limit_of :: "real \<Rightarrow> real \<Rightarrow> nat option \<Rightarrow> nat \<Rightarrow> trdispatch_mcu \<Rightarrow> u64" where
  "limit_of mn nx mt i tdm = clock_from_time (tdm_ce tdm) (if Some i = mt then nx else mn) + expire_ticks tdm"

lemma extend_timeouts_tdms:
  "distinct is \<Longrightarrow> tdms (extend_timeouts mn nx mt is td) k =
     (if k \<in> set is \<and> limit_of mn nx mt k (tdms td k) - expire_clock (tdms td k) \<ge> min_extend_ticks (tdms td k)
      then (tdms td k)\<lparr>expire_clock := limit_of mn nx mt k (tdms td k)\<rparr> else tdms td k)"
  by (induction "is" arbitrary: td) (auto simp: Let_def limit_of_def)

lemma extend_timeouts_status:
  assumes "distinct is"
  shows "last_status_clock (tdms (extend_timeouts mn nx mt is td) k) = last_status_clock (tdms td k)"
    "tdm_ce (tdms (extend_timeouts mn nx mt is td) k) = tdm_ce (tdms td k)"
    "expire_ticks (tdms (extend_timeouts mn nx mt is td) k) = expire_ticks (tdms td k)"
  unfolding extend_timeouts_tdms [OF assms] by simp_all

text \<open>A status report is noted for its sender before the limits are looked at.\<close>

definition noted :: "nat \<Rightarrow> u32 \<Rightarrow> trdispatch \<Rightarrow> trdispatch" where
  "noted i clock td = (let est = serialqueue_get_clock_est (sqs td (tdm_sq (tdms td i))) in
     upd_tdm i (\<lambda>t. t\<lparr>tdm_ce := est, last_status_clock := clock_from_clock32 est clock\<rparr>) td)"

lemma handle_status_extends:
  assumes "msgblock_decode 5 data len = Some (Some vs)" and "vs ! 1 = trsync_oid (tdms td i)"
    and "td_can_trigger td" and "vs ! 2 \<noteq> 0"
    and "min_status (noted i (vs ! 4) td) (tdm_list td) PR_NEVER PR_NEVER None = (mn, nx, mt)"
  shows "handle_trsync_state i data len td =
    Some (extend_timeouts mn (if nx = PR_NEVER then mn else nx) mt (tdm_list td) (noted i (vs ! 4) td))"
proof -
  have n: "upd_tdm i (\<lambda>t. t\<lparr>last_status_clock := clock_from_clock32 (tdm_ce t) (vs ! 4)\<rparr>)
      (upd_tdm i (\<lambda>t. t\<lparr>tdm_ce := serialqueue_get_clock_est (sqs td (tdm_sq t))\<rparr>) td) = noted i (vs ! 4) td"
    by (simp add: noted_def upd_tdm_def Let_def)
  have l: "tdm_list (noted i (vs ! 4) td) = tdm_list td" by (simp add: noted_def Let_def)
  show ?thesis
    using assms(2-4) unfolding handle_trsync_state_def assms(1) option.case Let_def n l assms(5) prod.case by simp
qed

text \<open>
  C18: the limits follow the others.  When a micro-controller of a group of two or more reports
  that it is still waiting, the time limit of every member stays as it was or becomes the time
  of the earliest status report among the \<^emph>\<open>other\<close> members plus its own \<^verbatim>\<open>expire_ticks\<close>.  A
  micro-controller that stops reporting therefore makes all others run out of time.
\<close>

theorem trsync_limits_follow_others:
  assumes "msgblock_decode 5 data len = Some (Some vs)" and "vs ! 1 = trsync_oid (tdms td i)"
    and "td_can_trigger td" and "vs ! 2 \<noteq> 0"
    and "distinct (tdm_list td)" and "2 \<le> length (tdm_list td)"
    and "handle_trsync_state i data len td = Some td'"
    and "\<forall>k\<in>set (tdm_list td). status_of td' k < PR_NEVER"
    and "k \<in> set (tdm_list td)"
  shows "expire_clock (tdms td' k) \<in> {expire_clock (tdms td k),
    clock_from_time (tdm_ce (tdms td' k)) (Min (status_of td' ` (set (tdm_list td) - {k}))) + expire_ticks (tdms td' k)}"
proof -
  define td2 where "td2 = noted i (vs ! 4) td"
  obtain mn nx mt where m: "min_status td2 (tdm_list td) PR_NEVER PR_NEVER None = (mn, nx, mt)" using prod_cases3 by blast
  define nx' where "nx' = (if nx = PR_NEVER then mn else nx)"
  have td': "td' = extend_timeouts mn nx' mt (tdm_list td) td2"
    using handle_status_extends [OF assms(1-4) m [unfolded td2_def]] assms(7) by (simp add: nx'_def td2_def)
  note x = extend_timeouts_tdms [OF assms(5), of mn nx' mt td2, folded td']
  note s = extend_timeouts_status [OF assms(5), of mn nx' mt td2, folded td']
  have "\<forall>k\<in>set (tdm_list td). status_of td2 k < PR_NEVER" using assms(8) unfolding s .
  from min_status_others [OF assms(5, 6) this] have
    "nx \<noteq> PR_NEVER" "(if Some k = mt then nx else mn) = Min (status_of td2 ` (set (tdm_list td) - {k}))"
    using m assms(9) by auto
  then have "limit_of mn nx' mt k (tdms td2 k) =
      clock_from_time (tdm_ce (tdms td' k)) (Min (status_of td' ` (set (tdm_list td) - {k}))) + expire_ticks (tdms td' k)"
    unfolding limit_of_def nx'_def s by (simp only: if_False)
  moreover have "expire_clock (tdms td2 k) = expire_clock (tdms td k)" by (simp add: td2_def noted_def Let_def)
  ultimately show ?thesis using x [of k] by auto
qed

text \<open>
  Two micro-controllers with clocks of one tick a second; the first reports at 300, the last
  report of the second was at 250.
\<close>

definition sample_tdm :: "nat \<Rightarrow> u64 \<Rightarrow> trdispatch_mcu" where
  "sample_tdm i lsc = \<lparr>tdm_fr = \<lparr>fr_id = i, prefix = []\<rparr>, tdm_sq = i, tdm_cq = 0, trsync_oid = 7,
     set_timeout_msgtag = 3, trigger_msgtag = 4, last_status_clock = lsc, expire_clock = 100, expire_ticks = 50,
     min_extend_ticks = 10, tdm_ce = \<lparr>last_clock = 290, conv_clock = 0, conv_time = 0, est_freq = 1\<rparr>\<rparr>"

definition sample_td :: trdispatch where
  "sample_td = \<lparr>is_active = True, td_can_trigger = True, dispatch_reason = 1, tdm_list = [0, 1],
     tdms = (\<lambda>i. sample_tdm i 250),
     sqs = (\<lambda>i. (serialqueue_alloc SQT_UART 0)\<lparr>ce := \<lparr>last_clock = 290, conv_clock = 0, conv_time = 0, est_freq = 1\<rparr>\<rparr>)\<rparr>"

definition sample_status :: "u8 list" where
  "sample_status = [11, 0x10, 9, 7, 1, 0, 0x82, 0x2c, 0, 0, 0x7e]"

lemma sample_status_decode: "msgblock_decode 5 sample_status 11 = Some (Some [9, 7, 1, 0, 300])"
  by code_simp

theorem trsync_limits_follow_others_witness:
  "\<exists>td'. handle_trsync_state 0 sample_status 11 sample_td = Some td' \<and>
    expire_clock (tdms td' 1) \<in> {100, clock_from_time (tdm_ce (tdms td' 1)) (Min (status_of td' ` {0})) + expire_ticks (tdms td' 1)}"
proof -
  define td2 where "td2 = noted 0 300 sample_td"
  obtain mn nx0 mt where m: "min_status td2 (tdm_list sample_td) PR_NEVER PR_NEVER None = (mn, nx0, mt)" using prod_cases3 by blast
  define nx where "nx = (if nx0 = PR_NEVER then mn else nx0)"
  have h: "handle_trsync_state 0 sample_status 11 sample_td = Some (extend_timeouts mn nx mt [0, 1] td2)"
    using handle_status_extends [OF sample_status_decode, of sample_td 0 mn nx0 mt] m
    by (simp add: sample_td_def sample_tdm_def td2_def nx_def)
  have t: "tdms td2 = (\<lambda>i. sample_tdm i 250)(0 := sample_tdm 0 300)"
    by (simp add: td2_def noted_def sample_td_def sample_tdm_def clock_from_clock32_def serialqueue_get_clock_est_def Let_def)
  have d: "distinct [0, 1 :: nat]" by simp
  have s: "status_of (extend_timeouts mn nx mt [0, 1] td2) k < PR_NEVER" for k
    unfolding extend_timeouts_status [OF d] t by (simp add: sample_tdm_def clock_to_time_def PR_NEVER_def)
  have "expire_clock (tdms (extend_timeouts mn nx mt [0, 1] td2) 1) \<in> {expire_clock (tdms sample_td 1),
    clock_from_time (tdm_ce (tdms (extend_timeouts mn nx mt [0, 1] td2) 1))
      (Min (status_of (extend_timeouts mn nx mt [0, 1] td2) ` (set (tdm_list sample_td) - {1}))) +
    expire_ticks (tdms (extend_timeouts mn nx mt [0, 1] td2) 1)}"
    by (rule trsync_limits_follow_others [OF sample_status_decode _ _ _ _ _ h])
      (use s in \<open>simp_all add: sample_td_def sample_tdm_def del: extend_timeouts.simps\<close>)
  moreover have "set (tdm_list sample_td) - {1} = {0}" "expire_clock (tdms sample_td 1) = 100"
    by (auto simp: sample_td_def sample_tdm_def)
  ultimately show ?thesis unfolding h by (simp del: extend_timeouts.simps)
qed

subsection \<open>A limit that moves back\<close>

text \<open>
  C19: the guard against sending limits that are hardly later does not notice limits that are
  earlier.  The difference is cast to a signed number, but compared with the unsigned
  \<^verbatim>\<open>min_extend_ticks\<close> it is converted back, so a limit before the current one counts as a large
  extension: it replaces the current limit and is sent.
\<close>

theorem trsync_limit_moves_back:
  assumes "distinct is" and "k \<in> set is"
    and "sint (limit_of mn nx mt k (tdms td k) - expire_clock (tdms td k)) < 0"
    and "min_extend_ticks (tdms td k) \<le> 2 ^ 63"
  shows "expire_clock (tdms (extend_timeouts mn nx mt is td) k) = limit_of mn nx mt k (tdms td k) \<and>
    extend_timeouts mn nx mt [k] td =
      send_trsync_set_timeout k (upd_tdm k (\<lambda>t. t\<lparr>expire_clock := limit_of mn nx mt k (tdms td k)\<rparr>) td)"
proof -
  let ?d = "limit_of mn nx mt k (tdms td k) - expire_clock (tdms td k)"
  have "2 ^ 63 \<le> ?d"
  proof (rule ccontr)
    assume "\<not> 2 ^ 63 \<le> ?d"
    then have "uint ?d < 2 ^ 63" by (simp add: not_le word_less_def)
    then have "sint ?d = uint ?d"
      using signed_take_bit_int_eq_self [of 63 "uint ?d"] uint_nonnegative [of ?d] by (simp add: sint_uint)
    then show False using assms(3) uint_nonnegative [of ?d] by simp
  qed
  then have le: "min_extend_ticks (tdms td k) \<le> ?d" using assms(4) by simp
  have "expire_clock (tdms (extend_timeouts mn nx mt is td) k) = limit_of mn nx mt k (tdms td k)"
    unfolding extend_timeouts_tdms [OF assms(1)] using le assms(2) by simp
  moreover have "extend_timeouts mn nx mt [k] td =
      send_trsync_set_timeout k (upd_tdm k (\<lambda>t. t\<lparr>expire_clock := limit_of mn nx mt k (tdms td k)\<rparr>) td)"
    using le by (simp add: limit_of_def Let_def)
  ultimately show ?thesis by blast
qed

text \<open>The limit of 500 ticks is replaced by 300, though \<^verbatim>\<open>min_extend_ticks\<close> is 10.\<close>

theorem trsync_limit_moves_back_witness:
  "expire_clock (tdms (extend_timeouts 250 250 None [0] (upd_tdm 0 (\<lambda>t. t\<lparr>expire_clock := 500\<rparr>) sample_td)) 0) = 300"
proof -
  let ?td = "upd_tdm 0 (\<lambda>t. t\<lparr>expire_clock := 500\<rparr>) sample_td"
  have l: "limit_of 250 250 None 0 (tdms ?td 0) = 300"
    by (simp add: limit_of_def sample_td_def sample_tdm_def clock_from_time_def c_trunc_def)
  have "expire_clock (tdms (extend_timeouts 250 250 None [0] ?td) 0) = limit_of 250 250 None 0 (tdms ?td 0)"
    by (rule conjunct1, rule trsync_limit_moves_back)
      (unfold l, simp_all add: sample_td_def sample_tdm_def)
  then show ?thesis unfolding l .
qed

end
