(* ===== verification/Stepcompress.thy ===== *)
theory Stepcompress
  imports Serialqueue
begin

text \<open>
  Compression of step times, \<^verbatim>\<open>klippy/chelper/stepcompress.c\<close>: a queue of step clocks is turned into
  \<^verbatim>\<open>queue_step\<close> commands (interval, count, add), each checked against the requested times, with
  a history of the moves; and the synchronisation of several steppers by a heap of the
  times at which the micro-controller's move slots become free.

  \<^item> \<open>steps\<close> are the entries from \<^verbatim>\<open>queue_pos\<close> to \<^verbatim>\<open>queue_next\<close>, \<open>q_off\<close> is \<^verbatim>\<open>queue_pos - queue\<close>, and
    \<open>q_alloc\<close> is \<^verbatim>\<open>queue_end - queue\<close>, so a store at \<^verbatim>\<open>queue_next\<close> is inside the array exactly if
    \<open>q_off + length steps < q_alloc\<close>.
  \<^item> The search in \<^verbatim>\<open>compress_bisect_add\<close> uses \<^verbatim>\<open>int32_t\<close>, whose overflow is undefined in C: every product, sum and
    difference is checked, and the search ends with \<open>Overflowed\<close> where one leaves the range.  Unsigned arithmetic wraps.
  \<^item> A function that can fail returns \<open>True\<close> for success (0) and \<open>False\<close> for \<^verbatim>\<open>ERROR_RET\<close>; \<open>None\<close> is
    undefined behaviour.
\<close>

subsection \<open>State\<close>

record step_move =
  sm_interval :: u32
  sm_count :: u16
  sm_add :: u16

record history_steps =
  hs_first_clock :: u64
  hs_last_clock :: u64
  start_position :: int
  step_count :: int
  hs_interval :: int
  hs_add :: int

record stepcompress =
  steps :: "u32 list"
  q_off :: nat
  q_alloc :: nat
  sc_max_error :: u32
  mcu_time_offset :: real
  mcu_freq :: real
  last_step_print_time :: real
  last_step_clock :: u64
  msg_queue :: "queue_message list"
  sc_oid :: u32
  queue_step_msgtag :: u32
  set_next_step_dir_msgtag :: u32
  sdir :: int
  invert_sdir :: int
  next_step_clock :: u64
  next_step_dir :: int
  last_position :: int
  history_list :: "history_steps list"

definition QUEUE_START_SIZE :: nat where "QUEUE_START_SIZE = 1024"
definition HISTORY_EXPIRE :: real where "HISTORY_EXPIRE = 30"
definition CLOCK_DIFF_MAX :: u64 where "CLOCK_DIFF_MAX = 0x30000000"
definition QUADRATIC_DEV :: u32 where "QUADRATIC_DEV = 11"
definition SDS_FILTER_TIME :: real where "SDS_FILTER_TIME = 0.000750"

subsection \<open>Compression\<close>

definition idiv_up :: "int \<Rightarrow> int \<Rightarrow> int" where
  "idiv_up n d = (if n \<ge> 0 then c_div (n + d - 1) d else c_div n d)"

definition idiv_down :: "int \<Rightarrow> int \<Rightarrow> int" where
  "idiv_down n d = (if n \<ge> 0 then c_div n d else c_div (n - d + 1) d)"

text \<open>The acceptable times of step \<open>i\<close>, relative to the last step sent.\<close>

definition minmax_point :: "stepcompress \<Rightarrow> nat \<Rightarrow> u32 \<times> u32" where
  "minmax_point sc i =
     (let lsc = to_u32 (last_step_clock sc);
          point = steps sc ! i - lsc;
          prevpoint = (if i > 0 then steps sc ! (i - 1) - lsc else 0);
          max_error = (point - prevpoint) div 2;
          max_error' = (if max_error > sc_max_error sc then sc_max_error sc else max_error)
      in (point - max_error', point))"

abbreviation minp :: "stepcompress \<Rightarrow> nat \<Rightarrow> int" where "minp sc i \<equiv> sint (fst (minmax_point sc i))"
abbreviation maxp :: "stepcompress \<Rightarrow> nat \<Rightarrow> int" where "maxp sc i \<equiv> sint (snd (minmax_point sc i))"

text \<open>The range of \<^verbatim>\<open>int32_t\<close>, and the sums inside the two divisions.\<close>

definition in32 :: "int \<Rightarrow> bool" where
  "in32 x \<longleftrightarrow> - (2 ^ 31) \<le> x \<and> x < 2 ^ 31"

definition idiv_up_ok :: "int \<Rightarrow> int \<Rightarrow> bool" where
  "idiv_up_ok n d \<longleftrightarrow> (n \<ge> 0 \<longrightarrow> in32 (n + d) \<and> in32 (n + d - 1))"

definition idiv_down_ok :: "int \<Rightarrow> int \<Rightarrow> bool" where
  "idiv_down_ok n d \<longleftrightarrow> (n < 0 \<longrightarrow> in32 (n - d) \<and> in32 (n - d + 1))"

text \<open>
  The inner loop: the longest sequence with the given \<open>add\<close>.  It ends at the last point
  (\<open>Whole\<close>), where the next point cannot be reached (\<open>Stuck\<close>, with the count and the bounds
  for the interval that failed), or in an overflow.
\<close>

datatype inner = Whole int nat | Stuck int nat int int | InnerOverflow

definition inner_round_ok :: "stepcompress \<Rightarrow> int \<Rightarrow> nat \<Rightarrow> int \<Rightarrow> int \<Rightarrow> bool" where
  "inner_round_ok sc add nc nextmin nextmax \<longleftrightarrow>
     (let factor = int nc * (int nc - 1); c = add * (factor div 2); lo = minp sc (nc - 1) - c; hi = maxp sc (nc - 1) - c in
      in32 factor \<and> in32 c \<and> in32 (nextmin * int nc) \<and> in32 lo \<and> (nextmin * int nc < lo \<longrightarrow> idiv_up_ok lo (int nc)) \<and>
      in32 (nextmax * int nc) \<and> in32 hi \<and> (nextmax * int nc > hi \<longrightarrow> idiv_down_ok hi (int nc)))"

function inner_loop :: "stepcompress \<Rightarrow> nat \<Rightarrow> int \<Rightarrow> nat \<Rightarrow> int \<Rightarrow> int \<Rightarrow> int \<Rightarrow> inner" where
  "inner_loop sc qlast add nextcount nextmin nextmax interval =
     (let nc = nextcount + 1 in
      if nc - 1 \<ge> qlast then Whole interval (nc - 1)
      else if \<not> inner_round_ok sc add nc nextmin nextmax then InnerOverflow
      else
        let addfactor = int nc * (int nc - 1) div 2;
            c = add * addfactor;
            nmin = (if nextmin * int nc < minp sc (nc - 1) - c
                    then idiv_up (minp sc (nc - 1) - c) (int nc) else nextmin);
            nmax = (if nextmax * int nc > maxp sc (nc - 1) - c
                    then idiv_down (maxp sc (nc - 1) - c) (int nc) else nextmax)
        in if nmin > nmax then Stuck interval nc nmin nmax
           else inner_loop sc qlast add nc nmin nmax nmax)"
  by pat_completeness auto
termination by (relation "measure (\<lambda>(sc, qlast, add, nextcount, _). qlast - nextcount)") auto

declare inner_loop.simps [simp del]

record bisect =
  b_add :: int
  minadd :: int
  maxadd :: int
  outer_min :: int
  outer_max :: int
  bestinterval :: int
  bestcount :: int
  bestadd :: int
  bestreach :: int
  zerointerval :: int
  zerocount :: int

definition mk_move :: "int \<Rightarrow> int \<Rightarrow> int \<Rightarrow> step_move" where
  "mk_move i c a = \<lparr>sm_interval = word_of_int i, sm_count = word_of_int c, sm_add = word_of_int a\<rparr>"

definition bisect_result :: "bisect \<Rightarrow> step_move" where
  "bisect_result b =
     (if zerocount b + c_div (zerocount b) 16 \<ge> bestcount b then mk_move (zerointerval b) (zerocount b) 0
      else mk_move (bestinterval b) (bestcount b) (bestadd b))"

text \<open>
  One round of the outer loop: the sequence is compared with the best one so far, and the range of \<open>add\<close> is narrowed,
  first on the side of the point that failed, then by the largest deviation of two valid sequences, then by the
  next point.
\<close>

definition reach_ok :: "int \<Rightarrow> int \<Rightarrow> int \<Rightarrow> bool" where
  "reach_ok add interval count \<longleftrightarrow>
     (let factor = count * (count - 1) in
      in32 factor \<and> in32 (add * (factor div 2)) \<and> in32 (interval * count) \<and> in32 (add * (factor div 2) + interval * count))"

definition note_best :: "int \<Rightarrow> int \<Rightarrow> bisect \<Rightarrow> bisect" where
  "note_best interval count b =
     (let reach = b_add b * (count * (count - 1) div 2) + interval * count in
      if reach > bestreach b \<or> reach = bestreach b \<and> interval > bestinterval b then
        let b' = b\<lparr>bestinterval := interval, bestcount := count, bestadd := b_add b, bestreach := reach\<rparr>
        in if b_add b = 0 then b'\<lparr>zerointerval := interval, zerocount := count\<rparr> else b'
      else b)"

definition is_best :: "int \<Rightarrow> int \<Rightarrow> bisect \<Rightarrow> bool" where
  "is_best interval count b \<longleftrightarrow>
     (let reach = b_add b * (count * (count - 1) div 2) + interval * count
      in reach > bestreach b \<or> reach = bestreach b \<and> interval > bestinterval b)"

definition narrow_side :: "stepcompress \<Rightarrow> int \<Rightarrow> nat \<Rightarrow> int \<Rightarrow> int \<Rightarrow> bisect \<Rightarrow> bisect" where
  "narrow_side sc interval nextcount nmin nmax b =
     (let add = b_add b; nextreach = add * (int nextcount * (int nextcount - 1) div 2) + interval * int nextcount in
      if nextreach < minp sc (nextcount - 1) then b\<lparr>minadd := add + 1, outer_max := nmax\<rparr>
      else b\<lparr>maxadd := add - 1, outer_min := nmin\<rparr>)"

definition err_delta :: "stepcompress \<Rightarrow> int \<Rightarrow> int" where
  "err_delta sc count = sint (sc_max_error sc * QUADRATIC_DEV div word_of_int (count * count))"

definition narrow_error :: "stepcompress \<Rightarrow> nat \<Rightarrow> bisect \<Rightarrow> bisect" where
  "narrow_error sc nextcount b =
     (let add = b_add b; count = int nextcount - 1; errdelta = err_delta sc count in
      if count > 1 then
        let b' = (if minadd b < add - errdelta then b\<lparr>minadd := add - errdelta\<rparr> else b)
        in if maxadd b' > add + errdelta then b'\<lparr>maxadd := add + errdelta\<rparr> else b'
      else b)"

definition narrow_min :: "stepcompress \<Rightarrow> nat \<Rightarrow> bisect \<Rightarrow> bisect" where
  "narrow_min sc nextcount b =
     (let nextaddfactor = int nextcount * (int nextcount - 1) div 2; c = outer_max b * int nextcount in
      if minadd b * nextaddfactor < minp sc (nextcount - 1) - c
      then b\<lparr>minadd := idiv_up (minp sc (nextcount - 1) - c) nextaddfactor\<rparr> else b)"

definition narrow_max :: "stepcompress \<Rightarrow> nat \<Rightarrow> bisect \<Rightarrow> bisect" where
  "narrow_max sc nextcount b =
     (let nextaddfactor = int nextcount * (int nextcount - 1) div 2; c = outer_min b * int nextcount in
      if maxadd b * nextaddfactor > maxp sc (nextcount - 1) - c
      then b\<lparr>maxadd := idiv_down (maxp sc (nextcount - 1) - c) nextaddfactor\<rparr> else b)"

definition narrow :: "stepcompress \<Rightarrow> int \<Rightarrow> nat \<Rightarrow> int \<Rightarrow> int \<Rightarrow> bisect \<Rightarrow> bisect" where
  "narrow sc interval nextcount nmin nmax b =
     narrow_max sc nextcount (narrow_min sc nextcount (narrow_error sc nextcount (narrow_side sc interval nextcount nmin nmax b)))"

text \<open>The results of the operations in these four steps.\<close>

definition narrow_ok :: "stepcompress \<Rightarrow> int \<Rightarrow> nat \<Rightarrow> int \<Rightarrow> int \<Rightarrow> bisect \<Rightarrow> bool" where
  "narrow_ok sc interval nextcount nmin nmax b \<longleftrightarrow>
     (let add = b_add b; nc = int nextcount; count = nc - 1; factor = nc * (nc - 1); naf = factor div 2;
          b2 = narrow_error sc nextcount (narrow_side sc interval nextcount nmin nmax b);
          c1 = outer_max b2 * nc; lo = minp sc (nextcount - 1) - c1;
          b3 = narrow_min sc nextcount b2;
          c2 = outer_min b3 * nc; hi = maxp sc (nextcount - 1) - c2 in
      in32 factor \<and> in32 (add * naf) \<and> in32 (interval * nc) \<and> in32 (add * naf + interval * nc) \<and> in32 (add + 1) \<and> in32 (add - 1) \<and>
      (count > 1 \<longrightarrow> in32 (count * count) \<and> in32 (add - err_delta sc count) \<and> in32 (add + err_delta sc count)) \<and>
      in32 c1 \<and> in32 lo \<and> in32 (minadd b2 * naf) \<and> (minadd b2 * naf < lo \<longrightarrow> idiv_up_ok lo naf) \<and>
      in32 c2 \<and> in32 hi \<and> in32 (maxadd b3 * naf) \<and> (maxadd b3 * naf > hi \<longrightarrow> idiv_down_ok hi naf))"

text \<open>
  The search.  Every round but the last narrows the range of 65536 values of \<open>add\<close>, so 65537 rounds are enough:
  \<open>Unfinished\<close> stands for a search that needs more.
\<close>

datatype search = Found step_move | Overflowed | Unfinished

primrec outer_loop :: "nat \<Rightarrow> stepcompress \<Rightarrow> nat \<Rightarrow> bisect \<Rightarrow> search" where
  "outer_loop 0 sc qlast b = Unfinished"
| "outer_loop (Suc n) sc qlast b =
     (case inner_loop sc qlast (b_add b) 1 (outer_min b) (outer_max b) (outer_max b) of
        InnerOverflow \<Rightarrow> Overflowed
      | Whole interval count \<Rightarrow> Found (mk_move interval (int count) (b_add b))
      | Stuck interval nextcount nmin nmax \<Rightarrow>
          let count = int nextcount - 1; b1 = note_best interval count b in
          if \<not> reach_ok (b_add b) interval count then Overflowed
          else if is_best interval count b \<and> count > 0x200 then Found (bisect_result b1)
          else if \<not> narrow_ok sc interval nextcount nmin nmax b1 then Overflowed
          else
            let b2 = narrow sc interval nextcount nmin nmax b1 in
            if minadd b2 > maxadd b2 then Found (bisect_result b2)
            else if \<not> in32 (maxadd b2 - minadd b2) then Overflowed
            else outer_loop n sc qlast (b2\<lparr>b_add := maxadd b2 - c_div (maxadd b2 - minadd b2) 4\<rparr>))"

definition bisect_search :: "stepcompress \<Rightarrow> search" where
  "bisect_search sc =
     outer_loop 65537 sc (min (length (steps sc)) 65535)
       \<lparr>b_add = 0, minadd = - 0x8000, maxadd = 0x7fff, outer_min = minp sc 0, outer_max = maxp sc 0,
        bestinterval = 0, bestcount = 1, bestadd = 1, bestreach = - (2 ^ 31), zerointerval = 0, zerocount = 0\<rparr>"

definition compress_bisect_add :: "stepcompress \<Rightarrow> step_move option" where
  "compress_bisect_add sc = (case bisect_search sc of Found move \<Rightarrow> Some move | _ \<Rightarrow> None)"

subsection \<open>Checking a move\<close>

text \<open>The points are converted to unsigned integers in the comparison.\<close>

primrec check_points :: "stepcompress \<Rightarrow> u16 \<Rightarrow> nat \<Rightarrow> nat \<Rightarrow> u32 \<Rightarrow> u32 \<Rightarrow> bool" where
  "check_points sc add 0 i interval p = True"
| "check_points sc add (Suc n) i interval p =
     (let p' = p + interval in
      if p' < fst (minmax_point sc i) \<or> p' > snd (minmax_point sc i) then False
      else if interval \<ge> 0x80000000 then False
      else check_points sc add n (Suc i) (interval + scast add) p')"

definition check_line :: "stepcompress \<Rightarrow> step_move \<Rightarrow> bool" where
  "check_line sc move =
     (if sm_count move = 0 \<or> sm_interval move = 0 \<and> sm_add move = 0 \<and> sm_count move > 1
         \<or> sm_interval move \<ge> 0x80000000 then False
      else check_points sc (sm_add move) (unat (sm_count move)) 0 (sm_interval move) 0)"

subsection \<open>Interface\<close>

definition stepcompress_alloc :: "u32 \<Rightarrow> stepcompress" where
  "stepcompress_alloc oid = \<lparr>steps = [], q_off = 0, q_alloc = 0, sc_max_error = 0, mcu_time_offset = 0,
     mcu_freq = 0, last_step_print_time = 0, last_step_clock = 0, msg_queue = [], sc_oid = oid,
     queue_step_msgtag = 0, set_next_step_dir_msgtag = 0, sdir = - 1, invert_sdir = 0, next_step_clock = 0,
     next_step_dir = 0, last_position = 0, history_list = []\<rparr>"

definition stepcompress_fill :: "u32 \<Rightarrow> u32 \<Rightarrow> u32 \<Rightarrow> stepcompress \<Rightarrow> stepcompress" where
  "stepcompress_fill max_error qtag dtag sc =
     sc\<lparr>sc_max_error := max_error, queue_step_msgtag := qtag, set_next_step_dir_msgtag := dtag\<rparr>"

definition stepcompress_set_invert_sdir :: "u32 \<Rightarrow> stepcompress \<Rightarrow> stepcompress" where
  "stepcompress_set_invert_sdir flag sc =
     (let i = (if flag \<noteq> 0 then 1 else 0) in
      if i \<noteq> invert_sdir sc then
        let sc' = sc\<lparr>invert_sdir := i\<rparr>
        in if sdir sc' \<ge> 0 then sc'\<lparr>sdir := sdir sc' XOR 1\<rparr> else sc'
      else sc)"

text \<open>The history is kept newest first; old entries are dropped from the end.\<close>

definition free_history :: "u64 \<Rightarrow> history_steps list \<Rightarrow> history_steps list" where
  "free_history end_clock hs = rev (dropWhile (\<lambda>h. \<not> hs_last_clock h > end_clock) (rev hs))"

definition calc_last_step_print_time :: "stepcompress \<Rightarrow> stepcompress" where
  "calc_last_step_print_time sc =
     (let lsc = real (unat (last_step_clock sc));
          sc1 = sc\<lparr>last_step_print_time := mcu_time_offset sc + (lsc - 1 / 2) / mcu_freq sc\<rparr>
      in if lsc > mcu_freq sc1 * HISTORY_EXPIRE
         then sc1\<lparr>history_list := free_history (word_of_int (c_trunc (lsc - mcu_freq sc1 * HISTORY_EXPIRE)))
                                    (history_list sc1)\<rparr>
         else sc1)"

definition stepcompress_set_time :: "real \<Rightarrow> real \<Rightarrow> stepcompress \<Rightarrow> stepcompress" where
  "stepcompress_set_time time_offset freq sc =
     calc_last_step_print_time (sc\<lparr>mcu_time_offset := time_offset, mcu_freq := freq\<rparr>)"

definition add_move :: "u64 \<Rightarrow> step_move \<Rightarrow> stepcompress \<Rightarrow> stepcompress" where
  "add_move first_clock move sc =
     (let count = int (unat (sm_count move)); addfactor = count * (count - 1) div 2;
          ticks = word_of_int (sint (sm_add move) * addfactor) + sm_interval move * word_of_int (count - 1) :: u32;
          last_clock = first_clock + to_u64 ticks;
          qm = message_alloc_and_encode [queue_step_msgtag sc, sc_oid sc, sm_interval move,
                 to_u32 (sm_count move), scast (sm_add move)];
          qm1 = qm\<lparr>min_clock := last_step_clock sc, req_clock := last_step_clock sc\<rparr>;
          qm2 = (if sm_count move = 1 \<and> first_clock \<ge> last_step_clock sc + CLOCK_DIFF_MAX
                 then qm1\<lparr>req_clock := first_clock\<rparr> else qm1);
          hs = \<lparr>hs_first_clock = first_clock, hs_last_clock = last_clock, start_position = last_position sc,
                step_count = (if sdir sc \<noteq> 0 then count else - count),
                hs_interval = sint (sm_interval move), hs_add = sint (sm_add move)\<rparr>
      in sc\<lparr>msg_queue := msg_queue sc @ [qm2], last_step_clock := last_clock,
            last_position := last_position sc + step_count hs, history_list := hs # history_list sc\<rparr>)"

text \<open>Every round consumes at least one step.\<close>

primrec flush_loop :: "nat \<Rightarrow> u64 \<Rightarrow> stepcompress \<Rightarrow> (bool \<times> stepcompress) option" where
  "flush_loop 0 move_clock sc = None"
| "flush_loop (Suc n) move_clock sc =
     (if last_step_clock sc < move_clock then
        (case compress_bisect_add sc of
           None \<Rightarrow> None
         | Some move \<Rightarrow>
             if \<not> check_line sc move then Some (False, sc)
             else
               let sc1 = add_move (last_step_clock sc + to_u64 (sm_interval move)) move sc;
                   count = unat (sm_count move)
               in if count \<ge> length (steps sc1)
                  then Some (True, calc_last_step_print_time (sc1\<lparr>steps := [], q_off := 0\<rparr>))
                  else flush_loop n move_clock (sc1\<lparr>steps := drop count (steps sc1), q_off := q_off sc1 + count\<rparr>))
      else Some (True, calc_last_step_print_time sc))"

definition queue_flush :: "u64 \<Rightarrow> stepcompress \<Rightarrow> (bool \<times> stepcompress) option" where
  "queue_flush move_clock sc =
     (if steps sc = [] then Some (True, sc) else flush_loop (length (steps sc) + 1) move_clock sc)"

definition stepcompress_flush_far :: "u64 \<Rightarrow> stepcompress \<Rightarrow> stepcompress" where
  "stepcompress_flush_far abs_step_clock sc =
     calc_last_step_print_time (add_move abs_step_clock
       \<lparr>sm_interval = to_u32 (abs_step_clock - last_step_clock sc), sm_count = 1, sm_add = 0\<rparr> sc)"

definition and_then :: "(bool \<times> stepcompress) option \<Rightarrow> (stepcompress \<Rightarrow> (bool \<times> stepcompress) option)
    \<Rightarrow> (bool \<times> stepcompress) option" where
  "and_then r f = (case r of
     None \<Rightarrow> None
   | Some (ok, sc) \<Rightarrow> if ok then f sc else Some (False, sc))"

definition UINT64_MAX :: u64 where "UINT64_MAX = - 1"

definition set_next_step_dir :: "int \<Rightarrow> stepcompress \<Rightarrow> (bool \<times> stepcompress) option" where
  "set_next_step_dir d sc =
     (if sdir sc = d then Some (True, sc)
      else and_then (queue_flush UINT64_MAX sc) (\<lambda>sc1.
        let sc2 = sc1\<lparr>sdir := d\<rparr>;
            qm = message_alloc_and_encode [set_next_step_dir_msgtag sc2, sc_oid sc2,
                   word_of_int (d XOR invert_sdir sc2)]
        in Some (True, sc2\<lparr>msg_queue := msg_queue sc2 @ [qm\<lparr>req_clock := last_step_clock sc2\<rparr>]\<rparr>)))"

text \<open>The store \<^verbatim>\<open>*sc->queue_next++ = clock\<close>.\<close>

definition store_step :: "u64 \<Rightarrow> stepcompress \<Rightarrow> (bool \<times> stepcompress) option" where
  "store_step clock sc =
     (if q_off sc + length (steps sc) < q_alloc sc
      then Some (True, sc\<lparr>steps := steps sc @ [to_u32 clock]\<rparr>) else None)"

definition queue_append_far :: "stepcompress \<Rightarrow> (bool \<times> stepcompress) option" where
  "queue_append_far sc =
     (let step_clock = next_step_clock sc in
      and_then (queue_flush (step_clock - CLOCK_DIFF_MAX + 1) (sc\<lparr>next_step_clock := 0\<rparr>)) (\<lambda>sc1.
      if step_clock \<ge> last_step_clock sc1 + CLOCK_DIFF_MAX
      then Some (True, stepcompress_flush_far step_clock sc1)
      else store_step step_clock sc1))"

function grow :: "nat \<Rightarrow> nat \<Rightarrow> nat" where
  "grow in_use alloc = (if alloc > 0 \<and> in_use \<ge> alloc then grow in_use (alloc * 2) else alloc)"
  by pat_completeness auto
termination by (relation "measure (\<lambda>(in_use, alloc). Suc in_use - alloc)") auto

declare grow.simps [simp del]

definition make_room :: "stepcompress \<Rightarrow> stepcompress" where
  "make_room sc =
     (if q_off sc + length (steps sc) \<ge> q_alloc sc then
        if q_off sc > 0 then sc\<lparr>q_off := 0\<rparr>
        else sc\<lparr>q_alloc := grow (length (steps sc)) (if q_alloc sc = 0 then QUEUE_START_SIZE else q_alloc sc)\<rparr>
      else sc)"

definition queue_append_extend :: "stepcompress \<Rightarrow> (bool \<times> stepcompress) option" where
  "queue_append_extend sc =
     and_then (if length (steps sc) > 65535 + 2000 then
                 let flush = steps sc ! (length (steps sc) - 65535) - to_u32 (last_step_clock sc)
                 in queue_flush (last_step_clock sc + to_u64 flush) sc
               else Some (True, sc)) (\<lambda>sc1.
     and_then (store_step (next_step_clock sc1) (make_room sc1)) (\<lambda>sc2.
     Some (True, sc2\<lparr>next_step_clock := 0\<rparr>)))"

definition queue_append :: "stepcompress \<Rightarrow> (bool \<times> stepcompress) option" where
  "queue_append sc =
     and_then (if next_step_dir sc \<noteq> sdir sc then set_next_step_dir (next_step_dir sc) sc
               else Some (True, sc)) (\<lambda>sc1.
     if next_step_clock sc1 \<ge> last_step_clock sc1 + CLOCK_DIFF_MAX then queue_append_far sc1
     else if q_off sc1 + length (steps sc1) \<ge> q_alloc sc1 then queue_append_extend sc1
     else and_then (store_step (next_step_clock sc1) sc1) (\<lambda>sc2.
          Some (True, sc2\<lparr>next_step_clock := 0\<rparr>)))"

definition stepcompress_append :: "int \<Rightarrow> real \<Rightarrow> real \<Rightarrow> stepcompress \<Rightarrow> (bool \<times> stepcompress) option" where
  "stepcompress_append dir print_time step_time sc =
     (let offset = print_time - last_step_print_time sc;
          rel_sc = (step_time + offset) * mcu_freq sc;
          step_clock = last_step_clock sc + word_of_int (c_trunc rel_sc);
          keep = (\<lambda>sc. Some (True, sc\<lparr>next_step_clock := step_clock, next_step_dir := dir\<rparr>))
      in if next_step_clock sc \<noteq> 0 then
           if dir \<noteq> next_step_dir sc \<and>
              real_of_int (sint (step_clock - next_step_clock sc)) < SDS_FILTER_TIME * mcu_freq sc
           then Some (True, sc\<lparr>next_step_clock := 0, next_step_dir := dir\<rparr>)
           else and_then (queue_append sc) keep
         else keep sc)"

definition stepcompress_commit :: "stepcompress \<Rightarrow> (bool \<times> stepcompress) option" where
  "stepcompress_commit sc = (if next_step_clock sc \<noteq> 0 then queue_append sc else Some (True, sc))"

definition stepcompress_flush :: "u64 \<Rightarrow> stepcompress \<Rightarrow> (bool \<times> stepcompress) option" where
  "stepcompress_flush move_clock sc =
     and_then (if next_step_clock sc \<noteq> 0 \<and> move_clock \<ge> next_step_clock sc then queue_append sc
               else Some (True, sc)) (queue_flush move_clock)"

definition stepcompress_reset :: "u64 \<Rightarrow> stepcompress \<Rightarrow> (bool \<times> stepcompress) option" where
  "stepcompress_reset clock sc =
     and_then (stepcompress_flush UINT64_MAX sc) (\<lambda>sc1.
     Some (True, calc_last_step_print_time (sc1\<lparr>last_step_clock := clock, sdir := - 1\<rparr>)))"

definition stepcompress_set_last_position :: "u64 \<Rightarrow> int \<Rightarrow> stepcompress \<Rightarrow> (bool \<times> stepcompress) option" where
  "stepcompress_set_last_position clock pos sc =
     and_then (stepcompress_flush UINT64_MAX sc) (\<lambda>sc1.
     Some (True, sc1\<lparr>last_position := pos, history_list :=
       \<lparr>hs_first_clock = clock, hs_last_clock = clock, start_position = pos, step_count = 0,
        hs_interval = 0, hs_add = 0\<rparr> # history_list sc1\<rparr>))"

text \<open>A division by an interval of zero is undefined.\<close>

primrec past_position :: "u64 \<Rightarrow> int \<Rightarrow> history_steps list \<Rightarrow> int option" where
  "past_position clock pos [] = Some pos"
| "past_position clock pos (hs # rest) =
     (if clock < hs_first_clock hs then past_position clock (start_position hs) rest
      else if clock \<ge> hs_last_clock hs then Some (start_position hs + step_count hs)
      else
        let ticks = to_int32 (sint (to_u32 (clock - hs_first_clock hs) :: u32) + hs_interval hs);
            a = 0.5 * real_of_int (hs_add hs); b = real_of_int (hs_interval hs) - 0.5 * real_of_int (hs_add hs);
            c = real_of_int (- ticks);
            move = (\<lambda>off. start_position hs + (if step_count hs < 0 then - off else off))
        in if hs_add hs = 0 then
             (if hs_interval hs = 0 then None else Some (move (c_div ticks (hs_interval hs))))
           else Some (move (c_trunc ((sqrt (b * b - 4 * a * c) - b) / (2 * a)))))"

definition stepcompress_find_past_position :: "u64 \<Rightarrow> stepcompress \<Rightarrow> int option" where
  "stepcompress_find_past_position clock sc = past_position clock (last_position sc) (history_list sc)"

definition stepcompress_queue_msg :: "u32 list \<Rightarrow> stepcompress \<Rightarrow> (bool \<times> stepcompress) option" where
  "stepcompress_queue_msg data sc =
     and_then (stepcompress_flush UINT64_MAX sc) (\<lambda>sc1.
     Some (True, sc1\<lparr>msg_queue := msg_queue sc1 @
       [(message_alloc_and_encode data)\<lparr>req_clock := last_step_clock sc1\<rparr>]\<rparr>))"

primrec extract_loop :: "nat \<Rightarrow> u64 \<Rightarrow> u64 \<Rightarrow> nat \<Rightarrow> history_steps list \<Rightarrow> history_steps list" where
  "extract_loop mx start_clock end_clock res [] = []"
| "extract_loop mx start_clock end_clock res (hs # rest) =
     (if start_clock \<ge> hs_last_clock hs \<or> res \<ge> mx then []
      else if end_clock \<le> hs_first_clock hs then extract_loop mx start_clock end_clock res rest
      else hs # extract_loop mx start_clock end_clock (Suc res) rest)"

definition stepcompress_extract_old :: "nat \<Rightarrow> u64 \<Rightarrow> u64 \<Rightarrow> stepcompress \<Rightarrow> history_steps list" where
  "stepcompress_extract_old mx start_clock end_clock sc =
     extract_loop mx start_clock end_clock 0 (history_list sc)"

subsection \<open>Synchronising steppers\<close>

record steppersync =
  ss_sq :: serialqueue
  ss_cq :: nat
  sc_list :: "stepcompress list"
  move_clocks :: "u64 list"

definition steppersync_alloc :: "serialqueue \<Rightarrow> nat \<Rightarrow> stepcompress list \<Rightarrow> nat \<Rightarrow> steppersync" where
  "steppersync_alloc sq cq scs move_num =
     \<lparr>ss_sq = serialqueue_alloc_commandqueue cq sq, ss_cq = cq, sc_list = scs,
      move_clocks = replicate move_num 0\<rparr>"

definition steppersync_set_time :: "real \<Rightarrow> real \<Rightarrow> steppersync \<Rightarrow> steppersync" where
  "steppersync_set_time time_offset freq ss =
     ss\<lparr>sc_list := map (stepcompress_set_time time_offset freq) (sc_list ss)\<rparr>"

definition child_clock :: "u64 list \<Rightarrow> nat \<Rightarrow> u64" where
  "child_clock mc i = (if i < length mc then mc ! i else UINT64_MAX)"

function heap_replace :: "u64 list \<Rightarrow> u64 \<Rightarrow> nat \<Rightarrow> u64 list" where
  "heap_replace mc rc pos =
     (let c1 = child_clock mc (2 * pos + 1); c2 = child_clock mc (2 * pos + 2) in
      if rc \<le> c1 \<and> rc \<le> c2 then mc[pos := rc]
      else if c1 < c2 then heap_replace (mc[pos := c1]) rc (2 * pos + 1)
      else heap_replace (mc[pos := c2]) rc (2 * pos + 2))"
  by pat_completeness auto
termination
proof (relation "measure (\<lambda>(mc, rc, pos). length mc - pos)", goal_cases)
  case (2 mc rc pos x xa)
  then have "\<not> length mc \<le> 2 * pos + 1"
    by (auto simp: child_clock_def UINT64_MAX_def split: if_splits)
  then show ?case by simp
next
  case (3 mc rc pos x xa)
  have "\<not> length mc \<le> 2 * pos + 2"
  proof
    assume "length mc \<le> 2 * pos + 2"
    then have x2: "xa = - 1" using 3(2) by (simp add: child_clock_def UINT64_MAX_def)
    then have "x = - 1" using 3(4) by (metis word_n1_ge word_order.not_eq_extremum)
    with x2 3(3) show False by simp
  qed
  then show ?case by simp
qed simp

declare heap_replace.simps [simp del]

primrec flush_all :: "u64 \<Rightarrow> stepcompress list \<Rightarrow> (bool \<times> stepcompress list) option" where
  "flush_all move_clock [] = Some (True, [])"
| "flush_all move_clock (sc # scs) = (case stepcompress_flush move_clock sc of
     None \<Rightarrow> None
   | Some (ok, sc') \<Rightarrow>
       if \<not> ok then Some (False, sc' # scs)
       else (case flush_all move_clock scs of
               None \<Rightarrow> None
             | Some (ok', scs') \<Rightarrow> Some (ok', sc' # scs')))"

text \<open>The stepper whose first message has the lowest requested clock.\<close>

primrec first_message :: "stepcompress list \<Rightarrow> nat \<Rightarrow> u64 \<Rightarrow> (nat \<times> queue_message) option
    \<Rightarrow> (nat \<times> queue_message) option" where
  "first_message [] i rc best = best"
| "first_message (sc # scs) i rc best = (case msg_queue sc of
     [] \<Rightarrow> first_message scs (Suc i) rc best
   | m # _ \<Rightarrow> if req_clock m < rc then first_message scs (Suc i) (req_clock m) (Some (i, m))
              else first_message scs (Suc i) rc best)"

text \<open>The loop that collects the batch; a round takes one message.\<close>

primrec batch_loop :: "nat \<Rightarrow> u64 \<Rightarrow> steppersync \<Rightarrow> queue_message list \<Rightarrow> (steppersync \<times> queue_message list) option" where
  "batch_loop 0 move_clock ss msgs = None"
| "batch_loop (Suc n) move_clock ss msgs = (case first_message (sc_list ss) 0 MAX_CLOCK None of
     None \<Rightarrow> Some (ss, msgs)
   | Some (i, qm) \<Rightarrow>
       if min_clock qm \<noteq> 0 \<and> req_clock qm > move_clock then Some (ss, msgs)
       else if move_clocks ss = [] then None
       else
         let next_avail = move_clocks ss ! 0;
             mc = (if min_clock qm \<noteq> 0 then heap_replace (move_clocks ss) (min_clock qm) 0 else move_clocks ss);
             sc = sc_list ss ! i
         in batch_loop n move_clock
              (ss\<lparr>move_clocks := mc, sc_list := (sc_list ss)[i := sc\<lparr>msg_queue := tl (msg_queue sc)\<rparr>]\<rparr>)
              (msgs @ [qm\<lparr>min_clock := next_avail\<rparr>]))"

definition message_count :: "stepcompress list \<Rightarrow> nat" where
  "message_count scs = sum_list (map (\<lambda>sc. length (msg_queue sc)) scs)"

definition steppersync_flush :: "u64 \<Rightarrow> steppersync \<Rightarrow> (bool \<times> steppersync) option" where
  "steppersync_flush move_clock ss = (case flush_all move_clock (sc_list ss) of
     None \<Rightarrow> None
   | Some (ok, scs) \<Rightarrow>
       let ss1 = ss\<lparr>sc_list := scs\<rparr> in
       if \<not> ok then Some (False, ss1)
       else (case batch_loop (message_count scs + 1) move_clock ss1 [] of
               None \<Rightarrow> None
             | Some (ss2, msgs) \<Rightarrow>
                 Some (True, if msgs \<noteq> [] then ss2\<lparr>ss_sq := serialqueue_send_batch (ss_cq ss2) msgs (ss_sq ss2)\<rparr>
                             else ss2)))"

end
