(* ===== verification/Step_Accuracy.thy ===== *)
theory Step_Accuracy
  imports Stepcompress Wire Motion
begin

text \<open>
  Correctness of the step compression: the search for a move ends with a move or in an overflow of its arithmetic, and
  the moves that a flush sends make the firmware step at the requested times, up to the allowed error.  That the search
  does not overflow for the steps of normal operation is shown in the theory Step_Range.
\<close>

subsection \<open>Rounding\<close>

lemma c_div_pos: "0 < d \<Longrightarrow> c_div n d = (if 0 \<le> n then n div d else - ((- n) div d))"
  by (cases "n = 0") (auto simp: c_div_def sgn_if)

lemma div_bounds: "0 < d \<Longrightarrow> m div d * d \<le> m \<and> m < (m div d + 1) * d" for m d :: int
proof -
  assume "0 < d"
  then have "m div d * d + m mod d = m" "0 \<le> m mod d" "m mod d < d" by simp_all
  then show ?thesis unfolding distrib_right by linarith
qed

lemma idiv_up_ceil: "0 < d \<Longrightarrow> n \<le> idiv_up n d * d \<and> (idiv_up n d - 1) * d < n"
  using div_bounds [of d "n + d - 1"] div_bounds [of d "- n"]
  by (auto simp: idiv_up_def c_div_pos algebra_simps)

lemma idiv_down_floor: "0 < d \<Longrightarrow> idiv_down n d * d \<le> n \<and> n < (idiv_down n d + 1) * d"
  using div_bounds [of d n] div_bounds [of d "d - 1 - n"]
  by (auto simp: idiv_down_def c_div_pos algebra_simps)

lemma idiv_up_raises: "0 < d \<Longrightarrow> x * d < n \<Longrightarrow> x < idiv_up n d"
  using idiv_up_ceil [of d n] by (smt (verit) mult_right_less_imp_less)

lemma idiv_down_lowers: "0 < d \<Longrightarrow> n < x * d \<Longrightarrow> idiv_down n d < x"
  using idiv_down_floor [of d n] by (smt (verit) mult_right_less_imp_less)

subsection \<open>The inner loop\<close>

definition tri :: "nat \<Rightarrow> int" where
  "tri n = int n * (int n - 1) div 2"

definition next_min :: "stepcompress \<Rightarrow> int \<Rightarrow> nat \<Rightarrow> int \<Rightarrow> int" where
  "next_min sc add k lo = (if lo * int k < minp sc (k - 1) - add * tri k
     then idiv_up (minp sc (k - 1) - add * tri k) (int k) else lo)"

definition next_max :: "stepcompress \<Rightarrow> int \<Rightarrow> nat \<Rightarrow> int \<Rightarrow> int" where
  "next_max sc add k hi = (if hi * int k > maxp sc (k - 1) - add * tri k
     then idiv_down (maxp sc (k - 1) - add * tri k) (int k) else hi)"

lemma next_bounds:
  assumes "0 < k"
  shows "lo \<le> next_min sc add k lo" and "next_max sc add k hi \<le> hi"
    and "next_min sc add k lo \<le> i \<Longrightarrow> minp sc (k - 1) \<le> i * int k + add * tri k"
    and "i \<le> next_max sc add k hi \<Longrightarrow> i * int k + add * tri k \<le> maxp sc (k - 1)"
proof -
  have k: "0 < int k" using assms by simp
  show "lo \<le> next_min sc add k lo" using idiv_up_raises [OF k] by (auto simp: next_min_def intro: less_imp_le)
  show "next_max sc add k hi \<le> hi" using idiv_down_lowers [OF k] by (auto simp: next_max_def intro: less_imp_le)
  show "minp sc (k - 1) \<le> i * int k + add * tri k" if "next_min sc add k lo \<le> i"
  proof -
    have "minp sc (k - 1) - add * tri k \<le> next_min sc add k lo * int k"
      using idiv_up_ceil [OF k] by (auto simp: next_min_def)
    also have "\<dots> \<le> i * int k" using that by (simp add: mult_right_mono)
    finally show ?thesis by simp
  qed
  show "i * int k + add * tri k \<le> maxp sc (k - 1)" if "i \<le> next_max sc add k hi"
  proof -
    have "i * int k \<le> next_max sc add k hi * int k" using that by (simp add: mult_right_mono)
    also have "\<dots> \<le> maxp sc (k - 1) - add * tri k" using idiv_down_floor [OF k] by (auto simp: next_max_def)
    finally show ?thesis by simp
  qed
qed

lemma next_stays:
  assumes "0 < k" and "hi * int k + add * tri k < minp sc (k - 1)" and "minp sc (k - 1) \<le> maxp sc (k - 1)"
  shows "next_max sc add k hi = hi"
  using assms by (simp add: next_max_def)

lemma next_below:
  assumes "0 < k" and "minp sc (k - 1) \<le> hi * int k + add * tri k" and "lo \<le> hi"
  shows "next_min sc add k lo \<le> hi"
proof -
  let ?n = "minp sc (k - 1) - add * tri k"
  have "(idiv_up ?n (int k) - 1) * int k < hi * int k"
    using idiv_up_ceil [of "int k" ?n] assms(1,2) by linarith
  then have "idiv_up ?n (int k) - 1 < hi" by (rule mult_right_less_imp_less) simp
  then have "idiv_up ?n (int k) \<le> hi" by simp
  then show ?thesis using assms(3) by (simp add: next_min_def)
qed

lemma inner_loop_step:
  "inner_loop sc q add k lo hi iv =
     (if q \<le> k then Whole iv k
      else if \<not> inner_round_ok sc add (Suc k) lo hi then InnerOverflow
      else if next_max sc add (Suc k) hi < next_min sc add (Suc k) lo
      then Stuck iv (Suc k) (next_min sc add (Suc k) lo) (next_max sc add (Suc k) hi)
      else inner_loop sc q add (Suc k) (next_min sc add (Suc k) lo) (next_max sc add (Suc k) hi) (next_max sc add (Suc k) hi))"
  by (subst inner_loop.simps) (simp add: Let_def next_min_def next_max_def tri_def)

text \<open>A line through the first \<open>c\<close> points that stays within their bounds.\<close>

definition fits :: "stepcompress \<Rightarrow> int \<Rightarrow> int \<Rightarrow> nat \<Rightarrow> bool" where
  "fits sc i add c \<longleftrightarrow> (\<forall>k. 1 \<le> k \<longrightarrow> k \<le> c \<longrightarrow>
     minp sc (k - 1) \<le> i * int k + add * tri k \<and> i * int k + add * tri k \<le> maxp sc (k - 1))"

lemma inner_loop_spec:
  assumes "\<And>i. lo \<le> i \<Longrightarrow> i \<le> hi \<Longrightarrow> fits sc i add k" and "lo \<le> hi" and "iv = hi"
  shows "case inner_loop sc q add k lo hi iv of
      Whole i c \<Rightarrow> fits sc i add c \<and> lo \<le> i \<and> i \<le> hi \<and> k \<le> c \<and> c \<le> max k q
    | Stuck i c lo' hi' \<Rightarrow> fits sc i add (c - 1) \<and> lo \<le> i \<and> i \<le> hi \<and> k < c \<and> c \<le> q \<and> lo \<le> lo' \<and> hi' \<le> hi \<and>
        (i * int c + add * tri c < minp sc (c - 1) \<longrightarrow> minp sc (c - 1) \<le> maxp sc (c - 1) \<longrightarrow> hi' = i) \<and>
        (minp sc (c - 1) \<le> i * int c + add * tri c \<longrightarrow> lo' \<le> i)
    | InnerOverflow \<Rightarrow> True"
  using assms
proof (induction "q - k" arbitrary: k lo hi iv)
  case 0
  then show ?case by (subst inner_loop_step) auto
next
  case (Suc n)
  let ?lo = "next_min sc add (Suc k) lo" and ?hi = "next_max sc add (Suc k) hi"
  have q: "\<not> q \<le> k" using Suc.hyps(2) by simp
  have b: "lo \<le> ?lo" "?hi \<le> hi" using next_bounds by simp_all
  show ?case
  proof (cases "inner_round_ok sc add (Suc k) lo hi")
    case False
    then show ?thesis using q by (subst inner_loop_step) simp
  next
  case ok: True
  show ?thesis
  proof (cases "?hi < ?lo")
    case True
    then show ?thesis using q b ok Suc.prems next_stays [of "Suc k" hi add sc] next_below [of "Suc k" sc hi add lo]
      by (subst inner_loop_step) auto
  next
    case False
    have f: "fits sc i add (Suc k)" if "?lo \<le> i" "i \<le> ?hi" for i
    proof -
      have "fits sc i add k" using Suc.prems(1) that b by simp
      moreover have "minp sc k \<le> i * int (Suc k) + add * tri (Suc k)" "i * int (Suc k) + add * tri (Suc k) \<le> maxp sc k"
        using next_bounds(3,4) [of "Suc k"] that by fastforce+
      ultimately show ?thesis by (auto simp: fits_def le_Suc_eq)
    qed
    have "case inner_loop sc q add (Suc k) ?lo ?hi ?hi of
        Whole i c \<Rightarrow> fits sc i add c \<and> ?lo \<le> i \<and> i \<le> ?hi \<and> Suc k \<le> c \<and> c \<le> max (Suc k) q
      | Stuck i c lo' hi' \<Rightarrow> fits sc i add (c - 1) \<and> ?lo \<le> i \<and> i \<le> ?hi \<and> Suc k < c \<and> c \<le> q \<and> ?lo \<le> lo' \<and> hi' \<le> ?hi \<and>
          (i * int c + add * tri c < minp sc (c - 1) \<longrightarrow> minp sc (c - 1) \<le> maxp sc (c - 1) \<longrightarrow> hi' = i) \<and>
          (minp sc (c - 1) \<le> i * int c + add * tri c \<longrightarrow> lo' \<le> i)
      | InnerOverflow \<Rightarrow> True"
      by (rule Suc.hyps(1)) (use Suc.hyps(2) f False in auto)
    moreover have "inner_loop sc q add k lo hi iv = inner_loop sc q add (Suc k) ?lo ?hi ?hi"
      using q False ok by (subst inner_loop_step) simp
    ultimately show ?thesis using b q by (auto split: inner.splits)
  qed
  qed
qed

lemma inner_loop_count:
  "case inner_loop sc q add k lo hi iv of Whole i c \<Rightarrow> k \<le> c \<and> c \<le> max k q | Stuck i c lo' hi' \<Rightarrow>
     k < c \<and> c \<le> q \<and> lo \<le> lo' \<and> hi' \<le> hi | InnerOverflow \<Rightarrow> True"
proof (induction "q - k" arbitrary: k lo hi iv)
  case 0
  then show ?case by (simp add: inner_loop_step [of sc q])
next
  case (Suc n)
  have "case inner_loop sc q add (Suc k) l h v of Whole i c \<Rightarrow> Suc k \<le> c \<and> c \<le> max (Suc k) q
      | Stuck i c lo' hi' \<Rightarrow> Suc k < c \<and> c \<le> q \<and> l \<le> lo' \<and> hi' \<le> h | InnerOverflow \<Rightarrow> True" for l h v
    by (rule Suc.hyps(1)) (use Suc.hyps(2) in simp)
  from this [of "next_min sc add (Suc k) lo" "next_max sc add (Suc k) hi" "next_max sc add (Suc k) hi"] show ?case
    using Suc.hyps(2) next_bounds(1,2) [of "Suc k"]
    by (subst inner_loop_step) (fastforce split: inner.splits intro: order_trans)
qed

lemma inner_loop_stuck:
  "inner_loop sc q add k lo hi iv = Stuck i c lo' hi' \<Longrightarrow> k < c \<and> c \<le> q \<and> lo \<le> lo' \<and> hi' \<le> hi"
  using inner_loop_count [where sc = sc and q = q and add = add and k = k and lo = lo and hi = hi and iv = iv] by simp

lemma inner_stuck_first: "inner_loop sc q add k lo hi iv = Stuck i (Suc k) lo' hi' \<Longrightarrow> i = iv"
  by (subst (asm) inner_loop_step) (auto split: if_splits dest: inner_loop_stuck)

subsection \<open>The outer loop ends\<close>

lemma tri_pos: "2 \<le> n \<Longrightarrow> 0 < tri n"
proof -
  assume "2 \<le> n"
  then obtain k where n: "n = Suc (Suc k)" by (metis Suc_le_D numeral_2_eq_2 Suc_le_mono)
  have "2 \<le> int n * (int n - 1)" by (simp add: n algebra_simps)
  then show ?thesis unfolding tri_def by (simp add: pos_imp_zdiv_pos_iff)
qed

lemma note_best_fields [simp]:
  "b_add (note_best i c b) = b_add b" "minadd (note_best i c b) = minadd b" "maxadd (note_best i c b) = maxadd b"
  "outer_min (note_best i c b) = outer_min b" "outer_max (note_best i c b) = outer_max b"
  by (simp_all add: note_best_def Let_def)

definition narrowed :: "bisect \<Rightarrow> bisect \<Rightarrow> bool" where
  "narrowed b b' \<longleftrightarrow> minadd b \<le> minadd b' \<and> maxadd b' \<le> maxadd b"

lemma narrowed_trans: "narrowed a b \<Longrightarrow> narrowed b c \<Longrightarrow> narrowed a c"
  by (auto simp: narrowed_def)

lemma narrowed_if:
  "(c \<Longrightarrow> minadd b \<le> v) \<Longrightarrow> narrowed b (if c then b\<lparr>minadd := v\<rparr> else b)"
  "(c \<Longrightarrow> v \<le> maxadd b) \<Longrightarrow> narrowed b (if c then b\<lparr>maxadd := v\<rparr> else b)"
  by (simp_all add: narrowed_def)

lemma narrow_range:
  assumes "2 \<le> nc" and "minadd b \<le> b_add b" and "b_add b \<le> maxadd b"
  shows "minadd b \<le> minadd (narrow sc i nc lo hi b)" and "maxadd (narrow sc i nc lo hi b) \<le> maxadd b"
    and "b_add b < minadd (narrow sc i nc lo hi b) \<or> maxadd (narrow sc i nc lo hi b) < b_add b"
proof -
  let ?add = "b_add b" and ?t = "int nc * (int nc - 1) div 2" and ?n = "int nc"
  have t: "0 < ?t" using tri_pos [OF assms(1)] by (simp add: tri_def)
  define e where "e = err_delta sc (?n - 1)"
  define b1 where "b1 = (if ?add * ?t + i * ?n < minp sc (nc - 1) then b\<lparr>minadd := ?add + 1, outer_max := hi\<rparr>
    else b\<lparr>maxadd := ?add - 1, outer_min := lo\<rparr>)"
  define b1' where "b1' = (if minadd b1 < ?add - e then b1\<lparr>minadd := ?add - e\<rparr> else b1)"
  define b1'' where "b1'' = (if maxadd b1' > ?add + e then b1'\<lparr>maxadd := ?add + e\<rparr> else b1')"
  define b2 where "b2 = (if ?n - 1 > 1 then b1'' else b1)"
  define b3 where "b3 = (if minadd b2 * ?t < minp sc (nc - 1) - outer_max b2 * ?n
    then b2\<lparr>minadd := idiv_up (minp sc (nc - 1) - outer_max b2 * ?n) ?t\<rparr> else b2)"
  define b4 where "b4 = (if maxadd b3 * ?t > maxp sc (nc - 1) - outer_min b3 * ?n
    then b3\<lparr>maxadd := idiv_down (maxp sc (nc - 1) - outer_min b3 * ?n) ?t\<rparr> else b3)"
  have n: "narrow sc i nc lo hi b = b4"
  proof -
    have "narrow_side sc i nc lo hi b = b1" by (simp only: narrow_side_def Let_def b1_def)
    moreover have a: "b_add b1 = ?add" by (simp add: b1_def)
    have "narrow_error sc nc b1 = b2"
      unfolding narrow_error_def Let_def a b2_def b1''_def b1'_def e_def ..
    moreover have "narrow_min sc nc b2 = b3" by (simp only: narrow_min_def Let_def b3_def)
    moreover have "narrow_max sc nc b3 = b4" by (simp only: narrow_max_def Let_def b4_def)
    ultimately show ?thesis by (simp only: narrow_def)
  qed
  have "narrowed b1 b1'" unfolding b1'_def by (rule narrowed_if) simp
  moreover have "narrowed b1' b1''" unfolding b1''_def by (rule narrowed_if) simp
  ultimately have "narrowed b1 b2" using narrowed_trans [of b1 b1' b1''] by (simp add: b2_def narrowed_def)
  moreover have "narrowed b2 b3" unfolding b3_def by (rule narrowed_if) (use idiv_up_raises [OF t] in \<open>auto intro: less_imp_le\<close>)
  moreover have "narrowed b3 b4" unfolding b4_def by (rule narrowed_if) (use idiv_down_lowers [OF t] in \<open>auto intro: less_imp_le\<close>)
  ultimately have "narrowed b1 b4" using narrowed_trans by blast
  moreover have "narrowed b b1" "?add < minadd b1 \<or> maxadd b1 < ?add" using assms(2,3) by (auto simp: b1_def narrowed_def)
  ultimately show "minadd b \<le> minadd (narrow sc i nc lo hi b)" "maxadd (narrow sc i nc lo hi b) \<le> maxadd b"
    "?add < minadd (narrow sc i nc lo hi b) \<or> maxadd (narrow sc i nc lo hi b) < ?add"
    unfolding n narrowed_def by auto
qed

lemma outer_loop_ends:
  assumes "minadd b \<le> b_add b" and "b_add b \<le> maxadd b" and "nat (maxadd b - minadd b) < n"
  shows "outer_loop n sc q b \<noteq> Unfinished"
  using assms
proof (induction n arbitrary: b)
  case (Suc n)
  show ?case
  proof (cases "inner_loop sc q (b_add b) 1 (outer_min b) (outer_max b) (outer_max b)")
    case (Whole i c)
    then show ?thesis by simp
  next
    case (Stuck i nc lo hi)
    define b1 where "b1 = note_best i (int nc - 1) b"
    define b2 where "b2 = narrow sc i nc lo hi b1"
    have nc: "2 \<le> nc" using inner_loop_stuck [OF Stuck] by simp
    have r: "minadd b \<le> minadd b2" "maxadd b2 \<le> maxadd b" "b_add b < minadd b2 \<or> maxadd b2 < b_add b"
      using narrow_range [OF nc, of b1 sc i lo hi] Suc.prems by (simp_all add: b2_def b1_def)
    define b3 where "b3 = b2\<lparr>b_add := maxadd b2 - c_div (maxadd b2 - minadd b2) 4\<rparr>"
    have "outer_loop n sc q b3 \<noteq> Unfinished" if "minadd b2 \<le> maxadd b2"
    proof (rule Suc.IH)
      have "0 \<le> c_div (maxadd b2 - minadd b2) 4" "c_div (maxadd b2 - minadd b2) 4 \<le> maxadd b2 - minadd b2"
        using that by (simp_all add: c_div_pos)
      then show "minadd b3 \<le> b_add b3" "b_add b3 \<le> maxadd b3" by (simp_all add: b3_def)
      show "nat (maxadd b3 - minadd b3) < n" using r that Suc.prems by (auto simp: b3_def)
    qed
    then show ?thesis
      using Stuck by (simp add: Let_def b1_def [symmetric] b2_def [symmetric] b3_def [symmetric] del: note_best_fields)
  next
    case InnerOverflow
    then show ?thesis by simp
  qed
qed simp

lemma bisect_search_ends: "bisect_search sc \<noteq> Unfinished"
  unfolding bisect_search_def by (rule outer_loop_ends) simp_all

lemma compress_bisect_add_cases:
  obtains (move) move where "compress_bisect_add sc = Some move" "bisect_search sc = Found move"
  | (overflow) "compress_bisect_add sc = None" "bisect_search sc = Overflowed"
  using bisect_search_ends [of sc] by (cases "bisect_search sc") (auto simp: compress_bisect_add_def)

subsection \<open>The size of a move\<close>

lemma narrow_fields [simp]:
  "bestinterval (narrow sc i nc lo hi b) = bestinterval b" "bestcount (narrow sc i nc lo hi b) = bestcount b"
  "bestadd (narrow sc i nc lo hi b) = bestadd b" "bestreach (narrow sc i nc lo hi b) = bestreach b"
  "zerointerval (narrow sc i nc lo hi b) = zerointerval b" "zerocount (narrow sc i nc lo hi b) = zerocount b"
  by (simp_all add: narrow_def narrow_max_def narrow_min_def narrow_error_def narrow_side_def Let_def)

definition counts_ok :: "nat \<Rightarrow> bisect \<Rightarrow> bool" where
  "counts_ok q b \<longleftrightarrow> 0 \<le> bestcount b \<and> bestcount b \<le> int q \<and> 0 \<le> zerocount b \<and> zerocount b \<le> int q"

lemma bisect_result_count: "counts_ok q b \<Longrightarrow> \<exists>c. sm_count (bisect_result b) = word_of_int c \<and> 0 \<le> c \<and> c \<le> int q"
  by (auto simp: bisect_result_def mk_move_def counts_ok_def)

lemma outer_loop_count:
  "outer_loop n sc q b = Found move \<Longrightarrow> counts_ok q b \<Longrightarrow> 1 \<le> q \<Longrightarrow> \<exists>c. sm_count move = word_of_int c \<and> 0 \<le> c \<and> c \<le> int q"
proof (induction n arbitrary: b)
  case (Suc n)
  show ?case
  proof (cases "inner_loop sc q (b_add b) 1 (outer_min b) (outer_max b) (outer_max b)")
    case (Whole i c)
    then have "c \<le> q" using inner_loop_count [where sc = sc and q = q and add = "b_add b" and k = 1 and lo = "outer_min b" and
        hi = "outer_max b" and iv = "outer_max b"] Suc.prems(3) by simp
    then show ?thesis using Suc.prems(1) Whole by (auto simp: mk_move_def intro: exI [of _ "int c"])
  next
    case (Stuck i nc lo hi)
    define b1 where "b1 = note_best i (int nc - 1) b"
    define b2 where "b2 = narrow sc i nc lo hi b1"
    have ok: "counts_ok q b1" "counts_ok q b2"
      using inner_loop_stuck [OF Stuck] Suc.prems(2) by (auto simp: b2_def b1_def note_best_def Let_def counts_ok_def)
    then have ok3: "counts_ok q (b2\<lparr>b_add := v\<rparr>)" for v by (simp add: counts_ok_def)
    show ?thesis
      using Suc.prems(1,3) Stuck bisect_result_count [OF ok(1)] bisect_result_count [OF ok(2)] Suc.IH [OF _ ok3]
      by (auto simp: Let_def b1_def [symmetric] b2_def [symmetric] simp del: note_best_fields narrow_fields split: if_splits)
  next
    case InnerOverflow
    then show ?thesis using Suc.prems(1) by simp
  qed
qed simp

lemma compress_count:
  assumes "compress_bisect_add sc = Some move" and "steps sc \<noteq> []"
  shows "unat (sm_count move) \<le> length (steps sc)"
proof -
  let ?q = "min (length (steps sc)) 65535"
  have q: "1 \<le> ?q" using assms(2) by (cases "steps sc") auto
  obtain c where c: "sm_count move = word_of_int c" "0 \<le> c" "c \<le> int ?q"
  proof -
    have "bisect_search sc = Found move" using assms(1) by (auto simp: compress_bisect_add_def split: search.splits)
    from outer_loop_count [OF this [unfolded bisect_search_def] _ q] show ?thesis
      using q that by (auto simp: counts_ok_def)
  qed
  then have "unat (sm_count move) = nat c" by (simp add: unat_eq_nat_uint uint_word_of_int_eq take_bit_int_eq_self)
  then show ?thesis using c(2,3) by simp
qed

subsection \<open>What a flush sends\<close>

lemma check_line_count: "check_line sc move \<Longrightarrow> 0 < unat (sm_count move)"
  by (auto simp: check_line_def unat_gt_0 split: if_splits)

lemma add_move_steps [simp]: "steps (add_move c move sc) = steps sc"
  by (simp add: add_move_def Let_def)

text \<open>The move node that \<^verbatim>\<open>command_queue_step\<close> makes of the arguments \<^verbatim>\<open>add_move\<close> sends.\<close>

definition queue_step_args :: "u32 \<Rightarrow> step_move \<Rightarrow> u32 list" where
  "queue_step_args oid move = [oid, sm_interval move, to_u32 (sm_count move), scast (sm_add move)]"

definition sent_move :: "step_move \<Rightarrow> stepper_move" where
  "sent_move move = (let args = queue_step_args 0 move in
     \<lparr>mv_interval = args ! 1, mv_add = to_u16 (args ! 3), mv_count = to_u16 (args ! 2), mv_flags = 0\<rparr>)"

lemma ucast_scast_16: "to_u16 (scast a :: u32) = a" for a :: u16
  by (rule bit_word_eqI) (auto simp: bit_simps)

lemma ucast_ucast_16: "to_u16 (to_u32 a) = a" for a :: u16
  by (rule bit_word_eqI) (auto simp: bit_simps)

lemma sent_move_fields [simp]:
  "mv_interval (sent_move move) = sm_interval move" "mv_add (sent_move move) = sm_add move"
  "mv_count (sent_move move) = sm_count move"
  by (simp_all add: sent_move_def queue_step_args_def Let_def ucast_scast_16 ucast_ucast_16)

lemma move_step_time_Suc:
  "move_step_time t mv (Suc k) = move_step_time (t + mv_interval mv) (mv\<lparr>mv_interval := mv_interval mv + scast (mv_add mv)\<rparr>) k"
proof -
  have "(of_nat (Suc (Suc k) * Suc k div 2) :: u32) = of_nat (Suc k * k div 2) + of_nat (Suc k)"
    using triangle_Suc [of "Suc k"] by simp
  then show ?thesis unfolding move_step_time_def by (simp add: algebra_simps)
qed

lemma check_points_times:
  "check_points sc a n i iv p \<Longrightarrow> k < n \<Longrightarrow> mv_interval mv = iv \<Longrightarrow> mv_add mv = a \<Longrightarrow>
     fst (minmax_point sc (i + k)) \<le> move_step_time p mv k \<and> move_step_time p mv k \<le> snd (minmax_point sc (i + k))"
proof (induction n arbitrary: i iv p k mv)
  case (Suc n)
  show ?case
  proof (cases k)
    case 0
    then show ?thesis using Suc.prems by (auto simp: Let_def move_step_time_def split: if_splits)
  next
    case (Suc k')
    have "check_points sc a n (Suc i) (iv + scast a) (p + iv)" "k' < n"
      using Suc Suc.prems(1,2) by (auto simp: Let_def split: if_splits)
    from Suc.IH [OF this, of "mv\<lparr>mv_interval := mv_interval mv + scast (mv_add mv)\<rparr>"] show ?thesis
      unfolding Suc move_step_time_Suc using Suc.prems(3,4) by simp
  qed
qed simp

lemma point_error: "q - e \<le> x \<Longrightarrow> x \<le> q \<Longrightarrow> q - x \<le> e" for q e x :: u32
  by (simp add: word_le_nat_alt unat_sub_if_size split: if_splits)

lemma minmax_point_error:
  "\<exists>e. minmax_point sc i = (steps sc ! i - to_u32 (last_step_clock sc) - e, steps sc ! i - to_u32 (last_step_clock sc)) \<and>
     e \<le> sc_max_error sc"
  by (auto simp: minmax_point_def Let_def)

lemma check_line_accurate:
  assumes "check_line sc move" and "k < unat (sm_count move)"
  shows "steps sc ! k - move_step_time (to_u32 (last_step_clock sc)) (sent_move move) k \<le> sc_max_error sc"
proof -
  let ?l = "to_u32 (last_step_clock sc)" and ?p = "move_step_time 0 (sent_move move) k"
  obtain e where e: "minmax_point sc k = (steps sc ! k - ?l - e, steps sc ! k - ?l)" "e \<le> sc_max_error sc"
    using minmax_point_error by blast
  have "check_points sc (sm_add move) (unat (sm_count move)) 0 (sm_interval move) 0"
    using assms(1) by (simp add: check_line_def split: if_splits)
  from check_points_times [OF this assms(2), of "sent_move move"] have
    "steps sc ! k - ?l - e \<le> ?p" "?p \<le> steps sc ! k - ?l" using e by simp_all
  then have "steps sc ! k - ?l - ?p \<le> e" by (rule point_error)
  moreover have "move_step_time ?l (sent_move move) k = ?l + ?p" by (simp add: move_step_time_def)
  ultimately show ?thesis using e(2) by (simp add: diff_diff_eq)
qed

text \<open>The step times of a series of moves, from the time of the step before them.\<close>

fun executed :: "u32 \<Rightarrow> step_move list \<Rightarrow> u32 list" where
  "executed t [] = []"
| "executed t (move # moves) =
     map (move_step_time t (sent_move move)) [0..<unat (sm_count move)] @
     executed (move_step_time t (sent_move move) (unat (sm_count move) - 1)) moves"

definition move_message :: "stepcompress \<Rightarrow> step_move \<Rightarrow> queue_message" where
  "move_message sc move = message_alloc_and_encode (queue_step_msgtag sc # queue_step_args (sc_oid sc) move)"

definition flushed :: "stepcompress \<Rightarrow> step_move list \<Rightarrow> stepcompress \<Rightarrow> bool" where
  "flushed sc moves sc' \<longleftrightarrow> (let t = to_u32 (last_step_clock sc); ts = executed t moves in
     map qm_msg (msg_queue sc') = map qm_msg (msg_queue sc) @ map (\<lambda>mv. qm_msg (move_message sc mv)) moves \<and>
     length ts \<le> length (steps sc) \<and> steps sc' = drop (length ts) (steps sc) \<and>
     (\<forall>k < length ts. steps sc ! k - ts ! k \<le> sc_max_error sc) \<and>
     to_u32 (last_step_clock sc') = last (t # ts))"

lemma add_move_clock:
  assumes "0 < unat (sm_count move)"
  shows "to_u32 (last_step_clock (add_move (last_step_clock sc + to_u64 (sm_interval move)) move sc)) =
    move_step_time (to_u32 (last_step_clock sc)) (sent_move move) (unat (sm_count move) - 1)"
proof -
  obtain c where c: "unat (sm_count move) = Suc c" using assms by (metis gr0_implies_Suc)
  have "(word_of_int (sint (sm_add move) * (int (Suc c) * int c div 2)) :: u32) =
      of_nat (Suc c * c div 2) * scast (sm_add move)"
  proof -
    have "int (Suc c) * int c div 2 = int (Suc c * c div 2)" by (simp add: zdiv_int algebra_simps)
    moreover have "(word_of_int (sint (sm_add move)) :: u32) = scast (sm_add move)" by (rule scast_eq [symmetric])
    ultimately show ?thesis by (simp only: of_int_mult of_int_of_nat_eq mult.commute)
  qed
  then show ?thesis
    unfolding add_move_def Let_def c
    by (simp add: to_u32_add to_u32_to_u64 move_step_time_def algebra_simps)
qed

lemma add_move_fields:
  "map qm_msg (msg_queue (add_move c move sc)) = map qm_msg (msg_queue sc) @ [qm_msg (move_message sc move)]"
  "sc_max_error (add_move c move sc) = sc_max_error sc" "sc_oid (add_move c move sc) = sc_oid sc"
  "queue_step_msgtag (add_move c move sc) = queue_step_msgtag sc"
  by (simp_all add: add_move_def Let_def move_message_def queue_step_args_def)

lemma calc_time_fields [simp]:
  "steps (calc_last_step_print_time sc) = steps sc" "msg_queue (calc_last_step_print_time sc) = msg_queue sc"
  "last_step_clock (calc_last_step_print_time sc) = last_step_clock sc"
  by (simp_all add: calc_last_step_print_time_def Let_def)

lemma flushed_step:
  assumes "check_line sc move" and "compress_bisect_add sc = Some move" and "steps sc \<noteq> []"
    and "sc1 = add_move (last_step_clock sc + to_u64 (sm_interval move)) move sc"
    and "sc2 = sc1\<lparr>steps := drop (unat (sm_count move)) (steps sc1), q_off := off\<rparr>"
    and "flushed sc2 moves sc'"
  shows "flushed sc (move # moves) sc'"
proof -
  let ?c = "unat (sm_count move)" and ?t = "to_u32 (last_step_clock sc)"
  define ts1 where "ts1 = map (move_step_time ?t (sent_move move)) [0..<?c]"
  define t2 where "t2 = move_step_time ?t (sent_move move) (?c - 1)"
  define ts2 where "ts2 = executed t2 moves"
  have c: "0 < ?c" "?c \<le> length (steps sc)" using check_line_count compress_count assms(1-3) by blast+
  have l2: "to_u32 (last_step_clock sc2) = t2" using add_move_clock [OF c(1), of sc] by (simp add: assms(4,5) t2_def)
  have f2: "queue_step_msgtag sc2 = queue_step_msgtag sc" "sc_oid sc2 = sc_oid sc" "sc_max_error sc2 = sc_max_error sc"
    "map qm_msg (msg_queue sc2) = map qm_msg (msg_queue sc) @ [qm_msg (move_message sc move)]"
    "steps sc2 = drop ?c (steps sc)" by (simp_all add: assms(4,5) add_move_fields)
  note F = assms(6) [unfolded flushed_def Let_def l2 ts2_def [symmetric] f2(3,4,5)]
  have "(ts1 @ ts2) ! k = (if k < ?c then move_step_time ?t (sent_move move) k else ts2 ! (k - ?c))" for k
    by (simp add: ts1_def nth_append)
  moreover have "steps sc ! k - move_step_time ?t (sent_move move) k \<le> sc_max_error sc" if "k < ?c" for k
    by (rule check_line_accurate [OF assms(1) that])
  moreover have "steps sc ! k - ts2 ! (k - ?c) \<le> sc_max_error sc" if "\<not> k < ?c" "k < ?c + length ts2" for k
    using F that c(2) by (auto dest!: spec [of _ "k - ?c"])
  ultimately have "\<forall>k < length (ts1 @ ts2). steps sc ! k - (ts1 @ ts2) ! k \<le> sc_max_error sc"
    by (auto simp: ts1_def)
  moreover have "last (?t # ts1 @ ts2) = last (t2 # ts2)"
    using c(1) by (cases "ts2 = []") (auto simp: ts1_def t2_def last_map last_append)
  moreover have "executed ?t (move # moves) = ts1 @ ts2" by (simp add: ts1_def t2_def ts2_def)
  moreover have "length (ts1 @ ts2) \<le> length (steps sc)" "steps sc' = drop (length (ts1 @ ts2)) (steps sc)"
  proof -
    have "length ts2 \<le> length (steps sc) - ?c" using F by simp
    then show "length (ts1 @ ts2) \<le> length (steps sc)" using c(2) by (simp add: ts1_def)
    show "steps sc' = drop (length (ts1 @ ts2)) (steps sc)" using F by (simp add: ts1_def add.commute)
  qed
  moreover have "map qm_msg (msg_queue sc') = map qm_msg (msg_queue sc) @ map (\<lambda>mv. qm_msg (move_message sc mv)) (move # moves)"
    using F by (simp add: move_message_def f2(1,2))
  moreover have "to_u32 (last_step_clock sc') = last (t2 # ts2)" using F by simp
  ultimately show ?thesis unfolding flushed_def Let_def by metis
qed

lemma flushed_refl: "steps sc' = steps sc \<Longrightarrow> msg_queue sc' = msg_queue sc \<Longrightarrow> last_step_clock sc' = last_step_clock sc \<Longrightarrow> flushed sc [] sc'"
  by (simp add: flushed_def)

lemma flush_loop_accurate:
  "flush_loop n move_clock sc = Some (ok, sc') \<Longrightarrow> steps sc \<noteq> [] \<Longrightarrow> \<exists>moves. flushed sc moves sc'"
proof (induction n arbitrary: sc)
  case (Suc n)
  show ?case
  proof (cases "compress_bisect_add sc")
  case None
  then have "sc' = calc_last_step_print_time sc" using Suc.prems(1) by (simp split: if_splits)
  then have "flushed sc [] sc'" by (simp add: flushed_refl)
  then show ?thesis ..
  next
  case m: (Some move)
  define sc1 where "sc1 = add_move (last_step_clock sc + to_u64 (sm_interval move)) move sc"
  define sc2 where "sc2 = sc1\<lparr>steps := drop (unat (sm_count move)) (steps sc1), q_off := q_off sc1 + unat (sm_count move)\<rparr>"
  define sc0 where "sc0 = sc1\<lparr>steps := [], q_off := 0\<rparr>"
  note run = Suc.prems(1) [unfolded flush_loop.simps m option.case Let_def, folded sc1_def, folded sc2_def sc0_def]
  consider "last_step_clock sc < move_clock" "check_line sc move" "unat (sm_count move) \<ge> length (steps sc1)"
      "sc' = calc_last_step_print_time sc0"
    | "last_step_clock sc < move_clock" "check_line sc move" "\<not> unat (sm_count move) \<ge> length (steps sc1)"
      "flush_loop n move_clock sc2 = Some (ok, sc')"
    | "sc' = sc \<or> sc' = calc_last_step_print_time sc"
    using run by (auto split: if_splits)
  then show ?thesis
  proof cases
    case 1
    have "sc0 = sc1\<lparr>steps := drop (unat (sm_count move)) (steps sc1), q_off := 0\<rparr>" using 1(3) by (simp add: sc0_def)
    moreover have "flushed sc0 [] sc'" by (rule flushed_refl) (simp_all add: 1(4))
    ultimately show ?thesis using flushed_step [OF 1(2) m Suc.prems(2) sc1_def] by blast
  next
    case 2
    have "steps sc2 \<noteq> []" using 2(3) by (simp add: sc2_def)
    from Suc.IH [OF 2(4) this] obtain moves where "flushed sc2 moves sc'" ..
    then show ?thesis using flushed_step [OF 2(2) m Suc.prems(2) sc1_def sc2_def] by blast
  next
    case 3
    then have "flushed sc [] sc'" by (auto intro: flushed_refl)
    then show ?thesis ..
  qed
  qed
qed simp

text \<open>
  C2: the firmware steps when the host asked for it.  Whatever a flush of the queue sends is a
  series of \<^verbatim>\<open>queue_step\<close> messages.  Executed by the firmware's rule for the times of the steps in a
  move, starting from the last step sent, they step exactly once for every step time taken out
  of the queue, in order, never late and early by no more than the configured error; and the
  host's record of the last step is the time of the last of these steps.
\<close>

theorem queue_flush_accurate:
  assumes "queue_flush move_clock sc = Some (ok, sc')" and "ts = executed (to_u32 (last_step_clock sc))"
  shows "\<exists>moves. map qm_msg (msg_queue sc') = map qm_msg (msg_queue sc) @ map (\<lambda>mv. qm_msg (move_message sc mv)) moves \<and>
    length (ts moves) \<le> length (steps sc) \<and> steps sc' = drop (length (ts moves)) (steps sc) \<and>
    (\<forall>k < length (ts moves). steps sc ! k - ts moves ! k \<le> sc_max_error sc) \<and>
    to_u32 (last_step_clock sc') = last (to_u32 (last_step_clock sc) # ts moves)"
proof -
  have "\<exists>moves. flushed sc moves sc'"
  proof (cases "steps sc = []")
    case True
    then have "flushed sc [] sc'" using assms(1) by (auto simp: queue_flush_def intro: flushed_refl)
    then show ?thesis ..
  next
    case False
    then show ?thesis using assms(1) flush_loop_accurate by (simp add: queue_flush_def del: flush_loop.simps)
  qed
  then show ?thesis unfolding flushed_def Let_def assms(2) .
qed

text \<open>Three steps, 100 ticks apart, with an allowed error of 5 ticks.\<close>

definition sample_steps :: stepcompress where
  "sample_steps = (stepcompress_alloc 4)\<lparr>steps := [100, 200, 300], q_alloc := 1024, sc_max_error := 5, mcu_freq := 1000\<rparr>"

lemma sample_compress: "compress_bisect_add sample_steps = Some (mk_move 100 3 0)"
proof -
  have p: "minmax_point sample_steps 0 = (95, 100)" "minmax_point sample_steps (Suc 0) = (195, 200)"
    "minmax_point sample_steps (Suc (Suc 0)) = (295, 300)"
    by (simp_all add: minmax_point_def sample_steps_def stepcompress_alloc_def Let_def)
  have l: "length (steps sample_steps) = 3" by (simp add: sample_steps_def)
  have "inner_loop sample_steps 3 0 1 95 100 100 = Whole 100 3"
    using p by (simp add: inner_loop.simps [of sample_steps 3] inner_round_ok_def in32_def idiv_up_ok_def idiv_up_def c_div_def Let_def)
  moreover have n: "(65537 :: nat) = Suc 65536" by simp
  ultimately show ?thesis
    unfolding compress_bisect_add_def bisect_search_def l n outer_loop.simps using p by simp
qed

theorem queue_flush_accurate_witness:
  "\<exists>ok sc' moves. queue_flush 1000 sample_steps = Some (ok, sc') \<and> length (executed 0 moves) \<le> 3 \<and>
     steps sc' = drop (length (executed 0 moves)) [100, 200, 300] \<and>
     to_u32 (last_step_clock sc') = last (0 # executed 0 moves)"
proof -
  obtain ok sc' where r: "queue_flush 1000 sample_steps = Some (ok, sc')"
    using sample_compress by (cases "check_line sample_steps (mk_move 100 3 0)")
      (auto simp: queue_flush_def sample_steps_def stepcompress_alloc_def mk_move_def Let_def)
  have s: "to_u32 (last_step_clock sample_steps) = 0" "steps sample_steps = [100, 200, 300]"
    by (simp_all add: sample_steps_def stepcompress_alloc_def)
  obtain moves where "length (executed 0 moves) \<le> length [100 :: u32, 200, 300]"
    "steps sc' = drop (length (executed 0 moves)) [100, 200, 300]"
    "to_u32 (last_step_clock sc') = last (0 # executed 0 moves)"
    using queue_flush_accurate [OF r refl] unfolding s by blast
  then show ?thesis using r by (intro exI [of _ ok] exI [of _ sc'] exI [of _ moves]) simp
qed

subsection \<open>A flush ends\<close>

lemma flush_loop_ends:
  "length (steps sc) < n \<Longrightarrow> steps sc \<noteq> [] \<Longrightarrow> (\<exists>ok sc'. flush_loop n move_clock sc = Some (ok, sc')) \<or>
     (\<exists>moves sc'. flushed sc moves sc' \<and> bisect_search sc' = Overflowed)"
proof (induction n arbitrary: sc)
  case (Suc n)
  show ?case
  proof (cases rule: compress_bisect_add_cases [of sc])
    case overflow
    moreover have "flushed sc [] sc" by (simp add: flushed_refl)
    ultimately show ?thesis by blast
  next
    case (move move)
    define sc1 where "sc1 = add_move (last_step_clock sc + to_u64 (sm_interval move)) move sc"
    define sc2 where "sc2 = sc1\<lparr>steps := drop (unat (sm_count move)) (steps sc1), q_off := q_off sc1 + unat (sm_count move)\<rparr>"
    show ?thesis
    proof (cases "check_line sc move \<and> \<not> unat (sm_count move) \<ge> length (steps sc1) \<and> last_step_clock sc < move_clock")
      case True
      then have "(\<exists>ok sc'. flush_loop n move_clock sc2 = Some (ok, sc')) \<or>
          (\<exists>moves sc'. flushed sc2 moves sc' \<and> bisect_search sc' = Overflowed)"
        using check_line_count [of sc move] Suc.prems(1) by (intro Suc.IH) (auto simp: sc2_def sc1_def)
      moreover have "flush_loop (Suc n) move_clock sc = flush_loop n move_clock sc2"
        using True unfolding flush_loop.simps move(1) option.case Let_def sc1_def [symmetric] sc2_def [symmetric] by simp
      moreover have "flushed sc2 moves sc' \<Longrightarrow> flushed sc (move # moves) sc'" for moves sc'
        using True flushed_step [OF _ move(1) Suc.prems(2) sc1_def sc2_def] by blast
      ultimately show ?thesis by metis
    next
      case False
      then show ?thesis
        unfolding flush_loop.simps move(1) option.case Let_def sc1_def [symmetric] sc2_def [symmetric] by auto
    qed
  qed
qed simp


subsection \<open>Valid step times are always accepted\<close>

definition req :: "stepcompress \<Rightarrow> nat \<Rightarrow> int" where
  "req sc k = (if k = 0 then 0 else uint (steps sc ! (k - 1) - to_u32 (last_step_clock sc)))"

text \<open>The step times increase and are less than \<open>2 ^ 31\<close> ticks after the last step sent.\<close>

definition steps_ok :: "stepcompress \<Rightarrow> bool" where
  "steps_ok sc \<longleftrightarrow> (\<forall>k < length (steps sc). req sc k < req sc (Suc k) \<and> req sc (Suc k) < 2 ^ 31)"

lemma steps_ok_point:
  assumes "steps_ok sc" and "k < length (steps sc)"
  shows "maxp sc k = req sc (Suc k)" and "req sc k < minp sc k" and "minp sc k \<le> maxp sc k"
    and "uint (fst (minmax_point sc k)) = minp sc k" and "uint (snd (minmax_point sc k)) = maxp sc k"
proof -
  define l where "l = to_u32 (last_step_clock sc)"
  define p where "p = steps sc ! k - l"
  define pr where "pr = (if k > 0 then steps sc ! (k - 1) - l else 0)"
  define e where "e = (if (p - pr) div 2 > sc_max_error sc then sc_max_error sc else (p - pr) div 2)"
  have mm: "minmax_point sc k = (p - e, p)"
    by (simp add: minmax_point_def Let_def p_def pr_def l_def e_def)
  have r: "req sc (Suc k) = uint p" "req sc k = uint pr" by (simp_all add: req_def p_def pr_def l_def)
  have lt: "uint pr < uint p" "uint p < 2 ^ 31" using assms r by (auto simp: steps_ok_def)
  have "uint (p - pr) = uint p - uint pr" using lt by (simp add: uint_sub_if')
  moreover have "e \<le> (p - pr) div 2" by (auto simp: e_def)
  ultimately have e: "uint e \<le> (uint p - uint pr) div 2" by (simp add: word_le_def uint_div)
  have "0 \<le> uint pr" by simp
  with e lt have le: "uint e \<le> uint p" "uint pr < uint p - uint e" by linarith+
  have pe: "uint (p - e) = uint p - uint e" using le(1) by (simp only: uint_sub_if' if_True)
  have s: "sint w = uint w" if "uint w < 2 ^ 31" for w :: u32
    using that signed_take_bit_int_eq_self [of 31 "uint w"] uint_nonnegative [of w] by (simp add: sint_uint)
  have e0: "0 \<le> uint e" by simp
  then have "uint (p - e) < 2 ^ 31" using pe lt(2) by linarith
  then have "sint (p - e) = uint p - uint e" "sint p = uint p" "uint p - uint e \<le> uint p"
    using s [of "p - e"] s [of p] pe lt(2) by simp_all
  then show "maxp sc k = req sc (Suc k)" "req sc k < minp sc k" "minp sc k \<le> maxp sc k"
    "uint (fst (minmax_point sc k)) = minp sc k" "uint (snd (minmax_point sc k)) = maxp sc k"
    unfolding mm r using lt le pe by simp_all
qed

lemma tri_Suc: "tri (Suc k) = tri k + int k"
proof -
  have "int (Suc k) * (int (Suc k) - 1) = int k * (int k - 1) + int k * 2" by (simp add: algebra_simps)
  then show ?thesis unfolding tri_def by simp
qed

definition pt :: "int \<Rightarrow> int \<Rightarrow> nat \<Rightarrow> int" where
  "pt i add k = i * int k + add * tri k"

lemma pt_Suc: "pt i add (Suc k) = pt i add k + (i + add * int k)"
  by (simp add: pt_def tri_Suc algebra_simps)

lemma pt_0 [simp]: "pt i add 0 = 0"
  by (simp add: pt_def tri_def)

text \<open>Points of a line that fits increase, like the requested times.\<close>

lemma fits_points:
  assumes "steps_ok sc" and "fits sc i add c" and "c \<le> length (steps sc)" and "k < c"
  shows "minp sc k \<le> pt i add (Suc k)" and "pt i add (Suc k) \<le> maxp sc k" and "pt i add k \<le> req sc k"
    and "pt i add k < pt i add (Suc k)" and "0 \<le> pt i add k" and "pt i add (Suc k) < 2 ^ 31"
proof -
  have k: "minp sc k \<le> pt i add (Suc k)" "pt i add (Suc k) \<le> maxp sc k" if "k < c" for k
    using assms(2) that unfolding fits_def pt_def by (auto dest!: spec [of _ "Suc k"])
  show "minp sc k \<le> pt i add (Suc k)" "pt i add (Suc k) \<le> maxp sc k" using k assms(4) by simp_all
  have r: "pt i add k \<le> req sc k \<and> 0 \<le> pt i add k" if "k < c" for k
  proof (cases k)
    case (Suc j)
    have "j < length (steps sc)" using that assms(3) Suc by simp
    then have "maxp sc j = req sc (Suc j)" "req sc j < minp sc j" using steps_ok_point [OF assms(1)] by blast+
    moreover have "0 \<le> req sc j" by (simp add: req_def)
    ultimately show ?thesis using k [of j] that Suc by simp
  qed (simp add: req_def)
  then show "pt i add k \<le> req sc k" "0 \<le> pt i add k" using assms(4) by simp_all
  have kl: "k < length (steps sc)" using assms(3,4) by simp
  note P = steps_ok_point [OF assms(1) kl]
  show "pt i add k < pt i add (Suc k)" using k [OF assms(4)] r [OF assms(4)] P(2) by linarith
  have "req sc (Suc k) < 2 ^ 31" using assms(1) kl by (simp add: steps_ok_def)
  then show "pt i add (Suc k) < 2 ^ 31" using k [OF assms(4)] P(1) by linarith
qed

lemma uint_of_int_u32: "0 \<le> x \<Longrightarrow> x < 2 ^ 31 \<Longrightarrow> uint (word_of_int x :: u32) = x"
  by (simp add: uint_word_of_int_eq take_bit_int_eq_self)

lemma sint_of_int_u16: "- (2 ^ 15) \<le> x \<Longrightarrow> x < 2 ^ 15 \<Longrightarrow> sint (word_of_int x :: u16) = x"
proof -
  assume x: "- (2 ^ 15) \<le> x" "x < 2 ^ 15"
  have "signed_take_bit 15 (take_bit 16 x) = signed_take_bit 15 x" by (simp add: signed_take_bit_eq_iff_take_bit_eq)
  moreover have "sint (word_of_int x :: u16) = signed_take_bit 15 (take_bit 16 x)" by (simp add: sint_uint uint_word_of_int_eq)
  ultimately show ?thesis using signed_take_bit_int_eq_self [of 15 x] x by simp
qed

lemma check_points_fit:
  assumes "steps_ok sc" and "fits sc i add c" and "c \<le> length (steps sc)" and "sint a = add"
  shows "n + k \<le> c \<Longrightarrow> check_points sc a n k (word_of_int (i + add * int k)) (word_of_int (pt i add k))"
proof (induction n arbitrary: k)
  case (Suc n)
  then have k: "k < c" "k < length (steps sc)" using assms(3) by simp_all
  note F = fits_points [OF assms(1-3) k(1)] and P = steps_ok_point [OF assms(1) k(2)]
  have p': "(word_of_int (pt i add k) + word_of_int (i + add * int k) :: u32) = word_of_int (pt i add (Suc k))"
    by (simp add: pt_Suc)
  have u: "uint (word_of_int (pt i add (Suc k)) :: u32) = pt i add (Suc k)"
    using F(4-6) by (simp add: uint_word_of_int_eq take_bit_int_eq_self)
  have iv: "0 < i + add * int k" "i + add * int k < 2 ^ 31" using F(4-6) by (simp_all add: pt_Suc)
  then have ui: "uint (word_of_int (i + add * int k) :: u32) = i + add * int k"
    by (intro uint_of_int_u32) simp_all
  have "\<not> word_of_int (pt i add (Suc k)) < fst (minmax_point sc k)" "\<not> snd (minmax_point sc k) < word_of_int (pt i add (Suc k))"
    using F(1,2) P(4,5) u by (simp_all add: word_less_def)
  moreover have "\<not> (0x80000000 :: u32) \<le> word_of_int (i + add * int k)" using iv ui by (simp add: word_le_def)
  moreover have "(word_of_int (i + add * int k) + scast a :: u32) = word_of_int (i + add * int (Suc k))"
    using assms(4) by (simp add: scast_eq algebra_simps)
  ultimately show ?case using Suc.IH [of "Suc k"] Suc.prems unfolding check_points.simps Let_def p'
    by (simp del: of_int_add of_int_mult of_nat_Suc)
qed simp

lemma fits_check_line:
  assumes "steps_ok sc" and "fits sc i add c" and "c \<le> length (steps sc)" and "1 \<le> c" and "c \<le> 65535"
    and "- (2 ^ 15) \<le> add" and "add < 2 ^ 15"
  shows "check_line sc (mk_move i (int c) add)"
proof -
  have a: "sint (word_of_int add :: u16) = add" using assms(6,7) by (rule sint_of_int_u16)
  have c: "unat (word_of_int (int c) :: u16) = c" using assms(5) by (simp add: unat_of_nat take_bit_nat_eq_self)
  have "0 < c" using assms(4) by simp
  note F = fits_points [OF assms(1-3) this]
  have iv: "0 < i" "i < 2 ^ 31" using F(4,6) by (simp_all add: pt_Suc)
  then have ui: "uint (word_of_int i :: u32) = i" by (simp add: uint_word_of_int_eq take_bit_int_eq_self)
  have "(word_of_int i :: u32) \<noteq> 0" using iv(1) ui by (metis less_irrefl unsigned_0)
  moreover have "\<not> (0x80000000 :: u32) \<le> word_of_int i" using iv ui by (simp add: word_le_def)
  moreover have "(word_of_int (int c) :: u16) \<noteq> 0" using c assms(4) by (metis not_one_le_zero unat_0)
  moreover have "check_points sc (word_of_int add) c 0 (word_of_int i) 0"
    using check_points_fit [OF assms(1-3) a, of c 0] by simp
  ultimately show ?thesis using c by (simp add: check_line_def mk_move_def)
qed

lemma req_mono:
  assumes "steps_ok sc" and "j \<le> k" and "k \<le> length (steps sc)"
  shows "req sc j \<le> req sc k"
  using assms(2,3)
proof (induction k)
  case (Suc k)
  have "req sc k < req sc (Suc k)" using assms(1) Suc.prems(2) by (simp add: steps_ok_def)
  then show ?case using Suc by (cases "j = Suc k") simp_all
qed simp

text \<open>The best line found so far fits and reaches beyond the first step.\<close>

definition found :: "stepcompress \<Rightarrow> nat \<Rightarrow> bisect \<Rightarrow> bool" where
  "found sc q b \<longleftrightarrow> 1 \<le> bestcount b \<and> bestcount b \<le> int q \<and> fits sc (bestinterval b) (bestadd b) (nat (bestcount b)) \<and>
     - (2 ^ 15) \<le> bestadd b \<and> bestadd b < 2 ^ 15 \<and> maxp sc 0 \<le> bestreach b \<and>
     (zerocount b \<le> 0 \<or> zerocount b \<le> int q \<and> fits sc (zerointerval b) 0 (nat (zerocount b)))"

definition fresh :: "stepcompress \<Rightarrow> bisect \<Rightarrow> bool" where
  "fresh sc b \<longleftrightarrow> outer_min b \<le> outer_max b \<and> outer_max b = maxp sc 0 \<and> bestreach b < 0 \<and> zerocount b = 0"

definition ranges_ok :: "stepcompress \<Rightarrow> bisect \<Rightarrow> bool" where
  "ranges_ok sc b \<longleftrightarrow> minp sc 0 \<le> outer_min b \<and> outer_max b \<le> maxp sc 0 \<and>
     - (2 ^ 15) \<le> minadd b \<and> maxadd b < 2 ^ 15 \<and> minadd b \<le> b_add b \<and> b_add b \<le> maxadd b"

lemma fits_1: "minp sc 0 \<le> i \<Longrightarrow> i \<le> maxp sc 0 \<Longrightarrow> fits sc i add (Suc 0)"
  by (auto simp: fits_def tri_def le_Suc_eq)

lemma is_best_pt: "is_best i (int c) b \<longleftrightarrow> pt i (b_add b) c > bestreach b \<or> pt i (b_add b) c = bestreach b \<and> i > bestinterval b"
  by (simp add: is_best_def Let_def pt_def tri_def add.commute)

lemma note_best_pt:
  "note_best i (int c) b = (if is_best i (int c) b then
     (let b' = b\<lparr>bestinterval := i, bestcount := int c, bestadd := b_add b, bestreach := pt i (b_add b) c\<rparr>
      in if b_add b = 0 then b'\<lparr>zerointerval := i, zerocount := int c\<rparr> else b') else b)"
  by (simp add: note_best_def is_best_def Let_def pt_def tri_def add.commute)

lemma note_found:
  assumes "ranges_ok sc b" and "fresh sc b \<or> found sc q b" and "1 \<le> c" and "c \<le> q"
    and "is_best i (int c) b \<Longrightarrow> fits sc i (b_add b) c \<and> maxp sc 0 \<le> pt i (b_add b) c"
    and "fresh sc b \<Longrightarrow> is_best i (int c) b"
  shows "found sc q (note_best i (int c) b)"
proof (cases "is_best i (int c) b")
  case True
  have "zerocount b \<le> 0 \<or> zerocount b \<le> int q \<and> fits sc (zerointerval b) 0 (nat (zerocount b))"
    using assms(2) by (auto simp: fresh_def found_def)
  then show ?thesis
    using True assms(1,3,4) assms(5) [OF True] by (auto simp: note_best_pt found_def ranges_ok_def Let_def)
next
  case False
  then show ?thesis using assms(2,6) by (auto simp: note_best_pt)
qed

lemma reach_first:
  assumes "steps_ok sc" and "fits sc i add c" and "c \<le> length (steps sc)" and "2 \<le> c"
  shows "maxp sc 0 \<le> pt i add c"
proof -
  obtain k where k: "c = Suc k" "1 \<le> k" using assms(4) by (cases c) auto
  have "minp sc k \<le> pt i add c" using fits_points(1) [OF assms(1-3), of k] k by simp
  moreover have "k < length (steps sc)" "0 < length (steps sc)" using assms(3) k by linarith+
  then have "req sc k < minp sc k" "maxp sc 0 = req sc 1"
    using steps_ok_point(2) [OF assms(1), of k] steps_ok_point(1) [OF assms(1), of 0] by simp_all
  moreover have "req sc 1 \<le> req sc k" using req_mono [OF assms(1), of 1 k] k assms(3) by simp
  ultimately show ?thesis by simp
qed

lemma round_inner:
  assumes "ranges_ok sc b" and "outer_min b \<le> outer_max b"
  shows "case inner_loop sc q (b_add b) 1 (outer_min b) (outer_max b) (outer_max b) of
      Whole i c \<Rightarrow> fits sc i (b_add b) c \<and> outer_min b \<le> i \<and> i \<le> outer_max b \<and> 1 \<le> c \<and> c \<le> max 1 q
    | Stuck i c lo' hi' \<Rightarrow> fits sc i (b_add b) (c - 1) \<and> outer_min b \<le> i \<and> i \<le> outer_max b \<and> 1 < c \<and> c \<le> q \<and>
        outer_min b \<le> lo' \<and> hi' \<le> outer_max b \<and>
        (i * int c + b_add b * tri c < minp sc (c - 1) \<longrightarrow> minp sc (c - 1) \<le> maxp sc (c - 1) \<longrightarrow> hi' = i) \<and>
        (minp sc (c - 1) \<le> i * int c + b_add b * tri c \<longrightarrow> lo' \<le> i)
    | InnerOverflow \<Rightarrow> True"
  by (rule inner_loop_spec) (use assms in \<open>auto simp: ranges_ok_def intro!: fits_1\<close>)

lemma round_spec:
  assumes ok: "steps_ok sc" "q \<le> length (steps sc)" and b: "ranges_ok sc b" "fresh sc b \<or> found sc q b" and q: "1 \<le> q"
    and q1: "fresh sc b \<or> 2 \<le> q"
  shows "case inner_loop sc q (b_add b) 1 (outer_min b) (outer_max b) (outer_max b) of
      Whole i c \<Rightarrow> fits sc i (b_add b) c \<and> 1 \<le> c \<and> c \<le> q
    | Stuck i nc lo hi \<Rightarrow> found sc q (note_best i (int nc - 1) b) \<and> 2 \<le> q
    | InnerOverflow \<Rightarrow> True"
proof -
  have p0: "minp sc 0 \<le> maxp sc 0" "0 \<le> maxp sc 0"
  proof -
    have "0 < length (steps sc)" using ok(2) q by linarith
    note P = steps_ok_point [OF ok(1) this]
    show "minp sc 0 \<le> maxp sc 0" "0 \<le> maxp sc 0" using P by (simp_all add: req_def)
  qed
  show ?thesis
  proof (cases "outer_min b \<le> outer_max b")
    case True
    note spec = round_inner [OF b(1) True, of q]
    show ?thesis
    proof (cases "inner_loop sc q (b_add b) 1 (outer_min b) (outer_max b) (outer_max b)")
      case (Whole i c)
      then show ?thesis using spec q by simp
    next
      case (Stuck i nc lo hi)
      then have S: "fits sc i (b_add b) (nc - 1)" "1 < nc" "nc \<le> q" using spec by simp_all
      then obtain c where c: "nc = Suc c" "1 \<le> c" by (cases nc) auto
      have first: "maxp sc 0 \<le> pt i (b_add b) c" if "fresh sc b \<or> 2 \<le> c"
      proof (cases "2 \<le> c")
        case True
        then show ?thesis using reach_first [OF ok(1)] S c ok(2) by simp
      next
        case False
        then have "c = 1" using c by simp
        moreover have "i = outer_max b"
          using Stuck \<open>c = 1\<close> c by (intro inner_stuck_first) auto
        ultimately show ?thesis using that False by (auto simp: fresh_def pt_def tri_def)
      qed
      have "found sc q (note_best i (int c) b)"
      proof (rule note_found [OF b])
        show "fits sc i (b_add b) c \<and> maxp sc 0 \<le> pt i (b_add b) c" if "is_best i (int c) b"
          using S(1) c first that b(2) by (auto simp: is_best_pt found_def)
        show "is_best i (int c) b" if "fresh sc b" using first that p0(2) by (auto simp: is_best_pt fresh_def)
      qed (use c S in auto)
      then show ?thesis using Stuck S c by simp
    next
      case InnerOverflow
      then show ?thesis by simp
    qed
  next
    case False
    then have f: "found sc q b" "\<not> fresh sc b" "2 \<le> q" using b(2) q1 by (auto simp: fresh_def)
    have "inner_loop sc q (b_add b) 1 (outer_min b) (outer_max b) (outer_max b) =
        (if inner_round_ok sc (b_add b) 2 (outer_min b) (outer_max b) then
           Stuck (outer_max b) 2 (next_min sc (b_add b) 2 (outer_min b)) (next_max sc (b_add b) 2 (outer_max b))
         else InnerOverflow)"
      using f(3) False next_bounds(1) [where k = 2 and sc = sc and add = "b_add b" and lo = "outer_min b"]
        next_bounds(2) [where k = 2 and sc = sc and add = "b_add b" and hi = "outer_max b"]
      by (subst inner_loop_step) (simp add: numeral_2_eq_2)
    moreover have "found sc q (note_best (outer_max b) (int 1) b)"
    proof (rule note_found [OF b])
      show "fits sc (outer_max b) (b_add b) 1 \<and> maxp sc 0 \<le> pt (outer_max b) (b_add b) 1" if "is_best (outer_max b) (int 1) b"
      proof -
        have "pt (outer_max b) (b_add b) 1 = outer_max b" by (simp add: pt_def tri_def)
        then have "outer_max b = maxp sc 0" using that f(1) b(1) unfolding is_best_pt by (auto simp: found_def ranges_ok_def)
        then show ?thesis using p0 fits_1 [of sc "outer_max b" "b_add b"] by (simp add: pt_def tri_def)
      qed
    qed (use f in auto)
    ultimately show ?thesis using f(3) by simp
  qed
qed

lemma narrow_outer:
  "outer_min (narrow sc i nc lo hi b) \<in> {outer_min b, lo}" "outer_max (narrow sc i nc lo hi b) \<in> {outer_max b, hi}"
  by (simp_all add: narrow_def narrow_max_def narrow_min_def narrow_error_def narrow_side_def Let_def)

lemma found_result:
  assumes "steps_ok sc" and "q \<le> length (steps sc)" and "q \<le> 65535" and "found sc q b"
  shows "check_line sc (bisect_result b)"
proof (cases "zerocount b + c_div (zerocount b) 16 \<ge> bestcount b")
  case True
  have "1 \<le> bestcount b" using assms(4) by (simp add: found_def)
  moreover have "c_div (zerocount b) 16 \<le> 0" if "zerocount b \<le> 0" using that by (auto simp: c_div_pos)
  ultimately have "\<not> zerocount b \<le> 0" using True by linarith
  then have z: "0 < zerocount b" "zerocount b \<le> int q" "fits sc (zerointerval b) 0 (nat (zerocount b))"
    using assms(4) by (auto simp: found_def)
  have "check_line sc (mk_move (zerointerval b) (int (nat (zerocount b))) 0)"
    by (rule fits_check_line) (use assms z in auto)
  then show ?thesis using True z(1) by (simp add: bisect_result_def)
next
  case False
  have f: "1 \<le> bestcount b" "bestcount b \<le> int q" "fits sc (bestinterval b) (bestadd b) (nat (bestcount b))"
    "- (2 ^ 15) \<le> bestadd b" "bestadd b < 2 ^ 15" using assms(4) by (simp_all add: found_def)
  have "check_line sc (mk_move (bestinterval b) (int (nat (bestcount b))) (bestadd b))"
    by (rule fits_check_line) (use assms f in auto)
  then show ?thesis using False f(1) by (simp add: bisect_result_def)
qed

lemma found_narrow: "found sc q b \<Longrightarrow> found sc q (narrow sc i nc lo hi b)" "found sc q b \<Longrightarrow> found sc q (b\<lparr>b_add := v\<rparr>)"
  by (simp_all add: found_def)

lemma outer_loop_valid:
  assumes ok: "steps_ok sc" "q \<le> length (steps sc)" "q \<le> 65535" "1 \<le> q"
  shows "ranges_ok sc b \<Longrightarrow> fresh sc b \<or> found sc q b \<and> 2 \<le> q \<Longrightarrow> outer_loop n sc q b = Found move \<Longrightarrow> check_line sc move"
proof (induction n arbitrary: b)
  case (Suc n)
  have spec: "case inner_loop sc q (b_add b) 1 (outer_min b) (outer_max b) (outer_max b) of
      Whole i c \<Rightarrow> fits sc i (b_add b) c \<and> 1 \<le> c \<and> c \<le> q
    | Stuck i nc lo hi \<Rightarrow> found sc q (note_best i (int nc - 1) b) \<and> 2 \<le> q
    | InnerOverflow \<Rightarrow> True"
    by (rule round_spec [OF ok(1,2) Suc.prems(1) _ ok(4)]) (use Suc.prems(2) in auto)
  show ?case
  proof (cases "inner_loop sc q (b_add b) 1 (outer_min b) (outer_max b) (outer_max b)")
    case (Whole i c)
    then have "check_line sc (mk_move i (int c) (b_add b))"
      using spec ok Suc.prems(1) by (intro fits_check_line) (auto simp: ranges_ok_def)
    then show ?thesis using Suc.prems(3) Whole by simp
  next
    case (Stuck i nc lo hi)
    define b1 where "b1 = note_best i (int nc - 1) b"
    define b2 where "b2 = narrow sc i nc lo hi b1"
    define b3 where "b3 = b2\<lparr>b_add := maxadd b2 - c_div (maxadd b2 - minadd b2) 4\<rparr>"
    have f: "found sc q b1" "found sc q b2" "found sc q b3" "2 \<le> q"
      using spec Stuck found_narrow by (simp_all add: b1_def b2_def b3_def)
    have st: "1 < nc" "outer_min b \<le> lo" "hi \<le> outer_max b" using inner_loop_stuck [OF Stuck] by simp_all
    have r: "minadd b \<le> minadd b2" "maxadd b2 \<le> maxadd b"
      using narrow_range [of nc b1 sc i lo hi] st(1) Suc.prems(1) by (simp_all add: b2_def b1_def ranges_ok_def)
    have "ranges_ok sc b3" if "minadd b2 \<le> maxadd b2"
    proof -
      have "0 \<le> c_div (maxadd b2 - minadd b2) 4" "c_div (maxadd b2 - minadd b2) 4 \<le> maxadd b2 - minadd b2"
        using that by (simp_all add: c_div_pos)
      moreover have "outer_min b2 \<in> {outer_min b, lo}" "outer_max b2 \<in> {outer_max b, hi}"
        using narrow_outer [where b = b1 and sc = sc and i = i and nc = nc and lo = lo and hi = hi] by (simp_all add: b2_def b1_def)
      ultimately show ?thesis using Suc.prems(1) r st by (auto simp: ranges_ok_def b3_def)
    qed
    then show ?thesis
      using Suc.prems(3) Stuck f Suc.IH [of b3] found_result [OF ok(1-3)]
      by (auto simp: Let_def b1_def [symmetric] b2_def [symmetric] b3_def [symmetric] split: if_splits)
  next
    case InnerOverflow
    then show ?thesis using Suc.prems(3) by simp
  qed
qed simp

lemma compress_valid:
  assumes "steps_ok sc" and "steps sc \<noteq> []" and "compress_bisect_add sc = Some move"
  shows "check_line sc move"
proof -
  have l: "0 < length (steps sc)" using assms(2) by simp
  then have q: "1 \<le> min (length (steps sc)) 65535" by (simp add: Suc_le_eq)
  show ?thesis
  proof (rule outer_loop_valid [OF assms(1) _ _ q])
    show "outer_loop 65537 sc (min (length (steps sc)) 65535)
       \<lparr>b_add = 0, minadd = - 0x8000, maxadd = 0x7fff, outer_min = minp sc 0, outer_max = maxp sc 0,
        bestinterval = 0, bestcount = 1, bestadd = 1, bestreach = - (2 ^ 31), zerointerval = 0, zerocount = 0\<rparr> = Found move"
      using assms(3) by (auto simp: compress_bisect_add_def bisect_search_def split: search.splits)
  qed (use steps_ok_point(3) [OF assms(1) l] in \<open>simp_all add: ranges_ok_def fresh_def\<close>)
qed

lemma steps_ok_rest:
  assumes ok: "steps_ok sc" and "check_line sc move" and "unat (sm_count move) \<le> length (steps sc)"
    and "sc1 = add_move (last_step_clock sc + to_u64 (sm_interval move)) move sc"
    and "sc2 = sc1\<lparr>steps := drop (unat (sm_count move)) (steps sc1), q_off := off\<rparr>"
  shows "steps_ok sc2" and "\<And>k. k < length (steps sc2) \<Longrightarrow> req sc2 (Suc k) \<le> req sc (unat (sm_count move) + Suc k)"
proof -
  define c where "c = unat (sm_count move)"
  define l where "l = to_u32 (last_step_clock sc)"
  define p where "p = move_step_time 0 (sent_move move) (c - 1)"
  have c: "0 < c" "c \<le> length (steps sc)" using check_line_count [OF assms(2)] assms(3) by (simp_all add: c_def)
  have "move_step_time l (sent_move move) (c - 1) = l + p" by (simp add: p_def move_step_time_def)
  then have l2: "to_u32 (last_step_clock sc2) = l + p"
    using add_move_clock [of move sc] c(1) by (simp add: assms(4,5) c_def l_def)
  have "check_points sc (sm_add move) c 0 (sm_interval move) 0"
    using assms(2) by (simp add: check_line_def c_def split: if_splits)
  from check_points_times [OF this, of "c - 1" "sent_move move"] c(1) have "p \<le> snd (minmax_point sc (c - 1))"
    by (simp add: p_def)
  then have p: "uint p \<le> req sc c"
    using steps_ok_point(1,5) [OF ok, of "c - 1"] c by (simp add: word_le_def)
  have st: "steps sc2 = drop c (steps sc)" by (simp add: assms(4,5) c_def)
  have r: "req sc2 (Suc k) = req sc (c + Suc k) - uint p" if "c + k < length (steps sc)" for k
  proof -
    let ?x = "steps sc ! (c + k) - l"
    have "req sc c \<le> uint ?x" using req_mono [OF ok, of c "c + Suc k"] that by (simp add: req_def l_def)
    then have "uint (?x - p) = uint ?x - uint p" using p by (simp add: uint_sub_if')
    then show ?thesis using l2 st c that by (simp add: req_def l_def diff_diff_eq)
  qed
  have "req sc2 k < req sc2 (Suc k) \<and> req sc2 (Suc k) < 2 ^ 31" if k: "k < length (steps sc2)" for k
  proof -
    have ck: "c + k < length (steps sc)" using k st by simp
    then have o: "req sc (c + k) < req sc (Suc (c + k))" "req sc (Suc (c + k)) < 2 ^ 31" using ok by (simp_all add: steps_ok_def)
    moreover have "0 \<le> uint p" by simp
    moreover have "req sc2 k \<le> req sc (c + k) - uint p"
    proof (cases k)
      case 0
      then show ?thesis using p by (simp add: req_def)
    next
      case (Suc j)
      then show ?thesis using r [of j] ck by simp
    qed
    ultimately show ?thesis using r [OF ck] unfolding add_Suc_right by linarith
  qed
  then show "steps_ok sc2" by (simp add: steps_ok_def)
  show "req sc2 (Suc k) \<le> req sc (unat (sm_count move) + Suc k)" if "k < length (steps sc2)" for k
    using r [of k] that st by (simp add: c_def)
qed

end
