(* ===== verification/Step_Overrun.thy ===== *)
theory Step_Overrun
  imports Step_Accuracy
begin

text \<open>
  A store past the end of the step queue.  \<^verbatim>\<open>queue_append_far\<close> (\<^verbatim>\<open>stepcompress.c\<close>) flushes steps to
  make the distance to a late step small enough and then stores it, but unlike \<^verbatim>\<open>queue_append\<close> it
  does not look whether the array has room.
\<close>

text \<open>The search does not depend on the step that is waiting.\<close>

lemma minmax_point_next [simp]: "minmax_point (sc\<lparr>next_step_clock := x\<rparr>) i = minmax_point sc i"
  by (simp add: minmax_point_def Let_def)

lemma error_next: "sc_max_error (sc\<lparr>next_step_clock := x\<rparr>) = sc_max_error sc"
  by simp

lemma round_ok_next: "inner_round_ok (sc\<lparr>next_step_clock := x\<rparr>) = inner_round_ok sc"
  by (intro ext) (simp only: inner_round_ok_def minmax_point_next)

lemma inner_loop_next: "inner_loop (sc\<lparr>next_step_clock := x\<rparr>) q add nc lo hi iv = inner_loop sc q add nc lo hi iv"
proof (induction "q - nc" arbitrary: nc lo hi iv rule: less_induct)
  case less
  have "inner_loop (sc\<lparr>next_step_clock := x\<rparr>) q add (nc + 1) l h v = inner_loop sc q add (nc + 1) l h v"
    if "\<not> nc + 1 - 1 \<ge> q" for l h v
    by (rule less) (use that in simp)
  then show ?case
    unfolding inner_loop.simps [of sc q add nc lo hi iv] inner_loop.simps [of "sc\<lparr>next_step_clock := x\<rparr>" q add nc lo hi iv]
      Let_def minmax_point_next round_ok_next
    by presburger
qed

lemma narrow_next:
  "narrow (sc\<lparr>next_step_clock := x\<rparr>) i nc lo hi b = narrow sc i nc lo hi b"
  "narrow_ok (sc\<lparr>next_step_clock := x\<rparr>) i nc lo hi b = narrow_ok sc i nc lo hi b"
  by (simp_all only: narrow_def narrow_ok_def narrow_side_def narrow_error_def narrow_min_def narrow_max_def err_delta_def
      minmax_point_next error_next)

lemma outer_loop_next: "outer_loop n (sc\<lparr>next_step_clock := x\<rparr>) q b = outer_loop n sc q b"
proof (induction n arbitrary: b)
  case (Suc n)
  show ?case unfolding outer_loop.simps inner_loop_next narrow_next Suc.IH ..
qed simp

lemma compress_next: "compress_bisect_add (sc\<lparr>next_step_clock := x\<rparr>) = compress_bisect_add sc"
  by (simp add: compress_bisect_add_def bisect_search_def outer_loop_next)

lemma check_line_next: "check_line (sc\<lparr>next_step_clock := x\<rparr>) move = check_line sc move"
proof -
  have "check_points (sc\<lparr>next_step_clock := x\<rparr>) a n i iv p = check_points sc a n i iv p" for a n i iv p
    by (induction n arbitrary: i iv p) simp_all
  then show ?thesis by (simp add: check_line_def)
qed

text \<open>A move that passes the check takes at least one tick.\<close>

lemma check_line_interval:
  assumes "steps_ok sc" and "steps sc \<noteq> []" and "check_line sc move"
  shows "0 < unat (sm_interval move)" and "unat (sm_interval move) < 2 ^ 31"
proof -
  have "check_points sc (sm_add move) (unat (sm_count move)) 0 (sm_interval move) 0"
    using assms(3) by (simp add: check_line_def split: if_splits)
  moreover obtain c where "unat (sm_count move) = Suc c" using check_line_count [OF assms(3)] by (metis gr0_implies_Suc)
  ultimately have "fst (minmax_point sc 0) \<le> sm_interval move" by (auto simp: Let_def split: if_splits)
  moreover have "0 < uint (fst (minmax_point sc 0))"
    using steps_ok_point(2, 4) [OF assms(1), of 0] assms(2) by (simp add: req_def)
  ultimately have "0 < uint (sm_interval move)" by (simp only: word_le_def)
  then show "0 < unat (sm_interval move)" by (simp only: unat_eq_nat_uint zero_less_nat_eq)
  show "unat (sm_interval move) < 2 ^ 31"
    using assms(3) by (auto simp: check_line_def word_le_nat_alt not_le split: if_splits)
qed

lemma add_move_later:
  assumes "unat (last_step_clock sc) < 2 ^ 63" and "0 < unat (sm_interval move)"
  shows "last_step_clock sc < last_step_clock (add_move (last_step_clock sc + to_u64 (sm_interval move)) move sc)"
    and "unat (last_step_clock (add_move (last_step_clock sc + to_u64 (sm_interval move)) move sc)) <
      unat (last_step_clock sc) + 2 ^ 33"
proof -
  obtain ticks :: u32 where t: "last_step_clock (add_move (last_step_clock sc + to_u64 (sm_interval move)) move sc) =
      last_step_clock sc + to_u64 (sm_interval move) + to_u64 ticks"
    by (simp add: add_move_def Let_def)
  have u: "unat (to_u64 x) = unat x" "unat x < 2 ^ 32" for x :: u32
    using unat_u32_bound [of x] by (simp_all add: unsigned_ucast_eq take_bit_nat_eq_self)
  have "unat (last_step_clock sc + to_u64 (sm_interval move) + to_u64 ticks) =
      unat (last_step_clock sc) + unat (sm_interval move) + unat ticks"
    using assms(1) u(2) [of ticks] u(2) [of "sm_interval move"] by (simp add: unat_word_ariths u(1))
  then show "last_step_clock sc < last_step_clock (add_move (last_step_clock sc + to_u64 (sm_interval move)) move sc)"
    "unat (last_step_clock (add_move (last_step_clock sc + to_u64 (sm_interval move)) move sc)) <
      unat (last_step_clock sc) + 2 ^ 33"
    unfolding t using assms(2) u(2) [of ticks] u(2) [of "sm_interval move"] by (simp_all add: word_less_nat_alt)
qed

text \<open>
  C20: appending a step can write past the end of the queue.  If the array is full, the step to
  append lies exactly \<^verbatim>\<open>CLOCK_DIFF_MAX\<close> after the last step sent, and the first move found for
  the queued steps does not cover all of them, then the flush stops with the array still
  full and the store of \<^verbatim>\<open>queue_append_far\<close> is out of bounds.
\<close>

theorem queue_append_overruns:
  assumes "steps_ok sc" and "q_off sc + length (steps sc) = q_alloc sc"
    and "next_step_dir sc = sdir sc" and "next_step_clock sc = last_step_clock sc + CLOCK_DIFF_MAX"
    and "unat (last_step_clock sc) < 2 ^ 62"
    and "compress_bisect_add sc = Some move" and "unat (sm_count move) < length (steps sc)"
  shows "queue_append sc = None"
proof -
  let ?sc = "sc\<lparr>next_step_clock := 0\<rparr>"
  have ne: "steps sc \<noteq> []" using assms(7) by auto
  have v: "check_line sc move" by (rule compress_valid [OF assms(1) ne assms(6)])
  note i = check_line_interval [OF assms(1) ne v]
  define sc1 where "sc1 = add_move (last_step_clock ?sc + to_u64 (sm_interval move)) move ?sc"
  define sc2 where "sc2 = sc1\<lparr>steps := drop (unat (sm_count move)) (steps sc1), q_off := q_off sc1 + unat (sm_count move)\<rparr>"
  have l: "last_step_clock sc < last_step_clock sc2" "unat (last_step_clock sc2) < unat (last_step_clock sc) + 2 ^ 33"
    using add_move_later [of ?sc move] i(1) assms(5) by (simp_all add: sc2_def sc1_def)
  have m: "next_step_clock sc - CLOCK_DIFF_MAX + 1 = last_step_clock sc + 1" using assms(4) by simp
  have lt: "last_step_clock sc < last_step_clock sc + 1"
    using assms(5) by (simp add: word_less_nat_alt unat_word_ariths)
  have le: "\<not> last_step_clock sc2 < last_step_clock sc + 1"
    using l(1) assms(5) by (simp add: word_less_nat_alt unat_word_ariths)
  obtain n where n: "length (steps sc) = Suc n" using ne by (cases "steps sc") auto
  have fl: "queue_flush (last_step_clock sc + 1) ?sc = Some (True, calc_last_step_print_time sc2)"
  proof -
    have c: "(unat (sm_count move) \<ge> length (steps sc1)) = False" using assms(7) by (simp add: sc1_def)
    have lt': "(last_step_clock ?sc < last_step_clock sc + 1) = True" using lt by simp
    have v': "(\<not> check_line sc move) = False" using v by simp
    have "flush_loop (Suc (Suc n)) (last_step_clock sc + 1) ?sc = flush_loop (Suc n) (last_step_clock sc + 1) sc2"
      unfolding flush_loop.simps(2) [of "Suc n"] lt' if_True compress_next assms(6) option.case check_line_next v' if_False
        Let_def sc1_def [symmetric] c sc2_def [symmetric] ..
    also have "\<dots> = Some (True, calc_last_step_print_time sc2)" using le by simp
    finally show ?thesis using ne n by (simp add: queue_flush_def del: flush_loop.simps)
  qed
  have q: "q_off (calc_last_step_print_time sc2) + length (steps (calc_last_step_print_time sc2)) =
      q_alloc (calc_last_step_print_time sc2)"
    using assms(2, 7) by (simp add: calc_last_step_print_time_def Let_def sc2_def sc1_def add_move_def)
  have near: "\<not> next_step_clock sc \<ge> last_step_clock sc2 + CLOCK_DIFF_MAX"
    using l assms(5) unfolding assms(4) by (simp add: word_le_nat_alt word_less_nat_alt unat_word_ariths CLOCK_DIFF_MAX_def)
  have far: "queue_append_far sc = None"
    using near q by (simp add: queue_append_far_def Let_def m fl and_then_def store_step_def)
  show ?thesis
    using assms(3, 4) far by (simp add: queue_append_def and_then_def)
qed

text \<open>
  A queue of 1024 entries whose last two hold steps 100 and 100100 ticks after the last step
  sent: no move with a 16 bit \<open>add\<close> makes both.
\<close>

definition sample_full :: stepcompress where
  "sample_full = (stepcompress_alloc 4)\<lparr>steps := [100, 100100], q_off := 1022, q_alloc := 1024, mcu_freq := 1000,
     next_step_clock := CLOCK_DIFF_MAX, sdir := 0\<rparr>"

lemmas narrow_defs = narrow_def narrow_ok_def narrow_side_def narrow_error_def narrow_min_def narrow_max_def

lemma sample_full_move: "compress_bisect_add sample_full = Some (mk_move 100 1 0)"
proof -
  have p: "minmax_point sample_full 0 = (100, 100)" "minmax_point sample_full (Suc 0) = (100100, 100100)"
    by (simp_all add: minmax_point_def sample_full_def stepcompress_alloc_def Let_def)
  have l: "inner_loop sample_full 2 0 1 100 100 100 = Stuck 100 2 50050 100"
    by (subst inner_loop.simps)
       (simp add: Let_def p idiv_up_def c_div_def inner_round_ok_def in32_def idiv_up_ok_def)
  have s: "sc_max_error sample_full = 0" "length (steps sample_full) = 2"
    by (simp_all add: sample_full_def stepcompress_alloc_def)
  have n: "(65537 :: nat) = Suc 65536" by simp
  show ?thesis
    unfolding compress_bisect_add_def bisect_search_def n outer_loop.simps
    by (simp add: p s l note_best_def is_best_def narrow_defs idiv_up_def c_div_def bisect_result_def Let_def reach_ok_def
        in32_def idiv_up_ok_def idiv_down_ok_def idiv_down_def del: One_nat_def)
qed

theorem queue_append_overruns_witness: "queue_append sample_full = None"
proof (rule queue_append_overruns [OF _ _ _ _ _ sample_full_move])
  show "steps_ok sample_full"
    by (auto simp: steps_ok_def req_def sample_full_def stepcompress_alloc_def less_Suc_eq)
qed (simp_all add: sample_full_def stepcompress_alloc_def mk_move_def)

end
