(* ===== verification/Step_Range.thy ===== *)
theory Step_Range
  imports Step_Accuracy
begin

text \<open>
  The range of the compressor's arithmetic: for the steps that the host queues in normal operation no operation of the
  search overflows, so a flush succeeds; and a series of even steps that is too long for the search.
\<close>

text \<open>
  Steps that are queued less than \<^verbatim>\<open>CLOCK_DIFF_MAX\<close> ticks after the last step sent, fewer than the search can count
  without an overflow, and an allowed error of less than \<open>2 ^ 19\<close> ticks.
\<close>

definition steps_near :: "stepcompress \<Rightarrow> bool" where
  "steps_near sc \<longleftrightarrow> steps_ok sc \<and> length (steps sc) \<le> 46341 \<and> unat (sc_max_error sc) < 2 ^ 19 \<and>
     (\<forall>k < length (steps sc). req sc (Suc k) \<le> 0x30000000)"

subsection \<open>Bounds of a line\<close>

lemma near_points:
  assumes "steps_near sc" and "k < length (steps sc)"
  shows "0 \<le> minp sc k" and "minp sc k \<le> maxp sc k" and "maxp sc k \<le> 0x30000000" and "maxp sc k = req sc (Suc k)"
    and "req sc k < minp sc k"
proof -
  have ok: "steps_ok sc" using assms(1) by (simp add: steps_near_def)
  note P = steps_ok_point [OF ok assms(2)]
  have "0 \<le> req sc k" by (simp add: req_def)
  then show "0 \<le> minp sc k" using P(2) by linarith
  show "minp sc k \<le> maxp sc k" "maxp sc k = req sc (Suc k)" "req sc k < minp sc k" using P by simp_all
  show "maxp sc k \<le> 0x30000000" using assms P(1) by (simp add: steps_near_def)
qed

lemma first_point_error:
  assumes "steps_near sc" and "steps sc \<noteq> []"
  shows "maxp sc 0 \<le> minp sc 0 + 2 ^ 19"
proof -
  have l: "0 < length (steps sc)" and ok: "steps_ok sc" using assms by (simp_all add: steps_near_def)
  note P = steps_ok_point [OF ok l]
  obtain e where e: "minmax_point sc 0 = (steps sc ! 0 - to_u32 (last_step_clock sc) - e, steps sc ! 0 - to_u32 (last_step_clock sc))"
    "e \<le> sc_max_error sc" using minmax_point_error by blast
  have "int (unat (sc_max_error sc)) < int (2 ^ 19)" using assms(1) by (simp only: steps_near_def of_nat_less_iff)
  then have "uint (sc_max_error sc) < 2 ^ 19" by simp
  then have "uint e < 2 ^ 19" using e(2) unfolding word_le_def by linarith
  moreover have "uint (snd (minmax_point sc 0)) \<le> uint (fst (minmax_point sc 0)) + uint e"
    using uint_add_le [of "steps sc ! 0 - to_u32 (last_step_clock sc) - e" e] unfolding e(1) by (simp only: fst_conv snd_conv diff_add_cancel)
  ultimately show ?thesis using P(4,5) by linarith
qed

lemma tri_double: "2 * tri n = int n * (int n - 1)"
proof (induction n)
  case (Suc n)
  then show ?case by (simp add: tri_Suc algebra_simps)
qed (simp add: tri_def)

lemma tri_nonneg: "0 \<le> tri n"
  by (induction n) (simp_all add: tri_Suc, simp add: tri_def)

text \<open>The quadratic part of a line that fits is no longer than the line, and the linear part not more than twice as long.\<close>

lemma fits_bounds:
  assumes near: "steps_near sc" and f: "fits sc i add c" and c: "1 \<le> c" "c \<le> length (steps sc)"
  shows "\<bar>add\<bar> * tri c \<le> 0x30000000" and "0 \<le> i" and "i * int c \<le> 0x30000000 + \<bar>add\<bar> * tri c"
    and "0 \<le> pt i add c" and "pt i add c \<le> 0x30000000" and "pt i add c \<le> maxp sc (c - 1)" and "minp sc (c - 1) \<le> pt i add c"
proof -
  have ok: "steps_ok sc" using near by (simp add: steps_near_def)
  obtain k where k: "c = Suc k" using c(1) by (cases c) auto
  have kl: "k < length (steps sc)" "k < c" using c k by simp_all
  note F = fits_points [OF ok f c(2) kl(2)] and N = near_points [OF near kl(1)]
  note F0 = fits_points [OF ok f c(2), of 0]
  show i: "0 \<le> i" using F0(4) c(1) by (simp add: pt_Suc)
  show p: "0 \<le> pt i add c" "pt i add c \<le> 0x30000000" "pt i add c \<le> maxp sc (c - 1)" "minp sc (c - 1) \<le> pt i add c"
    using F N k by simp_all
  have t0: "0 \<le> tri c" by (rule tri_nonneg)
  have "\<bar>add\<bar> * tri c \<le> pt i add c"
  proof (cases "0 \<le> add")
    case True
    then show ?thesis using i by (simp add: pt_def)
  next
    case False
    have "0 < i + add * int k" using F(4) by (simp add: pt_Suc)
    then have "\<bar>add\<bar> * int k * int c \<le> i * int c" using False by (intro mult_right_mono) simp_all
    moreover have "\<bar>add\<bar> * int k * int c = 2 * (\<bar>add\<bar> * tri c)" using tri_double [of c] k by simp
    moreover have "pt i add c = i * int c - \<bar>add\<bar> * tri c" using False by (simp add: pt_def)
    ultimately show ?thesis by linarith
  qed
  then show "\<bar>add\<bar> * tri c \<le> 0x30000000" using p(2) by linarith
  have "i * int c = pt i add c - add * tri c" by (simp add: pt_def)
  moreover have "- (add * tri c) \<le> \<bar>add\<bar> * tri c" using t0 by (cases "0 \<le> add") simp_all
  ultimately show "i * int c \<le> 0x30000000 + \<bar>add\<bar> * tri c" using p(2) by linarith
qed

lemma slope_bound:
  assumes "\<bar>add\<bar> * tri c \<le> 0x30000000" and "\<bar>add\<bar> \<le> 2 ^ 15"
  shows "\<bar>add\<bar> * int c \<le> 2 ^ 23"
proof (cases "c \<le> 256")
  case True
  then have "\<bar>add\<bar> * int c \<le> 2 ^ 15 * 256" using assms(2) by (intro mult_mono) simp_all
  then show ?thesis by simp
next
  case False
  have "\<bar>add\<bar> * int c * 256 \<le> \<bar>add\<bar> * int c * (int c - 1)" using False by (intro mult_left_mono) simp_all
  also have "\<dots> = 2 * (\<bar>add\<bar> * tri c)" using tri_double [of c] by simp
  finally show ?thesis using assms(1) by simp
qed

lemma tri_small: "c \<le> 128 \<Longrightarrow> tri c \<le> 8128"
proof -
  assume "c \<le> 128"
  then have "int c * (int c - 1) \<le> 128 * 127" by (cases "c = 0") (simp, intro mult_mono, simp_all)
  then show ?thesis using tri_double [of c] by simp
qed

lemma interval_bound:
  assumes near: "steps_near sc" and f: "fits sc i add c" and c: "1 \<le> c" "c \<le> length (steps sc)" and a: "\<bar>add\<bar> \<le> 2 ^ 15"
  shows "i * (int c + 1) \<le> 0x61000000"
proof -
  note B = fits_bounds [OF near f c]
  have ne: "0 < length (steps sc)" using c by linarith
  have i: "i \<le> 0x30000000"
  proof -
    have "minp sc 0 \<le> i * int 1 + add * tri 1 \<and> i * int 1 + add * tri 1 \<le> maxp sc 0"
      using f c(1) unfolding fits_def by (auto dest!: spec [of _ 1])
    then show ?thesis using near_points(3) [OF near ne] by (simp add: tri_def)
  qed
  consider "c = 1" | "2 \<le> c" "c \<le> 128" | "129 \<le> c" using c(1) by linarith
  then show ?thesis
  proof cases
    case 1
    then show ?thesis using i by simp
  next
    case 2
    have "\<bar>add\<bar> * tri c \<le> 2 ^ 15 * 8128" using a tri_small [OF 2(2)] tri_nonneg [of c] by (intro mult_mono) simp_all
    then have m: "i * int c \<le> 1071644672" using B(3) by simp
    moreover have "i * 2 \<le> i * int c" using 2(1) B(2) by (intro mult_left_mono) simp_all
    ultimately show ?thesis by (simp add: distrib_left)
  next
    case 3
    have m: "i * int c \<le> 0x60000000" using B(1,3) by linarith
    moreover have "i * 129 \<le> i * int c" using 3 B(2) by (intro mult_left_mono) simp_all
    ultimately show ?thesis by (simp add: distrib_left)
  qed
qed

subsection \<open>The inner loop does not overflow\<close>

lemma abs_mult_tri: "\<bar>add * tri c\<bar> = \<bar>add\<bar> * tri c"
  using tri_nonneg [of c] by (simp add: abs_mult)

lemma next_tri_bound:
  assumes "\<bar>add\<bar> * tri c \<le> 0x30000000" and "\<bar>add\<bar> \<le> 2 ^ 15"
  shows "\<bar>add * tri (Suc c)\<bar> \<le> 0x30800000"
proof -
  have "\<bar>add\<bar> * tri (Suc c) = \<bar>add\<bar> * tri c + \<bar>add\<bar> * int c" by (simp add: tri_Suc distrib_left)
  then show ?thesis using assms(1) slope_bound [OF assms] by (simp add: abs_mult_tri)
qed

lemma in32I: "\<bar>x\<bar> \<le> 0x7f000000 \<Longrightarrow> in32 x"
  by (auto simp: in32_def)

lemma idiv_up_okI: "n \<le> 0x70000000 \<Longrightarrow> 0 \<le> d \<Longrightarrow> d \<le> 0x100000 \<Longrightarrow> idiv_up_ok n d"
  by (auto simp: in32_def idiv_up_ok_def)

lemma idiv_down_okI: "- 0x72000000 \<le> n \<Longrightarrow> 0 \<le> d \<Longrightarrow> d \<le> 0x100000 \<Longrightarrow> idiv_down_ok n d"
  by (auto simp: in32_def idiv_down_ok_def)

lemma factor_bound: "n \<le> 46341 \<Longrightarrow> in32 (int n * (int n - 1))"
proof -
  assume n: "n \<le> 46341"
  have "int n * (int n - 1) \<le> 46341 * 46340" using n by (cases "n = 0") (simp, intro mult_mono, simp_all)
  moreover have "0 \<le> int n * (int n - 1)" using tri_double [of n] tri_nonneg [of n] by simp
  ultimately show ?thesis by (simp add: in32_def)
qed

lemma inner_round_safe:
  assumes near: "steps_near sc" and f: "fits sc lo add k" "fits sc hi add k" and k: "1 \<le> k" "k < length (steps sc)"
    and a: "\<bar>add\<bar> \<le> 2 ^ 15"
  shows "inner_round_ok sc add (Suc k) lo hi"
proof -
  have k': "k \<le> length (steps sc)" using k by simp
  note B = fits_bounds [OF near f(1) k(1) k'] fits_bounds(2) [OF near f(2) k(1) k']
    and I = interval_bound [OF near f(1) k(1) k' a] interval_bound [OF near f(2) k(1) k' a]
    and N = near_points [OF near k(2)]
  define c where "c = add * tri (Suc k)"
  have c: "\<bar>c\<bar> \<le> 0x30800000" unfolding c_def by (rule next_tri_bound [OF B(1) a])
  have l: "Suc k \<le> 46341" using near k(2) by (simp add: steps_near_def)
  have s: "int (Suc k) * (int (Suc k) - 1) div 2 = tri (Suc k)" by (simp only: tri_def)
  have f32: "in32 (int (Suc k) * (int (Suc k) - 1))" by (rule factor_bound [OF l])
  have m: "0 \<le> lo * int (Suc k)" "lo * int (Suc k) \<le> 0x61000000" "0 \<le> hi * int (Suc k)" "hi * int (Suc k) \<le> 0x61000000"
    using B(2) B(8) I by (simp_all add: add.commute)
  have n: "0 \<le> int (Suc k)" "int (Suc k) \<le> 46341" using l by simp_all
  have "in32 c \<and> in32 (lo * int (Suc k)) \<and> in32 (hi * int (Suc k)) \<and> in32 (minp sc k - c) \<and> in32 (maxp sc k - c) \<and>
    idiv_up_ok (minp sc k - c) (int (Suc k)) \<and> idiv_down_ok (maxp sc k - c) (int (Suc k))"
    using c m N n by (intro conjI in32I idiv_up_okI idiv_down_okI; linarith)
  then show ?thesis unfolding inner_round_ok_def Let_def s c_def [symmetric] using f32 by simp
qed

lemma inner_loop_safe:
  assumes near: "steps_near sc" and a: "\<bar>add\<bar> \<le> 2 ^ 15"
  shows "(\<And>i. lo \<le> i \<Longrightarrow> i \<le> hi \<Longrightarrow> fits sc i add k) \<Longrightarrow> lo \<le> hi \<Longrightarrow> 1 \<le> k \<Longrightarrow> q \<le> length (steps sc) \<Longrightarrow>
    inner_loop sc q add k lo hi iv \<noteq> InnerOverflow"
proof (induction "q - k" arbitrary: k lo hi iv)
  case 0
  then show ?case by (subst inner_loop_step) auto
next
  case (Suc n)
  let ?lo = "next_min sc add (Suc k) lo" and ?hi = "next_max sc add (Suc k) hi"
  have q: "\<not> q \<le> k" using Suc.hyps(2) by simp
  have ok: "inner_round_ok sc add (Suc k) lo hi"
    by (rule inner_round_safe [OF near _ _ _ _ a]) (use Suc.prems q in auto)
  have b: "lo \<le> ?lo" "?hi \<le> hi" using next_bounds by simp_all
  have "inner_loop sc q add (Suc k) ?lo ?hi ?hi \<noteq> InnerOverflow" if "\<not> ?hi < ?lo"
  proof (rule Suc.hyps(1))
    show "fits sc i add (Suc k)" if "?lo \<le> i" "i \<le> ?hi" for i
    proof -
      have "fits sc i add k" using Suc.prems(1) that b by simp
      moreover have "minp sc k \<le> i * int (Suc k) + add * tri (Suc k)" "i * int (Suc k) + add * tri (Suc k) \<le> maxp sc k"
        using next_bounds(3,4) [of "Suc k"] that by fastforce+
      ultimately show ?thesis by (auto simp: fits_def le_Suc_eq)
    qed
  qed (use Suc.hyps(2) Suc.prems that in auto)
  then show ?case using q ok by (subst inner_loop_step) simp
qed

subsection \<open>The outer loop does not overflow\<close>

lemma reach_safe:
  assumes near: "steps_near sc" and f: "fits sc i add c" and c: "1 \<le> c" "c \<le> length (steps sc)"
  shows "reach_ok add i (int c)"
proof -
  note B = fits_bounds [OF near f c]
  have s: "int c * (int c - 1) div 2 = tri c" by (simp only: tri_def)
  have f32: "in32 (int c * (int c - 1))" by (rule factor_bound) (use near c in \<open>simp add: steps_near_def\<close>)
  have "\<bar>add * tri c\<bar> \<le> 0x30000000" using B(1) by (simp add: abs_mult_tri)
  moreover have "0 \<le> i * int c" "i * int c \<le> 0x60000000" "add * tri c + i * int c = pt i add c"
    using B(1-3) by (simp_all add: pt_def)
  ultimately show ?thesis
    unfolding reach_ok_def Let_def s using f32 B(4,5) by (intro conjI f32 in32I; linarith)
qed

lemma err_delta_bound:
  assumes near: "steps_near sc" and c: "2 \<le> c" "c \<le> 512"
  shows "0 \<le> err_delta sc (int c)" and "err_delta sc (int c) * (int c * int c) \<le> 5767168"
proof -
  define me where "me = uint (sc_max_error sc)"
  have "int (unat (sc_max_error sc)) < int (2 ^ 19)" using near by (simp only: steps_near_def of_nat_less_iff)
  then have me: "0 \<le> me" "me < 524288" by (simp_all add: me_def)
  have m: "uint (sc_max_error sc * QUADRATIC_DEV) = me * 11"
    using me by (simp add: uint_word_ariths QUADRATIC_DEV_def me_def)
  have cc: "4 \<le> int c * int c" "int c * int c \<le> 262144"
    using c mult_mono [of 2 "int c" 2 "int c"] mult_mono [of "int c" 512 "int c" 512] by simp_all
  have d: "uint (word_of_int (int c * int c) :: u32) = int c * int c"
    using cc by (intro uint_of_int_u32) simp_all
  have u: "uint (sc_max_error sc * QUADRATIC_DEV div word_of_int (int c * int c)) = me * 11 div (int c * int c)"
    unfolding uint_div m d ..
  have q: "0 \<le> me * 11 div (int c * int c)" using me cc by (simp add: pos_imp_zdiv_nonneg_iff)
  have b: "me * 11 div (int c * int c) * (int c * int c) \<le> me * 11" using div_bounds [of "int c * int c"] cc by simp
  moreover have "me * 11 div (int c * int c) * 1 \<le> me * 11 div (int c * int c) * (int c * int c)"
    using q cc by (intro mult_left_mono) simp_all
  ultimately have q2: "me * 11 div (int c * int c) \<le> me * 11" by simp
  have "err_delta sc (int c) = me * 11 div (int c * int c)"
    unfolding err_delta_def sint_uint u using q q2 me signed_take_bit_int_eq_self [of 31 "me * 11 div (int c * int c)"] by simp
  then show "0 \<le> err_delta sc (int c)" "err_delta sc (int c) * (int c * int c) \<le> 5767168"
    using q b me by simp_all
qed

lemma tri_Suc_bounds:
  assumes "1 \<le> c" and "c \<le> 512"
  shows "1 \<le> tri (Suc c)" and "tri (Suc c) \<le> 131328" and "tri (Suc c) \<le> int c * int c"
proof -
  show "1 \<le> tri (Suc c)" using tri_pos [of "Suc c"] assms(1) by simp
  have t: "2 * tri (Suc c) = int c * int c + int c" using tri_double [of "Suc c"] by (simp add: algebra_simps)
  moreover have "int c * int c \<le> 512 * 512" using assms(2) by (intro mult_mono) simp_all
  ultimately show "tri (Suc c) \<le> 131328" using assms(2) by simp
  have "int c * 1 \<le> int c * int c" using assms(1) by (intro mult_left_mono) simp_all
  then show "tri (Suc c) \<le> int c * int c" using t by simp
qed

text \<open>The limits of the increment after the first two narrowing steps.\<close>

lemma narrow_error_limits:
  assumes near: "steps_near sc" and c: "1 \<le> c" "c \<le> 512" and a: "\<bar>add * tri (Suc c)\<bar> \<le> 0x30800000" "b_add b = add"
    and r: "- (2 ^ 15) \<le> minadd b" "minadd b \<le> add + 1" "add - 1 \<le> maxadd b" "maxadd b < 2 ^ 15" "\<bar>add\<bar> \<le> 2 ^ 15"
  shows "\<bar>minadd (narrow_error sc (Suc c) b) * tri (Suc c)\<bar> \<le> 0x31000000"
    and "\<bar>maxadd (narrow_error sc (Suc c) b) * tri (Suc c)\<bar> \<le> 0x31000000"
proof -
  let ?b = "narrow_error sc (Suc c) b" and ?t = "tri (Suc c)" and ?e = "err_delta sc (int c)"
  note T = tri_Suc_bounds [OF c]
  have "\<bar>minadd ?b * ?t\<bar> \<le> 0x31000000 \<and> \<bar>maxadd ?b * ?t\<bar> \<le> 0x31000000"
  proof (cases "2 \<le> c")
    case False
    then have "c = 1" using c by simp
    then have "?b = b" "?t = 1" by (simp_all add: narrow_error_def tri_def Let_def)
    then show ?thesis using r by (auto simp: abs_le_iff)
  next
    case True
    note E = err_delta_bound [OF near True c(2)]
    have "?e * ?t \<le> ?e * (int c * int c)" using T(3) E(1) by (rule mult_left_mono)
    then have et: "0 \<le> ?e * ?t" "?e * ?t \<le> 5767168" using E T(1) by simp_all
    have l: "add - ?e \<le> minadd ?b" "minadd ?b \<le> add + 1" "add - 1 \<le> maxadd ?b" "maxadd ?b \<le> add + ?e"
      using True r a(2) E(1) by (auto simp: narrow_error_def Let_def)
    have t0: "0 \<le> ?t" using T(1) by simp
    note M = mult_right_mono [OF l(1) t0] mult_right_mono [OF l(2) t0] mult_right_mono [OF l(3) t0] mult_right_mono [OF l(4) t0]
    show ?thesis using M a(1) et T by (simp only: left_diff_distrib distrib_right mult_1) linarith
  qed
  then show "\<bar>minadd ?b * ?t\<bar> \<le> 0x31000000" "\<bar>maxadd ?b * ?t\<bar> \<le> 0x31000000" by simp_all
qed

lemma narrow_safe:
  assumes near: "steps_near sc" and f: "fits sc i (b_add b) c" and c: "1 \<le> c" "c \<le> 512" "c < length (steps sc)"
    and r: "ranges_ok sc b" and o: "outer_min b \<le> i" "i \<le> outer_max b"
    and hi: "i * int (Suc c) + b_add b * tri (Suc c) < minp sc c \<longrightarrow> hi = i"
    and lo: "minp sc c \<le> i * int (Suc c) + b_add b * tri (Suc c) \<longrightarrow> lo \<le> i" "outer_min b \<le> lo"
  shows "narrow_ok sc i (Suc c) lo hi b"
    and "outer_min (narrow sc i (Suc c) lo hi b) \<le> outer_max (narrow sc i (Suc c) lo hi b)"
proof -
  define add where "add = b_add b"
  define t where "t = tri (Suc c)"
  define n where "n = int (Suc c)"
  define b1 where "b1 = narrow_side sc i (Suc c) lo hi b"
  define b2 where "b2 = narrow_error sc (Suc c) b1"
  define b3 where "b3 = narrow_min sc (Suc c) b2"
  have cl: "c \<le> length (steps sc)" "steps sc \<noteq> []" using c(3) by auto
  have ra: "- (2 ^ 15) \<le> minadd b" "minadd b \<le> add" "add \<le> maxadd b" "maxadd b < 2 ^ 15" "minp sc 0 \<le> outer_min b" "outer_max b \<le> maxp sc 0"
    using r by (simp_all add: ranges_ok_def add_def)
  then have a15: "\<bar>add\<bar> \<le> 2 ^ 15" by simp
  note B = fits_bounds [OF near f c(1) cl(1), folded add_def] and I = interval_bound [OF near f c(1) cl(1), folded add_def, OF a15]
    and N = near_points [OF near c(3)] and T = tri_Suc_bounds [OF c(1,2), folded t_def]
  have at: "\<bar>add * t\<bar> \<le> 0x30800000" unfolding t_def by (rule next_tri_bound [OF B(1) a15])
  have s: "int (Suc c) * (int (Suc c) - 1) div 2 = t" by (simp only: tri_def t_def)
  have nf: "in32 (int (Suc c) * (int (Suc c) - 1))" by (rule factor_bound) (use c in simp)
  have n: "2 \<le> n" "n \<le> 513" using c by (simp_all add: n_def)
  have i_n: "0 \<le> i * n" "i * n \<le> 0x61000000" using B(2) I n by (simp_all add: n_def add.commute)
  have below: "i * n + add * t < minp sc c \<Longrightarrow> hi = i" "\<not> i * n + add * t < minp sc c \<Longrightarrow> lo \<le> i"
    using hi lo(1) by (auto simp: n_def add_def t_def)
  have b1: "b1 = (if i * n + add * t < minp sc c then b\<lparr>minadd := add + 1, outer_max := hi\<rparr> else b\<lparr>maxadd := add - 1, outer_min := lo\<rparr>)"
    unfolding b1_def narrow_side_def Let_def s by (simp add: n_def add_def add.commute)
  have o0: "0 \<le> outer_min b" using near_points(1) [OF near, of 0] cl ra by simp
  have o1: "0 \<le> outer_min b1" "outer_min b1 \<le> i" "i \<le> outer_max b1" "outer_max b1 \<le> i + 2 ^ 19"
    using b1 below o lo(2) o0 first_point_error [OF near cl(2)] ra by auto
  have o2: "outer_min b2 = outer_min b1" "outer_max b2 = outer_max b1" "outer_min b3 = outer_min b1" "outer_max b3 = outer_max b1"
    by (simp_all add: b2_def b3_def narrow_error_def narrow_min_def Let_def)
  have ba: "b_add b1 = add" by (simp add: b1 add_def)
  have lim: "\<bar>minadd b2 * t\<bar> \<le> 0x31000000" "\<bar>maxadd b2 * t\<bar> \<le> 0x31000000" "maxadd b3 = maxadd b2"
    using narrow_error_limits [OF near c(1,2) at [unfolded t_def] ba _ _ _ _ a15] ra a15
    by (auto simp: b2_def b3_def b1 t_def narrow_min_def Let_def)
  have c1: "0 \<le> outer_max b2 * n" "outer_max b2 * n \<le> 0x72000000"
  proof -
    show "0 \<le> outer_max b2 * n" using o1 o2 n B(2) by simp
    have "outer_max b2 * n \<le> (i + 2 ^ 19) * n" using o1(4) o2 n by (intro mult_right_mono) simp_all
    then show "outer_max b2 * n \<le> 0x72000000" using i_n n by (simp add: distrib_right)
  qed
  have c2: "0 \<le> outer_min b3 * n" "outer_min b3 * n \<le> 0x61000000"
  proof -
    show "0 \<le> outer_min b3 * n" using o1 o2 n by simp
    have "outer_min b3 * n \<le> i * n" using o1(2) o2 n by (intro mult_right_mono) simp_all
    then show "outer_min b3 * n \<le> 0x61000000" using i_n by simp
  qed
  have err: "in32 (int c * int c) \<and> in32 (add - err_delta sc (int c)) \<and> in32 (add + err_delta sc (int c))" if "1 < int c"
  proof -
    have c2: "2 \<le> c" using that by simp
    note E = err_delta_bound [OF near c2 c(2)]
    have cc: "\<bar>int c * int c\<bar> \<le> 512 * 512" using c(2) mult_mono [of "int c" 512 "int c" 512] by simp
    have "err_delta sc (int c) * 1 \<le> err_delta sc (int c) * (int c * int c)"
      using E(1) c2 mult_mono [of 1 "int c" 1 "int c"] by (intro mult_left_mono) simp_all
    then have "err_delta sc (int c) \<le> 5767168" using E(2) by simp
    then have "\<bar>add - err_delta sc (int c)\<bar> \<le> 0x7f000000" "\<bar>add + err_delta sc (int c)\<bar> \<le> 0x7f000000"
      using E(1) a15 by simp_all
    then show ?thesis using cc by (intro conjI in32I) simp_all
  qed
  have sum: "\<bar>add * t + i * n\<bar> \<le> 0x61000000"
  proof (cases "0 \<le> add")
    case True
    have "add * t + i * n = pt i add c + (i + add * int c)" unfolding pt_Suc [symmetric] by (simp add: pt_def t_def n_def)
    moreover have "\<bar>add\<bar> * int c \<le> 2 ^ 23" by (rule slope_bound [OF B(1) a15])
    moreover have "i \<le> 0x30800000" using i_n n B(2) mult_left_mono [of 2 n i] by simp
    ultimately show ?thesis using True B by simp
  next
    case False
    then have "add * t \<le> 0" using T(1) by (simp add: mult_le_0_iff)
    then show ?thesis using at i_n by linarith
  qed
  have "in32 (add * t) \<and> in32 (i * n) \<and> in32 (add * t + i * n) \<and> in32 (add + 1) \<and> in32 (add - 1)"
    using at i_n sum a15 [simplified] by (intro conjI in32I; linarith)
  moreover have "in32 (outer_max b2 * n) \<and> in32 (minp sc c - outer_max b2 * n) \<and> in32 (minadd b2 * t) \<and>
      idiv_up_ok (minp sc c - outer_max b2 * n) t"
    using c1 N lim T by (intro conjI in32I idiv_up_okI; linarith)
  moreover have "in32 (outer_min b3 * n) \<and> in32 (maxp sc c - outer_min b3 * n) \<and> in32 (maxadd b3 * t) \<and>
      idiv_down_ok (maxp sc c - outer_min b3 * n) t"
    unfolding lim(3) using c2 N lim(1,2) T by (intro conjI in32I idiv_down_okI; linarith)
  moreover have "narrow_ok sc i (Suc c) lo hi b \<longleftrightarrow>
      in32 (n * (n - 1)) \<and> in32 (add * t) \<and> in32 (i * n) \<and> in32 (add * t + i * n) \<and> in32 (add + 1) \<and> in32 (add - 1) \<and>
      (n - 1 > 1 \<longrightarrow> in32 ((n - 1) * (n - 1)) \<and> in32 (add - err_delta sc (n - 1)) \<and> in32 (add + err_delta sc (n - 1))) \<and>
      in32 (outer_max b2 * n) \<and> in32 (minp sc c - outer_max b2 * n) \<and> in32 (minadd b2 * t) \<and>
      (minadd b2 * t < minp sc c - outer_max b2 * n \<longrightarrow> idiv_up_ok (minp sc c - outer_max b2 * n) t) \<and>
      in32 (outer_min b3 * n) \<and> in32 (maxp sc c - outer_min b3 * n) \<and> in32 (maxadd b3 * t) \<and>
      (maxadd b3 * t > maxp sc c - outer_min b3 * n \<longrightarrow> idiv_down_ok (maxp sc c - outer_min b3 * n) t)"
    unfolding narrow_ok_def Let_def b1_def [symmetric] b2_def [symmetric] b3_def [symmetric] s add_def [symmetric] n_def diff_Suc_1 ..
  moreover have "n - 1 = int c" by (simp add: n_def)
  ultimately show "narrow_ok sc i (Suc c) lo hi b" using nf err unfolding n_def [symmetric] by metis
  have "outer_min (narrow_max sc (Suc c) b3) = outer_min b3" "outer_max (narrow_max sc (Suc c) b3) = outer_max b3"
    by (simp_all add: narrow_max_def Let_def)
  then show "outer_min (narrow sc i (Suc c) lo hi b) \<le> outer_max (narrow sc i (Suc c) lo hi b)"
    unfolding narrow_def b1_def [symmetric] b2_def [symmetric] b3_def [symmetric] using o1 o2 by simp
qed

text \<open>The best line so far is short and does not reach beyond its last point.\<close>

definition best_short :: "stepcompress \<Rightarrow> bisect \<Rightarrow> bool" where
  "best_short sc b \<longleftrightarrow> 1 \<le> bestcount b \<and> bestcount b \<le> 512 \<and> bestcount b \<le> int (length (steps sc)) \<and>
     bestreach b \<le> req sc (nat (bestcount b))"

lemma longer_is_best:
  assumes near: "steps_near sc" and f: "fits sc i (b_add b) c" and c: "512 < c" "c \<le> length (steps sc)"
    and b: "bestreach b < 0 \<or> best_short sc b"
  shows "is_best i (int c) b"
proof -
  obtain k where k: "c = Suc k" using c(1) by (cases c) auto
  have ok: "steps_ok sc" using near by (simp add: steps_near_def)
  have c1: "1 \<le> c" using c(1) by simp
  note B = fits_bounds [OF near f c1 c(2)]
  show ?thesis
  proof (cases "bestreach b < 0")
    case True
    then show ?thesis using B(4) by (simp add: is_best_pt)
  next
    case False
    then have bs: "1 \<le> bestcount b" "bestcount b \<le> 512" "bestreach b \<le> req sc (nat (bestcount b))" using b by (simp_all add: best_short_def)
    have "req sc (nat (bestcount b)) \<le> req sc k" using bs c k by (intro req_mono [OF ok]) auto
    moreover have "req sc k < minp sc k" using near_points(5) [OF near, of k] c k by simp
    ultimately show ?thesis unfolding is_best_pt using B(7) bs(3) k by simp
  qed
qed

lemma note_best_short:
  assumes near: "steps_near sc" and f: "fits sc i (b_add b) c" and c: "1 \<le> c" "c \<le> 512" "c \<le> length (steps sc)"
    and b: "fresh sc b \<or> best_short sc b"
  shows "best_short sc (note_best i (int c) b)"
proof -
  obtain k where k: "c = Suc k" using c(1) by (cases c) auto
  note B = fits_bounds [OF near f c(1) c(3)]
  have "maxp sc k = req sc c" using near_points(4) [OF near, of k] c k by simp
  then have reach: "pt i (b_add b) c \<le> req sc c" using B(6) k by simp
  show ?thesis
  proof (cases "is_best i (int c) b")
    case True
    then show ?thesis using c reach by (auto simp: note_best_pt best_short_def Let_def)
  next
    case False
    then have "\<not> fresh sc b" using B(4) by (auto simp: fresh_def is_best_pt)
    then show ?thesis using False b by (simp add: note_best_pt)
  qed
qed

lemma outer_loop_safe:
  assumes near: "steps_near sc" and q: "q \<le> length (steps sc)" "1 \<le> q"
  shows "ranges_ok sc b \<Longrightarrow> outer_min b \<le> outer_max b \<Longrightarrow> fresh sc b \<or> best_short sc b \<Longrightarrow> outer_loop n sc q b \<noteq> Overflowed"
proof (induction n arbitrary: b)
  case (Suc n)
  have a15: "\<bar>b_add b\<bar> \<le> 2 ^ 15" using Suc.prems(1) by (auto simp: ranges_ok_def abs_le_iff)
  have safe: "inner_loop sc q (b_add b) 1 (outer_min b) (outer_max b) (outer_max b) \<noteq> InnerOverflow"
    by (rule inner_loop_safe [OF near a15]) (use Suc.prems q in \<open>auto simp: ranges_ok_def intro!: fits_1\<close>)
  note spec = round_inner [OF Suc.prems(1,2), of q]
  show ?case
  proof (cases "inner_loop sc q (b_add b) 1 (outer_min b) (outer_max b) (outer_max b)")
    case (Whole i c)
    then show ?thesis by simp
  next
    case (Stuck i nc lo hi)
    obtain c where c: "nc = Suc c" "1 \<le> c" using spec Stuck by (cases nc) auto
    have S: "fits sc i (b_add b) c" "outer_min b \<le> i" "i \<le> outer_max b" "Suc c \<le> q" "outer_min b \<le> lo" "hi \<le> outer_max b"
      "i * int (Suc c) + b_add b * tri (Suc c) < minp sc c \<longrightarrow> minp sc c \<le> maxp sc c \<longrightarrow> hi = i"
      "minp sc c \<le> i * int (Suc c) + b_add b * tri (Suc c) \<longrightarrow> lo \<le> i"
      using spec Stuck c by simp_all
    have cl: "c < length (steps sc)" "c \<le> length (steps sc)" using S(4) q by simp_all
    have mm: "minp sc c \<le> maxp sc c" using near_points(2) [OF near cl(1)] .
    have reach: "reach_ok (b_add b) i (int c)" by (rule reach_safe [OF near S(1) c(2) cl(2)])
    define b1 where "b1 = note_best i (int c) b"
    define b2 where "b2 = narrow sc i (Suc c) lo hi b1"
    define b3 where "b3 = b2\<lparr>b_add := maxadd b2 - c_div (maxadd b2 - minadd b2) 4\<rparr>"
    show ?thesis
    proof (cases "is_best i (int c) b \<and> 512 < int c")
      case True
      then show ?thesis using Stuck c reach by (simp add: Let_def)
    next
      case False
      have c512: "c \<le> 512"
      proof (rule ccontr)
        assume "\<not> c \<le> 512"
        then have "is_best i (int c) b"
          using longer_is_best [OF near S(1) _ cl(2)] Suc.prems(3) by (auto simp: fresh_def)
        then show False using False \<open>\<not> c \<le> 512\<close> by simp
      qed
      have r1: "ranges_ok sc b1" using Suc.prems(1) by (simp add: b1_def ranges_ok_def)
      have nok: "narrow_ok sc i (Suc c) lo hi b1" and o2: "outer_min b2 \<le> outer_max b2"
        unfolding b2_def by (rule narrow_safe [OF near _ c(2) c512 cl(1) r1]; use S mm in \<open>simp add: b1_def\<close>)+
      have nr: "minadd b \<le> minadd b2" "maxadd b2 \<le> maxadd b"
        using narrow_range [of "Suc c" b1 sc i lo hi] c Suc.prems(1) by (simp_all add: b2_def b1_def ranges_ok_def)
      have o: "outer_min b2 \<in> {outer_min b, lo}" "outer_max b2 \<in> {outer_max b, hi}"
        using narrow_outer [where b = b1 and sc = sc and i = i and nc = "Suc c" and lo = lo and hi = hi] by (simp_all add: b2_def b1_def)
      have d: "in32 (maxadd b2 - minadd b2)" if "minadd b2 \<le> maxadd b2"
        using nr that Suc.prems(1) by (intro in32I) (simp add: ranges_ok_def)
      have "outer_loop n sc q b3 \<noteq> Overflowed" if "minadd b2 \<le> maxadd b2"
      proof (rule Suc.IH)
        have "0 \<le> c_div (maxadd b2 - minadd b2) 4" "c_div (maxadd b2 - minadd b2) 4 \<le> maxadd b2 - minadd b2"
          using that by (simp_all add: c_div_pos)
        then show "ranges_ok sc b3" using Suc.prems(1) nr o S(5,6) by (auto simp: ranges_ok_def b3_def)
        show "outer_min b3 \<le> outer_max b3" using o2 by (simp add: b3_def)
        have "best_short sc b1" unfolding b1_def by (rule note_best_short [OF near S(1) c(2) c512 cl(2) Suc.prems(3)])
        then show "fresh sc b3 \<or> best_short sc b3" by (simp add: best_short_def b3_def b2_def)
      qed
      then show ?thesis
        using Stuck c reach nok d False
        by (auto simp: Let_def b1_def [symmetric] b2_def [symmetric] b3_def [symmetric] simp del: note_best_fields)
    qed
  next
    case InnerOverflow
    then show ?thesis using safe by simp
  qed
qed simp

lemma search_finds:
  assumes near: "steps_near sc" and ne: "steps sc \<noteq> []"
  shows "\<exists>move. compress_bisect_add sc = Some move"
proof -
  have l: "0 < length (steps sc)" using ne by simp
  then have q: "1 \<le> min (length (steps sc)) 65535" by (simp add: Suc_le_eq)
  have "bisect_search sc \<noteq> Overflowed"
    unfolding bisect_search_def
    by (rule outer_loop_safe [OF near _ q]) (use near_points(2) [OF near l] in \<open>simp_all add: ranges_ok_def fresh_def\<close>)
  then show ?thesis by (cases rule: compress_bisect_add_cases [of sc]) auto
qed

subsection \<open>A flush succeeds\<close>

lemma add_move_error [simp]: "sc_max_error (add_move c move sc) = sc_max_error sc"
  by (simp add: add_move_def Let_def)

lemma steps_near_rest:
  assumes near: "steps_near sc" and v: "check_line sc move" "unat (sm_count move) \<le> length (steps sc)"
    and sc1: "sc1 = add_move (last_step_clock sc + to_u64 (sm_interval move)) move sc"
    and sc2: "sc2 = sc1\<lparr>steps := drop (unat (sm_count move)) (steps sc1), q_off := off\<rparr>"
  shows "steps_near sc2"
proof -
  have ok: "steps_ok sc" using near by (simp add: steps_near_def)
  note R = steps_ok_rest [OF ok v sc1 sc2]
  have st: "steps sc2 = drop (unat (sm_count move)) (steps sc)" by (simp add: sc1 sc2)
  have "req sc2 (Suc k) \<le> 0x30000000" if "k < length (steps sc2)" for k
  proof -
    have "unat (sm_count move) + k < length (steps sc)" using that st by simp
    then have "req sc (unat (sm_count move) + Suc k) \<le> 0x30000000" using near by (simp add: steps_near_def)
    then show ?thesis using R(2) [OF that] by simp
  qed
  moreover have "length (steps sc2) \<le> 46341" "unat (sc_max_error sc2) < 2 ^ 19"
    using near by (auto simp: st steps_near_def) (simp_all add: sc1 sc2)
  ultimately show ?thesis using R(1) by (simp add: steps_near_def)
qed

lemma flush_loop_succeeds:
  "length (steps sc) < n \<Longrightarrow> steps_near sc \<Longrightarrow> steps sc \<noteq> [] \<Longrightarrow>
     \<exists>sc'. flush_loop n move_clock sc = Some (True, sc') \<and> (steps sc' = [] \<or> move_clock \<le> last_step_clock sc')"
proof (induction n arbitrary: sc)
  case (Suc n)
  have ok: "steps_ok sc" using Suc.prems(2) by (simp add: steps_near_def)
  obtain move where m: "compress_bisect_add sc = Some move" using search_finds [OF Suc.prems(2,3)] ..
  have v: "check_line sc move" by (rule compress_valid [OF ok Suc.prems(3) m])
  define sc1 where "sc1 = add_move (last_step_clock sc + to_u64 (sm_interval move)) move sc"
  define sc2 where "sc2 = sc1\<lparr>steps := drop (unat (sm_count move)) (steps sc1), q_off := q_off sc1 + unat (sm_count move)\<rparr>"
  have "\<exists>sc'. flush_loop n move_clock sc2 = Some (True, sc') \<and> (steps sc' = [] \<or> move_clock \<le> last_step_clock sc')"
    if "\<not> unat (sm_count move) \<ge> length (steps sc1)"
  proof (rule Suc.IH)
    show "length (steps sc2) < n" using check_line_count [OF v] that Suc.prems(1) by (simp add: sc2_def sc1_def)
    show "steps_near sc2" by (rule steps_near_rest [OF Suc.prems(2) v _ sc1_def sc2_def]) (use that in \<open>simp add: sc1_def\<close>)
    show "steps sc2 \<noteq> []" using that by (simp add: sc2_def)
  qed
  then show ?case
    unfolding flush_loop.simps m option.case Let_def sc1_def [symmetric] sc2_def [symmetric] using v by (auto simp: not_less)
qed simp

text \<open>
  C6: the compression accepts the steps of normal operation.  If the step times in the queue increase, lie at most
  \<^verbatim>\<open>CLOCK_DIFF_MAX\<close> ticks after the last step sent, are at most 46341, and the allowed error is less than \<open>2 ^ 19\<close>
  ticks, then no \<^verbatim>\<open>int32_t\<close> operation of the search overflows, every move it finds passes the check, and the flush
  succeeds: it sends a series of moves that make the first steps of the queue at their times, up to the allowed error,
  and stops only when no step is left or the last step sent is not before the given clock.
\<close>

theorem queue_flush_succeeds:
  assumes "steps_near sc"
  shows "\<exists>sc' moves. queue_flush move_clock sc = Some (True, sc') \<and> flushed sc moves sc' \<and>
    (steps sc' = [] \<or> move_clock \<le> last_step_clock sc')"
proof (cases "steps sc = []")
  case True
  then have "queue_flush move_clock sc = Some (True, sc)" "flushed sc [] sc" by (simp_all add: queue_flush_def flushed_refl)
  then show ?thesis using True by blast
next
  case False
  then show ?thesis
    using flush_loop_succeeds [OF _ assms False, of "length (steps sc) + 1" move_clock] flush_loop_accurate [OF _ False]
    by (fastforce simp: queue_flush_def simp del: flush_loop.simps)
qed

theorem queue_flush_succeeds_witness:
  "\<exists>sc' moves. queue_flush 1000 sample_steps = Some (True, sc') \<and> flushed sample_steps moves sc' \<and>
     (steps sc' = [] \<or> 1000 \<le> last_step_clock sc')"
proof (rule queue_flush_succeeds)
  show "steps_near sample_steps"
    by (auto simp: steps_near_def steps_ok_def req_def sample_steps_def stepcompress_alloc_def less_Suc_eq)
qed

subsection \<open>A series that is too long\<close>

definition even_steps :: "nat \<Rightarrow> stepcompress \<Rightarrow> bool" where
  "even_steps d sc \<longleftrightarrow> 0 < d \<and> length (steps sc) * d < 2 ^ 31 \<and>
     (\<forall>k < length (steps sc). steps sc ! k = to_u32 (last_step_clock sc) + of_nat (Suc k * d))"

lemma even_points:
  assumes "even_steps d sc"
  shows "steps_ok sc" and "k < length (steps sc) \<Longrightarrow> maxp sc k = int (Suc k * d)"
proof -
  have r: "req sc k = int (k * d)" if "k \<le> length (steps sc)" for k
  proof (cases k)
    case (Suc j)
    have "Suc j * d \<le> length (steps sc) * d" using that Suc by (intro mult_right_mono) simp_all
    then have "Suc j * d < 2 ^ 31" using assms by (simp add: even_steps_def)
    moreover have "steps sc ! j - to_u32 (last_step_clock sc) = of_nat (Suc j * d)"
      using assms that Suc by (simp add: even_steps_def)
    ultimately show ?thesis
      using Suc by (simp only: req_def diff_Suc_1 nat.distinct if_False)
        (simp add: unsigned_of_nat take_bit_nat_eq_self del: of_nat_add of_nat_mult of_nat_Suc mult_Suc)
  qed (simp add: req_def)
  have b: "int (Suc k * d) < 2 ^ 31" if "k < length (steps sc)" for k
  proof -
    have "Suc k * d \<le> length (steps sc) * d" using that by (intro mult_right_mono) simp_all
    then have "Suc k * d < 2 ^ 31" using assms by (simp add: even_steps_def)
    then have "int (Suc k * d) < int (2 ^ 31)" by (simp only: of_nat_less_iff)
    then show ?thesis by simp
  qed
  show ok: "steps_ok sc" unfolding steps_ok_def using r b assms by (simp add: even_steps_def distrib_right)
  show "maxp sc k = int (Suc k * d)" if "k < length (steps sc)" using steps_ok_point(1) [OF ok that] r [of "Suc k"] that by simp
qed

lemma even_inner_overflows:
  assumes even: "even_steps d sc" and q: "46342 \<le> q" "q \<le> length (steps sc)"
  shows "1 \<le> k \<Longrightarrow> k \<le> 46341 \<Longrightarrow> lo \<le> int d \<Longrightarrow> inner_loop sc q 0 k lo (int d) iv = InnerOverflow"
proof (induction "46341 - k" arbitrary: k lo iv)
  case 0
  then have k: "k = 46341" by simp
  have "\<not> inner_round_ok sc 0 (Suc k) lo (int d)" by (simp add: k inner_round_ok_def in32_def Let_def)
  then show ?case using k q by (subst inner_loop_step) simp
next
  case (Suc n)
  have kl: "k < length (steps sc)" "\<not> q \<le> k" using Suc q by simp_all
  have m: "maxp sc k = int d * int (Suc k)" using even_points(2) [OF even kl(1)] by (simp add: algebra_simps)
  have hi: "next_max sc 0 (Suc k) (int d) = int d" by (simp add: next_max_def m)
  have lo: "next_min sc 0 (Suc k) lo \<le> int d"
    by (rule next_below) (use steps_ok_point(3) [OF even_points(1) [OF even] kl(1)] m Suc.prems in simp_all)
  have "inner_loop sc q 0 (Suc k) (next_min sc 0 (Suc k) lo) (int d) (int d) = InnerOverflow"
    by (rule Suc.hyps(1)) (use Suc lo in simp_all)
  then show ?case using kl lo by (subst inner_loop_step) (simp add: hi)
qed

text \<open>
  The search counts up to 65535 steps, but \<^verbatim>\<open>nextcount*(nextcount-1)\<close> is an \<^verbatim>\<open>int32_t\<close> and overflows for 46342 of them:
  for that many steps at even distances, the flush has undefined behaviour.
\<close>

theorem long_series_overflows:
  assumes "even_steps d sc" and "46342 \<le> length (steps sc)" and "last_step_clock sc < move_clock"
  shows "bisect_search sc = Overflowed" and "queue_flush move_clock sc = None"
proof -
  let ?q = "min (length (steps sc)) 65535"
  have l: "0 < length (steps sc)" using assms(2) by linarith
  have p: "maxp sc 0 = int d" "minp sc 0 \<le> int d"
    using even_points(2) [OF assms(1) l] steps_ok_point(3) [OF even_points(1) [OF assms(1)] l] by simp_all
  have "inner_loop sc ?q 0 1 (minp sc 0) (maxp sc 0) (maxp sc 0) = InnerOverflow"
    unfolding p(1) by (rule even_inner_overflows [OF assms(1)]) (use assms(2) p(2) in simp_all)
  moreover have n: "(65537 :: nat) = Suc 65536" by simp
  ultimately show ov: "bisect_search sc = Overflowed" unfolding bisect_search_def n outer_loop.simps by simp
  then have "compress_bisect_add sc = None" by (simp add: compress_bisect_add_def)
  then show "queue_flush move_clock sc = None" using l assms(3) by (simp add: queue_flush_def)
qed

text \<open>A motor that turns at a constant speed, 100 ticks for a step.\<close>

theorem long_series_overflows_witness:
  "queue_flush 1 ((stepcompress_alloc 4)\<lparr>steps := map (\<lambda>k. of_nat (Suc k * 100)) [0..<46342]\<rparr>) = None"
proof (rule long_series_overflows)
  show "even_steps 100 ((stepcompress_alloc 4)\<lparr>steps := map (\<lambda>k. of_nat (Suc k * 100)) [0..<46342]\<rparr>)"
    by (simp add: even_steps_def stepcompress_alloc_def)
qed (simp_all add: stepcompress_alloc_def)

end
