(* ===== verification/Serial_Irq.thy ===== *)
theory Serial_Irq
  imports Tmcuart
begin

text \<open>
  The serial console of boards with an interrupt driven uart, \<^verbatim>\<open>generic/serial_irq.c\<close>: a receive
  buffer filled by one interrupt, a transmit buffer emptied by another, and the task and the
  output function that share them with the interrupts.

  \<^item> The receive buffer is \<open>receive_buf\<close> of the machine, an array of \<^verbatim>\<open>RX_BUFFER_SIZE\<close> bytes;
    \<open>receive_pos\<close> bytes of it are in use.
  \<^item> \<open>tx_sent\<close> records the bytes handed to the uart.
  \<^item> Interrupts that may occur between two accesses of the main code are arguments: the bytes
    that arrive, or the number of bytes that the uart asks for, at that point.
  \<^item> An access outside an array is undefined.
\<close>

subsection \<open>State\<close>

definition RX_BUFFER_SIZE :: nat where "RX_BUFFER_SIZE = 192"
definition TX_BUFFER_SIZE :: nat where "TX_BUFFER_SIZE = 96"

record serial_state = tmcuart_state +
  receive_pos :: nat
  transmit_buf :: "u8 list"
  transmit_pos :: nat
  transmit_max :: nat
  tx_sent :: "u8 list"

type_synonym ('e, 'a) sefw = "('e serial_state_scheme, 'a) fw"

definition serial_init :: "config \<Rightarrow> board_in \<Rightarrow> serial_state" where
  "serial_init c e = tmcuart_state.extend
     ((tmcuart_init c e)\<lparr>receive_buf := replicate RX_BUFFER_SIZE 0\<rparr>)
     (serial_state.fields 0 (replicate TX_BUFFER_SIZE 0) 0 0 [])"

subsection \<open>Interrupts\<close>

definition serial_rx_byte :: "u8 \<Rightarrow> ('e, unit) sefw" where
  "serial_rx_byte data =
     thn (whenM (data = MESSAGE_SYNC) sched_wake_tasks)
     (bnd (reads receive_pos) (\<lambda>pos.
     if pos \<ge> RX_BUFFER_SIZE then ret ()
     else modify (\<lambda>m. m\<lparr>receive_buf := (receive_buf m)[pos := data], receive_pos := pos + 1\<rparr>)))"

definition serial_get_tx_byte :: "('e, u8 option) sefw" where
  "serial_get_tx_byte =
     bnd (reads transmit_pos) (\<lambda>pos.
     bnd (reads transmit_max) (\<lambda>mx.
     if pos \<ge> mx then ret None
     else if pos \<ge> TX_BUFFER_SIZE then undef
     else bnd (reads (\<lambda>m. transmit_buf m ! pos)) (\<lambda>b.
          thn (modify (\<lambda>m. m\<lparr>transmit_pos := pos + 1\<rparr>)) (ret (Some b)))))"

text \<open>The uart's interrupt handler, \<open>k\<close> times.\<close>

primrec tx_irqs :: "nat \<Rightarrow> ('e, unit) sefw" where
  "tx_irqs 0 = ret ()"
| "tx_irqs (Suc k) =
     bnd serial_get_tx_byte (\<lambda>b.
     thn (modify (\<lambda>m. case b of None \<Rightarrow> m | Some x \<Rightarrow> m\<lparr>tx_sent := tx_sent m @ [x]\<rparr>))
     (tx_irqs k))"

subsection \<open>Input\<close>

definition memmove :: "nat \<Rightarrow> nat \<Rightarrow> nat \<Rightarrow> u8 list \<Rightarrow> u8 list option" where
  "memmove dst src n buf =
     (if dst + n \<le> length buf \<and> src + n \<le> length buf
      then Some (take dst buf @ take n (drop src buf) @ drop (dst + n) buf) else None)"

definition move_rx :: "nat \<Rightarrow> nat \<Rightarrow> nat \<Rightarrow> ('e, unit) sefw" where
  "move_rx dst src n = (\<lambda>m. case memmove dst src n (receive_buf m) of
     None \<Rightarrow> Undef | Some buf \<Rightarrow> Ok () (m\<lparr>receive_buf := buf\<rparr>))"

text \<open>
  The loop of \<^verbatim>\<open>console_pop_input\<close>.  \<open>arr\<close> holds the bytes that arrive in each round before the
  interrupts are disabled; when the list is used up nothing more arrives.
\<close>

primrec pop_loop :: "u8 list list \<Rightarrow> nat \<Rightarrow> nat \<Rightarrow> ('e, unit) sefw" where
  "pop_loop [] len copied =
     bnd (reads receive_pos) (\<lambda>rpos.
     if rpos < len then undef
     else
       let needcopy = rpos - len in
       thn (whenM (needcopy \<noteq> 0) (thn (move_rx copied (copied + len) (needcopy - copied)) sched_wake_tasks))
       (bnd irq_save (\<lambda>flag.
       thn (modify (\<lambda>m. m\<lparr>receive_pos := needcopy\<rparr>)) (irq_restore flag))))"
| "pop_loop (bs # arr) len copied =
     bnd (reads receive_pos) (\<lambda>rpos.
     if rpos < len then undef
     else
       let needcopy = rpos - len in
       thn (whenM (needcopy \<noteq> 0) (thn (move_rx copied (copied + len) (needcopy - copied)) sched_wake_tasks))
       (thn (seqM (map serial_rx_byte bs))
       (bnd irq_save (\<lambda>flag.
       bnd (reads receive_pos) (\<lambda>rpos'.
       if rpos \<noteq> rpos' then
         thn (irq_restore flag) (pop_loop arr len (if needcopy \<noteq> 0 then needcopy else copied))
       else thn (modify (\<lambda>m. m\<lparr>receive_pos := needcopy\<rparr>)) (irq_restore flag))))))"

definition console_pop_input :: "u8 list list \<Rightarrow> nat \<Rightarrow> ('e, unit) sefw" where
  "console_pop_input arr len = pop_loop arr len 0"

text \<open>
  \<open>boot\<close> is \<^verbatim>\<open>bootloader_request\<close> on the boards that have it (\<^verbatim>\<open>CONFIG_HAVE_BOOTLOADER_REQUEST\<close>).
\<close>

definition bootloader_msg :: "u8 list" where
  "bootloader_msg = [0x20, 0x1c, 0x20] @ map of_char ''Request Serial Bootloader!!'' @ [0x20, 0x7e]"

definition console_task ::
  "('f \<Rightarrow> u32 list \<Rightarrow> ('e, unit) sefw) \<Rightarrow> 'f command_parser list \<Rightarrow> ('e, unit) sefw option \<Rightarrow> u8 list list
     \<Rightarrow> ('e, unit) sefw" where
  "console_task run index boot arr =
     bnd (reads receive_pos) (\<lambda>rpos.
     bnd (reads receive_buf) (\<lambda>buf.
     bnd (command_find_block (take rpos buf)) (\<lambda>r.
     thn (whenM (fst r > 0) (command_dispatch run index buf (snd r)))
     (if fst r \<noteq> 0 then
        thn (case boot of
               None \<Rightarrow> ret ()
             | Some request \<Rightarrow>
                 bnd (reads receive_buf) (\<lambda>buf'.
                 whenM (fst r < 0 \<and> snd r = 32 \<and> take 32 buf' = bootloader_msg) request))
        (thn (console_pop_input arr (snd r))
        (whenM (fst r > 0) command_send_ack))
      else ret ()))))"

subsection \<open>Output\<close>

definition move_tx :: "nat \<Rightarrow> nat \<Rightarrow> nat \<Rightarrow> ('e, unit) sefw" where
  "move_tx dst src n = (\<lambda>m. case memmove dst src n (transmit_buf m) of
     None \<Rightarrow> Undef | Some buf \<Rightarrow> Ok () (m\<lparr>transmit_buf := buf\<rparr>))"

definition write_tx :: "nat \<Rightarrow> u8 list \<Rightarrow> ('e, unit) sefw" where
  "write_tx pos bs = (\<lambda>m.
     if pos + length bs \<le> length (transmit_buf m)
     then Ok () (m\<lparr>transmit_buf := take pos (transmit_buf m) @ bs @ drop (pos + length bs) (transmit_buf m)\<rparr>)
     else Undef)"

text \<open>
  \<open>k 0\<close>, \<open>k 1\<close>, ... are the numbers of bytes the uart asks for between the accesses to the shared
  variables.
\<close>

definition console_sendf ::
  "(nat \<Rightarrow> nat) \<Rightarrow> (string \<Rightarrow> u32) \<Rightarrow> command_encoder \<Rightarrow> arg list \<Rightarrow> ('e, unit) sefw" where
  "console_sendf k sid ce args =
     bnd (reads transmit_pos) (\<lambda>tpos0.
     thn (tx_irqs (k 0))
     (bnd (reads transmit_max) (\<lambda>tmax0.
     thn (tx_irqs (k 1))
     (bnd (if tpos0 \<ge> tmax0 then
             thn (modify (\<lambda>m. m\<lparr>transmit_max := 0\<rparr>))
             (thn (tx_irqs (k 2))
             (thn (modify (\<lambda>m. m\<lparr>transmit_pos := 0\<rparr>))
             (ret (0, 0))))
           else ret (tpos0, tmax0)) (\<lambda>(tpos, tmax).
     let max_size = enc_max_size ce in
     bnd (if tmax + max_size > TX_BUFFER_SIZE then
            if tmax + max_size - tpos > TX_BUFFER_SIZE then ret None
            else
              thn (tx_irqs (k 3))
              (thn (modify (\<lambda>m. m\<lparr>transmit_max := 0\<rparr>))
              (thn (tx_irqs (k 4))
              (bnd (reads transmit_pos) (\<lambda>tpos'.
              let tmax' = tmax - tpos' in
              thn (move_tx 0 tpos' tmax')
              (thn (modify (\<lambda>m. m\<lparr>transmit_pos := 0\<rparr>))
              (thn (modify (\<lambda>m. m\<lparr>transmit_max := tmax'\<rparr>))
              (ret (Some tmax'))))))))
          else ret (Some tmax)) (\<lambda>room. case room of
       None \<Rightarrow> ret ()
     | Some tmax' \<Rightarrow>
         thn (tx_irqs (k 5))
         (bnd (command_encode_and_frame sid ce args) (\<lambda>msg.
         thn (write_tx tmax' msg)
         (thn (tx_irqs (k 6))
         (modify (\<lambda>m. m\<lparr>transmit_max := tmax' + length msg\<rparr>)))))))))))"

end
