(* ===== verification/Console.thy ===== *)
theory Console
  imports Serial_Irq Dispatch
begin

text \<open>
  The serial console is a pair of queues (\<^verbatim>\<open>generic/serial_irq.c\<close>): whatever interrupts occur on
  the way, taking a block out of the receive buffer loses no byte that fitted and changes no
  order, and a message is appended to the bytes still to be transmitted or left out as a
  whole.
\<close>

subsection \<open>Input\<close>

definition rx_bytes :: "'e serial_state_scheme \<Rightarrow> u8 list" where
  "rx_bytes m = take (receive_pos m) (receive_buf m)"

definition rx_ok :: "'e serial_state_scheme \<Rightarrow> bool" where
  "rx_ok m \<longleftrightarrow> length (receive_buf m) = RX_BUFFER_SIZE \<and> receive_pos m \<le> RX_BUFFER_SIZE"

text \<open>
  While bytes are moved: \<open>a\<close> is everything received, \<open>c\<close> bytes after the first \<open>len\<close> are in their
  new place, the others still in their old one.
\<close>

definition moving :: "nat \<Rightarrow> nat \<Rightarrow> u8 list \<Rightarrow> 'e serial_state_scheme \<Rightarrow> bool" where
  "moving len c a m \<longleftrightarrow> length (receive_buf m) = RX_BUFFER_SIZE \<and> receive_pos m = length a \<and>
     length a \<le> RX_BUFFER_SIZE \<and> len + c \<le> length a \<and>
     (\<forall>i < c. receive_buf m ! i = a ! (len + i)) \<and>
     (\<forall>i < length a. len + c \<le> i \<longrightarrow> receive_buf m ! i = a ! i)"

lemma moving_start:
  assumes "rx_ok m" and "len \<le> receive_pos m"
  shows "moving len 0 (rx_bytes m) m"
  using assms by (simp add: moving_def rx_ok_def rx_bytes_def)

lemma sched_wake_tasks_app: "sched_wake_tasks m = Ok () (m\<lparr>tasks_status := TS_REQUESTED\<rparr>)"
  by (simp add: sched_wake_tasks_def TS_REQUESTED_def)

lemma moving_rx:
  assumes "moving len c a m"
  shows "\<exists>m'. serial_rx_byte b m = Ok () m' \<and> moving len c (a @ (if length a < RX_BUFFER_SIZE then [b] else [])) m'"
  using assms
  by (auto simp: serial_rx_byte_def moving_def sched_wake_tasks_app thn_app nth_append nth_list_update)

lemma moving_rxs:
  "moving len c a m \<Longrightarrow>
    \<exists>m'. seqM (map serial_rx_byte bs) m = Ok () m' \<and> moving len c (a @ take (RX_BUFFER_SIZE - length a) bs) m'"
proof (induction bs arbitrary: a m)
  case Nil
  then show ?case by simp
next
  case (Cons b bs)
  obtain m1 where m1: "serial_rx_byte b m = Ok () m1" "moving len c (a @ (if length a < RX_BUFFER_SIZE then [b] else [])) m1"
    using moving_rx [OF Cons.prems] by blast
  obtain m' where "seqM (map serial_rx_byte bs) m1 = Ok () m'"
    "moving len c ((a @ (if length a < RX_BUFFER_SIZE then [b] else [])) @
      take (RX_BUFFER_SIZE - length (a @ (if length a < RX_BUFFER_SIZE then [b] else []))) bs) m'"
    using Cons.IH [OF m1(2)] by blast
  moreover have "(a @ (if length a < RX_BUFFER_SIZE then [b] else [])) @
      take (RX_BUFFER_SIZE - length (a @ (if length a < RX_BUFFER_SIZE then [b] else []))) bs =
    a @ take (RX_BUFFER_SIZE - length a) (b # bs)"
    by (auto simp: take_Cons' not_less)
  ultimately show ?case using m1(1) by auto
qed

lemma moving_move:
  assumes "moving len c a m"
  shows "\<exists>m'. move_rx c (c + len) (length a - len - c) m = Ok () m' \<and> moving len (length a - len) a m'"
proof -
  let ?n = "length a - len - c"
  have l: "length (receive_buf m) = RX_BUFFER_SIZE" "length a \<le> RX_BUFFER_SIZE" "len + c \<le> length a"
    using assms by (simp_all add: moving_def)
  let ?b = "take c (receive_buf m) @ take ?n (drop (c + len) (receive_buf m)) @ drop (c + ?n) (receive_buf m)"
  have "memmove c (c + len) ?n (receive_buf m) = Some ?b" using l by (simp add: memmove_def)
  moreover have "moving len (length a - len) a (m\<lparr>receive_buf := ?b\<rparr>)"
  proof -
    have "?b ! i = a ! (len + i)" if i: "i < length a - len" for i
    proof (cases "i < c")
      case True
      then have "?b ! i = receive_buf m ! i" using l by (simp add: nth_append)
      then show ?thesis using assms True by (simp add: moving_def)
    next
      case False
      then have "i - c < ?n" using i by simp
      then have "?b ! i = receive_buf m ! (c + len + (i - c))" using False l by (simp add: nth_append)
      also have "c + len + (i - c) = len + i" using False by simp
      finally show ?thesis using assms False i by (simp add: moving_def)
    qed
    moreover have "length ?b = RX_BUFFER_SIZE" using l by simp
    ultimately show ?thesis using assms l unfolding moving_def by simp
  qed
  ultimately show ?thesis by (simp add: move_rx_def)
qed

text \<open>One round up to the point where the interrupts are disabled.\<close>

lemma moving_round:
  assumes "moving len c a m"
  shows "\<exists>m'. thn (whenM (length a - len \<noteq> 0) (thn (move_rx c (c + len) (length a - len - c)) sched_wake_tasks)) g m = g m' \<and>
    moving len (length a - len) a m'"
proof (cases "length a - len = 0")
  case True
  then have "c = 0" using assms by (auto simp: moving_def)
  then show ?thesis using True assms by auto
next
  case False
  obtain m1 where "move_rx c (c + len) (length a - len - c) m = Ok () m1" "moving len (length a - len) a m1"
    using moving_move [OF assms] by blast
  then show ?thesis
    using False by (intro exI [of _ "m1\<lparr>tasks_status := TS_REQUESTED\<rparr>"]) (simp add: thn_app sched_wake_tasks_app moving_def)
qed

lemma moving_done:
  "moving len (length a - len) a m \<Longrightarrow> rx_bytes (m\<lparr>receive_pos := length a - len\<rparr>) = drop len a"
  by (auto simp: moving_def rx_bytes_def intro!: nth_equalityI)

lemma pop_loop_keeps:
  assumes "moving len c a m"
  shows "\<exists>m' n. pop_loop arr len c m = Ok () m' \<and> n \<le> length arr \<and>
    rx_bytes m' = drop len (a @ take (RX_BUFFER_SIZE - length a) (concat (take n arr))) \<and>
    (n < length arr \<longrightarrow> arr ! n = [] \<or> RX_BUFFER_SIZE \<le> length (a @ concat (take n arr)))"
  using assms
proof (induction arr arbitrary: c a m)
  case Nil
  have l: "receive_pos m = length a" "\<not> length a < len" using Nil by (auto simp: moving_def)
  let ?g = "bnd irq_save (\<lambda>flag. thn (modify (\<lambda>m. m\<lparr>receive_pos := length a - len\<rparr>)) (irq_restore flag))"
  have e: "pop_loop [] len c m = thn (whenM (length a - len \<noteq> 0)
      (thn (move_rx c (c + len) (length a - len - c)) sched_wake_tasks)) ?g m"
    unfolding pop_loop.simps Let_def using l by simp
  obtain m1 where r: "pop_loop [] len c m = ?g m1" and m1: "moving len (length a - len) a m1"
    using moving_round [OF Nil, of ?g] unfolding e by blast
  have "?g m1 = Ok () (m1\<lparr>receive_pos := length a - len\<rparr>)" by (simp add: board_defs)
  then show ?case using r moving_done [OF m1] by auto
next
  case (Cons bs arr)
  have l: "receive_pos m = length a" "\<not> length a < len" using Cons.prems by (auto simp: moving_def)
  let ?nc = "length a - len"
  let ?a = "a @ take (RX_BUFFER_SIZE - length a) bs"
  let ?g = "thn (seqM (map serial_rx_byte bs))
       (bnd irq_save (\<lambda>flag.
       bnd (reads receive_pos) (\<lambda>rpos'.
       if length a \<noteq> rpos' then
         thn (irq_restore flag) (pop_loop arr len (if ?nc \<noteq> 0 then ?nc else c))
       else thn (modify (\<lambda>m. m\<lparr>receive_pos := ?nc\<rparr>)) (irq_restore flag))))"
  have e: "pop_loop (bs # arr) len c m = thn (whenM (length a - len \<noteq> 0)
      (thn (move_rx c (c + len) (length a - len - c)) sched_wake_tasks)) ?g m"
    unfolding pop_loop.simps Let_def using l by simp
  obtain m1 where r: "pop_loop (bs # arr) len c m = ?g m1" and m1: "moving len ?nc a m1"
    using moving_round [OF Cons.prems, of ?g] unfolding e by blast
  obtain m2 where m2: "seqM (map serial_rx_byte bs) m1 = Ok () m2" "moving len ?nc ?a m2"
    using moving_rxs [OF m1] by blast
  have p2: "receive_pos m2 = length ?a" using m2(2) by (simp add: moving_def)
  show ?case
  proof (cases "length ?a = length a")
    case True
    then have "length (take (RX_BUFFER_SIZE - length a) bs) = 0" unfolding length_append by linarith
    then have "take (RX_BUFFER_SIZE - length a) bs = []" by (simp only: length_0_conv)
    then have a: "?a = a" by simp
    have "?g m1 = Ok () (m2\<lparr>receive_pos := ?nc\<rparr>)"
      using m2(1) p2 True by (simp add: board_defs thn_app)
    moreover have "bs = [] \<or> RX_BUFFER_SIZE \<le> length a" using a by auto
    ultimately show ?thesis
      using r moving_done [OF m2(2) [unfolded a]] by (intro exI [of _ "m2\<lparr>receive_pos := ?nc\<rparr>"] exI [of _ 0]) simp
  next
    case False
    have c: "(if ?nc \<noteq> 0 then ?nc else c) = ?nc" using Cons.prems by (auto simp: moving_def)
    let ?m = "m2\<lparr>irq_on := irq_on m2\<rparr>"
    have g: "?g m1 = pop_loop arr len ?nc ?m"
      using m2(1) p2 False unfolding c by (simp add: board_defs thn_app)
    have "moving len ?nc ?a ?m" using m2(2) by simp
    from Cons.IH [OF this] obtain m' n where IH: "pop_loop arr len ?nc ?m = Ok () m'" "n \<le> length arr"
      "rx_bytes m' = drop len (?a @ take (RX_BUFFER_SIZE - length ?a) (concat (take n arr)))"
      "n < length arr \<longrightarrow> arr ! n = [] \<or> RX_BUFFER_SIZE \<le> length (?a @ concat (take n arr))" by blast
    have e: "?a @ take (RX_BUFFER_SIZE - length ?a) (concat (take n arr)) =
        a @ take (RX_BUFFER_SIZE - length a) (concat (take (Suc n) (bs # arr)))"
      by (cases "length bs \<le> RX_BUFFER_SIZE - length a") (simp_all add: min_def)
    have "RX_BUFFER_SIZE \<le> length (a @ concat (take (Suc n) (bs # arr)))"
      if "RX_BUFFER_SIZE \<le> length (?a @ concat (take n arr))" using that by auto
    then show ?thesis using IH g r unfolding e by (intro exI [of _ m'] exI [of _ "Suc n"]) auto
  qed
qed

text \<open>
  C32: taking a block off the receive buffer is safe against the receive interrupt.  Whatever
  bytes arrive while \<^verbatim>\<open>console_pop_input\<close> moves the rest of the buffer to the front, it returns with
  exactly the bytes behind the block followed by those that arrived and fitted, in order.
\<close>

theorem console_pop_keeps_order:
  assumes "rx_ok m" and "len \<le> receive_pos m"
  shows "\<exists>m' n. console_pop_input arr len m = Ok () m' \<and> n \<le> length arr \<and>
    rx_bytes m' = drop len (rx_bytes m @ take (RX_BUFFER_SIZE - receive_pos m) (concat (take n arr))) \<and>
    (n < length arr \<longrightarrow> arr ! n = [] \<or> RX_BUFFER_SIZE \<le> length (rx_bytes m @ concat (take n arr)))"
proof -
  have "length (rx_bytes m) = receive_pos m" using assms(1) by (simp add: rx_ok_def rx_bytes_def)
  then show ?thesis
    using pop_loop_keeps [OF moving_start [OF assms], of arr] by (simp add: console_pop_input_def)
qed

text \<open>Three of five bytes are taken while two and then one more arrive.\<close>

definition sample_console :: serial_state where
  "sample_console = (serial_init sample_config sample_board)
     \<lparr>receive_buf := [1, 2, 3, 4, 5] @ replicate 187 0, receive_pos := 5\<rparr>"

theorem console_pop_keeps_order_witness:
  "\<exists>m'. console_pop_input [[6, 7], [8], []] 3 sample_console = Ok () m' \<and> rx_bytes m' = [4, 5, 6, 7, 8]"
proof -
  have ok: "rx_ok sample_console" "3 \<le> receive_pos sample_console" "receive_pos sample_console = 5"
    "rx_bytes sample_console = [1, 2, 3, 4, 5]"
    by (simp_all add: sample_console_def rx_ok_def RX_BUFFER_SIZE_def rx_bytes_def)
  let ?arr = "[[6, 7], [8], [] :: u8 list]"
  obtain m' n where r: "console_pop_input ?arr 3 sample_console = Ok () m'" "n \<le> length ?arr"
    "rx_bytes m' = drop 3 (rx_bytes sample_console @
      take (RX_BUFFER_SIZE - receive_pos sample_console) (concat (take n ?arr)))"
    "n < length ?arr \<longrightarrow> ?arr ! n = [] \<or>
      RX_BUFFER_SIZE \<le> length (rx_bytes sample_console @ concat (take n ?arr))"
    using console_pop_keeps_order [OF ok(1, 2), of ?arr] by (elim exE conjE)
  have "n = 0 \<or> n = 1 \<or> n = 2 \<or> n = 3" using r(2) by auto
  then have "n = 2 \<or> n = 3" using r(4) unfolding ok(4) by (auto simp: RX_BUFFER_SIZE_def)
  then have "rx_bytes m' = [4, 5, 6, 7, 8]"
    using r(3) unfolding ok(3, 4) by (auto simp: RX_BUFFER_SIZE_def eval_nat_numeral)
  then show ?thesis using r(1) by blast
qed

subsection \<open>Output\<close>

definition tx_pending :: "'e serial_state_scheme \<Rightarrow> u8 list" where
  "tx_pending m = take (transmit_max m - transmit_pos m) (drop (transmit_pos m) (transmit_buf m))"

definition tx_ok :: "'e serial_state_scheme \<Rightarrow> bool" where
  "tx_ok m \<longleftrightarrow> length (transmit_buf m) = TX_BUFFER_SIZE \<and> transmit_pos m \<le> transmit_max m \<and> transmit_max m \<le> TX_BUFFER_SIZE"

text \<open>The state with another transmit buffer.\<close>

definition txs :: "'e serial_state_scheme \<Rightarrow> u8 list \<Rightarrow> nat \<Rightarrow> nat \<Rightarrow> u8 list \<Rightarrow> 'e serial_state_scheme" where
  "txs m b p x s = m\<lparr>transmit_buf := b, transmit_pos := p, transmit_max := x, tx_sent := s\<rparr>"

lemma txs_id: "txs m (transmit_buf m) (transmit_pos m) (transmit_max m) (tx_sent m) = m"
  by (simp add: txs_def)

lemma txs_sel [simp]:
  "transmit_buf (txs m b p x s) = b" "transmit_pos (txs m b p x s) = p" "transmit_max (txs m b p x s) = x"
  "tx_sent (txs m b p x s) = s" "next_sequence (txs m b p x s) = next_sequence m"
  by (simp_all add: txs_def)

lemma txs_upd [simp]:
  "(txs m b p x s)\<lparr>transmit_pos := p'\<rparr> = txs m b p' x s" "(txs m b p x s)\<lparr>transmit_max := x'\<rparr> = txs m b p x' s"
  "(txs m b p x s)\<lparr>transmit_buf := b'\<rparr> = txs m b' p x s" "(txs m b p x s)\<lparr>tx_sent := s'\<rparr> = txs m b p x s'"
  by (simp_all add: txs_def)

lemma tx_irqs_done: "x \<le> p \<Longrightarrow> tx_irqs k (txs m b p x s) = Ok () (txs m b p x s)"
  by (induction k) (simp_all add: serial_get_tx_byte_def)

lemma tx_irqs_sends:
  assumes "length b = TX_BUFFER_SIZE" and "p \<le> x" and "x \<le> TX_BUFFER_SIZE"
  shows "\<exists>p' s'. tx_irqs k (txs m b p x s) = Ok () (txs m b p' x s') \<and> p \<le> p' \<and> p' \<le> x \<and>
    s' = s @ take (p' - p) (drop p b)"
  using assms(2)
proof (induction k arbitrary: p s)
  case 0
  then show ?case by (intro exI [of _ p] exI [of _ s]) simp
next
  case (Suc k)
  show ?case
  proof (cases "p = x")
    case True
    then show ?thesis using tx_irqs_done [of x p "Suc k"] by (intro exI [of _ p] exI [of _ s]) simp
  next
    case False
    then have p: "p < x" "p < TX_BUFFER_SIZE" using Suc.prems assms(3) by auto
    then have "tx_irqs (Suc k) (txs m b p x s) = tx_irqs k (txs m b (p + 1) x (s @ [b ! p]))"
      by (simp add: serial_get_tx_byte_def)
    moreover obtain p' s' where "tx_irqs k (txs m b (p + 1) x (s @ [b ! p])) = Ok () (txs m b p' x s')" "p + 1 \<le> p'" "p' \<le> x"
      "s' = (s @ [b ! p]) @ take (p' - (p + 1)) (drop (p + 1) b)"
      using Suc.IH [of "p + 1" "s @ [b ! p]"] p(1) by auto
    moreover have "take (p' - p) (drop p b) = b ! p # take (p' - (p + 1)) (drop (p + 1) b)"
      using calculation(3) p assms(1) by (simp add: Cons_nth_drop_Suc [symmetric] Suc_diff_le take_Cons')
    ultimately show ?thesis by (intro exI [of _ p'] exI [of _ s']) auto
  qed
qed

lemma sent_part:
  assumes "p \<le> p'" "p' \<le> x" "x \<le> length b"
  shows "take (p' - p) (drop p b) @ drop p' (take x b) = drop p (take x b)"
  using assms by (intro nth_equalityI) (auto simp: nth_append add.commute)

text \<open>The buffer after the room for the next message has been found: \<open>x\<close> bytes are in use.\<close>

lemma append_message:
  fixes m :: "'e serial_state_scheme"
  assumes b: "length b = TX_BUFFER_SIZE" and p: "p \<le> x" and fit: "x + length f \<le> TX_BUFFER_SIZE"
    and enc: "(command_encode_and_frame sid ce args :: ('e, u8 list) sefw) = (\<lambda>m. Ok (f' (next_sequence m)) m)"
    and f: "f = f' (next_sequence m)"
  shows "\<exists>p' s'. thn (tx_irqs k5)
         (bnd (command_encode_and_frame sid ce args) (\<lambda>msg.
         thn (write_tx x msg)
         (thn (tx_irqs k6)
         (modify (\<lambda>m. m\<lparr>transmit_max := x + length msg\<rparr>))))) (txs m b p x s) =
      Ok () (txs m (take x b @ f @ drop (x + length f) b) p' (x + length f) s') \<and> p' \<le> x \<and>
    s' @ drop p' (take x b) = s @ drop p (take x b)"
proof -
  have xb: "x \<le> TX_BUFFER_SIZE" using fit by simp
  obtain p1 s1 where t1: "tx_irqs k5 (txs m b p x s) = Ok () (txs m b p1 x s1)" "p \<le> p1" "p1 \<le> x"
    "s1 = s @ take (p1 - p) (drop p b)" using tx_irqs_sends [OF b p xb] by blast
  define b' where "b' = take x b @ f @ drop (x + length f) b"
  have lb: "length b' = TX_BUFFER_SIZE" and tb: "take x b' = take x b" using b fit by (simp_all add: b'_def)
  obtain p2 s2 where t2: "tx_irqs k6 (txs m b' p1 x s1) = Ok () (txs m b' p2 x s2)" "p1 \<le> p2" "p2 \<le> x"
    "s2 = s1 @ take (p2 - p1) (drop p1 b')" using tx_irqs_sends [OF lb t1(3) xb] by blast
  have "take (p1 - p) (drop p b) @ drop p1 (take x b) = drop p (take x b)"
    by (rule sent_part) (use t1 b xb in simp_all)
  moreover have "take (p2 - p1) (drop p1 b') @ drop p2 (take x b) = drop p1 (take x b)"
    using sent_part [of p1 p2 x b'] t2 lb xb unfolding tb by simp
  ultimately have "s2 @ drop p2 (take x b) = s @ drop p (take x b)" by (simp add: t1(4) t2(4))
  moreover have "thn (tx_irqs k5)
         (bnd (command_encode_and_frame sid ce args) (\<lambda>msg.
         thn (write_tx x msg)
         (thn (tx_irqs k6)
         (modify (\<lambda>m. m\<lparr>transmit_max := x + length msg\<rparr>))))) (txs m b p x s) =
      Ok () (txs m b' p2 (x + length f) s2)"
    using t1(1) t2(1) fit b f by (simp add: enc write_tx_def b'_def)
  ultimately show ?thesis using t2(3) unfolding b'_def by blast
qed

lemma tx_irqs_line:
  assumes "length b = TX_BUFFER_SIZE" and "p \<le> x" and "x \<le> TX_BUFFER_SIZE"
  shows "\<exists>p' s'. tx_irqs k (txs m b p x s) = Ok () (txs m b p' x s') \<and> p \<le> p' \<and> p' \<le> x \<and>
    s' @ drop p' (take x b) = s @ drop p (take x b)"
proof -
  obtain p' s' where t: "tx_irqs k (txs m b p x s) = Ok () (txs m b p' x s')" "p \<le> p'" "p' \<le> x"
    "s' = s @ take (p' - p) (drop p b)" using tx_irqs_sends [OF assms] by blast
  then show ?thesis using sent_part [of p p' x b] assms(1, 3) by (intro exI [of _ p'] exI [of _ s']) simp
qed

lemma append_done:
  fixes m :: "'e serial_state_scheme"
  assumes b: "length b = TX_BUFFER_SIZE" and p: "p \<le> x" and fit: "x + length f \<le> TX_BUFFER_SIZE"
    and enc: "(command_encode_and_frame sid ce args :: ('e, u8 list) sefw) = (\<lambda>m. Ok (f' (next_sequence m)) m)"
    and f: "f = f' (next_sequence m)"
  shows "\<exists>m'. thn (tx_irqs k5)
         (bnd (command_encode_and_frame sid ce args) (\<lambda>msg.
         thn (write_tx x msg)
         (thn (tx_irqs k6)
         (modify (\<lambda>m. m\<lparr>transmit_max := x + length msg\<rparr>))))) (txs m b p x s) = Ok () m' \<and>
    tx_ok m' \<and> tx_sent m' @ tx_pending m' = s @ drop p (take x b) @ f"
proof -
  obtain p' s' where a: "thn (tx_irqs k5)
         (bnd (command_encode_and_frame sid ce args) (\<lambda>msg.
         thn (write_tx x msg)
         (thn (tx_irqs k6)
         (modify (\<lambda>m. m\<lparr>transmit_max := x + length msg\<rparr>))))) (txs m b p x s) =
      Ok () (txs m (take x b @ f @ drop (x + length f) b) p' (x + length f) s')" "p' \<le> x"
    "s' @ drop p' (take x b) = s @ drop p (take x b)"
    using append_message [OF b p fit enc f] by blast
  define b' where "b' = take x b @ f @ drop (x + length f) b"
  have lb: "length b' = TX_BUFFER_SIZE" using b fit by (simp add: b'_def)
  have "take (x + length f - p') (drop p' b') = drop p' (take (x + length f) b')" by (simp add: drop_take)
  also have "take (x + length f) b' = take x b @ f" using b fit by (simp add: b'_def)
  also have "drop p' (take x b @ f) = drop p' (take x b) @ f" using a(2) b fit by simp
  finally have "tx_pending (txs m b' p' (x + length f) s') = drop p' (take x b) @ f"
    by (simp add: tx_pending_def)
  moreover have "tx_ok (txs m b' p' (x + length f) s')" using lb a(2) fit by (simp add: tx_ok_def)
  ultimately show ?thesis using a(1, 3) unfolding b'_def [symmetric]
    by (intro exI [of _ "txs m b' p' (x + length f) s'"]) (simp add: append_assoc [symmetric] del: append_assoc)
qed

text \<open>
  C33: the output of messages is a queue.  Whenever the uart interrupt takes bytes, sending a
  message appends its whole frame to the bytes that are sent or still to be sent; only when the
  frame's maximum size does not fit beside the bytes still to be sent is the message left
  out, and then nothing else changes on the line.
\<close>

theorem console_sendf_appends:
  fixes m :: "'e serial_state_scheme"
  assumes ok: "tx_ok m"
    and enc: "(command_encodef sid ce args :: ('e, u8 list) sefw) = ret payload"
    and size: "length payload + 5 \<le> enc_max_size ce"
  shows "\<exists>m'. console_sendf k sid ce args m = Ok () m' \<and> tx_ok m' \<and>
    tx_sent m' @ tx_pending m' = tx_sent m @ tx_pending m @
      (if length (tx_pending m) + enc_max_size ce > TX_BUFFER_SIZE then []
       else command_add_frame (next_sequence m) payload)"
proof -
  let ?f = "command_add_frame (next_sequence m) payload"
  obtain b p x s where m: "transmit_buf m = b" "transmit_pos m = p" "transmit_max m = x" "tx_sent m = s" by blast
  have B: "length b = TX_BUFFER_SIZE" "p \<le> x" "x \<le> TX_BUFFER_SIZE" using ok m by (simp_all add: tx_ok_def)
  have pend: "tx_pending m = drop p (take x b)" using m by (simp add: tx_pending_def drop_take)
  have lp: "length (tx_pending m) = x - p" using B by (simp add: pend)
  have e: "(command_encode_and_frame sid ce args :: ('e, u8 list) sefw) = (\<lambda>m. Ok (command_add_frame (next_sequence m) payload) m)"
    unfolding command_encode_and_frame_def enc by (rule ext) simp
  let ?tail = "\<lambda>x. thn (tx_irqs (k 5)) (bnd (command_encode_and_frame sid ce args) (\<lambda>msg.
         thn (write_tx x msg) (thn (tx_irqs (k 6)) (modify (\<lambda>m. m\<lparr>transmit_max := x + length msg\<rparr>)))))"
  have tail: "\<exists>m'. ?tail y (txs m c q y t) = Ok () m' \<and> tx_ok m' \<and> tx_sent m' @ tx_pending m' = t @ drop q (take y c) @ ?f"
    if "length c = TX_BUFFER_SIZE" "q \<le> y" "y + enc_max_size ce \<le> TX_BUFFER_SIZE" for c q y t
    by (rule append_done [OF that(1, 2) _ e refl]) (use that(3) size in simp)
  have id: "m = txs m b p x s" using txs_id [of m] by (simp add: m)
  show ?thesis
  proof (cases "p = x")
    case True
    have r: "console_sendf k sid ce args m =
        (if enc_max_size ce > TX_BUFFER_SIZE then Ok () (txs m b 0 0 s) else ?tail 0 (txs m b 0 0 s))"
      unfolding console_sendf_def by (subst id) (simp add: True tx_irqs_done)
    show ?thesis
    proof (cases "enc_max_size ce > TX_BUFFER_SIZE")
      case True
      then show ?thesis using r B(1) lp \<open>p = x\<close> pend by (simp add: tx_ok_def tx_pending_def m)
    next
      case False
      then show ?thesis using r tail [of b 0 0 s] B(1) lp \<open>p = x\<close> pend by (simp add: m)
    qed
  next
    case False
    then have px: "\<not> x \<le> p" using B(2) by simp
    obtain p0 s0 where t0: "tx_irqs (k 0) (txs m b p x s) = Ok () (txs m b p0 x s0)" "p \<le> p0" "p0 \<le> x"
      "s0 @ drop p0 (take x b) = s @ drop p (take x b)" using tx_irqs_line [OF B] by blast
    obtain p1 s1 where t1: "tx_irqs (k 1) (txs m b p0 x s0) = Ok () (txs m b p1 x s1)" "p0 \<le> p1" "p1 \<le> x"
      "s1 @ drop p1 (take x b) = s0 @ drop p0 (take x b)" using tx_irqs_line [OF B(1) t0(3) B(3)] by blast
    obtain p3 s3 where t3: "tx_irqs (k 3) (txs m b p1 x s1) = Ok () (txs m b p3 x s3)" "p1 \<le> p3" "p3 \<le> x"
      "s3 @ drop p3 (take x b) = s1 @ drop p1 (take x b)" using tx_irqs_line [OF B(1) t1(3) B(3)] by blast
    define b' where "b' = take (x - p3) (drop p3 b) @ drop (x - p3) b"
    have mv: "memmove 0 p3 (x - p3) b = Some b'" using B t3(3) by (simp add: memmove_def b'_def)
    have b': "length b' = TX_BUFFER_SIZE" "take (x - p3) b' = drop p3 (take x b)"
      using B t3(3) by (simp_all add: b'_def drop_take)
    have cmp: "thn (tx_irqs (k 3)) (thn (modify (\<lambda>m. m\<lparr>transmit_max := 0\<rparr>)) (thn (tx_irqs (k 4))
        (bnd (reads transmit_pos) (\<lambda>tpos'. let tmax' = x - tpos' in thn (move_tx 0 tpos' tmax')
          (thn (modify (\<lambda>m. m\<lparr>transmit_pos := 0\<rparr>)) (thn (modify (\<lambda>m. m\<lparr>transmit_max := tmax'\<rparr>))
          (ret (Some tmax')))))))) (txs m b p1 x s1) = Ok (Some (x - p3)) (txs m b' 0 (x - p3) s3)"
      by (simp add: t3(1) tx_irqs_done move_tx_def mv Let_def)
    have r: "console_sendf k sid ce args m =
        (if x + enc_max_size ce > TX_BUFFER_SIZE then
           if x + enc_max_size ce - p > TX_BUFFER_SIZE then Ok () (txs m b p1 x s1)
           else ?tail (x - p3) (txs m b' 0 (x - p3) s3)
         else ?tail x (txs m b p1 x s1))"
      unfolding console_sendf_def
      by (subst id) (simp add: px t0(1) t1(1) cmp del: One_nat_def)
    have room: "(length (tx_pending m) + enc_max_size ce > TX_BUFFER_SIZE) = (x + enc_max_size ce - p > TX_BUFFER_SIZE)"
      using lp B(2) by auto
    consider "x + enc_max_size ce \<le> TX_BUFFER_SIZE" | "x + enc_max_size ce - p > TX_BUFFER_SIZE"
      | "x + enc_max_size ce > TX_BUFFER_SIZE" "x + enc_max_size ce - p \<le> TX_BUFFER_SIZE" by linarith
    then show ?thesis
    proof cases
      case 1
      then have "console_sendf k sid ce args m = ?tail x (txs m b p1 x s1)" using r by simp
      then show ?thesis using tail [OF B(1) t1(3) 1, of s1] 1 t0(4) t1(4) unfolding room pend m by auto
    next
      case 2
      then have "console_sendf k sid ce args m = Ok () (txs m b p1 x s1)" using r by auto
      then show ?thesis
        using 2 t0(4) t1(3, 4) B unfolding room pend m by (simp add: tx_ok_def tx_pending_def drop_take)
    next
      case 3
      then have c: "console_sendf k sid ce args m = ?tail (x - p3) (txs m b' 0 (x - p3) s3)" using r by simp
      have "x - p3 + enc_max_size ce \<le> TX_BUFFER_SIZE" using 3(2) t0(2) t1(2) t3(2, 3) by linarith
      from tail [OF b'(1) _ this, of 0 s3] obtain m' where m': "?tail (x - p3) (txs m b' 0 (x - p3) s3) = Ok () m'"
        "tx_ok m'" "tx_sent m' @ tx_pending m' = s3 @ drop p3 (take x b) @ ?f"
        using b'(2) by auto
      have "s3 @ drop p3 (take x b) = s @ drop p (take x b)" using t0(4) t1(4) t3(4) by simp
      then have "tx_sent m' @ tx_pending m' = tx_sent m @ tx_pending m @ ?f"
        using m'(3) unfolding pend m by (metis append_assoc)
      moreover have "\<not> length (tx_pending m) + enc_max_size ce > TX_BUFFER_SIZE" using room 3(2) by simp
      ultimately show ?thesis unfolding c using m'(1, 2) by auto
    qed
  qed
qed

text \<open>A message of two bytes behind ninety of which the uart takes some.\<close>

definition sample_tx :: serial_state where
  "sample_tx = (serial_init sample_config sample_board)\<lparr>next_sequence := 0x10, transmit_pos := 20, transmit_max := 90\<rparr>"

definition sample_encoder :: command_encoder where
  "sample_encoder = \<lparr>enc_msg_id = 9, enc_max_size = 10, enc_params = [PT_byte]\<rparr>"

theorem console_sendf_appends_witness:
  "\<exists>m'. console_sendf (\<lambda>i. i) (\<lambda>_. 0) sample_encoder [Num 5] sample_tx = Ok () m' \<and>
    tx_sent m' @ tx_pending m' = replicate 70 0 @ command_add_frame 0x10 [9, 5]"
proof -
  have b: "transmit_buf sample_tx = replicate 96 0" "transmit_pos sample_tx = 20" "transmit_max sample_tx = 90"
    by (simp_all add: sample_tx_def serial_init_def tmcuart_state.defs serial_state.defs TX_BUFFER_SIZE_def)
  have s: "tx_sent sample_tx = []" "next_sequence sample_tx = 0x10"
    by (simp_all add: sample_tx_def serial_init_def tmcuart_state.defs serial_state.defs)
  have ok: "tx_ok sample_tx" "tx_pending sample_tx = replicate 70 0"
    by (simp_all add: tx_ok_def tx_pending_def b TX_BUFFER_SIZE_def)
  have enc: "command_encodef (\<lambda>_. 0) sample_encoder [Num 5] = ret [9, 5]"
    by (simp add: command_encodef_def sample_encoder_def int_param_def encode_int_def message_consts)
  from console_sendf_appends [OF ok(1) enc, of "\<lambda>i. i"] show ?thesis
    using ok s by (auto simp: sample_encoder_def TX_BUFFER_SIZE_def)
qed

end
