(* ===== verification/Firmware.thy ===== *)
theory Firmware
  imports Serial_Irq
begin

text \<open>
  The modules of the firmware put together: the table of commands with the formats they are
  declared with (\<^verbatim>\<open>DECL_COMMAND\<close>), the timer functions, tasks and shutdown functions
  (\<^verbatim>\<open>DECL_TASK\<close>, \<^verbatim>\<open>DECL_SHUTDOWN\<close>), and the main loop of \<^verbatim>\<open>sched.c\<close> around them.

  \<^item> The numbers of the commands and the order of tasks and shutdown functions are chosen when
    the firmware is built; they are arguments.
  \<^item> An interrupt is an argument at the places where the main loop waits for one.
\<close>

subsection \<open>Commands\<close>

datatype command_func =
    command_allocate_oids_f | command_get_config_f | command_finalize_config_f | command_get_clock_f | command_get_uptime_f | command_emergency_stop_f | command_clear_shutdown_f | command_identify_f
  | command_config_trsync_f | command_trsync_start_f | command_trsync_set_timeout_f | command_trsync_trigger_f
  | command_config_stepper_f | command_queue_step_f | command_set_next_step_dir_f | command_reset_step_clock_f | command_stepper_get_position_f | command_stepper_stop_on_trigger_f
  | command_config_endstop_f | command_endstop_home_f | command_endstop_query_state_f
  | command_config_analog_in_f | command_query_analog_in_f
  | command_config_buttons_f | command_buttons_add_f | command_buttons_query_f | command_buttons_ack_f
  | command_config_digital_out_f | command_set_digital_out_pwm_cycle_f | command_queue_digital_out_f | command_update_digital_out_f | command_set_digital_out_f
  | command_config_pwm_out_f | command_queue_pwm_out_f | command_set_pwm_out_f
  | command_config_counter_f | command_query_counter_f
  | command_config_tmcuart_f | command_tmcuart_send_f

text \<open>The parameters in the format string of each command.\<close>

primrec command_params :: "command_func \<Rightarrow> ptype list" where
  "command_params command_allocate_oids_f = [PT_byte]"
| "command_params command_get_config_f = []"
| "command_params command_finalize_config_f = [PT_uint32]"
| "command_params command_get_clock_f = []"
| "command_params command_get_uptime_f = []"
| "command_params command_emergency_stop_f = []"
| "command_params command_clear_shutdown_f = []"
| "command_params command_identify_f = [PT_uint32, PT_byte]"
| "command_params command_config_trsync_f = [PT_byte]"
| "command_params command_trsync_start_f = [PT_byte, PT_uint32, PT_uint32, PT_byte]"
| "command_params command_trsync_set_timeout_f = [PT_byte, PT_uint32]"
| "command_params command_trsync_trigger_f = [PT_byte, PT_byte]"
| "command_params command_config_stepper_f = [PT_byte, PT_byte, PT_byte, PT_byte, PT_uint32]"
| "command_params command_queue_step_f = [PT_byte, PT_uint32, PT_uint16, PT_int16]"
| "command_params command_set_next_step_dir_f = [PT_byte, PT_byte]"
| "command_params command_reset_step_clock_f = [PT_byte, PT_uint32]"
| "command_params command_stepper_get_position_f = [PT_byte]"
| "command_params command_stepper_stop_on_trigger_f = [PT_byte, PT_byte]"
| "command_params command_config_endstop_f = [PT_byte, PT_byte, PT_byte]"
| "command_params command_endstop_home_f = [PT_byte, PT_uint32, PT_uint32, PT_byte, PT_uint32, PT_byte, PT_byte, PT_byte]"
| "command_params command_endstop_query_state_f = [PT_byte]"
| "command_params command_config_analog_in_f = [PT_byte, PT_uint32]"
| "command_params command_query_analog_in_f = [PT_byte, PT_uint32, PT_uint32, PT_byte, PT_uint32, PT_uint16, PT_uint16, PT_byte]"
| "command_params command_config_buttons_f = [PT_byte, PT_byte]"
| "command_params command_buttons_add_f = [PT_byte, PT_byte, PT_uint32, PT_byte]"
| "command_params command_buttons_query_f = [PT_byte, PT_uint32, PT_uint32, PT_byte, PT_byte]"
| "command_params command_buttons_ack_f = [PT_byte, PT_byte]"
| "command_params command_config_digital_out_f = [PT_byte, PT_uint32, PT_byte, PT_byte, PT_uint32]"
| "command_params command_set_digital_out_pwm_cycle_f = [PT_byte, PT_uint32]"
| "command_params command_queue_digital_out_f = [PT_byte, PT_uint32, PT_uint32]"
| "command_params command_update_digital_out_f = [PT_byte, PT_byte]"
| "command_params command_set_digital_out_f = [PT_uint32, PT_byte]"
| "command_params command_config_pwm_out_f = [PT_byte, PT_uint32, PT_uint32, PT_uint16, PT_uint16, PT_uint32]"
| "command_params command_queue_pwm_out_f = [PT_byte, PT_uint32, PT_uint16]"
| "command_params command_set_pwm_out_f = [PT_uint32, PT_uint32, PT_uint16]"
| "command_params command_config_counter_f = [PT_byte, PT_uint32, PT_byte]"
| "command_params command_query_counter_f = [PT_byte, PT_uint32, PT_uint32, PT_uint32]"
| "command_params command_config_tmcuart_f = [PT_byte, PT_uint32, PT_byte, PT_uint32, PT_uint32]"
| "command_params command_tmcuart_send_f = [PT_byte, PT_buffer, PT_byte]"

definition HF_IN_SHUTDOWN :: "command_func list" where
  "HF_IN_SHUTDOWN = [command_get_config_f, command_get_clock_f, command_get_uptime_f, command_emergency_stop_f, command_clear_shutdown_f, command_identify_f]"

primrec run_command :: "command_func \<Rightarrow> u32 list \<Rightarrow> ('e, unit) sefw" where
  "run_command command_allocate_oids_f = command_allocate_oids"
| "run_command command_get_config_f = command_get_config"
| "run_command command_finalize_config_f = command_finalize_config"
| "run_command command_get_clock_f = command_get_clock"
| "run_command command_get_uptime_f = command_get_uptime"
| "run_command command_emergency_stop_f = command_emergency_stop"
| "run_command command_clear_shutdown_f = command_clear_shutdown"
| "run_command command_identify_f = command_identify"
| "run_command command_config_trsync_f = command_config_trsync"
| "run_command command_trsync_start_f = command_trsync_start"
| "run_command command_trsync_set_timeout_f = command_trsync_set_timeout"
| "run_command command_trsync_trigger_f = command_trsync_trigger stepper_signal"
| "run_command command_config_stepper_f = command_config_stepper"
| "run_command command_queue_step_f = command_queue_step"
| "run_command command_set_next_step_dir_f = command_set_next_step_dir"
| "run_command command_reset_step_clock_f = command_reset_step_clock"
| "run_command command_stepper_get_position_f = command_stepper_get_position"
| "run_command command_stepper_stop_on_trigger_f = command_stepper_stop_on_trigger"
| "run_command command_config_endstop_f = command_config_endstop"
| "run_command command_endstop_home_f = command_endstop_home"
| "run_command command_endstop_query_state_f = command_endstop_query_state"
| "run_command command_config_analog_in_f = command_config_analog_in"
| "run_command command_query_analog_in_f = command_query_analog_in"
| "run_command command_config_buttons_f = command_config_buttons"
| "run_command command_buttons_add_f = command_buttons_add"
| "run_command command_buttons_query_f = command_buttons_query"
| "run_command command_buttons_ack_f = command_buttons_ack"
| "run_command command_config_digital_out_f = command_config_digital_out"
| "run_command command_set_digital_out_pwm_cycle_f = command_set_digital_out_pwm_cycle"
| "run_command command_queue_digital_out_f = command_queue_digital_out"
| "run_command command_update_digital_out_f = command_update_digital_out"
| "run_command command_set_digital_out_f = command_set_digital_out"
| "run_command command_config_pwm_out_f = command_config_pwm_out"
| "run_command command_queue_pwm_out_f = command_queue_pwm_out"
| "run_command command_set_pwm_out_f = command_set_pwm_out"
| "run_command command_config_counter_f = command_config_counter"
| "run_command command_query_counter_f = command_query_counter"
| "run_command command_config_tmcuart_f = command_config_tmcuart"
| "run_command command_tmcuart_send_f = command_tmcuart_send"

text \<open>A buffer takes two arguments, its length and its place in the block.\<close>

definition num_args :: "ptype list \<Rightarrow> nat" where
  "num_args ts = sum_list (map (\<lambda>t. if t = PT_buffer then 2 else 1) ts)"

definition parser_of :: "command_func \<Rightarrow> command_func command_parser" where
  "parser_of f = \<lparr>cp_num_args = num_args (command_params f), cp_in_shutdown = f \<in> set HF_IN_SHUTDOWN,
     cp_params = command_params f, cp_func = f\<rparr>"

subsection \<open>Timers\<close>

text \<open>\<^verbatim>\<open>container_of\<close>: the object a timer is part of.\<close>

definition of_object :: "tref \<Rightarrow> (u8 \<Rightarrow> ('e, sf) sefw) \<Rightarrow> ('e, sf) sefw" where
  "of_object t f = (case t of ObjTimer i \<Rightarrow> f i | ObjTimer2 i \<Rightarrow> f i | _ \<Rightarrow> undef)"

text \<open>The sensors on an SPI bus are not part of this build.\<close>

primrec timer_func :: "tfunc \<Rightarrow> tref \<Rightarrow> ('e, sf) sefw" where
  "timer_func periodic_event_f t = periodic_event"
| "timer_func sentinel_event_f t = sentinel_event"
| "timer_func deleted_event_f t = deleted_event"
| "timer_func stepper_event_full_f t = of_object t stepper_event_full"
| "timer_func trsync_report_event_f t = of_object t trsync_report_event"
| "timer_func trsync_expire_event_f t = of_object t (trsync_expire_event stepper_signal)"
| "timer_func endstop_event_f t = of_object t endstop_event"
| "timer_func endstop_oversample_event_f t = of_object t endstop_oversample_event"
| "timer_func analog_in_event_f t = of_object t analog_in_event"
| "timer_func buttons_event_f t = of_object t buttons_event"
| "timer_func digital_toggle_event_f t = of_object t digital_toggle_event"
| "timer_func digital_load_event_f t = of_object t digital_load_event"
| "timer_func pwm_event_f t = of_object t pwm_event"
| "timer_func pwm_end_event_f t = of_object t pwm_end_event"
| "timer_func counter_event_f t = of_object t counter_event"
| "timer_func tmcuart_read_event_f t = of_object t tmcuart_read_event"
| "timer_func tmcuart_read_sync_event_f t = of_object t tmcuart_read_sync_event"
| "timer_func tmcuart_send_finish_event_f t = of_object t tmcuart_send_finish_event"
| "timer_func tmcuart_send_event_f t = of_object t tmcuart_send_event"
| "timer_func tmcuart_send_sync_event_f t = of_object t tmcuart_send_sync_event"
| "timer_func thermocouple_event_f t = undef"
| "timer_func adxl345_event_f t = undef"

definition timer_irq :: "nat \<Rightarrow> nat \<Rightarrow> ('e, u32) sefw" where
  "timer_irq wfuel fuel = timer_dispatch_many timer_func (\<lambda>t. of_object t stepper_event) wfuel fuel"

subsection \<open>Tasks\<close>

datatype task_func =
    timer_task_f | trsync_task_f | analog_in_task_f | buttons_task_f | counter_task_f | tmcuart_task_f | console_task_f

text \<open>\<open>arr\<close> holds the bytes that arrive while the console task runs.\<close>

primrec run_task ::
  "command_func command_parser list \<Rightarrow> ('e, unit) sefw option \<Rightarrow> u8 list list \<Rightarrow> task_func \<Rightarrow> ('e, unit) sefw" where
  "run_task index boot arr timer_task_f = timer_task"
| "run_task index boot arr trsync_task_f = trsync_task"
| "run_task index boot arr analog_in_task_f = analog_in_task"
| "run_task index boot arr buttons_task_f = buttons_task"
| "run_task index boot arr counter_task_f = counter_task"
| "run_task index boot arr tmcuart_task_f = tmcuart_task"
| "run_task index boot arr console_task_f = console_task run_command index boot arr"

text \<open>The processor sleeps until an interrupt has requested the tasks; without one it sleeps on.\<close>

primrec idle_loop :: "('e, unit) mfw list \<Rightarrow> ('e, unit) mfw" where
  "idle_loop [] = undef"
| "idle_loop (irq # irqs) =
     thn irq (bnd (reads tasks_status) (\<lambda>st. if st \<noteq> TS_REQUESTED then idle_loop irqs else ret ()))"

text \<open>One round of the loop of \<^verbatim>\<open>run_tasks\<close>.\<close>

definition run_tasks_round :: "('e, unit) bfw list \<Rightarrow> ('e, unit) bfw list \<Rightarrow> u32 \<Rightarrow> ('e, u32) bfw" where
  "run_tasks_round irqs tasks start =
     thn irq_poll
     (bnd (reads tasks_status) (\<lambda>st.
     bnd (if st \<noteq> TS_REQUESTED then
            bnd timer_read_time (\<lambda>t1.
            thn irq_disable
            (bnd (reads tasks_status) (\<lambda>st'.
            thn (whenM (st' \<noteq> TS_REQUESTED)
                   (thn (modify (\<lambda>m. m\<lparr>tasks_status := TS_IDLE\<rparr>)) (idle_loop irqs)))
            (thn irq_enable
            (bnd timer_read_time (\<lambda>t2. ret (start - t1 + t2)))))))
          else ret start) (\<lambda>start'.
     thn (modify (\<lambda>m. m\<lparr>tasks_status := TS_RUNNING\<rparr>))
     (thn (seqM tasks)
     (bnd timer_read_time (\<lambda>cur.
     thn (stats_update start' cur) (ret cur)))))))"

subsection \<open>Shutdown and the main loop\<close>

datatype shutdown_func =
    move_reset_f | sendf_shutdown_f | trsync_shutdown_f | stepper_shutdown_f | analog_in_shutdown_f
  | digital_out_shutdown_f | pwm_shutdown_f | tmcuart_shutdown_f

primrec run_shutdown_func :: "shutdown_func \<Rightarrow> ('e, unit) sefw" where
  "run_shutdown_func move_reset_f = move_reset"
| "run_shutdown_func sendf_shutdown_f = sendf_shutdown"
| "run_shutdown_func trsync_shutdown_f = trsync_shutdown"
| "run_shutdown_func stepper_shutdown_f = stepper_shutdown"
| "run_shutdown_func analog_in_shutdown_f = analog_in_shutdown"
| "run_shutdown_func digital_out_shutdown_f = digital_out_shutdown"
| "run_shutdown_func pwm_shutdown_f = pwm_shutdown"
| "run_shutdown_func tmcuart_shutdown_f = tmcuart_shutdown"

text \<open>
  \<^verbatim>\<open>sched_shutdown\<close> jumps back to \<^verbatim>\<open>sched_main\<close>, which runs the shutdown functions; one of them may
  itself shut down and start them again.  After \<open>n\<close> such starts the model gives up.
\<close>

primrec recover :: "nat \<Rightarrow> ('e, unit) mfw list \<Rightarrow> string \<Rightarrow> ('e, unit) mfw" where
  "recover 0 funcs reason = undef"
| "recover (Suc n) funcs reason = (\<lambda>m. case run_shutdown funcs reason m of
     Shutdown reason' m' \<Rightarrow> recover n funcs reason' m'
   | r \<Rightarrow> r)"

text \<open>
  The rounds of the main loop, each with the interrupts it waits for and its tasks.  A shutdown in
  a round starts the loop of \<^verbatim>\<open>run_tasks\<close> again once the machine has recovered.
\<close>

primrec main_loop :: "nat \<Rightarrow> ('e, unit) bfw list \<Rightarrow> (('e, unit) bfw list \<times> ('e, unit) bfw list) list
    \<Rightarrow> u32 \<Rightarrow> ('e, unit) bfw" where
  "main_loop n funcs [] start = ret ()"
| "main_loop n funcs (r # rs) start = (\<lambda>m. case run_tasks_round (fst r) (snd r) start m of
     Ok start' m' \<Rightarrow> main_loop n funcs rs start' m'
   | Shutdown reason m' \<Rightarrow>
       thn (recover n funcs reason) (thn irq_enable (bnd timer_read_time (main_loop n funcs rs))) m'
   | Undef \<Rightarrow> Undef)"

text \<open>
  \<^verbatim>\<open>sched_main\<close>.  Before \<^verbatim>\<open>setjmp\<close> there is no place to jump to, so a shutdown in one of the
  init functions is undefined.
\<close>

definition sched_main :: "('e, unit) bfw list \<Rightarrow> nat \<Rightarrow> ('e, unit) bfw list
    \<Rightarrow> (('e, unit) bfw list \<times> ('e, unit) bfw list) list \<Rightarrow> ('e, unit) bfw" where
  "sched_main inits n funcs rounds = (\<lambda>m.
     case thn (seqM inits) (thn (command_sendf ''starting'' []) irq_disable) m of
       Ok _ m' \<Rightarrow> thn irq_enable (bnd timer_read_time (main_loop n funcs rounds)) m'
     | _ \<Rightarrow> Undef)"

text \<open>\<^verbatim>\<open>initial_pins.c\<close>: \<open>pins\<close> is the table generated by the build, with the level of each pin.\<close>

definition initial_pins_setup :: "(u32 \<times> bool) list \<Rightarrow> ('e, unit) mfw" where
  "initial_pins_setup pins = seqM (map (\<lambda>p. thn (gpio_out_setup (fst p) (snd p)) (ret ())) pins)"

end
