(* ===== verification/Fw_Commands.thy ===== *)
theory Fw_Commands
  imports Firmware
begin

text \<open>
  The table of commands: the arguments the parser supplies are those the command functions read,
  and a function without \<^verbatim>\<open>HF_IN_SHUTDOWN\<close> is never called in the shutdown state.
\<close>

subsection \<open>What the parser supplies\<close>

lemma num_args_simps [simp]:
  "num_args [] = 0" "num_args (t # ts) = (if t = PT_buffer then 2 else 1) + num_args ts"
  by (simp_all add: num_args_def)

lemma parsef_loop_length:
  "parsef_loop buf maxend ts p args m = Ok (args', p') m' \<Longrightarrow>
     length args' = length args + num_args ts \<and> m' = m"
proof (induction ts arbitrary: p args)
  case (Cons t ts)
  then show ?case
    by (cases t) (auto simp: int_param_def sched_shutdown_def thn_app Let_def dest!: Cons.IH split: if_splits option.splits)
qed simp

lemma parser_of_sel [simp]:
  "cp_params (parser_of f) = command_params f" "cp_func (parser_of f) = f"
  "cp_in_shutdown (parser_of f) \<longleftrightarrow> f \<in> set HF_IN_SHUTDOWN"
  by (simp_all add: parser_of_def)

text \<open>A command function called the way its declaration promises.\<close>

definition declared_call :: "command_func \<Rightarrow> u32 list \<Rightarrow> 'e machine_scheme \<Rightarrow> bool" where
  "declared_call f args m \<longleftrightarrow>
     length args = num_args (command_params f) \<and> (sched_is_shutdown m \<longrightarrow> f \<in> set HF_IN_SHUTDOWN)"

definition only_declared ::
  "(command_func \<Rightarrow> u32 list \<Rightarrow> ('e, unit) mfw) \<Rightarrow> command_func \<Rightarrow> u32 list \<Rightarrow> ('e, unit) mfw" where
  "only_declared run f args = (\<lambda>m. if declared_call f args m then run f args m else Undef)"

lemma dispatch_loop_declared:
  "dispatch_loop run (map parser_of fs) buf msgend n p m =
     dispatch_loop (only_declared run) (map parser_of fs) buf msgend n p m"
proof (induction n arbitrary: p m)
  case (Suc n)
  show ?case
  proof (cases "p < msgend \<and> p < length buf \<and> buf ! p \<noteq> 0 \<and> unat (buf ! p) < length fs")
    case True
    let ?f = "fs ! unat (buf ! p)"
    have lk: "command_lookup_parser (map parser_of fs) (buf ! p) m = Ok (parser_of ?f) m"
      using True by (simp add: command_lookup_parser_def)
    show ?thesis
    proof (cases "command_parsef buf (p + 1) msgend (parser_of ?f) m")
      case (Ok r m')
      then have len: "length (fst r) = num_args (command_params ?f)" and m': "m' = m"
        using parsef_loop_length [of buf msgend "command_params ?f" "p + 1" "[]" m "fst r" "snd r" m']
        by (simp_all add: command_parsef_def)
      show ?thesis
      proof (cases "sched_is_shutdown m \<and> ?f \<notin> set HF_IN_SHUTDOWN")
        case True': True
        then show ?thesis
          using True lk Ok m' Suc.IH by (simp add: bnd_app thn_app split: res.split)
      next
        case False
        then have "only_declared run ?f (fst r) m = run ?f (fst r) m"
          using len by (auto simp: only_declared_def declared_call_def)
        then show ?thesis
          using True lk Ok m' Suc.IH False
          by (cases "sched_is_shutdown m") (simp_all add: bnd_app thn_app irq_poll_def split: res.split)
      qed
    qed (use True lk in \<open>simp_all add: bnd_app\<close>)
  next
    case False
    then show ?thesis by (auto simp: bnd_app thn_app command_lookup_parser_def sched_shutdown_def)
  qed
qed simp

subsection \<open>What the functions read\<close>

lemma nth_args:
  "(a # as) ! 0 = a" "(a # as) ! 1 = as ! 0" "(a # as) ! 2 = as ! 1" "(a # as) ! 3 = as ! 2"
  "(a # as) ! 4 = as ! 3" "(a # as) ! 5 = as ! 4" "(a # as) ! 6 = as ! 5" "(a # as) ! 7 = as ! 6"
  by simp_all

lemma basecmd_args:
  "command_allocate_oids (a0 # j # junk) = command_allocate_oids [a0]"
  "command_finalize_config (a0 # j # junk) = command_finalize_config [a0]"
  "command_identify (a0 # a1 # j # junk) = command_identify [a0, a1]"
  unfolding command_allocate_oids_def command_finalize_config_def command_identify_def nth_args
  by (rule refl)+

lemma trsync_args:
  "command_config_trsync (a0 # j # junk) = command_config_trsync [a0]"
  "command_trsync_start (a0 # a1 # a2 # a3 # j # junk) = command_trsync_start [a0, a1, a2, a3]"
  "command_trsync_set_timeout (a0 # a1 # j # junk) = command_trsync_set_timeout [a0, a1]"
  "command_trsync_trigger stepper_signal (a0 # a1 # j # junk) = command_trsync_trigger stepper_signal [a0, a1]"
  unfolding command_config_trsync_def command_trsync_start_def command_trsync_set_timeout_def
    command_trsync_trigger_def nth_args
  by (rule refl)+

lemma stepper_args:
  "command_config_stepper (a0 # a1 # a2 # a3 # a4 # j # junk) = command_config_stepper [a0, a1, a2, a3, a4]"
  "command_queue_step (a0 # a1 # a2 # a3 # j # junk) = command_queue_step [a0, a1, a2, a3]"
  "command_set_next_step_dir (a0 # a1 # j # junk) = command_set_next_step_dir [a0, a1]"
  "command_reset_step_clock (a0 # a1 # j # junk) = command_reset_step_clock [a0, a1]"
  "command_stepper_get_position (a0 # j # junk) = command_stepper_get_position [a0]"
  "command_stepper_stop_on_trigger (a0 # a1 # j # junk) = command_stepper_stop_on_trigger [a0, a1]"
  unfolding command_config_stepper_def command_queue_step_def command_set_next_step_dir_def
    command_reset_step_clock_def command_stepper_get_position_def command_stepper_stop_on_trigger_def nth_args
  by (rule refl)+

lemma endstop_args:
  "command_config_endstop (a0 # a1 # a2 # j # junk) = command_config_endstop [a0, a1, a2]"
  "command_endstop_home (a0 # a1 # a2 # a3 # a4 # a5 # a6 # a7 # j # junk) = command_endstop_home [a0, a1, a2, a3, a4, a5, a6, a7]"
  "command_endstop_query_state (a0 # j # junk) = command_endstop_query_state [a0]"
  unfolding command_config_endstop_def command_endstop_home_def command_endstop_query_state_def nth_args
  by (rule refl)+

lemma adccmds_args:
  "command_config_analog_in (a0 # a1 # j # junk) = command_config_analog_in [a0, a1]"
  "command_query_analog_in (a0 # a1 # a2 # a3 # a4 # a5 # a6 # a7 # j # junk) = command_query_analog_in [a0, a1, a2, a3, a4, a5, a6, a7]"
  unfolding command_config_analog_in_def command_query_analog_in_def nth_args
  by (rule refl)+

lemma buttons_args:
  "command_config_buttons (a0 # a1 # j # junk) = command_config_buttons [a0, a1]"
  "command_buttons_add (a0 # a1 # a2 # a3 # j # junk) = command_buttons_add [a0, a1, a2, a3]"
  "command_buttons_query (a0 # a1 # a2 # a3 # a4 # j # junk) = command_buttons_query [a0, a1, a2, a3, a4]"
  "command_buttons_ack (a0 # a1 # j # junk) = command_buttons_ack [a0, a1]"
  unfolding command_config_buttons_def command_buttons_add_def command_buttons_query_def
    command_buttons_ack_def nth_args
  by (rule refl)+

lemma gpiocmds_args:
  "command_config_digital_out (a0 # a1 # a2 # a3 # a4 # j # junk) = command_config_digital_out [a0, a1, a2, a3, a4]"
  "command_set_digital_out_pwm_cycle (a0 # a1 # j # junk) = command_set_digital_out_pwm_cycle [a0, a1]"
  "command_queue_digital_out (a0 # a1 # a2 # j # junk) = command_queue_digital_out [a0, a1, a2]"
  "command_update_digital_out (a0 # a1 # j # junk) = command_update_digital_out [a0, a1]"
  "command_set_digital_out (a0 # a1 # j # junk) = command_set_digital_out [a0, a1]"
  unfolding command_config_digital_out_def command_set_digital_out_pwm_cycle_def command_queue_digital_out_def
    command_update_digital_out_def command_set_digital_out_def nth_args
  by (rule refl)+

lemma pwmcmds_args:
  "command_config_pwm_out (a0 # a1 # a2 # a3 # a4 # a5 # j # junk) = command_config_pwm_out [a0, a1, a2, a3, a4, a5]"
  "command_queue_pwm_out (a0 # a1 # a2 # j # junk) = command_queue_pwm_out [a0, a1, a2]"
  "command_set_pwm_out (a0 # a1 # a2 # j # junk) = command_set_pwm_out [a0, a1, a2]"
  unfolding command_config_pwm_out_def command_queue_pwm_out_def command_set_pwm_out_def nth_args
  by (rule refl)+

lemma pulse_counter_args:
  "command_config_counter (a0 # a1 # a2 # j # junk) = command_config_counter [a0, a1, a2]"
  "command_query_counter (a0 # a1 # a2 # a3 # j # junk) = command_query_counter [a0, a1, a2, a3]"
  unfolding command_config_counter_def command_query_counter_def nth_args
  by (rule refl)+

lemma tmcuart_args:
  "command_config_tmcuart (a0 # a1 # a2 # a3 # a4 # j # junk) = command_config_tmcuart [a0, a1, a2, a3, a4]"
  "command_tmcuart_send (a0 # a1 # a2 # a3 # j # junk) = command_tmcuart_send [a0, a1, a2, a3]"
  unfolding command_config_tmcuart_def command_tmcuart_send_def nth_args
  by (rule refl)+

lemmas command_args = basecmd_args trsync_args stepper_args endstop_args adccmds_args buttons_args
    gpiocmds_args pwmcmds_args pulse_counter_args tmcuart_args

lemmas no_args = command_get_config_def command_get_clock_def command_get_uptime_def
  command_emergency_stop_def command_clear_shutdown_def

lemma args_cases:
  "length args = 0 \<longleftrightarrow> args = []"
  "length args = Suc n \<longleftrightarrow> (\<exists>a as. args = a # as \<and> length as = n)"
  by (auto simp: length_Suc_conv)

subsection \<open>Properties\<close>

text \<open>
  C31: the arguments of every command suffice.  A command function given as many arguments as the
  parameters of its format make (two for a buffer, one for a number) reads none beyond them: what
  is stored behind them in the argument array has no influence.
\<close>

theorem command_reads_declared_args:
  assumes "length args = num_args (command_params f)"
  shows "(run_command f (args @ junk) :: ('e, unit) sefw) = run_command f args"
proof (cases junk)
  case (Cons j js)
  then show ?thesis
    using assms
    by (cases f)
      (auto simp only: refl run_command.simps command_params.simps num_args_simps ptype.distinct if_True if_False
        add_Suc add_0 One_nat_def numeral_2_eq_2 args_cases append.simps command_args no_args)
qed simp

theorem command_reads_declared_args_witness:
  "(run_command command_tmcuart_send_f [1, 2, 7, 3, 99] :: (unit, unit) sefw) =
     run_command command_tmcuart_send_f [1, 2, 7, 3]"
  using command_reads_declared_args [of "[1, 2, 7, 3]" command_tmcuart_send_f "[99]"] by simp

text \<open>
  C30: a command function is only ever called as declared.  Whatever bytes a block holds, whatever
  commands the table has and whatever the functions do, \<^verbatim>\<open>command_dispatch\<close> calls a function with
  exactly the number of arguments of its declaration, and while the machine is shut down only
  those declared with \<^verbatim>\<open>HF_IN_SHUTDOWN\<close>: replacing every other call by undefined behaviour
  changes nothing.
\<close>

theorem command_dispatch_only_declared:
  "command_dispatch run (map parser_of fs) buf msglen =
     command_dispatch (only_declared run) (map parser_of fs) buf msglen"
  unfolding command_dispatch_def by (rule ext) (rule dispatch_loop_declared)

end
