(* ===== verification/Recovery.thy ===== *)
theory Recovery
  imports Firmware Homing Oids Outputs
begin

text \<open>
  What a shutdown does to the machine: the shutdown functions of all modules, in whatever order
  they are linked, run to their end and leave every motor stopped and every output at its default.
\<close>

subsection \<open>Loops over objects with an invariant\<close>

text \<open>No entry of the table was left half made.\<close>

definition table_ok :: "'e basecmd_state_scheme \<Rightarrow> bool" where
  "table_ok m \<longleftrightarrow> (case oids m of None \<Rightarrow> oid_count m = 0
     | Some t \<Rightarrow> \<forall>i < unat (oid_count m). otyp (t (of_nat i)) \<noteq> None \<longrightarrow> odata (t (of_nat i)) \<noteq> None)"

lemma objs_cong: "oids m' = oids m \<Longrightarrow> oid_count m' = oid_count m \<Longrightarrow> objs m' ty k = objs m ty k"
  by (simp only: objs_def)

lemma objs_bound:
  assumes "oids m = Some t" and "x \<in> set (objs m ty k)"
  shows "k \<le> unat x" and "unat x < unat (oid_count m)" and "otyp (t x) = Some ty"
proof -
  show "otyp (t x) = Some ty" using assms by (simp add: objs_def)
  obtain j where "x = of_nat j" "k \<le> j" "j < unat (oid_count m)"
    using assms by (auto simp: objs_def)
  then show "k \<le> unat x" "unat x < unat (oid_count m)" using u8_index(2) [of j "oid_count m"] by simp_all
qed

lemma foreach_loop_inv:
  fixes body :: "u8 \<Rightarrow> ('e, unit) bfw"
  assumes tab: "oids m0 = Some t" "table_ok m0"
    and I: "\<And>V m. I V m \<Longrightarrow> oids m = oids m0 \<and> oid_count m = oid_count m0"
    and step: "\<And>V i m. I V m \<Longrightarrow> i \<in> set (objs m0 ty 0) \<Longrightarrow> i \<notin> V \<Longrightarrow> \<exists>m'. body i m = Ok () m' \<and> I (insert i V) m'"
  shows "k \<le> unat (oid_count m0) \<Longrightarrow> unat (oid_count m0) - k < n \<Longrightarrow> I V m \<Longrightarrow> V \<inter> set (objs m0 ty k) = {} \<Longrightarrow>
    set (objs m0 ty k) \<subseteq> set (objs m0 ty 0) \<Longrightarrow>
    \<exists>m'. foreach_oid_loop n (of_nat k - 1) ty body m = Ok () m' \<and> I (V \<union> set (objs m0 ty k)) m'"
proof (induction n arbitrary: k V m)
  case (Suc n)
  let ?c = "unat (oid_count m0)"
  have same: "oids m = Some t" "oid_count m = oid_count m0" using I [OF Suc.prems(3)] tab by auto
  have "?c < 2 ^ 8" using unat_u8_bound [of "oid_count m0"] by simp
  then have nx: "oid_next 256 (of_nat k - 1) ty m =
      Ok (map_option (\<lambda>i. (of_nat i, odata (t (of_nat i)))) (first_obj t ty k ?c)) m"
    using Suc.prems same oid_next_spec [OF same(1), of k 256 ty] by simp
  note first = first_obj_objs [OF tab(1) Suc.prems(1), where ty = ty]
  show ?case
  proof (cases "first_obj t ty k ?c")
    case None
    then show ?thesis using nx first(1) Suc.prems(3) by simp
  next
    case (Some i)
    have i: "i < ?c" "k \<le> i" using first(2) [OF Some] by auto
    have ob: "objs m0 ty k = of_nat i # objs m0 ty (Suc i)" using first(1) Some by simp
    have u: "unat (of_nat i :: u8) = i" using u8_index(2) [of i "oid_count m0"] i by simp
    have "otyp (t (of_nat i)) = Some ty" using objs_bound(3) [OF tab(1)] ob by (metis list.set_intros(1))
    then have d: "odata (t (of_nat i)) \<noteq> None" using tab i by (simp add: table_ok_def)
    obtain m' where b: "body (of_nat i) m = Ok () m'" and m': "I (insert (of_nat i) V) m'"
      using step [OF Suc.prems(3), of "of_nat i"] Suc.prems(4,5) ob by auto
    have "(of_nat i :: u8) \<notin> set (objs m0 ty (Suc i))" using objs_bound(1) [OF tab(1)] u by fastforce
    moreover have "?c - Suc i < n" using Suc.prems(2) i by linarith
    ultimately obtain m'' where "foreach_oid_loop n (of_nat (Suc i) - 1) ty body m' = Ok () m''"
        "I (insert (of_nat i) V \<union> set (objs m0 ty (Suc i))) m''"
      using Suc.IH [OF _ _ m', of "Suc i"] Suc.prems i ob by auto
    then show ?thesis using nx Some d b ob by (auto simp: bnd_app thn_app)
  qed
qed simp

lemma foreach_oid_inv:
  fixes body :: "u8 \<Rightarrow> ('e, unit) bfw"
  assumes tab: "table_ok m0"
    and I: "\<And>V m. I V m \<Longrightarrow> oids m = oids m0 \<and> oid_count m = oid_count m0"
    and step: "\<And>V i m. I V m \<Longrightarrow> i \<in> set (objs m0 ty 0) \<Longrightarrow> i \<notin> V \<Longrightarrow> \<exists>m'. body i m = Ok () m' \<and> I (insert i V) m'"
    and m: "I {} m"
  shows "\<exists>m'. foreach_oid ty body m = Ok () m' \<and> I (set (objs m0 ty 0)) m'"
proof (cases "oids m0")
  case None
  then show ?thesis using foreach_oid_none [of m] I [OF m] m tab by (auto simp: table_ok_def objs_def)
next
  case (Some t)
  have "unat (oid_count m0) < 2 ^ 8" using unat_u8_bound [of "oid_count m0"] by simp
  then show ?thesis
    using foreach_loop_inv [where I = I and body = body and V = "{}" and m = m and k = 0 and n = 256, OF Some tab I step] m
    by (simp add: foreach_oid_def)
qed

subsection \<open>Clearing signals\<close>

definition signal_links :: "(u8 \<Rightarrow> trsync_signal) \<Rightarrow> (u8 \<times> u8) set" where
  "signal_links S = {(x, y). sig_next (S x) = Some y}"

definition links_behind :: "(u8 \<times> u8) set \<Rightarrow> u8 \<Rightarrow> nat" where
  "links_behind r x = card (r\<^sup>+ `` {x})"

lemma links_behind_less:
  assumes "acyclic r" and "(x, y) \<in> r"
  shows "links_behind r y < links_behind r x"
proof -
  have "r\<^sup>+ `` {y} \<subset> r\<^sup>+ `` {x}"
    using assms by (auto simp: acyclic_def intro: trancl_into_trancl2)
  then show ?thesis unfolding links_behind_def by (intro psubset_card_mono) simp_all
qed

lemma links_behind_bound:
  assumes "acyclic r"
  shows "links_behind r x < 256"
proof -
  have "r\<^sup>+ `` {x} \<subset> UNIV" using assms by (auto simp: acyclic_def)
  then have "links_behind r x < card (UNIV :: u8 set)" unfolding links_behind_def by (intro psubset_card_mono) simp_all
  then show ?thesis by (simp add: card_word)
qed

lemma clear_signals_runs:
  assumes r: "acyclic r"
  shows "signal_links (signals m) \<subseteq> r \<Longrightarrow> (\<And>x. s = Some x \<Longrightarrow> links_behind r x < n) \<Longrightarrow>
    \<exists>S. clear_signals n s m = Ok () (m\<lparr>signals := S\<rparr>) \<and> signal_links S \<subseteq> signal_links (signals m)"
proof (induction n arbitrary: s m)
  case 0
  then have "s = None" by (cases s) auto
  then show ?case by (intro exI [of _ "signals m"]) simp
next
  case (Suc n)
  show ?case
  proof (cases s)
    case None
    then show ?thesis by (intro exI [of _ "signals m"]) simp
  next
    case (Some x)
    let ?m = "m\<lparr>signals := (signals m)(x := (signals m x)\<lparr>sig_func := None, sig_next := None\<rparr>)\<rparr>"
    have sub: "signal_links (signals ?m) \<subseteq> signal_links (signals m)" by (auto simp: signal_links_def split: if_splits)
    have "links_behind r y < n" if "sig_next (signals m x) = Some y" for y
    proof -
      have "(x, y) \<in> r" using that Suc.prems(1) by (auto simp: signal_links_def)
      from links_behind_less [OF r this] show ?thesis using Suc.prems(2) [OF Some] by linarith
    qed
    then obtain S where "clear_signals n (sig_next (signals m x)) ?m = Ok () (?m\<lparr>signals := S\<rparr>)"
        "signal_links S \<subseteq> signal_links (signals ?m)"
      using Suc.IH [of ?m "sig_next (signals m x)"] sub Suc.prems(1) by blast
    moreover from this(1) have "clear_signals (Suc n) s m = Ok () (m\<lparr>signals := S\<rparr>)"
      using Some by (simp add: upd_signal_def bnd_app thn_app)
    ultimately show ?thesis using sub by (intro exI [of _ S]) (meson subset_trans)
  qed
qed

subsection \<open>Timers during a shutdown\<close>

lemma sched_del_timer_absent:
  assumes sl: "sched_list m xs" and t: "t \<notin> set xs" "t \<noteq> SentinelTimer"
  shows "sched_del_timer t m = Ok () m"
proof -
  obtain x ys where xs: "xs = x # ys" using sl by (cases xs) (auto simp: sched_list_def)
  have S: "chain (timers m) (x # ys @ [SentinelTimer])" "distinct (xs @ [SentinelTimer])" "timer_list m = x" "last_insert m \<in> set xs"
    using sl by (simp_all add: sched_list_def xs)
  have "del_timer_loop TIMER_MAX (timers m) x t = Some None"
    using del_timer_loop_absent [OF S(1), of TIMER_MAX t] distinct_timers_length [OF S(2)] t by (simp add: xs)
  moreover have "forget_hint t m = m" using S(4) t by (auto simp: forget_hint_def)
  ultimately show ?thesis using sched_del_timer_loop [of m t] S(3) t xs by auto
qed

lemma sched_add_timer_shut:
  assumes sl: "sched_list m xs" and add: "add \<notin> set xs" "add \<notin> {DeletedTimer, SentinelTimer, PeriodicTimer}"
    and sd: "shutdown_status m \<noteq> 0"
  shows "\<exists>m' xs'. sched_add_timer add m = Ok () m' \<and> sched_list m' xs' \<and> set (live xs') = insert add (set (live xs)) \<and>
    (m' = m\<lparr>timers := timers m', timer_list := timer_list m', last_insert := last_insert m', ticks := ticks m', out := out m'\<rparr>) \<and>
    (out m' = out m \<or> out m' = out m @ [TimerKick])"
proof (cases "timer_is_before (waketime (timers m add)) (waketime (timers m (timer_list m)))")
  case True
  show ?thesis
    using sched_add_timer_safe [OF sl add] sched_add_timer_first [OF True] add(2) sd by (simp add: put_first_def set_timer_def) 
next
  case False
  then have "(\<exists>T. sched_add_timer add m = Ok () (m\<lparr>timers := T\<rparr>)) \<or> sched_add_timer add m = Undef"
    by (auto simp: sched_add_timer_def bnd_app thn_app insert_timer_def set_timer_def split: option.split prod.split)
  then show ?thesis using sched_add_timer_safe [OF sl add] by auto
qed

lemma sched_list_set_timer:
  assumes "\<And>x. tnext (f x) = tnext x" and "t \<noteq> PeriodicTimer" "t \<noteq> SentinelTimer"
  shows "sched_list (set_timer t f m) xs = sched_list m xs"
proof -
  have "chain (timers (set_timer t f m)) (xs @ [SentinelTimer]) = chain (timers m) (xs @ [SentinelTimer])"
    by (rule chain_cong) (simp add: assms)
  then show ?thesis using assms by (simp add: sched_list_def)
qed

end
