(* ===== verification/Safe_Shutdown.thy ===== *)
theory Safe_Shutdown
  imports Recovery
begin

text \<open>
  The shutdown functions of the modules together: an invariant of the phase between
  \<^verbatim>\<open>sched_timer_reset\<close> and the end of \<^verbatim>\<open>ctr_run_shutdownfuncs\<close>, what each function adds to it, and
  the state of the outputs at the end.
\<close>

subsection \<open>What may reach the pins\<close>

definition objects :: "'e basecmd_state_scheme \<Rightarrow> otype \<Rightarrow> u8 set" where
  "objects m ty = set (objs m ty 0)"

definition default_on :: "'e gpio_state_scheme \<Rightarrow> u8 \<Rightarrow> bool" where
  "default_on m i \<longleftrightarrow> has_flag (do_flags (digital_outs m i)) DF_DEFAULT_ON"

definition shut_event :: "'e tmcuart_state_scheme \<Rightarrow> out \<Rightarrow> bool" where
  "shut_event m e \<longleftrightarrow> (case e of
     GpioOutWrite p v \<Rightarrow>
       (\<exists>i \<in> objects m config_digital_out. p = do_pin (digital_outs m i) \<and> v = default_on m i) \<or>
       (\<exists>s \<in> objects m config_stepper. p = dir_pin (steppers m s) \<and> \<not> v \<or> p = step_pin (steppers m s) \<and> v = inverted s m) \<or>
       (\<exists>u \<in> objects m config_tmcuart. p = tx_pin (tmcuarts m u) \<and> v)
   | GpioOutReset p v \<Rightarrow> (\<exists>u \<in> objects m config_tmcuart. p = tx_pin (tmcuarts m u) \<and> v)
   | GpioPwmWrite p v \<Rightarrow> (\<exists>i \<in> objects m config_pwm_out. p = po_pin (pwm_outs m i) \<and> v = default_value (pwm_outs m i))
   | GpioOutSetup _ _ \<Rightarrow> False | GpioOutToggle _ \<Rightarrow> False | GpioPwmSetup _ _ _ \<Rightarrow> False
   | _ \<Rightarrow> True)"

subsection \<open>The invariant\<close>

definition base_shut :: "'e tmcuart_state_scheme \<Rightarrow> 'e tmcuart_state_scheme \<Rightarrow> bool" where
  "base_shut m0 m \<longleftrightarrow> oids m = oids m0 \<and> oid_count m = oid_count m0 \<and> shutdown_status m = 2 \<and>
     (move_count m \<noteq> 0 \<longrightarrow> move_list m \<noteq> None) \<and> acyclic (signal_links (signals m))"

definition timers_shut :: "'e tmcuart_state_scheme \<Rightarrow> u8 set \<Rightarrow> 'e tmcuart_state_scheme \<Rightarrow> bool" where
  "timers_shut m0 D m \<longleftrightarrow> D \<subseteq> objects m0 config_analog_in \<and>
     (\<exists>xs. sched_list m xs \<and> set (live xs) \<subseteq> insert PeriodicTimer (ObjTimer ` D))"

definition events_shut :: "'e tmcuart_state_scheme \<Rightarrow> u8 set \<Rightarrow> u8 set \<Rightarrow> out list \<Rightarrow> bool" where
  "events_shut m0 G W os \<longleftrightarrow> (\<exists>evs. os = out m0 @ evs \<and> (\<forall>e \<in> set evs. shut_event m0 e) \<and>
     (\<forall>i \<in> G. GpioOutWrite (do_pin (digital_outs m0 i)) (default_on m0 i) \<in> set evs) \<and>
     (\<forall>i \<in> W. GpioPwmWrite (po_pin (pwm_outs m0 i)) (default_value (pwm_outs m0 i)) \<in> set evs))"

definition stopped_stepper :: "stepper \<Rightarrow> bool" where
  "stopped_stepper x \<longleftrightarrow> st_count x = 0 \<and> has_flag (st_flags x) SF_NEED_RESET \<and> move_queue_empty (st_mq x)"

definition steppers_shut :: "(u8 \<Rightarrow> stepper) \<Rightarrow> u8 set \<Rightarrow> (u8 \<Rightarrow> stepper) \<Rightarrow> bool" where
  "steppers_shut X0 S X \<longleftrightarrow>
     (\<forall>s. step_pin (X s) = step_pin (X0 s) \<and> dir_pin (X s) = dir_pin (X0 s) \<and>
        has_flag (st_flags (X s)) SF_INVERT_STEP = has_flag (st_flags (X0 s)) SF_INVERT_STEP) \<and>
     (\<forall>s \<in> S. stopped_stepper (X s))"

definition default_digital :: "digital_out_s \<Rightarrow> bool" where
  "default_digital x \<longleftrightarrow> move_queue_empty (do_mq x) \<and>
     do_flags x = (if has_flag (do_flags x) DF_DEFAULT_ON then DF_ON OR DF_DEFAULT_ON else 0)"

definition digital_shut :: "(u8 \<Rightarrow> digital_out_s) \<Rightarrow> u8 set \<Rightarrow> (u8 \<Rightarrow> digital_out_s) \<Rightarrow> bool" where
  "digital_shut X0 G X \<longleftrightarrow>
     (\<forall>i. do_pin (X i) = do_pin (X0 i) \<and>
        has_flag (do_flags (X i)) DF_DEFAULT_ON = has_flag (do_flags (X0 i)) DF_DEFAULT_ON) \<and>
     (\<forall>i \<in> G. default_digital (X i))"

definition pwm_shut :: "(u8 \<Rightarrow> pwm_out_s) \<Rightarrow> u8 set \<Rightarrow> (u8 \<Rightarrow> pwm_out_s) \<Rightarrow> bool" where
  "pwm_shut X0 W X \<longleftrightarrow>
     (\<forall>i. po_pin (X i) = po_pin (X0 i) \<and> default_value (X i) = default_value (X0 i)) \<and>
     (\<forall>i \<in> W. move_queue_empty (po_mq (X i)))"

definition shut_state ::
  "'e tmcuart_state_scheme \<Rightarrow> u8 set \<Rightarrow> u8 set \<Rightarrow> u8 set \<Rightarrow> u8 set \<Rightarrow> 'e tmcuart_state_scheme \<Rightarrow> bool" where
  "shut_state m0 S G W D m \<longleftrightarrow> base_shut m0 m \<and> timers_shut m0 D m \<and> events_shut m0 G W (out m) \<and>
     steppers_shut (steppers m0) S (steppers m) \<and> digital_shut (digital_outs m0) G (digital_outs m) \<and>
     pwm_shut (pwm_outs m0) W (pwm_outs m) \<and> (\<forall>u. tx_pin (tmcuarts m u) = tx_pin (tmcuarts m0 u))"

lemmas shut_defs = shut_state_def base_shut_def timers_shut_def

lemma shut_stateD:
  assumes "shut_state m0 S G W D m"
  shows "oids m = oids m0" "oid_count m = oid_count m0" "shutdown_status m = 2"
    "move_count m \<noteq> 0 \<Longrightarrow> move_list m \<noteq> None" "acyclic (signal_links (signals m))" "D \<subseteq> objects m0 config_analog_in"
  using assms by (simp_all add: shut_defs)

lemma sched_list_cong:
  "timers m' = timers m \<Longrightarrow> timer_list m' = timer_list m \<Longrightarrow> last_insert m' = last_insert m \<Longrightarrow>
     sched_list m' xs = sched_list m xs"
  by (simp add: sched_list_def)

lemma timers_shut_cong:
  "timers m' = timers m \<Longrightarrow> timer_list m' = timer_list m \<Longrightarrow> last_insert m' = last_insert m \<Longrightarrow>
     timers_shut m0 D m' = timers_shut m0 D m"
  using sched_list_cong [of m' m] by (simp add: timers_shut_def)

lemma timers_shut_set_timer:
  "(\<And>x. tnext (f x) = tnext x) \<Longrightarrow> timers_shut m0 D (m\<lparr>timers := (timers m)(ObjTimer i := f (timers m (ObjTimer i)))\<rparr>) = timers_shut m0 D m"
  using sched_list_set_timer [of f "ObjTimer i" m] by (simp add: timers_shut_def set_timer_def)

lemma events_shut_append:
  "events_shut m0 G W os \<Longrightarrow> \<forall>e \<in> set es. shut_event m0 e \<Longrightarrow> events_shut m0 G W (os @ es)"
  unfolding events_shut_def by fastforce

lemma objects_disjoint: "i \<in> objects m a \<Longrightarrow> i \<in> objects m b \<Longrightarrow> a = b"
  by (cases "oids m") (auto simp: objects_def objs_def)

text \<open>Timers of objects other than analog inputs are not in the list.\<close>

lemma timer_absent:
  assumes "shut_state m0 S G W D m" and "t \<notin> ObjTimer ` D" and "t \<notin> {PeriodicTimer, SentinelTimer, DeletedTimer}"
  shows "sched_del_timer t m = Ok () m"
proof -
  obtain xs where xs: "sched_list m xs" "set (live xs) \<subseteq> insert PeriodicTimer (ObjTimer ` D)"
    using assms(1) by (auto simp: shut_defs)
  have "t \<notin> set xs" using xs(2) assms(2,3) by (auto simp: live_def)
  then show ?thesis using sched_del_timer_absent [OF xs(1)] assms(3) by blast
qed

lemma obj_timer_absent:
  assumes "shut_state m0 S G W D m" and "i \<in> objects m0 ty" and "ty \<noteq> config_analog_in"
  shows "sched_del_timer (ObjTimer i) m = Ok () m" and "sched_del_timer (ObjTimer2 i) m = Ok () m"
proof -
  have "i \<notin> D" using shut_stateD(6) [OF assms(1)] objects_disjoint [OF assms(2)] assms(3) by blast
  then show "sched_del_timer (ObjTimer i) m = Ok () m" "sched_del_timer (ObjTimer2 i) m = Ok () m"
    by (auto intro!: timer_absent [OF assms(1)])
qed

subsection \<open>The functions\<close>

lemma trsync_clear_shut:
  assumes "shut_state m0 S G W D m" and "i \<in> objects m0 config_trsync"
  shows "\<exists>m'. trsync_clear i m = Ok () m' \<and> shut_state m0 S G W D m'"
proof -
  note D = shut_stateD [OF assms(1)]
  obtain X where X: "clear_signals 256 (ts_signals (trsyncs m i)) m = Ok () (m\<lparr>signals := X\<rparr>)"
      "signal_links X \<subseteq> signal_links (signals m)"
    using clear_signals_runs [OF D(5) subset_refl links_behind_bound [OF D(5)]] by blast
  have "acyclic (signal_links X)" using D(5) X(2) by (rule acyclic_subset)
  moreover have "trsync_clear i m = Ok () (m\<lparr>signals := X, trsyncs := (trsyncs m)(i := (trsyncs m i)
      \<lparr>ts_signals := None, ts_flags := 0, trigger_reason := 0, expire_reason := 0\<rparr>)\<rparr>)"
    using X(1) obj_timer_absent [OF assms] by (simp add: trsync_clear_def upd_trsync_def bnd_app thn_app)
  ultimately show ?thesis
    using assms(1) by (auto simp: shut_state_def base_shut_def timers_shut_def sched_list_def)
qed

lemma free_moves_empty: "move_queue_empty (st_mq (steppers m s)) \<Longrightarrow> free_moves n s m = Ok () m"
  by (cases n) simp_all

lemma stop_flags_shut:
  "has_flag ((fl AND (SF_INVERT_STEP OR SF_SINGLE_SCHED)) OR SF_NEED_RESET) SF_INVERT_STEP = has_flag fl SF_INVERT_STEP"
  using stop_flags [of fl] by (simp add: same_mode_def)

definition cleared_stepper :: "u8 \<Rightarrow> 'e stepper_state_scheme \<Rightarrow> 'e stepper_state_scheme" where
  "cleared_stepper s m =
     m\<lparr>steppers := (steppers m)(s := (steppers m s)\<lparr>st_mq := move_queue_clear (st_mq (steppers m s))\<rparr>)\<rparr>"

lemma cleared_stepper_shut:
  assumes "shut_state m0 S G W D m"
  shows "shut_state m0 S G W D (cleared_stepper s m)"
  using assms
  by (auto simp: shut_state_def base_shut_def timers_shut_def sched_list_def cleared_stepper_def steppers_shut_def
      stopped_stepper_def move_queue_clear_def move_queue_empty_def)

lemma stopped_shut:
  assumes "shut_state m0 S G W D m" and s: "s \<in> objects m0 config_stepper" and q: "move_queue_empty (st_mq (steppers m s))"
  shows "shut_state m0 (insert s S) G W D (stopped s m)"
proof -
  let ?x = "steppers m s" and ?m = "stopped s m"
  have st: "steppers_shut (steppers m0) S (steppers m)" and ev: "events_shut m0 G W (out m)"
    and ti: "timers_shut m0 D m"
    using assms(1) by (simp_all add: shut_state_def)
  then have pins: "dir_pin ?x = dir_pin (steppers m0 s)" "step_pin ?x = step_pin (steppers m0 s)"
      "has_flag (st_flags ?x) SF_INVERT_STEP = has_flag (st_flags (steppers m0 s)) SF_INVERT_STEP"
    by (simp_all add: steppers_shut_def)
  have "shut_event m0 (GpioOutWrite (dir_pin ?x) False)" "shut_event m0 (GpioOutWrite (step_pin ?x) (inverted s m))"
    using s pins by (auto simp: shut_event_def inverted_def)
  then have "events_shut m0 G W (out ?m)"
    unfolding stopped_def by (auto intro!: events_shut_append [OF ev])
  moreover have "steppers_shut (steppers m0) (insert s S) (steppers ?m)"
    using st q by (simp add: stopped_def steppers_shut_def stopped_stepper_def need_reset stop_flags_shut)
  moreover have "timers_shut m0 D ?m"
  proof -
    have "timers_shut m0 D ?m = timers_shut m0 D (m\<lparr>timers := (timers m)(stimer s := (timers m (stimer s))\<lparr>waketime := 0\<rparr>)\<rparr>)"
      by (rule timers_shut_cong) (simp_all add: stopped_def)
    also have "\<dots> = timers_shut m0 D m" by (rule timers_shut_set_timer) simp
    finally show ?thesis using ti by simp
  qed
  moreover have "base_shut m0 ?m" using assms(1) by (simp add: shut_state_def base_shut_def stopped_def)
  moreover have "digital_outs ?m = digital_outs m" "pwm_outs ?m = pwm_outs m" "tmcuarts ?m = tmcuarts m"
    by (simp_all add: stopped_def)
  ultimately show ?thesis using assms(1) by (simp add: shut_state_def)
qed

lemma stepper_body_shut:
  assumes "shut_state m0 S G W D m" and "s \<in> objects m0 config_stepper"
  shows "\<exists>m'. thn (upd_stepper s (\<lambda>x. x\<lparr>st_mq := move_queue_clear (st_mq x)\<rparr>)) (stepper_stop s 0) m = Ok () m' \<and>
    shut_state m0 (insert s S) G W D m'"
proof -
  let ?m1 = "cleared_stepper s m"
  have m1: "shut_state m0 S G W D ?m1" by (rule cleared_stepper_shut [OF assms(1)])
  have q: "move_queue_empty (st_mq (steppers ?m1 s))"
    by (simp add: cleared_stepper_def move_queue_empty_def move_queue_clear_def)
  have q': "move_queue_empty (st_mq (steppers (stopped s ?m1) s))" using q by (simp add: stopped_def)
  have "stepper_stop s 0 ?m1 = Ok () (stopped s ?m1)"
    using stepper_stop_run [OF obj_timer_absent(1) [OF m1 assms(2)]] free_moves_empty [OF q'] by simp
  then have "thn (upd_stepper s (\<lambda>x. x\<lparr>st_mq := move_queue_clear (st_mq x)\<rparr>)) (stepper_stop s 0) m = Ok () (stopped s ?m1)"
    by (simp add: upd_stepper_app cleared_stepper_def thn_app)
  then show ?thesis using stopped_shut [OF m1 assms(2) q] by blast
qed

lemma default_flags: "has_flag (if has_flag fl DF_DEFAULT_ON then DF_ON OR DF_DEFAULT_ON else 0) DF_DEFAULT_ON = has_flag fl DF_DEFAULT_ON"
  by (simp add: has_flag_def df_defs)

lemma events_shut_digital:
  assumes "events_shut m0 G W os" and "i \<in> objects m0 config_digital_out"
  shows "events_shut m0 (insert i G) W (os @ [GpioOutWrite (do_pin (digital_outs m0 i)) (default_on m0 i)])"
proof -
  obtain evs where e: "os = out m0 @ evs" "\<forall>e \<in> set evs. shut_event m0 e"
    "\<forall>i \<in> G. GpioOutWrite (do_pin (digital_outs m0 i)) (default_on m0 i) \<in> set evs"
    "\<forall>i \<in> W. GpioPwmWrite (po_pin (pwm_outs m0 i)) (default_value (pwm_outs m0 i)) \<in> set evs"
    using assms(1) unfolding events_shut_def by blast
  let ?e = "GpioOutWrite (do_pin (digital_outs m0 i)) (default_on m0 i)"
  have "shut_event m0 ?e" using assms(2) by (auto simp: shut_event_def)
  then show ?thesis unfolding events_shut_def using e by (intro exI [of _ "evs @ [?e]"]) auto
qed

lemma events_shut_pwm:
  assumes "events_shut m0 G W os" and "i \<in> objects m0 config_pwm_out"
  shows "events_shut m0 G (insert i W) (os @ [GpioPwmWrite (po_pin (pwm_outs m0 i)) (default_value (pwm_outs m0 i))])"
proof -
  obtain evs where e: "os = out m0 @ evs" "\<forall>e \<in> set evs. shut_event m0 e"
    "\<forall>i \<in> G. GpioOutWrite (do_pin (digital_outs m0 i)) (default_on m0 i) \<in> set evs"
    "\<forall>i \<in> W. GpioPwmWrite (po_pin (pwm_outs m0 i)) (default_value (pwm_outs m0 i)) \<in> set evs"
    using assms(1) unfolding events_shut_def by blast
  let ?e = "GpioPwmWrite (po_pin (pwm_outs m0 i)) (default_value (pwm_outs m0 i))"
  have "shut_event m0 ?e" using assms(2) by (auto simp: shut_event_def)
  then show ?thesis unfolding events_shut_def using e by (intro exI [of _ "evs @ [?e]"]) auto
qed

lemma digital_shut_insert:
  "digital_shut X0 G X \<Longrightarrow> do_pin y = do_pin (X i) \<Longrightarrow>
     has_flag (do_flags y) DF_DEFAULT_ON = has_flag (do_flags (X i)) DF_DEFAULT_ON \<Longrightarrow> default_digital y \<Longrightarrow>
     digital_shut X0 (insert i G) (X(i := y))"
  by (simp add: digital_shut_def)

definition digital_body :: "u8 \<Rightarrow> ('e, unit) gpfw" where
  "digital_body i =
     bnd (reads (\<lambda>m. digital_outs m i)) (\<lambda>x.
     thn (gpio_out_write (do_pin x) (has_flag (do_flags x) DF_DEFAULT_ON))
     (thn (upd_do i (\<lambda>x. x\<lparr>do_flags :=
             (if has_flag (do_flags x) DF_DEFAULT_ON then DF_ON OR DF_DEFAULT_ON else 0)\<rparr>))
     (upd_do i (\<lambda>x. x\<lparr>do_mq := move_queue_clear (do_mq x)\<rparr>))))"

lemma digital_body_shut:
  assumes "shut_state m0 S G W D m" and i: "i \<in> objects m0 config_digital_out"
  shows "\<exists>m'. digital_body i m = Ok () m' \<and> shut_state m0 S (insert i G) W D m'"
proof -
  let ?x = "digital_outs m i"
  let ?y = "?x\<lparr>do_flags := (if has_flag (do_flags ?x) DF_DEFAULT_ON then DF_ON OR DF_DEFAULT_ON else 0),
    do_mq := move_queue_clear (do_mq ?x)\<rparr>"
  let ?m = "m\<lparr>out := out m @ [GpioOutWrite (do_pin ?x) (has_flag (do_flags ?x) DF_DEFAULT_ON)],
    digital_outs := (digital_outs m)(i := ?y)\<rparr>"
  have run: "digital_body i m = Ok () ?m"
    by (simp add: digital_body_def upd_do_def gpio_app bnd_app thn_app)
  have dg: "digital_shut (digital_outs m0) G (digital_outs m)" and ev: "events_shut m0 G W (out m)"
    and ti: "timers_shut m0 D m"
    using assms(1) by (simp_all add: shut_state_def)
  then have x: "do_pin ?x = do_pin (digital_outs m0 i)" "has_flag (do_flags ?x) DF_DEFAULT_ON = default_on m0 i"
    by (simp_all add: digital_shut_def default_on_def)
  have "events_shut m0 (insert i G) W (out ?m)" using events_shut_digital [OF ev i] by (simp add: x)
  moreover have "default_digital ?y"
    unfolding default_digital_def by (simp add: default_flags move_queue_empty_def move_queue_clear_def)
  then have "digital_shut (digital_outs m0) (insert i G) ((digital_outs m)(i := ?y))"
    using default_flags [of "do_flags ?x"] by (intro digital_shut_insert [OF dg]) simp_all
  then have "digital_shut (digital_outs m0) (insert i G) (digital_outs ?m)" by simp
  moreover have "timers_shut m0 D ?m" using ti by (subst timers_shut_cong [of _ m]) simp_all
  moreover have "base_shut m0 ?m" using assms(1) by (simp add: shut_state_def base_shut_def)
  ultimately have "shut_state m0 S (insert i G) W D ?m" using assms(1) by (simp add: shut_state_def)
  then show ?thesis using run by blast
qed

definition pwm_body :: "u8 \<Rightarrow> ('e, unit) pwfw" where
  "pwm_body i =
     bnd (reads (\<lambda>m. pwm_outs m i)) (\<lambda>x.
     thn (gpio_pwm_write (po_pin x) (default_value x))
     (thn (upd_timer (ObjTimer i) (\<lambda>t. t\<lparr>func := Some pwm_event_f\<rparr>))
     (upd_po i (\<lambda>x. x\<lparr>po_mq := move_queue_clear (po_mq x)\<rparr>))))"

lemma pwm_body_shut:
  assumes "shut_state m0 S G W D m" and i: "i \<in> objects m0 config_pwm_out"
  shows "\<exists>m'. pwm_body i m = Ok () m' \<and> shut_state m0 S G (insert i W) D m'"
proof -
  let ?x = "pwm_outs m i"
  let ?m = "m\<lparr>out := out m @ [GpioPwmWrite (po_pin ?x) (default_value ?x)],
    timers := (timers m)(ObjTimer i := (timers m (ObjTimer i))\<lparr>func := Some pwm_event_f\<rparr>),
    pwm_outs := (pwm_outs m)(i := ?x\<lparr>po_mq := move_queue_clear (po_mq ?x)\<rparr>)\<rparr>"
  have run: "pwm_body i m = Ok () ?m"
    by (simp add: pwm_body_def upd_po_def gpio_pwm_write_def upd_timer_def set_timer_def emit_def bnd_app thn_app)
  have pw: "pwm_shut (pwm_outs m0) W (pwm_outs m)" and ev: "events_shut m0 G W (out m)" and ti: "timers_shut m0 D m"
    using assms(1) by (simp_all add: shut_state_def)
  then have x: "po_pin ?x = po_pin (pwm_outs m0 i)" "default_value ?x = default_value (pwm_outs m0 i)"
    by (simp_all add: pwm_shut_def)
  have "events_shut m0 G (insert i W) (out ?m)" using events_shut_pwm [OF ev i] by (simp add: x)
  moreover have "pwm_shut (pwm_outs m0) (insert i W) (pwm_outs ?m)"
    using pw by (simp add: pwm_shut_def move_queue_empty_def move_queue_clear_def)
  moreover have "timers_shut m0 D ?m"
  proof -
    have "timers_shut m0 D ?m = timers_shut m0 D (m\<lparr>timers := (timers m)(ObjTimer i := (timers m (ObjTimer i))\<lparr>func := Some pwm_event_f\<rparr>)\<rparr>)"
      by (rule timers_shut_cong) simp_all
    also have "\<dots> = timers_shut m0 D m" by (rule timers_shut_set_timer) simp
    finally show ?thesis using ti by simp
  qed
  moreover have "base_shut m0 ?m" using assms(1) by (simp add: shut_state_def base_shut_def)
  ultimately have "shut_state m0 S G (insert i W) D ?m" using assms(1) by (simp add: shut_state_def)
  then show ?thesis using run by blast
qed

lemma tmcuart_reset_line_shut:
  assumes "shut_state m0 S G W D m" and u: "u \<in> objects m0 config_tmcuart"
  shows "\<exists>m'. tmcuart_reset_line u m = Ok () m' \<and> shut_state m0 S G W D m'"
proof -
  let ?x = "tmcuarts m u"
  let ?e = "if has_flag (tu_flags ?x) TU_SINGLE_WIRE then GpioOutReset (tx_pin ?x) True else GpioOutWrite (tx_pin ?x) True"
  let ?m = "m\<lparr>out := out m @ [?e], tmcuarts := (tmcuarts m)(u := ?x\<lparr>tu_flags :=
    (tu_flags ?x AND (TU_PULLUP OR TU_SINGLE_WIRE)) OR TU_LINE_HIGH\<rparr>)\<rparr>"
  have run: "tmcuart_reset_line u m = Ok () ?m"
    by (simp add: tmcuart_reset_line_def upd_tu_app gpio_out_reset_def gpio_app emit_def bnd_app thn_app)
  have ev: "events_shut m0 G W (out m)" and ti: "timers_shut m0 D m" and tx: "tx_pin ?x = tx_pin (tmcuarts m0 u)"
    using assms(1) by (simp_all add: shut_state_def)
  have "shut_event m0 ?e" using u tx by (auto simp: shut_event_def)
  then have "events_shut m0 G W (out ?m)" using events_shut_append [OF ev, of "[?e]"] by simp
  moreover have "timers_shut m0 D ?m" using ti by (subst timers_shut_cong [of _ m]) simp_all
  moreover have "base_shut m0 ?m" using assms(1) by (simp add: shut_state_def base_shut_def)
  ultimately have "shut_state m0 S G W D ?m" using assms(1) by (simp add: shut_state_def)
  then show ?thesis using run by blast
qed

definition analog_body :: "u8 \<Rightarrow> ('e, unit) adfw" where
  "analog_body i =
     bnd (reads (\<lambda>m. analog_ins m i)) (\<lambda>x.
     thn (gpio_adc_cancel_sample (ai_pin x))
     (whenM (ai_sample_count x \<noteq> 0)
        (thn (upd_ai i (\<lambda>x. x\<lparr>ai_state := ai_sample_count x + 1,
                ai_next_begin_time := ai_next_begin_time x + ai_rest_time x\<rparr>))
        (bnd (reads (\<lambda>m. ai_next_begin_time (analog_ins m i))) (\<lambda>nbt.
        thn (upd_timer (ObjTimer i) (\<lambda>t. t\<lparr>waketime := nbt\<rparr>))
        (sched_add_timer (ObjTimer i)))))))"

lemma add_timer_shut:
  assumes "shut_state m0 S G W D m" and i: "i \<in> objects m0 config_analog_in" "i \<notin> D"
  shows "\<exists>m'. sched_add_timer (ObjTimer i) m = Ok () m' \<and> shut_state m0 S G W (insert i D) m'"
proof -
  obtain xs where xs: "sched_list m xs" "set (live xs) \<subseteq> insert PeriodicTimer (ObjTimer ` D)"
    using assms(1) by (auto simp: shut_defs)
  have n: "ObjTimer i \<notin> set xs" using xs(2) i(2) by (auto simp: live_def)
  obtain m' xs' where run: "sched_add_timer (ObjTimer i) m = Ok () m'"
    and l: "sched_list m' xs'" "set (live xs') = insert (ObjTimer i) (set (live xs))"
    and m': "m' = m\<lparr>timers := timers m', timer_list := timer_list m', last_insert := last_insert m', ticks := ticks m', out := out m'\<rparr>"
    and o: "out m' = out m \<or> out m' = out m @ [TimerKick]"
    using sched_add_timer_shut [OF xs(1) n] shut_stateD(3) [OF assms(1)] by auto
  have f: "oids m' = oids m" "oid_count m' = oid_count m" "shutdown_status m' = shutdown_status m" "move_count m' = move_count m"
    "move_list m' = move_list m" "signals m' = signals m" "steppers m' = steppers m" "digital_outs m' = digital_outs m"
    "pwm_outs m' = pwm_outs m" "tmcuarts m' = tmcuarts m"
    by (subst m', simp)+
  have "events_shut m0 G W (out m')"
    using o assms(1) events_shut_append [of m0 G W "out m" "[TimerKick]"] by (auto simp: shut_state_def shut_event_def)
  moreover have "timers_shut m0 (insert i D) m'"
    using l xs(2) i(1) shut_stateD(6) [OF assms(1)] unfolding timers_shut_def by blast
  moreover have "base_shut m0 m'" using assms(1) by (simp add: shut_state_def base_shut_def f)
  ultimately have "shut_state m0 S G W (insert i D) m'" using assms(1) by (simp add: shut_state_def f)
  then show ?thesis using run by blast
qed

lemma analog_body_shut:
  assumes "shut_state m0 S G W D m" and i: "i \<in> objects m0 config_analog_in" "i \<notin> D"
  shows "\<exists>m'. analog_body i m = Ok () m' \<and> shut_state m0 S G W (insert i D) m'"
proof -
  let ?x = "analog_ins m i"
  let ?m1 = "m\<lparr>out := out m @ [GpioAdcCancel (ai_pin ?x)]\<rparr>"
  have ev: "events_shut m0 G W (out ?m1)"
    using assms(1) events_shut_append [of m0 G W "out m" "[GpioAdcCancel (ai_pin ?x)]"] by (simp add: shut_state_def shut_event_def)
  have ti: "timers_shut m0 D ?m1"
    using assms(1) by (subst timers_shut_cong [of _ m]) (simp_all add: shut_state_def)
  show ?thesis
  proof (cases "ai_sample_count ?x = 0")
    case True
    have "timers_shut m0 (insert i D) ?m1" using ti i(1) unfolding timers_shut_def by blast
    then have "shut_state m0 S G W (insert i D) ?m1"
      using assms(1) ev by (simp add: shut_state_def base_shut_def)
    moreover have "analog_body i m = Ok () ?m1"
      using True by (simp add: analog_body_def gpio_adc_cancel_sample_def emit_def bnd_app thn_app whenM_def)
    ultimately show ?thesis by blast
  next
    case False
    let ?y = "?x\<lparr>ai_state := ai_sample_count ?x + 1, ai_next_begin_time := ai_next_begin_time ?x + ai_rest_time ?x\<rparr>"
    let ?m2 = "?m1\<lparr>analog_ins := (analog_ins m)(i := ?y),
      timers := (timers m)(ObjTimer i := (timers m (ObjTimer i))\<lparr>waketime := ai_next_begin_time ?y\<rparr>)\<rparr>"
    have "timers_shut m0 D ?m2 = timers_shut m0 D (m\<lparr>timers := (timers m)(ObjTimer i := (timers m (ObjTimer i))\<lparr>waketime := ai_next_begin_time ?y\<rparr>)\<rparr>)"
      by (rule timers_shut_cong) simp_all
    also have "\<dots> = timers_shut m0 D m" by (rule timers_shut_set_timer) simp
    finally have "shut_state m0 S G W D ?m2"
      using assms(1) ev by (simp add: shut_state_def base_shut_def)
    from add_timer_shut [OF this i] obtain m' where
      "sched_add_timer (ObjTimer i) ?m2 = Ok () m'" "shut_state m0 S G W (insert i D) m'" by blast
    moreover have "analog_body i m = sched_add_timer (ObjTimer i) ?m2"
      using False by (simp add: analog_body_def gpio_adc_cancel_sample_def emit_def upd_ai_def upd_timer_def set_timer_def
          bnd_app thn_app whenM_def)
    ultimately show ?thesis by simp
  qed
qed

subsection \<open>All of them\<close>

text \<open>The objects a set of functions has dealt with.\<close>

definition part :: "shutdown_func \<Rightarrow> shutdown_func set \<Rightarrow> u8 set \<Rightarrow> u8 set" where
  "part f V X = (if f \<in> V then X else {})"

definition shut_by :: "'e tmcuart_state_scheme \<Rightarrow> shutdown_func set \<Rightarrow> 'e tmcuart_state_scheme \<Rightarrow> bool" where
  "shut_by m0 V = shut_state m0 (part stepper_shutdown_f V (objects m0 config_stepper))
     (part digital_out_shutdown_f V (objects m0 config_digital_out)) (part pwm_shutdown_f V (objects m0 config_pwm_out))
     (part analog_in_shutdown_f V (objects m0 config_analog_in))"

lemma foreach_shut:
  fixes body :: "u8 \<Rightarrow> ('e tmcuart_state_scheme, unit) fw"
  assumes tab: "table_ok m0"
    and I: "\<And>X m. I X m \<Longrightarrow> \<exists>S G W D. shut_state m0 S G W D m"
    and step: "\<And>X i m. I X m \<Longrightarrow> i \<in> objects m0 ty \<Longrightarrow> i \<notin> X \<Longrightarrow> \<exists>m'. body i m = Ok () m' \<and> I (insert i X) m'"
    and m: "I {} m"
  shows "\<exists>m'. foreach_oid ty body m = Ok () m' \<and> I (objects m0 ty) m'"
  using foreach_oid_inv [where I = I and body = body and ty = ty, OF tab _ _ m] I step shut_stateD(1,2)
  unfolding objects_def by blast

lemma move_reset_shut:
  assumes "shut_state m0 S G W D m"
  shows "\<exists>m'. move_reset m = Ok () m' \<and> shut_state m0 S G W D m'"
proof (cases "move_count m = 0")
  case True
  then show ?thesis using assms by (simp add: move_reset_def)
next
  case False
  then obtain l where l: "move_list m = Some l" using shut_stateD(4) [OF assms] by blast
  obtain N where run: "move_reset m = Ok () (m\<lparr>mnext := N, move_free_list := Some l\<rparr>)"
    using False l by (simp add: move_reset_def bnd_app thn_app)
  have "timers_shut m0 D (m\<lparr>mnext := N, move_free_list := Some l\<rparr>)"
    using assms by (subst timers_shut_cong [of _ m]) (simp_all add: shut_state_def)
  then have "shut_state m0 S G W D (m\<lparr>mnext := N, move_free_list := Some l\<rparr>)"
    using assms by (simp add: shut_state_def base_shut_def)
  then show ?thesis using run by blast
qed

lemma sendf_shutdown_shut:
  assumes "shut_state m0 S G W D m"
  shows "\<exists>m'. sendf_shutdown m = Ok () m' \<and> shut_state m0 S G W D m'"
proof -
  have "timers_shut m0 D (m\<lparr>in_sendf := False\<rparr>)"
    using assms by (subst timers_shut_cong [of _ m]) (simp_all add: shut_state_def)
  then have "shut_state m0 S G W D (m\<lparr>in_sendf := False\<rparr>)" using assms by (simp add: shut_state_def base_shut_def)
  then show ?thesis by simp
qed

lemma loops_shut:
  assumes tab: "table_ok m0" and m: "shut_state m0 S G W D m"
  shows "\<exists>m'. trsync_shutdown m = Ok () m' \<and> shut_state m0 S G W D m'"
    and "\<exists>m'. tmcuart_shutdown m = Ok () m' \<and> shut_state m0 S G W D m'"
    and "S = {} \<Longrightarrow> \<exists>m'. stepper_shutdown m = Ok () m' \<and> shut_state m0 (objects m0 config_stepper) G W D m'"
    and "G = {} \<Longrightarrow> \<exists>m'. digital_out_shutdown m = Ok () m' \<and> shut_state m0 S (objects m0 config_digital_out) W D m'"
    and "W = {} \<Longrightarrow> \<exists>m'. pwm_shutdown m = Ok () m' \<and> shut_state m0 S G (objects m0 config_pwm_out) D m'"
    and "D = {} \<Longrightarrow> \<exists>m'. analog_in_shutdown m = Ok () m' \<and> shut_state m0 S G W (objects m0 config_analog_in) m'"
proof -
  show "\<exists>m'. trsync_shutdown m = Ok () m' \<and> shut_state m0 S G W D m'"
    unfolding trsync_shutdown_def
    by (rule foreach_shut [where I = "\<lambda>X. shut_state m0 S G W D", OF tab _ _ m]) (auto intro: trsync_clear_shut)
  show "\<exists>m'. tmcuart_shutdown m = Ok () m' \<and> shut_state m0 S G W D m'"
    unfolding tmcuart_shutdown_def
    by (rule foreach_shut [where I = "\<lambda>X. shut_state m0 S G W D", OF tab _ _ m]) (auto intro: tmcuart_reset_line_shut)
  show "\<exists>m'. stepper_shutdown m = Ok () m' \<and> shut_state m0 (objects m0 config_stepper) G W D m'" if "S = {}"
    unfolding stepper_shutdown_def
    by (rule foreach_shut [where I = "\<lambda>X. shut_state m0 X G W D", OF tab])
      (use m that in \<open>auto intro: stepper_body_shut\<close>)
  show "\<exists>m'. digital_out_shutdown m = Ok () m' \<and> shut_state m0 S (objects m0 config_digital_out) W D m'" if "G = {}"
    unfolding digital_out_shutdown_def digital_body_def [symmetric]
    by (rule foreach_shut [where I = "\<lambda>X. shut_state m0 S X W D", OF tab])
      (use m that in \<open>auto intro: digital_body_shut\<close>)
  show "\<exists>m'. pwm_shutdown m = Ok () m' \<and> shut_state m0 S G (objects m0 config_pwm_out) D m'" if "W = {}"
    unfolding pwm_shutdown_def pwm_body_def [symmetric]
    by (rule foreach_shut [where I = "\<lambda>X. shut_state m0 S G X D", OF tab])
      (use m that in \<open>auto intro: pwm_body_shut\<close>)
  show "\<exists>m'. analog_in_shutdown m = Ok () m' \<and> shut_state m0 S G W (objects m0 config_analog_in) m'" if "D = {}"
    unfolding analog_in_shutdown_def analog_body_def [symmetric]
    by (rule foreach_shut [where I = "\<lambda>X. shut_state m0 S G W X", OF tab])
      (use m that in \<open>auto intro: analog_body_shut\<close>)
qed

lemma part_simps:
  "f \<notin> V \<Longrightarrow> part f V X = {}" "part f (insert f V) X = X" "f \<noteq> g \<Longrightarrow> part f (insert g V) X = part f V X"
  by (simp_all add: part_def)

lemma shutdown_func_step:
  fixes m :: "'e serial_state_scheme"
  assumes "table_ok m0" and m: "shut_by m0 V m" and V: "f \<notin> V"
  shows "\<exists>m'. run_shutdown_func f m = Ok () m' \<and> shut_by m0 (insert f V) m'"
proof (cases f)
  case move_reset_f
  then show ?thesis using move_reset_shut [OF m [unfolded shut_by_def]] by (simp add: shut_by_def part_simps)
next
  case sendf_shutdown_f
  then show ?thesis using sendf_shutdown_shut [OF m [unfolded shut_by_def]] by (simp add: shut_by_def part_simps)
next
  case trsync_shutdown_f
  then show ?thesis using loops_shut(1) [OF assms(1) m [unfolded shut_by_def]] by (simp add: shut_by_def part_simps)
next
  case tmcuart_shutdown_f
  then show ?thesis using loops_shut(2) [OF assms(1) m [unfolded shut_by_def]] by (simp add: shut_by_def part_simps)
next
  case stepper_shutdown_f
  then show ?thesis using loops_shut(3) [OF assms(1) m [unfolded shut_by_def]] V by (simp add: shut_by_def part_simps)
next
  case digital_out_shutdown_f
  then show ?thesis using loops_shut(4) [OF assms(1) m [unfolded shut_by_def]] V by (simp add: shut_by_def part_simps)
next
  case pwm_shutdown_f
  then show ?thesis using loops_shut(5) [OF assms(1) m [unfolded shut_by_def]] V by (simp add: shut_by_def part_simps)
next
  case analog_in_shutdown_f
  then show ?thesis using loops_shut(6) [OF assms(1) m [unfolded shut_by_def]] V by (simp add: shut_by_def part_simps)
qed

lemma shutdown_funcs_run:
  fixes m :: "'e serial_state_scheme"
  assumes "table_ok m0"
  shows "shut_by m0 V m \<Longrightarrow> distinct fs \<Longrightarrow> set fs \<inter> V = {} \<Longrightarrow>
    \<exists>m'. seqM (map run_shutdown_func fs) m = Ok () m' \<and> shut_by m0 (set fs \<union> V) m'"
proof (induction fs arbitrary: V m)
  case (Cons f fs)
  then obtain m1 where m1: "run_shutdown_func f m = Ok () m1" "shut_by m0 (insert f V) m1"
    using shutdown_func_step [OF assms, of V m f] by auto
  with Cons.IH [OF m1(2)] Cons.prems show ?case by (auto simp: thn_app)
qed simp

lemma shut_by_start:
  fixes m :: "'e serial_state_scheme"
  assumes "acyclic (signal_links (signals m))" and "move_count m \<noteq> 0 \<longrightarrow> move_list m \<noteq> None"
    and "tnext (timers m SentinelTimer) = None"
    and "waketime (timers m SentinelTimer) = waketime (timers m PeriodicTimer) + 0x80000000"
  shows "\<exists>m'. thn irq_disable
     (bnd timer_read_time (\<lambda>cur.
     thn (modify (\<lambda>m. if shutdown_status m = 0 then m\<lparr>shutdown_reason := reason\<rparr> else m))
     (thn (modify (\<lambda>m. m\<lparr>shutdown_status := 2\<rparr>)) (thn sched_timer_reset (g cur))))) m = g (clock_in (env m) (ticks m)) m' \<and> shut_by m {} m'"
proof -
  define m1 where "m1 = (if shutdown_status m = 0 then m\<lparr>irq_on := False, ticks := Suc (ticks m), shutdown_reason := reason\<rparr>
    else m\<lparr>irq_on := False, ticks := Suc (ticks m)\<rparr>)\<lparr>shutdown_status := 2\<rparr>"
  have f: "oids m1 = oids m" "oid_count m1 = oid_count m" "shutdown_status m1 = 2" "move_count m1 = move_count m"
    "move_list m1 = move_list m" "signals m1 = signals m" "steppers m1 = steppers m" "digital_outs m1 = digital_outs m"
    "pwm_outs m1 = pwm_outs m" "tmcuarts m1 = tmcuarts m" "out m1 = out m" "timers m1 = timers m"
    by (simp_all add: m1_def)
  let ?m2 = "(set_timer PeriodicTimer (\<lambda>x. x\<lparr>tnext := Some SentinelTimer\<rparr>)
      (set_timer DeletedTimer (\<lambda>x. x\<lparr>waketime := waketime (timers m1 PeriodicTimer), tnext := Some PeriodicTimer\<rparr>)
        (m1\<lparr>timer_list := DeletedTimer, last_insert := PeriodicTimer\<rparr>)))\<lparr>out := out m1 @ [TimerKick]\<rparr>"
  have "sched_list ?m2 [DeletedTimer, PeriodicTimer]" using assms(3,4) by (simp add: sched_list_def f)
  then have "timers_shut m {} ?m2" unfolding timers_shut_def by (auto simp: live_def)
  moreover have "events_shut m {} {} (out ?m2)" by (simp add: events_shut_def f shut_event_def)
  ultimately have "shut_by m {} ?m2"
    using assms(1,2)
    by (simp add: shut_by_def part_def shut_state_def base_shut_def steppers_shut_def digital_shut_def pwm_shut_def f set_timer_def)
  moreover have "thn irq_disable
     (bnd timer_read_time (\<lambda>cur.
     thn (modify (\<lambda>m. if shutdown_status m = 0 then m\<lparr>shutdown_reason := reason\<rparr> else m))
     (thn (modify (\<lambda>m. m\<lparr>shutdown_status := 2\<rparr>)) (thn sched_timer_reset (g cur))))) m = g (clock_in (env m) (ticks m)) ?m2"
    by (cases "shutdown_status m = 0") (simp_all add: bnd_app thn_app m1_def sched_timer_reset_def set_timer_def)
  ultimately show ?thesis by blast
qed

subsection \<open>Levels of the pins\<close>

text \<open>The level an output pin is driven to after the events so far, if it is known.\<close>

fun drive :: "u32 \<Rightarrow> out \<Rightarrow> bool option \<Rightarrow> bool option" where
  "drive p (GpioOutSetup q v) l = (if q = p then Some v else l)"
| "drive p (GpioOutReset q v) l = (if q = p then Some v else l)"
| "drive p (GpioOutWrite q v) l = (if q = p then Some v else l)"
| "drive p (GpioOutToggle q) l = (if q = p then map_option Not l else l)"
| "drive p _ l = l"

definition pin_level :: "u32 \<Rightarrow> out list \<Rightarrow> bool option" where
  "pin_level p os = fold (drive p) os None"

text \<open>No other object drives the pin of a digital output to another level.\<close>

definition own_pin :: "'e tmcuart_state_scheme \<Rightarrow> u8 \<Rightarrow> bool" where
  "own_pin m i \<longleftrightarrow>
     (\<forall>j \<in> objects m config_digital_out. do_pin (digital_outs m j) = do_pin (digital_outs m i) \<longrightarrow> default_on m j = default_on m i) \<and>
     (\<forall>s \<in> objects m config_stepper. dir_pin (steppers m s) \<noteq> do_pin (digital_outs m i) \<and> step_pin (steppers m s) \<noteq> do_pin (digital_outs m i)) \<and>
     (\<forall>u \<in> objects m config_tmcuart. tx_pin (tmcuarts m u) \<noteq> do_pin (digital_outs m i))"

lemma drive_shut:
  assumes "own_pin m i" and "shut_event m e"
  shows "drive (do_pin (digital_outs m i)) e l = l \<or> drive (do_pin (digital_outs m i)) e l = Some (default_on m i)"
proof (cases e)
  case (GpioOutWrite p v)
  then show ?thesis using assms unfolding own_pin_def shut_event_def by (auto split: if_splits)
qed (use assms in \<open>auto simp: own_pin_def shut_event_def\<close>)

lemma fold_drive_kept:
  assumes "own_pin m i" and "\<forall>e \<in> set evs. shut_event m e"
  shows "fold (drive (do_pin (digital_outs m i))) evs (Some (default_on m i)) = Some (default_on m i)"
  using assms(2)
proof (induction evs)
  case (Cons e evs)
  then show ?case using drive_shut [OF assms(1), of e "Some (default_on m i)"] by auto
qed simp

lemma pin_level_shut:
  assumes own: "own_pin m i" and ev: "\<forall>e \<in> set evs. shut_event m e"
    and w: "GpioOutWrite (do_pin (digital_outs m i)) (default_on m i) \<in> set evs"
  shows "pin_level (do_pin (digital_outs m i)) (os @ evs) = Some (default_on m i)"
proof -
  obtain as bs where evs: "evs = as @ GpioOutWrite (do_pin (digital_outs m i)) (default_on m i) # bs"
    using split_list [OF w] by blast
  then show ?thesis using fold_drive_kept [OF own, of bs] ev by (simp add: pin_level_def)
qed

subsection \<open>Properties\<close>

definition shutdown_tail :: "('e, unit) mfw list \<Rightarrow> u32 \<Rightarrow> ('e, unit) mfw" where
  "shutdown_tail funcs cur = thn (seqM funcs)
     (thn (modify (\<lambda>m. m\<lparr>shutdown_status := 1\<rparr>))
     (thn irq_enable
     (bnd (reads shutdown_reason) (\<lambda>r.
      command_sendf ''shutdown clock=%u static_string_id=%hu'' [Num cur, StrId r]))))"

lemma run_shutdown_parts:
  "run_shutdown funcs reason = thn irq_disable
     (bnd timer_read_time (\<lambda>cur.
     thn (modify (\<lambda>m. if shutdown_status m = 0 then m\<lparr>shutdown_reason := reason\<rparr> else m))
     (thn (modify (\<lambda>m. m\<lparr>shutdown_status := 2\<rparr>)) (thn sched_timer_reset (shutdown_tail funcs cur)))))"
  by (simp add: run_shutdown_def shutdown_tail_def)

text \<open>What a shutdown guarantees, as a relation of the state before it and the state after it.\<close>

definition safe_after :: "'e serial_state_scheme \<Rightarrow> 'e serial_state_scheme \<Rightarrow> bool" where
  "safe_after m m' \<longleftrightarrow> shutdown_status m' = 1 \<and>
     (\<exists>evs. out m' = out m @ evs \<and> (\<forall>e \<in> set evs. shut_event m e) \<and>
       (\<forall>i \<in> objects m config_pwm_out. GpioPwmWrite (po_pin (pwm_outs m i)) (default_value (pwm_outs m i)) \<in> set evs)) \<and>
     (\<forall>s \<in> objects m config_stepper. stopped_stepper (steppers m' s)) \<and>
     (\<forall>i \<in> objects m config_digital_out. default_digital (digital_outs m' i) \<and>
        (own_pin m i \<longrightarrow> pin_level (do_pin (digital_outs m i)) (out m') = Some (default_on m i))) \<and>
     (\<forall>i \<in> objects m config_pwm_out. move_queue_empty (po_mq (pwm_outs m' i))) \<and>
     (\<exists>xs. sched_list m' xs \<and> set (live xs) \<subseteq> insert PeriodicTimer (ObjTimer ` objects m config_analog_in))"

lemma shut_by_all:
  assumes "shut_by m UNIV m1"
  shows "safe_after m (m1\<lparr>shutdown_status := 1, irq_on := True\<rparr>)"
    and "safe_after m (m1\<lparr>shutdown_status := 1, irq_on := True, out := out m1 @ [Send fmt args], in_sendf := b\<rparr>)"
proof -
  have st: "shut_state m (objects m config_stepper) (objects m config_digital_out) (objects m config_pwm_out)
      (objects m config_analog_in) m1"
    using assms by (simp add: shut_by_def part_def)
  obtain evs where e: "out m1 = out m @ evs" "\<forall>e \<in> set evs. shut_event m e"
    "\<forall>i \<in> objects m config_digital_out. GpioOutWrite (do_pin (digital_outs m i)) (default_on m i) \<in> set evs"
    "\<forall>i \<in> objects m config_pwm_out. GpioPwmWrite (po_pin (pwm_outs m i)) (default_value (pwm_outs m i)) \<in> set evs"
    using st unfolding shut_state_def events_shut_def by blast
  obtain xs where xs: "sched_list m1 xs" "set (live xs) \<subseteq> insert PeriodicTimer (ObjTimer ` objects m config_analog_in)"
    using st unfolding shut_state_def timers_shut_def by blast
  have rest: "\<forall>s \<in> objects m config_stepper. stopped_stepper (steppers m1 s)"
    "\<forall>i \<in> objects m config_digital_out. default_digital (digital_outs m1 i)"
    "\<forall>i \<in> objects m config_pwm_out. move_queue_empty (po_mq (pwm_outs m1 i))"
    using st by (simp_all add: shut_state_def steppers_shut_def digital_shut_def pwm_shut_def)
  have gen: "safe_after m m2" if m2: "shutdown_status m2 = 1" "out m2 = out m1 @ es" "\<forall>e \<in> set es. shut_event m e" "steppers m2 = steppers m1"
    "digital_outs m2 = digital_outs m1" "pwm_outs m2 = pwm_outs m1" "timers m2 = timers m1" "timer_list m2 = timer_list m1"
    "last_insert m2 = last_insert m1" for m2 es
  proof -
    have "sched_list m2 xs" using xs(1) sched_list_cong [OF m2(7-9)] by simp
    moreover have "pin_level (do_pin (digital_outs m i)) (out m2) = Some (default_on m i)"
      if "i \<in> objects m config_digital_out" "own_pin m i" for i
      using pin_level_shut [OF that(2), of "evs @ es" "out m"] that(1) e m2(2,3) by auto
    moreover have "\<exists>evs. out m2 = out m @ evs \<and> (\<forall>e \<in> set evs. shut_event m e) \<and>
       (\<forall>i \<in> objects m config_pwm_out. GpioPwmWrite (po_pin (pwm_outs m i)) (default_value (pwm_outs m i)) \<in> set evs)"
      using e m2(2,3) by (intro exI [of _ "evs @ es"]) auto
    ultimately show ?thesis
      unfolding safe_after_def using m2(1,4-6) rest xs(2) by auto
  qed
  show "safe_after m (m1\<lparr>shutdown_status := 1, irq_on := True\<rparr>)"
    by (rule gen [where es = "[]"]) simp_all
  show "safe_after m (m1\<lparr>shutdown_status := 1, irq_on := True, out := out m1 @ [Send fmt args], in_sendf := b\<rparr>)"
    by (rule gen [where es = "[Send fmt args]"]) (simp_all add: shut_event_def)
qed

lemma run_shutdown_safe:
  fixes m :: "'e serial_state_scheme"
  assumes tab: "table_ok m" and order: "distinct order" "set order = UNIV"
    and "acyclic (signal_links (signals m))" "move_count m \<noteq> 0 \<longrightarrow> move_list m \<noteq> None"
    "tnext (timers m SentinelTimer) = None"
    "waketime (timers m SentinelTimer) = waketime (timers m PeriodicTimer) + 0x80000000"
  shows "\<exists>m'. run_shutdown (map run_shutdown_func order) reason m = Ok () m' \<and> safe_after m m'"
proof -
  obtain m1 where m1: "run_shutdown (map run_shutdown_func order) reason m =
      shutdown_tail (map run_shutdown_func order) (clock_in (env m) (ticks m)) m1"
    and s1: "shut_by m {} m1"
    using shut_by_start [OF assms(4-7), of reason "shutdown_tail (map run_shutdown_func order)"]
    unfolding run_shutdown_parts by blast
  obtain m2 where m2: "seqM (map run_shutdown_func order) m1 = Ok () m2" "shut_by m UNIV m2"
    using shutdown_funcs_run [OF tab s1 order(1)] order(2) by auto
  show ?thesis
    using m1 m2(1) shut_by_all [OF m2(2)] by (simp add: shutdown_tail_def thn_app bnd_app command_sendf_def emit_def)
qed

text \<open>
  C5: a shutdown makes the machine safe, from every state in which the table of objects has no
  half-made entry (after a failed allocation it has one, and the loops of the shutdown over
  objects of that type stop there), the links of the trigger signals form no cycle, the pool of moves is there if it was built
  and the sentinel ends the timer list half the clock range after the periodic timer.  In whatever
  order the shutdown functions of the eight modelled modules are linked (base commands, console
  encoder, trigger synchronisation, steppers, analog inputs, digital and pwm outputs, TMC uart), the
  shutdown comes to its end without starting again, and afterwards the machine is in the shutdown
  state, every stepper has no steps left, an empty queue and needs its clock set again, every
  digital output has its default flags and an empty queue, and its pin the default level (if no
  other object drives the pin), every pwm output was set to its default value and has an empty
  queue, no pin was driven otherwise in between, and only the periodic timer and timers of analog
  inputs are scheduled, so that no step or output event can follow.
\<close>

theorem shutdown_makes_safe:
  fixes m :: "'e serial_state_scheme"
  assumes "table_ok m" and "distinct order" and "set order = UNIV"
    and "acyclic (signal_links (signals m))" and "move_count m \<noteq> 0 \<longrightarrow> move_list m \<noteq> None"
    and "tnext (timers m SentinelTimer) = None"
    and "waketime (timers m SentinelTimer) = waketime (timers m PeriodicTimer) + 0x80000000"
  shows "\<exists>m'. recover (Suc n) (map run_shutdown_func order) reason m = Ok () m' \<and> safe_after m m'"
  using run_shutdown_safe [OF assms, of reason] by (auto simp: recover.simps)

definition sample_fw :: serial_state where
  "sample_fw = (serial_init sample_config sample_board)\<lparr>oid_count := 3,
     oids := Some (\<lambda>i. \<lparr>otyp = Some (if i = 0 then config_stepper else if i = 1 then config_digital_out else config_pwm_out),
       odata = Some 0x1000\<rparr>),
     steppers := (\<lambda>_. zero_stepper\<lparr>st_count := 5, step_pin := 8, dir_pin := 9\<rparr>),
     digital_outs := (\<lambda>_. zero_digital_out\<lparr>do_pin := 7, do_flags := DF_ON\<rparr>),
     pwm_outs := (\<lambda>_. zero_pwm_out\<lparr>po_pin := 6\<rparr>),
     signals := (\<lambda>_. zero_signal), timers := timers_init, move_count := 0\<rparr>"

definition sample_order :: "shutdown_func list" where
  "sample_order = [stepper_shutdown_f, move_reset_f, trsync_shutdown_f, sendf_shutdown_f, pwm_shutdown_f,
     digital_out_shutdown_f, analog_in_shutdown_f, tmcuart_shutdown_f]"

lemma sample_order_all: "set sample_order = UNIV"
proof -
  have "f \<in> set sample_order" for f by (cases f) (simp_all add: sample_order_def)
  then show ?thesis by blast
qed

lemma sample_objects:
  "objects sample_fw config_stepper = {0}" "objects sample_fw config_digital_out = {1}" "objects sample_fw config_tmcuart = {}"
  by (simp_all add: objects_def objs_def sample_fw_def upto_3)

theorem shutdown_makes_safe_witness:
  "\<exists>m'. recover 1 (map run_shutdown_func sample_order) ''Command request'' sample_fw = Ok () m' \<and>
     st_count (steppers m' 0) = 0 \<and> pin_level 7 (out m') = Some False \<and> shutdown_status m' = 1"
proof -
  have "\<exists>m'. recover (Suc 0) (map run_shutdown_func sample_order) ''Command request'' sample_fw = Ok () m' \<and> safe_after sample_fw m'"
  proof (rule shutdown_makes_safe)
    show "table_ok sample_fw" by (simp add: table_ok_def sample_fw_def)
    show "distinct sample_order" by (simp add: sample_order_def)
    show "set sample_order = UNIV" by (rule sample_order_all)
    show "acyclic (signal_links (signals sample_fw))"
      by (simp add: signal_links_def sample_fw_def zero_signal_def acyclic_def)
  qed (simp_all add: sample_fw_def timers_init_def)
  then obtain m' where m': "recover 1 (map run_shutdown_func sample_order) ''Command request'' sample_fw = Ok () m'"
    and safe: "safe_after sample_fw m'" by auto
  have pin: "own_pin sample_fw 1" "do_pin (digital_outs sample_fw 1) = 7" "\<not> default_on sample_fw 1"
    by (simp_all add: own_pin_def sample_objects) (simp_all add: sample_fw_def default_on_def has_flag_def df_defs)
  show ?thesis
    using m' safe pin unfolding safe_after_def sample_objects stopped_stepper_def by auto
qed

end
