(* ===== verification/Trapq.thy ===== *)
theory Trapq
  imports Complex_Main
begin

text \<open>
  The queue of moves with trapezoidal velocity, \<^verbatim>\<open>klippy/chelper/trapq.c\<close>.

  \<^item> The type \<^verbatim>\<open>double\<close> is modelled by the real numbers, so rounding is left out.
  \<^item> The list of moves includes its two sentinels; a pointer to a move in it is an index.
  \<^item> Freed moves just disappear.
\<close>

subsection \<open>State\<close>

record coord =
  cx :: real
  cy :: real
  cz :: real

record move =
  print_time :: real
  move_t :: real
  start_v :: real
  half_accel :: real
  start_pos :: coord
  axes_r :: coord

record trapq =
  tq_moves :: "move list"
  tq_history :: "move list"

record pull_move =
  pm_print_time :: real
  pm_move_t :: real
  pm_start_v :: real
  pm_accel :: real
  pm_start :: coord
  pm_r :: coord

definition zero_coord :: coord where
  "zero_coord = \<lparr>cx = 0, cy = 0, cz = 0\<rparr>"

definition zero_move :: move where
  "zero_move = \<lparr>print_time = 0, move_t = 0, start_v = 0, half_accel = 0, start_pos = zero_coord, axes_r = zero_coord\<rparr>"

definition NEVER_TIME :: real where "NEVER_TIME = 9999999999999999.9"
definition MAX_NULL_MOVE :: real where "MAX_NULL_MOVE = 1"
definition TRAPQ_HISTORY_EXPIRE :: real where "TRAPQ_HISTORY_EXPIRE = 30"

subsection \<open>Moves\<close>

definition move_get_distance :: "move \<Rightarrow> real \<Rightarrow> real" where
  "move_get_distance m move_time = (start_v m + half_accel m * move_time) * move_time"

definition move_get_coord :: "move \<Rightarrow> real \<Rightarrow> coord" where
  "move_get_coord m move_time =
     (let move_dist = move_get_distance m move_time in
      \<lparr>cx = cx (start_pos m) + cx (axes_r m) * move_dist,
       cy = cy (start_pos m) + cy (axes_r m) * move_dist,
       cz = cz (start_pos m) + cz (axes_r m) * move_dist\<rparr>)"

subsection \<open>The queue\<close>

definition trapq_alloc :: trapq where
  "trapq_alloc = \<lparr>tq_moves = [zero_move, zero_move\<lparr>print_time := NEVER_TIME, move_t := NEVER_TIME\<rparr>], tq_history = []\<rparr>"

definition trapq_check_sentinels :: "trapq \<Rightarrow> trapq" where
  "trapq_check_sentinels tq =
     (let ms = tq_moves tq; tail_sentinel = last ms; m = last (butlast ms) in
      if print_time tail_sentinel \<noteq> 0 then tq
      else if length ms = 2 then tq\<lparr>tq_moves := butlast ms @ [tail_sentinel\<lparr>print_time := NEVER_TIME\<rparr>]\<rparr>
      else tq\<lparr>tq_moves := butlast ms @ [tail_sentinel\<lparr>print_time := print_time m + move_t m,
                start_pos := move_get_coord m (move_t m)\<rparr>]\<rparr>)"

definition trapq_add_move :: "trapq \<Rightarrow> move \<Rightarrow> trapq" where
  "trapq_add_move tq m =
     (let ms = tq_moves tq; tail_sentinel = last ms; prev = last (butlast ms);
          null_time = (if print_time prev = 0 \<and> print_time m > MAX_NULL_MOVE
                       then print_time m - MAX_NULL_MOVE else print_time prev + move_t prev);
          null_moves = (if print_time prev + move_t prev < print_time m
                        then [zero_move\<lparr>start_pos := start_pos m, print_time := null_time,
                                move_t := print_time m - null_time\<rparr>]
                        else [])
      in tq\<lparr>tq_moves := butlast ms @ null_moves @ [m, tail_sentinel\<lparr>print_time := 0\<rparr>]\<rparr>)"

definition trapq_append ::
  "trapq \<Rightarrow> real \<Rightarrow> real \<Rightarrow> real \<Rightarrow> real \<Rightarrow> coord \<Rightarrow> coord \<Rightarrow> real \<Rightarrow> real \<Rightarrow> real \<Rightarrow> trapq" where
  "trapq_append tq time0 accel_t cruise_t decel_t pos0 r v0 cruise_v accel =
     (let m1 = \<lparr>print_time = time0, move_t = accel_t, start_v = v0, half_accel = 0.5 * accel,
                start_pos = pos0, axes_r = r\<rparr>;
          (tq1, time1, pos1) = (if accel_t \<noteq> 0
            then (trapq_add_move tq m1, time0 + accel_t, move_get_coord m1 accel_t)
            else (tq, time0, pos0));
          m2 = \<lparr>print_time = time1, move_t = cruise_t, start_v = cruise_v, half_accel = 0,
                start_pos = pos1, axes_r = r\<rparr>;
          (tq2, time2, pos2) = (if cruise_t \<noteq> 0
            then (trapq_add_move tq1 m2, time1 + cruise_t, move_get_coord m2 cruise_t)
            else (tq1, time1, pos1));
          m3 = \<lparr>print_time = time2, move_t = decel_t, start_v = cruise_v, half_accel = - 0.5 * accel,
                start_pos = pos2, axes_r = r\<rparr>
      in if decel_t \<noteq> 0 then trapq_add_move tq2 m3 else tq2)"

text \<open>The moves between the sentinels; the flag tells that none is left.\<close>

fun finalize_loop :: "real \<Rightarrow> move list \<Rightarrow> move list \<Rightarrow> move list \<times> move list \<times> bool" where
  "finalize_loop t [] history = ([], history, True)"
| "finalize_loop t (m # ms) history =
     (if print_time m + move_t m > t then (m # ms, history, False)
      else finalize_loop t ms (if start_v m \<noteq> 0 \<or> half_accel m \<noteq> 0 then m # history else history))"

definition expire_history :: "move list \<Rightarrow> move list" where
  "expire_history history = (case history of
     [] \<Rightarrow> []
   | latest # older \<Rightarrow>
       let expire_time = print_time latest + move_t latest - TRAPQ_HISTORY_EXPIRE
       in latest # rev (dropWhile (\<lambda>m. \<not> print_time m + move_t m > expire_time) (rev older)))"

definition trapq_finalize_moves :: "trapq \<Rightarrow> real \<Rightarrow> trapq" where
  "trapq_finalize_moves tq t =
     (let ms = tq_moves tq; tail_sentinel = last ms;
          (left, history, all) = finalize_loop t (butlast (tl ms)) (tq_history tq);
          tail = (if all then tail_sentinel\<lparr>print_time := NEVER_TIME\<rparr> else tail_sentinel)
      in \<lparr>tq_moves = hd ms # left @ [tail], tq_history = expire_history history\<rparr>)"

fun prune_history :: "real \<Rightarrow> move list \<Rightarrow> move list" where
  "prune_history t [] = []"
| "prune_history t (m # ms) =
     (if print_time m < t
      then (if print_time m + move_t m > t then m\<lparr>move_t := t - print_time m\<rparr> else m) # ms
      else prune_history t ms)"

definition trapq_set_position :: "trapq \<Rightarrow> real \<Rightarrow> coord \<Rightarrow> trapq" where
  "trapq_set_position tq t pos =
     (let tq1 = trapq_finalize_moves tq NEVER_TIME
      in tq1\<lparr>tq_history := zero_move\<lparr>print_time := t, start_pos := pos\<rparr> # prune_history t (tq_history tq1)\<rparr>)"

fun extract_loop :: "move list \<Rightarrow> nat \<Rightarrow> real \<Rightarrow> real \<Rightarrow> pull_move list" where
  "extract_loop [] left start_time end_time = []"
| "extract_loop (m # ms) left start_time end_time =
     (if start_time \<ge> print_time m + move_t m \<or> left = 0 then []
      else if end_time \<le> print_time m then extract_loop ms left start_time end_time
      else \<lparr>pm_print_time = print_time m, pm_move_t = move_t m, pm_start_v = start_v m, pm_accel = 2 * half_accel m,
             pm_start = start_pos m, pm_r = axes_r m\<rparr> # extract_loop ms (left - 1) start_time end_time)"

definition trapq_extract_old :: "trapq \<Rightarrow> nat \<Rightarrow> real \<Rightarrow> real \<Rightarrow> pull_move list" where
  "trapq_extract_old tq max_moves start_time end_time = extract_loop (tq_history tq) max_moves start_time end_time"

end
