(* ===== verification/Kinematics.thy ===== *)
theory Kinematics
  imports Trapq
begin

text \<open>
  The positions of the steppers for the kinematics of \<^verbatim>\<open>klippy/chelper/kin_*.c\<close>.

  \<^item> A kinematics is a value that holds the parameters of its C struct; \<^verbatim>\<open>calc_position_cb\<close> is the
    function \<open>calc_position_cb\<close> on it.  \<open>ms\<close> is the list of moves and \<open>i\<close> the index of the move.
  \<^item> The result \<open>None\<close> stands for a walk past an end of the list of moves.
  \<^item> \<^verbatim>\<open>sqrt\<close> and divisions are those of the real numbers; where C gives a NaN or an infinity the
    model gives some real number.
\<close>

subsection \<open>Linear kinematics\<close>

definition cart_stepper_x_calc_position :: "move \<Rightarrow> real \<Rightarrow> real" where
  "cart_stepper_x_calc_position m move_time = cx (move_get_coord m move_time)"

definition cart_stepper_y_calc_position :: "move \<Rightarrow> real \<Rightarrow> real" where
  "cart_stepper_y_calc_position m move_time = cy (move_get_coord m move_time)"

definition cart_stepper_z_calc_position :: "move \<Rightarrow> real \<Rightarrow> real" where
  "cart_stepper_z_calc_position m move_time = cz (move_get_coord m move_time)"

definition cart_reverse_stepper_x_calc_position :: "move \<Rightarrow> real \<Rightarrow> real" where
  "cart_reverse_stepper_x_calc_position m move_time = - cx (move_get_coord m move_time)"

definition cart_reverse_stepper_y_calc_position :: "move \<Rightarrow> real \<Rightarrow> real" where
  "cart_reverse_stepper_y_calc_position m move_time = - cy (move_get_coord m move_time)"

definition cart_reverse_stepper_z_calc_position :: "move \<Rightarrow> real \<Rightarrow> real" where
  "cart_reverse_stepper_z_calc_position m move_time = - cz (move_get_coord m move_time)"

definition corexy_stepper_plus_calc_position :: "move \<Rightarrow> real \<Rightarrow> real" where
  "corexy_stepper_plus_calc_position m move_time = (let c = move_get_coord m move_time in cx c + cy c)"

definition corexy_stepper_minus_calc_position :: "move \<Rightarrow> real \<Rightarrow> real" where
  "corexy_stepper_minus_calc_position m move_time = (let c = move_get_coord m move_time in cx c - cy c)"

definition corexz_stepper_plus_calc_position :: "move \<Rightarrow> real \<Rightarrow> real" where
  "corexz_stepper_plus_calc_position m move_time = (let c = move_get_coord m move_time in cx c + cz c)"

definition corexz_stepper_minus_calc_position :: "move \<Rightarrow> real \<Rightarrow> real" where
  "corexz_stepper_minus_calc_position m move_time = (let c = move_get_coord m move_time in cx c - cz c)"

definition polar_stepper_radius_calc_position :: "move \<Rightarrow> real \<Rightarrow> real" where
  "polar_stepper_radius_calc_position m move_time = (let c = move_get_coord m move_time in sqrt (cx c * cx c + cy c * cy c))"

lemmas calc_position_defs = cart_stepper_x_calc_position_def cart_stepper_y_calc_position_def cart_stepper_z_calc_position_def
  cart_reverse_stepper_x_calc_position_def cart_reverse_stepper_y_calc_position_def cart_reverse_stepper_z_calc_position_def
  corexy_stepper_plus_calc_position_def corexy_stepper_minus_calc_position_def corexz_stepper_plus_calc_position_def
  corexz_stepper_minus_calc_position_def polar_stepper_radius_calc_position_def

subsection \<open>Functions of the coordinate\<close>

text \<open>\<^verbatim>\<open>atan2\<close> of the C library.\<close>

definition atan2 :: "real \<Rightarrow> real \<Rightarrow> real" where
  "atan2 y x = Arg (Complex x y)"

definition delta_position :: "real \<Rightarrow> real \<Rightarrow> real \<Rightarrow> coord \<Rightarrow> real" where
  "delta_position arm2 tower_x tower_y c =
     (let dx = tower_x - cx c; dy = tower_y - cy c in sqrt (arm2 - dx * dx - dy * dy) + cz c)"

definition deltesian_position :: "real \<Rightarrow> real \<Rightarrow> coord \<Rightarrow> real" where
  "deltesian_position arm2 arm_x c = (let dx = cx c - arm_x in sqrt (arm2 - dx * dx) + cz c)"

definition winch_position :: "coord \<Rightarrow> coord \<Rightarrow> real" where
  "winch_position anchor c =
     (let dx = cx anchor - cx c; dy = cy anchor - cy c; dz = cz anchor - cz c
      in sqrt (dx * dx + dy * dy + dz * dz))"

definition polar_angle :: "real \<Rightarrow> coord \<Rightarrow> real" where
  "polar_angle commanded_pos c =
     (let angle = atan2 (cy c) (cx c) in
      if angle - commanded_pos > pi then angle - 2 * pi
      else if angle - commanded_pos < - pi then angle + 2 * pi
      else angle)"

definition polar_stepper_angle_post_fixup :: "real \<Rightarrow> real" where
  "polar_stepper_angle_post_fixup commanded_pos =
     (if commanded_pos < - pi then commanded_pos + 2 * pi
      else if commanded_pos > pi then commanded_pos - 2 * pi
      else commanded_pos)"

definition rotary_two_arm_calc :: "real \<Rightarrow> real \<Rightarrow> real \<Rightarrow> real \<Rightarrow> real" where
  "rotary_two_arm_calc dx dy upper_arm2 lower_arm2 =
     (let inv_dy = 1 / dy;
          c1 = 0.5 * inv_dy * (dx * dx + dy * dy + upper_arm2 - lower_arm2);
          c2 = dx * inv_dy;
          scale = c2 * c2 + 1;
          scaled_elbow_x = c1 * c2 + sqrt (scale * upper_arm2 - c1 * c1);
          scaled_elbow_y = c1 * scale - c2 * scaled_elbow_x
      in atan2 scaled_elbow_y scaled_elbow_x)"

record rotary_stepper =
  rs_cos :: real
  rs_sin :: real
  shoulder_radius :: real
  shoulder_height :: real
  upper_arm2 :: real
  lower_arm2 :: real

definition rotary_position :: "rotary_stepper \<Rightarrow> coord \<Rightarrow> real" where
  "rotary_position rs c =
     (let sjz = cy c * rs_cos rs - cx c * rs_sin rs;
          sjx = cx c * rs_cos rs + cy c * rs_sin rs - shoulder_radius rs;
          sjy = cz c - shoulder_height rs
      in rotary_two_arm_calc sjx sjy (upper_arm2 rs) (lower_arm2 rs - sjz * sjz))"

subsection \<open>Pressure advance\<close>

definition extruder_integrate :: "real \<Rightarrow> real \<Rightarrow> real \<Rightarrow> real \<Rightarrow> real \<Rightarrow> real" where
  "extruder_integrate base v ha s e =
     (let half_v = 0.5 * v; sixth_a = 1 / 3 * ha;
          si = s * (base + s * (half_v + s * sixth_a));
          ei = e * (base + e * (half_v + e * sixth_a))
      in ei - si)"

definition extruder_integrate_time :: "real \<Rightarrow> real \<Rightarrow> real \<Rightarrow> real \<Rightarrow> real \<Rightarrow> real" where
  "extruder_integrate_time base v ha s e =
     (let half_b = 0.5 * base; third_v = 1 / 3 * v; eighth_a = 0.25 * ha;
          si = s * s * (half_b + s * (third_v + s * eighth_a));
          ei = e * e * (half_b + e * (third_v + e * eighth_a))
      in ei - si)"

definition pa_move_integrate :: "move \<Rightarrow> real \<Rightarrow> real \<Rightarrow> real \<Rightarrow> real \<Rightarrow> real \<Rightarrow> real" where
  "pa_move_integrate m pressure_advance base s e time_offset =
     (let s = (if s < 0 then 0 else s);
          e = (if e > move_t m then move_t m else e);
          pa = (if cy (axes_r m) \<noteq> 0 then pressure_advance else 0);
          base = base + pa * start_v m;
          v = start_v m + pa * 2 * half_accel m;
          ha = half_accel m;
          iext = extruder_integrate base v ha s e;
          wgt_ext = extruder_integrate_time base v ha s e
      in wgt_ext - time_offset * iext)"

fun pa_prev_loop :: "move list \<Rightarrow> real \<Rightarrow> real \<Rightarrow> nat \<Rightarrow> real \<Rightarrow> real \<Rightarrow> real option" where
  "pa_prev_loop ms pa start_base i s res =
     (if s < 0 then
        (case i of
           0 \<Rightarrow> None
         | Suc j \<Rightarrow>
             let prev = ms ! j; s' = s + move_t prev
             in pa_prev_loop ms pa start_base j s'
                  (res + pa_move_integrate prev pa (cx (start_pos prev) - start_base) s' (move_t prev) s'))
      else Some res)"

function pa_next_loop :: "move list \<Rightarrow> real \<Rightarrow> real \<Rightarrow> nat \<Rightarrow> real \<Rightarrow> real \<Rightarrow> real option" where
  "pa_next_loop ms pa start_base i e res =
     (if e > move_t (ms ! i) then
        (if Suc i < length ms then
           let e' = e - move_t (ms ! i); m = ms ! Suc i
           in pa_next_loop ms pa start_base (Suc i) e'
                (res - pa_move_integrate m pa (cx (start_pos m) - start_base) 0 e' e')
         else None)
      else Some res)"
  by pat_completeness auto
termination by (relation "measure (\<lambda>(ms, _, _, i, _, _). length ms - i)") auto

declare pa_prev_loop.simps [simp del] pa_next_loop.simps [simp del]

definition pa_range_integrate :: "move list \<Rightarrow> nat \<Rightarrow> real \<Rightarrow> real \<Rightarrow> real \<Rightarrow> real option" where
  "pa_range_integrate ms i move_time pa hst =
     (let m = ms ! i; s = move_time - hst; e = move_time + hst; start_base = cx (start_pos m);
          res = pa_move_integrate m pa 0 s move_time s - pa_move_integrate m pa 0 move_time e e
      in Option.bind (pa_prev_loop ms pa start_base i s res) (pa_next_loop ms pa start_base i e))"

record extruder_stepper =
  pressure_advance :: real
  half_smooth_time :: real
  inv_half_smooth_time2 :: real

definition extruder_position :: "extruder_stepper \<Rightarrow> move list \<Rightarrow> nat \<Rightarrow> real \<Rightarrow> real option" where
  "extruder_position es ms i move_time =
     (let hst = half_smooth_time es; m = ms ! i in
      if hst = 0 then Some (cx (start_pos m) + move_get_distance m move_time)
      else map_option (\<lambda>area. cx (start_pos m) + area * inv_half_smooth_time2 es)
             (pa_range_integrate ms i move_time (pressure_advance es) hst))"

subsection \<open>Input shaping\<close>

text \<open>The pulses in use, with their times and weights.\<close>

type_synonym pulses = "(real \<times> real) list"

definition shift_pulses :: "pulses \<Rightarrow> pulses" where
  "shift_pulses sp = (let ts = (\<Sum>(t, a) \<leftarrow> sp. a * t) in map (\<lambda>(t, a). (t - ts, a)) sp)"

text \<open>The array has five entries; the flag is \<open>False\<close> when there are more.\<close>

definition init_shaper :: "real list \<Rightarrow> real list \<Rightarrow> bool \<times> pulses" where
  "init_shaper a t =
     (if length a > 5 then (False, [])
      else let inv_a = 1 / sum_list a
           in (True, shift_pulses (rev (map (\<lambda>(x, y). (- y, x * inv_a)) (zip a t)))))"

fun walk_back :: "move list \<Rightarrow> nat \<Rightarrow> real \<Rightarrow> (nat \<times> real) option" where
  "walk_back ms i t =
     (if t < 0 then (case i of 0 \<Rightarrow> None | Suc j \<Rightarrow> walk_back ms j (t + move_t (ms ! j)))
      else Some (i, t))"

function walk_on :: "move list \<Rightarrow> nat \<Rightarrow> real \<Rightarrow> (nat \<times> real) option" where
  "walk_on ms i t =
     (if t > move_t (ms ! i)
      then (if Suc i < length ms then walk_on ms (Suc i) (t - move_t (ms ! i)) else None)
      else Some (i, t))"
  by pat_completeness auto
termination by (relation "measure (\<lambda>(ms, i, _). length ms - i)") auto

declare walk_back.simps [simp del] walk_on.simps [simp del]

definition get_axis_position :: "(coord \<Rightarrow> real) \<Rightarrow> move \<Rightarrow> real \<Rightarrow> real" where
  "get_axis_position axis m move_time =
     (let axis_r = axis (axes_r m); pos = axis (start_pos m); move_dist = move_get_distance m move_time
      in pos + axis_r * move_dist)"

definition get_axis_position_across_moves :: "(coord \<Rightarrow> real) \<Rightarrow> move list \<Rightarrow> nat \<Rightarrow> real \<Rightarrow> real option" where
  "get_axis_position_across_moves axis ms i t =
     Option.bind (walk_back ms i t) (\<lambda>(i', t').
     map_option (\<lambda>(j, u). get_axis_position axis (ms ! j) u) (walk_on ms i' t'))"

fun shaper_calc_position :: "(coord \<Rightarrow> real) \<Rightarrow> move list \<Rightarrow> nat \<Rightarrow> real \<Rightarrow> pulses \<Rightarrow> real option" where
  "shaper_calc_position axis ms i move_time [] = Some 0"
| "shaper_calc_position axis ms i move_time ((t, a) # sp) =
     Option.bind (get_axis_position_across_moves axis ms i (move_time + t)) (\<lambda>p.
     map_option (\<lambda>res. a * p + res) (shaper_calc_position axis ms i move_time sp))"

definition DUMMY_T :: real where "DUMMY_T = 500"

subsection \<open>All kinematics\<close>

definition AF_X :: nat where "AF_X = 1"
definition AF_Y :: nat where "AF_Y = 2"
definition AF_Z :: nat where "AF_Z = 4"

datatype kinematics =
    cart_stepper_x | cart_stepper_y | cart_stepper_z
  | cart_reverse_stepper_x | cart_reverse_stepper_y | cart_reverse_stepper_z
  | corexy_stepper_plus | corexy_stepper_minus
  | corexz_stepper_plus | corexz_stepper_minus
  | delta_stepper real real real
  | deltesian_stepper real real
  | polar_stepper_radius | polar_stepper_angle
  | rotary_delta_stepper rotary_stepper
  | winch_stepper coord
  | extruder_stepper_kin extruder_stepper
  | input_shaper kinematics real coord pulses pulses

text \<open>
  An input shaper holds the kinematics it wraps with its \<^verbatim>\<open>commanded_pos\<close>, the coordinate of its
  scratch move, and the pulses for x and y.
\<close>

text \<open>
  The constructors; \<open>None\<close> stands for a stepper that is left without a function for its position.
\<close>

definition cartesian_stepper_alloc :: "char \<Rightarrow> kinematics option" where
  "cartesian_stepper_alloc axis =
     (if axis = CHR ''x'' then Some cart_stepper_x
      else if axis = CHR ''y'' then Some cart_stepper_y
      else if axis = CHR ''z'' then Some cart_stepper_z
      else None)"

definition cartesian_reverse_stepper_alloc :: "char \<Rightarrow> kinematics option" where
  "cartesian_reverse_stepper_alloc axis =
     (if axis = CHR ''x'' then Some cart_reverse_stepper_x
      else if axis = CHR ''y'' then Some cart_reverse_stepper_y
      else if axis = CHR ''z'' then Some cart_reverse_stepper_z
      else None)"

definition corexy_stepper_alloc :: "char \<Rightarrow> kinematics option" where
  "corexy_stepper_alloc type =
     (if type = CHR ''+'' then Some corexy_stepper_plus else if type = CHR ''-'' then Some corexy_stepper_minus else None)"

definition corexz_stepper_alloc :: "char \<Rightarrow> kinematics option" where
  "corexz_stepper_alloc type =
     (if type = CHR ''+'' then Some corexz_stepper_plus else if type = CHR ''-'' then Some corexz_stepper_minus else None)"

definition delta_stepper_alloc :: "real \<Rightarrow> real \<Rightarrow> real \<Rightarrow> kinematics" where
  "delta_stepper_alloc arm2 tower_x tower_y = delta_stepper arm2 tower_x tower_y"

definition deltesian_stepper_alloc :: "real \<Rightarrow> real \<Rightarrow> kinematics" where
  "deltesian_stepper_alloc arm2 arm_x = deltesian_stepper arm2 arm_x"

definition polar_stepper_alloc :: "char \<Rightarrow> kinematics option" where
  "polar_stepper_alloc type =
     (if type = CHR ''r'' then Some polar_stepper_radius else if type = CHR ''a'' then Some polar_stepper_angle else None)"

definition rotary_delta_stepper_alloc :: "real \<Rightarrow> real \<Rightarrow> real \<Rightarrow> real \<Rightarrow> real \<Rightarrow> kinematics" where
  "rotary_delta_stepper_alloc radius height angle upper_arm lower_arm =
     rotary_delta_stepper \<lparr>rs_cos = cos angle, rs_sin = sin angle, shoulder_radius = radius, shoulder_height = height,
       upper_arm2 = upper_arm * upper_arm, lower_arm2 = lower_arm * lower_arm\<rparr>"

definition winch_stepper_alloc :: "real \<Rightarrow> real \<Rightarrow> real \<Rightarrow> kinematics" where
  "winch_stepper_alloc anchor_x anchor_y anchor_z = winch_stepper \<lparr>cx = anchor_x, cy = anchor_y, cz = anchor_z\<rparr>"

definition extruder_stepper_alloc :: kinematics where
  "extruder_stepper_alloc =
     extruder_stepper_kin \<lparr>pressure_advance = 0, half_smooth_time = 0, inv_half_smooth_time2 = 0\<rparr>"

fun active_flags :: "kinematics \<Rightarrow> nat" where
  "active_flags cart_stepper_x = AF_X"
| "active_flags cart_stepper_y = AF_Y"
| "active_flags cart_stepper_z = AF_Z"
| "active_flags cart_reverse_stepper_x = AF_X"
| "active_flags cart_reverse_stepper_y = AF_Y"
| "active_flags cart_reverse_stepper_z = AF_Z"
| "active_flags corexy_stepper_plus = AF_X + AF_Y"
| "active_flags corexy_stepper_minus = AF_X + AF_Y"
| "active_flags corexz_stepper_plus = AF_X + AF_Z"
| "active_flags corexz_stepper_minus = AF_X + AF_Z"
| "active_flags (delta_stepper _ _ _) = AF_X + AF_Y + AF_Z"
| "active_flags (deltesian_stepper _ _) = AF_X + AF_Z"
| "active_flags polar_stepper_radius = AF_X + AF_Y"
| "active_flags polar_stepper_angle = AF_X + AF_Y"
| "active_flags (rotary_delta_stepper _) = AF_X + AF_Y + AF_Z"
| "active_flags (winch_stepper _) = AF_X + AF_Y + AF_Z"
| "active_flags (extruder_stepper_kin _) = AF_X"
| "active_flags (input_shaper orig _ _ _ _) = active_flags orig"

definition scratch_move :: "coord \<Rightarrow> move" where
  "scratch_move c = zero_move\<lparr>start_pos := c, move_t := 2 * DUMMY_T\<rparr>"

text \<open>\<open>orig_cb\<close> is the function for the position of the kinematics that the shaper wraps.\<close>

definition shaper_x_calc_position ::
  "(move list \<Rightarrow> nat \<Rightarrow> real \<Rightarrow> real option) \<Rightarrow> coord \<Rightarrow> pulses \<Rightarrow> move list \<Rightarrow> nat \<Rightarrow> real \<Rightarrow> real option" where
  "shaper_x_calc_position orig_cb c sx ms i move_time =
     (if sx = [] then orig_cb ms i move_time
      else Option.bind (shaper_calc_position cx ms i move_time sx) (\<lambda>x. orig_cb [scratch_move (c\<lparr>cx := x\<rparr>)] 0 DUMMY_T))"

definition shaper_y_calc_position ::
  "(move list \<Rightarrow> nat \<Rightarrow> real \<Rightarrow> real option) \<Rightarrow> coord \<Rightarrow> pulses \<Rightarrow> move list \<Rightarrow> nat \<Rightarrow> real \<Rightarrow> real option" where
  "shaper_y_calc_position orig_cb c sy ms i move_time =
     (if sy = [] then orig_cb ms i move_time
      else Option.bind (shaper_calc_position cy ms i move_time sy) (\<lambda>y. orig_cb [scratch_move (c\<lparr>cy := y\<rparr>)] 0 DUMMY_T))"

definition shaper_xy_calc_position ::
  "(move list \<Rightarrow> nat \<Rightarrow> real \<Rightarrow> real option) \<Rightarrow> pulses \<Rightarrow> pulses \<Rightarrow> move list \<Rightarrow> nat \<Rightarrow> real \<Rightarrow> real option" where
  "shaper_xy_calc_position orig_cb sx sy ms i move_time =
     (if sx = [] \<and> sy = [] then orig_cb ms i move_time
      else
        let c = move_get_coord (ms ! i) move_time in
        Option.bind (if sx \<noteq> [] then map_option (\<lambda>x. c\<lparr>cx := x\<rparr>) (shaper_calc_position cx ms i move_time sx) else Some c) (\<lambda>c.
        Option.bind (if sy \<noteq> [] then map_option (\<lambda>y. c\<lparr>cy := y\<rparr>) (shaper_calc_position cy ms i move_time sy) else Some c) (\<lambda>c.
        orig_cb [scratch_move c] 0 DUMMY_T)))"

fun calc_position_cb :: "kinematics \<Rightarrow> real \<Rightarrow> move list \<Rightarrow> nat \<Rightarrow> real \<Rightarrow> real option" where
  "calc_position_cb cart_stepper_x pos ms i t = Some (cart_stepper_x_calc_position (ms ! i) t)"
| "calc_position_cb cart_stepper_y pos ms i t = Some (cart_stepper_y_calc_position (ms ! i) t)"
| "calc_position_cb cart_stepper_z pos ms i t = Some (cart_stepper_z_calc_position (ms ! i) t)"
| "calc_position_cb cart_reverse_stepper_x pos ms i t = Some (cart_reverse_stepper_x_calc_position (ms ! i) t)"
| "calc_position_cb cart_reverse_stepper_y pos ms i t = Some (cart_reverse_stepper_y_calc_position (ms ! i) t)"
| "calc_position_cb cart_reverse_stepper_z pos ms i t = Some (cart_reverse_stepper_z_calc_position (ms ! i) t)"
| "calc_position_cb corexy_stepper_plus pos ms i t = Some (corexy_stepper_plus_calc_position (ms ! i) t)"
| "calc_position_cb corexy_stepper_minus pos ms i t = Some (corexy_stepper_minus_calc_position (ms ! i) t)"
| "calc_position_cb corexz_stepper_plus pos ms i t = Some (corexz_stepper_plus_calc_position (ms ! i) t)"
| "calc_position_cb corexz_stepper_minus pos ms i t = Some (corexz_stepper_minus_calc_position (ms ! i) t)"
| "calc_position_cb (delta_stepper arm2 tower_x tower_y) pos ms i t =
     Some (delta_position arm2 tower_x tower_y (move_get_coord (ms ! i) t))"
| "calc_position_cb (deltesian_stepper arm2 arm_x) pos ms i t =
     Some (deltesian_position arm2 arm_x (move_get_coord (ms ! i) t))"
| "calc_position_cb polar_stepper_radius pos ms i t = Some (polar_stepper_radius_calc_position (ms ! i) t)"
| "calc_position_cb polar_stepper_angle pos ms i t = Some (polar_angle pos (move_get_coord (ms ! i) t))"
| "calc_position_cb (rotary_delta_stepper rs) pos ms i t = Some (rotary_position rs (move_get_coord (ms ! i) t))"
| "calc_position_cb (winch_stepper anchor) pos ms i t = Some (winch_position anchor (move_get_coord (ms ! i) t))"
| "calc_position_cb (extruder_stepper_kin es) pos ms i t = extruder_position es ms i t"
| "calc_position_cb (input_shaper orig orig_pos c sx sy) pos ms i t =
     (if active_flags orig = AF_X then shaper_x_calc_position (calc_position_cb orig orig_pos) c sx ms i t
      else if active_flags orig = AF_Y then shaper_y_calc_position (calc_position_cb orig orig_pos) c sy ms i t
      else shaper_xy_calc_position (calc_position_cb orig orig_pos) sx sy ms i t)"

text \<open>The shaper supports a kinematics that moves in x or y.\<close>

definition input_shaper_set_sk :: "kinematics \<Rightarrow> real \<Rightarrow> kinematics option" where
  "input_shaper_set_sk orig orig_pos =
     (if active_flags orig = AF_X \<or> active_flags orig = AF_Y \<or> odd (active_flags orig) \<or> odd (active_flags orig div 2)
      then Some (input_shaper orig orig_pos zero_coord [] []) else None)"

end
