(* ===== verification/Itersolve.thy ===== *)
theory Itersolve
  imports Stepcompress Kinematics
begin

text \<open>
  The iterative solver for step times, \<^verbatim>\<open>klippy/chelper/itersolve.c\<close>: it searches the times at which
  a stepper reaches the next half step and hands them to the step compression.

  \<^item> The search loop has the position function and the two functions of \<^verbatim>\<open>stepcompress.c\<close> it calls as
    arguments; \<open>itersolve_gen_steps_range\<close> supplies them.  A search that does not end is \<open>None\<close>, like
    undefined behaviour in one of these functions.
  \<^item> A secant through two guesses at the same height gives a NaN or an infinity in C, which fails the
    bounds check; here there is no such guess.
\<close>

subsection \<open>State\<close>

record stepper_kinematics =
  step_dist :: real
  commanded_pos :: real
  sk_sc :: stepcompress
  last_flush_time :: real
  last_move_time :: real
  gen_steps_pre_active :: real
  gen_steps_post_active :: real
  sk_kin :: kinematics

definition SEEK_TIME_RESET :: real where "SEEK_TIME_RESET = 0.0001"

text \<open>The local variables of the search loop.\<close>

record seek =
  guess_t :: real
  guess_p :: real
  old_t :: real
  old_p :: real
  target :: real
  last_time :: real
  low_time :: real
  high_time :: real
  seek_dir :: int
  is_dir_change :: bool
  have_bracket :: bool
  check_oscillate :: bool

subsection \<open>The search\<close>

definition secant :: "seek \<Rightarrow> real option" where
  "secant s =
     (let guess_dist = guess_p s - target s; og_dist = old_p s - target s in
      if guess_dist = og_dist then None
      else Some ((old_t s * guess_dist - guess_t s * og_dist) / (guess_dist - og_dist)))"

text \<open>The next guess, without its position yet; \<open>None\<close> when the search is over.\<close>

definition next_guess :: "real \<Rightarrow> seek \<Rightarrow> seek option" where
  "next_guess end_t s =
     (let try = (\<lambda>t s. Some (s\<lparr>old_t := guess_t s, old_p := guess_p s, guess_t := t\<rparr>));
          inside = (case secant s of None \<Rightarrow> False | Some t \<Rightarrow> t > low_time s \<and> t < high_time s) in
      if inside then try (the (secant s)) s
      else if have_bracket s then try ((low_time s + high_time s) * 0.5) (s\<lparr>check_oscillate := False\<rparr>)
      else if guess_t s \<ge> end_t then None
      else
        let high = 2 * high_time s - last_time s
        in try (high_time s) (s\<lparr>high_time := (if high > end_t then end_t else high)\<rparr>))"

datatype verdict = Found seek | Again bool seek

definition judge :: "real \<Rightarrow> seek \<Rightarrow> verdict" where
  "judge half_step s =
     (let guess_dist = guess_p s - target s in
      if \<bar>guess_dist\<bar> > 1 / 1000000000 then
        let rel_dist = (if seek_dir s \<noteq> 0 then guess_dist else - guess_dist);
            s' = (if rel_dist > 0 then
                    let s1 = (if have_bracket s \<and> old_t s \<le> low_time s
                              then (if check_oscillate s then s\<lparr>old_t := guess_t s, old_p := guess_p s\<rparr> else s)
                                     \<lparr>check_oscillate := True\<rparr>
                              else s)
                    in s1\<lparr>high_time := guess_t s, have_bracket := True\<rparr>
                  else if rel_dist < - (half_step + half_step + 1 / 100000000) then
                    let dir = (if seek_dir s \<noteq> 0 then 0 else 1)
                    in s\<lparr>seek_dir := dir,
                         target := (if dir \<noteq> 0 then target s + half_step + half_step else target s - half_step - half_step),
                         low_time := last_time s, high_time := guess_t s, is_dir_change := True, have_bracket := True,
                         check_oscillate := False\<rparr>
                  else s\<lparr>low_time := guess_t s\<rparr>)
        in if \<not> have_bracket s' \<or> high_time s' - low_time s' > 1 / 1000000000
           then Again (\<not> is_dir_change s' \<and> rel_dist \<ge> - half_step) s'
           else Found s'
      else Found s)"

text \<open>The bounds for the next step, after one has been submitted.\<close>

definition after_step :: "real \<Rightarrow> real \<Rightarrow> seek \<Rightarrow> seek" where
  "after_step half_step end_t s =
     (let d0 = 1.5 * (guess_t s - last_time s);
          d1 = (if d0 < 1 / 1000000000 then 1 / 1000000000 else d0);
          d2 = (if is_dir_change s \<and> d1 > SEEK_TIME_RESET then SEEK_TIME_RESET else d1);
          high = guess_t s + d2
      in s\<lparr>target := (if seek_dir s \<noteq> 0 then target s + half_step + half_step else target s - half_step - half_step),
           last_time := guess_t s, low_time := guess_t s, high_time := (if high > end_t then end_t else high),
           is_dir_change := False, have_bracket := False, check_oscillate := False\<rparr>)"

partial_function (option) seek_loop ::
  "(real \<Rightarrow> real option) \<Rightarrow> (int \<Rightarrow> real \<Rightarrow> 's \<Rightarrow> (bool \<times> 's) option) \<Rightarrow> ('s \<Rightarrow> (bool \<times> 's) option) \<Rightarrow> real \<Rightarrow> real
    \<Rightarrow> seek \<Rightarrow> 's \<Rightarrow> (bool \<times> seek \<times> 's) option" where
  "seek_loop pos submit commit half_step end_t s sc =
     (case next_guess end_t s of
        None \<Rightarrow> Some (True, s, sc)
      | Some s1 \<Rightarrow>
          Option.bind (pos (guess_t s1)) (\<lambda>p.
          case judge half_step (s1\<lparr>guess_p := p\<rparr>) of
            Again c s2 \<Rightarrow>
              if c then Option.bind (commit sc) (\<lambda>r. seek_loop pos submit commit half_step end_t s2 (snd r))
              else seek_loop pos submit commit half_step end_t s2 sc
          | Found s2 \<Rightarrow>
              Option.bind (submit (seek_dir s2) (guess_t s2) sc) (\<lambda>r.
              if fst r then seek_loop pos submit commit half_step end_t (after_step half_step end_t s2) (snd r)
              else Some (False, s2, snd r))))"

definition stepcompress_get_step_dir :: "stepcompress \<Rightarrow> int" where
  "stepcompress_get_step_dir sc = next_step_dir sc"

definition seek_start :: "real \<Rightarrow> real \<Rightarrow> real \<Rightarrow> int \<Rightarrow> real \<Rightarrow> seek" where
  "seek_start start_t end_t half_step dir commanded =
     \<lparr>guess_t = start_t, guess_p = commanded, old_t = start_t, old_p = commanded,
      target = commanded + (if dir \<noteq> 0 then half_step else - half_step),
      last_time = start_t, low_time = start_t,
      high_time = (if start_t + SEEK_TIME_RESET > end_t then end_t else start_t + SEEK_TIME_RESET),
      seek_dir = dir, is_dir_change = False, have_bracket = False, check_oscillate = False\<rparr>"

definition post_cb :: "kinematics \<Rightarrow> real \<Rightarrow> real" where
  "post_cb kin pos = (case kin of polar_stepper_angle \<Rightarrow> polar_stepper_angle_post_fixup pos | _ \<Rightarrow> pos)"

definition itersolve_gen_steps_range ::
  "move list \<Rightarrow> nat \<Rightarrow> real \<Rightarrow> real \<Rightarrow> stepper_kinematics \<Rightarrow> (bool \<times> stepper_kinematics) option" where
  "itersolve_gen_steps_range ms i abs_start abs_end sk =
     (let m = ms ! i;
          half_step = 0.5 * step_dist sk;
          s0 = abs_start - print_time m; e0 = abs_end - print_time m;
          start_t = (if s0 < 0 then 0 else s0);
          end_t = (if e0 > move_t m then move_t m else e0)
      in map_option (\<lambda>(ok, s, sc).
           if ok then (True, sk\<lparr>sk_sc := sc, commanded_pos :=
             post_cb (sk_kin sk) (target s - (if seek_dir s \<noteq> 0 then half_step else - half_step))\<rparr>)
           else (False, sk\<lparr>sk_sc := sc\<rparr>))
         (seek_loop (calc_position_cb (sk_kin sk) (commanded_pos sk) ms i)
            (\<lambda>dir t. stepcompress_append dir (print_time m) t) stepcompress_commit half_step end_t
            (seek_start start_t end_t half_step (stepcompress_get_step_dir (sk_sc sk)) (commanded_pos sk)) (sk_sc sk)))"

subsection \<open>Interface functions\<close>

definition check_active :: "stepper_kinematics \<Rightarrow> move \<Rightarrow> bool" where
  "check_active sk m =
     (let af = active_flags (sk_kin sk) in
      odd af \<and> cx (axes_r m) \<noteq> 0 \<or> odd (af div 2) \<and> cy (axes_r m) \<noteq> 0 \<or> odd (af div 4) \<and> cz (axes_r m) \<noteq> 0)"

text \<open>The first move that has not ended; \<open>None\<close> past the end of the list.\<close>

function first_move :: "move list \<Rightarrow> nat \<Rightarrow> real \<Rightarrow> nat option" where
  "first_move ms i t =
     (if i < length ms then
        (if t \<ge> print_time (ms ! i) + move_t (ms ! i) then first_move ms (Suc i) t else Some i)
      else None)"
  by pat_completeness auto
termination by (relation "measure (\<lambda>(ms, i, _). length ms - i)") auto

declare first_move.simps [simp del]

text \<open>How far to go back before an active move: \<^verbatim>\<open>while (--skip_count && ...)\<close>.\<close>

fun step_back :: "move list \<Rightarrow> real \<Rightarrow> nat \<Rightarrow> nat \<Rightarrow> nat option" where
  "step_back ms abs_start 0 pm = Some pm"
| "step_back ms abs_start (Suc n) pm =
     (if n \<noteq> 0 \<and> print_time (ms ! pm) > abs_start
      then (if pm = 0 then None else step_back ms abs_start n (pm - 1))
      else Some pm)"

function steps_upto :: "move list \<Rightarrow> nat \<Rightarrow> nat \<Rightarrow> real \<Rightarrow> real \<Rightarrow> stepper_kinematics \<Rightarrow> (bool \<times> stepper_kinematics) option" where
  "steps_upto ms pm i abs_start flush_time sk =
     (if pm < i then
        Option.bind (itersolve_gen_steps_range ms pm abs_start flush_time sk) (\<lambda>r.
        if fst r then steps_upto ms (Suc pm) i abs_start flush_time (snd r) else Some r)
      else Some (True, sk))"
  by pat_completeness auto
termination by (relation "measure (\<lambda>(_, pm, i, _, _, _). i - pm)") auto

declare steps_upto.simps [simp del]

function generate_loop ::
  "move list \<Rightarrow> nat \<Rightarrow> real \<Rightarrow> real \<Rightarrow> real \<Rightarrow> nat \<Rightarrow> stepper_kinematics \<Rightarrow> (bool \<times> stepper_kinematics) option" where
  "generate_loop ms i last_flush flush_time force_steps_time skip_count sk =
     (if i \<ge> length ms then None
      else
        let m = ms ! i; move_start = print_time m; move_end = move_start + move_t m in
        if check_active sk m then
          let pre = gen_steps_pre_active sk;
              a0 = move_start - pre;
              a1 = (if a0 < last_flush then last_flush else a0);
              abs_start = (if a1 < force_steps_time then force_steps_time else a1) in
          Option.bind
            (if skip_count \<noteq> 0 \<and> pre \<noteq> 0 then
               (if i = 0 then None
                else Option.bind (step_back ms abs_start skip_count (i - 1)) (\<lambda>pm.
                     steps_upto ms pm i abs_start flush_time sk))
             else Some (True, sk)) (\<lambda>r1.
          if \<not> fst r1 then Some r1
          else
            Option.bind (itersolve_gen_steps_range ms i last_flush flush_time (snd r1)) (\<lambda>r2.
            if \<not> fst r2 then Some r2
            else if move_end \<ge> flush_time then Some (True, (snd r2)\<lparr>last_move_time := flush_time\<rparr>)
            else generate_loop ms (Suc i) last_flush flush_time (move_end + gen_steps_post_active sk) 0
                   ((snd r2)\<lparr>last_move_time := move_end\<rparr>)))
        else if move_start < force_steps_time then
          Option.bind (itersolve_gen_steps_range ms i last_flush
              (if force_steps_time > flush_time then flush_time else force_steps_time) sk) (\<lambda>r.
          if \<not> fst r then Some r
          else if flush_time + gen_steps_pre_active sk \<le> move_end then Some (True, snd r)
          else generate_loop ms (Suc i) last_flush flush_time force_steps_time 1 (snd r))
        else if flush_time + gen_steps_pre_active sk \<le> move_end then Some (True, sk)
        else generate_loop ms (Suc i) last_flush flush_time force_steps_time (skip_count + 1) sk)"
  by pat_completeness auto
termination by (relation "measure (\<lambda>(ms, i, _). length ms - i)") auto

declare generate_loop.simps [simp del]

text \<open>\<open>tq\<close> is the queue the stepper follows, if any.\<close>

definition itersolve_generate_steps ::
  "stepper_kinematics \<Rightarrow> trapq option \<Rightarrow> real \<Rightarrow> (bool \<times> stepper_kinematics \<times> trapq option) option" where
  "itersolve_generate_steps sk tq flush_time =
     (let last_flush = last_flush_time sk; sk1 = sk\<lparr>last_flush_time := flush_time\<rparr> in
      case tq of
        None \<Rightarrow> Some (True, sk1, None)
      | Some q \<Rightarrow>
          let q1 = trapq_check_sentinels q; ms = tq_moves q1 in
          Option.bind (first_move ms 0 last_flush) (\<lambda>i.
          map_option (\<lambda>(ok, sk2). (ok, sk2, Some q1))
            (generate_loop ms i last_flush flush_time (last_move_time sk1 + gen_steps_post_active sk1) 0 sk1)))"

function active_loop :: "stepper_kinematics \<Rightarrow> move list \<Rightarrow> nat \<Rightarrow> real \<Rightarrow> real option" where
  "active_loop sk ms i flush_time =
     (if i \<ge> length ms then None
      else if check_active sk (ms ! i) then Some (print_time (ms ! i))
      else if flush_time \<le> print_time (ms ! i) + move_t (ms ! i) then Some 0
      else active_loop sk ms (Suc i) flush_time)"
  by pat_completeness auto
termination by (relation "measure (\<lambda>(_, ms, i, _). length ms - i)") auto

declare active_loop.simps [simp del]

definition itersolve_check_active :: "stepper_kinematics \<Rightarrow> trapq option \<Rightarrow> real \<Rightarrow> (real \<times> trapq option) option" where
  "itersolve_check_active sk tq flush_time = (case tq of
     None \<Rightarrow> Some (0, None)
   | Some q \<Rightarrow>
       let q1 = trapq_check_sentinels q; ms = tq_moves q1 in
       Option.bind (first_move ms 0 (last_flush_time sk)) (\<lambda>i.
       map_option (\<lambda>r. (r, Some q1)) (active_loop sk ms i flush_time)))"

definition itersolve_is_active_axis :: "stepper_kinematics \<Rightarrow> char \<Rightarrow> bool" where
  "itersolve_is_active_axis sk axis =
     (let a = (of_char axis :: nat) in
      if a < 120 \<or> a > 122 then False else odd (active_flags (sk_kin sk) div (2 ^ (a - 120))))"

definition itersolve_set_stepcompress :: "stepcompress \<Rightarrow> real \<Rightarrow> stepper_kinematics \<Rightarrow> stepper_kinematics" where
  "itersolve_set_stepcompress sc d sk = sk\<lparr>sk_sc := sc, step_dist := d\<rparr>"

text \<open>The queue of a stepper is kept beside it.\<close>

definition itersolve_set_trapq :: "trapq option \<Rightarrow> stepper_kinematics \<times> trapq option \<Rightarrow> stepper_kinematics \<times> trapq option" where
  "itersolve_set_trapq tq x = (fst x, tq)"

definition itersolve_calc_position_from_coord :: "stepper_kinematics \<Rightarrow> coord \<Rightarrow> real option" where
  "itersolve_calc_position_from_coord sk c =
     calc_position_cb (sk_kin sk) (commanded_pos sk) [zero_move\<lparr>start_pos := c, move_t := 1000\<rparr>] 0 500"

definition itersolve_set_position :: "coord \<Rightarrow> stepper_kinematics \<Rightarrow> stepper_kinematics option" where
  "itersolve_set_position c sk = map_option (\<lambda>p. sk\<lparr>commanded_pos := p\<rparr>) (itersolve_calc_position_from_coord sk c)"

definition itersolve_get_commanded_pos :: "stepper_kinematics \<Rightarrow> real" where
  "itersolve_get_commanded_pos sk = commanded_pos sk"

definition extruder_set_pressure_advance :: "real \<Rightarrow> real \<Rightarrow> stepper_kinematics \<Rightarrow> stepper_kinematics option" where
  "extruder_set_pressure_advance advance smooth_time sk = (case sk_kin sk of
     extruder_stepper_kin es \<Rightarrow>
       let hst = smooth_time * 0.5;
           es1 = es\<lparr>half_smooth_time := hst\<rparr>;
           es2 = (if hst = 0 then es1
                  else es1\<lparr>inv_half_smooth_time2 := 1 / (hst * hst), pressure_advance := advance\<rparr>)
       in Some (sk\<lparr>sk_kin := extruder_stepper_kin es2, gen_steps_pre_active := hst, gen_steps_post_active := hst\<rparr>)
   | _ \<Rightarrow> None)"

definition shaper_note_generation_time :: "nat \<Rightarrow> pulses \<Rightarrow> pulses \<Rightarrow> real \<times> real" where
  "shaper_note_generation_time af sx sy =
     (let (pre, post) = (if odd af \<and> sx \<noteq> [] then (fst (last sx), - fst (hd sx)) else (0, 0))
      in if odd (af div 2) \<and> sy \<noteq> []
         then ((if fst (last sy) > pre then fst (last sy) else pre), (if - fst (hd sy) > post then - fst (hd sy) else post))
         else (pre, post))"

text \<open>The flag of the result tells whether the status is 0.\<close>

definition input_shaper_set_shaper_params ::
  "char \<Rightarrow> real list \<Rightarrow> real list \<Rightarrow> stepper_kinematics \<Rightarrow> (bool \<times> stepper_kinematics) option" where
  "input_shaper_set_shaper_params axis a t sk =
     (if axis \<noteq> CHR ''x'' \<and> axis \<noteq> CHR ''y'' then Some (False, sk)
      else (case sk_kin sk of
        input_shaper orig pos c sx sy \<Rightarrow>
          let af = active_flags orig;
              (status, sp) = (if (if axis = CHR ''x'' then odd af else odd (af div 2)) then init_shaper a t else (True, []));
              (sx', sy') = (if axis = CHR ''x'' then (sp, sy) else (sx, sp));
              (pre, post) = shaper_note_generation_time af sx' sy'
          in Some (status, sk\<lparr>sk_kin := input_shaper orig pos c sx' sy', gen_steps_pre_active := pre,
               gen_steps_post_active := post\<rparr>)
      | _ \<Rightarrow> None))"

definition input_shaper_get_step_generation_window :: "real list \<Rightarrow> real list \<Rightarrow> real" where
  "input_shaper_get_step_generation_window a t =
     (let sp = snd (init_shaper a t) in
      if sp = [] then 0
      else if fst (last sp) > - fst (hd sp) then fst (last sp) else - fst (hd sp))"

end
