(* ===== verification/Step_Ends.thy ===== *)
theory Step_Ends
  imports Step_Search
begin

text \<open>
  Termination of the search.  Secants through points of a function of bounded speed cannot come
  arbitrarily close to the points they go through, so every second round of the search shrinks its
  bounds by a fixed amount, and a change of direction moves the bounds by the time for a whole step.
\<close>

subsection \<open>Searches that end\<close>

inductive search_ends :: "(real \<Rightarrow> real option) \<Rightarrow> real \<Rightarrow> real \<Rightarrow> seek \<Rightarrow> bool" for pos h b where
  stop: "next_guess b s = None \<Longrightarrow> search_ends pos h b s"
| found: "next_guess b s = Some s1 \<Longrightarrow> pos (guess_t s1) = Some p \<Longrightarrow> judge h (s1\<lparr>guess_p := p\<rparr>) = Found s2 \<Longrightarrow>
    search_ends pos h b s"
| again: "next_guess b s = Some s1 \<Longrightarrow> pos (guess_t s1) = Some p \<Longrightarrow> judge h (s1\<lparr>guess_p := p\<rparr>) = Again c s2 \<Longrightarrow>
    search_ends pos h b s2 \<Longrightarrow> search_ends pos h b s"

text \<open>A state after a judgement: the last guess is one of the bounds and not next to the target.\<close>

definition judged :: "(real \<Rightarrow> real) \<Rightarrow> real \<Rightarrow> seek \<Rightarrow> bool" where
  "judged f b s \<longleftrightarrow> guess_p s = f (guess_t s) \<and>
     (if have_bracket s
      then guess_t s = low_time s \<and> past f s (low_time s) < - (1 / 1000000000) \<or>
           guess_t s = high_time s \<and> 1 / 1000000000 < past f s (high_time s)
      else past f s (guess_t s) < - (1 / 1000000000))"

text \<open>The exponential search goes on by at least a nanosecond.\<close>

definition goes_on :: "real \<Rightarrow> seek \<Rightarrow> bool" where
  "goes_on b s \<longleftrightarrow> have_bracket s \<or> high_time s = b \<or> last_time s + 1 / 1000000000 \<le> high_time s"

text \<open>Both guesses are the bounds, on different sides of the target, or they are the same.\<close>

definition tight :: "(real \<Rightarrow> real) \<Rightarrow> seek \<Rightarrow> bool" where
  "tight f s \<longleftrightarrow> old_t s = guess_t s \<and> old_p s = guess_p s \<or>
     (old_t s = low_time s \<and> guess_t s = high_time s \<or> old_t s = high_time s \<and> guess_t s = low_time s) \<and>
     past f s (low_time s) < - (1 / 1000000000) \<and> 1 / 1000000000 < past f s (high_time s)"

lemma judge_Again_cases:
  assumes p: "guess_p s = f (guess_t s)" and j: "judge h s = Again c s2" and h: "0 < h"
  shows "1 / 1000000000 < past f s (guess_t s) \<and> s2 = past_guess s \<or>
    past f s (guess_t s) < - (h + h + 1 / 100000000) \<and> s2 = flip h s \<or>
    past f s (guess_t s) < - (1 / 1000000000) \<and> - (h + h + 1 / 100000000) \<le> past f s (guess_t s) \<and>
      s2 = s\<lparr>low_time := guess_t s\<rparr>"
proof -
  have far: "\<not> \<bar>past f s (guess_t s)\<bar> \<le> 1 / 1000000000" and s2: "s2 = narrowed h f s"
    using j unfolding judge_eq [of s f h, OF p] by (auto simp: Let_def split: if_splits)
  consider "1 / 1000000000 < past f s (guess_t s)" | "past f s (guess_t s) < - (h + h + 1 / 100000000)"
    | "past f s (guess_t s) < - (1 / 1000000000)" "- (h + h + 1 / 100000000) \<le> past f s (guess_t s)"
    using far by linarith
  then show ?thesis
  proof cases
    case 1
    then have "0 < past f s (guess_t s)" by linarith
    then show ?thesis using 1 s2 by (simp add: narrowed_def)
  next
    case 2
    then have "\<not> 0 < past f s (guess_t s)" using h by linarith
    then show ?thesis using 2 s2 by (simp add: narrowed_def)
  next
    case 3
    then have "\<not> 0 < past f s (guess_t s)" "\<not> past f s (guess_t s) < - (h + h + 1 / 100000000)" by linarith+
    then show ?thesis using 3 s2 by (simp add: narrowed_def)
  qed
qed

subsection \<open>Secants\<close>

lemma secant_eqs:
  assumes "secant s = Some t"
  shows "(guess_p s - old_p s) * (t - guess_t s) = - (guess_p s - target s) * (guess_t s - old_t s)"
    and "(guess_p s - old_p s) * (t - old_t s) = - (old_p s - target s) * (guess_t s - old_t s)"
    and "guess_p s \<noteq> old_p s"
proof -
  have ne: "guess_p s \<noteq> old_p s" and t: "t = (old_t s * (guess_p s - target s) - guess_t s * (old_p s - target s)) / (guess_p s - old_p s)"
    using assms by (auto simp: secant_def Let_def split: if_splits)
  show "guess_p s \<noteq> old_p s" by (rule ne)
  have e: "(guess_p s - old_p s) * t = old_t s * (guess_p s - target s) - guess_t s * (old_p s - target s)"
    using ne by (simp add: t)
  show "(guess_p s - old_p s) * (t - guess_t s) = - (guess_p s - target s) * (guess_t s - old_t s)"
    using e by (simp add: algebra_simps)
  show "(guess_p s - old_p s) * (t - old_t s) = - (old_p s - target s) * (guess_t s - old_t s)"
    using e by (simp add: algebra_simps)
qed

lemma bounded_slope:
  fixes V :: real
  assumes "\<bar>d\<bar> \<le> V * \<bar>x\<bar>" and "d * y = - g * x" and "d \<noteq> 0" and "0 < V"
  shows "\<bar>g\<bar> \<le> V * \<bar>y\<bar>"
proof -
  have x: "0 < \<bar>x\<bar>" using assms by (cases "x = 0") auto
  have "\<bar>g\<bar> * \<bar>x\<bar> = \<bar>d\<bar> * \<bar>y\<bar>" using assms(2) by (metis abs_minus_cancel abs_mult)
  also have "\<dots> \<le> (V * \<bar>x\<bar>) * \<bar>y\<bar>" using assms(1) by (intro mult_right_mono) auto
  finally have "\<bar>g\<bar> * \<bar>x\<bar> \<le> (V * \<bar>y\<bar>) * \<bar>x\<bar>" by (simp add: ac_simps)
  then show ?thesis using x by (simp add: mult_le_cancel_right)
qed

context lipschitz_position begin

definition true_guesses :: "seek \<Rightarrow> bool" where
  "true_guesses s \<longleftrightarrow> guess_p s = f (guess_t s) \<and> old_p s = f (old_t s) \<and> a \<le> guess_t s \<and> guess_t s \<le> b \<and> a \<le> old_t s \<and> old_t s \<le> b"

lemma secant_far:
  assumes "true_guesses s" and t: "secant s = Some t"
  shows "\<bar>past f s (guess_t s)\<bar> \<le> V * \<bar>t - guess_t s\<bar>" and "\<bar>past f s (old_t s)\<bar> \<le> V * \<bar>t - old_t s\<bar>"
proof -
  note T = assms(1) [unfolded true_guesses_def]
  have l: "\<bar>guess_p s - old_p s\<bar> \<le> V * \<bar>guess_t s - old_t s\<bar>" using T lipschitz [of "guess_t s" "old_t s"] by simp
  have d: "guess_p s - old_p s \<noteq> 0" using secant_eqs(3) [OF t] by simp
  have "\<bar>guess_p s - target s\<bar> \<le> V * \<bar>t - guess_t s\<bar>"
    by (rule bounded_slope [OF l secant_eqs(1) [OF t] d V_pos])
  moreover have "\<bar>old_p s - target s\<bar> \<le> V * \<bar>t - old_t s\<bar>"
    by (rule bounded_slope [OF l secant_eqs(2) [OF t] d V_pos])
  ultimately show "\<bar>past f s (guess_t s)\<bar> \<le> V * \<bar>t - guess_t s\<bar>" "\<bar>past f s (old_t s)\<bar> \<le> V * \<bar>t - old_t s\<bar>"
    using T by (auto simp: past_def)
qed

text \<open>The least amount a round gains.\<close>

definition gain :: real where
  "gain = min (1 / 1000000000 / V) (1 / 2000000000)"

lemma gain_pos: "0 < gain"
  using V_pos by (simp add: gain_def)

lemma gain_secant:
  assumes "1 / 1000000000 < \<bar>y\<bar>" and "\<bar>y\<bar> \<le> V * x"
  shows "gain \<le> x"
proof -
  have "1 / 1000000000 \<le> V * x" using assms by linarith
  then have "1 / 1000000000 / V \<le> x" using V_pos by (simp add: field_simps)
  then show ?thesis by (simp add: gain_def)
qed

subsection \<open>One round\<close>

text \<open>What a round leaves behind when the search goes on.\<close>

lemma round_judged:
  assumes ok: "seek_ok f E h a b s" and on: "goes_on b s" and E: "tolerance V \<le> E" and h: "0 < h"
    and n: "next_guess b s = Some s1" and j: "judge h (s1\<lparr>guess_p := f (guess_t s1)\<rparr>) = Again c s2"
  shows "seek_ok f E h a b s2" and "judged f b s2" and "goes_on b s2"
    and "guess_p s = f (guess_t s) \<Longrightarrow> a \<le> guess_t s \<Longrightarrow> guess_t s \<le> b \<Longrightarrow> true_guesses s2"
proof -
  let ?s = "s1\<lparr>guess_p := f (guess_t s1)\<rparr>"
  note g = next_guess_ok [OF ok n]
  show ok2: "seek_ok f E h a b s2" by (rule judge_Again_ok(1) [OF g(1) E h j])
  obtain t H c' where s1: "s1 = s\<lparr>old_t := guess_t s, old_p := guess_p s, guess_t := t, high_time := H, check_oscillate := c'\<rparr>"
    and alt: "secant s = Some t \<and> low_time s < t \<and> t < high_time s \<and> H = high_time s \<or>
     have_bracket s \<and> t = (low_time s + high_time s) * 0.5 \<and> H = high_time s \<or>
     \<not> have_bracket s \<and> guess_t s < b \<and> t = high_time s \<and> H = min b (2 * high_time s - last_time s)"
    using next_guess_Some [OF n] by blast
  have Hb: "\<not> have_bracket s \<longrightarrow> H = b \<or> last_time s + 1 / 1000000000 \<le> H"
    using alt on ok by (auto simp: goes_on_def seek_ok_def min_def split: if_splits)
  have cases: "1 / 1000000000 < past f ?s (guess_t ?s) \<and> s2 = past_guess ?s \<or>
    past f ?s (guess_t ?s) < - (h + h + 1 / 100000000) \<and> s2 = flip h ?s \<or>
    past f ?s (guess_t ?s) < - (1 / 1000000000) \<and> - (h + h + 1 / 100000000) \<le> past f ?s (guess_t ?s) \<and>
      s2 = ?s\<lparr>low_time := guess_t ?s\<rparr>"
    by (rule judge_Again_cases [OF _ j h]) simp
  then show "goes_on b s2" using Hb by (auto simp: goes_on_def s1)
  from cases show "judged f b s2"
  proof (elim disjE conjE)
    assume "past f ?s (guess_t ?s) < - (h + h + 1 / 100000000)" "s2 = flip h ?s"
    then show ?thesis using h by (simp add: judged_def past_flip)
  qed (simp_all add: judged_def)
  assume T: "guess_p s = f (guess_t s)" "a \<le> guess_t s" "guess_t s \<le> b"
  have gs: "a \<le> guess_t s1" "guess_t s1 \<le> b" using g(1) by (auto simp: guess_ok_def)
  have old: "old_t s1 = guess_t s" "old_p s1 = guess_p s" by (simp_all add: s1)
  from cases show "true_guesses s2"
  proof (elim disjE conjE)
    assume "s2 = past_guess ?s"
    then show ?thesis using T gs old by (simp add: true_guesses_def past_guess_def Let_def)
  qed (use T gs old in \<open>simp_all add: true_guesses_def\<close>)
qed

lemma secant_gains:
  assumes br: "have_bracket s" and jd: "judged f b s" and T: "true_guesses s"
    and t: "secant s = Some t" "low_time s < t" "t < high_time s"
  shows "guess_t s = low_time s \<Longrightarrow> gain \<le> t - low_time s" and "guess_t s = high_time s \<Longrightarrow> gain \<le> high_time s - t"
    and "tight f s \<Longrightarrow> gain \<le> t - low_time s \<and> gain \<le> high_time s - t"
proof -
  note far = secant_far [OF T t(1)]
  have ends: "guess_t s = low_time s \<and> past f s (low_time s) < - (1 / 1000000000) \<or>
      guess_t s = high_time s \<and> 1 / 1000000000 < past f s (high_time s)"
    using jd br by (simp add: judged_def)
  have g: "gain \<le> \<bar>t - guess_t s\<bar>" by (rule gain_secant [OF _ far(1)]) (use ends in auto)
  then show "guess_t s = low_time s \<Longrightarrow> gain \<le> t - low_time s" "guess_t s = high_time s \<Longrightarrow> gain \<le> high_time s - t"
    using t by auto
  assume ti: "tight f s"
  have "guess_p s \<noteq> old_p s" by (rule secant_eqs(3) [OF t(1)])
  then have two: "old_t s = low_time s \<and> guess_t s = high_time s \<or> old_t s = high_time s \<and> guess_t s = low_time s"
    and p: "past f s (low_time s) < - (1 / 1000000000)" "1 / 1000000000 < past f s (high_time s)"
    using ti by (auto simp: tight_def)
  have "gain \<le> \<bar>t - old_t s\<bar>" by (rule gain_secant [OF _ far(2)]) (use two p in auto)
  then show "gain \<le> t - low_time s \<and> gain \<le> high_time s - t" using g two t by auto
qed

text \<open>In a bracket: a change of direction, or the bracket shrinks, at the latest in the round after.\<close>

lemma bracket_round:
  assumes ok: "seek_ok f E h a b s" and br: "have_bracket s" and jd: "judged f b s" and T: "true_guesses s" and h: "0 < h"
    and n: "next_guess b s = Some s1" and j: "judge h (s1\<lparr>guess_p := f (guess_t s1)\<rparr>) = Again c s2"
  shows "last_time s2 = last_time s \<and> have_bracket s2 \<and>
    (past f s (high_time s2) < - (h + h) \<and> 0 < past f s2 (high_time s2) \<and> high_time s2 \<le> high_time s \<or>
     past f s2 = past f s \<and> high_time s2 \<le> high_time s \<and>
     (high_time s2 - low_time s2 \<le> high_time s - low_time s - gain \<or>
      \<not> tight f s \<and> tight f s2 \<and> high_time s2 - low_time s2 \<le> high_time s - low_time s))"
proof -
  let ?s = "s1\<lparr>guess_p := f (guess_t s1)\<rparr>"
  obtain t c' where s1: "s1 = s\<lparr>old_t := guess_t s, old_p := guess_p s, guess_t := t, high_time := high_time s, check_oscillate := c'\<rparr>"
    and alt: "secant s = Some t \<and> low_time s < t \<and> t < high_time s \<or> t = (low_time s + high_time s) * 0.5"
    using next_guess_Some [OF n] br by blast
  have w: "1 / 1000000000 < high_time s - low_time s" using ok br by (simp add: seek_ok_def)
  have t: "low_time s \<le> t" "t \<le> high_time s" using alt w by auto
  have cases: "1 / 1000000000 < past f s t \<and> s2 = past_guess ?s \<or> past f s t < - (h + h + 1 / 100000000) \<and> s2 = flip h ?s \<or>
      past f s t < - (1 / 1000000000) \<and> s2 = ?s\<lparr>low_time := t\<rparr>"
    using judge_Again_cases [OF _ j h, of f] by (auto simp: s1)
  consider (flip) "past f s t < - (h + h + 1 / 100000000)" "s2 = flip h ?s"
    | (mid) "past f s2 = past f s" "have_bracket s2" "last_time s2 = last_time s" "high_time s2 \<le> high_time s"
        "high_time s2 - low_time s2 \<le> high_time s - low_time s - gain"
    | (sec) "past f s2 = past f s" "have_bracket s2" "last_time s2 = last_time s" "high_time s2 \<le> high_time s"
        "\<not> tight f s" "tight f s2" "high_time s2 - low_time s2 \<le> high_time s - low_time s"
  proof -
    have up: thesis if p: "1 / 1000000000 < past f s t" and s2: "s2 = past_guess ?s"
    proof (cases "t = (low_time s + high_time s) * 0.5 \<or> guess_t s = high_time s \<or> tight f s")
      case True
      then have "gain \<le> high_time s - t"
        using alt secant_gains [OF br jd T] w by (auto simp: gain_def min_def)
      then show thesis using s2 t br by (intro mid) (simp_all add: s1)
    next
      case False
      then have gl: "guess_t s = low_time s" "past f s (low_time s) < - (1 / 1000000000)"
        using jd br by (auto simp: judged_def)
      have "tight f s2" using gl p br by (auto simp: tight_def s2 s1 past_guess_def Let_def)
      then show thesis using s2 t br False by (intro sec) (simp_all add: s1)
    qed
    have down: thesis if p: "past f s t < - (1 / 1000000000)" and s2: "s2 = ?s\<lparr>low_time := t\<rparr>"
    proof (cases "t = (low_time s + high_time s) * 0.5 \<or> guess_t s = low_time s \<or> tight f s")
      case True
      then have "gain \<le> t - low_time s"
        using alt secant_gains [OF br jd T] w by (auto simp: gain_def min_def)
      then show thesis using s2 t br by (intro mid) (simp_all add: s1)
    next
      case False
      then have gl: "guess_t s = high_time s" "1 / 1000000000 < past f s (high_time s)"
        using jd br by (auto simp: judged_def)
      have "tight f s2" using gl p br by (auto simp: tight_def s2 s1)
      then show thesis using s2 t br False by (intro sec) (simp_all add: s1)
    qed
    show thesis using cases flip up down by blast
  qed
  then show ?thesis
  proof cases
    case flip
    then show ?thesis using t h by (simp add: past_flip s1) 
  qed simp_all
qed

subsection \<open>Every search ends\<close>

lemma ends_round:
  assumes ok: "seek_ok f E h a b s"
    and step: "\<And>s1 c s2. next_guess b s = Some s1 \<Longrightarrow> judge h (s1\<lparr>guess_p := f (guess_t s1)\<rparr>) = Again c s2 \<Longrightarrow>
      search_ends pos h b s2"
  shows "search_ends pos h b s"
proof (cases "next_guess b s")
  case None
  then show ?thesis by (rule search_ends.stop)
next
  case (Some s1)
  have p: "pos (guess_t s1) = Some (f (guess_t s1))"
    using next_guess_ok(1) [OF ok Some] by (intro pos) (auto simp: guess_ok_def)
  show ?thesis
  proof (cases "judge h (s1\<lparr>guess_p := f (guess_t s1)\<rparr>)")
    case (Found s2)
    then show ?thesis by (rule search_ends.found [where pos = pos, OF Some p])
  next
    case (Again c s2)
    then show ?thesis by (rule search_ends.again [where pos = pos, OF Some p _ step [OF Some Again]])
  qed
qed

definition settled :: "real \<Rightarrow> real \<Rightarrow> seek \<Rightarrow> bool" where
  "settled E h s \<longleftrightarrow> seek_ok f E h a b s \<and> judged f b s \<and> goes_on b s \<and> true_guesses s"

lemma settled_round:
  assumes "settled E h s" and "tolerance V \<le> E" and "0 < h"
    and "next_guess b s = Some s1" and "judge h (s1\<lparr>guess_p := f (guess_t s1)\<rparr>) = Again c s2"
  shows "settled E h s2"
  using round_judged [OF _ _ assms(2-5)] assms(1) unfolding settled_def true_guesses_def by blast

lemma bracket_ends_or_flips:
  assumes E: "tolerance V \<le> E" and h: "0 < h"
    and flips: "\<And>s2. settled E h s2 \<Longrightarrow> have_bracket s2 \<Longrightarrow> last_time s2 = l \<Longrightarrow> high_time s2 \<le> H \<Longrightarrow>
      P (high_time s2) < - (h + h) \<Longrightarrow> 0 < past f s2 (high_time s2) \<Longrightarrow> search_ends pos h b s2"
    and s: "settled E h s" "have_bracket s" "last_time s = l" "high_time s \<le> H" "past f s = P"
      "high_time s - low_time s \<le> real n * gain"
  shows "search_ends pos h b s"
  using s
proof (induction "2 * n + (if tight f s then 0 else 1)" arbitrary: n s rule: less_induct)
  case less
  show ?case
  proof (rule ends_round)
    show ok: "seek_ok f E h a b s" using less.prems(1) by (simp add: settled_def)
    fix s1 c s2 assume n1: "next_guess b s = Some s1" and j: "judge h (s1\<lparr>guess_p := f (guess_t s1)\<rparr>) = Again c s2"
    have st: "settled E h s2" by (rule settled_round [OF less.prems(1) E h n1 j])
    have w: "1 / 1000000000 < high_time s - low_time s" using ok less.prems(2) by (simp add: seek_ok_def)
    have n0: "n \<noteq> 0" using w less.prems(6) by (cases n) auto
    from bracket_round [OF ok less.prems(2) _ _ h n1 j] less.prems(1)
    have B: "last_time s2 = l" "have_bracket s2" and alt:
      "P (high_time s2) < - (h + h) \<and> 0 < past f s2 (high_time s2) \<and> high_time s2 \<le> high_time s \<or>
       past f s2 = P \<and> high_time s2 \<le> high_time s \<and>
       (high_time s2 - low_time s2 \<le> high_time s - low_time s - gain \<or>
        \<not> tight f s \<and> tight f s2 \<and> high_time s2 - low_time s2 \<le> high_time s - low_time s)"
      using less.prems by (auto simp: settled_def)
    from alt show "search_ends pos h b s2"
    proof (elim disjE conjE)
      assume "P (high_time s2) < - (h + h)" "0 < past f s2 (high_time s2)" "high_time s2 \<le> high_time s"
      then show ?thesis using flips [OF st B(2,1)] less.prems(4) by simp
    next
      assume p: "past f s2 = P" "high_time s2 \<le> high_time s" "high_time s2 - low_time s2 \<le> high_time s - low_time s - gain"
      have "high_time s2 - low_time s2 \<le> real (n - 1) * gain"
        using p(3) less.prems(6) n0 by (simp add: of_nat_diff algebra_simps)
      then show ?thesis using n0 p less.prems(4) by (intro less.hyps [of "n - 1", OF _ st B(2,1)]) auto
    next
      assume p: "past f s2 = P" "high_time s2 \<le> high_time s" "\<not> tight f s" "tight f s2"
        "high_time s2 - low_time s2 \<le> high_time s - low_time s"
      then show ?thesis using less.prems(4,6) by (intro less.hyps [of n, OF _ st B(2,1)]) auto
    qed
  qed
qed

lemma multiple_ge:
  fixes x y :: real
  assumes "0 < y"
  shows "\<exists>n. x \<le> real n * y"
  using reals_Archimedean3 [OF assms] less_imp_le by blast

text \<open>A change of direction needs two step distances.\<close>

lemma bracket_ends:
  assumes E: "tolerance V \<le> E" and h: "0 < h" and s: "settled E h s" "have_bracket s"
  shows "search_ends pos h b s"
proof -
  have "search_ends pos h b s" if "settled E h s" "have_bracket s" "high_time s \<le> last_time s + real k * (2 * h / V)" for k s
    using that
  proof (induction k arbitrary: s)
    case 0
    then show ?case by (simp add: settled_def seek_ok_def)
  next
    case (Suc k)
    have ok: "seek_ok f E h a b s" using Suc.prems(1) by (simp add: settled_def)
    obtain n where n: "high_time s - low_time s \<le> real n * gain" using multiple_ge [OF gain_pos] by blast
    show ?case
    proof (rule bracket_ends_or_flips [OF E h _ Suc.prems(1,2) refl order_refl refl n])
      fix s2 assume st: "settled E h s2" and br: "have_bracket s2" and l: "last_time s2 = last_time s"
        and H: "high_time s2 \<le> high_time s" and p: "past f s (high_time s2) < - (h + h)"
      have o2: "seek_ok f E h a b s2" using st by (simp add: settled_def)
      have "\<bar>past f s (high_time s) - past f s (high_time s2)\<bar> \<le> V * \<bar>high_time s - high_time s2\<bar>"
        using ok o2 by (intro past_lipschitz) (auto simp: seek_ok_def)
      moreover have "0 < past f s (high_time s)" using ok Suc.prems(2) by (simp add: seek_ok_def)
      ultimately have "2 * h \<le> V * (high_time s - high_time s2)" using p H by linarith
      then have "2 * h / V \<le> high_time s - high_time s2" using V_pos by (simp add: field_simps)
      then have "high_time s2 \<le> last_time s2 + real k * (2 * h / V)"
        using Suc.prems(3) l by (simp add: algebra_simps add_divide_distrib)
      then show "search_ends pos h b s2" by (rule Suc.IH [OF st br])
    qed
  qed
  moreover obtain k where "high_time s - last_time s \<le> real k * (2 * h / V)" using multiple_ge [of "2 * h / V"] h V_pos by auto
  then have "high_time s \<le> last_time s + real k * (2 * h / V)" by linarith
  ultimately show ?thesis using s by blast
qed

text \<open>Before there is a bracket.\<close>

lemma open_round:
  assumes s: "settled E h s" "\<not> have_bracket s" and h: "0 < h"
    and n: "next_guess b s = Some s1" and j: "judge h (s1\<lparr>guess_p := f (guess_t s1)\<rparr>) = Again c s2"
  shows "have_bracket s2 \<or> \<not> have_bracket s2 \<and> last_time s2 = last_time s \<and>
    (high_time s2 = high_time s \<and> low_time s + gain \<le> low_time s2 \<or>
     low_time s2 = high_time s \<and> high_time s2 = min b (2 * high_time s - last_time s))"
proof -
  let ?s = "s1\<lparr>guess_p := f (guess_t s1)\<rparr>"
  obtain t H c' where s1: "s1 = s\<lparr>old_t := guess_t s, old_p := guess_p s, guess_t := t, high_time := H, check_oscillate := c'\<rparr>"
    and alt: "secant s = Some t \<and> low_time s < t \<and> t < high_time s \<and> H = high_time s \<or>
      t = high_time s \<and> H = min b (2 * high_time s - last_time s)"
    using next_guess_Some [OF n] s(2) by blast
  have "s2 = past_guess ?s \<or> s2 = flip h ?s \<or> s2 = ?s\<lparr>low_time := t\<rparr>"
    using judge_Again_cases [OF _ j h, of f] by (auto simp: s1)
  then consider "have_bracket s2" | "s2 = ?s\<lparr>low_time := t\<rparr>" by auto
  then show ?thesis
  proof cases
    case 2
    have g: "guess_t s = low_time s" "1 / 1000000000 < \<bar>past f s (guess_t s)\<bar>" "true_guesses s"
      using s by (auto simp: settled_def seek_ok_def judged_def)
    have "secant s = Some t \<and> low_time s < t \<longrightarrow> low_time s + gain \<le> t"
      using gain_secant [OF g(2) secant_far(1) [OF g(3)]] g(1) by auto
    then show ?thesis using alt s(2) by (auto simp: 2 s1)
  qed simp
qed

lemma next_guess_over:
  assumes "\<not> have_bracket s" and "guess_t s = b'" and "low_time s = b'" and "high_time s \<le> b'"
  shows "next_guess b' s = None"
  using assms by (auto simp: next_guess_def Let_def split: option.splits)

lemma last_open_ends:
  assumes E: "tolerance V \<le> E" and h: "0 < h" and s: "settled E h s" "\<not> have_bracket s" "high_time s = b"
  shows "search_ends pos h b s"
proof -
  have "search_ends pos h b s" if "settled E h s" "\<not> have_bracket s" "high_time s = b" "b - low_time s \<le> real n * gain" for n s
    using that
  proof (induction n arbitrary: s)
    case 0
    then have "low_time s = b" "guess_t s = low_time s" by (auto simp: settled_def seek_ok_def)
    then show ?case using 0 by (intro search_ends.stop next_guess_over) auto
  next
    case (Suc n)
    show ?case
    proof (rule ends_round)
      show "seek_ok f E h a b s" using Suc.prems(1) by (simp add: settled_def)
      fix s1 c s2 assume n1: "next_guess b s = Some s1" and j: "judge h (s1\<lparr>guess_p := f (guess_t s1)\<rparr>) = Again c s2"
      have st: "settled E h s2" by (rule settled_round [OF Suc.prems(1) E h n1 j])
      have lb: "last_time s \<le> b" using Suc.prems(1) by (simp add: settled_def seek_ok_def)
      from open_round [OF Suc.prems(1,2) h n1 j] consider "have_bracket s2"
        | "\<not> have_bracket s2" "high_time s2 = b" "low_time s + gain \<le> low_time s2"
        | "\<not> have_bracket s2" "low_time s2 = b" "high_time s2 = b"
        using Suc.prems(3) lb by auto
      then show "search_ends pos h b s2"
      proof cases
        case 1
        then show ?thesis by (rule bracket_ends [OF E h st])
      next
        case 2
        then show ?thesis using Suc.prems(4) by (intro Suc.IH [OF st]) (auto simp: algebra_simps)
      next
        case 3
        then show ?thesis using st by (intro search_ends.stop next_guess_over) (auto simp: settled_def seek_ok_def)
      qed
    qed
  qed
  then show ?thesis using s multiple_ge [OF gain_pos] by blast
qed

lemma open_ends:
  assumes E: "tolerance V \<le> E" and h: "0 < h" and s: "settled E h s" "\<not> have_bracket s"
  shows "search_ends pos h b s"
proof -
  have "search_ends pos h b s" if "settled E h s" "\<not> have_bracket s" "(b - low_time s) + (b - high_time s) \<le> real n * gain" for n s
    using that
  proof (induction n arbitrary: s)
    case 0
    then have "high_time s = b" by (auto simp: settled_def seek_ok_def)
    then show ?case by (rule last_open_ends [OF E h 0(1,2)])
  next
    case (Suc n)
    show ?case
    proof (rule ends_round)
      show ok: "seek_ok f E h a b s" using Suc.prems(1) by (simp add: settled_def)
      fix s1 c s2 assume n1: "next_guess b s = Some s1" and j: "judge h (s1\<lparr>guess_p := f (guess_t s1)\<rparr>) = Again c s2"
      have st: "settled E h s2" by (rule settled_round [OF Suc.prems(1) E h n1 j])
      have on: "high_time s = b \<or> last_time s + gain \<le> high_time s"
        using Suc.prems(1,2) by (auto simp: settled_def goes_on_def gain_def min_def)
      have "(b - low_time s2) + (b - high_time s2) \<le> real n * gain \<or> high_time s2 = b" if "\<not> have_bracket s2"
        using open_round [OF Suc.prems(1,2) h n1 j] on ok Suc.prems(3) that
        by (auto simp: seek_ok_def min_def algebra_simps split: if_splits)
      then show "search_ends pos h b s2"
        using bracket_ends [OF E h st] Suc.IH [OF st] last_open_ends [OF E h st] by blast
    qed
  qed
  then show ?thesis using s multiple_ge [OF gain_pos] by blast
qed

lemma seek_ends:
  assumes ok: "seek_ok f E h a b s" and on: "goes_on b s" and E: "tolerance V \<le> E" and h: "0 < h"
  shows "search_ends pos h b s"
proof (rule ends_round [OF ok])
  fix s1 c s2 assume n1: "next_guess b s = Some s1" and j1: "judge h (s1\<lparr>guess_p := f (guess_t s1)\<rparr>) = Again c s2"
  note R = round_judged [OF ok on E h n1 j1]
  show "search_ends pos h b s2"
  proof (rule ends_round [OF R(1)])
    fix s3 c' s4 assume n2: "next_guess b s2 = Some s3" and j2: "judge h (s3\<lparr>guess_p := f (guess_t s3)\<rparr>) = Again c' s4"
    have "guess_p s2 = f (guess_t s2)" "a \<le> guess_t s2" "guess_t s2 \<le> b"
      using R(1,2) by (auto simp: judged_def seek_ok_def split: if_splits)
    then have "settled E h s4" using round_judged [OF R(1,3) E h n2 j2] by (simp add: settled_def)
    then show "search_ends pos h b s4" using bracket_ends [OF E h] open_ends [OF E h] by blast
  qed
qed

subsection \<open>The loop returns\<close>

lemma seek_loop_returns:
  assumes ok: "seek_ok f E h a b s" and on: "goes_on b s" and E: "tolerance V \<le> E" "E \<le> 2 * h" and h: "0 < h"
    and sub: "\<And>dir t sc. Q sc \<Longrightarrow> \<exists>r. submit dir t sc = Some r \<and> (fst r \<longrightarrow> Q (snd r) \<and> left (snd r) < (left sc :: nat))"
    and com: "\<And>sc. Q sc \<Longrightarrow> \<exists>r. commit sc = Some r \<and> Q (snd r) \<and> left (snd r) \<le> left sc"
    and sc: "Q sc"
  shows "\<exists>y. seek_loop pos submit commit h b s sc = Some y"
  using ok on sc
proof (induction "left sc" arbitrary: s sc rule: less_induct)
  case less
  note more = less.hyps
  have "search_ends pos h b s" by (rule seek_ends [OF less.prems(1,2) E(1) h])
  then show ?case using less.prems more
  proof (induction arbitrary: sc rule: search_ends.induct)
    case (stop s)
    then have "seek_loop pos submit commit h b s sc = Some (True, s, sc)" by (simp add: seek_loop.simps)
    then show ?case by blast
  next
    case (found s s1 p s2)
    note g = next_guess_ok [OF found.prems(1) found.hyps(1)]
    have p: "p = f (guess_t s1)" using found.hyps(2) g(1) pos [of "guess_t s1"] by (simp add: guess_ok_def)
    note F = judge_Found_ok [OF g(1) E(1) h found.hyps(3) [unfolded p]]
    have t: "a \<le> last_time s2" "last_time s2 \<le> guess_t s2" "guess_t s2 \<le> b"
      using g(1,3) F(1,3) by (auto simp: guess_ok_def)
    obtain r where r: "submit (seek_dir s2) (guess_t s2) sc = Some r" "fst r \<longrightarrow> Q (snd r) \<and> left (snd r) < left sc"
      using sub [OF found.prems(3)] by blast
    have "goes_on b (after_step h b s2)" using after_step_high(3) [OF t(2,3)] by (auto simp: goes_on_def)
    then have "fst r \<Longrightarrow> \<exists>y. seek_loop pos submit commit h b (after_step h b s2) (snd r) = Some y"
      using found.prems(4) [OF _ after_step_ok [OF t F(4,5) E(2)]] r(2) by blast
    then show ?case using found.hyps r(1) by (subst seek_loop.simps) (cases "fst r", auto)
  next
    case (again s s1 p c s2)
    note g = next_guess_ok [OF again.prems(1) again.hyps(1)]
    have p: "p = f (guess_t s1)" using again.hyps(2) g(1) pos [of "guess_t s1"] by (simp add: guess_ok_def)
    note R = round_judged [OF again.prems(1,2) E(1) h again.hyps(1) again.hyps(3) [unfolded p]]
    obtain r where r: "commit sc = Some r" "Q (snd r)" "left (snd r) \<le> left sc" using com [OF again.prems(3)] by blast
    have "\<exists>y. seek_loop pos submit commit h b s2 sc = Some y" by (rule again.IH [OF R(1,3) again.prems(3,4)])
    moreover have "\<exists>y. seek_loop pos submit commit h b s2 (snd r) = Some y"
      using r(3) again.prems(4) by (intro again.IH [OF R(1,3) r(2)]) auto
    ultimately show ?case using again.hyps r(1) by (subst seek_loop.simps) auto
  qed
qed

end

end
