(* ===== verification/Step_Tracking.thy ===== *)
theory Step_Tracking
  imports Step_Ends
begin

text \<open>
  The step times of a stepper whose position is a function of the coordinate that is no faster than the
  coordinate: cartesian, corexy, corexz and winch steppers and the radius of polar kinematics.
\<close>

subsection \<open>Kinematics of bounded speed\<close>

fun stepper_of :: "kinematics \<Rightarrow> (coord \<Rightarrow> real) option" where
  "stepper_of cart_stepper_x = Some cx"
| "stepper_of cart_stepper_y = Some cy"
| "stepper_of cart_stepper_z = Some cz"
| "stepper_of cart_reverse_stepper_x = Some (\<lambda>c. - cx c)"
| "stepper_of cart_reverse_stepper_y = Some (\<lambda>c. - cy c)"
| "stepper_of cart_reverse_stepper_z = Some (\<lambda>c. - cz c)"
| "stepper_of corexy_stepper_plus = Some (\<lambda>c. cx c + cy c)"
| "stepper_of corexy_stepper_minus = Some (\<lambda>c. cx c - cy c)"
| "stepper_of corexz_stepper_plus = Some (\<lambda>c. cx c + cz c)"
| "stepper_of corexz_stepper_minus = Some (\<lambda>c. cx c - cz c)"
| "stepper_of polar_stepper_radius = Some (\<lambda>c. sqrt (cx c * cx c + cy c * cy c))"
| "stepper_of (winch_stepper anchor) = Some (winch_position anchor)"
| "stepper_of _ = None"

lemma stepper_of_position:
  assumes "stepper_of kin = Some g"
  shows "calc_position_cb kin p ms i t = Some (g (move_get_coord (ms ! i) t))"
  using assms by (cases kin) (auto simp: calc_position_defs Let_def)

lemma stepper_of_post_cb:
  assumes "stepper_of kin = Some g"
  shows "post_cb kin = id"
  using assms by (cases kin) (auto simp: post_cb_def)

definition size1 :: "coord \<Rightarrow> real" where
  "size1 c = \<bar>cx c\<bar> + \<bar>cy c\<bar> + \<bar>cz c\<bar>"

definition minus_coord :: "coord \<Rightarrow> coord \<Rightarrow> coord" where
  "minus_coord c d = \<lparr>cx = cx c - cx d, cy = cy c - cy d, cz = cz c - cz d\<rparr>"

lemma hypot_speed: "\<bar>sqrt (x * x + y * y) - sqrt (u * u + v * v)\<bar> \<le> \<bar>x - u\<bar> + \<bar>y - v\<bar>"
proof -
  have "\<bar>cmod (Complex x y) - cmod (Complex u v)\<bar> \<le> cmod (Complex x y - Complex u v)" by (rule norm_triangle_ineq3)
  also have "\<dots> \<le> \<bar>x - u\<bar> + \<bar>y - v\<bar>" using cmod_le [of "Complex x y - Complex u v"] by simp
  finally show ?thesis by (simp add: complex_norm power2_eq_square)
qed

lemma hypot3_speed:
  "\<bar>sqrt (x * x + y * y + z * z) - sqrt (u * u + v * v + w * w)\<bar> \<le> \<bar>x - u\<bar> + \<bar>y - v\<bar> + \<bar>z - w\<bar>"
proof -
  have "sqrt (a * a + b * b + c * c) = sqrt (sqrt (a * a + b * b) * sqrt (a * a + b * b) + c * c)" for a b c :: real
    by simp
  then show ?thesis
    using hypot_speed [of "sqrt (x * x + y * y)" z "sqrt (u * u + v * v)" w] hypot_speed [of x y u v] by simp
qed

lemma stepper_of_speed:
  assumes "stepper_of kin = Some g"
  shows "\<bar>g c - g d\<bar> \<le> size1 (minus_coord c d)"
proof (cases "(\<exists>anchor. kin = winch_stepper anchor) \<or> kin = polar_stepper_radius")
  case False
  then show ?thesis using assms by (cases kin) (auto simp: size1_def minus_coord_def)
next
  case True
  then show ?thesis
  proof (elim disjE exE)
    fix anchor assume "kin = winch_stepper anchor"
    then show ?thesis using assms hypot3_speed [of "cx anchor - cx c" "cy anchor - cy c" "cz anchor - cz c"
        "cx anchor - cx d" "cy anchor - cy d" "cz anchor - cz d"]
      by (auto simp: winch_position_def Let_def size1_def minus_coord_def abs_minus_commute)
  next
    assume "kin = polar_stepper_radius"
    then show ?thesis using assms hypot_speed [of "cx c" "cy c" "cx d" "cy d"] by (auto simp: size1_def minus_coord_def)
  qed
qed

definition top_speed :: "move \<Rightarrow> real" where
  "top_speed m = 1 + size1 (axes_r m) * (\<bar>start_v m\<bar> + 2 * \<bar>half_accel m\<bar> * \<bar>move_t m\<bar>)"

lemma top_speed_pos: "0 < top_speed m"
  unfolding top_speed_def size1_def by (intro add_pos_nonneg) auto

lemma distance_speed:
  assumes "0 \<le> t" "t \<le> move_t m" "0 \<le> u" "u \<le> move_t m"
  shows "\<bar>move_get_distance m t - move_get_distance m u\<bar> \<le>
    (\<bar>start_v m\<bar> + 2 * \<bar>half_accel m\<bar> * \<bar>move_t m\<bar>) * \<bar>t - u\<bar>"
proof -
  have "move_get_distance m t - move_get_distance m u = (start_v m + half_accel m * (t + u)) * (t - u)"
    by (simp add: move_get_distance_def algebra_simps)
  moreover have "\<bar>start_v m + half_accel m * (t + u)\<bar> \<le> \<bar>start_v m\<bar> + \<bar>half_accel m * (t + u)\<bar>" by (rule abs_triangle_ineq)
  moreover have "\<bar>half_accel m * (t + u)\<bar> \<le> \<bar>half_accel m\<bar> * (2 * \<bar>move_t m\<bar>)"
    unfolding abs_mult using assms by (intro mult_left_mono) auto
  ultimately show ?thesis by (simp add: abs_mult) (intro mult_right_mono, auto)
qed

lemma size1_coord:
  "size1 (minus_coord (move_get_coord m t) (move_get_coord m u)) = size1 (axes_r m) * \<bar>move_get_distance m t - move_get_distance m u\<bar>"
proof -
  have "x + r * p - (x + r * q) = r * (p - q)" for x r p q :: real by (simp add: algebra_simps)
  then show ?thesis by (simp add: size1_def minus_coord_def move_get_coord_def Let_def abs_mult distrib_right)
qed

lemma coord_speed:
  assumes "0 \<le> t" "t \<le> move_t m" "0 \<le> u" "u \<le> move_t m"
  shows "size1 (minus_coord (move_get_coord m t) (move_get_coord m u)) \<le> top_speed m * \<bar>t - u\<bar>"
proof -
  have "size1 (axes_r m) * \<bar>move_get_distance m t - move_get_distance m u\<bar> \<le>
      size1 (axes_r m) * ((\<bar>start_v m\<bar> + 2 * \<bar>half_accel m\<bar> * \<bar>move_t m\<bar>) * \<bar>t - u\<bar>)"
    using distance_speed [OF assms] by (intro mult_left_mono) (auto simp: size1_def)
  also have "\<dots> \<le> top_speed m * \<bar>t - u\<bar>" by (simp add: top_speed_def algebra_simps)
  finally show ?thesis by (simp add: size1_coord)
qed

text \<open>The times of a move that a range of print time covers.\<close>

definition range_start :: "move \<Rightarrow> real \<Rightarrow> real" where
  "range_start m abs_start = max 0 (abs_start - print_time m)"

definition range_end :: "move \<Rightarrow> real \<Rightarrow> real" where
  "range_end m abs_end = min (move_t m) (abs_end - print_time m)"

locale bounded_stepper =
  fixes kin :: kinematics and g :: "coord \<Rightarrow> real"
  assumes stepper: "stepper_of kin = Some g"
begin

lemma lipschitz_on_move:
  "lipschitz_position (\<lambda>t. g (move_get_coord (ms ! i) t)) (calc_position_cb kin p ms i) (top_speed (ms ! i))
     (range_start (ms ! i) abs_start) (range_end (ms ! i) abs_end)"
proof unfold_locales
  fix t u assume "range_start (ms ! i) abs_start \<le> t" "t \<le> range_end (ms ! i) abs_end"
    "range_start (ms ! i) abs_start \<le> u" "u \<le> range_end (ms ! i) abs_end"
  then show "\<bar>g (move_get_coord (ms ! i) t) - g (move_get_coord (ms ! i) u)\<bar> \<le> top_speed (ms ! i) * \<bar>t - u\<bar>"
    by (intro order_trans [OF stepper_of_speed [OF stepper] coord_speed]) (auto simp: range_start_def range_end_def)
qed (use stepper in \<open>auto simp: stepper_of_position top_speed_pos\<close>)

end

sublocale bounded_stepper \<subseteq> on_move: lipschitz_position "\<lambda>t. g (move_get_coord (ms ! i) t)" "calc_position_cb kin p ms i"
    "top_speed (ms ! i)" "range_start (ms ! i) abs_start" "range_end (ms ! i) abs_end" for p ms i abs_start abs_end
  by (rule lipschitz_on_move)

subsection \<open>A range of one move\<close>

lemma seek_start_ok:
  assumes "a \<le> b" and "\<bar>f a - c\<bar> \<le> h + E"
  shows "seek_ok f E h a b (seek_start a b h dir c)" and "goes_on b (seek_start a b h dir c)"
    and "commanded h (seek_start a b h dir c) = c" and "last_time (seek_start a b h dir c) = a"
  using assms by (auto simp: seek_ok_def goes_on_def seek_start_def past_def commanded_def SEEK_TIME_RESET_def abs_le_iff)

lemma gen_steps_range_eq:
  "itersolve_gen_steps_range ms i abs_start abs_end sk =
     (let m = ms ! i; half_step = 0.5 * step_dist sk; start_t = range_start m abs_start; end_t = range_end m abs_end in
      map_option (\<lambda>(ok, s, sc).
           if ok then (True, sk\<lparr>sk_sc := sc, commanded_pos := post_cb (sk_kin sk) (commanded half_step s)\<rparr>)
           else (False, sk\<lparr>sk_sc := sc\<rparr>))
         (seek_loop (calc_position_cb (sk_kin sk) (commanded_pos sk) ms i)
            (\<lambda>dir t. stepcompress_append dir (print_time m) t) stepcompress_commit half_step end_t
            (seek_start start_t end_t half_step (stepcompress_get_step_dir (sk_sc sk)) (commanded_pos sk)) (sk_sc sk)))"
proof -
  have "(if x < 0 then 0 else x) = max 0 x" "(if x > y then y else x) = min y x" for x y :: real by auto
  then show ?thesis
    by (simp only: itersolve_gen_steps_range_def Let_def range_start_def range_end_def commanded_def)
qed

context bounded_stepper begin

lemma range_tracks:
  assumes sk: "sk_kin sk = kin" "0 < step_dist sk" and m: "m = ms ! i"
    and E: "tolerance (top_speed m) \<le> E" "E \<le> step_dist sk"
    and range: "range_start m abs_start \<le> range_end m abs_end"
    and near: "\<bar>g (move_get_coord m (range_start m abs_start)) - commanded_pos sk\<bar> \<le> 0.5 * step_dist sk + E"
    and run: "itersolve_gen_steps_range ms i abs_start abs_end sk = Some (True, sk')"
  shows "\<bar>g (move_get_coord m (range_end m abs_end)) - commanded_pos sk'\<bar> \<le> 0.5 * step_dist sk + E" (is ?close)
    and "\<exists>cs. run_calls (\<lambda>dir t. stepcompress_append dir (print_time m) t) stepcompress_commit cs (sk_sc sk) = Some (sk_sc sk') \<and>
      steps_follow (\<lambda>t. g (move_get_coord m t)) (0.5 * step_dist sk) (2 * E) (range_end m abs_end) (commanded_pos sk)
        (range_start m abs_start) cs (commanded_pos sk')" (is ?follow)
    and "sk' = sk\<lparr>sk_sc := sk_sc sk', commanded_pos := commanded_pos sk'\<rparr>" (is ?same)
proof -
  let ?h = "0.5 * step_dist sk" and ?f = "\<lambda>t. g (move_get_coord (ms ! i) t)"
  let ?s = "seek_start (range_start m abs_start) (range_end m abs_end) ?h (stepcompress_get_step_dir (sk_sc sk)) (commanded_pos sk)"
  obtain s' sc' where loop: "seek_loop (calc_position_cb kin (commanded_pos sk) ms i)
        (\<lambda>dir t. stepcompress_append dir (print_time m) t) stepcompress_commit ?h (range_end m abs_end) ?s (sk_sc sk) = Some (True, s', sc')"
    and sk': "sk' = sk\<lparr>sk_sc := sc', commanded_pos := commanded ?h s'\<rparr>"
    using run stepper_of_post_cb [OF stepper] unfolding gen_steps_range_eq Let_def m sk(1)
    by (auto split: prod.splits if_splits)
  note start = seek_start_ok [OF range, of ?f, unfolded m, OF near [unfolded m], of "stepcompress_get_step_dir (sk_sc sk)"]
  have "run_follows ?f ?h E (range_end m abs_end) (\<lambda>dir t. stepcompress_append dir (print_time m) t) stepcompress_commit
      ?s (sk_sc sk) (True, s', sc')"
    unfolding m by (rule on_move.seek_loop_follows [OF loop [unfolded m] start(1)]) (use E sk(2) m in simp_all)
  then show ?close ?follow using start(3,4) unfolding run_follows_def by (auto simp: sk' m)
  show ?same by (simp add: sk')
qed

lemma range_returns:
  assumes m: "m = ms ! i" and h: "0 < h" and E: "tolerance (top_speed m) \<le> E" "E \<le> 2 * h"
    and range: "range_start m abs_start \<le> range_end m abs_end"
    and near: "\<bar>g (move_get_coord m (range_start m abs_start)) - c\<bar> \<le> h + E"
    and sub: "\<And>dir t sc. Q sc \<Longrightarrow> \<exists>r. submit dir t sc = Some r \<and> (fst r \<longrightarrow> Q (snd r) \<and> left (snd r) < (left sc :: nat))"
    and com: "\<And>sc. Q sc \<Longrightarrow> \<exists>r. commit sc = Some r \<and> Q (snd r) \<and> left (snd r) \<le> left sc"
    and sc: "Q sc"
  shows "\<exists>y. seek_loop (calc_position_cb kin p ms i) submit commit h (range_end m abs_end)
    (seek_start (range_start m abs_start) (range_end m abs_end) h dir c) sc = Some y"
proof -
  note start = seek_start_ok [OF range, of "\<lambda>t. g (move_get_coord (ms ! i) t)", unfolded m, OF near [unfolded m]]
  show ?thesis unfolding m
    by (rule on_move.seek_loop_returns [where Q = Q and left = left, OF start(1,2) E(1) [unfolded m] E(2) h sub com sc])
qed

end

interpretation stepper_x: bounded_stepper cart_stepper_x cx
  by unfold_locales simp

interpretation stepper_y: bounded_stepper cart_stepper_y cy
  by unfold_locales simp

interpretation stepper_z: bounded_stepper cart_stepper_z cz
  by unfold_locales simp

interpretation stepper_a: bounded_stepper corexy_stepper_plus "\<lambda>c. cx c + cy c"
  by unfold_locales simp

interpretation stepper_b: bounded_stepper corexy_stepper_minus "\<lambda>c. cx c - cy c"
  by unfold_locales simp

interpretation stepper_r: bounded_stepper polar_stepper_radius "\<lambda>c. sqrt (cx c * cx c + cy c * cy c)"
  by unfold_locales simp

interpretation stepper_w: bounded_stepper "winch_stepper anchor" "winch_position anchor" for anchor
  by unfold_locales simp

end
