(* ===== verification/Planned_Motion.thy ===== *)
theory Planned_Motion
  imports Step_Tracking
begin

text \<open>
  A stepper follows the queue of moves: after \<^verbatim>\<open>itersolve_generate_steps\<close> up to a time, the commanded
  position of the stepper is within half a step of the planned position at that time.
\<close>

subsection \<open>The planned position\<close>

abbreviation move_end :: "move \<Rightarrow> real" where
  "move_end m \<equiv> print_time m + move_t m"

definition follows_on :: "move \<Rightarrow> move \<Rightarrow> bool" where
  "follows_on m n \<longleftrightarrow> print_time n = move_end m \<and> start_pos n = move_get_coord m (move_t m)"

text \<open>The moves from \<open>i\<close> on lie end to end.\<close>

definition contiguous_from :: "nat \<Rightarrow> move list \<Rightarrow> bool" where
  "contiguous_from i ms \<longleftrightarrow> (\<forall>j. i \<le> j \<and> j < length ms \<longrightarrow> 0 \<le> move_t (ms ! j) \<and>
     (Suc j < length ms \<longrightarrow> follows_on (ms ! j) (ms ! Suc j)))"

lemma contiguous_move:
  assumes "contiguous_from i ms" and "i < length ms"
  shows "0 \<le> move_t (ms ! i)" and "contiguous_from (Suc i) ms"
    and "Suc i < length ms \<Longrightarrow> follows_on (ms ! i) (ms ! Suc i)"
  using assms by (auto simp: contiguous_from_def)

definition coord_at :: "move \<Rightarrow> real \<Rightarrow> coord" where
  "coord_at m t = move_get_coord m (max 0 (t - print_time m))"

definition position_at :: "move list \<Rightarrow> real \<Rightarrow> coord option" where
  "position_at ms t = map_option (\<lambda>i. coord_at (ms ! i) t) (first_move ms 0 t)"

lemma move_get_coord_0 [simp]: "move_get_coord m 0 = start_pos m"
  by (simp add: move_get_coord_def move_get_distance_def Let_def)

lemma coord_at_end:
  assumes "0 \<le> move_t m" and "follows_on m n"
  shows "coord_at m (move_end m) = start_pos n"
  using assms by (simp add: coord_at_def follows_on_def)

lemma first_move_skip:
  assumes "\<And>k. i \<le> k \<Longrightarrow> k < j \<Longrightarrow> move_end (ms ! k) \<le> t" and "i \<le> j" and "j \<le> length ms"
  shows "first_move ms i t = first_move ms j t"
  using assms(2,1,3)
proof (induction rule: inc_induct)
  case (step n)
  then have "first_move ms n t = first_move ms (Suc n) t" by (simp add: first_move.simps [of ms n])
  then show ?case using step by simp
qed simp

lemma first_move_Some:
  assumes "first_move ms i t = Some j"
  shows "i \<le> j" "j < length ms" "t < move_end (ms ! j)" "\<And>k. i \<le> k \<Longrightarrow> k < j \<Longrightarrow> move_end (ms ! k) \<le> t"
proof -
  have "i \<le> j \<and> j < length ms \<and> t < move_end (ms ! j) \<and> (\<forall>k. i \<le> k \<and> k < j \<longrightarrow> move_end (ms ! k) \<le> t)"
    using assms
  proof (induction ms i t rule: first_move.induct)
    case (1 ms i t)
    show ?case
    proof (cases "i < length ms \<and> t \<ge> move_end (ms ! i)")
      case True
      then have f: "first_move ms (Suc i) t = Some j" using "1.prems" by (subst (asm) first_move.simps) simp
      have IH: "Suc i \<le> j \<and> j < length ms \<and> t < move_end (ms ! j) \<and> (\<forall>k. Suc i \<le> k \<and> k < j \<longrightarrow> move_end (ms ! k) \<le> t)"
        using True by (intro "1.IH" [OF _ _ f]) auto
      have "move_end (ms ! k) \<le> t" if "i \<le> k" "k < j" for k
        using IH True that by (cases "k = i") auto
      then show ?thesis using IH by auto
    next
      case False
      then show ?thesis using "1.prems" by (subst (asm) first_move.simps) (auto split: if_splits)
    qed
  qed
  then show "i \<le> j" "j < length ms" "t < move_end (ms ! j)" "\<And>k. i \<le> k \<Longrightarrow> k < j \<Longrightarrow> move_end (ms ! k) \<le> t" by auto
qed

lemma first_move_exists:
  assumes "t < move_end (last ms)" and "i < length ms"
  shows "\<exists>j. first_move ms i t = Some j"
  using assms(2)
proof (induction "length ms - i" arbitrary: i)
  case (Suc n)
  show ?case
  proof (cases "t < move_end (ms ! i)")
    case True
    then show ?thesis using Suc.prems by (subst first_move.simps) simp
  next
    case False
    have "ms \<noteq> []" using Suc.prems by auto
    then have "i \<noteq> length ms - 1" using assms(1) False by (auto simp: last_conv_nth)
    then have "Suc i < length ms" using Suc.prems by simp
    moreover have "first_move ms i t = first_move ms (Suc i) t" using False Suc.prems by (subst first_move.simps) simp
    ultimately show ?thesis using Suc by simp
  qed
qed simp

text \<open>At the end of a move the moves after it give the same position.\<close>

lemma first_move_at_end:
  assumes "contiguous_from i ms" and "i < length ms" and "t = move_end (ms ! i)" and "first_move ms (Suc i) t = Some j"
  shows "coord_at (ms ! j) t = coord_at (ms ! i) t"
  using assms
proof (induction "length ms - i" arbitrary: i)
  case (Suc n)
  note j = first_move_Some [OF Suc.prems(4)]
  have l: "Suc i < length ms" using j by simp
  note c = contiguous_move [OF Suc.prems(1,2)]
  have f: "follows_on (ms ! i) (ms ! Suc i)" by (rule c(3) [OF l])
  have at: "coord_at (ms ! i) t = start_pos (ms ! Suc i)" using coord_at_end [OF c(1) f] Suc.prems(3) by simp
  have t: "t = print_time (ms ! Suc i)" using f Suc.prems(3) by (simp add: follows_on_def)
  show ?case
  proof (cases "j = Suc i")
    case True
    then show ?thesis using at t by (simp add: coord_at_def)
  next
    case False
    have ts: "t \<ge> move_end (ms ! Suc i)" using j(1,4) False by auto
    have m0: "0 \<le> move_t (ms ! Suc i)" by (rule contiguous_move(1) [OF c(2) l])
    have z: "t = move_end (ms ! Suc i)" using t m0 ts by simp
    have "first_move ms (Suc (Suc i)) t = Some j"
      using Suc.prems(4) l ts by (subst (asm) first_move.simps) simp
    then have "coord_at (ms ! j) t = coord_at (ms ! Suc i) t" using Suc.hyps(2) l by (intro Suc.hyps(1) [OF _ c(2) l z]) auto
    also have "\<dots> = start_pos (ms ! Suc i)" using t by (simp add: coord_at_def)
    finally show ?thesis using at by simp
  qed
qed simp

subsection \<open>A stepper along the queue\<close>

lemma range_empty:
  assumes "post_cb (sk_kin sk) = id" and "range_end (ms ! i) abs_end < range_start (ms ! i) abs_start"
  shows "itersolve_gen_steps_range ms i abs_start abs_end sk = Some (True, sk)"
proof -
  define h where "h = 0.5 * step_dist sk"
  define s where "s = seek_start (range_start (ms ! i) abs_start) (range_end (ms ! i) abs_end) h
    (stepcompress_get_step_dir (sk_sc sk)) (commanded_pos sk)"
  have "next_guess (range_end (ms ! i) abs_end) s = None"
    using assms(2) by (simp add: s_def next_guess_def seek_start_def secant_def)
  then have l: "seek_loop P submit commit h (range_end (ms ! i) abs_end) s sc = Some (True, s, sc)" for P submit commit and sc :: stepcompress
    by (simp add: seek_loop.simps)
  have c: "commanded h s = commanded_pos sk" by (simp add: s_def commanded_def seek_start_def)
  show ?thesis unfolding gen_steps_range_eq Let_def assms(1) h_def [symmetric] s_def [symmetric] l by (simp add: c)
qed

lemma inactive_still:
  assumes "stepper_of (sk_kin sk) = Some g" and "\<not> check_active sk m"
  shows "g (move_get_coord m t) = g (move_get_coord m u)"
  using assms
  by (cases "sk_kin sk")
     (auto simp: check_active_def Let_def AF_X_def AF_Y_def AF_Z_def move_get_coord_def winch_position_def)

text \<open>The parts of the stepper that stay the same.\<close>

definition same_stepper :: "stepper_kinematics \<Rightarrow> stepper_kinematics \<Rightarrow> bool" where
  "same_stepper sk sk' \<longleftrightarrow> sk_kin sk' = sk_kin sk \<and> step_dist sk' = step_dist sk \<and>
     gen_steps_pre_active sk' = gen_steps_pre_active sk \<and> gen_steps_post_active sk' = gen_steps_post_active sk \<and>
     last_flush_time sk' = last_flush_time sk"

text \<open>The stepper is next to the position it has at time \<open>t\<close> of the move.\<close>

definition near_plan :: "(coord \<Rightarrow> real) \<Rightarrow> real \<Rightarrow> stepper_kinematics \<Rightarrow> coord \<Rightarrow> bool" where
  "near_plan g E sk c \<longleftrightarrow> \<bar>g c - commanded_pos sk\<bar> \<le> 0.5 * step_dist sk + E"

context bounded_stepper begin

lemma range_cases:
  assumes sk: "sk_kin sk = kin" "0 < step_dist sk" and E: "tolerance (top_speed m) \<le> E" "E \<le> step_dist sk"
    and m: "m = ms ! i" and near: "near_plan g E sk (coord_at m from)"
    and run: "itersolve_gen_steps_range ms i from till sk = Some (True, sk')"
  shows "same_stepper sk sk' \<and> (range_start m from \<le> range_end m till \<and> near_plan g E sk' (move_get_coord m (range_end m till)) \<or>
    range_end m till < range_start m from \<and> sk' = sk)"
proof (cases "range_start m from \<le> range_end m till")
  case True
  have n: "\<bar>g (move_get_coord m (range_start m from)) - commanded_pos sk\<bar> \<le> 0.5 * step_dist sk + E"
    using near by (simp add: near_plan_def coord_at_def range_start_def)
  note R = range_tracks [OF sk m E True n run]
  have same: "same_stepper sk sk'" by (subst R(3)) (simp add: same_stepper_def)
  then show ?thesis using R(1) True by (simp add: near_plan_def same_stepper_def)
next
  case False
  then have "sk' = sk"
    using run range_empty [of sk ms i till "from"] stepper_of_post_cb [OF stepper] sk(1) m by simp
  then show ?thesis using False by (simp add: same_stepper_def)
qed

text \<open>An active move is followed, and a stepper does not leave its place in other moves.\<close>

lemma active_tracks:
  assumes sk: "sk_kin sk = kin" "0 < step_dist sk" and E: "tolerance (top_speed m) \<le> E" "E \<le> step_dist sk"
    and m: "m = ms ! i" and near: "near_plan g E sk (coord_at m last_flush)"
    and m0: "0 \<le> move_t m" and lf: "last_flush \<le> flush" "last_flush < move_end m"
    and run: "itersolve_gen_steps_range ms i last_flush flush sk = Some (True, sk')"
  shows "near_plan g E sk' (coord_at m (min flush (move_end m)))"
proof -
  have "range_end m flush = max 0 (min flush (move_end m) - print_time m)" if "range_start m last_flush \<le> range_end m flush"
    using that by (auto simp: range_start_def range_end_def)
  moreover have "coord_at m (min flush (move_end m)) = coord_at m last_flush" if "range_end m flush < range_start m last_flush"
    using that lf m0 by (auto simp: coord_at_def range_start_def range_end_def max_def min_def split: if_splits)
  ultimately show ?thesis using range_cases [OF sk E m near run] near by (auto simp: coord_at_def)
qed

lemma inactive_tracks:
  assumes sk: "sk_kin sk = kin" "0 < step_dist sk" and E: "tolerance (top_speed m) \<le> E" "E \<le> step_dist sk"
    and m: "m = ms ! i" and near: "near_plan g E sk (coord_at m from)"
    and still: "\<not> check_active sk m"
    and run: "itersolve_gen_steps_range ms i from till sk = Some (True, sk')"
  shows "near_plan g E sk' (coord_at m t)"
proof -
  have c: "g (move_get_coord m u) = g (move_get_coord m v)" for u v by (rule inactive_still [OF _ still]) (simp add: sk(1) stepper)
  have "near_plan g E sk' (move_get_coord m u) = near_plan g E sk' (move_get_coord m v)" for u v
    using c [of u v] by (simp add: near_plan_def)
  then show ?thesis using range_cases [OF sk E m near run] near unfolding coord_at_def by blast
qed

lemma generate_loop_tracks:
  assumes sk: "sk_kin sk = kin" "0 < step_dist sk" "E \<le> step_dist sk" "gen_steps_pre_active sk = 0" "gen_steps_post_active sk = 0"
    and ms: "contiguous_from i ms" "\<forall>m\<in>set ms. tolerance (top_speed m) \<le> E"
    and lf: "last_flush \<le> flush" "i < length ms \<Longrightarrow> last_flush < move_end (ms ! i)"
    and near: "i < length ms \<Longrightarrow> near_plan g E sk (coord_at (ms ! i) last_flush)"
    and run: "generate_loop ms i last_flush flush force skip sk = Some (True, sk')"
  shows "same_stepper sk sk' \<and> (\<exists>j. i \<le> j \<and> j < length ms \<and> (\<forall>k. i \<le> k \<and> k < j \<longrightarrow> move_end (ms ! k) < flush) \<and>
    flush \<le> move_end (ms ! j) \<and> near_plan g E sk' (coord_at (ms ! j) flush))"
  using assms
proof (induction "length ms - i" arbitrary: i force skip sk)
  case 0
  then show ?case by (subst (asm) generate_loop.simps) simp
next
  case (Suc n)
  note sk = Suc.prems(1-5)
  have i: "i < length ms" using Suc.hyps(2) by simp
  let ?m = "ms ! i"
  note c = contiguous_move [OF Suc.prems(6) i]
  have E: "tolerance (top_speed ?m) \<le> E" using Suc.prems(7) i by simp
  note lf = Suc.prems(8) Suc.prems(9) [OF i] and near = Suc.prems(10) [OF i]
  have stop: ?case if "same_stepper sk sk'" "flush \<le> move_end ?m" "near_plan g E sk' (coord_at ?m flush)"
    using that i by (intro conjI exI [of _ i]) auto
  have go: ?case if sk1: "same_stepper sk sk1" and e: "move_end ?m < flush" and n1: "near_plan g E sk1 (coord_at ?m (move_end ?m))"
    and r: "generate_loop ms (Suc i) last_flush flush force1 skip1 sk1 = Some (True, sk')" for force1 skip1 sk1
  proof -
    have s: "sk_kin sk1 = kin" "0 < step_dist sk1" "E \<le> step_dist sk1" "gen_steps_pre_active sk1 = 0" "gen_steps_post_active sk1 = 0"
      using sk sk1 by (auto simp: same_stepper_def)
    have nx: "last_flush < move_end (ms ! Suc i) \<and> near_plan g E sk1 (coord_at (ms ! Suc i) last_flush)" if l: "Suc i < length ms"
    proof -
      have f: "follows_on ?m (ms ! Suc i)" by (rule c(3) [OF l])
      have p: "print_time (ms ! Suc i) = move_end ?m" using f by (simp add: follows_on_def)
      have "0 \<le> move_t (ms ! Suc i)" by (rule contiguous_move(1) [OF c(2) l])
      moreover have "coord_at (ms ! Suc i) last_flush = coord_at ?m (move_end ?m)"
        using coord_at_end [OF c(1) f] lf(2) p by (simp add: coord_at_def)
      ultimately show ?thesis using lf(2) p n1 by simp
    qed
    have "n = length ms - Suc i" using Suc.hyps(2) by simp
    from Suc.hyps(1) [OF this s c(2) Suc.prems(7) lf(1) _ _ r] nx
    obtain j where sj: "same_stepper sk1 sk'" and j: "Suc i \<le> j" "j < length ms" "\<forall>k. Suc i \<le> k \<and> k < j \<longrightarrow> move_end (ms ! k) < flush"
      "flush \<le> move_end (ms ! j)" "near_plan g E sk' (coord_at (ms ! j) flush)" by blast
    have "move_end (ms ! k) < flush" if "i \<le> k" "k < j" for k
      using j(3) e that by (cases "k = i") auto
    moreover have "same_stepper sk sk'" using sk1 sj by (simp add: same_stepper_def)
    ultimately show ?thesis using j by (intro conjI exI [of _ j]) auto
  qed
  show ?case
  proof (cases "check_active sk ?m")
    case True
    obtain ok r where g1: "itersolve_gen_steps_range ms i last_flush flush sk = Some (ok, r)" "ok"
      using Suc.prems(11) i True sk(4) by (subst (asm) generate_loop.simps) (auto simp: Let_def split: bind_splits if_splits)
    then have r1: "itersolve_gen_steps_range ms i last_flush flush sk = Some (True, r)" by simp
    have same: "same_stepper sk r" using range_cases [OF sk(1,2) E sk(3) refl near r1] by blast
    have n: "near_plan g E r (coord_at ?m (min flush (move_end ?m)))"
      by (rule active_tracks [OF sk(1,2) E sk(3) refl near c(1) lf r1])
    have upd: "same_stepper sk (r\<lparr>last_move_time := x\<rparr>)" "near_plan g E (r\<lparr>last_move_time := x\<rparr>) = near_plan g E r" for x
      using same by (auto simp: same_stepper_def near_plan_def fun_eq_iff)
    show ?thesis
    proof (cases "move_end ?m \<ge> flush")
      case e: True
      then have "sk' = r\<lparr>last_move_time := flush\<rparr>"
        using Suc.prems(11) i True sk(4) r1 by (subst (asm) generate_loop.simps) (simp add: Let_def)
      then show ?thesis using e n upd by (intro stop) (simp_all add: min_def)
    next
      case e: False
      then have "generate_loop ms (Suc i) last_flush flush (move_end ?m + gen_steps_post_active sk) 0
          (r\<lparr>last_move_time := move_end ?m\<rparr>) = Some (True, sk')"
        using Suc.prems(11) i True sk(4) r1 by (subst (asm) generate_loop.simps) (simp add: Let_def)
      then show ?thesis using e n upd by (intro go [of "r\<lparr>last_move_time := move_end ?m\<rparr>"]) (simp_all add: min_def)
    qed
  next
    case False
    have still: "near_plan g E sk (coord_at ?m t)" for t
    proof -
      have "g (coord_at ?m t) = g (coord_at ?m last_flush)"
        unfolding coord_at_def by (rule inactive_still [OF _ False]) (simp add: sk(1) stepper)
      then show ?thesis using near by (simp add: near_plan_def)
    qed
    obtain r skip1 where r: "same_stepper sk r" "\<And>t. near_plan g E r (coord_at ?m t)"
      and cont: "if flush \<le> move_end ?m then sk' = r
        else generate_loop ms (Suc i) last_flush flush force skip1 r = Some (True, sk')"
    proof (cases "print_time ?m < force")
      case f: True
      let ?till = "if force > flush then flush else force"
      obtain ok r where g1: "itersolve_gen_steps_range ms i last_flush ?till sk = Some (ok, r)" "ok"
        and nx: "if flush \<le> move_end ?m then sk' = r else generate_loop ms (Suc i) last_flush flush force 1 r = Some (True, sk')"
        using Suc.prems(11) i False f sk(4)
        by (subst (asm) generate_loop.simps) (auto simp: Let_def split: bind_splits if_splits)
      then have r1: "itersolve_gen_steps_range ms i last_flush ?till sk = Some (True, r)" by simp
      have "same_stepper sk r" using range_cases [OF sk(1,2) E sk(3) refl near r1] by blast
      moreover have "near_plan g E r (coord_at ?m t)" for t
        by (rule inactive_tracks [OF sk(1,2) E sk(3) refl near False r1])
      ultimately show thesis using nx by (rule that)
    next
      case f: False
      have "if flush \<le> move_end ?m then sk' = sk
        else generate_loop ms (Suc i) last_flush flush force (skip + 1) sk = Some (True, sk')"
        using Suc.prems(11) i False f sk(4) by (subst (asm) generate_loop.simps) (auto simp: Let_def split: if_splits)
      then show thesis using still by (intro that) (simp_all add: same_stepper_def)
    qed
    show ?thesis
    proof (cases "flush \<le> move_end ?m")
      case True
      then show ?thesis using cont r by (intro stop) simp_all
    next
      case False
      then show ?thesis using cont r by (intro go [of r]) simp_all
    qed
  qed
qed

lemma generate_steps_tracks:
  assumes sk: "sk_kin sk = kin" "0 < step_dist sk" "E \<le> step_dist sk" "gen_steps_pre_active sk = 0" "gen_steps_post_active sk = 0"
    and ms: "ms = tq_moves (trapq_check_sentinels q)" "contiguous_from 1 ms" "\<forall>m\<in>set ms. tolerance (top_speed m) \<le> E"
    and hd: "ms \<noteq> []" "move_end (hd ms) \<le> last_flush_time sk" and t: "last_flush_time sk \<le> flush" "flush < move_end (last ms)"
    and near: "position_at ms (last_flush_time sk) = Some c" "near_plan g E sk c"
    and run: "itersolve_generate_steps sk (Some q) flush = Some (True, sk', q')"
  shows "\<exists>c'. position_at ms flush = Some c' \<and> near_plan g E sk' c'" and "q' = Some (trapq_check_sentinels q)"
    and "same_stepper (sk\<lparr>last_flush_time := flush\<rparr>) sk'"
proof -
  let ?sk = "sk\<lparr>last_flush_time := flush\<rparr>"
  obtain i where i: "first_move ms 0 (last_flush_time sk) = Some i" and c: "c = coord_at (ms ! i) (last_flush_time sk)"
    using near(1) by (auto simp: position_at_def)
  obtain force where loop: "generate_loop ms i (last_flush_time sk) flush force 0 ?sk = Some (True, sk')"
    and q': "q' = Some (trapq_check_sentinels q)"
    using run i by (auto simp: itersolve_generate_steps_def Let_def ms(1))
  show "q' = Some (trapq_check_sentinels q)" by (rule q')
  note f = first_move_Some [OF i]
  have "i \<noteq> 0" using hd f(3) by (intro notI) (simp add: hd_conv_nth)
  then have ci: "contiguous_from i ms" using ms(2) by (auto simp: contiguous_from_def)
  have sk1: "sk_kin ?sk = kin" "0 < step_dist ?sk" "E \<le> step_dist ?sk" "gen_steps_pre_active ?sk = 0" "gen_steps_post_active ?sk = 0"
    using sk by simp_all
  have n1: "near_plan g E ?sk (coord_at (ms ! i) (last_flush_time sk))" using near(2) c by (simp add: near_plan_def)
  from generate_loop_tracks [OF sk1 ci ms(3) t(1) f(3) n1 loop] obtain j
    where same: "same_stepper ?sk sk'" and j: "i \<le> j" "j < length ms" "\<forall>k. i \<le> k \<and> k < j \<longrightarrow> move_end (ms ! k) < flush"
      "flush \<le> move_end (ms ! j)" "near_plan g E sk' (coord_at (ms ! j) flush)" by blast
  show "same_stepper ?sk sk'" by (rule same)
  have "move_end (ms ! k) \<le> flush" if "k < j" for k
  proof (cases "k < i")
    case True
    then show ?thesis using f(4) [of k] t(1) by simp
  next
    case False
    then have "move_end (ms ! k) < flush" using j(3) that by simp
    then show ?thesis by simp
  qed
  then have skip: "first_move ms 0 flush = first_move ms j flush" using j(2) by (intro first_move_skip) auto
  have "\<exists>j'. first_move ms j flush = Some j' \<and> coord_at (ms ! j') flush = coord_at (ms ! j) flush"
  proof (cases "flush < move_end (ms ! j)")
    case True
    then show ?thesis using j(2) by (subst first_move.simps) simp
  next
    case False
    then have e: "flush = move_end (ms ! j)" using j(4) by simp
    then have "first_move ms j flush = first_move ms (Suc j) flush" using j(2) by (subst first_move.simps) simp
    moreover have "j \<noteq> length ms - 1" using t(2) e hd(1) by (auto simp: last_conv_nth)
    then have "Suc j < length ms" using j(2) by simp
    then obtain j' where "first_move ms (Suc j) flush = Some j'" using first_move_exists [OF t(2)] by blast
    moreover have "contiguous_from j ms" using ci j(1) by (auto simp: contiguous_from_def)
    ultimately show ?thesis using first_move_at_end [OF _ j(2) e] by auto
  qed
  then show "\<exists>c'. position_at ms flush = Some c' \<and> near_plan g E sk' c'" using skip j(5) by (auto simp: position_at_def)
qed

end

end
