(* ===== verification/Move_Queue.thy ===== *)
theory Move_Queue
  imports Planned_Motion
begin

text \<open>
  The queue of moves: its moves lie end to end in time and space, and every operation keeps that.
\<close>

subsection \<open>Moves end to end\<close>

definition end_to_end :: "move list \<Rightarrow> bool" where
  "end_to_end ms \<longleftrightarrow> (\<forall>m\<in>set ms. 0 \<le> move_t m) \<and> successively follows_on ms"

lemma end_to_end_simps [simp]:
  "end_to_end []" "end_to_end [m] \<longleftrightarrow> 0 \<le> move_t m"
  "end_to_end (m # n # ms) \<longleftrightarrow> 0 \<le> move_t m \<and> follows_on m n \<and> end_to_end (n # ms)"
  by (auto simp: end_to_end_def)

lemma end_to_end_append:
  "end_to_end (ms @ ns) \<longleftrightarrow> end_to_end ms \<and> end_to_end ns \<and> (ms \<noteq> [] \<and> ns \<noteq> [] \<longrightarrow> follows_on (last ms) (hd ns))"
  by (auto simp: end_to_end_def successively_append_iff)

lemma end_to_end_contiguous: "end_to_end ms \<Longrightarrow> contiguous_from 1 (s # ms)"
  by (auto simp: end_to_end_def contiguous_from_def successively_conv_nth nth_Cons split: nat.splits) 

lemma end_to_end_drop: "end_to_end ms \<Longrightarrow> end_to_end (drop n ms)"
  using end_to_end_append [of "take n ms" "drop n ms"] by simp

text \<open>The last element of the list of moves in C; \<open>time_pending\<close> is a print time not yet computed.\<close>

definition tail_ok :: "move list \<Rightarrow> move \<Rightarrow> bool" where
  "tail_ok ms s \<longleftrightarrow> move_t s = NEVER_TIME \<and> start_v s = 0 \<and> half_accel s = 0 \<and> axes_r s = zero_coord \<and>
     (print_time s = 0 \<or> (if ms = [] then print_time s = NEVER_TIME else follows_on (last ms) s))"

definition planned_queue :: "trapq \<Rightarrow> bool" where
  "planned_queue q \<longleftrightarrow> (\<exists>hs ms s. tq_moves q = hs # ms @ [s] \<and> print_time hs = 0 \<and> move_t hs = 0 \<and> end_to_end ms \<and>
     (ms \<noteq> [] \<longrightarrow> 0 < print_time (last ms)) \<and> tail_ok ms s \<and> axes_r hs = zero_coord)"

text \<open>Where a new move may start.\<close>

definition connects :: "trapq \<Rightarrow> real \<Rightarrow> coord \<Rightarrow> bool" where
  "connects q t c \<longleftrightarrow> 0 < t \<and> (let ms = butlast (tl (tq_moves q)) in
     ms \<noteq> [] \<longrightarrow> move_end (last ms) \<le> t \<and> c = move_get_coord (last ms) (move_t (last ms)))"

lemma planned_queue_alloc: "planned_queue trapq_alloc"
  by (simp add: planned_queue_def trapq_alloc_def tail_ok_def zero_move_def)

lemma check_sentinels_moves:
  assumes "planned_queue q"
  shows "\<exists>hs ms s. tq_moves (trapq_check_sentinels q) = hs # ms @ [s] \<and> print_time hs = 0 \<and> move_t hs = 0 \<and>
    butlast (tl (tq_moves q)) = ms \<and> end_to_end ms \<and> (ms \<noteq> [] \<longrightarrow> 0 < print_time (last ms)) \<and>
    move_t s = NEVER_TIME \<and> tail_ok ms s \<and> end_to_end (ms @ [s]) \<and> 0 < print_time s \<and> axes_r hs = zero_coord"
proof -
  obtain hs ms s where q: "tq_moves q = hs # ms @ [s]" "print_time hs = 0" "move_t hs = 0" "end_to_end ms"
    "ms \<noteq> [] \<longrightarrow> 0 < print_time (last ms)" "tail_ok ms s" "axes_r hs = zero_coord"
    using assms by (auto simp: planned_queue_def)
  have never: "0 < NEVER_TIME" by (simp add: NEVER_TIME_def)
  have m0: "0 \<le> move_t (last ms)" if "ms \<noteq> []" using q(4) that by (simp add: end_to_end_def)
  define s' where "s' = (if print_time s \<noteq> 0 then s else if ms = [] then s\<lparr>print_time := NEVER_TIME\<rparr>
    else s\<lparr>print_time := move_end (last ms), start_pos := move_get_coord (last ms) (move_t (last ms))\<rparr>)"
  have bl: "last (butlast (tq_moves q)) = last ms" if "ms \<noteq> []" using that by (simp add: q(1) butlast_append)
  have "tq_moves (trapq_check_sentinels q) = hs # ms @ [s']"
    using bl by (auto simp: trapq_check_sentinels_def Let_def q(1) s'_def butlast_append)
  moreover have "tail_ok ms s'" "move_t s' = NEVER_TIME"
    using q(6) by (auto simp: tail_ok_def s'_def follows_on_def)
  moreover have "0 < print_time s'"
    using q(5,6) m0 never by (auto simp: tail_ok_def s'_def follows_on_def intro: add_pos_nonneg)
  moreover have "end_to_end (ms @ [s'])"
    using q(4,6) never by (auto simp: end_to_end_append tail_ok_def s'_def follows_on_def)
  ultimately show ?thesis using q by (intro exI [of _ hs] exI [of _ ms] exI [of _ s']) (simp add: butlast_append)
qed

lemma planned_queue_check_sentinels:
  assumes "planned_queue q"
  shows "planned_queue (trapq_check_sentinels q)"
  using check_sentinels_moves [OF assms] unfolding planned_queue_def by blast

subsection \<open>Adding moves\<close>

definition real_moves :: "trapq \<Rightarrow> move list" where
  "real_moves q = butlast (tl (tq_moves q))"

lemma add_move_planned:
  assumes q: "planned_queue q" and c: "connects q (print_time m) (start_pos m)" and m0: "0 \<le> move_t m"
  shows "planned_queue (trapq_add_move q m)" and "real_moves (trapq_add_move q m) \<noteq> []"
    and "last (real_moves (trapq_add_move q m)) = m"
    and "\<exists>new. real_moves (trapq_add_move q m) = real_moves q @ new \<and>
      (real_moves q = [] \<or> move_end (last (real_moves q)) < print_time m \<longrightarrow>
        (\<exists>n. new = [n, m] \<and> start_v n = 0 \<and> half_accel n = 0 \<and> start_pos n = start_pos m \<and> move_end n = print_time m))"
proof -
  obtain hs ms s where mv: "tq_moves q = hs # ms @ [s]" "print_time hs = 0" "move_t hs = 0" "end_to_end ms"
    "ms \<noteq> [] \<longrightarrow> 0 < print_time (last ms)" "tail_ok ms s" "axes_r hs = zero_coord"
    using q by (auto simp: planned_queue_def)
  have ms: "real_moves q = ms" by (simp add: real_moves_def mv(1) butlast_append)
  have t0: "0 < print_time m" and con: "ms \<noteq> [] \<Longrightarrow> move_end (last ms) \<le> print_time m \<and> start_pos m = move_get_coord (last ms) (move_t (last ms))"
    using c by (auto simp: connects_def Let_def mv(1) butlast_append)
  define null_time where "null_time = (if ms = [] then (if print_time m > MAX_NULL_MOVE then print_time m - MAX_NULL_MOVE else 0)
    else move_end (last ms))"
  define null where "null = zero_move\<lparr>start_pos := start_pos m, print_time := null_time, move_t := print_time m - null_time\<rparr>"
  define new where "new = (if ms = [] \<or> move_end (last ms) < print_time m then [null, m] else [m])"
  have nt: "null_time \<le> print_time m" using con t0 by (auto simp: null_time_def MAX_NULL_MOVE_def)
  have prev: "last (hs # ms) = (if ms = [] then hs else last ms)" by simp
  have moves: "tq_moves (trapq_add_move q m) = hs # ms @ new @ [s\<lparr>print_time := 0\<rparr>]"
    using mv(2,3,5) t0
    by (auto simp: trapq_add_move_def Let_def mv(1) butlast_append new_def null_def null_time_def)
  have fm: "follows_on null m"
    by (simp add: follows_on_def null_def zero_move_def move_get_coord_def move_get_distance_def)
  have e: "end_to_end (ms @ new)"
    using mv(4) m0 nt con fm
    by (auto simp: end_to_end_append new_def follows_on_def null_def null_time_def zero_move_def)
  have ln: "last new = m" "new \<noteq> []" by (auto simp: new_def)
  then have l: "last (ms @ new) = m" "ms @ new \<noteq> []" by auto
  have tk: "tail_ok (ms @ new) (s\<lparr>print_time := 0\<rparr>)" using mv(6) by (simp add: tail_ok_def)
  show "planned_queue (trapq_add_move q m)"
    unfolding planned_queue_def
    by (intro exI [of _ hs] exI [of _ "ms @ new"] exI [of _ "s\<lparr>print_time := 0\<rparr>"])
       (use moves mv(2,3,7) e tk l t0 in simp)
  have r: "real_moves (trapq_add_move q m) = ms @ new" by (simp add: real_moves_def moves butlast_append)
  show "real_moves (trapq_add_move q m) \<noteq> []" "last (real_moves (trapq_add_move q m)) = m" using r l by simp_all
  have "new = [null, m]" if "ms = [] \<or> move_end (last ms) < print_time m" using that by (auto simp: new_def)
  moreover have "start_v null = 0 \<and> half_accel null = 0 \<and> start_pos null = start_pos m \<and> move_end null = print_time m"
    by (simp add: null_def zero_move_def)
  ultimately show "\<exists>new. real_moves (trapq_add_move q m) = real_moves q @ new \<and>
      (real_moves q = [] \<or> move_end (last (real_moves q)) < print_time m \<longrightarrow>
        (\<exists>n. new = [n, m] \<and> start_v n = 0 \<and> half_accel n = 0 \<and> start_pos n = start_pos m \<and> move_end n = print_time m))"
    using r ms by blast
qed

text \<open>Where the queue ends, or the given place while it is empty.\<close>

definition add_if :: "real \<Rightarrow> trapq \<Rightarrow> move \<Rightarrow> trapq" where
  "add_if t q m = (if t \<noteq> 0 then trapq_add_move q m else q)"

lemma trapq_append_steps:
  "trapq_append q time0 accel_t cruise_t decel_t pos0 r v0 cruise_v accel =
     (let m1 = \<lparr>print_time = time0, move_t = accel_t, start_v = v0, half_accel = 0.5 * accel, start_pos = pos0, axes_r = r\<rparr>;
          m2 = \<lparr>print_time = time0 + accel_t, move_t = cruise_t, start_v = cruise_v, half_accel = 0,
                start_pos = move_get_coord m1 accel_t, axes_r = r\<rparr>;
          m3 = \<lparr>print_time = time0 + accel_t + cruise_t, move_t = decel_t, start_v = cruise_v, half_accel = - 0.5 * accel,
                start_pos = move_get_coord m2 cruise_t, axes_r = r\<rparr>
      in add_if decel_t (add_if cruise_t (add_if accel_t q m1) m2) m3)"
  by (simp add: trapq_append_def add_if_def Let_def)

definition ends_at :: "trapq \<Rightarrow> real \<Rightarrow> coord \<Rightarrow> bool" where
  "ends_at q t c \<longleftrightarrow> real_moves q \<noteq> [] \<and> move_end (last (real_moves q)) = t \<and>
     move_get_coord (last (real_moves q)) (move_t (last (real_moves q))) = c"

lemma ends_at_connects: "ends_at q t c \<Longrightarrow> 0 < t \<Longrightarrow> connects q t c"
  by (auto simp: ends_at_def connects_def real_moves_def Let_def)

lemma add_if_planned:
  assumes q: "planned_queue q" and c: "connects q (print_time m) (start_pos m)" and m: "0 \<le> move_t m" "t = move_t m"
  shows "planned_queue (add_if t q m)" and "connects (add_if t q m) (move_end m) (move_get_coord m (move_t m))"
    and "0 < move_t m \<Longrightarrow> ends_at (add_if t q m) (move_end m) (move_get_coord m (move_t m))"
    and "ends_at q (print_time m) (start_pos m) \<Longrightarrow> ends_at (add_if t q m) (move_end m) (move_get_coord m (move_t m))"
proof -
  note a = add_move_planned [OF q c m(1)]
  have e: "ends_at (trapq_add_move q m) (move_end m) (move_get_coord m (move_t m))" using a(2,3) by (simp add: ends_at_def)
  have t0: "0 < move_end m" using c m(1) by (auto simp: connects_def)
  show "planned_queue (add_if t q m)" using a(1) q by (simp add: add_if_def)
  show "connects (add_if t q m) (move_end m) (move_get_coord m (move_t m))"
    using ends_at_connects [OF e t0] c m(2) by (cases "t = 0") (simp_all add: add_if_def)
  show "0 < move_t m \<Longrightarrow> ends_at (add_if t q m) (move_end m) (move_get_coord m (move_t m))" using e m(2) by (simp add: add_if_def)
  show "ends_at q (print_time m) (start_pos m) \<Longrightarrow> ends_at (add_if t q m) (move_end m) (move_get_coord m (move_t m))"
    using e m(2) by (cases "t = 0") (simp_all add: add_if_def)
qed

definition along :: "coord \<Rightarrow> coord \<Rightarrow> real \<Rightarrow> coord" where
  "along c r d = \<lparr>cx = cx c + cx r * d, cy = cy c + cy r * d, cz = cz c + cz r * d\<rparr>"

lemma along_along: "along (along c r d) r e = along c r (d + e)"
  by (simp add: along_def algebra_simps)

lemma along_0 [simp]: "along c r 0 = c"
  by (simp add: along_def)

lemma move_get_coord_along: "move_get_coord m t = along (start_pos m) (axes_r m) (move_get_distance m t)"
  by (simp add: move_get_coord_def along_def Let_def)

lemma append_invariant:
  assumes P: "P q time0 pos0" and d: "0 \<le> accel_t" "0 \<le> cruise_t" "0 \<le> decel_t"
    and step: "\<And>q m. P q (print_time m) (start_pos m) \<Longrightarrow> time0 \<le> print_time m \<Longrightarrow> 0 \<le> move_t m \<Longrightarrow>
      P (add_if (move_t m) q m) (move_end m) (move_get_coord m (move_t m))"
  shows "P (trapq_append q time0 accel_t cruise_t decel_t pos0 r v0 cruise_v accel) (time0 + accel_t + cruise_t + decel_t)
    (along pos0 r ((v0 + accel * accel_t / 2) * accel_t + cruise_v * cruise_t + (cruise_v - accel * decel_t / 2) * decel_t))"
proof -
  define m1 where "m1 = \<lparr>print_time = time0, move_t = accel_t, start_v = v0, half_accel = 0.5 * accel, start_pos = pos0, axes_r = r\<rparr>"
  define m2 where "m2 = \<lparr>print_time = time0 + accel_t, move_t = cruise_t, start_v = cruise_v, half_accel = 0,
    start_pos = move_get_coord m1 accel_t, axes_r = r\<rparr>"
  define m3 where "m3 = \<lparr>print_time = time0 + accel_t + cruise_t, move_t = decel_t, start_v = cruise_v, half_accel = - 0.5 * accel,
    start_pos = move_get_coord m2 cruise_t, axes_r = r\<rparr>"
  have app: "trapq_append q time0 accel_t cruise_t decel_t pos0 r v0 cruise_v accel =
      add_if (move_t m3) (add_if (move_t m2) (add_if (move_t m1) q m1) m2) m3"
    by (simp add: trapq_append_steps Let_def m3_def m2_def m1_def)
  have p1: "P (add_if (move_t m1) q m1) (move_end m1) (move_get_coord m1 (move_t m1))"
    using P d by (intro step) (simp_all add: m1_def)
  have p2: "P (add_if (move_t m2) (add_if (move_t m1) q m1) m2) (move_end m2) (move_get_coord m2 (move_t m2))"
    by (rule step) (use p1 d in \<open>simp_all add: m1_def m2_def\<close>)
  have p3: "P (add_if (move_t m3) (add_if (move_t m2) (add_if (move_t m1) q m1) m2) m3) (move_end m3) (move_get_coord m3 (move_t m3))"
    by (rule step) (use p2 d in \<open>simp_all add: m2_def m3_def\<close>)
  have e: "move_end m3 = time0 + accel_t + cruise_t + decel_t" by (simp add: m3_def)
  have c: "move_get_coord m3 (move_t m3) =
      along pos0 r ((v0 + accel * accel_t / 2) * accel_t + cruise_v * cruise_t + (cruise_v - accel * decel_t / 2) * decel_t)"
    by (simp add: move_get_coord_along m3_def m2_def m1_def along_along move_get_distance_def algebra_simps)
  show ?thesis using p3 unfolding app e c .
qed

lemma append_planned:
  assumes q: "planned_queue q" and c: "connects q time0 pos0"
    and d: "0 \<le> accel_t" "0 \<le> cruise_t" "0 \<le> decel_t" "0 < accel_t + cruise_t + decel_t"
  shows "planned_queue (trapq_append q time0 accel_t cruise_t decel_t pos0 r v0 cruise_v accel)"
    and "ends_at (trapq_append q time0 accel_t cruise_t decel_t pos0 r v0 cruise_v accel) (time0 + accel_t + cruise_t + decel_t)
      (along pos0 r ((v0 + accel * accel_t / 2) * accel_t + cruise_v * cruise_t + (cruise_v - accel * decel_t / 2) * decel_t))"
proof -
  let ?P = "\<lambda>q t c. planned_queue q \<and> connects q t c \<and> (t = time0 \<or> ends_at q t c)"
  have "?P (trapq_append q time0 accel_t cruise_t decel_t pos0 r v0 cruise_v accel) (time0 + accel_t + cruise_t + decel_t)
    (along pos0 r ((v0 + accel * accel_t / 2) * accel_t + cruise_v * cruise_t + (cruise_v - accel * decel_t / 2) * decel_t))"
  proof (rule append_invariant [where P = ?P, OF _ d(1-3)])
    show "?P q time0 pos0" using q c by simp
    fix q and m :: move assume P: "?P q (print_time m) (start_pos m)" and m: "time0 \<le> print_time m" "0 \<le> move_t m"
    have q: "planned_queue q" and c: "connects q (print_time m) (start_pos m)" using P by auto
    note A = add_if_planned [OF q c m(2) refl]
    have "move_end m = time0 \<or> ends_at (add_if (move_t m) q m) (move_end m) (move_get_coord m (move_t m))"
      using P A(3,4) m by (cases "move_t m = 0") (auto simp: le_less)
    then show "?P (add_if (move_t m) q m) (move_end m) (move_get_coord m (move_t m))" using A(1,2) by blast
  qed
  then show "planned_queue (trapq_append q time0 accel_t cruise_t decel_t pos0 r v0 cruise_v accel)"
    "ends_at (trapq_append q time0 accel_t cruise_t decel_t pos0 r v0 cruise_v accel) (time0 + accel_t + cruise_t + decel_t)
      (along pos0 r ((v0 + accel * accel_t / 2) * accel_t + cruise_v * cruise_t + (cruise_v - accel * decel_t / 2) * decel_t))"
    using d(4) by auto
qed

subsection \<open>The position up to the new moves\<close>

lemma first_move_front:
  assumes "i \<le> length xs"
  shows "first_move (xs @ ys) i t = (case first_move xs i t of None \<Rightarrow> first_move (xs @ ys) (length xs) t | Some j \<Rightarrow> Some j)"
  using assms
proof (induction "length xs - i" arbitrary: i)
  case 0
  then have "first_move xs i t = None" by (subst first_move.simps) simp
  then show ?case using 0 by simp
next
  case (Suc n)
  then have i: "i < length xs" by simp
  show ?case
  proof (cases "t \<ge> move_end (xs ! i)")
    case True
    then have "first_move (xs @ ys) i t = first_move (xs @ ys) (Suc i) t" "first_move xs i t = first_move xs (Suc i) t"
      using i by (simp_all add: first_move.simps [of _ i] nth_append)
    then show ?thesis using Suc i by simp
  next
    case False
    then have "first_move (xs @ ys) i t = Some i" "first_move xs i t = Some i"
      using i by (simp_all add: first_move.simps [of _ i] nth_append)
    then show ?thesis by simp
  qed
qed

lemma position_at_front:
  assumes "first_move xs 0 t = Some j"
  shows "position_at (xs @ ys) t = Some (coord_at (xs ! j) t)"
  using first_move_front [of 0 xs ys t] assms first_move_Some(2) [OF assms] by (simp add: position_at_def nth_append)

lemma position_at_back:
  assumes "first_move xs 0 t = None" and "t < move_end y"
  shows "position_at (xs @ y # ys) t = Some (coord_at y t)"
proof -
  have "first_move (xs @ y # ys) 0 t = first_move (xs @ y # ys) (length xs) t"
    using first_move_front [of 0 xs "y # ys" t] assms(1) by simp
  also have "\<dots> = Some (length xs)" using assms(2) by (subst first_move.simps) simp
  finally show ?thesis by (simp add: position_at_def)
qed

lemma coord_at_still:
  assumes "start_v m = 0" and "half_accel m = 0"
  shows "coord_at m t = start_pos m"
  using assms by (simp add: coord_at_def move_get_coord_def move_get_distance_def Let_def)

definition planned_position :: "trapq \<Rightarrow> real \<Rightarrow> coord option" where
  "planned_position q t = position_at (tq_moves (trapq_check_sentinels q)) t"

lemma position_at_ended:
  assumes "\<And>y. y \<in> set ys \<Longrightarrow> move_end y \<le> t"
  shows "position_at (ys @ xs) t = position_at xs t"
proof -
  have shift: "first_move (ys @ xs) (length ys + i) t = map_option ((+) (length ys)) (first_move xs i t)" for i
  proof (induction xs i t rule: first_move.induct)
    case (1 xs i t)
    then show ?case by (simp add: first_move.simps [of "ys @ xs" "length ys + i"] first_move.simps [of xs i])
  qed
  have "first_move (ys @ xs) 0 t = first_move (ys @ xs) (length ys) t"
    using assms by (intro first_move_skip) (auto simp: nth_append)
  then show ?thesis using shift [of 0] by (cases "first_move xs 0 t") (simp_all add: position_at_def nth_append)
qed

text \<open>The position after the last move is the one it ends at.\<close>

definition end_coord :: "trapq \<Rightarrow> coord" where
  "end_coord q = (let m = last (real_moves q) in move_get_coord m (move_t m))"

lemma planned_position_eq:
  assumes q: "planned_queue q" and ne: "real_moves q \<noteq> []" and t: "0 \<le> t" "t < NEVER_TIME"
  shows "planned_position q t = Some (case position_at (real_moves q) t of Some c \<Rightarrow> c | None \<Rightarrow> end_coord q)"
proof -
  obtain hs ms s where L: "tq_moves (trapq_check_sentinels q) = hs # ms @ [s]" "real_moves q = ms" "print_time hs = 0" "move_t hs = 0"
    "end_to_end (ms @ [s])" "tail_ok ms s" "move_t s = NEVER_TIME" "0 < print_time s"
    using check_sentinels_moves [OF q] by (auto simp: real_moves_def)
  have "planned_position q t = position_at ([hs] @ ms @ [s]) t" by (simp add: planned_position_def L(1))
  also have "\<dots> = position_at (ms @ [s]) t" using L(3,4) t(1) by (intro position_at_ended) simp
  also have "\<dots> = Some (case position_at ms t of Some c \<Rightarrow> c | None \<Rightarrow> end_coord q)"
  proof (cases "first_move ms 0 t")
    case None
    have "position_at (ms @ s # []) t = Some (coord_at s t)"
      using None t(2) L(7,8) by (intro position_at_back) simp_all
    moreover have "coord_at s t = start_pos s" using L(6) by (intro coord_at_still) (simp_all add: tail_ok_def)
    moreover have "follows_on (last ms) s" using L(5) ne L(2) by (simp add: end_to_end_append)
    ultimately show ?thesis using None by (simp add: position_at_def [of ms] end_coord_def L(2) follows_on_def Let_def)
  next
    case (Some j)
    then show ?thesis using position_at_front [OF Some] by (simp add: position_at_def [of ms])
  qed
  finally show ?thesis by (simp add: L(2))
qed

lemma add_move_position:
  assumes q: "planned_queue q" and c: "connects q (print_time m) (start_pos m)" and m0: "0 \<le> move_t m"
    and ne: "real_moves q \<noteq> []" and t: "0 \<le> t" "t < print_time m" "t < NEVER_TIME"
  shows "planned_position (trapq_add_move q m) t = planned_position q t"
proof -
  note a = add_move_planned [OF q c m0]
  obtain new where new: "real_moves (trapq_add_move q m) = real_moves q @ new" "move_end (last (real_moves q)) < print_time m \<longrightarrow>
      (\<exists>n. new = [n, m] \<and> start_v n = 0 \<and> half_accel n = 0 \<and> start_pos n = start_pos m \<and> move_end n = print_time m)"
    using a(4) by blast
  have "position_at (real_moves q @ new) t = Some (case position_at (real_moves q) t of Some c \<Rightarrow> c | None \<Rightarrow> end_coord q)"
  proof (cases "first_move (real_moves q) 0 t")
    case None
    have "\<not> t < move_end (last (real_moves q))" using first_move_exists [of t "real_moves q" 0] None ne by auto
    then obtain n where n: "new = [n, m]" "start_v n = 0" "half_accel n = 0" "start_pos n = start_pos m" "move_end n = print_time m"
      using new(2) t(2) by auto
    have "position_at (real_moves q @ n # [m]) t = Some (coord_at n t)" using None t n(5) by (intro position_at_back) simp_all
    moreover have "start_pos m = end_coord q" using c ne by (simp add: connects_def real_moves_def end_coord_def Let_def)
    ultimately show ?thesis using None coord_at_still [OF n(2,3)] n(1,4) by (simp add: position_at_def [of "real_moves q"])
  next
    case (Some j)
    then show ?thesis using position_at_front [OF Some] by (simp add: position_at_def [of "real_moves q"])
  qed
  then show ?thesis using planned_position_eq [OF a(1,2) t(1,3)] planned_position_eq [OF q ne t(1,3)] new(1) by simp
qed

lemma add_if_position:
  assumes q: "planned_queue q" and c: "connects q (print_time m) (start_pos m)" and m: "0 \<le> move_t m" "d = move_t m"
    and ne: "real_moves q \<noteq> []" and t: "0 \<le> t" "t < print_time m" "t < NEVER_TIME"
  shows "planned_position (add_if d q m) t = planned_position q t" and "real_moves (add_if d q m) \<noteq> []"
  using add_move_position [OF q c m(1) ne t] add_move_planned(2) [OF q c m(1)] ne by (simp_all add: add_if_def)

lemma append_position:
  assumes q: "planned_queue q" and c: "connects q time0 pos0" and ne: "real_moves q \<noteq> []"
    and d: "0 \<le> accel_t" "0 \<le> cruise_t" "0 \<le> decel_t" and t: "0 \<le> t" "t < time0" "t < NEVER_TIME"
  shows "planned_position (trapq_append q time0 accel_t cruise_t decel_t pos0 r v0 cruise_v accel) t = planned_position q t"
proof -
  let ?P = "\<lambda>q' u c. planned_queue q' \<and> connects q' u c \<and> real_moves q' \<noteq> [] \<and> planned_position q' t = planned_position q t"
  have "?P (trapq_append q time0 accel_t cruise_t decel_t pos0 r v0 cruise_v accel) (time0 + accel_t + cruise_t + decel_t)
    (along pos0 r ((v0 + accel * accel_t / 2) * accel_t + cruise_v * cruise_t + (cruise_v - accel * decel_t / 2) * decel_t))"
  proof (rule append_invariant [where P = ?P, OF _ d])
    show "?P q time0 pos0" using q c ne by simp
    fix q' and m :: move assume P: "?P q' (print_time m) (start_pos m)" and m: "time0 \<le> print_time m" "0 \<le> move_t m"
    then have q': "planned_queue q'" "connects q' (print_time m) (start_pos m)" "real_moves q' \<noteq> []" by auto
    show "?P (add_if (move_t m) q' m) (move_end m) (move_get_coord m (move_t m))"
      using add_if_planned(1,2) [OF q'(1,2) m(2) refl] add_if_position [OF q'(1,2) m(2) refl q'(3) t(1) _ t(3)] P t(2) m(1) by simp
  qed
  then show ?thesis by blast
qed

subsection \<open>Finished moves\<close>

lemma finalize_loop_eq:
  "finalize_loop t ms h =
     (let done_moves = takeWhile (\<lambda>m. \<not> move_end m > t) ms; left = dropWhile (\<lambda>m. \<not> move_end m > t) ms
      in (left, rev (filter (\<lambda>m. start_v m \<noteq> 0 \<or> half_accel m \<noteq> 0) done_moves) @ h, left = []))"
  by (induction ms arbitrary: h) (simp_all add: Let_def)

lemma finalize_planned:
  assumes "planned_queue q"
  shows "planned_queue (trapq_finalize_moves q t)"
    and "real_moves (trapq_finalize_moves q t) = dropWhile (\<lambda>m. move_end m \<le> t) (real_moves q)"
proof -
  obtain hs ms s where mv: "tq_moves q = hs # ms @ [s]" "print_time hs = 0" "move_t hs = 0" "end_to_end ms"
    "ms \<noteq> [] \<longrightarrow> 0 < print_time (last ms)" "tail_ok ms s" "axes_r hs = zero_coord"
    using assms by (auto simp: planned_queue_def)
  define left where "left = dropWhile (\<lambda>m. move_end m \<le> t) ms"
  define s' where "s' = (if left = [] then s\<lparr>print_time := NEVER_TIME\<rparr> else s)"
  have moves: "tq_moves (trapq_finalize_moves q t) = hs # left @ [s']"
    by (simp add: trapq_finalize_moves_def Let_def mv(1) finalize_loop_eq left_def s'_def not_less butlast_append)
  have e: "end_to_end left" using mv(4) unfolding left_def dropWhile_eq_drop by (rule end_to_end_drop)
  have l: "last left = last ms" "ms \<noteq> []" if "left \<noteq> []" 
    using that last_append [of "takeWhile (\<lambda>m. move_end m \<le> t) ms" left] unfolding left_def by (auto simp: takeWhile_dropWhile_id)
  have "tail_ok left s'" using mv(6) l by (auto simp: tail_ok_def s'_def)
  then show "planned_queue (trapq_finalize_moves q t)"
    unfolding planned_queue_def
    by (intro exI [of _ hs] exI [of _ left] exI [of _ s']) (use moves mv(2,3,5,7) e l in auto)
  show "real_moves (trapq_finalize_moves q t) = dropWhile (\<lambda>m. move_end m \<le> t) (real_moves q)"
    by (simp add: real_moves_def moves mv(1) left_def butlast_append)
qed

lemma finalize_position:
  assumes q: "planned_queue q" and left: "real_moves (trapq_finalize_moves q u) \<noteq> []" and t: "0 \<le> t" "u \<le> t" "t < NEVER_TIME"
  shows "planned_position (trapq_finalize_moves q u) t = planned_position q t"
    and "end_coord (trapq_finalize_moves q u) = end_coord q"
proof -
  note F = finalize_planned [OF q]
  let ?d = "takeWhile (\<lambda>m. move_end m \<le> u) (real_moves q)" and ?l = "real_moves (trapq_finalize_moves q u)"
  have split: "real_moves q = ?d @ ?l" by (simp add: F(2))
  have ne: "real_moves q \<noteq> []" using left F(2) by auto
  have "last (real_moves q) = last ?l" using left by (subst split) simp
  then show e: "end_coord (trapq_finalize_moves q u) = end_coord q" by (simp add: end_coord_def)
  have "position_at (?d @ ?l) t = position_at ?l t" using t(2) by (intro position_at_ended) (auto dest: set_takeWhileD)
  then have "position_at (real_moves q) t = position_at ?l t" using split by simp
  then show "planned_position (trapq_finalize_moves q u) t = planned_position q t"
    by (simp only: planned_position_eq [OF F(1) left t(1,3)] planned_position_eq [OF q ne t(1,3)] e)
qed

lemma finalize_all:
  assumes q: "planned_queue q" and ne: "real_moves q \<noteq> []" and left: "real_moves (trapq_finalize_moves q u) = []"
    and t: "0 \<le> t" "u \<le> t" "t < NEVER_TIME"
  shows "planned_position q t = Some (end_coord q)"
proof -
  have "move_end m \<le> t" if "m \<in> set (real_moves q)" for m
    using left that t(2) by (auto simp: finalize_planned(2) [OF q] dropWhile_eq_Nil_conv dest!: bspec)
  then have "position_at (real_moves q @ []) t = position_at [] t" by (rule position_at_ended)
  then have "position_at (real_moves q) t = None" by (simp add: position_at_def first_move.simps [of "[]"])
  then show ?thesis using planned_position_eq [OF q ne t(1,3)] by simp
qed

subsection \<open>A first move\<close>

lemma add_move_start:
  assumes q: "planned_queue q" and e: "real_moves q = []" and m0: "0 \<le> move_t m" and t: "0 \<le> t" "t < print_time m" "t < NEVER_TIME"
  shows "planned_position (trapq_add_move q m) t = Some (start_pos m)"
proof -
  have c: "connects q (print_time m) (start_pos m)" using e t by (simp add: connects_def real_moves_def)
  note a = add_move_planned [OF q c m0]
  obtain n where n: "real_moves (trapq_add_move q m) = [n, m]" "start_v n = 0" "half_accel n = 0" "start_pos n = start_pos m"
    "move_end n = print_time m"
    using a(4) e by auto
  have "position_at ([] @ n # [m]) t = Some (coord_at n t)"
    using t(2) n(5) by (intro position_at_back) (simp_all add: first_move.simps)
  then show ?thesis using planned_position_eq [OF a(1,2) t(1,3)] coord_at_still [OF n(2,3)] n(1,4) by simp
qed

lemma append_start:
  assumes q: "planned_queue q" and e: "real_moves q = []"
    and d: "0 \<le> accel_t" "0 \<le> cruise_t" "0 \<le> decel_t" "0 < accel_t + cruise_t + decel_t"
    and t: "0 \<le> t" "t < time0" "t < NEVER_TIME"
  shows "planned_position (trapq_append q time0 accel_t cruise_t decel_t pos0 r v0 cruise_v accel) t = Some pos0"
proof -
  let ?P = "\<lambda>q' u c. planned_queue q' \<and> connects q' u c \<and>
    (real_moves q' = [] \<and> u = time0 \<and> c = pos0 \<or> real_moves q' \<noteq> [] \<and> planned_position q' t = Some pos0)"
  have "?P (trapq_append q time0 accel_t cruise_t decel_t pos0 r v0 cruise_v accel) (time0 + accel_t + cruise_t + decel_t)
    (along pos0 r ((v0 + accel * accel_t / 2) * accel_t + cruise_v * cruise_t + (cruise_v - accel * decel_t / 2) * decel_t))"
  proof (rule append_invariant [where P = ?P, OF _ d(1-3)])
    show "?P q time0 pos0" using q e t by (simp add: connects_def real_moves_def)
    fix q' and m :: move assume P: "?P q' (print_time m) (start_pos m)" and m: "time0 \<le> print_time m" "0 \<le> move_t m"
    have q': "planned_queue q'" "connects q' (print_time m) (start_pos m)" and tm: "t < print_time m" using P t(2) m(1) by auto
    note A = add_if_planned(1,2) [OF q' m(2) refl]
    show "?P (add_if (move_t m) q' m) (move_end m) (move_get_coord m (move_t m))"
    proof (cases "real_moves q' = []")
      case True
      then have "start_pos m = pos0" "print_time m = time0" using P by auto
      then show ?thesis
        using A True add_move_start [OF q'(1) True m(2) t(1) tm t(3)] add_move_planned(2) [OF q' m(2)]
        by (cases "move_t m = 0") (simp_all add: add_if_def)
    next
      case False
      then show ?thesis using A add_if_position [OF q' m(2) refl False t(1) tm t(3)] P by simp
    qed
  qed
  then show ?thesis using d(4) by auto
qed

end
