(* ===== verification/Motion_Steps.thy ===== *)
theory Motion_Steps
  imports Move_Queue
begin

text \<open>
  The host plans and generates steps in turns: it appends moves, generates the steps up to some time,
  drops finished moves and sets the position.  In every state the stepper is next to the planned position.
\<close>

subsection \<open>The step relation\<close>

text \<open>
  The state is the queue, a stepper and the position at which the host plans the next move.  The guards
  are what the host promises: moves start where and not before the last one ends, at a time for which no
  steps are generated yet; their speed and acceleration stay below a bound; only moves for which all
  steps are generated are dropped.
\<close>

type_synonym motion = "trapq \<times> stepper_kinematics \<times> coord"

inductive motion_step :: "real \<Rightarrow> motion \<Rightarrow> motion \<Rightarrow> bool" for E where
  append_moves: "q' = trapq_append q t accel_t cruise_t decel_t c r v0 cruise_v accel \<Longrightarrow> last_flush_time sk < t \<Longrightarrow>
     real_moves q = [] \<or> move_end (last (real_moves q)) \<le> t \<Longrightarrow> 0 \<le> accel_t \<Longrightarrow> 0 \<le> cruise_t \<Longrightarrow> 0 \<le> decel_t \<Longrightarrow>
     0 < accel_t + cruise_t + decel_t \<Longrightarrow> \<forall>m\<in>set (real_moves q'). tolerance (top_speed m) \<le> E \<Longrightarrow>
     motion_step E (q, sk, c) (q', sk, end_coord q')"
| generate_steps: "itersolve_generate_steps sk (Some q) flush = Some (True, sk', Some q') \<Longrightarrow> last_flush_time sk \<le> flush \<Longrightarrow>
     flush < NEVER_TIME \<Longrightarrow> motion_step E (q, sk, c) (q', sk', c)"
| finalize_moves: "t \<le> last_flush_time sk \<Longrightarrow> motion_step E (q, sk, c) (trapq_finalize_moves q t, sk, c)"
| set_position: "itersolve_set_position c' sk = Some sk' \<Longrightarrow> \<forall>m\<in>set (real_moves q). move_end m \<le> NEVER_TIME \<Longrightarrow>
     motion_step E (q, sk, c) (trapq_set_position q t c', sk', c')"

inductive_cases motion_stepE: "motion_step E x y"

text \<open>The parameters of the stepper.\<close>

definition stepper_ok :: "(coord \<Rightarrow> real) \<Rightarrow> real \<Rightarrow> stepper_kinematics \<Rightarrow> bool" where
  "stepper_ok g E sk \<longleftrightarrow> stepper_of (sk_kin sk) = Some g \<and> 0 < step_dist sk \<and> E \<le> step_dist sk \<and>
     gen_steps_pre_active sk = 0 \<and> gen_steps_post_active sk = 0 \<and> 0 \<le> last_flush_time sk \<and> last_flush_time sk < NEVER_TIME"

definition on_plan :: "(coord \<Rightarrow> real) \<Rightarrow> real \<Rightarrow> motion \<Rightarrow> bool" where
  "on_plan g E = (\<lambda>(q, sk, c). if real_moves q = [] then near_plan g E sk c
     else end_coord q = c \<and> (\<exists>p. planned_position q (last_flush_time sk) = Some p \<and> near_plan g E sk p))"

definition motion_ok :: "(coord \<Rightarrow> real) \<Rightarrow> real \<Rightarrow> motion \<Rightarrow> bool" where
  "motion_ok g E = (\<lambda>(q, sk, c). planned_queue q \<and> stepper_ok g E sk \<and> (\<forall>m\<in>set (real_moves q). tolerance (top_speed m) \<le> E) \<and>
     on_plan g E (q, sk, c))"

subsection \<open>Every step keeps the stepper on the plan\<close>

lemma append_step_ok:
  assumes ok: "motion_ok g E (q, sk, c)" and q': "q' = trapq_append q t accel_t cruise_t decel_t c r v0 cruise_v accel"
    and t: "last_flush_time sk < t" "real_moves q = [] \<or> move_end (last (real_moves q)) \<le> t"
    and d: "0 \<le> accel_t" "0 \<le> cruise_t" "0 \<le> decel_t" "0 < accel_t + cruise_t + decel_t"
    and E: "\<forall>m\<in>set (real_moves q'). tolerance (top_speed m) \<le> E"
  shows "motion_ok g E (q', sk, end_coord q')"
proof -
  have q: "planned_queue q" and sk: "stepper_ok g E sk" and on: "on_plan g E (q, sk, c)" using ok by (auto simp: motion_ok_def)
  have lf: "0 \<le> last_flush_time sk" "last_flush_time sk < NEVER_TIME" using sk by (auto simp: stepper_ok_def)
  have con: "connects q t c"
    using on t lf by (auto simp: connects_def on_plan_def end_coord_def real_moves_def Let_def split: if_splits)
  note A = append_planned [OF q con d]
  have ne: "real_moves q' \<noteq> []" using A(2) by (auto simp: q' ends_at_def)
  have "\<exists>p. planned_position q' (last_flush_time sk) = Some p \<and> near_plan g E sk p"
  proof (cases "real_moves q = []")
    case True
    then show ?thesis using append_start [OF q True d lf(1) t(1) lf(2)] on by (auto simp: q' on_plan_def)
  next
    case False
    then show ?thesis using append_position [OF q con False d(1-3) lf(1) t(1) lf(2)] on by (auto simp: q' on_plan_def)
  qed
  then show ?thesis using A(1) sk E ne by (simp add: motion_ok_def on_plan_def q')
qed

text \<open>Nothing happens before the first move.\<close>

lemma generate_empty:
  assumes q: "planned_queue q" and e: "real_moves q = []" and sk: "stepper_ok g E sk"
    and t: "last_flush_time sk \<le> flush" "flush < NEVER_TIME"
  shows "itersolve_generate_steps sk (Some q) flush = Some (True, sk\<lparr>last_flush_time := flush\<rparr>, Some (trapq_check_sentinels q))"
proof -
  let ?sk = "sk\<lparr>last_flush_time := flush\<rparr>"
  obtain hs s where L: "tq_moves (trapq_check_sentinels q) = [hs, s]" "print_time hs = 0" "move_t hs = 0"
    "move_t s = NEVER_TIME" "print_time s = NEVER_TIME" "axes_r s = zero_coord"
    using check_sentinels_moves [OF q] e by (auto simp: real_moves_def tail_ok_def)
  note S = sk [unfolded stepper_ok_def]
  have f: "first_move [hs, s] 0 (last_flush_time sk) = Some 1"
    using L S t by (simp add: first_move.simps [of _ 0] first_move.simps [of _ "Suc 0"])
  have still: "\<not> check_active ?sk s" by (simp add: check_active_def L(6) zero_coord_def)
  have "itersolve_gen_steps_range [hs, s] (Suc 0) (last_flush_time sk) till ?sk = Some (True, ?sk)" if "till \<le> flush" for till
    using that t L(4,5) stepper_of_post_cb S by (intro range_empty) (auto simp: range_start_def range_end_def min_def)
  then have "generate_loop [hs, s] 1 (last_flush_time sk) flush force 0 ?sk = Some (True, ?sk)" for force
    using still S t L(4,5) by (subst generate_loop.simps) (simp add: Let_def)
  then show ?thesis by (simp add: itersolve_generate_steps_def Let_def L(1) f)
qed

lemma check_sentinels_idem:
  assumes "planned_queue q"
  shows "trapq_check_sentinels (trapq_check_sentinels q) = trapq_check_sentinels q"
    and "real_moves (trapq_check_sentinels q) = real_moves q"
  using check_sentinels_moves [OF assms]
  by (auto simp: trapq_check_sentinels_def [of "trapq_check_sentinels q"] Let_def real_moves_def butlast_append)

lemma tolerance_still: "tolerance 1 = 1 / 100000000"
  by (simp add: tolerance_def)

lemma generate_step_ok:
  assumes ok: "motion_ok g E (q, sk, c)" and E: "1 / 100000000 \<le> E"
    and run: "itersolve_generate_steps sk (Some q) flush = Some (True, sk', Some q')"
    and t: "last_flush_time sk \<le> flush" "flush < NEVER_TIME"
  shows "motion_ok g E (q', sk', c)" and "last_flush_time sk' = flush"
proof -
  have q: "planned_queue q" and sk: "stepper_ok g E sk" and on: "on_plan g E (q, sk, c)"
    and tol: "\<forall>m\<in>set (real_moves q). tolerance (top_speed m) \<le> E"
    using ok by (auto simp: motion_ok_def)
  note S = sk [unfolded stepper_ok_def]
  have "motion_ok g E (q', sk', c) \<and> last_flush_time sk' = flush"
  proof (cases "real_moves q = []")
    case True
    then have e: "sk' = sk\<lparr>last_flush_time := flush\<rparr>" "q' = trapq_check_sentinels q"
      using generate_empty [OF q True sk t] run by simp_all
    have "near_plan g E sk' c" using on True by (simp add: on_plan_def near_plan_def e)
    moreover have "stepper_ok g E sk'" using S t by (simp add: stepper_ok_def e)
    ultimately show ?thesis
      using planned_queue_check_sentinels [OF q] check_sentinels_idem(2) [OF q] True e by (simp add: motion_ok_def on_plan_def)
  next
    case False
    obtain hs ms s where L: "tq_moves (trapq_check_sentinels q) = hs # ms @ [s]" "real_moves q = ms" "print_time hs = 0" "move_t hs = 0"
      "end_to_end (ms @ [s])" "move_t s = NEVER_TIME" "0 < print_time s" "axes_r hs = zero_coord" "tail_ok ms s"
      using check_sentinels_moves [OF q] by (auto simp: real_moves_def)
    have still: "top_speed m = 1" if "axes_r m = zero_coord" for m
      using that by (simp add: top_speed_def size1_def zero_coord_def)
    have tols: "\<forall>m\<in>set (hs # ms @ [s]). tolerance (top_speed m) \<le> E"
      using tol L(2,8,9) still E by (auto simp: tail_ok_def tolerance_still)
    obtain p where p: "planned_position q (last_flush_time sk) = Some p" "near_plan g E sk p" and c: "end_coord q = c"
      using on False by (auto simp: on_plan_def)
    have b: "bounded_stepper (sk_kin sk) g" using S by unfold_locales simp
    have S': "0 < step_dist sk" "E \<le> step_dist sk" "gen_steps_pre_active sk = 0" "gen_steps_post_active sk = 0"
      "0 \<le> last_flush_time sk" using S by auto
    note G = bounded_stepper.generate_steps_tracks [OF b refl S'(1-4) refl _ _ _ _ t(1) _ p(1) [unfolded planned_position_def] p(2) run]
    have "contiguous_from 1 (hs # ms @ [s])" by (rule end_to_end_contiguous [OF L(5)])
    note G' = G [unfolded L(1), OF this tols]
    have g: "(\<exists>c'. position_at (hs # ms @ [s]) flush = Some c' \<and> near_plan g E sk' c') \<and>
        Some q' = Some (trapq_check_sentinels q) \<and> same_stepper (sk\<lparr>last_flush_time := flush\<rparr>) sk'"
      using G' L(3,4,6,7) t S'(5) by simp
    then have same: "same_stepper (sk\<lparr>last_flush_time := flush\<rparr>) sk'" and q': "q' = trapq_check_sentinels q" by auto
    have sk': "stepper_ok g E sk'" "last_flush_time sk' = flush" using same S t by (auto simp: same_stepper_def stepper_ok_def)
    have idem: "trapq_check_sentinels q' = q'" "real_moves q' = real_moves q" using check_sentinels_idem [OF q] by (simp_all add: q')
    have "planned_queue q'" unfolding q' by (rule planned_queue_check_sentinels [OF q])
    moreover have "end_coord q' = c" using c idem(2) by (simp add: end_coord_def)
    moreover have "planned_position q' flush = position_at (hs # ms @ [s]) flush"
      using idem(1) by (simp add: planned_position_def) (simp add: q' L(1))
    ultimately show ?thesis using sk' g tol False check_sentinels_idem(2) [OF q] by (simp add: motion_ok_def on_plan_def)
  qed
  then show "motion_ok g E (q', sk', c)" "last_flush_time sk' = flush" by blast+
qed

lemma finalize_step_ok:
  assumes ok: "motion_ok g E (q, sk, c)" and t: "t \<le> last_flush_time sk"
  shows "motion_ok g E (trapq_finalize_moves q t, sk, c)"
proof -
  have q: "planned_queue q" and sk: "stepper_ok g E sk" and on: "on_plan g E (q, sk, c)"
    and tol: "\<forall>m\<in>set (real_moves q). tolerance (top_speed m) \<le> E"
    using ok by (auto simp: motion_ok_def)
  have lf: "0 \<le> last_flush_time sk" "last_flush_time sk < NEVER_TIME" using sk by (auto simp: stepper_ok_def)
  note F = finalize_planned [OF q, of t]
  have "on_plan g E (trapq_finalize_moves q t, sk, c)"
  proof (cases "real_moves (trapq_finalize_moves q t) = []")
    case True
    then show ?thesis
    proof (cases "real_moves q = []")
      case ne: False
      then show ?thesis using finalize_all [OF q ne True lf(1) t lf(2)] on True by (auto simp: on_plan_def)
    qed (use on True in \<open>simp add: on_plan_def\<close>)
  next
    case False
    then have "real_moves q \<noteq> []" using F(2) by auto
    then show ?thesis using finalize_position [OF q False lf(1) t lf(2)] on False by (auto simp: on_plan_def)
  qed
  moreover have "\<forall>m\<in>set (real_moves (trapq_finalize_moves q t)). tolerance (top_speed m) \<le> E"
    using tol by (auto simp: F(2) dest: set_dropWhileD)
  ultimately show ?thesis using F(1) sk by (simp add: motion_ok_def)
qed

lemma set_position_step_ok:
  assumes ok: "motion_ok g E (q, sk, c)" and E: "1 / 100000000 \<le> E" and run: "itersolve_set_position c' sk = Some sk'"
    and all: "\<forall>m\<in>set (real_moves q). move_end m \<le> NEVER_TIME"
  shows "motion_ok g E (trapq_set_position q t c', sk', c')"
proof -
  have q: "planned_queue q" and sk: "stepper_ok g E sk" using ok by (auto simp: motion_ok_def)
  note F = finalize_planned [OF q, of NEVER_TIME]
  have moves: "tq_moves (trapq_set_position q t c') = tq_moves (trapq_finalize_moves q NEVER_TIME)"
    by (simp add: trapq_set_position_def Let_def)
  then have e: "real_moves (trapq_set_position q t c') = []" using F(2) all by (simp add: real_moves_def dropWhile_eq_Nil_conv)
  have p: "planned_queue (trapq_set_position q t c')" using F(1) by (simp add: planned_queue_def moves)
  have "itersolve_calc_position_from_coord sk c' = Some (g c')"
    using sk stepper_of_position [of "sk_kin sk" g]
    by (simp add: itersolve_calc_position_from_coord_def stepper_ok_def move_get_coord_along move_get_distance_def zero_move_def)
  then have sk': "sk' = sk\<lparr>commanded_pos := g c'\<rparr>" using run by (simp add: itersolve_set_position_def)
  have "near_plan g E sk' c'" using sk E by (simp add: near_plan_def sk' stepper_ok_def)
  then show ?thesis using p e sk by (simp add: motion_ok_def on_plan_def stepper_ok_def sk')
qed

lemma motion_step_ok:
  assumes "motion_step E x y" and E: "1 / 100000000 \<le> E" and ok: "motion_ok g E x"
  shows "motion_ok g E y"
  using assms(1)
proof cases
  case (append_moves q' q t accel_t cruise_t decel_t c r v0 cruise_v accel sk)
  then show ?thesis using append_step_ok [of g E q sk c q'] ok by blast
next
  case (generate_steps sk q flush sk' q' c)
  then show ?thesis using generate_step_ok(1) [of g E q sk c] ok E by blast
next
  case (finalize_moves t sk q c)
  then show ?thesis using finalize_step_ok ok by blast
next
  case (set_position c' sk sk' q c t)
  then show ?thesis using set_position_step_ok [of g E q sk c] ok E by blast
qed

end
