(* ===== verification/Host_Motion.thy ===== *)
theory Host_Motion
  imports Motion_Steps
begin

text \<open>
  The properties of the planning side of the host: the queue of moves, the search for step times and the
  two together, with a stepper that moves by one step as an example.
\<close>

subsection \<open>An example\<close>

definition sample_dir :: coord where
  "sample_dir = \<lparr>cx = 1, cy = 0, cz = 0\<rparr>"

definition sample_queue :: trapq where
  "sample_queue = trapq_append trapq_alloc 1 0 1 0 zero_coord sample_dir 0 1 0"

definition sample_move :: move where
  "sample_move = \<lparr>print_time = 1, move_t = 1, start_v = 1, half_accel = 0, start_pos = zero_coord, axes_r = sample_dir\<rparr>"

definition sample_stepper :: stepper_kinematics where
  "sample_stepper = \<lparr>step_dist = 1 / 5000, commanded_pos = 0, sk_sc = (stepcompress_alloc 4)\<lparr>mcu_freq := 1000000, next_step_dir := 1\<rparr>,
     last_flush_time = 1 / 2, last_move_time = 0, gen_steps_pre_active = 0, gen_steps_post_active = 0, sk_kin = cart_stepper_x\<rparr>"

definition sample_after :: "stepper_kinematics \<Rightarrow> stepper_kinematics" where
  "sample_after sk = sk\<lparr>sk_sc := (sk_sc sk)\<lparr>next_step_clock := last_step_clock (sk_sc sk) +
      word_of_int (c_trunc ((1 / 10000 + (1 - last_step_print_time (sk_sc sk))) * mcu_freq (sk_sc sk))), next_step_dir := 1\<rparr>,
     commanded_pos := 1 / 5000\<rparr>"

lemma sample_range:
  assumes m: "ms ! i = sample_move"
    and sk: "sk_kin sk = cart_stepper_x" "step_dist sk = 1 / 5000" "commanded_pos sk = 0" "next_step_clock (sk_sc sk) = 0"
      "next_step_dir (sk_sc sk) = 1"
    and t: "t \<le> 1"
  shows "itersolve_gen_steps_range ms i t (10001 / 10000) sk = Some (True, sample_after sk)"
proof -
  have pos: "cx (move_get_coord (ms ! i) u) = u" for u
    by (simp add: m sample_move_def sample_dir_def zero_coord_def move_get_coord_def move_get_distance_def)
  have r: "range_start sample_move t = 0" "range_end sample_move (10001 / 10000) = 1 / 10000"
    using t by (simp_all add: range_start_def range_end_def sample_move_def)
  define s0 where "s0 = seek_start 0 (1 / 10000) (1 / 10000) 1 0"
  define s1 where "s1 = s0\<lparr>guess_t := 1 / 10000, guess_p := 1 / 10000\<rparr>"
  have n0: "next_guess (1 / 10000) s0 = Some (s0\<lparr>guess_t := 1 / 10000\<rparr>)"
    by (simp add: s0_def seek_start_def next_guess_def secant_def SEEK_TIME_RESET_def)
  have j: "judge (1 / 10000) s1 = Found s1" by (simp add: s1_def s0_def seek_start_def judge_def)
  have n1: "next_guess (1 / 10000) (after_step (1 / 10000) (1 / 10000) s1) = None"
    by (simp add: s1_def s0_def seek_start_def after_step_def next_guess_def secant_def SEEK_TIME_RESET_def Let_def)
  have a: "stepcompress_append (seek_dir s1) 1 (1 / 10000) (sk_sc sk) = Some (True, sk_sc (sample_after sk))"
    using sk by (simp add: stepcompress_append_def sample_after_def s1_def s0_def seek_start_def Let_def)
  have l1: "seek_loop P sub com (1 / 10000) (1 / 10000) (after_step (1 / 10000) (1 / 10000) s1) sc =
      Some (True, after_step (1 / 10000) (1 / 10000) s1, sc)" for P sub com and sc :: stepcompress
    by (subst seek_loop.simps) (simp add: n1)
  have "seek_loop (calc_position_cb cart_stepper_x 0 ms i) (\<lambda>dir t. stepcompress_append dir 1 t) stepcompress_commit
      (1 / 10000) (1 / 10000) s0 (sk_sc sk) =
    Some (True, after_step (1 / 10000) (1 / 10000) s1, sk_sc (sample_after sk))"
    using j a by (subst seek_loop.simps) (simp add: n0 pos l1 [unfolded s1_def] s1_def cart_stepper_x_calc_position_def)
  moreover have cmd: "commanded (1 / 10000) (after_step (1 / 10000) (1 / 10000) s1) = 1 / 5000"
    by (simp add: commanded_def after_step_def s1_def s0_def seek_start_def Let_def)
  moreover have "sk\<lparr>sk_sc := sk_sc (sample_after sk), commanded_pos := 1 / 5000\<rparr> = sample_after sk"
    by (simp add: sample_after_def)
  moreover have "print_time sample_move = 1" by (simp add: sample_move_def)
  ultimately show ?thesis
    unfolding gen_steps_range_eq Let_def m r by (simp add: sk cmd s0_def stepcompress_get_step_dir_def post_cb_def)
qed

lemma sample_queue_moves:
  "tq_moves sample_queue = [zero_move, zero_move\<lparr>move_t := 1\<rparr>, sample_move, zero_move\<lparr>move_t := NEVER_TIME\<rparr>]"
proof -
  have "zero_move\<lparr>start_pos := zero_coord, print_time := 0, move_t := 1\<rparr> = zero_move\<lparr>move_t := 1\<rparr>"
    "zero_move\<lparr>move_t := NEVER_TIME, print_time := 0\<rparr> = zero_move\<lparr>move_t := NEVER_TIME\<rparr>"
    by (simp_all add: zero_move_def)
  then show ?thesis
    by (simp add: sample_queue_def trapq_append_def trapq_add_move_def trapq_alloc_def Let_def sample_move_def MAX_NULL_MOVE_def)
       (simp add: zero_move_def)
qed

lemma sample_check:
  "tq_moves (trapq_check_sentinels sample_queue) =
     [zero_move, zero_move\<lparr>move_t := 1\<rparr>, sample_move, zero_move\<lparr>move_t := NEVER_TIME, print_time := 2, start_pos := sample_dir\<rparr>]"
  by (simp add: trapq_check_sentinels_def sample_queue_moves Let_def)
     (simp add: zero_move_def sample_move_def move_get_coord_def move_get_distance_def zero_coord_def sample_dir_def)

lemma sample_generate:
  "itersolve_generate_steps sample_stepper (Some sample_queue) (10001 / 10000) =
     Some (True, (sample_after (sample_stepper\<lparr>last_flush_time := 10001 / 10000\<rparr>))\<lparr>last_move_time := 10001 / 10000\<rparr>,
       Some (trapq_check_sentinels sample_queue))"
proof -
  let ?ms = "tq_moves (trapq_check_sentinels sample_queue)" and ?sk = "sample_stepper\<lparr>last_flush_time := 10001 / 10000\<rparr>"
  have m: "?ms ! Suc 0 = zero_move\<lparr>move_t := 1\<rparr>" "?ms ! Suc (Suc 0) = sample_move" "?ms ! 0 = zero_move" "length ?ms = 4"
    by (simp_all add: sample_check)
  have f: "first_move ?ms 0 (1 / 2) = Some 1"
    using m by (simp add: first_move.simps [of _ 0] first_move.simps [of _ "Suc 0"]) (simp add: zero_move_def)
  have c: "\<not> check_active ?sk (zero_move\<lparr>move_t := 1\<rparr>)" "check_active ?sk sample_move"
    by (simp_all add: check_active_def sample_stepper_def sample_move_def sample_dir_def zero_move_def zero_coord_def AF_X_def)
  have sk: "last_move_time ?sk = 0" "gen_steps_post_active ?sk = 0" "gen_steps_pre_active ?sk = 0" "last_flush_time sample_stepper = 1 / 2"
    by (simp_all add: sample_stepper_def)
  have r: "itersolve_gen_steps_range ?ms (Suc (Suc 0)) (1 / 2) (10001 / 10000) ?sk = Some (True, sample_after ?sk)"
    by (rule sample_range) (simp_all add: m sample_stepper_def stepcompress_alloc_def)
  have z: "print_time (zero_move\<lparr>move_t := 1\<rparr>) = 0" "print_time sample_move = 1" "move_t sample_move = 1"
    by (simp_all add: zero_move_def sample_move_def)
  have l2: "generate_loop ?ms (Suc (Suc 0)) (1 / 2) (10001 / 10000) 0 1 ?sk =
      Some (True, (sample_after ?sk)\<lparr>last_move_time := 10001 / 10000\<rparr>)"
    using sk by (subst generate_loop.simps) (simp add: m c Let_def z r)
  have l1: "generate_loop ?ms 1 (1 / 2) (10001 / 10000) 0 0 ?sk =
      Some (True, (sample_after ?sk)\<lparr>last_move_time := 10001 / 10000\<rparr>)"
    using sk l2 by (subst generate_loop.simps) (simp add: m c Let_def z)
  show ?thesis
    using f l1 [unfolded One_nat_def] by (simp add: itersolve_generate_steps_def Let_def sample_stepper_def)
qed

lemma planned_queue_sample: "planned_queue sample_queue" "real_moves sample_queue = [zero_move\<lparr>move_t := 1\<rparr>, sample_move]"
proof -
  show "planned_queue sample_queue" unfolding sample_queue_def
    by (rule append_planned [OF planned_queue_alloc]) (simp_all add: connects_def trapq_alloc_def)
  show "real_moves sample_queue = [zero_move\<lparr>move_t := 1\<rparr>, sample_move]" by (simp add: real_moves_def sample_queue_moves)
qed

lemma sample_speed: "tolerance (top_speed sample_move) = 1 / 100000000" "tolerance (top_speed (zero_move\<lparr>move_t := u\<rparr>)) = 1 / 100000000"
  by (simp_all add: tolerance_def top_speed_def size1_def sample_move_def sample_dir_def zero_move_def zero_coord_def)

lemma sample_motion_run:
  "rtranclp (motion_step (1 / 100000000)) (trapq_alloc, sample_stepper, zero_coord)
     (trapq_check_sentinels sample_queue,
      (sample_after (sample_stepper\<lparr>last_flush_time := 10001 / 10000\<rparr>))\<lparr>last_move_time := 10001 / 10000\<rparr>, end_coord sample_queue)"
proof -
  have "motion_step (1 / 100000000) (trapq_alloc, sample_stepper, zero_coord) (sample_queue, sample_stepper, end_coord sample_queue)"
  proof (rule motion_step.append_moves [OF sample_queue_def])
    show "\<forall>m\<in>set (real_moves sample_queue). tolerance (top_speed m) \<le> 1 / 100000000"
      by (simp add: planned_queue_sample(2) sample_speed)
  qed (simp_all add: sample_stepper_def real_moves_def trapq_alloc_def)
  moreover have "motion_step (1 / 100000000) (sample_queue, sample_stepper, end_coord sample_queue)
      (trapq_check_sentinels sample_queue,
       (sample_after (sample_stepper\<lparr>last_flush_time := 10001 / 10000\<rparr>))\<lparr>last_move_time := 10001 / 10000\<rparr>, end_coord sample_queue)"
    by (rule motion_step.generate_steps [OF sample_generate]) (simp_all add: sample_stepper_def NEVER_TIME_def)
  ultimately show ?thesis by (meson converse_rtranclp_into_rtranclp r_into_rtranclp)
qed

subsection \<open>Properties\<close>

text \<open>
  C3: A stepper follows the planned motion.  This is about the steppers of \<open>stepper_of\<close>: those of cartesian,
  reversed cartesian, corexy and corexz machines, the radius of a polar one and the winches, each driven directly, with no
  time before or after the moves in which it is active (delta, rotary delta, deltesian, polar angle and extruder steppers and
  input shapers are outside).  Start with an empty queue and the stepper at the position that the host plans from, and
  append moves, generate steps with success, drop finished moves and set the position, in any order in which moves are
  appended after the time already generated and not before the last move ends.  If \<open>E\<close> is at least a hundred
  millionth, at least the \<open>tolerance\<close> of the top speed of every move, and at most a step, then at the time up to
  which steps are generated the commanded position is within half a step plus \<open>E\<close> of the position that the
  queue of moves gives.
\<close>

theorem stepper_follows_plan:
  assumes "rtranclp (motion_step E) (trapq_alloc, sk0, c0) (q, sk, c)" and "1 / 100000000 \<le> E"
    and "stepper_ok g E sk0" and "commanded_pos sk0 = g c0" and "real_moves q \<noteq> []"
  shows "\<exists>p. planned_position q (last_flush_time sk) = Some p \<and> \<bar>g p - commanded_pos sk\<bar> \<le> step_dist sk / 2 + E"
proof -
  have start: "motion_ok g E (trapq_alloc, sk0, c0)"
    using assms(2-4) planned_queue_alloc
    by (simp add: motion_ok_def on_plan_def near_plan_def stepper_ok_def real_moves_def trapq_alloc_def)
  have "motion_ok g E (q, sk, c)"
    using assms(1)
  proof (induction rule: rtranclp_induct)
    case base
    show ?case by (rule start)
  next
    case (step y z)
    show ?case by (rule motion_step_ok [OF step.hyps(2) assms(2) step.IH])
  qed
  then show ?thesis using assms(5) by (auto simp: motion_ok_def on_plan_def near_plan_def)
qed

theorem stepper_follows_plan_witness:
  "\<exists>p. planned_position (trapq_check_sentinels sample_queue) (10001 / 10000) = Some p \<and> \<bar>cx p - 1 / 5000\<bar> \<le> 10001 / 100000000"
  using stepper_follows_plan [OF sample_motion_run, of cx] check_sentinels_idem(2) [OF planned_queue_sample(1)] planned_queue_sample(2)
  by (simp add: stepper_ok_def sample_stepper_def sample_after_def NEVER_TIME_def zero_coord_def)

text \<open>
  C4: The steps of a range of a move are where they should be, for the cartesian, reversed cartesian, corexy, corexz,
  polar radius and winch steppers of \<open>stepper_of\<close>.  Let \<open>E\<close> be at least the \<open>tolerance\<close> of the top speed of the
  move and at most a step.  If the commanded position is within half a step plus \<open>E\<close> of the position at the start
  of the range and the run succeeds, then its calls submit steps at times that do not decrease and lie within the range,
  the position at each of these times is within \<open>2 * E\<close> of half way between the two steps, the commanded position
  at the end is that of the start moved by the steps submitted, and it is within half a step plus \<open>E\<close> of the
  position at the end of the range.
\<close>

theorem gen_steps_range_steps:
  assumes "stepper_of (sk_kin sk) = Some g" and "0 < step_dist sk"
    and "tolerance (top_speed (ms ! i)) \<le> E" and "E \<le> step_dist sk"
    and "range_start (ms ! i) abs_start \<le> range_end (ms ! i) abs_end"
    and "\<bar>g (move_get_coord (ms ! i) (range_start (ms ! i) abs_start)) - commanded_pos sk\<bar> \<le> 0.5 * step_dist sk + E"
    and "itersolve_gen_steps_range ms i abs_start abs_end sk = Some (True, sk')"
  shows "\<bar>g (move_get_coord (ms ! i) (range_end (ms ! i) abs_end)) - commanded_pos sk'\<bar> \<le> 0.5 * step_dist sk + E \<and>
    (\<exists>calls. run_calls (\<lambda>dir t. stepcompress_append dir (print_time (ms ! i)) t) stepcompress_commit calls (sk_sc sk) = Some (sk_sc sk') \<and>
      steps_follow (\<lambda>t. g (move_get_coord (ms ! i) t)) (0.5 * step_dist sk) (2 * E) (range_end (ms ! i) abs_end) (commanded_pos sk)
        (range_start (ms ! i) abs_start) calls (commanded_pos sk'))"
proof -
  have "bounded_stepper (sk_kin sk) g" using assms(1) by unfold_locales
  from bounded_stepper.range_tracks(1,2) [OF this refl assms(2) refl assms(3-7)] show ?thesis by blast
qed

theorem gen_steps_range_steps_witness:
  "\<exists>calls. run_calls (\<lambda>dir t. stepcompress_append dir 1 t) stepcompress_commit calls (sk_sc sample_stepper) =
      Some (sk_sc (sample_after sample_stepper)) \<and>
    steps_follow (\<lambda>t. cx (move_get_coord sample_move t)) (1 / 10000) (2 / 100000000) (1 / 10000) 0 0 calls (1 / 5000)"
proof -
  have r: "itersolve_gen_steps_range [sample_move] 0 1 (10001 / 10000) sample_stepper = Some (True, sample_after sample_stepper)"
    by (rule sample_range) (simp_all add: sample_stepper_def stepcompress_alloc_def)
  have e: "range_start sample_move 1 = 0" "range_end sample_move (10001 / 10000) = 1 / 10000" "print_time sample_move = 1"
    "start_pos sample_move = zero_coord" "commanded_pos (sample_after sample_stepper) = 1 / 5000"
    "sk_kin sample_stepper = cart_stepper_x" "step_dist sample_stepper = 1 / 5000" "commanded_pos sample_stepper = 0"
    by (simp_all add: range_start_def range_end_def sample_move_def sample_after_def sample_stepper_def)
  show ?thesis
    using gen_steps_range_steps [of sample_stepper cx "[sample_move]" 0 "1 / 100000000", OF _ _ _ _ _ _ r]
    by (auto simp: e sample_speed zero_coord_def)
qed

text \<open>
  C8: The search for step times ends.  For the cartesian, reversed cartesian, corexy, corexz, polar radius and winch
  steppers of \<open>stepper_of\<close>, with the commanded position next to the position at the start of the range, the loop returns, whatever accepts the steps, as long as it accepts only
  finitely many: no round of guesses goes on for ever without a step.
\<close>

theorem step_search_returns:
  fixes left :: "'s \<Rightarrow> nat"
  assumes "stepper_of kin = Some g" and "0 < h" and "tolerance (top_speed (ms ! i)) \<le> E" and "E \<le> 2 * h"
    and "range_start (ms ! i) abs_start \<le> range_end (ms ! i) abs_end"
    and "\<bar>g (move_get_coord (ms ! i) (range_start (ms ! i) abs_start)) - c\<bar> \<le> h + E"
    and "\<And>dir t sc. \<exists>r. submit dir t sc = Some r \<and> (fst r \<longrightarrow> left (snd r) < left sc)"
    and "\<And>sc. \<exists>r. commit sc = Some r \<and> left (snd r) \<le> left sc"
  shows "\<exists>y. seek_loop (calc_position_cb kin p ms i) submit commit h (range_end (ms ! i) abs_end)
    (seek_start (range_start (ms ! i) abs_start) (range_end (ms ! i) abs_end) h dir c) sc = Some y"
proof -
  have "bounded_stepper kin g" using assms(1) by unfold_locales
  from bounded_stepper.range_returns [where Q = "\<lambda>_. True" and left = left, OF this refl assms(2-6)] assms(7,8)
  show ?thesis by blast
qed

theorem step_search_returns_witness:
  "\<exists>y. seek_loop (calc_position_cb corexy_stepper_plus 0 [sample_move] 0) (\<lambda>dir t n. Some (0 < n, n - 1)) (\<lambda>n. Some (True, n)) (1 / 1000) 1
     (seek_start 0 1 (1 / 1000) 0 0) (10000 :: nat) = Some y"
proof -
  have "range_start sample_move 1 = 0" "range_end sample_move 2 = 1" "start_pos sample_move = zero_coord"
    by (simp_all add: range_start_def range_end_def sample_move_def)
  then show ?thesis
    using step_search_returns [where left = "\<lambda>n :: nat. n" and kin = corexy_stepper_plus and g = "\<lambda>c. cx c + cy c" and h = "1 / 1000"
        and ms = "[sample_move]" and i = 0 and E = "1 / 100000000" and abs_start = 1 and abs_end = 2 and c = 0 and p = 0 and dir = 0
        and submit = "\<lambda>dir t n. Some (0 < n, n - 1)" and commit = "\<lambda>n. Some (True, n)" and sc = 10000]
    by (simp add: sample_speed zero_coord_def)
qed

text \<open>
  C9: The queue stays one continuous motion.  Appending a trapezoid that starts where and not before the
  last move ends keeps the moves end to end in time and space, filling a pause with a move of speed zero, and the queue
  then ends after the three phases, at the distance that the speeds and the acceleration give.
\<close>

theorem trapq_append_continuous:
  assumes "planned_queue q" and "connects q t c" and "0 \<le> accel_t" and "0 \<le> cruise_t" and "0 \<le> decel_t" and "0 < accel_t + cruise_t + decel_t"
  shows "planned_queue (trapq_append q t accel_t cruise_t decel_t c r v0 cruise_v accel) \<and>
    ends_at (trapq_append q t accel_t cruise_t decel_t c r v0 cruise_v accel) (t + accel_t + cruise_t + decel_t)
      (along c r ((v0 + accel * accel_t / 2) * accel_t + cruise_v * cruise_t + (cruise_v - accel * decel_t / 2) * decel_t))"
  using append_planned [OF assms] by blast

theorem trapq_append_continuous_witness:
  "ends_at (trapq_append trapq_alloc 2 1 3 1 zero_coord sample_dir 0 10 10) 7 \<lparr>cx = 40, cy = 0, cz = 0\<rparr>"
  using trapq_append_continuous [OF planned_queue_alloc, of 2 zero_coord 1 3 1 sample_dir 0 10 10]
  by (simp add: connects_def trapq_alloc_def along_def zero_coord_def sample_dir_def)

end
