(* ===== verification/Smoothing.thy ===== *)
theory Smoothing
  imports Kinematics
begin

text \<open>
  What the two filters between the planned motion and the steppers do: the input shaper, a weighted sum of the
  positions around a time, and pressure advance, an average of the position and the speed of the extruder.
\<close>

subsection \<open>Input shaper\<close>

lemma sum_list_div: "(\<Sum>x \<leftarrow> xs. x / (c :: real)) = sum_list xs / c"
  by (induction xs) (simp_all add: add_divide_distrib)

text \<open>The weights of a shaper add up to one, and their mean time is zero.\<close>

definition balanced :: "pulses \<Rightarrow> bool" where
  "balanced sp \<longleftrightarrow> (\<Sum>(t, a) \<leftarrow> sp. a) = 1 \<and> (\<Sum>(t, a) \<leftarrow> sp. a * t) = 0"

lemma shift_pulses_balanced:
  assumes "(\<Sum>(t, a) \<leftarrow> sp. a) = 1"
  shows "balanced (shift_pulses sp)"
proof -
  have w: "(\<Sum>(t, a) \<leftarrow> map (\<lambda>(t, a). (t - c, a)) sp. a) = (\<Sum>(t, a) \<leftarrow> sp. a)" for c
    by (induction sp) auto
  have m: "(\<Sum>(t, a) \<leftarrow> map (\<lambda>(t, a). (t - c, a)) sp. a * t) = (\<Sum>(t, a) \<leftarrow> sp. a * t) - c * (\<Sum>(t, a) \<leftarrow> sp. a)" for c
    by (induction sp) (auto simp: algebra_simps)
  show ?thesis using assms by (simp only: shift_pulses_def balanced_def Let_def w m) simp
qed

lemma init_shaper_balanced:
  assumes "init_shaper a t = (True, sp)" and "length t = length a" and "sum_list a \<noteq> 0"
  shows "balanced sp"
proof -
  have "sp = shift_pulses (rev (map (\<lambda>(x, y). (- y, x * (1 / sum_list a))) (zip a t)))"
    using assms(1) by (simp add: init_shaper_def Let_def split: if_splits)
  moreover have "(\<Sum>(t, x) \<leftarrow> rev (map (\<lambda>(x, y). (- y, x * (1 / sum_list a))) (zip a t)). x) = 1"
  proof -
    have "(\<Sum>(t, x) \<leftarrow> rev (map (\<lambda>(x, y). (- y, x * c)) (zip a t)). x) = sum_list (map (\<lambda>x. x * c) (map fst (zip a t)))" for c
      by (simp add: rev_map [symmetric] sum_list_rev comp_def case_prod_beta)
    from this [of "1 / sum_list a"] show ?thesis using assms(2,3) by (simp add: sum_list_div)
  qed
  ultimately show ?thesis using shift_pulses_balanced by simp
qed

lemma axis_position_inside:
  assumes "0 \<le> t" and "t \<le> move_t (ms ! i)"
  shows "get_axis_position_across_moves axis ms i t = Some (get_axis_position axis (ms ! i) t)"
  using assms by (simp add: get_axis_position_across_moves_def walk_back.simps [of ms i] walk_on.simps)

lemma shaper_affine:
  assumes "\<And>t a. (t, a) \<in> set sp \<Longrightarrow> get_axis_position_across_moves axis ms i (move_time + t) = Some (p + v * (move_time + t))"
  shows "shaper_calc_position axis ms i move_time sp =
    Some ((p + v * move_time) * (\<Sum>(t, a) \<leftarrow> sp. a) + v * (\<Sum>(t, a) \<leftarrow> sp. a * t))"
  using assms
proof (induction sp)
  case (Cons x sp)
  obtain t a where x: "x = (t, a)" by (cases x)
  have "shaper_calc_position axis ms i move_time sp =
      Some ((p + v * move_time) * (\<Sum>(t, a) \<leftarrow> sp. a) + v * (\<Sum>(t, a) \<leftarrow> sp. a * t))"
    by (rule Cons.IH) (auto intro: Cons.prems)
  moreover have "get_axis_position_across_moves axis ms i (move_time + t) = Some (p + v * (move_time + t))"
    using Cons.prems [of t a] by (simp add: x)
  ultimately show ?case by (simp add: x) (simp add: algebra_simps)
qed simp

lemma shaper_between:
  assumes "\<And>t a. (t, a) \<in> set sp \<Longrightarrow> 0 \<le> a \<and> (\<exists>p. get_axis_position_across_moves axis ms i (move_time + t) = Some p \<and> lo \<le> p \<and> p \<le> hi)"
  shows "\<exists>p. shaper_calc_position axis ms i move_time sp = Some p \<and> lo * (\<Sum>(t, a) \<leftarrow> sp. a) \<le> p \<and> p \<le> hi * (\<Sum>(t, a) \<leftarrow> sp. a)"
  using assms
proof (induction sp)
  case (Cons x sp)
  obtain t a where x: "x = (t, a)" by (cases x)
  obtain q where q: "shaper_calc_position axis ms i move_time sp = Some q" "lo * (\<Sum>(t, a) \<leftarrow> sp. a) \<le> q" "q \<le> hi * (\<Sum>(t, a) \<leftarrow> sp. a)"
    using Cons by force
  have p: "0 \<le> a \<and> (\<exists>p. get_axis_position_across_moves axis ms i (move_time + t) = Some p \<and> lo \<le> p \<and> p \<le> hi)"
    using Cons.prems [of t a] by (simp add: x)
  then obtain p where p: "0 \<le> a" "get_axis_position_across_moves axis ms i (move_time + t) = Some p" "lo \<le> p" "p \<le> hi" by blast
  have "lo * a \<le> a * p" "a * p \<le> hi * a" using p by (simp_all add: mult.commute mult_left_mono)
  then show ?case using p(2) q by (simp add: x distrib_left) 
qed simp

lemma init_shaper_weights:
  assumes "init_shaper a t = (True, sp)" and "\<forall>x\<in>set a. 0 \<le> x" and "(u, w) \<in> set sp"
  shows "0 \<le> w"
proof -
  have "0 \<le> sum_list a" using assms(2) by (intro sum_list_nonneg) auto
  then have "0 \<le> x * (1 / sum_list a)" if "x \<in> set a" for x using assms(2) that by simp
  moreover obtain x y where "(x, y) \<in> set (zip a t)" "w = x * (1 / sum_list a)"
    using assms(1,3) by (auto simp: init_shaper_def shift_pulses_def Let_def split: if_splits)
  ultimately show ?thesis by (blast dest: set_zip_leftD)
qed

subsection \<open>Properties\<close>

text \<open>
  C10: The input shaper leaves a motion at constant speed as it is: inside a move without acceleration, at
  a distance from its ends that covers the pulses, the shaped position is the planned one.
\<close>

theorem shaper_constant_speed:
  assumes "init_shaper a t = (True, sp)" and "length t = length a" and "sum_list a \<noteq> 0"
    and "half_accel (ms ! i) = 0"
    and "\<forall>(u, w)\<in>set sp. 0 \<le> move_time + u \<and> move_time + u \<le> move_t (ms ! i)"
  shows "shaper_calc_position axis ms i move_time sp = Some (get_axis_position axis (ms ! i) move_time)"
proof -
  let ?p = "axis (start_pos (ms ! i))" and ?v = "axis (axes_r (ms ! i)) * start_v (ms ! i)"
  have pos: "get_axis_position axis (ms ! i) u = ?p + ?v * u" for u
    using assms(4) by (simp add: get_axis_position_def move_get_distance_def)
  have "shaper_calc_position axis ms i move_time sp =
      Some ((?p + ?v * move_time) * (\<Sum>(t, a) \<leftarrow> sp. a) + ?v * (\<Sum>(t, a) \<leftarrow> sp. a * t))"
    using assms(5) pos by (intro shaper_affine) (force simp: axis_position_inside)
  then show ?thesis using init_shaper_balanced [OF assms(1-3)] pos by (simp add: balanced_def)
qed

definition sample_cruise :: move where
  "sample_cruise = zero_move\<lparr>move_t := 2, start_v := 10, axes_r := zero_coord\<lparr>cx := 1\<rparr>\<rparr>"

theorem shaper_constant_speed_witness:
  "shaper_calc_position cx [sample_cruise] 0 1 [(- 1 / 200, 1 / 2), (1 / 200, 1 / 2)] = Some 10"
proof -
  have i: "init_shaper [1, 1] [0, 1 / 100] = (True, [(- 1 / 200, 1 / 2), (1 / 200, 1 / 2)])"
    by (simp add: init_shaper_def shift_pulses_def Let_def)
  have "get_axis_position cx ([sample_cruise] ! 0) 1 = 10"
    by (simp add: sample_cruise_def zero_move_def zero_coord_def get_axis_position_def move_get_distance_def)
  then show ?thesis
    using shaper_constant_speed [OF i, of "[sample_cruise]" 0 1 cx] by (simp add: sample_cruise_def zero_move_def)
qed

text \<open>
  C11: The input shaper does not leave the range of the motion: with weights that are not negative the shaped
  position lies between any bounds of the positions at the times of the pulses, across moves.
\<close>

theorem shaper_stays_between:
  assumes "init_shaper a t = (True, sp)" and "length t = length a" and "\<forall>x\<in>set a. 0 \<le> x" and "sum_list a \<noteq> 0"
    and "\<forall>(u, w)\<in>set sp. \<exists>p. get_axis_position_across_moves axis ms i (move_time + u) = Some p \<and> lo \<le> p \<and> p \<le> hi"
  shows "\<exists>p. shaper_calc_position axis ms i move_time sp = Some p \<and> lo \<le> p \<and> p \<le> hi"
proof -
  have "\<exists>p. shaper_calc_position axis ms i move_time sp = Some p \<and> lo * (\<Sum>(t, a) \<leftarrow> sp. a) \<le> p \<and> p \<le> hi * (\<Sum>(t, a) \<leftarrow> sp. a)"
  proof (rule shaper_between)
    fix u w assume "(u, w) \<in> set sp"
    then show "0 \<le> w \<and> (\<exists>p. get_axis_position_across_moves axis ms i (move_time + u) = Some p \<and> lo \<le> p \<and> p \<le> hi)"
      using init_shaper_weights [OF assms(1,3)] assms(5) by blast
  qed
  then show ?thesis using init_shaper_balanced [OF assms(1,2,4)] by (simp add: balanced_def)
qed

theorem shaper_stays_between_witness:
  "\<exists>p. shaper_calc_position cx [sample_cruise, sample_cruise] 1 0 [(- 1 / 2, 1 / 2), (1 / 2, 1 / 2)] = Some p \<and> 0 \<le> p \<and> p \<le> 20"
proof -
  have i: "init_shaper [1, 1] [0, 1] = (True, [(- 1 / 2, 1 / 2), (1 / 2, 1 / 2)])"
    by (simp add: init_shaper_def shift_pulses_def Let_def)
  have p: "get_axis_position_across_moves cx [sample_cruise, sample_cruise] 1 (0 + - 1 / 2) = Some 15"
    "get_axis_position_across_moves cx [sample_cruise, sample_cruise] 1 (0 + 1 / 2) = Some 5"
    by (simp_all add: get_axis_position_across_moves_def walk_back.simps walk_on.simps sample_cruise_def
        zero_move_def zero_coord_def get_axis_position_def move_get_distance_def)
  show ?thesis
    by (rule shaper_stays_between [OF i]) (use p in auto)
qed

text \<open>
  C12: Pressure advance inside a move: at a distance of half the smooth time from its ends, the extruder is at the
  planned position plus the pressure advance times the speed at that time, and the average over the smooth time adds
  only a constant that is proportional to the acceleration.
\<close>

theorem extruder_position_inside:
  assumes "0 < half_smooth_time es" and "inv_half_smooth_time2 es = 1 / (half_smooth_time es * half_smooth_time es)"
    and "half_smooth_time es \<le> move_time" and "move_time + half_smooth_time es \<le> move_t (ms ! i)" and "cy (axes_r (ms ! i)) \<noteq> 0"
  shows "extruder_position es ms i move_time =
    Some (cx (start_pos (ms ! i)) + move_get_distance (ms ! i) move_time
      + pressure_advance es * (start_v (ms ! i) + 2 * half_accel (ms ! i) * move_time)
      + half_accel (ms ! i) * (half_smooth_time es * half_smooth_time es) / 6)"
proof -
  let ?m = "ms ! i"
  define d v ha p where "d = half_smooth_time es" and "v = start_v ?m" and "ha = half_accel ?m" and "p = pressure_advance es"
  have d: "0 < d" "d \<le> move_time" "move_time + d \<le> move_t ?m" using assms by (simp_all add: d_def)
  let ?area = "pa_move_integrate ?m p 0 (move_time - d) move_time (move_time - d) -
    pa_move_integrate ?m p 0 move_time (move_time + d) (move_time + d)"
  have "pa_range_integrate ms i move_time p d = Some ?area"
    using d by (simp add: pa_range_integrate_def Let_def pa_prev_loop.simps [of ms p _ i] pa_next_loop.simps)
  moreover have "?area = (d * d) * (move_get_distance ?m move_time + p * (v + 2 * ha * move_time) + ha * (d * d) / 6)"
    using d assms(5) unfolding pa_move_integrate_def Let_def extruder_integrate_def extruder_integrate_time_def move_get_distance_def
    by (simp add: v_def [symmetric] ha_def [symmetric]) (simp add: field_simps)
  ultimately have "extruder_position es ms i move_time =
      Some (cx (start_pos ?m) + (d * d) * (move_get_distance ?m move_time + p * (v + 2 * ha * move_time) + ha * (d * d) / 6) * (1 / (d * d)))"
    using d(1) assms(2) by (simp add: extruder_position_def Let_def d_def [symmetric] p_def [symmetric])
  then show ?thesis using d(1) by (simp add: d_def [symmetric] p_def v_def ha_def)
qed

theorem extruder_position_inside_witness:
  "extruder_position \<lparr>pressure_advance = 1 / 20, half_smooth_time = 1 / 50, inv_half_smooth_time2 = 2500\<rparr>
     [zero_move\<lparr>move_t := 2, start_v := 10, axes_r := \<lparr>cx = 1, cy = 1, cz = 0\<rparr>\<rparr>] 0 1 = Some (21 / 2)"
  using extruder_position_inside [of "\<lparr>pressure_advance = 1 / 20, half_smooth_time = 1 / 50, inv_half_smooth_time2 = 2500\<rparr>" 1
      "[zero_move\<lparr>move_t := 2, start_v := 10, axes_r := \<lparr>cx = 1, cy = 1, cz = 0\<rparr>\<rparr>]" 0]
  by (simp add: zero_move_def zero_coord_def move_get_distance_def)

end
