(* ===== verification/Spicmds.thy ===== *)
theory Spicmds
  imports Tmcuart
begin

text \<open>
  Devices on an SPI bus, \<^verbatim>\<open>src/spicmds.c\<close> and \<^verbatim>\<open>src/spi_software.c\<close>: a chip select pin around every transfer,
  on a bus of the board or on three pins that are driven by software.

  \<^item> The board's bus is a parameter: which buses it has, and the bytes that the device answers with in the
    \<open>n\<close>-th read of the run.
  \<^item> A \<^verbatim>\<open>struct spi_software\<close> is found by its address.
\<close>

subsection \<open>State\<close>

record spi_board =
  CONFIG_HAVE_GPIO_BITBANGING :: bool
  spi_bus_ok :: "u32 \<Rightarrow> bool"
  spi_in :: "nat \<Rightarrow> nat \<Rightarrow> u8"

record spi_config =
  sc_bus :: u32
  sc_mode :: u8
  sc_rate :: u32

record spi_software =
  ss_miso :: u32
  ss_mosi :: u32
  ss_sclk :: u32
  ss_mode :: u8

text \<open>The union of the two kinds of bus.\<close>

datatype spi_bus = no_bus | hardware_bus spi_config | software_bus nat

record spidev_s =
  sd_bus :: spi_bus
  sd_pin :: u32
  sd_flags :: u8

record spidev_shutdown_s =
  ssd_spi :: u8
  shutdown_msg :: "u8 list"

record spi_state = tmcuart_state +
  spi_env :: spi_board
  spidevs :: "u8 \<Rightarrow> spidev_s"
  spi_softwares :: "nat \<Rightarrow> spi_software"
  spidev_shutdowns :: "u8 \<Rightarrow> spidev_shutdown_s"
  spi_software_size :: nat

definition zero_spidev :: spidev_s where
  "zero_spidev = \<lparr>sd_bus = no_bus, sd_pin = 0, sd_flags = 0\<rparr>"

definition spi_init :: "config \<Rightarrow> board_in \<Rightarrow> spi_board \<Rightarrow> nat \<Rightarrow> spi_state" where
  "spi_init c e b sz = tmcuart_state.extend (tmcuart_init c e)
     (spi_state.fields b (\<lambda>_. zero_spidev) (\<lambda>_. \<lparr>ss_miso = 0, ss_mosi = 0, ss_sclk = 0, ss_mode = 0\<rparr>)
       (\<lambda>_. \<lparr>ssd_spi = 0, shutdown_msg = []\<rparr>) sz)"

type_synonym ('e, 'a) spfw = "('e spi_state_scheme, 'a) fw"

definition upd_sd :: "u8 \<Rightarrow> (spidev_s \<Rightarrow> spidev_s) \<Rightarrow> ('e, unit) spfw" where
  "upd_sd i f = modify (\<lambda>m. m\<lparr>spidevs := (spidevs m)(i := f (spidevs m i))\<rparr>)"

definition SF_HAVE_PIN :: u8 where "SF_HAVE_PIN = 1"
definition SF_SOFTWARE :: u8 where "SF_SOFTWARE = 2"
definition SF_HARDWARE :: u8 where "SF_HARDWARE = 4"
definition SF_CS_ACTIVE_HIGH :: u8 where "SF_CS_ACTIVE_HIGH = 8"

subsection \<open>The bus of the board\<close>

definition spi_setup :: "u32 \<Rightarrow> u8 \<Rightarrow> u32 \<Rightarrow> ('e, spi_config) spfw" where
  "spi_setup bus mode rate = (\<lambda>m. if spi_bus_ok (spi_env m) bus
     then bnd (emit (SpiSetup bus mode rate)) (\<lambda>_. ret \<lparr>sc_bus = bus, sc_mode = mode, sc_rate = rate\<rparr>) m
     else Shutdown ''Invalid spi_setup parameters'' m)"

definition spi_prepare :: "spi_config \<Rightarrow> ('e, unit) spfw" where
  "spi_prepare c = emit (SpiPrepare (sc_bus c) (sc_mode c) (sc_rate c))"

definition spi_transfer :: "spi_config \<Rightarrow> bool \<Rightarrow> u8 list \<Rightarrow> ('e, u8 list) spfw" where
  "spi_transfer c receive_data data = (\<lambda>m.
     Ok (if receive_data then map (spi_in (spi_env m) (ticks m)) [0..<length data] else data)
       (m\<lparr>ticks := Suc (ticks m), out := out m @ [SpiTransfer (sc_bus c) data]\<rparr>))"

subsection \<open>Software bus\<close>

definition gpio_out_toggle :: "u32 \<Rightarrow> ('e, unit) mfw" where
  "gpio_out_toggle pin = emit (GpioOutToggle pin)"

definition spi_software_prepare :: "spi_software \<Rightarrow> ('e, unit) spfw" where
  "spi_software_prepare ss = gpio_out_write (ss_sclk ss) (ss_mode ss AND 0x02 \<noteq> 0)"

text \<open>The bits of a byte.\<close>

fun spi_software_bits :: "nat \<Rightarrow> spi_software \<Rightarrow> u8 \<Rightarrow> u8 \<Rightarrow> ('e, u8) spfw" where
  "spi_software_bits 0 ss outbuf inbuf = ret inbuf"
| "spi_software_bits (Suc n) ss outbuf inbuf =
     (if ss_mode ss AND 0x01 \<noteq> 0 then
        thn (gpio_out_toggle (ss_sclk ss))
        (thn (gpio_out_write (ss_mosi ss) (outbuf AND 0x80 \<noteq> 0))
        (thn (gpio_out_toggle (ss_sclk ss))
        (bnd (gpio_in_read (ss_miso ss)) (\<lambda>b.
        spi_software_bits n ss (push_bit 1 outbuf) (push_bit 1 inbuf OR of_bool b)))))
      else
        thn (gpio_out_write (ss_mosi ss) (outbuf AND 0x80 \<noteq> 0))
        (thn (gpio_out_toggle (ss_sclk ss))
        (bnd (gpio_in_read (ss_miso ss)) (\<lambda>b.
        thn (gpio_out_toggle (ss_sclk ss))
        (spi_software_bits n ss (push_bit 1 outbuf) (push_bit 1 inbuf OR of_bool b))))))"

fun spi_software_transfer :: "spi_software \<Rightarrow> bool \<Rightarrow> u8 list \<Rightarrow> ('e, u8 list) spfw" where
  "spi_software_transfer ss receive_data [] = ret []"
| "spi_software_transfer ss receive_data (d # data) =
     bnd (spi_software_bits 8 ss d 0) (\<lambda>inbuf.
     bnd (spi_software_transfer ss receive_data data) (\<lambda>r.
     ret ((if receive_data then inbuf else d) # r)))"

subsection \<open>Configuration\<close>

definition command_config_spi :: "u32 list \<Rightarrow> ('e, unit) spfw" where
  "command_config_spi args =
     (let i = to_u8 (args ! 0); cs_active_high = (args ! 2 \<noteq> 0) in
     thn (oid_alloc i config_spi)
     (thn (upd_sd i (\<lambda>_. zero_spidev))
     (bnd (gpio_out_setup (args ! 1) (\<not> cs_active_high)) (\<lambda>pin.
     thn (upd_sd i (\<lambda>x. x\<lparr>sd_pin := pin\<rparr>))
     (upd_sd i (\<lambda>x. x\<lparr>sd_flags := sd_flags x OR (SF_HAVE_PIN OR (if cs_active_high then SF_CS_ACTIVE_HIGH else 0))\<rparr>))))))"

definition command_config_spi_without_cs :: "u32 list \<Rightarrow> ('e, unit) spfw" where
  "command_config_spi_without_cs args =
     (let i = to_u8 (args ! 0) in
     thn (oid_alloc i config_spi) (upd_sd i (\<lambda>_. zero_spidev)))"

definition spidev_oid_lookup :: "u8 \<Rightarrow> ('e, unit) spfw" where
  "spidev_oid_lookup oid = oid_lookup oid config_spi"

definition command_spi_set_bus :: "u32 list \<Rightarrow> ('e, unit) spfw" where
  "command_spi_set_bus args =
     (let i = to_u8 (args ! 0); mode = to_u8 (args ! 2) in
     thn (spidev_oid_lookup i)
     (bnd (reads (\<lambda>m. sd_flags (spidevs m i))) (\<lambda>flags.
     if mode > 3 \<or> has_flag flags (SF_SOFTWARE OR SF_HARDWARE) then sched_shutdown ''Invalid spi config''
     else
       bnd (spi_setup (args ! 1) mode (args ! 3)) (\<lambda>c.
       thn (upd_sd i (\<lambda>x. x\<lparr>sd_bus := hardware_bus c\<rparr>))
       (upd_sd i (\<lambda>x. x\<lparr>sd_flags := sd_flags x OR SF_HARDWARE\<rparr>))))))"

definition spidev_set_software_bus :: "u8 \<Rightarrow> nat \<Rightarrow> ('e, unit) spfw" where
  "spidev_set_software_bus i ss =
     bnd (reads (\<lambda>m. sd_flags (spidevs m i))) (\<lambda>flags.
     if has_flag flags (SF_SOFTWARE OR SF_HARDWARE) then sched_shutdown ''Invalid spi config''
     else
       thn (upd_sd i (\<lambda>x. x\<lparr>sd_bus := software_bus ss\<rparr>))
       (upd_sd i (\<lambda>x. x\<lparr>sd_flags := sd_flags x OR SF_SOFTWARE\<rparr>)))"

definition command_spi_set_software_bus :: "u32 list \<Rightarrow> ('e, unit) spfw" where
  "command_spi_set_software_bus args =
     (let i = to_u8 (args ! 0); mode = to_u8 (args ! 4) in
     if mode > 3 then sched_shutdown ''Invalid spi config''
     else
       thn (spidev_oid_lookup i)
       (bnd (reads spi_software_size) (\<lambda>sz.
       bnd (alloc_chunk sz) (\<lambda>ss.
       bnd (gpio_in_setup (args ! 1) 1) (\<lambda>miso.
       bnd (gpio_out_setup (args ! 2) False) (\<lambda>mosi.
       bnd (gpio_out_setup (args ! 3) False) (\<lambda>sclk.
       thn (modify (\<lambda>m. m\<lparr>spi_softwares := (spi_softwares m)
              (ss := \<lparr>ss_miso = miso, ss_mosi = mosi, ss_sclk = sclk, ss_mode = mode\<rparr>)\<rparr>))
       (spidev_set_software_bus i ss))))))))"

definition spidev_have_cs_pin :: "u8 \<Rightarrow> ('e, bool) spfw" where
  "spidev_have_cs_pin i = reads (\<lambda>m. has_flag (sd_flags (spidevs m i)) SF_HAVE_PIN)"

definition spidev_get_cs_pin :: "u8 \<Rightarrow> ('e, u32) spfw" where
  "spidev_get_cs_pin i = reads (\<lambda>m. sd_pin (spidevs m i))"

subsection \<open>Transfers\<close>

text \<open>The result is the buffer after the transfer.\<close>

definition spidev_transfer :: "u8 \<Rightarrow> bool \<Rightarrow> u8 list \<Rightarrow> ('e, u8 list) spfw" where
  "spidev_transfer i receive_data data =
     bnd (reads (\<lambda>m. spidevs m i)) (\<lambda>spi.
     bnd (reads (\<lambda>m. CONFIG_HAVE_GPIO_BITBANGING (spi_env m))) (\<lambda>bitbanging.
     let flags = sd_flags spi; software = (bitbanging \<and> has_flag flags SF_SOFTWARE) in
     if \<not> has_flag flags (SF_SOFTWARE OR SF_HARDWARE) then ret data
     else
       thn (case sd_bus spi of
              software_bus ss \<Rightarrow> if software then bnd (reads (\<lambda>m. spi_softwares m ss)) spi_software_prepare else undef
            | hardware_bus c \<Rightarrow> if software then undef else spi_prepare c
            | no_bus \<Rightarrow> undef)
       (thn (whenM (has_flag flags SF_HAVE_PIN) (gpio_out_write (sd_pin spi) (has_flag flags SF_CS_ACTIVE_HIGH)))
       (bnd (case sd_bus spi of
              software_bus ss \<Rightarrow>
                if software then bnd (reads (\<lambda>m. spi_softwares m ss)) (\<lambda>s. spi_software_transfer s receive_data data) else undef
            | hardware_bus c \<Rightarrow> if software then undef else spi_transfer c receive_data data
            | no_bus \<Rightarrow> undef) (\<lambda>r.
       thn (whenM (has_flag flags SF_HAVE_PIN) (gpio_out_write (sd_pin spi) (\<not> has_flag flags SF_CS_ACTIVE_HIGH)))
       (ret r))))))"

definition command_spi_transfer :: "u32 list \<Rightarrow> ('e, unit) spfw" where
  "command_spi_transfer args =
     (let oid = to_u8 (args ! 0); data_len = (to_u8 (args ! 1) :: u8) in
     thn (spidev_oid_lookup oid)
     (bnd (command_decode_ptr (args ! 2) (unat data_len)) (\<lambda>data.
     bnd (spidev_transfer oid True data) (\<lambda>r.
     command_sendf ''spi_transfer_response oid=%c response=%*s'' [Num (to_u32 oid), Buf r]))))"

definition command_spi_send :: "u32 list \<Rightarrow> ('e, unit) spfw" where
  "command_spi_send args =
     (let oid = to_u8 (args ! 0); data_len = (to_u8 (args ! 1) :: u8) in
     thn (spidev_oid_lookup oid)
     (bnd (command_decode_ptr (args ! 2) (unat data_len)) (\<lambda>data.
     bnd (spidev_transfer oid False data) (\<lambda>_. ret ()))))"

subsection \<open>Shutdown\<close>

definition command_config_spi_shutdown :: "u32 list \<Rightarrow> ('e, unit) spfw" where
  "command_config_spi_shutdown args =
     (let i = to_u8 (args ! 0); spi = to_u8 (args ! 1); len = (to_u8 (args ! 2) :: u8) in
     thn (spidev_oid_lookup spi)
     (bnd (reads (\<lambda>m. struct_size (cfg m) config_spi_shutdown)) (\<lambda>sz.
     thn (oid_alloc_sized i config_spi_shutdown (sz + unat len))
     (bnd (command_decode_ptr (args ! 3) (unat len)) (\<lambda>msg.
     modify (\<lambda>m. m\<lparr>spidev_shutdowns := (spidev_shutdowns m)(i := \<lparr>ssd_spi = spi, shutdown_msg = msg\<rparr>)\<rparr>))))))"

definition spidev_shutdown :: "('e, unit) spfw" where
  "spidev_shutdown =
     thn (foreach_oid config_spi (\<lambda>i.
       bnd (reads (\<lambda>m. spidevs m i)) (\<lambda>spi.
       whenM (has_flag (sd_flags spi) SF_HAVE_PIN)
         (gpio_out_write (sd_pin spi) (\<not> has_flag (sd_flags spi) SF_CS_ACTIVE_HIGH)))))
     (foreach_oid config_spi_shutdown (\<lambda>i.
       bnd (reads (\<lambda>m. spidev_shutdowns m i)) (\<lambda>sd.
       bnd (spidev_transfer (ssd_spi sd) False (shutdown_msg sd)) (\<lambda>_. ret ()))))"

end
