(* ===== verification/Thermocouple.thy ===== *)
theory Thermocouple
  imports Spicmds
begin

text \<open>
  Temperature sensors on an SPI bus, \<^verbatim>\<open>src/thermocouple.c\<close>: a timer asks a task for a reading, which is reported to
  the host and checked against a range.
\<close>

subsection \<open>State\<close>

record thermocouple_spi =
  tc_rest_time :: u32
  tc_min_value :: u32
  tc_max_value :: u32
  tc_spi :: u8
  tc_max_invalid :: u8
  tc_invalid_count :: u8
  tc_chip_type :: u8
  tc_flags :: u8

record thermocouple_state = spi_state +
  thermocouples :: "u8 \<Rightarrow> thermocouple_spi"

definition zero_thermocouple :: thermocouple_spi where
  "zero_thermocouple = \<lparr>tc_rest_time = 0, tc_min_value = 0, tc_max_value = 0, tc_spi = 0, tc_max_invalid = 0,
     tc_invalid_count = 0, tc_chip_type = 0, tc_flags = 0\<rparr>"

definition thermocouple_init :: "config \<Rightarrow> board_in \<Rightarrow> spi_board \<Rightarrow> nat \<Rightarrow> thermocouple_state" where
  "thermocouple_init c e b sz = spi_state.extend (spi_init c e b sz) (thermocouple_state.fields (\<lambda>_. zero_thermocouple))"

type_synonym ('e, 'a) tcfw = "('e thermocouple_state_scheme, 'a) fw"

definition upd_tc :: "u8 \<Rightarrow> (thermocouple_spi \<Rightarrow> thermocouple_spi) \<Rightarrow> ('e, unit) tcfw" where
  "upd_tc i f = modify (\<lambda>m. m\<lparr>thermocouples := (thermocouples m)(i := f (thermocouples m i))\<rparr>)"

definition TS_CHIP_MAX31855 :: u8 where "TS_CHIP_MAX31855 = 0"
definition TS_CHIP_MAX31856 :: u8 where "TS_CHIP_MAX31856 = 1"
definition TS_CHIP_MAX31865 :: u8 where "TS_CHIP_MAX31865 = 2"
definition TS_CHIP_MAX6675 :: u8 where "TS_CHIP_MAX6675 = 3"
definition TS_PENDING :: u8 where "TS_PENDING = 1"

subsection \<open>Timer and commands\<close>

definition thermocouple_event :: "u8 \<Rightarrow> ('e, sf) tcfw" where
  "thermocouple_event i =
     thn (sched_wake_task thermocouple_wake)
     (thn (upd_tc i (\<lambda>x. x\<lparr>tc_flags := tc_flags x OR TS_PENDING\<rparr>))
     (bnd (reads (\<lambda>m. tc_rest_time (thermocouples m i))) (\<lambda>rest.
     thn (upd_timer (ObjTimer i) (\<lambda>t. t\<lparr>waketime := waketime t + rest\<rparr>))
     (ret SF_RESCHEDULE))))"

definition command_config_thermocouple :: "u32 list \<Rightarrow> ('e, unit) tcfw" where
  "command_config_thermocouple args =
     (let i = to_u8 (args ! 0); chip = to_u8 (args ! 2) in
     if chip > TS_CHIP_MAX6675 then sched_shutdown ''Invalid thermocouple chip type''
     else
       thn (oid_alloc i config_thermocouple)
       (thn (upd_tc i (\<lambda>_. zero_thermocouple))
       (thn (upd_timer (ObjTimer i) (\<lambda>t. t\<lparr>func := Some thermocouple_event_f\<rparr>))
       (thn (spidev_oid_lookup (to_u8 (args ! 1)))
       (thn (upd_tc i (\<lambda>x. x\<lparr>tc_spi := to_u8 (args ! 1)\<rparr>))
       (upd_tc i (\<lambda>x. x\<lparr>tc_chip_type := chip\<rparr>)))))))"

definition command_query_thermocouple :: "u32 list \<Rightarrow> ('e, unit) tcfw" where
  "command_query_thermocouple args =
     (let i = to_u8 (args ! 0) in
     thn (oid_lookup i config_thermocouple)
     (thn (sched_del_timer (ObjTimer i))
     (thn (upd_timer (ObjTimer i) (\<lambda>t. t\<lparr>waketime := args ! 1\<rparr>))
     (thn (upd_tc i (\<lambda>x. x\<lparr>tc_rest_time := args ! 2\<rparr>))
     (if args ! 2 = 0 then ret ()
      else
        thn (upd_tc i (\<lambda>x. x\<lparr>tc_min_value := args ! 3, tc_max_value := args ! 4,
               tc_max_invalid := to_u8 (args ! 5), tc_invalid_count := 0\<rparr>))
        (sched_add_timer (ObjTimer i)))))))"

subsection \<open>Readings\<close>

definition thermocouple_respond :: "u8 \<Rightarrow> u32 \<Rightarrow> u32 \<Rightarrow> u8 \<Rightarrow> u8 \<Rightarrow> ('e, unit) tcfw" where
  "thermocouple_respond i next_begin_time val fault oid =
     thn (command_sendf ''thermocouple_result oid=%c next_clock=%u value=%u fault=%c''
            [Num (to_u32 oid), Num next_begin_time, Num val, Num (to_u32 fault)])
     (bnd (reads (\<lambda>m. thermocouples m i)) (\<lambda>x.
     if fault \<noteq> 0 \<or> val < tc_min_value x \<or> val > tc_max_value x then
       thn (upd_tc i (\<lambda>x. x\<lparr>tc_invalid_count := tc_invalid_count x + 1\<rparr>))
       (if tc_invalid_count x + 1 < tc_max_invalid x then ret ()
        else
          thn (sched_try_shutdown ''Thermocouple reader fault'')
          (upd_tc i (\<lambda>x. x\<lparr>tc_invalid_count := 0\<rparr>)))
     else upd_tc i (\<lambda>x. x\<lparr>tc_invalid_count := 0\<rparr>)))"

text \<open>The value of four bytes, the most significant one first.\<close>

definition be32_to_cpu :: "u8 list \<Rightarrow> u32" where
  "be32_to_cpu msg = push_bit 24 (to_u32 (msg ! 0)) OR push_bit 16 (to_u32 (msg ! 1)) OR
     push_bit 8 (to_u32 (msg ! 2)) OR to_u32 (msg ! 3)"

definition thermocouple_handle_max31855 :: "u8 \<Rightarrow> u32 \<Rightarrow> u8 \<Rightarrow> ('e, unit) tcfw" where
  "thermocouple_handle_max31855 i next_begin_time oid =
     bnd (reads (\<lambda>m. tc_spi (thermocouples m i))) (\<lambda>spi.
     bnd (spidev_transfer spi True [0, 0, 0, 0]) (\<lambda>msg.
     let val = be32_to_cpu msg in
     thermocouple_respond i next_begin_time val (to_u8 (val AND 0x07)) oid))"

definition MAX31856_LTCBH_REG :: u8 where "MAX31856_LTCBH_REG = 0x0C"
definition MAX31856_SR_REG :: u8 where "MAX31856_SR_REG = 0x0F"

definition thermocouple_handle_max31856 :: "u8 \<Rightarrow> u32 \<Rightarrow> u8 \<Rightarrow> ('e, unit) tcfw" where
  "thermocouple_handle_max31856 i next_begin_time oid =
     bnd (reads (\<lambda>m. tc_spi (thermocouples m i))) (\<lambda>spi.
     bnd (spidev_transfer spi True [MAX31856_LTCBH_REG, 0, 0, 0]) (\<lambda>msg.
     let val = be32_to_cpu msg AND 0x00ffffff in
     bnd (spidev_transfer spi True [MAX31856_SR_REG, 0]) (\<lambda>sr.
     thermocouple_respond i next_begin_time val (sr ! 1) oid)))"

definition MAX31865_RTDMSB_REG :: u8 where "MAX31865_RTDMSB_REG = 0x01"
definition MAX31865_FAULTSTAT_REG :: u8 where "MAX31865_FAULTSTAT_REG = 0x07"

definition thermocouple_handle_max31865 :: "u8 \<Rightarrow> u32 \<Rightarrow> u8 \<Rightarrow> ('e, unit) tcfw" where
  "thermocouple_handle_max31865 i next_begin_time oid =
     bnd (reads (\<lambda>m. tc_spi (thermocouples m i))) (\<lambda>spi.
     bnd (spidev_transfer spi True [MAX31865_RTDMSB_REG, 0, 0]) (\<lambda>msg.
     let val = drop_bit 8 (be32_to_cpu (msg @ [0])) AND 0xffff in
     bnd (spidev_transfer spi True [MAX31865_FAULTSTAT_REG, 0]) (\<lambda>fs.
     let fault = ((fs ! 1) AND NOT 0x03) OR to_u8 (val AND 0x0001) in
     thermocouple_respond i next_begin_time val fault oid)))"

definition thermocouple_handle_max6675 :: "u8 \<Rightarrow> u32 \<Rightarrow> u8 \<Rightarrow> ('e, unit) tcfw" where
  "thermocouple_handle_max6675 i next_begin_time oid =
     bnd (reads (\<lambda>m. tc_spi (thermocouples m i))) (\<lambda>spi.
     bnd (spidev_transfer spi True [0, 0]) (\<lambda>msg.
     let val = push_bit 8 (to_u16 (msg ! 0)) OR to_u16 (msg ! 1) in
     thermocouple_respond i next_begin_time (to_u32 val) (to_u8 (val AND 0x06)) oid))"

definition thermocouple_task :: "('e, unit) tcfw" where
  "thermocouple_task =
     bnd (sched_check_wake thermocouple_wake) (\<lambda>w.
     if \<not> w then ret ()
     else foreach_oid config_thermocouple (\<lambda>oid.
       bnd (reads (\<lambda>m. tc_flags (thermocouples m oid))) (\<lambda>f0.
       if \<not> has_flag f0 TS_PENDING then ret ()
       else
         thn irq_disable
         (bnd (reads (\<lambda>m. waketime (timers m (ObjTimer oid)))) (\<lambda>next_begin_time.
         thn (upd_tc oid (\<lambda>x. x\<lparr>tc_flags := tc_flags x AND NOT TS_PENDING\<rparr>))
         (thn irq_enable
         (bnd (reads (\<lambda>m. tc_chip_type (thermocouples m oid))) (\<lambda>chip.
         if chip = TS_CHIP_MAX31855 then thermocouple_handle_max31855 oid next_begin_time oid
         else if chip = TS_CHIP_MAX31856 then thermocouple_handle_max31856 oid next_begin_time oid
         else if chip = TS_CHIP_MAX31865 then thermocouple_handle_max31865 oid next_begin_time oid
         else if chip = TS_CHIP_MAX6675 then thermocouple_handle_max6675 oid next_begin_time oid
         else ret ()))))))))"

end
