(* ===== verification/Adxl345.thy ===== *)
theory Adxl345
  imports Thermocouple
begin

text \<open>
  The accelerometer, \<^verbatim>\<open>src/sensor_adxl345.c\<close>: a task reads samples from the fifo of the chip, packs each into five bytes
  and sends ten of them in a message; and the decoder of the host, \<^verbatim>\<open>klippy/extras/adxl345.py\<close>.
\<close>

subsection \<open>State\<close>

text \<open>\<open>ax_data\<close> is the array of 50 bytes.\<close>

record adxl345 =
  ax_rest_ticks :: u32
  ax_spi :: u8
  ax_sequence :: u16
  ax_limit_count :: u16
  ax_flags :: u8
  ax_data_count :: u8
  ax_data :: "u8 list"

record adxl_state = thermocouple_state +
  adxls :: "u8 \<Rightarrow> adxl345"

definition zero_adxl :: adxl345 where
  "zero_adxl = \<lparr>ax_rest_ticks = 0, ax_spi = 0, ax_sequence = 0, ax_limit_count = 0, ax_flags = 0, ax_data_count = 0,
     ax_data = replicate 50 0\<rparr>"

definition adxl_init :: "config \<Rightarrow> board_in \<Rightarrow> spi_board \<Rightarrow> nat \<Rightarrow> adxl_state" where
  "adxl_init c e b sz = thermocouple_state.extend (thermocouple_init c e b sz) (adxl_state.fields (\<lambda>_. zero_adxl))"

type_synonym ('e, 'a) axfw = "('e adxl_state_scheme, 'a) fw"

definition upd_ax :: "u8 \<Rightarrow> (adxl345 \<Rightarrow> adxl345) \<Rightarrow> ('e, unit) axfw" where
  "upd_ax i f = modify (\<lambda>m. m\<lparr>adxls := (adxls m)(i := f (adxls m i))\<rparr>)"

definition AX_HAVE_START :: u8 where "AX_HAVE_START = 1"
definition AX_RUNNING :: u8 where "AX_RUNNING = 2"
definition AX_PENDING :: u8 where "AX_PENDING = 4"

definition AR_POWER_CTL :: u8 where "AR_POWER_CTL = 0x2D"
definition AR_DATAX0 :: u8 where "AR_DATAX0 = 0x32"
definition AR_FIFO_STATUS :: u8 where "AR_FIFO_STATUS = 0x39"
definition AM_READ :: u8 where "AM_READ = 0x80"
definition AM_MULTI :: u8 where "AM_MULTI = 0x40"
definition SET_FIFO_CTL :: u8 where "SET_FIFO_CTL = 0x90"

subsection \<open>Messages\<close>

definition adxl345_event :: "u8 \<Rightarrow> ('e, sf) axfw" where
  "adxl345_event i =
     thn (upd_ax i (\<lambda>x. x\<lparr>ax_flags := ax_flags x OR AX_PENDING\<rparr>))
     (thn (sched_wake_task adxl345_wake) (ret SF_DONE))"

definition command_config_adxl345 :: "u32 list \<Rightarrow> ('e, unit) axfw" where
  "command_config_adxl345 args =
     (let i = to_u8 (args ! 0) in
     thn (oid_alloc i config_adxl345)
     (thn (upd_ax i (\<lambda>_. zero_adxl))
     (thn (upd_timer (ObjTimer i) (\<lambda>t. t\<lparr>func := Some adxl345_event_f\<rparr>))
     (thn (spidev_oid_lookup (to_u8 (args ! 1)))
     (upd_ax i (\<lambda>x. x\<lparr>ax_spi := to_u8 (args ! 1)\<rparr>))))))"

definition adxl_report :: "u8 \<Rightarrow> u8 \<Rightarrow> ('e, unit) axfw" where
  "adxl_report i oid =
     bnd (reads (\<lambda>m. adxls m i)) (\<lambda>x.
     thn (command_sendf ''adxl345_data oid=%c sequence=%hu data=%*s''
            [Num (to_u32 oid), Num (to_u32 (ax_sequence x)), Buf (take (unat (ax_data_count x)) (ax_data x))])
     (thn (upd_ax i (\<lambda>x. x\<lparr>ax_data_count := 0\<rparr>))
     (upd_ax i (\<lambda>x. x\<lparr>ax_sequence := ax_sequence x + 1\<rparr>))))"

definition adxl_status :: "u8 \<Rightarrow> u8 \<Rightarrow> u32 \<Rightarrow> u32 \<Rightarrow> u8 \<Rightarrow> ('e, unit) axfw" where
  "adxl_status i oid time1 time2 fifo =
     bnd (reads (\<lambda>m. adxls m i)) (\<lambda>x.
     command_sendf ''adxl345_status oid=%c clock=%u query_ticks=%u next_sequence=%hu buffered=%c fifo=%c limit_count=%hu''
       [Num (to_u32 oid), Num time1, Num (time2 - time1), Num (to_u32 (ax_sequence x)), Num (to_u32 (ax_data_count x)),
        Num (to_u32 fifo), Num (to_u32 (ax_limit_count x))])"

definition adxl_reschedule_timer :: "u8 \<Rightarrow> ('e, unit) axfw" where
  "adxl_reschedule_timer i =
     thn irq_disable
     (bnd timer_read_time (\<lambda>now.
     bnd (reads (\<lambda>m. ax_rest_ticks (adxls m i))) (\<lambda>rest.
     thn (upd_timer (ObjTimer i) (\<lambda>t. t\<lparr>waketime := now + rest\<rparr>))
     (thn (sched_add_timer (ObjTimer i))
     irq_enable))))"

subsection \<open>Samples\<close>

text \<open>The test for a damaged answer, and the five bytes of a sample.\<close>

definition adxl_msg_bad :: "u8 list \<Rightarrow> bool" where
  "adxl_msg_bad msg \<longleftrightarrow>
     (msg ! 2 AND 0xf0 \<noteq> 0 \<and> msg ! 2 AND 0xf0 \<noteq> 0xf0) \<or> (msg ! 4 AND 0xf0 \<noteq> 0 \<and> msg ! 4 AND 0xf0 \<noteq> 0xf0) \<or>
     (msg ! 6 AND 0xf0 \<noteq> 0 \<and> msg ! 6 AND 0xf0 \<noteq> 0xf0) \<or> msg ! 7 \<noteq> SET_FIFO_CTL \<or> (msg ! 8 AND NOT 0x80) > 32"

definition adxl_pack :: "u8 list \<Rightarrow> u8 list" where
  "adxl_pack msg =
     (if adxl_msg_bad msg then [0xff, 0xff, 0xff, 0xff, 0xff]
      else [msg ! 1, msg ! 3, msg ! 5, (msg ! 2 AND 0x1f) OR push_bit 5 (msg ! 6),
            (msg ! 4 AND 0x1f) OR (push_bit 2 (msg ! 6) AND 0x60)])"

text \<open>A store of five bytes beyond the array is undefined.\<close>

definition store_sample :: "nat \<Rightarrow> u8 list \<Rightarrow> u8 list \<Rightarrow> u8 list option" where
  "store_sample pos d data =
     (if pos + length d \<le> length data then Some (take pos data @ d @ drop (pos + length d) data) else None)"

definition adxl_query :: "u8 \<Rightarrow> u8 \<Rightarrow> ('e, unit) axfw" where
  "adxl_query i oid =
     bnd (reads (\<lambda>m. ax_spi (adxls m i))) (\<lambda>spi.
     bnd (spidev_transfer spi True [AR_DATAX0 OR AM_READ OR AM_MULTI, 0, 0, 0, 0, 0, 0, 0, 0]) (\<lambda>msg.
     let fifo_status = (if adxl_msg_bad msg then 0 else msg ! 8 AND NOT 0x80) in
     bnd (reads (\<lambda>m. adxls m i)) (\<lambda>x.
     case store_sample (unat (ax_data_count x)) (adxl_pack msg) (ax_data x) of
       None \<Rightarrow> undef
     | Some data \<Rightarrow>
         thn (upd_ax i (\<lambda>x. x\<lparr>ax_data := data, ax_data_count := ax_data_count x + 5\<rparr>))
         (bnd (reads (\<lambda>m. ax_data_count (adxls m i))) (\<lambda>c.
         thn (whenM (unat c + 5 > 50) (adxl_report i oid))
         (thn (whenM (fifo_status \<ge> 31) (upd_ax i (\<lambda>x. x\<lparr>ax_limit_count := ax_limit_count x + 1\<rparr>)))
         (if fifo_status > 1 \<and> fifo_status \<le> 32 then sched_wake_task adxl345_wake
          else
            bnd (reads (\<lambda>m. ax_flags (adxls m i))) (\<lambda>flags.
            whenM (has_flag flags AX_RUNNING)
              (thn (sched_del_timer (ObjTimer i))
              (thn (upd_ax i (\<lambda>x. x\<lparr>ax_flags := ax_flags x AND NOT AX_PENDING\<rparr>))
              (adxl_reschedule_timer i)))))))))))"

definition adxl_start :: "u8 \<Rightarrow> u8 \<Rightarrow> ('e, unit) axfw" where
  "adxl_start i oid =
     thn (sched_del_timer (ObjTimer i))
     (thn (upd_ax i (\<lambda>x. x\<lparr>ax_flags := AX_RUNNING\<rparr>))
     (bnd (reads (\<lambda>m. ax_spi (adxls m i))) (\<lambda>spi.
     bnd (spidev_transfer spi False [AR_POWER_CTL, 0x08]) (\<lambda>_.
     adxl_reschedule_timer i))))"

text \<open>The loop that drains the fifo; the result is the last status byte.\<close>

fun adxl_drain :: "nat \<Rightarrow> u8 \<Rightarrow> u8 \<Rightarrow> u8 \<Rightarrow> ('e, u8) axfw" where
  "adxl_drain 0 i oid last_status = ret last_status"
| "adxl_drain (Suc n) i oid last_status =
     bnd (reads (\<lambda>m. ax_spi (adxls m i))) (\<lambda>spi.
     bnd (spidev_transfer spi True [AR_FIFO_STATUS OR AM_READ, 0x00]) (\<lambda>msg.
     let fifo_status = msg ! 1 AND NOT 0x80 in
     if fifo_status = 0 then ret (msg ! 1)
     else thn (whenM (fifo_status \<le> 32) (adxl_query i oid)) (adxl_drain n i oid (msg ! 1))))"

definition adxl_stop :: "u8 \<Rightarrow> u8 \<Rightarrow> ('e, unit) axfw" where
  "adxl_stop i oid =
     thn (sched_del_timer (ObjTimer i))
     (thn (upd_ax i (\<lambda>x. x\<lparr>ax_flags := 0\<rparr>))
     (bnd timer_read_time (\<lambda>end1_time.
     bnd (reads (\<lambda>m. ax_spi (adxls m i))) (\<lambda>spi.
     bnd (spidev_transfer spi False [AR_POWER_CTL, 0x00]) (\<lambda>msg.
     bnd timer_read_time (\<lambda>end2_time.
     bnd (adxl_drain 33 i oid (msg ! 1)) (\<lambda>st.
     bnd (reads (\<lambda>m. ax_data_count (adxls m i))) (\<lambda>c.
     thn (whenM (c \<noteq> 0) (adxl_report i oid))
     (adxl_status i oid end1_time end2_time st)))))))))"

definition command_query_adxl345 :: "u32 list \<Rightarrow> ('e, unit) axfw" where
  "command_query_adxl345 args =
     (let i = to_u8 (args ! 0) in
     thn (oid_lookup i config_adxl345)
     (if args ! 2 = 0 then adxl_stop i i
      else
        thn (sched_del_timer (ObjTimer i))
        (thn (upd_timer (ObjTimer i) (\<lambda>t. t\<lparr>waketime := args ! 1\<rparr>))
        (thn (upd_ax i (\<lambda>x. x\<lparr>ax_rest_ticks := args ! 2, ax_flags := AX_HAVE_START, ax_sequence := 0, ax_limit_count := 0,
                ax_data_count := 0\<rparr>))
        (sched_add_timer (ObjTimer i))))))"

definition command_query_adxl345_status :: "u32 list \<Rightarrow> ('e, unit) axfw" where
  "command_query_adxl345_status args =
     (let i = to_u8 (args ! 0) in
     thn (oid_lookup i config_adxl345)
     (bnd timer_read_time (\<lambda>time1.
     bnd (reads (\<lambda>m. ax_spi (adxls m i))) (\<lambda>spi.
     bnd (spidev_transfer spi True [AR_FIFO_STATUS OR AM_READ, 0x00]) (\<lambda>msg.
     bnd timer_read_time (\<lambda>time2.
     adxl_status i i time1 time2 (msg ! 1)))))))"

definition adxl345_task :: "('e, unit) axfw" where
  "adxl345_task =
     bnd (sched_check_wake adxl345_wake) (\<lambda>w.
     if \<not> w then ret ()
     else foreach_oid config_adxl345 (\<lambda>oid.
       bnd (reads (\<lambda>m. ax_flags (adxls m oid))) (\<lambda>flags.
       if \<not> has_flag flags AX_PENDING then ret ()
       else if has_flag flags AX_HAVE_START then adxl_start oid oid
       else adxl_query oid oid)))"

subsection \<open>The host's decoder\<close>

text \<open>
  One sample of \<^verbatim>\<open>_extract_samples\<close>, before the axes are mapped and scaled: \<open>None\<close> counts an error.  Python's
  integers are unbounded.
\<close>

definition extract_sample :: "int \<Rightarrow> int \<Rightarrow> int \<Rightarrow> int \<Rightarrow> int \<Rightarrow> (int \<times> int \<times> int) option" where
  "extract_sample xlow ylow zlow xzhigh yzhigh =
     (if yzhigh AND 0x80 \<noteq> 0 then None
      else
        let rx = (xlow OR push_bit 8 (xzhigh AND 0x1f)) - push_bit 9 (xzhigh AND 0x10);
            ry = (ylow OR push_bit 8 (yzhigh AND 0x1f)) - push_bit 9 (yzhigh AND 0x10);
            rz = (zlow OR push_bit 3 (xzhigh AND 0xe0) OR push_bit 6 (yzhigh AND 0xe0)) - push_bit 7 (yzhigh AND 0x40)
        in Some (rx, ry, rz))"

text \<open>The samples of a message, five bytes each; a rest of less than five bytes is left out.\<close>

fun extract_samples :: "int list \<Rightarrow> (int \<times> int \<times> int) option list" where
  "extract_samples (xlow # ylow # zlow # xzhigh # yzhigh # d) = extract_sample xlow ylow zlow xzhigh yzhigh # extract_samples d"
| "extract_samples _ = []"

end
