(* ===== verification/Neopixel.thy ===== *)
theory Neopixel
  imports Adxl345
begin

text \<open>
  Strings of addressable lights, \<^verbatim>\<open>src/neopixel.c\<close>, in the variant for boards other than AVR: every bit is a pulse on a
  pin, timed by reading the clock.

  \<^item> A wait for the clock that does not end within \<open>fuel\<close> reads is undefined.
\<close>

subsection \<open>State\<close>

record neopixel_s =
  np_pin :: u32
  bit_max_ticks :: u32
  last_req_time :: u32
  reset_min_ticks :: u32
  np_data_size :: u16
  np_data :: "u8 list"

record neopixel_state = adxl_state +
  neopixels :: "u8 \<Rightarrow> neopixel_s"

definition zero_neopixel :: neopixel_s where
  "zero_neopixel = \<lparr>np_pin = 0, bit_max_ticks = 0, last_req_time = 0, reset_min_ticks = 0, np_data_size = 0, np_data = []\<rparr>"

definition neopixel_init :: "config \<Rightarrow> board_in \<Rightarrow> spi_board \<Rightarrow> nat \<Rightarrow> neopixel_state" where
  "neopixel_init c e b sz = adxl_state.extend (adxl_init c e b sz) (neopixel_state.fields (\<lambda>_. zero_neopixel))"

type_synonym ('e, 'a) npfw = "('e neopixel_state_scheme, 'a) fw"

definition upd_np :: "u8 \<Rightarrow> (neopixel_s \<Rightarrow> neopixel_s) \<Rightarrow> ('e, unit) npfw" where
  "upd_np i f = modify (\<lambda>m. m\<lparr>neopixels := (neopixels m)(i := f (neopixels m i))\<rparr>)"

subsection \<open>Timing\<close>

definition nsecs_to_ticks :: "config \<Rightarrow> u32 \<Rightarrow> u32" where
  "nsecs_to_ticks c ns = timer_from_us c (ns * 1000) div 1000000"

definition neopixel_check_elapsed :: "u32 \<Rightarrow> u32 \<Rightarrow> u32 \<Rightarrow> bool" where
  "neopixel_check_elapsed t1 t2 tcks \<longleftrightarrow> t2 - t1 \<ge> tcks"

definition neopixel_get_time :: "('e, u32) npfw" where
  "neopixel_get_time = timer_read_time"

fun neopixel_delay :: "nat \<Rightarrow> u32 \<Rightarrow> u32 \<Rightarrow> ('e, unit) npfw" where
  "neopixel_delay 0 start tcks = undef"
| "neopixel_delay (Suc fuel) start tcks =
     bnd neopixel_get_time (\<lambda>t.
     if neopixel_check_elapsed start t tcks then ret () else neopixel_delay fuel start tcks)"

definition PULSE_LONG_TICKS :: "config \<Rightarrow> u32" where "PULSE_LONG_TICKS c = nsecs_to_ticks c 650"
definition PULSE_SHORT_TICKS :: "config \<Rightarrow> u32" where "PULSE_SHORT_TICKS c = nsecs_to_ticks c 200"
definition BIT_MIN_TICKS :: "config \<Rightarrow> u32" where "BIT_MIN_TICKS c = nsecs_to_ticks c 1250"

subsection \<open>Configuration\<close>

definition command_config_neopixel :: "u32 list \<Rightarrow> ('e, unit) npfw" where
  "command_config_neopixel args =
     (let i = to_u8 (args ! 0); data_size = to_u16 (args ! 2) in
     bnd (gpio_out_setup (args ! 1) False) (\<lambda>pin.
     if data_size AND 0x8000 \<noteq> 0 then sched_shutdown ''Invalid neopixel data_size''
     else
       bnd (reads (\<lambda>m. struct_size (cfg m) config_neopixel)) (\<lambda>sz.
       thn (oid_alloc_sized i config_neopixel (sz + unat data_size))
       (upd_np i (\<lambda>_. \<lparr>np_pin = pin, bit_max_ticks = args ! 3, last_req_time = 0, reset_min_ticks = args ! 4,
          np_data_size = data_size, np_data = replicate (unat data_size) 0\<rparr>)))))"

subsection \<open>Transmission\<close>

text \<open>One bit; the result is the start of its pulse, or \<open>None\<close> when it came too late.\<close>

definition send_bit :: "nat \<Rightarrow> u32 \<Rightarrow> u32 \<Rightarrow> u32 \<Rightarrow> bool \<Rightarrow> ('e, u32 option) npfw" where
  "send_bit fuel pin max_ticks last_start b =
     bnd (reads cfg) (\<lambda>c.
     if b then
       thn (neopixel_delay fuel last_start (BIT_MIN_TICKS c))
       (thn irq_disable
       (bnd neopixel_get_time (\<lambda>start.
       thn (gpio_out_toggle_noirq pin)
       (thn irq_enable
       (if neopixel_check_elapsed last_start start max_ticks then ret None
        else
          thn (neopixel_delay fuel start (PULSE_LONG_TICKS c))
          (thn irq_disable
          (thn (gpio_out_toggle_noirq pin)
          (thn irq_enable
          (bnd neopixel_get_time (\<lambda>now.
          thn (neopixel_delay fuel now (PULSE_SHORT_TICKS c))
          (ret (Some start))))))))))))
     else
       thn (neopixel_delay fuel last_start (BIT_MIN_TICKS c))
       (thn irq_disable
       (bnd neopixel_get_time (\<lambda>start.
       thn (gpio_out_toggle_noirq pin)
       (thn (neopixel_delay fuel start (PULSE_SHORT_TICKS c))
       (thn (gpio_out_toggle_noirq pin)
       (thn irq_enable
       (if neopixel_check_elapsed last_start start max_ticks then ret None else ret (Some start)))))))))"

fun send_bits :: "nat \<Rightarrow> nat \<Rightarrow> u32 \<Rightarrow> u32 \<Rightarrow> u32 \<Rightarrow> u8 \<Rightarrow> ('e, u32 option) npfw" where
  "send_bits 0 fuel pin max_ticks last_start byte = ret (Some last_start)"
| "send_bits (Suc bits) fuel pin max_ticks last_start byte =
     bnd (send_bit fuel pin max_ticks last_start (byte AND 0x80 \<noteq> 0)) (\<lambda>r. case r of
       None \<Rightarrow> ret None
     | Some start \<Rightarrow> send_bits bits fuel pin max_ticks start (push_bit 1 byte))"

fun send_bytes :: "u8 list \<Rightarrow> nat \<Rightarrow> u32 \<Rightarrow> u32 \<Rightarrow> u32 \<Rightarrow> ('e, u32 option) npfw" where
  "send_bytes [] fuel pin max_ticks last_start = ret (Some last_start)"
| "send_bytes (byte # data) fuel pin max_ticks last_start =
     bnd (send_bits 8 fuel pin max_ticks last_start byte) (\<lambda>r. case r of
       None \<Rightarrow> ret None
     | Some start \<Rightarrow> send_bytes data fuel pin max_ticks start)"

text \<open>The wait for the reset time; \<^verbatim>\<open>irq_poll\<close> has no effect of its own.\<close>

fun reset_wait :: "nat \<Rightarrow> u32 \<Rightarrow> u32 \<Rightarrow> u32 \<Rightarrow> ('e, unit) npfw" where
  "reset_wait fuel last_time rmt cur =
     (if cur - last_time < rmt then
        (case fuel of 0 \<Rightarrow> undef | Suc n \<Rightarrow> bnd timer_read_time (\<lambda>t. reset_wait n last_time rmt t))
      else ret ())"

definition send_data :: "nat \<Rightarrow> u8 \<Rightarrow> ('e, bool) npfw" where
  "send_data fuel i =
     bnd (reads (\<lambda>m. neopixels m i)) (\<lambda>n.
     bnd timer_read_time (\<lambda>cur.
     thn (reset_wait fuel (last_req_time n) (reset_min_ticks n) cur)
     (bnd neopixel_get_time (\<lambda>last_start.
     bnd (send_bytes (np_data n) fuel (np_pin n) (bit_max_ticks n) last_start) (\<lambda>r.
     thn (whenM (r = None) (gpio_out_write (np_pin n) False))
     (bnd timer_read_time (\<lambda>t.
     thn (upd_np i (\<lambda>x. x\<lparr>last_req_time := t\<rparr>))
     (ret (r \<noteq> None)))))))))"

definition command_neopixel_update :: "u32 list \<Rightarrow> ('e, unit) npfw" where
  "command_neopixel_update args =
     (let i = to_u8 (args ! 0); pos = args ! 1; data_len = args ! 2 in
     thn (oid_lookup i config_neopixel)
     (bnd (reads (\<lambda>m. neopixels m i)) (\<lambda>n.
     if pos AND 0x8000 \<noteq> 0 \<or> pos + data_len > to_u32 (np_data_size n) then sched_shutdown ''Invalid neopixel update command''
     else
       bnd (command_decode_ptr (args ! 3) (unat data_len)) (\<lambda>data.
       if unat pos + unat data_len \<le> length (np_data n)
       then upd_np i (\<lambda>x. x\<lparr>np_data := take (unat pos) (np_data x) @ data @ drop (unat pos + unat data_len) (np_data x)\<rparr>)
       else undef))))"

definition command_neopixel_send :: "nat \<Rightarrow> u32 list \<Rightarrow> ('e, unit) npfw" where
  "command_neopixel_send fuel args =
     (let i = to_u8 (args ! 0) in
     thn (oid_lookup i config_neopixel)
     (bnd (send_data fuel i) (\<lambda>ok.
     command_sendf ''neopixel_result oid=%c success=%c'' [Num (to_u32 i), Num (if ok then 1 else 0)])))"

end
