(* ===== verification/I2ccmds.thy ===== *)
theory I2ccmds
  imports Neopixel
begin

text \<open>
  Devices on an I2C bus, \<^verbatim>\<open>src/i2ccmds.c\<close>.  The board's bus is a parameter: which buses it has, the bytes that
  the \<open>n\<close>-th read of the run gives, and the shutdown it ends with if the device does not answer.
\<close>

record i2c_board =
  i2c_bus_ok :: "u32 \<Rightarrow> bool"
  i2c_in :: "nat \<Rightarrow> nat \<Rightarrow> u8"
  i2c_error :: "nat \<Rightarrow> string option"

record i2cdev_s =
  i2c_bus :: u32
  i2c_addr :: u8

record i2c_state = neopixel_state +
  i2c_env :: i2c_board
  i2cdevs :: "u8 \<Rightarrow> i2cdev_s"

type_synonym ('e, 'a) icfw = "('e i2c_state_scheme, 'a) fw"

definition i2c_setup :: "u32 \<Rightarrow> u32 \<Rightarrow> u8 \<Rightarrow> ('e, i2cdev_s) icfw" where
  "i2c_setup bus rate addr = (\<lambda>m. if i2c_bus_ok (i2c_env m) bus
     then bnd (emit (I2cSetup bus rate addr)) (\<lambda>_. ret \<lparr>i2c_bus = bus, i2c_addr = addr\<rparr>) m
     else Shutdown ''Unsupported i2c bus'' m)"

definition i2c_write :: "i2cdev_s \<Rightarrow> u8 list \<Rightarrow> ('e, unit) icfw" where
  "i2c_write c data =
     thn (emit (I2cWrite (i2c_bus c) (i2c_addr c) data)) (\<lambda>m.
     case i2c_error (i2c_env m) (ticks m) of
       Some reason \<Rightarrow> Shutdown reason m
     | None \<Rightarrow> Ok () (m\<lparr>ticks := Suc (ticks m)\<rparr>))"

definition i2c_read :: "i2cdev_s \<Rightarrow> u8 list \<Rightarrow> nat \<Rightarrow> ('e, u8 list) icfw" where
  "i2c_read c reg read_len =
     thn (emit (I2cRead (i2c_bus c) (i2c_addr c) reg read_len)) (\<lambda>m.
     case i2c_error (i2c_env m) (ticks m) of
       Some reason \<Rightarrow> Shutdown reason m
     | None \<Rightarrow> Ok (map (i2c_in (i2c_env m) (ticks m)) [0..<read_len]) (m\<lparr>ticks := Suc (ticks m)\<rparr>))"

definition command_config_i2c :: "u32 list \<Rightarrow> ('e, unit) icfw" where
  "command_config_i2c args =
     (let i = to_u8 (args ! 0); addr = to_u8 (args ! 3 AND 0x7f) in
     thn (oid_alloc i config_i2c)
     (bnd (i2c_setup (args ! 1) (args ! 2) addr) (\<lambda>c.
     modify (\<lambda>m. m\<lparr>i2cdevs := (i2cdevs m)(i := c)\<rparr>))))"

definition i2cdev_oid_lookup :: "u8 \<Rightarrow> ('e, unit) icfw" where
  "i2cdev_oid_lookup oid = oid_lookup oid config_i2c"

definition command_i2c_write :: "u32 list \<Rightarrow> ('e, unit) icfw" where
  "command_i2c_write args =
     (let i = to_u8 (args ! 0); data_len = (to_u8 (args ! 1) :: u8) in
     thn (oid_lookup i config_i2c)
     (bnd (command_decode_ptr (args ! 2) (unat data_len)) (\<lambda>data.
     bnd (reads (\<lambda>m. i2cdevs m i)) (\<lambda>c. i2c_write c data))))"

definition command_i2c_read :: "u32 list \<Rightarrow> ('e, unit) icfw" where
  "command_i2c_read args =
     (let i = to_u8 (args ! 0); reg_len = (to_u8 (args ! 1) :: u8); data_len = (to_u8 (args ! 3) :: u8) in
     thn (oid_lookup i config_i2c)
     (bnd (command_decode_ptr (args ! 2) (unat reg_len)) (\<lambda>reg.
     bnd (reads (\<lambda>m. i2cdevs m i)) (\<lambda>c.
     bnd (i2c_read c reg (unat data_len)) (\<lambda>data.
     command_sendf ''i2c_read_response oid=%c response=%*s'' [Num (to_u32 i), Buf data])))))"

text \<open>The bits that are cleared and set; the length of the write is a byte.\<close>

definition modify_bits :: "u8 list \<Rightarrow> u8 list \<Rightarrow> u8 list \<Rightarrow> u8 list" where
  "modify_bits data clear sets = map (\<lambda>(d, c, s). (d AND NOT c) OR s) (zip data (zip clear sets))"

definition command_i2c_modify_bits :: "u32 list \<Rightarrow> ('e, unit) icfw" where
  "command_i2c_modify_bits args =
     (let i = to_u8 (args ! 0); reg_len = (to_u8 (args ! 1) :: u8); clear_set_len = args ! 3 in
     thn (oid_lookup i config_i2c)
     (bnd (command_decode_ptr (args ! 2) (unat reg_len)) (\<lambda>reg.
     if clear_set_len mod 2 \<noteq> 0 then sched_shutdown ''i2c_modify_bits: Odd number of bits!''
     else
       let data_len = unat (to_u8 (clear_set_len div 2)) in
       bnd (command_decode_ptr (args ! 4) (2 * data_len)) (\<lambda>clear_set.
       bnd (reads (\<lambda>m. i2cdevs m i)) (\<lambda>c.
       bnd (i2c_read c reg data_len) (\<lambda>data.
       let receive_data = reg @ modify_bits data (take data_len clear_set) (drop data_len clear_set)
       in i2c_write c (take (length receive_data mod 256) receive_data)))))))"

end
