(* ===== verification/Sensors.thy ===== *)
theory Sensors
  imports I2ccmds Timer_Queue
begin

text \<open>
  Properties of the devices on a bus: the signals of a software SPI transfer, the shutdown for bad temperature readings,
  the way of an acceleration sample from the chip to the host, and the bounds of an update of the lights.
\<close>

subsection \<open>Software SPI\<close>

definition msb_bits :: "u8 \<Rightarrow> bool list" where
  "msb_bits d = map (\<lambda>k. bit d (7 - k)) [0..<8]"

text \<open>The pin changes for one bit.\<close>

definition bit_wave :: "spi_software \<Rightarrow> bool \<Rightarrow> out list" where
  "bit_wave ss b = (if ss_mode ss AND 0x01 \<noteq> 0
     then [GpioOutToggle (ss_sclk ss), GpioOutWrite (ss_mosi ss) b, GpioOutToggle (ss_sclk ss)]
     else [GpioOutWrite (ss_mosi ss) b, GpioOutToggle (ss_sclk ss), GpioOutToggle (ss_sclk ss)])"

definition byte_wave :: "spi_software \<Rightarrow> u8 \<Rightarrow> out list" where
  "byte_wave ss d = concat (map (bit_wave ss) (msb_bits d))"

abbreviation shift_bit :: "u8 \<Rightarrow> bool \<Rightarrow> u8" where
  "shift_bit v b \<equiv> push_bit 1 v OR of_bool b"

lemma and_0x80_bit: "(d :: u8) AND 0x80 \<noteq> 0 \<longleftrightarrow> bit d 7"
proof -
  have "(0x80 :: u8) = 2 ^ 7" by simp
  then show ?thesis by (simp only: and_exp_eq_0_iff_not_bit) simp
qed

lemma upt_shift: "map f [0..<Suc n] = f 0 # map (\<lambda>k. f (Suc k)) [0..<n]"
  by (simp only: upt_conv_Cons zero_less_Suc map_Suc_upt [symmetric] list.map map_map comp_def)

lemma software_bits:
  fixes m :: "'e spi_state_scheme"
  shows "n \<le> 8 \<Longrightarrow> spi_software_bits n ss outbuf inbuf m =
     Ok (foldl shift_bit inbuf (map (\<lambda>k. gpio_in (env m) (ticks m + k) (ss_miso ss)) [0..<n]))
       (m\<lparr>ticks := ticks m + n, out := out m @ concat (map (\<lambda>k. bit_wave ss (bit outbuf (7 - k))) [0..<n])\<rparr>)"
proof (induction n arbitrary: outbuf inbuf m)
  case (Suc n)
  note One_nat_def [simp del] push_bit_Suc [simp del]
  have sh: "bit (push_bit 1 outbuf) (7 - k) = bit outbuf (7 - Suc k)" if "k < n" for k
    unfolding bit_push_bit_iff using that Suc.prems by (auto simp: possible_bit_word)
  have w: "map (\<lambda>k. bit_wave ss (bit (push_bit 1 outbuf) (7 - k))) [0..<n] = map (\<lambda>k. bit_wave ss (bit outbuf (7 - Suc k))) [0..<n]"
    using sh by (intro map_cong) auto
  have IH: "spi_software_bits n ss (push_bit 1 outbuf) v m' =
     Ok (foldl shift_bit v (map (\<lambda>k. gpio_in (env m') (ticks m' + k) (ss_miso ss)) [0..<n]))
       (m'\<lparr>ticks := ticks m' + n, out := out m' @ concat (map (\<lambda>k. bit_wave ss (bit outbuf (7 - Suc k))) [0..<n])\<rparr>)" for v and m' :: "'e spi_state_scheme"
    using Suc.prems by (simp only: Suc.IH [OF Suc_leD] w)
  show ?case
  proof (cases "ss_mode ss AND 0x01 \<noteq> 0")
    case True
    then show ?thesis
      by (simp add: IH gpio_out_toggle_def gpio_out_write_def and_0x80_bit upt_shift del: upt_Suc) (simp add: bit_wave_def)
  next
    case False
    then show ?thesis
      by (simp add: IH gpio_out_toggle_def gpio_out_write_def and_0x80_bit upt_shift del: upt_Suc) (simp add: bit_wave_def)
  qed
qed simp

lemma foldl_shift_bit:
  "k < 8 \<Longrightarrow> bit (foldl shift_bit v bs) k =
     (if k < length bs then bs ! (length bs - Suc k) else bit v (k - length bs))"
proof (induction bs arbitrary: v k rule: rev_induct)
  case (snoc b bs)
  note One_nat_def [simp del] push_bit_Suc [simp del]
  have *: "bit (shift_bit w b) j = (if j = 0 then b else bit w (j - 1))" if "j < 8" for w :: u8 and j
    unfolding bit_or_iff bit_push_bit_iff using that by (auto simp: possible_bit_word bit_1_iff)
  show ?case
    using snoc.prems snoc.IH [of "k - 1" v] by (cases k) (auto simp: * nth_append)
qed simp

lemma msb_bits_foldl:
  assumes "length bs = 8"
  shows "msb_bits (foldl shift_bit 0 bs) = bs"
proof (rule nth_equalityI)
  fix k assume "k < length (msb_bits (foldl shift_bit 0 bs))"
  then have "k < 8" by (simp add: msb_bits_def)
  then have "msb_bits (foldl shift_bit 0 bs) ! k = bit (foldl shift_bit 0 bs) (7 - k)"
    by (simp add: msb_bits_def)
  also have "\<dots> = bs ! k"
    using \<open>k < 8\<close> assms by (subst foldl_shift_bit) auto
  finally show "msb_bits (foldl shift_bit 0 bs) ! k = bs ! k" .
qed (simp add: assms msb_bits_def)

text \<open>The samples of the input pin during a transfer of bytes, in groups of eight.\<close>

definition byte_in :: "board_in \<Rightarrow> u32 \<Rightarrow> nat \<Rightarrow> u8" where
  "byte_in e pin t = foldl shift_bit 0 (map (\<lambda>k. gpio_in e (t + k) pin) [0..<8])"

lemma software_byte:
  "spi_software_bits 8 ss d 0 m =
     Ok (byte_in (env m) (ss_miso ss) (ticks m)) (m\<lparr>ticks := ticks m + 8, out := out m @ byte_wave ss d\<rparr>)"
  by (subst software_bits) (simp_all add: byte_in_def byte_wave_def msb_bits_def comp_def)

lemma software_transfer:
  "spi_software_transfer ss rd data m =
     Ok (if rd then map (\<lambda>j. byte_in (env m) (ss_miso ss) (ticks m + 8 * j)) [0..<length data] else data)
       (m\<lparr>ticks := ticks m + 8 * length data, out := out m @ concat (map (byte_wave ss) data)\<rparr>)"
proof (induction data arbitrary: m)
  case (Cons d data)
  show ?case
    by (simp add: software_byte Cons.IH upt_shift algebra_simps del: upt_Suc)
qed simp

text \<open>The chip select pin's write, if the device has one.\<close>

definition cs_write :: "spidev_s \<Rightarrow> bool \<Rightarrow> out list" where
  "cs_write d on = (if has_flag (sd_flags d) SF_HAVE_PIN
     then [GpioOutWrite (sd_pin d) (on = has_flag (sd_flags d) SF_CS_ACTIVE_HIGH)] else [])"

lemma has_flag_software: "has_flag f SF_SOFTWARE \<Longrightarrow> has_flag f (SF_SOFTWARE OR SF_HARDWARE)"
  by (auto simp: has_flag_def bit.conj_disj_distrib or_eq_0_iff)

lemma length_byte_in: "msb_bits (byte_in e pin t) = map (\<lambda>k. gpio_in e (t + k) pin) [0..<8]"
  unfolding byte_in_def by (rule msb_bits_foldl) simp

text \<open>
  A transfer on a software SPI bus puts the clock at its idle level, selects the chip, sends every byte with its most
  significant bit first and two clock edges for each bit, and releases the chip; the bytes it returns are the levels
  of the input pin, eight reads for each byte.
\<close>

theorem spidev_software_transfer:
  assumes "sd_bus (spidevs m i) = software_bus a" and "has_flag (sd_flags (spidevs m i)) SF_SOFTWARE"
    and "CONFIG_HAVE_GPIO_BITBANGING (spi_env m)" and ss: "ss = spi_softwares m a"
  shows "\<exists>r. spidev_transfer i True data m =
      Ok r (m\<lparr>ticks := ticks m + 8 * length data,
        out := out m @ [GpioOutWrite (ss_sclk ss) (ss_mode ss AND 0x02 \<noteq> 0)] @ cs_write (spidevs m i) True @
          concat (map (byte_wave ss) data) @ cs_write (spidevs m i) False\<rparr>) \<and>
    length r = length data \<and>
    (\<forall>j < length data. msb_bits (r ! j) = map (\<lambda>k. gpio_in (env m) (ticks m + 8 * j + k) (ss_miso ss)) [0..<8])"
  using assms has_flag_software [OF assms(2)]
  by (intro exI [of _ "map (\<lambda>j. byte_in (env m) (ss_miso ss) (ticks m + 8 * j)) [0..<length data]"])
     (simp add: spidev_transfer_def Let_def spi_software_prepare_def gpio_out_write_def software_transfer cs_write_def
       whenM_def length_byte_in del: upt_Suc)

definition sample_spi_board :: spi_board where
  "sample_spi_board = \<lparr>CONFIG_HAVE_GPIO_BITBANGING = True, spi_bus_ok = (\<lambda>_. False), spi_in = (\<lambda>_ _. 0)\<rparr>"

definition sample_software :: spi_software where
  "sample_software = \<lparr>ss_miso = 1, ss_mosi = 2, ss_sclk = 3, ss_mode = 0\<rparr>"

definition sample_spi :: spi_state where
  "sample_spi = (spi_init sample_config sample_board sample_spi_board 16)
     \<lparr>spi_env := sample_spi_board, spidevs := (\<lambda>_. \<lparr>sd_bus = software_bus 0x2000, sd_pin = 7, sd_flags = 3\<rparr>),
      spi_softwares := (\<lambda>_. sample_software)\<rparr>"

theorem spidev_software_transfer_witness:
  "\<exists>r. spidev_transfer 4 True [0xa5] sample_spi =
      Ok r (sample_spi\<lparr>ticks := ticks sample_spi + 8,
        out := out sample_spi @ [GpioOutWrite 3 False] @ [GpioOutWrite 7 False] @
          byte_wave sample_software 0xa5 @ [GpioOutWrite 7 True]\<rparr>) \<and> length r = 1"
proof -
  have "has_flag 3 SF_SOFTWARE" "has_flag 3 SF_HAVE_PIN" "\<not> has_flag 3 SF_CS_ACTIVE_HIGH"
    by (simp_all add: has_flag_def SF_SOFTWARE_def SF_HAVE_PIN_def SF_CS_ACTIVE_HIGH_def)
  moreover have "spidevs sample_spi 4 = \<lparr>sd_bus = software_bus 0x2000, sd_pin = 7, sd_flags = 3\<rparr>"
    "spi_softwares sample_spi 0x2000 = sample_software" "spi_env sample_spi = sample_spi_board"
    by (simp_all add: sample_spi_def)
  moreover have "ss_sclk sample_software = 3" "ss_mode sample_software = 0" "CONFIG_HAVE_GPIO_BITBANGING sample_spi_board"
    by (simp_all add: sample_software_def sample_spi_board_def)
  ultimately show ?thesis
    using spidev_software_transfer [where m = sample_spi and i = 4 and a = "0x2000" and data = "[0xa5]" and ss = sample_software]
    by (auto simp: cs_write_def)
qed

subsection \<open>Temperature readings\<close>

definition bad_reading :: "thermocouple_spi \<Rightarrow> u32 \<times> u32 \<times> u8 \<Rightarrow> bool" where
  "bad_reading x r = (case r of (t, val, fault) \<Rightarrow> fault \<noteq> 0 \<or> val < tc_min_value x \<or> val > tc_max_value x)"

definition respond_all :: "u8 \<Rightarrow> (u32 \<times> u32 \<times> u8) list \<Rightarrow> ('e, unit) tcfw" where
  "respond_all i rs = seqM (map (\<lambda>(t, val, fault). thermocouple_respond i t val fault i) rs)"

text \<open>Whether \<open>mx\<close> bad readings follow each other, after \<open>c\<close> of them.\<close>

fun bad_run :: "nat \<Rightarrow> nat \<Rightarrow> bool list \<Rightarrow> bool" where
  "bad_run mx c [] = False"
| "bad_run mx c (b # bs) = (if b then Suc c \<ge> mx \<or> bad_run mx (Suc c) bs else bad_run mx 0 bs)"

lemma bad_run_window:
  "c < mx \<Longrightarrow> bad_run mx c bs \<longleftrightarrow>
     (\<exists>k. k + mx \<le> length bs \<and> (\<forall>j < mx. bs ! (k + j))) \<or> (mx - c \<le> length bs \<and> (\<forall>j < mx - c. bs ! j))"
  (is "_ \<Longrightarrow> _ \<longleftrightarrow> (\<exists>k. ?W bs k) \<or> ?P c bs")
proof (induction bs arbitrary: c)
  case (Cons b bs)
  have W: "(\<exists>k. ?W (b # bs) k) \<longleftrightarrow> ?P 0 (b # bs) \<or> (\<exists>k. ?W bs k)"
  proof
    assume "\<exists>k. ?W (b # bs) k"
    then obtain k where k: "?W (b # bs) k" ..
    then show "?P 0 (b # bs) \<or> (\<exists>k. ?W bs k)" by (cases k) auto
  next
    assume "?P 0 (b # bs) \<or> (\<exists>k. ?W bs k)"
    then show "\<exists>k. ?W (b # bs) k"
    proof
      assume "?P 0 (b # bs)" then show ?thesis by (intro exI [of _ 0]) simp
    next
      assume "\<exists>k. ?W bs k"
      then obtain k where "?W bs k" ..
      then show ?thesis by (intro exI [of _ "Suc k"]) simp
    qed
  qed
  have P: "?P d (b # bs) \<longleftrightarrow> b \<and> (mx = Suc d \<or> ?P (Suc d) bs)" if "d < mx" for d
  proof (cases "mx - d")
    case (Suc n)
    moreover have "mx - Suc d = n" "mx = Suc d \<longleftrightarrow> n = 0" using Suc by auto
    ultimately show ?thesis by (auto simp: All_less_Suc2)
  qed (use that in simp)
  have mono: "?P c' bs" if "?P c bs" "c \<le> c'" for c c' using that by auto
  show ?case
  proof (cases "b \<and> Suc c < mx")
    case True
    then have "bad_run mx c (b # bs) \<longleftrightarrow> (\<exists>k. ?W bs k) \<or> ?P (Suc c) bs" using Cons.IH [of "Suc c"] by simp
    moreover have "?P 0 (b # bs) \<Longrightarrow> ?P (Suc c) bs"
      using P [of 0] True mono [of 1 "Suc c"] by auto
    ultimately show ?thesis using W P [of c] True by auto
  next
    case False
    show ?thesis
    proof (cases b)
      case True
      with False have "mx = Suc c" using Cons.prems by simp
      then show ?thesis using True P [of c] by simp
    next
      case b: False
      have "mx > 0" using Cons.prems by simp
      moreover have "?P 0 bs \<Longrightarrow> \<exists>k. ?W bs k" by (intro exI [of _ 0]) simp
      ultimately show ?thesis using b W P [of c] P [of 0] Cons.IH [of 0] Cons.prems by auto
    qed
  qed
qed auto

lemma sendf_frame:
  "\<exists>m1. command_sendf fmt args (m :: 'e thermocouple_state_scheme) = Ok () m1 \<and> thermocouples m1 = thermocouples m \<and>
     shutdown_status m1 = shutdown_status m"
  by (auto simp: command_sendf_def)

lemma respond_step:
  fixes m :: "'e thermocouple_state_scheme"
  assumes st: "shutdown_status m = 0"
    and c: "unat (tc_invalid_count (thermocouples m i)) < mx" and mx: "mx = max 1 (unat (tc_max_invalid (thermocouples m i)))"
  shows "if bad_reading (thermocouples m i) (t, val, fault) \<and> Suc (unat (tc_invalid_count (thermocouples m i))) \<ge> mx
    then \<exists>m'. thermocouple_respond i t val fault i m = Shutdown ''Thermocouple reader fault'' m'
    else \<exists>m'. thermocouple_respond i t val fault i m = Ok () m' \<and> shutdown_status m' = 0 \<and>
      thermocouples m' i = (thermocouples m i)\<lparr>tc_invalid_count :=
        (if bad_reading (thermocouples m i) (t, val, fault) then tc_invalid_count (thermocouples m i) + 1 else 0)\<rparr>"
proof -
  let ?x = "thermocouples m i"
  obtain m1 where m1: "command_sendf ''thermocouple_result oid=%c next_clock=%u value=%u fault=%c''
       [Num (to_u32 i), Num t, Num val, Num (to_u32 fault)] m = Ok () m1"
    "thermocouples m1 = thermocouples m" "shutdown_status m1 = 0"
    using sendf_frame st by metis
  have lt: "tc_invalid_count ?x + 1 < tc_max_invalid ?x \<longleftrightarrow> Suc (unat (tc_invalid_count ?x)) < mx"
  proof -
    have "unat (tc_invalid_count ?x) < 255" using c mx unat_u8_bound [of "tc_max_invalid ?x"] by linarith
    then have "unat (tc_invalid_count ?x + 1) = Suc (unat (tc_invalid_count ?x))" by (simp add: unat_word_ariths)
    then show ?thesis using mx by (auto simp: word_less_nat_alt)
  qed
  show ?thesis
  proof (cases "bad_reading ?x (t, val, fault)")
    case True
    then have b: "fault \<noteq> 0 \<or> val < tc_min_value ?x \<or> val > tc_max_value ?x" by (simp add: bad_reading_def)
    show ?thesis
    proof (cases "Suc (unat (tc_invalid_count ?x)) < mx")
      case less: True
      then show ?thesis
        using True b lt m1 by (simp add: thermocouple_respond_def upd_tc_def)
    next
      case False
      then show ?thesis
        using True b lt m1
        by (simp add: thermocouple_respond_def upd_tc_def sched_try_shutdown_def sched_shutdown_def irq_disable_def shutdown_def)
    qed
  next
    case False
    then have b: "\<not> (fault \<noteq> 0 \<or> val < tc_min_value ?x \<or> val > tc_max_value ?x)" by (simp add: bad_reading_def)
    show ?thesis
      using False b m1 by (simp add: thermocouple_respond_def upd_tc_def)
  qed
qed

lemma respond_all_run:
  fixes m :: "'e thermocouple_state_scheme"
  assumes "shutdown_status m = 0"
    and "unat (tc_invalid_count (thermocouples m i)) < mx" and "mx = max 1 (unat (tc_max_invalid (thermocouples m i)))"
  shows "if bad_run mx (unat (tc_invalid_count (thermocouples m i))) (map (bad_reading (thermocouples m i)) rs)
    then \<exists>m'. respond_all i rs m = Shutdown ''Thermocouple reader fault'' m'
    else \<exists>m'. respond_all i rs m = Ok () m'"
  using assms
proof (induction rs arbitrary: m)
  case Nil
  then show ?case by (simp add: respond_all_def)
next
  case (Cons r rs)
  obtain t val fault where r: "r = (t, val, fault)" by (cases r)
  let ?x = "thermocouples m i"
  have step: "respond_all i (r # rs) = thn (thermocouple_respond i t val fault i) (respond_all i rs)"
    by (simp add: respond_all_def r)
  show ?case
  proof (cases "bad_reading ?x r \<and> Suc (unat (tc_invalid_count ?x)) \<ge> mx")
    case True
    then show ?thesis using respond_step [OF Cons.prems, of t val fault] by (auto simp: step [unfolded r] r)
  next
    case False
    then obtain m' where m': "thermocouple_respond i t val fault i m = Ok () m'" "shutdown_status m' = 0"
      "thermocouples m' i = ?x\<lparr>tc_invalid_count := (if bad_reading ?x r then tc_invalid_count ?x + 1 else 0)\<rparr>"
      using respond_step [OF Cons.prems, of t val fault] by (auto simp: r)
    have bad: "bad_reading (thermocouples m' i) = bad_reading ?x" by (auto simp: bad_reading_def m'(3) fun_eq_iff)
    have "unat (tc_invalid_count ?x) < 255"
      using Cons.prems(2,3) unat_u8_bound [of "tc_max_invalid ?x"] by linarith
    then have c': "unat (tc_invalid_count (thermocouples m' i)) = (if bad_reading ?x r then Suc (unat (tc_invalid_count ?x)) else 0)"
      by (simp add: m'(3) unat_word_ariths)
    moreover have "unat (tc_invalid_count (thermocouples m' i)) < mx" using False Cons.prems(2,3) c' by auto
    moreover have "mx = max 1 (unat (tc_max_invalid (thermocouples m' i)))" using Cons.prems(3) m'(3) by simp
    ultimately show ?thesis
      using Cons.IH [of m'] m'(1,2) False by (auto simp: step bad split: if_splits)
  qed
qed

text \<open>
  The readings of a temperature sensor shut the firmware down exactly if enough bad ones, as many as the
  host has asked for and at least one, follow each other somewhere among them.
\<close>

theorem thermocouple_fault_shutdown:
  assumes "shutdown_status m = 0" and "tc_invalid_count (thermocouples m i) = 0"
    and "mx = max 1 (unat (tc_max_invalid (thermocouples m i)))"
  shows "if \<exists>k. k + mx \<le> length rs \<and> (\<forall>j < mx. bad_reading (thermocouples m i) (rs ! (k + j)))
    then \<exists>m'. respond_all i rs m = Shutdown ''Thermocouple reader fault'' m'
    else \<exists>m'. respond_all i rs m = Ok () m'"
proof -
  have c: "unat (tc_invalid_count (thermocouples m i)) < mx" using assms(2,3) by simp
  have "bad_run mx 0 (map (bad_reading (thermocouples m i)) rs) \<longleftrightarrow>
     (\<exists>k. k + mx \<le> length rs \<and> (\<forall>j < mx. bad_reading (thermocouples m i) (rs ! (k + j))))" (is "_ = (\<exists>k. ?W k)")
  proof -
    have w: "(k + mx \<le> length rs \<and> (\<forall>j < mx. map (bad_reading (thermocouples m i)) rs ! (k + j))) = ?W k" for k
      by (intro conj_cong refl) (auto simp: nth_map)
    have z: "?W 0 \<Longrightarrow> \<exists>k. ?W k" by blast
    show ?thesis using bad_run_window [of 0 mx "map (bad_reading (thermocouples m i)) rs"] c assms(2) w [of 0] z
      by (simp add: w) blast
  qed
  then show ?thesis using respond_all_run [OF assms(1) c assms(3), of rs] assms(2) by simp
qed

definition sample_thermocouple :: thermocouple_state where
  "sample_thermocouple = (thermocouple_init sample_config sample_board sample_spi_board 16)
     \<lparr>shutdown_status := 0, thermocouples := (\<lambda>_. zero_thermocouple\<lparr>tc_max_value := 100, tc_max_invalid := 2\<rparr>)\<rparr>"

theorem thermocouple_fault_shutdown_witness:
  "\<exists>m'. respond_all 3 [(10, 200, 0), (20, 50, 0), (30, 50, 1), (40, 200, 0)] sample_thermocouple =
     Shutdown ''Thermocouple reader fault'' m'"
proof -
  let ?rs = "[(10, 200, 0), (20, 50, 0), (30, 50, 1), (40, 200, 0)] :: (u32 \<times> u32 \<times> u8) list"
  have x: "thermocouples sample_thermocouple 3 = zero_thermocouple\<lparr>tc_max_value := 100, tc_max_invalid := 2\<rparr>"
    "shutdown_status sample_thermocouple = 0"
    by (simp_all add: sample_thermocouple_def)
  have "2 + 2 \<le> length ?rs \<and> (\<forall>j < 2. bad_reading (thermocouples sample_thermocouple 3) (?rs ! (2 + j)))"
    by (auto simp: x bad_reading_def zero_thermocouple_def less_2_cases_iff)
  then have w: "\<exists>k. k + 2 \<le> length ?rs \<and> (\<forall>j < 2. bad_reading (thermocouples sample_thermocouple 3) (?rs ! (k + j)))" ..
  have mx: "(2 :: nat) = max 1 (unat (tc_max_invalid (thermocouples sample_thermocouple 3)))"
    by (simp add: x zero_thermocouple_def)
  show ?thesis
    using thermocouple_fault_shutdown [of sample_thermocouple 3 2 ?rs] w mx by (simp add: x(2)) (simp add: x(1) zero_thermocouple_def)
qed

subsection \<open>Acceleration samples\<close>

text \<open>The value of an axis in the answer of the chip: two bytes in two's complement, the low one first.\<close>

definition axis_value :: "u8 \<Rightarrow> u8 \<Rightarrow> int" where
  "axis_value low high = 256 * sint high + uint low"

abbreviation sign_ok :: "u8 \<Rightarrow> bool" where
  "sign_ok h \<equiv> h AND 0xf0 = 0 \<or> h AND 0xf0 = 0xf0"

lemma u8_all: "(\<forall>n \<in> set [0..<256]. P (word_of_nat n :: u8)) \<Longrightarrow> P h"
  using unat_u8_bound [of h] by (auto dest: bspec [of _ _ "unat h"])

lemma xy_high: "sign_ok h \<longrightarrow> 256 * uint (h AND 0x1f) - push_bit 9 (uint (h AND 0x10)) = 256 * sint h"
  by (rule u8_all [of "\<lambda>h. sign_ok h \<longrightarrow> 256 * uint (h AND 0x1f) - push_bit 9 (uint (h AND 0x10)) = 256 * sint h"]) code_simp

lemma z_parts: "push_bit 3 (uint (push_bit 5 h)) OR push_bit 6 (uint (push_bit 2 h AND 0x60)) = 256 * (uint (h :: u8) mod 32)"
  by (rule u8_all [of "\<lambda>h. push_bit 3 (uint (push_bit 5 h)) OR push_bit 6 (uint (push_bit 2 h AND 0x60)) = 256 * (uint h mod 32)"])
     code_simp

lemma z_high: "sign_ok h \<longrightarrow> 256 * (uint h mod 32) - push_bit 7 (uint (push_bit 2 h AND 0x40)) = 256 * sint h"
  by (rule u8_all [of "\<lambda>h. sign_ok h \<longrightarrow> 256 * (uint h mod 32) - push_bit 7 (uint (push_bit 2 h AND 0x40)) = 256 * sint h"])
     code_simp

lemma or_plus_low:
  fixes l a :: int
  assumes "0 \<le> l" "l < 256"
  shows "l OR (256 * a) = l + 256 * a"
proof -
  have "take_bit 8 l = l" using assms by (simp add: take_bit_int_eq_self)
  moreover have "take_bit 8 l AND push_bit 8 a = 0" by (rule bit_eqI) (auto simp: bit_simps)
  ultimately have "l AND push_bit 8 a = 0" by simp
  then show ?thesis by (simp add: disjunctive_add_eq_or push_bit_eq_mult mult.commute)
qed

lemma push_high_low: "push_bit 5 (h :: u8) AND 0x1f = 0"
  by (rule u8_all [of "\<lambda>h. push_bit 5 h AND 0x1f = 0"]) code_simp

lemma push_high_sign: "push_bit 5 (h :: u8) AND 0x10 = 0"
  by (rule u8_all [of "\<lambda>h. push_bit 5 h AND 0x10 = 0"]) code_simp

lemma push_high_keep: "push_bit 5 (h :: u8) AND 0xe0 = push_bit 5 h"
  by (rule u8_all [of "\<lambda>h. push_bit 5 h AND 0xe0 = push_bit 5 h"]) code_simp

lemmas push_high = push_high_low push_high_sign push_high_keep

lemma pack_x_high:
  fixes hx hz :: u8
  defines "xz \<equiv> (hx AND 0x1f) OR push_bit 5 hz"
  shows "xz AND 0x1f = hx AND 0x1f" "xz AND 0x10 = hx AND 0x10" "xz AND 0xe0 = push_bit 5 hz"
  unfolding xz_def by (simp_all add: bit.conj_disj_distrib2 and.assoc push_high)

lemma pack_y_high:
  fixes hy hz :: u8
  defines "yz \<equiv> (hy AND 0x1f) OR (push_bit 2 hz AND 0x60)"
  shows "yz AND 0x1f = hy AND 0x1f" "yz AND 0x10 = hy AND 0x10" "yz AND 0xe0 = push_bit 2 hz AND 0x60"
    "yz AND 0x40 = push_bit 2 hz AND 0x40" "yz AND 0x80 = 0"
  unfolding yz_def by (simp_all add: bit.conj_disj_distrib2 and.assoc)

lemma uint_and_lit:
  "uint w AND 0x1f = uint (w AND 0x1f)" "uint w AND 0x10 = uint (w AND 0x10)" "uint w AND 0xe0 = uint (w AND 0xe0)"
  "uint w AND 0x40 = uint (w AND 0x40)" "uint w AND 0x80 = uint (w AND 0x80)" for w :: u8
  by (simp_all add: unsigned_and_eq)

lemma extract_pack:
  fixes lx hx ly hy lz hz :: u8
  assumes "sign_ok hx" "sign_ok hy" "sign_ok hz"
  shows "extract_sample (uint lx) (uint ly) (uint lz) (uint ((hx AND 0x1f) OR push_bit 5 hz))
      (uint ((hy AND 0x1f) OR (push_bit 2 hz AND 0x60))) =
    Some (axis_value lx hx, axis_value ly hy, axis_value lz hz)"
proof -
  have or: "uint l OR push_bit 8 a = uint l + 256 * a" "uint l OR 256 * a = uint l + 256 * a" for l :: u8 and a
    using or_plus_low [of "uint l" a] uint_lt2p [of l] by (simp_all add: push_bit_eq_mult mult.commute)
  have xy: "(uint l OR push_bit 8 (uint (h AND 0x1f))) - push_bit 9 (uint (h AND 0x10)) = axis_value l h"
    if "sign_ok h" for l h :: u8
    unfolding or axis_value_def using xy_high [of h] that by linarith
  have z: "(uint lz OR push_bit 3 (uint (push_bit 5 hz)) OR push_bit 6 (uint (push_bit 2 hz AND 0x60))) -
      push_bit 7 (uint (push_bit 2 hz AND 0x40)) = axis_value lz hz"
    unfolding or.assoc z_parts or axis_value_def using z_high [of hz] assms(3) by linarith
  show ?thesis
    unfolding extract_sample_def uint_and_lit pack_x_high pack_y_high Let_def xy [OF assms(1)] xy [OF assms(2)] z by simp
qed

text \<open>
  The host gets the accelerations that the chip has measured: the samples it takes from the bytes of a message
  are, in order, an error for each damaged answer of the chip and the three two's complement values of the answer otherwise.
\<close>

theorem adxl_samples_roundtrip:
  "extract_samples (map uint (concat (map adxl_pack msgs))) =
     map (\<lambda>msg. if adxl_msg_bad msg then None
       else Some (axis_value (msg ! 1) (msg ! 2), axis_value (msg ! 3) (msg ! 4), axis_value (msg ! 5) (msg ! 6))) msgs"
proof (induction msgs)
  case (Cons msg msgs)
  show ?case
  proof (cases "adxl_msg_bad msg")
    case True
    have "extract_sample 255 255 255 255 255 = None" by (simp add: extract_sample_def)
    then show ?thesis using Cons.IH True by (simp add: adxl_pack_def)
  next
    case False
    then have "sign_ok (msg ! 2)" "sign_ok (msg ! 4)" "sign_ok (msg ! 6)" by (auto simp: adxl_msg_bad_def)
    moreover have "push_bit 2 (msg ! 6) AND 0x60 = push_bit 2 (msg ! 6) AND 0x60" ..
    ultimately show ?thesis
      using Cons.IH False extract_pack [of "msg ! 2" "msg ! 4" "msg ! 6" "msg ! 1" "msg ! 3" "msg ! 5"]
      by (simp only: adxl_pack_def if_False list.map concat.simps append.simps extract_samples.simps)
  qed
qed simp

subsection \<open>Lights\<close>

lemma and_0x8000: "(pos :: u32) AND 0x8000 \<noteq> 0 \<longleftrightarrow> odd (unat pos div 32768)"
proof -
  have "pos AND 0x8000 \<noteq> 0 \<longleftrightarrow> bit pos 15"
    using and_exp_eq_0_iff_not_bit [of pos 15] by simp
  also have "\<dots> \<longleftrightarrow> bit (unat pos) 15" by (simp add: bit_unsigned_iff)
  also have "\<dots> \<longleftrightarrow> odd (unat pos div 32768)" by (simp add: bit_iff_odd)
  finally show ?thesis .
qed

text \<open>The test of the command holds exactly for the updates that stay inside.\<close>

lemma update_guard:
  fixes pos len :: u32 and size :: u16
  assumes "unat size < 0x8000" "unat len < 256"
  shows "(pos AND 0x8000 \<noteq> 0 \<or> pos + len > to_u32 size) \<longleftrightarrow> unat pos + unat len > unat size"
proof -
  have sz: "unat (to_u32 size :: u32) = unat size"
    using unat_u16_bound [of size] by (simp add: unsigned_ucast_eq take_bit_nat_eq_self)
  show ?thesis
  proof (cases "unat pos + unat len < 2 ^ 32")
    case True
    then have "unat (pos + len) = unat pos + unat len" by (simp add: unat_word_ariths)
    moreover have "unat pos div 32768 = 0" if "unat pos + unat len \<le> unat size"
      using that assms(1) by simp
    then have "unat pos + unat len > unat size" if "odd (unat pos div 32768)"
      using that by (metis even_zero not_le)
    ultimately show ?thesis unfolding and_0x8000 word_less_nat_alt sz by auto
  next
    case False
    then have "unat pos div 32768 = 131071" using assms(2) unat_u32_bound [of pos] by simp
    then have "odd (unat pos div 32768)" by simp
    then show ?thesis using False assms(1) unfolding and_0x8000 by simp
  qed
qed

lemma oid_lookup_known:
  assumes "oids m = Some tab"
  shows "i < oid_count m \<and> otyp (tab i) = Some ty \<Longrightarrow> oid_lookup i ty m = Ok () m"
    and "\<not> (i < oid_count m \<and> otyp (tab i) = Some ty) \<Longrightarrow> \<exists>m'. oid_lookup i ty m = Shutdown ''Invalid oid type'' m'"
  using assms by (auto simp: oid_lookup_def sched_shutdown_def irq_disable_def shutdown_def dest: leD)

text \<open>
  An update of the lights stays inside their data: with the bytes of the message in the receive buffer, it replaces
  exactly the bytes from the given position if they are all inside, and shuts down otherwise, for every position, also one
  whose sum with the length wraps around.
\<close>

theorem neopixel_update_inside:
  assumes "oids m = Some tab" and i: "i = to_u8 (args ! 0)" and len: "length (np_data (neopixels m i)) = unat (np_data_size (neopixels m i))"
    and "unat (np_data_size (neopixels m i)) < 0x8000"
    and "unat (args ! 2) < 256" and "unat (args ! 3) + unat (args ! 2) \<le> length (receive_buf m)"
  shows "if i < oid_count m \<and> otyp (tab i) = Some config_neopixel \<and>
       unat (args ! 1) + unat (args ! 2) \<le> length (np_data (neopixels m i))
    then command_neopixel_update args m = Ok () (m\<lparr>neopixels := (neopixels m)(i := (neopixels m i)\<lparr>np_data :=
       take (unat (args ! 1)) (np_data (neopixels m i)) @ take (unat (args ! 2)) (drop (unat (args ! 3)) (receive_buf m)) @
       drop (unat (args ! 1) + unat (args ! 2)) (np_data (neopixels m i))\<rparr>)\<rparr>)
    else \<exists>reason m'. command_neopixel_update args m = Shutdown reason m'"
proof (cases "i < oid_count m \<and> otyp (tab i) = Some config_neopixel")
  case True
  note g = update_guard [OF assms(4,5), of "args ! 1"]
  show ?thesis
  proof (cases "unat (args ! 1) + unat (args ! 2) \<le> unat (np_data_size (neopixels m i))")
    case inside: True
    then have "\<not> (args ! 1 AND 0x8000 \<noteq> 0 \<or> args ! 1 + args ! 2 > to_u32 (np_data_size (neopixels m i)))"
      unfolding g by simp
    then show ?thesis
      using True inside assms(6) len oid_lookup_known(1) [OF assms(1) True]
      by (simp add: command_neopixel_update_def Let_def i [symmetric] command_decode_ptr_def upd_np_def)
  next
    case outside: False
    then have "args ! 1 AND 0x8000 \<noteq> 0 \<or> args ! 1 + args ! 2 > to_u32 (np_data_size (neopixels m i))"
      unfolding g by simp
    then show ?thesis
      using True outside len oid_lookup_known(1) [OF assms(1) True]
      by (simp add: command_neopixel_update_def Let_def i [symmetric] sched_shutdown_def irq_disable_def shutdown_def)
  qed
next
  case False
  then show ?thesis
    using oid_lookup_known(2) [OF assms(1) False] by (auto simp: command_neopixel_update_def Let_def i [symmetric])
qed

definition sample_lights :: neopixel_state where
  "sample_lights = (neopixel_init sample_config sample_board sample_spi_board 16)
     \<lparr>receive_buf := [9, 8, 7, 6], oids := Some (\<lambda>_. \<lparr>otyp = Some config_neopixel, odata = None\<rparr>), oid_count := 4,
      neopixels := (\<lambda>_. zero_neopixel\<lparr>np_data_size := 3, np_data := [1, 2, 3]\<rparr>)\<rparr>"

theorem neopixel_update_inside_witness:
  "command_neopixel_update [2, 1, 2, 1] sample_lights =
     Ok () (sample_lights\<lparr>neopixels := (neopixels sample_lights)(2 := zero_neopixel\<lparr>np_data_size := 3, np_data := [1, 8, 7]\<rparr>)\<rparr>)"
proof -
  have "neopixels sample_lights 2 = zero_neopixel\<lparr>np_data_size := 3, np_data := [1, 2, 3]\<rparr>" "receive_buf sample_lights = [9, 8, 7, 6]"
    "oids sample_lights = Some (\<lambda>_. \<lparr>otyp = Some config_neopixel, odata = None\<rparr>)" "oid_count sample_lights = 4"
    by (simp_all add: sample_lights_def)
  then show ?thesis
    using neopixel_update_inside [of sample_lights "\<lambda>_. \<lparr>otyp = Some config_neopixel, odata = None\<rparr>" 2 "[2, 1, 2, 1]"]
    by (simp add: zero_neopixel_def)
qed

end
