(* ===== verification/Spec2Isabelle.thy ===== *)
theory Spec2Isabelle
  imports Timer_Queue Homing Link Analog_Buttons Outputs Dead_Man Step_Overrun Step_Range Console Fw_Commands Safe_Shutdown
    Host_Motion Smoothing Sensors
begin

text \<open>
  A model of the motion system of the Magneto X printer: the Klipper micro-controller firmware (\<^verbatim>\<open>src/Klipper/src\<close>) and
  the C helpers of its host (\<^verbatim>\<open>src/Klipper/klippy/chelper\<close>), with the theorems that make it correct.

  \<^bold>\<open>The program.\<close>  The host plans moves (\<^verbatim>\<open>trapq.c\<close>), finds the times at which each stepper has to step
  (\<^verbatim>\<open>itersolve.c\<close> with the kinematics \<^verbatim>\<open>kin_*.c\<close>), compresses them into moves of a firmware stepper (\<^verbatim>\<open>stepcompress.c\<close>) and
  sends these as message blocks over a serial line (\<^verbatim>\<open>msgblock.c\<close>, \<^verbatim>\<open>serialqueue.c\<close>, \<^verbatim>\<open>pollreactor.c\<close>).  The firmware takes
  the blocks from its console (\<^verbatim>\<open>generic/serial_irq.c\<close>), checks and dispatches them (\<^verbatim>\<open>command.c\<close>), queues the moves
  (\<^verbatim>\<open>basecmd.c\<close>, \<^verbatim>\<open>stepper.c\<close>) and makes the steps in timer events (\<^verbatim>\<open>sched.c\<close>).  While homing, end stops stop the steppers
  of one micro-controller (\<^verbatim>\<open>endstop.c\<close>, \<^verbatim>\<open>trsync.c\<close>) and the host those of the others (\<^verbatim>\<open>trdispatch.c\<close>).  Any error ends in
  a shutdown that runs the shutdown functions of all modules.

  \<^bold>\<open>How the code is modelled.\<close>

  \<^item> A firmware function is a value of the effect type of \<open>Prelude\<close>: on a machine state it returns (\<open>Ok\<close>), leaves
    through \<^verbatim>\<open>shutdown()\<close> (\<open>Shutdown\<close>), or does what C leaves undefined (\<open>Undef\<close>).  The state is a record: \<open>Machine\<close>
    holds the shared part and every module extends it by its static variables and by the structs it allocates, found
    by their oid.  Pins and messages are a list of outputs; the clock, the pins read, the board's limits and the sizes of
    structs are parameters.  Interrupts happen at the places where the code lets them in, as arguments.
  \<^item> A host function maps the old state to the new one; \<open>None\<close> stands for undefined behaviour or for fuel that ran out.
    Doubles are real numbers: rounding is not modelled.
  \<^item> Integers are words of their width.  The signed \<^verbatim>\<open>int32_t\<close> arithmetic of the step compressor is on integers with a check
    of the range after every operation (\<open>in32\<close>), and a result out of range is \<open>Overflowed\<close>.

  \<^bold>\<open>Theories of the firmware.\<close>

  \<^item> \<open>Sched\<close>: \<^verbatim>\<open>sched.c\<close>, \<^verbatim>\<open>generic/timer_irq.c\<close>.  \<open>Timer_List\<close> and \<open>Timer_Queue\<close>: the linked list of timers is a
    priority queue, the contract \<open>timer_queue\<close> of the modules that schedule timers.
  \<^item> \<open>Basecmd\<close>: \<^verbatim>\<open>basecmd.c\<close>.  \<open>Alloc\<close>: chunks never overlap.  \<open>Move_Pool\<close>: the pool of moves, and queues on a shared heap
    of nodes as the contract \<open>heap_fifo\<close> of \<open>Fifo\<close>.  \<open>Oids\<close>: loops over the objects of a type, and how a failed
    allocation cuts them short.
  \<^item> \<open>Crc16\<close>, \<open>Vlq\<close>, \<open>Command\<close>: \<^verbatim>\<open>generic/crc16_ccitt.c\<close>, \<^verbatim>\<open>command.c\<close>.  \<open>Framing\<close> and \<open>Dispatch\<close>: blocks are recognised,
    damaged ones are not, the search makes progress, and dispatching reads only the block.
  \<^item> \<open>Serial_Irq\<close>: \<^verbatim>\<open>generic/serial_irq.c\<close>.  \<open>Console\<close>: the receive and transmit buffers are queues, whatever interrupts occur.
  \<^item> \<open>Trsync\<close>, \<open>Stepper\<close>: \<^verbatim>\<open>trsync.c\<close>, \<^verbatim>\<open>stepper.c\<close>.  \<open>Motion\<close>: the times of the steps of a move.  \<open>Motor\<close>: the reported
    position is that of the motor.  \<open>Homing\<close>: a trigger stops every stepper that waits for it (contract \<open>trigger_client\<close>)
    and changes no reported position.
  \<^item> \<open>Endstop\<close>, \<open>Adccmds\<close>, \<open>Buttons\<close>, \<open>Pulse_Counter\<close>: the inputs; properties in \<open>Inputs\<close> and \<open>Analog_Buttons\<close>.
    \<open>Gpiocmds\<close>, \<open>Pwmcmds\<close>, \<open>Tmcuart\<close>: the outputs; properties in \<open>Outputs\<close>.
  \<^item> \<open>Spicmds\<close>, \<open>Thermocouple\<close>, \<open>Adxl345\<close>, \<open>Neopixel\<close>, \<open>I2ccmds\<close>: devices on a bus (\<^verbatim>\<open>spicmds.c\<close>, \<^verbatim>\<open>spi_software.c\<close>,
    \<^verbatim>\<open>thermocouple.c\<close>, \<^verbatim>\<open>sensor_adxl345.c\<close>, \<^verbatim>\<open>neopixel.c\<close>, \<^verbatim>\<open>i2ccmds.c\<close>); properties in \<open>Sensors\<close>.
  \<^item> \<open>Firmware\<close>: the tables of commands, timer functions, tasks and shutdown functions, and the main loop, for a build without
    the devices on a bus.  \<open>Fw_Commands\<close>: commands get the arguments that they are declared with.  \<open>Recovery\<close> and
    \<open>Safe_Shutdown\<close>: a shutdown leaves the machine safe.

  \<^bold>\<open>Theories of the host.\<close>

  \<^item> \<open>Msgblock\<close>, \<open>Pollreactor\<close>, \<open>Serialqueue\<close>: the link.  \<open>Wire\<close>: host and firmware agree on blocks and numbers.  \<open>Go_Back_N\<close>
    and \<open>Link\<close>: over lines that lose blocks, commands are dispatched in order and once (contract \<open>go_back_n\<close>, with a window
    of 12 blocks and sequence numbers modulo 16).
  \<^item> \<open>Trdispatch\<close>: \<^verbatim>\<open>trdispatch.c\<close>.  \<open>Dead_Man\<close>: the time limits that stop a micro-controller whose partners are silent.
  \<^item> \<open>Trapq\<close>, \<open>Kinematics\<close>, \<open>Itersolve\<close>: the moves, all kinematics, and the solver.  \<open>Step_Search\<close> and \<open>Step_Ends\<close>: the search
    finds its steps and ends, for positions of bounded speed (\<open>lipschitz_position\<close>).  \<open>Step_Tracking\<close>: this holds for the
    cartesian, corexy, corexz, polar radius and winch steppers (\<open>bounded_stepper\<close>).  \<open>Planned_Motion\<close>, \<open>Move_Queue\<close>, \<open>Motion_Steps\<close> and
    \<open>Host_Motion\<close>: these steppers follow the planned motion.  \<open>Smoothing\<close>: input shaping and pressure advance.
  \<^item> \<open>Stepcompress\<close>: \<^verbatim>\<open>stepcompress.c\<close>.  \<open>Step_Accuracy\<close>: what is sent makes the firmware step at the requested times, up
    to the allowed error, and the search ends.  \<open>Step_Range\<close>: for at most 46341 steps within \<^verbatim>\<open>0x30000000\<close> ticks nothing overflows
    and a flush succeeds, while a longer even series overflows.  \<open>Step_Overrun\<close>: a store past the end of the step queue.

  \<^bold>\<open>Loops and fuel.\<close>  Loops that count down or walk a list are structural or have a measure.  \<open>outer_loop\<close> of the
  compressor has 65537 rounds, one more than there are values of \<open>add\<close>, and is shown to end within them; \<open>flush_loop\<close> has one
  round per queued step and one more.  \<open>seek_loop\<close> of the solver is a partial function, shown to return.  Waits for the
  clock take fuel as an argument.  \<open>recover\<close> counts the shutdowns that start again, and one is enough from the states
  of \<open>shutdown_makes_safe\<close>.

  \<^bold>\<open>Not modelled.\<close>  The Python part of the host but for the unpacking of accelerometer samples; the drivers of the boards,
  which are parameters; other transports (USB, CAN); displays, the sd card, the angle and mpu9250 sensors and the
  debug commands; vendor libraries, build scripts and configuration.  Freeing memory, log texts and mutexes of the host
  helpers are left out: the model is sequential.  The properties of step generation do not cover delta, rotary delta,
  deltesian, polar angle and extruder steppers and input shapers, whose positions are modelled.
\<close>

end
